(* ===== verification/Asm2_Prelude.thy ===== *)
theory Asm2_Prelude
  imports Complex_Main "HOL-Library.Word"
begin

text \<open>
  Shared vocabulary of the development: machine-integer types, the C conversions the source
  relies on, little-endian byte codecs, C strings as byte lists without the terminating NUL,
  decimal printing (\<open>%d\<close>, \<open>%zu\<close>), and generic list lemmas.

  C \<open>int\<close> values are modelled as HOL \<open>int\<close> and every narrowing cast is written with
  \<open>i32\<close>; \<open>uint32_t\<close>, \<open>uint64_t\<close> and bytes are words, whose arithmetic wraps.
\<close>

unbundle bit_operations_syntax

type_synonym u8 = "8 word"
type_synonym u16 = "16 word"
type_synonym u32 = "32 word"
type_synonym u64 = "64 word"
type_synonym bytes = "u8 list"

named_theorems store_simps
named_theorems registry_simps
named_theorems input_simps
named_theorems queue_simps

section \<open>C integers\<close>

definition i32 :: "int \<Rightarrow> int" where
  "i32 x = signed_take_bit 31 x"

definition fits_i32 :: "int \<Rightarrow> bool" where
  "fits_i32 x \<longleftrightarrow> - 2147483648 \<le> x \<and> x < 2147483648"

lemma i32_id [simp]: "fits_i32 x \<Longrightarrow> i32 x = x"
  unfolding i32_def fits_i32_def
  by (rule signed_take_bit_int_eq_self) simp_all

lemma fits_i32_i32 [simp]: "fits_i32 (i32 x)"
  unfolding i32_def fits_i32_def
  using signed_take_bit_int_greater_eq_minus_exp [of 31 x] signed_take_bit_int_less_exp [of 31 x]
  by simp

text \<open>C integer division truncates towards zero.\<close>

definition c_div :: "int \<Rightarrow> int \<Rightarrow> int" where
  "c_div a b = sgn a * sgn b * (\<bar>a\<bar> div \<bar>b\<bar>)"

lemma c_div_nonneg [simp]: "0 \<le> a \<Longrightarrow> 0 < b \<Longrightarrow> c_div a b = a div b"
  by (cases "a = 0") (auto simp: c_div_def)

section \<open>Little-endian 32-bit words\<close>

definition put_le32 :: "u32 \<Rightarrow> bytes" where
  "put_le32 w = [ucast w, ucast (drop_bit 8 w), ucast (drop_bit 16 w), ucast (drop_bit 24 w)]"

definition get_le32 :: "u8 \<Rightarrow> u8 \<Rightarrow> u8 \<Rightarrow> u8 \<Rightarrow> u32" where
  "get_le32 a b c d =
     ucast a OR push_bit 8 (ucast b) OR push_bit 16 (ucast c) OR push_bit 24 (ucast d)"

lemma length_put_le32 [simp]: "length (put_le32 w) = 4"
  by (simp add: put_le32_def)

lemma get_put_le32:
  fixes w :: u32
  shows "get_le32 (ucast w) (ucast (drop_bit 8 w)) (ucast (drop_bit 16 w)) (ucast (drop_bit 24 w)) = w"
proof (rule bit_word_eqI)
  fix n
  assume "n < LENGTH(32)"
  then consider "n < 8" | "8 \<le> n" "n < 16" | "16 \<le> n" "n < 24" | "24 \<le> n" "n < 32"
    by fastforce
  then show "bit (get_le32 (ucast w) (ucast (drop_bit 8 w)) (ucast (drop_bit 16 w))
      (ucast (drop_bit 24 w))) n = bit w n"
    by cases (auto simp: get_le32_def bit_simps)
qed

lemma u8_bit_high [simp]: "8 \<le> n \<Longrightarrow> \<not> bit (a :: u8) n"
  using bit_imp_le_length [of a n] by auto

lemma put_get_le32: "put_le32 (get_le32 a b c d) = [a, b, c, d]"
  unfolding put_le32_def get_le32_def
  by (auto intro!: bit_word_eqI simp: bit_simps)

section \<open>C strings\<close>

text \<open>The bytes of a C string, up to and without its NUL.\<close>

definition is_cstr :: "bytes \<Rightarrow> bool" where
  "is_cstr s \<longleftrightarrow> 0 \<notin> set s"

definition cstr :: "string \<Rightarrow> bytes" where
  "cstr s = map of_char s"

definition strnlen :: "bytes \<Rightarrow> nat \<Rightarrow> nat" where
  "strnlen s n = min (length s) n"

definition starts_with :: "bytes \<Rightarrow> bytes \<Rightarrow> bool" where
  "starts_with p s \<longleftrightarrow> take (length p) s = p"

lemma starts_with_append [simp]: "starts_with p (p @ s)"
  by (simp add: starts_with_def)

lemma starts_withE: "starts_with p s \<Longrightarrow> \<exists>r. s = p @ r"
  unfolding starts_with_def by (metis append_take_drop_id)

lemma is_cstr_append [simp]: "is_cstr (a @ b) \<longleftrightarrow> is_cstr a \<and> is_cstr b"
  by (auto simp: is_cstr_def)

lemma is_cstr_Nil [simp]: "is_cstr []"
  by (simp add: is_cstr_def)

section \<open>Decimal printing\<close>

fun digits :: "nat \<Rightarrow> nat list" where
  "digits n = (if n < 10 then [n] else digits (n div 10) @ [n mod 10])"

declare digits.simps [simp del]

definition show_nat :: "nat \<Rightarrow> bytes" where
  "show_nat n = map (\<lambda>d. of_nat (48 + d)) (digits n)"

definition show_int :: "int \<Rightarrow> bytes" where
  "show_int i = (if i < 0 then 45 # show_nat (nat (- i)) else show_nat (nat i))"

lemma digits_less_10: "d \<in> set (digits n) \<Longrightarrow> d < 10"
proof (induction n rule: digits.induct)
  case (1 n)
  then show ?case
    by (cases "n < 10") (auto simp: digits.simps [of n])
qed

lemma digits_nonempty [simp]: "digits n \<noteq> []"
  by (subst digits.simps) simp

definition digit_value :: "nat list \<Rightarrow> nat" where
  "digit_value ds = foldl (\<lambda>acc d. 10 * acc + d) 0 ds"

lemma digit_value_digits: "digit_value (digits n) = n"
proof (induction n rule: digits.induct)
  case (1 n)
  show ?case
  proof (cases "n < 10")
    case True
    then show ?thesis by (simp add: digits.simps [of n] digit_value_def)
  next
    case False
    then have "digit_value (digits (n div 10)) = n div 10" by (rule "1.IH")
    with False show ?thesis
      by (simp add: digits.simps [of n] digit_value_def)
  qed
qed

lemma digits_inj: "digits m = digits n \<Longrightarrow> m = n"
  by (metis digit_value_digits)

lemma unat_digit_byte: "d < 10 \<Longrightarrow> unat (of_nat (48 + d) :: u8) = 48 + d"
  by (simp only: unat_of_nat) (simp add: take_bit_eq_mod)

lemma digit_byte_neq [simp]:
  assumes "d < 10"
  shows "(of_nat (48 + d) :: u8) \<noteq> 0" "(of_nat (48 + d) :: u8) \<noteq> 58" "(of_nat (48 + d) :: u8) \<noteq> 45"
proof -
  note u = unat_digit_byte [OF assms]
  have ne: "k < 48 \<or> 57 < k \<Longrightarrow> k < 256 \<Longrightarrow> (of_nat (48 + d) :: u8) \<noteq> of_nat k" for k
  proof
    assume k: "k < 48 \<or> 57 < k" "k < 256" and e: "(of_nat (48 + d) :: u8) = of_nat k"
    have "unat (of_nat k :: u8) = k"
      using k(2) by (simp only: unat_of_nat) (simp add: take_bit_eq_mod)
    with e u have "48 + d = k" by metis
    with k(1) assms show False by auto
  qed
  show "(of_nat (48 + d) :: u8) \<noteq> 0" using ne [of 0] by simp
  show "(of_nat (48 + d) :: u8) \<noteq> 58" using ne [of 58] by simp
  show "(of_nat (48 + d) :: u8) \<noteq> 45" using ne [of 45] by simp
qed

section \<open>Decimal scanning\<close>

text \<open>
  The part of \<open>fscanf("%d")\<close> and \<open>strtol(_, _, 10)\<close> the program uses: leading white space is
  skipped, one sign is accepted, and the longest run of digits is converted; without a digit the
  conversion fails. The value is the mathematical one: what the C library does with a number
  outside the target type is decided by the caller.
\<close>

definition is_space :: "u8 \<Rightarrow> bool" where
  "is_space b \<longleftrightarrow> b = 32 \<or> (9 \<le> b \<and> b \<le> 13)"

definition is_digit :: "u8 \<Rightarrow> bool" where
  "is_digit b \<longleftrightarrow> 48 \<le> b \<and> b \<le> 57"

definition scan_nat :: "bytes \<Rightarrow> (nat \<times> bytes) option" where
  "scan_nat s =
     (let ds = takeWhile is_digit s
      in if ds = [] then None
         else Some (digit_value (map (\<lambda>b. unat b - 48) ds), dropWhile is_digit s))"

definition scan_int :: "bytes \<Rightarrow> (int \<times> bytes) option" where
  "scan_int s =
     (case dropWhile is_space s of
        [] \<Rightarrow> None
      | b # r \<Rightarrow>
          if b = 45 then map_option (\<lambda>(n, t). (- int n, t)) (scan_nat r)
          else if b = 43 then map_option (\<lambda>(n, t). (int n, t)) (scan_nat r)
          else map_option (\<lambda>(n, t). (int n, t)) (scan_nat (b # r)))"

lemma is_digit_byte [simp]: "d < 10 \<Longrightarrow> is_digit (of_nat (48 + d))"
  using unat_digit_byte [of d] unfolding is_digit_def word_le_nat_alt by simp

lemma show_nat_digits: "b \<in> set (show_nat n) \<Longrightarrow> is_digit b"
  unfolding show_nat_def using digits_less_10 is_digit_byte by auto

lemma show_nat_nonempty [simp]: "show_nat n \<noteq> []"
  by (simp add: show_nat_def)

lemma show_nat_values: "map (\<lambda>b. unat b - 48) (show_nat n) = digits n"
proof -
  have "map (\<lambda>d. unat (of_nat (48 + d) :: u8) - 48) (digits n) = map (\<lambda>d. d) (digits n)"
    by (rule map_cong) (auto dest: digits_less_10 simp only: unat_digit_byte diff_add_inverse)
  then show ?thesis by (simp add: show_nat_def comp_def)
qed

lemma scan_show_nat:
  assumes "rest = [] \<or> \<not> is_digit (hd rest)"
  shows "scan_nat (show_nat n @ rest) = Some (n, rest)"
proof -
  have rest: "takeWhile is_digit rest = []" "dropWhile is_digit rest = rest"
    using assms by (cases rest; simp)+
  have "takeWhile is_digit (show_nat n @ rest) = show_nat n"
    "dropWhile is_digit (show_nat n @ rest) = rest"
    using rest by (auto simp: takeWhile_append2 dropWhile_append2 show_nat_digits)
  then show ?thesis
    by (simp add: scan_nat_def show_nat_values digit_value_digits)
qed

lemma digit_not_space: "is_digit b \<Longrightarrow> \<not> is_space b \<and> b \<noteq> 45 \<and> b \<noteq> 43"
  unfolding is_digit_def is_space_def word_le_nat_alt by auto

lemma show_nat_Cons: "\<exists>b r. show_nat n = b # r \<and> is_digit b"
  using show_nat_digits [of _ n] show_nat_nonempty [of n] by (cases "show_nat n") auto

lemma scan_show_int:
  assumes "rest = [] \<or> \<not> is_digit (hd rest)"
  shows "scan_int (show_int i @ rest) = Some (i, rest)"
proof (cases "i < 0")
  case True
  then show ?thesis
    using assms by (simp add: show_int_def scan_int_def scan_show_nat is_space_def)
next
  case False
  obtain b r where b: "show_nat (nat i) = b # r" "is_digit b"
    using show_nat_Cons by blast
  have "scan_nat (b # r @ rest) = Some (nat i, rest)"
    using scan_show_nat [OF assms, of "nat i"] b(1) by simp
  with False b digit_not_space [OF b(2)] show ?thesis
    by (simp add: show_int_def scan_int_def)
qed

end
