(* ===== verification/Asm2_FirstRun.thy ===== *)
theory Asm2_FirstRun
  imports Asm2_Prelude
begin

text \<open>
  The first-run recovery sequence: the touch geometry and resume policy of \<open>first_accept.c\<close>, and
  the part of \<open>main.c\<close> that finds the stage to start from (\<open>configure_first_run_touch\<close> and the
  migration of legacy markers). Extents and stages are C \<open>int\<close>s; the intermediate products are
  \<open>int64_t\<close> in the source and exact here, and the final cast is \<open>i32\<close>. The out pointers \<open>x\<close>,
  \<open>y\<close> become a pair.
\<close>

section \<open>Stages and geometry (first\_accept.c)\<close>

abbreviation (input) FIRST_RUN_TOUCH_LEGAL :: int where "FIRST_RUN_TOUCH_LEGAL \<equiv> 0"
abbreviation (input) FIRST_RUN_TOUCH_UPDATE_LOG :: int where "FIRST_RUN_TOUCH_UPDATE_LOG \<equiv> 1"
abbreviation (input) FIRST_RUN_TOUCH_CLOUD_NOTICE :: int where "FIRST_RUN_TOUCH_CLOUD_NOTICE \<equiv> 2"
abbreviation (input) FIRST_RUN_TOUCH_COMPLETE :: int where "FIRST_RUN_TOUCH_COMPLETE \<equiv> 3"

definition positive_extent :: "int \<Rightarrow> int" where
  "positive_extent extent = (if extent > 0 then extent else 1)"

definition is_square_layout :: "int \<Rightarrow> int \<Rightarrow> bool" where
  "is_square_layout width height \<longleftrightarrow> width * 8 \<le> height * 9"

definition first_accept_position :: "int \<Rightarrow> int \<Rightarrow> int \<times> int" where
  "first_accept_position drawable_width drawable_height =
     (let width = positive_extent drawable_width;
          height = positive_extent drawable_height;
          square = is_square_layout width height;
          compact = width * 2 \<le> height * 3;
          vertical_thousandths = (if square then 675 else if compact then 790 else 883)
      in (c_div width 2, i32 (c_div (height * vertical_thousandths) 1000)))"

definition first_run_touch_position :: "int \<Rightarrow> int \<Rightarrow> int \<Rightarrow> int \<times> int" where
  "first_run_touch_position stage drawable_width drawable_height =
     (let width = positive_extent drawable_width;
          height = positive_extent drawable_height
      in if stage = FIRST_RUN_TOUCH_CLOUD_NOTICE
         then (c_div width 2, i32 (c_div height 2 + c_div (width * 3) 32))
         else first_accept_position width height)"

definition first_accept_legacy_marker_requires_retry :: "int \<Rightarrow> int \<Rightarrow> bool" where
  "first_accept_legacy_marker_requires_retry drawable_width drawable_height \<longleftrightarrow>
     is_square_layout (positive_extent drawable_width) (positive_extent drawable_height)"

definition first_run_resume_stage :: "int \<Rightarrow> int" where
  "first_run_resume_stage stored_stage =
     (if stored_stage \<ge> FIRST_RUN_TOUCH_LEGAL \<and> stored_stage < FIRST_RUN_TOUCH_COMPLETE
      then stored_stage else FIRST_RUN_TOUCH_LEGAL)"

lemma positive_extent_pos [simp]: "0 < positive_extent e"
  by (simp add: positive_extent_def)

lemma positive_extent_fits [simp]: "fits_i32 e \<Longrightarrow> fits_i32 (positive_extent e)"
  by (simp add: positive_extent_def fits_i32_def)

lemma positive_extent_id [simp]: "0 < e \<Longrightarrow> positive_extent e = e"
  by (simp add: positive_extent_def)

lemma div_below: "(p :: int) < h * 1000 \<Longrightarrow> p div 1000 < h"
  by presburger

lemma fraction_bounds:
  fixes h k :: int
  assumes "0 < h" "0 \<le> k" "k < 1000"
  shows "0 \<le> h * k div 1000" "h * k div 1000 < h"
proof -
  show "0 \<le> h * k div 1000" using assms by (simp add: pos_imp_zdiv_nonneg_iff)
  have "h * k < h * 1000" using assms by simp
  then show "h * k div 1000 < h" by (rule div_below)
qed

lemma first_accept_position_bounds:
  assumes "0 < w" "0 < h" "fits_i32 w" "fits_i32 h" "first_accept_position w h = (x, y)"
  shows "0 \<le> x \<and> x < w \<and> 0 \<le> y \<and> y < h"
proof -
  let ?k = "if is_square_layout w h then 675 else if w * 2 \<le> h * 3 then 790 else (883 :: int)"
  have k: "0 \<le> ?k" "?k < 1000" by simp_all
  note b = fraction_bounds [OF assms(2) k]
  then have "fits_i32 (h * ?k div 1000)"
    using assms(4) by (simp add: fits_i32_def)
  moreover have "c_div (h * ?k) 1000 = h * ?k div 1000"
    using assms(2) k by (intro c_div_nonneg) simp_all
  ultimately have "x = w div 2" "y = h * ?k div 1000"
    using assms(1,2,5) by (simp_all add: first_accept_position_def Let_def)
  with b assms(1) show ?thesis by simp
qed

lemma cloud_position:
  assumes "0 < w" "0 < h" "fits_i32 w" "fits_i32 h"
  shows "first_run_touch_position FIRST_RUN_TOUCH_CLOUD_NOTICE w h = (w div 2, h div 2 + w * 3 div 32)"
proof -
  have "w * 3 div 32 \<le> 2147483648 * 3 div 32" "0 \<le> w * 3 div 32"
    using assms by (auto simp: fits_i32_def pos_imp_zdiv_nonneg_iff intro!: zdiv_mono1)
  moreover have "h div 2 \<le> 1073741824" "0 \<le> h div 2"
    using assms by (auto simp: fits_i32_def)
  ultimately have "fits_i32 (h div 2 + w * 3 div 32)"
    by (simp add: fits_i32_def)
  with assms show ?thesis
    by (simp add: first_run_touch_position_def Let_def)
qed

text \<open>Every touch position the recovery sequence uses lies inside the drawable, for every
  stage and every positive extent that a C int can hold, provided the drawable is no wider than 16/3
  of its height (the cloud notice is centred and scaled with the width).\<close>

theorem first_run_position_inside:
  assumes "0 < w" "0 < h" "fits_i32 w" "fits_i32 h" "3 * w + 32 \<le> 16 * h"
    and "first_run_touch_position stage w h = (x, y)"
  shows "0 \<le> x \<and> x < w \<and> 0 \<le> y \<and> y < h"
proof (cases "stage = FIRST_RUN_TOUCH_CLOUD_NOTICE")
  case True
  then have "x = w div 2" "y = h div 2 + w * 3 div 32"
    using assms cloud_position by auto
  with assms show ?thesis by (auto simp: pos_imp_zdiv_nonneg_iff)
next
  case False
  then have "first_accept_position w h = (x, y)"
    using assms by (simp add: first_run_touch_position_def)
  with assms show ?thesis by (intro first_accept_position_bounds)
qed

theorem first_run_position_inside_witness:
  "first_run_touch_position 2 1280 720 = (640, 480) \<and>
   (0 \<le> (640::int) \<and> (640::int) < 1280 \<and> 0 \<le> (480::int) \<and> (480::int) < 720)"
proof -
  have p: "first_run_touch_position 2 1280 720 = (640, 480)"
    by (subst cloud_position) (simp_all add: fits_i32_def)
  have "0 \<le> (640::int) \<and> (640::int) < 1280 \<and> 0 \<le> (480::int) \<and> (480::int) < 720"
    by (rule first_run_position_inside [OF _ _ _ _ _ p]) (simp_all add: fits_i32_def)
  with p show ?thesis by simp
qed

text \<open>The layouts pinned by the repository's geometry test.\<close>

lemma geometry_regressions:
  "first_accept_position 640 480 = (320, 379)"
  "first_accept_position 1280 720 = (640, 635)"
  "first_accept_position 1920 1080 = (960, 953)"
  "first_accept_position 720 720 = (360, 486)"
  "first_accept_position 900 800 = (450, 540)"
  "first_accept_position 901 800 = (450, 632)"
  by (simp_all add: first_accept_position_def positive_extent_def is_square_layout_def Let_def
      fits_i32_def)

section \<open>Where the sequence starts (main.c)\<close>

abbreviation (input) FIRST_ACCEPT_LEGACY_V1 :: int where "FIRST_ACCEPT_LEGACY_V1 \<equiv> 4"
abbreviation (input) FIRST_ACCEPT_LEGACY_V2 :: int where "FIRST_ACCEPT_LEGACY_V2 \<equiv> 5"

text \<open>The host's file system, as far as these functions look at it: \<open>access(_, F_OK)\<close> and the
  contents \<open>fopen\<close> and \<open>fscanf\<close> see (\<open>None\<close>: the file cannot be opened).\<close>

record first_run_fs =
  fs_exists :: "bytes \<Rightarrow> bool"
  fs_contents :: "bytes \<Rightarrow> bytes option"

definition save_dir_prefix :: bytes where
  "save_dir_prefix = cstr ''Android/data/com.gameloft.android.ANMP.GloftASHM/files/''"

definition first_run_touch_state_name :: bytes where
  "first_run_touch_state_name = save_dir_prefix @ cstr ''save/asm2-first-run-touch-state-v3''"

definition first_accept_v2_marker_name :: bytes where
  "first_accept_v2_marker_name = save_dir_prefix @ cstr ''save/.asm2-legal-accepted-v2''"

definition first_accept_v1_marker_name :: bytes where
  "first_accept_v1_marker_name = save_dir_prefix @ cstr ''save/.asm2-legal-accepted-v1''"

definition existing_profile_marker_name :: bytes where
  "existing_profile_marker_name = save_dir_prefix @ cstr ''ud_Control.sav''"

definition join_path :: "nat \<Rightarrow> bytes \<Rightarrow> bytes \<Rightarrow> bytes option" where
  "join_path output_size directory name =
     (let joined = directory @ [47] @ name
      in if length joined < output_size then Some joined else None)"

definition fscanf_next :: "bytes \<Rightarrow> int option" where
  "fscanf_next contents =
     (if starts_with (cstr ''next='') contents
      then map_option fst (scan_int (drop 5 contents)) else None)"

definition configure_first_run_touch :: "first_run_fs \<Rightarrow> bytes \<Rightarrow> int \<times> bytes" where
  "configure_first_run_touch fs storage_root =
     (case (join_path 4096 storage_root first_run_touch_state_name,
            join_path 4096 storage_root first_accept_v1_marker_name,
            join_path 4096 storage_root first_accept_v2_marker_name,
            join_path 4096 storage_root existing_profile_marker_name) of
        (Some state_path, Some v1_marker, Some v2_marker, Some existing_profile) \<Rightarrow>
          (if fs_exists fs existing_profile then FIRST_RUN_TOUCH_COMPLETE
           else case fs_contents fs state_path of
             Some contents \<Rightarrow>
               (case fscanf_next contents of
                  Some next_stage \<Rightarrow>
                    if next_stage \<ge> FIRST_RUN_TOUCH_LEGAL \<and> next_stage \<le> FIRST_RUN_TOUCH_COMPLETE
                    then first_run_resume_stage next_stage else FIRST_RUN_TOUCH_LEGAL
                | None \<Rightarrow> FIRST_RUN_TOUCH_LEGAL)
           | None \<Rightarrow>
               if fs_exists fs v2_marker then FIRST_ACCEPT_LEGACY_V2
               else if fs_exists fs v1_marker then FIRST_ACCEPT_LEGACY_V1
               else FIRST_RUN_TOUCH_LEGAL, state_path)
      | _ \<Rightarrow> (FIRST_RUN_TOUCH_COMPLETE, []))"

text \<open>\<open>main\<close>: the stage handed to \<open>asm2_input_init\<close>, after migration of the legacy markers with
  the landscape extents of the drawable.\<close>

definition resolve_first_run_stage :: "int \<Rightarrow> int \<Rightarrow> int \<Rightarrow> int" where
  "resolve_first_run_stage configuration video_width video_height =
     (let landscape_width = (if video_width \<ge> video_height then video_width else video_height);
          landscape_height = (if video_width \<ge> video_height then video_height else video_width)
      in if configuration = FIRST_ACCEPT_LEGACY_V1
         then (if first_accept_legacy_marker_requires_retry landscape_width landscape_height
               then FIRST_RUN_TOUCH_LEGAL else FIRST_RUN_TOUCH_UPDATE_LOG)
         else if configuration = FIRST_ACCEPT_LEGACY_V2 then FIRST_RUN_TOUCH_UPDATE_LOG
         else configuration)"

lemma resume_stage_range: "0 \<le> first_run_resume_stage s \<and> first_run_resume_stage s < 3"
  by (simp add: first_run_resume_stage_def)

lemma resume_stage_id [simp]: "0 \<le> s \<Longrightarrow> s < 3 \<Longrightarrow> first_run_resume_stage s = s"
  by (simp add: first_run_resume_stage_def)

lemma configure_range:
  "fst (configure_first_run_touch fs dir) \<in> {0, 1, 2, 3, 4, 5}"
proof -
  have "first_run_resume_stage s \<in> {0, 1, 2}" for s
    using resume_stage_range [of s] by auto
  then show ?thesis
    by (auto simp: configure_first_run_touch_def split: option.split)
qed

lemma marker_name_lengths:
  "length first_run_touch_state_name < 95" "length first_accept_v1_marker_name < 95"
  "length first_accept_v2_marker_name < 95" "length existing_profile_marker_name < 95"
  by (simp_all add: first_run_touch_state_name_def first_accept_v1_marker_name_def
      first_accept_v2_marker_name_def existing_profile_marker_name_def save_dir_prefix_def cstr_def)

lemma join_path_fits [simp]:
  "length dir \<le> 4000 \<Longrightarrow> length name < 95 \<Longrightarrow> join_path 4096 dir name = Some (dir @ [47] @ name)"
  by (simp add: join_path_def)

text \<open>With a storage path that fits, the nested checks of \<open>configure_first_run_touch\<close> reduce to
  the questions asked of the file system.\<close>

lemma configure_fitting:
  assumes "length dir \<le> 4000"
  shows "configure_first_run_touch fs dir =
    (if fs_exists fs (dir @ [47] @ existing_profile_marker_name) then 3
     else case fs_contents fs (dir @ [47] @ first_run_touch_state_name) of
       Some contents \<Rightarrow>
         (case fscanf_next contents of
            Some s \<Rightarrow> if 0 \<le> s \<and> s \<le> 3 then first_run_resume_stage s else 0
          | None \<Rightarrow> 0)
     | None \<Rightarrow>
         if fs_exists fs (dir @ [47] @ first_accept_v2_marker_name) then 5
         else if fs_exists fs (dir @ [47] @ first_accept_v1_marker_name) then 4 else 0,
     dir @ [47] @ first_run_touch_state_name)"
  using assms marker_name_lengths by (simp add: configure_first_run_touch_def)

text \<open>Restart policy: with a storage path short enough to name its files, the recovery
  sequence is skipped exactly when the game's own controls profile exists. A persisted state file,
  whatever it holds (even a stored COMPLETE), and every legacy marker restart it at an earlier
  stage.\<close>

theorem first_run_skipped_iff_profile:
  assumes "length dir \<le> 4000"
  shows "resolve_first_run_stage (fst (configure_first_run_touch fs dir)) w h = FIRST_RUN_TOUCH_COMPLETE
    \<longleftrightarrow> fs_exists fs (dir @ [47] @ existing_profile_marker_name)"
proof -
  have "first_run_resume_stage s \<noteq> 3 \<and> first_run_resume_stage s \<noteq> 4 \<and> first_run_resume_stage s \<noteq> 5" for s
    using resume_stage_range [of s] by auto
  then show ?thesis
    by (auto simp: configure_fitting [OF assms] resolve_first_run_stage_def Let_def split: option.split)
qed

theorem first_run_skipped_iff_profile_witness:
  "resolve_first_run_stage (fst (configure_first_run_touch
      \<lparr>fs_exists = (\<lambda>p. False), fs_contents = (\<lambda>p. Some (cstr ''next=3''))\<rparr> (cstr ''/storage''))) 720 720 \<noteq> 3"
  using first_run_skipped_iff_profile [of "cstr ''/storage''"
      "\<lparr>fs_exists = (\<lambda>p. False), fs_contents = (\<lambda>p. Some (cstr ''next=3''))\<rparr>" 720 720]
  by (simp add: cstr_def)

end
