(* ===== verification/Asm2_Input.thy ===== *)
theory Asm2_Input
  imports Asm2_FirstRun
begin

text \<open>
  \<open>input.c\<close>: SDL events are turned into the guest's controller, key and touch callbacks.

  The callbacks' effect on the guest is the log \<open>in_log\<close> of the calls made, in order; a callback
  pointer that is NULL is a flag of \<open>input_callbacks\<close>. What SDL, the file system and the
  floating-point unit answer is the record \<open>sdl_host\<close>, one for each polled event, so it may change
  from event to event. HID values are C doubles modelled by the rational the C expression denotes:
  the quotients by 32767 lose less than one unit in the last place, and neither the dead-zone test
  (0.12) nor the repeat test (0.000001) has two axis values that close together. Float products of
  touch coordinates are taken from the host (\<open>f32_mul\<close>), since their rounding is visible.
\<close>

section \<open>State and host\<close>

datatype gamepad_button =
    BUTTON_A | BUTTON_B | BUTTON_X | BUTTON_Y | BUTTON_BACK | BUTTON_GUIDE | BUTTON_START
  | BUTTON_LEFTSTICK | BUTTON_RIGHTSTICK | BUTTON_LEFTSHOULDER | BUTTON_RIGHTSHOULDER
  | BUTTON_DPAD_UP | BUTTON_DPAD_DOWN | BUTTON_DPAD_LEFT | BUTTON_DPAD_RIGHT | BUTTON_OTHER nat

datatype gamepad_axis =
    AXIS_LEFTX | AXIS_LEFTY | AXIS_RIGHTX | AXIS_RIGHTY | AXIS_TRIGGERLEFT | AXIS_TRIGGERRIGHT
  | AXIS_OTHER nat

datatype key_symbol =
    K_RETURN | K_ESCAPE | K_BACKSPACE | K_UP | K_DOWN | K_LEFT | K_RIGHT | K_z | K_x | K_a | K_s
  | K_q | K_w | K_1 | K_2 | K_LSHIFT | K_RSHIFT | K_TAB | K_SPACE | K_HOME | K_OTHER nat

datatype guest_event =
    Ev_connected bytes
  | Ev_disconnected
  | Ev_hid nat rat
  | Ev_key nat bool
  | Ev_touch int int int nat

abbreviation (input) TOUCH_UP :: int where "TOUCH_UP \<equiv> 0"
abbreviation (input) TOUCH_DOWN :: int where "TOUCH_DOWN \<equiv> 1"
abbreviation (input) TOUCH_MOVE :: int where "TOUCH_MOVE \<equiv> 2"

record input_callbacks =
  cb_connected :: bool
  cb_disconnected :: bool
  cb_hid :: bool
  cb_key :: bool
  cb_touch :: bool

record touch_slot =
  ts_finger :: int
  ts_active :: bool
  ts_x :: rat
  ts_y :: rat

record asm2_input =
  in_controller :: bool
  in_instance_id :: int
  in_callbacks :: input_callbacks
  in_state_path :: "bytes option"
  in_hid_values :: "nat \<Rightarrow> rat"
  in_hid_sent :: u32
  in_width :: int
  in_height :: int
  in_stage :: int
  in_touch_active :: bool
  in_touch_button :: "gamepad_button option"
  in_touch_x :: int
  in_touch_y :: int
  in_select :: bool
  in_start :: bool
  in_mouse_pressed :: bool
  in_mouse_x :: int
  in_mouse_y :: int
  in_key_down :: "nat \<Rightarrow> bool"
  in_fingers :: "touch_slot list"
  in_log :: "guest_event list"
  in_disk :: "bytes option"

text \<open>How the host answers the system calls that write the state file: \<open>open\<close>, the count \<open>write\<close>
  returns, \<open>fsync\<close>, \<open>close\<close> and \<open>rename\<close>.\<close>

record persist_host =
  ph_open :: bool
  ph_written :: int
  ph_fsync :: bool
  ph_close :: bool
  ph_rename :: bool

record sdl_host =
  sdl_num_joysticks :: nat
  sdl_is_controller :: "int \<Rightarrow> bool"
  sdl_open :: "int \<Rightarrow> int option"
  sdl_name :: "int \<Rightarrow> bytes option"
  sdl_window_size :: "int \<Rightarrow> (int \<times> int) option"
  sdl_drawable_size :: "int \<Rightarrow> (int \<times> int) option"
  f32_mul :: "rat \<Rightarrow> int \<Rightarrow> rat"
  f64_scale :: "int \<Rightarrow> int \<Rightarrow> int \<Rightarrow> rat"
  host_persist :: persist_host

definition emit :: "guest_event \<Rightarrow> asm2_input \<Rightarrow> asm2_input" where
  "emit e inp = inp\<lparr>in_log := in_log inp @ [e]\<rparr>"

section \<open>HID events\<close>

definition hid_bit :: "nat \<Rightarrow> u32" where
  "hid_bit event_id = push_bit event_id 1"

definition send_hid :: "asm2_input \<Rightarrow> nat \<Rightarrow> rat \<Rightarrow> asm2_input" where
  "send_hid inp event_id value =
     (if event_id < 1 \<or> event_id > 21 then inp
      else if in_hid_sent inp AND hid_bit event_id \<noteq> 0
              \<and> \<bar>in_hid_values inp event_id - value\<bar> < 1 / 1000000 then inp
      else let inp' = inp\<lparr>in_hid_values := (in_hid_values inp)(event_id := value),
                          in_hid_sent := in_hid_sent inp OR hid_bit event_id\<rparr>
           in if cb_hid (in_callbacks inp) then emit (Ev_hid event_id value) inp' else inp')"

definition hid_button :: "gamepad_button \<Rightarrow> nat" where
  "hid_button button = (case button of
      BUTTON_A \<Rightarrow> 14 | BUTTON_B \<Rightarrow> 16 | BUTTON_X \<Rightarrow> 15 | BUTTON_Y \<Rightarrow> 13
    | BUTTON_BACK \<Rightarrow> 18 | BUTTON_GUIDE \<Rightarrow> 19 | BUTTON_START \<Rightarrow> 17
    | BUTTON_LEFTSTICK \<Rightarrow> 20 | BUTTON_RIGHTSTICK \<Rightarrow> 21
    | BUTTON_LEFTSHOULDER \<Rightarrow> 11 | BUTTON_RIGHTSHOULDER \<Rightarrow> 12
    | BUTTON_DPAD_UP \<Rightarrow> 7 | BUTTON_DPAD_DOWN \<Rightarrow> 8 | BUTTON_DPAD_LEFT \<Rightarrow> 9 | BUTTON_DPAD_RIGHT \<Rightarrow> 10
    | BUTTON_OTHER _ \<Rightarrow> 0)"

definition normalized_stick_axis :: "int \<Rightarrow> rat" where
  "normalized_stick_axis raw =
     (let value = (if raw < 0 then of_int raw / 32768 else of_int raw / 32767)
      in if \<bar>value\<bar> \<le> 12 / 100 then 0 else value)"

definition normalized_trigger_axis :: "int \<Rightarrow> rat" where
  "normalized_trigger_axis raw = (if raw \<le> 0 then 0 else of_int raw / 32767)"

section \<open>Keys\<close>

definition send_key :: "asm2_input \<Rightarrow> nat \<Rightarrow> bool \<Rightarrow> asm2_input" where
  "send_key inp key pressed =
     (if key = 0 \<or> key \<ge> 128 then inp
      else if in_key_down inp key = pressed then inp
      else let inp' = inp\<lparr>in_key_down := (in_key_down inp)(key := pressed)\<rparr>
           in if cb_key (in_callbacks inp) then emit (Ev_key key pressed) inp' else inp')"

definition release_key :: "nat \<Rightarrow> asm2_input \<Rightarrow> asm2_input" where
  "release_key key inp =
     (if \<not> in_key_down inp key then inp
      else let inp' = inp\<lparr>in_key_down := (in_key_down inp)(key := False)\<rparr>
           in if cb_key (in_callbacks inp) then emit (Ev_key key False) inp' else inp')"

definition release_keyboard_state :: "asm2_input \<Rightarrow> asm2_input" where
  "release_keyboard_state inp = fold release_key [1..<128] inp"

definition keyboard_android_key :: "key_symbol \<Rightarrow> nat" where
  "keyboard_android_key key = (case key of
      K_RETURN \<Rightarrow> 66 | K_ESCAPE \<Rightarrow> 4 | K_BACKSPACE \<Rightarrow> 4
    | K_UP \<Rightarrow> 19 | K_DOWN \<Rightarrow> 20 | K_LEFT \<Rightarrow> 21 | K_RIGHT \<Rightarrow> 22
    | K_z \<Rightarrow> 96 | K_x \<Rightarrow> 97 | K_a \<Rightarrow> 99 | K_s \<Rightarrow> 100
    | K_q \<Rightarrow> 102 | K_w \<Rightarrow> 103 | K_1 \<Rightarrow> 104 | K_2 \<Rightarrow> 105
    | K_LSHIFT \<Rightarrow> 106 | K_RSHIFT \<Rightarrow> 107 | K_TAB \<Rightarrow> 109 | K_SPACE \<Rightarrow> 108 | K_HOME \<Rightarrow> 110
    | K_OTHER _ \<Rightarrow> 0)"

section \<open>Touch coordinates and slots\<close>

definition touch_slot_for_finger :: "asm2_input \<Rightarrow> int \<Rightarrow> nat option" where
  "touch_slot_for_finger inp finger_id =
     find (\<lambda>slot. ts_active (in_fingers inp ! slot) \<and> ts_finger (in_fingers inp ! slot) = finger_id)
       [0..<10]"

definition allocate_touch_slot :: "asm2_input \<Rightarrow> int \<Rightarrow> nat option \<times> asm2_input" where
  "allocate_touch_slot inp finger_id =
     (case touch_slot_for_finger inp finger_id of
        Some existing \<Rightarrow> (Some existing, inp)
      | None \<Rightarrow>
          (case find (\<lambda>slot. \<not> ts_active (in_fingers inp ! slot)) [0..<10] of
             Some slot \<Rightarrow>
               (Some slot, inp\<lparr>in_fingers := (in_fingers inp)[slot :=
                  (in_fingers inp ! slot)\<lparr>ts_finger := finger_id, ts_active := True\<rparr>]\<rparr>)
           | None \<Rightarrow> (None, inp)))"

definition active_touch_count :: "asm2_input \<Rightarrow> nat" where
  "active_touch_count inp = length (filter ts_active (in_fingers inp))"

definition trunc_rat :: "rat \<Rightarrow> int" where
  "trunc_rat x = (if x < 0 then \<lceil>x\<rceil> else \<lfloor>x\<rfloor>)"

definition pixel_coordinate :: "sdl_host \<Rightarrow> rat \<Rightarrow> int \<Rightarrow> int" where
  "pixel_coordinate h normalized extent =
     (if extent \<le> 0 then 0
      else let n1 = (if normalized < 0 then 0 else normalized);
               n2 = (if n1 > 1 then 1 else n1);
               pixel = i32 (trunc_rat (f32_mul h n2 extent))
           in if pixel < extent then pixel else extent - 1)"

definition send_touch :: "sdl_host \<Rightarrow> asm2_input \<Rightarrow> int \<Rightarrow> rat \<Rightarrow> rat \<Rightarrow> nat \<Rightarrow> asm2_input" where
  "send_touch h inp action x y pointer_id =
     (if \<not> cb_touch (in_callbacks inp) then inp
      else emit (Ev_touch action (pixel_coordinate h x (in_width inp))
                   (pixel_coordinate h y (in_height inp)) pointer_id) inp)"

definition clamp_pixel_coordinate :: "int \<Rightarrow> int \<Rightarrow> int" where
  "clamp_pixel_coordinate coordinate extent =
     (if extent \<le> 0 \<or> coordinate < 0 then 0
      else if coordinate < extent then coordinate else extent - 1)"

definition send_touch_pixels :: "asm2_input \<Rightarrow> int \<Rightarrow> int \<Rightarrow> int \<Rightarrow> nat \<Rightarrow> asm2_input" where
  "send_touch_pixels inp action x y pointer_id =
     (if \<not> cb_touch (in_callbacks inp) then inp
      else emit (Ev_touch action (clamp_pixel_coordinate x (in_width inp))
                   (clamp_pixel_coordinate y (in_height inp)) pointer_id) inp)"

definition send_touch_end_sentinel :: "asm2_input \<Rightarrow> asm2_input" where
  "send_touch_end_sentinel inp =
     (if cb_touch (in_callbacks inp) then emit (Ev_touch TOUCH_UP (-2000) (-2000) 0) inp else inp)"

section \<open>The first-run touch\<close>

definition is_first_run_touch_button :: "gamepad_button \<Rightarrow> bool" where
  "is_first_run_touch_button button \<longleftrightarrow> button \<in> {BUTTON_A, BUTTON_B, BUTTON_X, BUTTON_Y}"

definition first_run_state_text :: "int \<Rightarrow> bytes" where
  "first_run_state_text stage = cstr ''next='' @ show_int stage @ [10]"

text \<open>The target is replaced only by the final \<open>rename\<close>; on any failure the temporary file is
  unlinked and the target keeps its contents. A short \<open>write\<close> counts as a failure.\<close>

definition persist_first_run_touch_state :: "persist_host \<Rightarrow> asm2_input \<Rightarrow> asm2_input" where
  "persist_first_run_touch_state ph inp =
     (case in_state_path inp of
        None \<Rightarrow> inp
      | Some path \<Rightarrow>
          if path = [] then inp
          else if length path + 4 \<ge> 4096 then inp
          else if \<not> ph_open ph then inp
          else let text = first_run_state_text (in_stage inp)
               in if ph_written ph = int (length text) \<and> ph_fsync ph \<and> ph_close ph \<and> ph_rename ph
                  then inp\<lparr>in_disk := Some text\<rparr> else inp)"

definition begin_first_run_touch :: "asm2_input \<Rightarrow> gamepad_button \<Rightarrow> asm2_input" where
  "begin_first_run_touch inp button =
     (let inp1 = inp\<lparr>in_touch_active := True, in_touch_button := Some button\<rparr>
      in if in_stage inp1 = FIRST_RUN_TOUCH_UPDATE_LOG then send_hid inp1 14 1
         else let (x, y) = first_run_touch_position (in_stage inp1) (in_width inp1) (in_height inp1)
              in send_touch_pixels (inp1\<lparr>in_touch_x := x, in_touch_y := y\<rparr>) TOUCH_DOWN x y 0)"

definition finish_first_run_touch :: "persist_host \<Rightarrow> asm2_input \<Rightarrow> asm2_input" where
  "finish_first_run_touch ph inp =
     (if \<not> in_touch_active inp then inp
      else let inp1 = (if in_stage inp = FIRST_RUN_TOUCH_UPDATE_LOG then send_hid inp 14 0
                       else send_touch_end_sentinel
                              (send_touch_pixels inp TOUCH_UP (in_touch_x inp) (in_touch_y inp) 0));
               inp2 = inp1\<lparr>in_touch_active := False,
                 in_stage := (if in_stage inp1 < FIRST_RUN_TOUCH_COMPLETE then in_stage inp1 + 1
                              else in_stage inp1),
                 in_touch_button := None\<rparr>
           in persist_first_run_touch_state ph inp2)"

section \<open>The controller\<close>

definition release_hid :: "nat \<Rightarrow> asm2_input \<Rightarrow> asm2_input" where
  "release_hid event_id inp =
     (if in_hid_sent inp AND hid_bit event_id \<noteq> 0 \<and> in_hid_values inp event_id \<noteq> 0
      then let inp' = inp\<lparr>in_hid_values := (in_hid_values inp)(event_id := 0)\<rparr>
           in if cb_hid (in_callbacks inp) then emit (Ev_hid event_id 0) inp' else inp'
      else inp)"

definition release_controller_state :: "persist_host \<Rightarrow> asm2_input \<Rightarrow> asm2_input" where
  "release_controller_state ph inp =
     (fold release_hid [1..<22] (finish_first_run_touch ph inp))
        \<lparr>in_hid_values := (\<lambda>_. 0), in_hid_sent := 0, in_select := False, in_start := False\<rparr>"

definition close_controller :: "persist_host \<Rightarrow> asm2_input \<Rightarrow> bool \<Rightarrow> asm2_input" where
  "close_controller ph inp notify =
     (if \<not> in_controller inp then inp
      else let inp1 = release_controller_state ph inp;
               inp2 = (if notify \<and> cb_disconnected (in_callbacks inp1)
                       then emit Ev_disconnected inp1 else inp1)
           in inp2\<lparr>in_controller := False, in_instance_id := -1\<rparr>)"

definition open_controller :: "sdl_host \<Rightarrow> int \<Rightarrow> asm2_input \<Rightarrow> asm2_input" where
  "open_controller h device_index inp =
     (if in_controller inp \<or> device_index < 0 \<or> \<not> sdl_is_controller h device_index then inp
      else case sdl_open h device_index of
        None \<Rightarrow> inp
      | Some instance_id \<Rightarrow>
          if instance_id < 0 then inp
          else let name = (case sdl_name h device_index of
                             Some n \<Rightarrow> if n = [] then cstr ''SDL Game Controller'' else n
                           | None \<Rightarrow> cstr ''SDL Game Controller'');
                   inp1 = inp\<lparr>in_controller := True, in_instance_id := instance_id\<rparr>
               in if cb_connected (in_callbacks inp1) then emit (Ev_connected name) inp1 else inp1)"

text \<open>\<open>open_controller\<close> does nothing once a controller is open, so the loop's \<open>break\<close> is the guard
  inside it.\<close>

definition open_first_controller :: "sdl_host \<Rightarrow> asm2_input \<Rightarrow> asm2_input" where
  "open_first_controller h inp =
     (if in_controller inp then inp
      else fold (\<lambda>index st. if in_controller st then st else open_controller h (int index) st)
             [0..<sdl_num_joysticks h] inp)"

section \<open>Mouse\<close>

definition mouse_drawable_coordinate :: "sdl_host \<Rightarrow> asm2_input \<Rightarrow> int \<Rightarrow> int \<Rightarrow> bool \<Rightarrow> int" where
  "mouse_drawable_coordinate h inp window_id coordinate horizontal =
     (let drawable_extent = (if horizontal then in_width inp else in_height inp);
          (window_width, window_height) =
             (case sdl_window_size h window_id of
                Some wh \<Rightarrow> wh | None \<Rightarrow> (in_width inp, in_height inp));
          window_extent = (if horizontal then window_width else window_height);
          coordinate' = (if window_extent > 0 \<and> window_extent \<noteq> drawable_extent
                         then i32 (trunc_rat (f64_scale h coordinate drawable_extent window_extent))
                         else coordinate)
      in clamp_pixel_coordinate coordinate' drawable_extent)"

definition handle_mouse_button ::
  "sdl_host \<Rightarrow> asm2_input \<Rightarrow> bool \<Rightarrow> bool \<Rightarrow> int \<Rightarrow> int \<Rightarrow> int \<Rightarrow> bool \<Rightarrow> asm2_input" where
  "handle_mouse_button h inp from_touch left_button window_id b_x b_y down =
     (if from_touch \<or> \<not> left_button then inp
      else let x = mouse_drawable_coordinate h inp window_id b_x True;
               y = mouse_drawable_coordinate h inp window_id b_y False;
               inp1 = inp\<lparr>in_mouse_x := x, in_mouse_y := y\<rparr>
           in if down
              then (if in_mouse_pressed inp1 then inp1
                    else send_touch_pixels (inp1\<lparr>in_mouse_pressed := True\<rparr>) TOUCH_DOWN x y 0)
              else (if in_mouse_pressed inp1
                    then send_touch_end_sentinel
                           ((send_touch_pixels inp1 TOUCH_UP x y 0)\<lparr>in_mouse_pressed := False\<rparr>)
                    else inp1))"

definition handle_mouse_motion ::
  "sdl_host \<Rightarrow> asm2_input \<Rightarrow> bool \<Rightarrow> int \<Rightarrow> int \<Rightarrow> int \<Rightarrow> asm2_input" where
  "handle_mouse_motion h inp from_touch window_id mx my =
     (if from_touch \<or> \<not> in_mouse_pressed inp then inp
      else let x = mouse_drawable_coordinate h inp window_id mx True;
               y = mouse_drawable_coordinate h inp window_id my False
           in send_touch_pixels (inp\<lparr>in_mouse_x := x, in_mouse_y := y\<rparr>) TOUCH_MOVE x y 0)"

definition release_mouse_touch :: "asm2_input \<Rightarrow> asm2_input" where
  "release_mouse_touch inp =
     (if \<not> in_mouse_pressed inp then inp
      else send_touch_end_sentinel
             ((send_touch_pixels inp TOUCH_UP (in_mouse_x inp) (in_mouse_y inp) 0)
                \<lparr>in_mouse_pressed := False\<rparr>))"

section \<open>Fingers\<close>

datatype finger_kind = FINGERDOWN | FINGERMOTION | FINGERUP

definition release_slot :: "sdl_host \<Rightarrow> nat \<Rightarrow> asm2_input \<Rightarrow> asm2_input" where
  "release_slot h slot inp =
     (if \<not> ts_active (in_fingers inp ! slot) then inp
      else let inp1 = send_touch h inp TOUCH_UP (ts_x (in_fingers inp ! slot))
                        (ts_y (in_fingers inp ! slot)) slot
           in inp1\<lparr>in_fingers := (in_fingers inp1)[slot := (in_fingers inp1 ! slot)\<lparr>ts_active := False\<rparr>]\<rparr>)"

definition release_all_touches :: "sdl_host \<Rightarrow> asm2_input \<Rightarrow> asm2_input" where
  "release_all_touches h inp =
     (let had_touches = active_touch_count inp \<noteq> 0;
          inp1 = fold (release_slot h) [0..<10] inp
      in if had_touches then send_touch_end_sentinel inp1 else inp1)"

definition handle_finger_event ::
  "sdl_host \<Rightarrow> asm2_input \<Rightarrow> finger_kind \<Rightarrow> int \<Rightarrow> rat \<Rightarrow> rat \<Rightarrow> asm2_input" where
  "handle_finger_event h inp kind finger_id fx fy =
     (let (slot_opt, inp1) = (if kind = FINGERDOWN then allocate_touch_slot inp finger_id
                              else (touch_slot_for_finger inp finger_id, inp))
      in case slot_opt of
           None \<Rightarrow> inp1
         | Some slot \<Rightarrow>
             let inp2 = inp1\<lparr>in_fingers := (in_fingers inp1)[slot :=
                          (in_fingers inp1 ! slot)\<lparr>ts_x := fx, ts_y := fy\<rparr>]\<rparr>;
                 action = (case kind of FINGERDOWN \<Rightarrow> TOUCH_DOWN | FINGERUP \<Rightarrow> TOUCH_UP
                           | FINGERMOTION \<Rightarrow> TOUCH_MOVE);
                 inp3 = send_touch h inp2 action fx fy slot
             in if kind = FINGERUP
                then let inp4 = inp3\<lparr>in_fingers := (in_fingers inp3)[slot :=
                                  (in_fingers inp3 ! slot)\<lparr>ts_active := False\<rparr>]\<rparr>
                     in if active_touch_count inp4 = 0 then send_touch_end_sentinel inp4 else inp4
                else inp3)"

section \<open>Initialisation, the event pump and shutdown\<close>

definition input_init ::
  "sdl_host \<Rightarrow> input_callbacks \<Rightarrow> int \<Rightarrow> int \<Rightarrow> bytes option \<Rightarrow> int \<Rightarrow> bytes option \<Rightarrow> asm2_input" where
  "input_init h callbacks drawable_width drawable_height path stage disk =
     open_first_controller h
       \<lparr>in_controller = False, in_instance_id = -1, in_callbacks = callbacks, in_state_path = path,
        in_hid_values = (\<lambda>_. 0), in_hid_sent = 0,
        in_width = (if drawable_width > 0 then drawable_width else 1),
        in_height = (if drawable_height > 0 then drawable_height else 1),
        in_stage = (if path = None \<or> path = Some [] \<or> stage < FIRST_RUN_TOUCH_LEGAL
                       \<or> stage > FIRST_RUN_TOUCH_COMPLETE
                    then FIRST_RUN_TOUCH_COMPLETE else stage),
        in_touch_active = False, in_touch_button = None, in_touch_x = 0, in_touch_y = 0,
        in_select = False, in_start = False, in_mouse_pressed = False, in_mouse_x = 0,
        in_mouse_y = 0, in_key_down = (\<lambda>_. False),
        in_fingers = replicate 10 \<lparr>ts_finger = 0, ts_active = False, ts_x = 0, ts_y = 0\<rparr>,
        in_log = [], in_disk = disk\<rparr>"

datatype sdl_event =
    E_QUIT
  | E_CONTROLLERDEVICEADDED int
  | E_CONTROLLERDEVICEREMOVED int
  | E_CONTROLLERBUTTON bool int gamepad_button
  | E_CONTROLLERAXISMOTION int gamepad_axis int
  | E_FINGER finger_kind int rat rat
  | E_MOUSEBUTTON bool bool bool int int int
  | E_MOUSEMOTION bool int int int
  | E_KEY bool bool key_symbol
  | E_WINDOW_SIZE int int int
  | E_WINDOW_FOCUS_LOST
  | E_OTHER

definition controller_button :: "sdl_host \<Rightarrow> asm2_input \<Rightarrow> bool \<Rightarrow> int \<Rightarrow> gamepad_button \<Rightarrow> bool \<times> asm2_input" where
  "controller_button h inp pressed which button =
     (if \<not> in_controller inp \<or> which \<noteq> in_instance_id inp then (True, inp)
      else let event_id = hid_button button
           in if in_touch_active inp \<and> in_touch_button inp = Some button
              then (True, if \<not> pressed then finish_first_run_touch (host_persist h) inp else inp)
              else if pressed \<and> in_stage inp < FIRST_RUN_TOUCH_COMPLETE
                      \<and> is_first_run_touch_button button
              then (True, begin_first_run_touch inp button)
              else let inp1 = send_hid inp event_id (if pressed then 1 else 0);
                       inp2 = (if event_id = 18 then inp1\<lparr>in_select := pressed\<rparr>
                               else if event_id = 17 then inp1\<lparr>in_start := pressed\<rparr> else inp1)
                   in (\<not> (in_select inp2 \<and> in_start inp2), inp2))"

definition controller_axis :: "asm2_input \<Rightarrow> int \<Rightarrow> gamepad_axis \<Rightarrow> int \<Rightarrow> asm2_input" where
  "controller_axis inp which axis raw =
     (if \<not> in_controller inp \<or> which \<noteq> in_instance_id inp then inp
      else let (event_id, value) =
             (case axis of
                AXIS_LEFTX \<Rightarrow> (3, normalized_stick_axis raw)
              | AXIS_LEFTY \<Rightarrow> (4, normalized_stick_axis raw)
              | AXIS_RIGHTX \<Rightarrow> (5, normalized_stick_axis raw)
              | AXIS_RIGHTY \<Rightarrow> (6, normalized_stick_axis raw)
              | AXIS_TRIGGERLEFT \<Rightarrow> (1, normalized_trigger_axis raw)
              | AXIS_TRIGGERRIGHT \<Rightarrow> (2, normalized_trigger_axis raw)
              | AXIS_OTHER _ \<Rightarrow> (0, 0))
           in send_hid inp event_id value)"

definition window_size_changed :: "sdl_host \<Rightarrow> asm2_input \<Rightarrow> int \<Rightarrow> int \<Rightarrow> int \<Rightarrow> asm2_input" where
  "window_size_changed h inp window_id data1 data2 =
     (let (width, height) = (case sdl_drawable_size h window_id of
                               Some wh \<Rightarrow> wh | None \<Rightarrow> (data1, data2));
          inp1 = (if width > 0 then inp\<lparr>in_width := width\<rparr> else inp)
      in if height > 0 then inp1\<lparr>in_height := height\<rparr> else inp1)"

definition focus_lost :: "sdl_host \<Rightarrow> asm2_input \<Rightarrow> asm2_input" where
  "focus_lost h inp =
     release_all_touches h (release_mouse_touch (release_keyboard_state
       (release_controller_state (host_persist h) inp)))"

fun pump_event :: "sdl_host \<Rightarrow> asm2_input \<Rightarrow> sdl_event \<Rightarrow> bool \<times> asm2_input" where
  "pump_event h inp E_QUIT = (False, inp)"
| "pump_event h inp (E_CONTROLLERDEVICEADDED which) = (True, open_controller h which inp)"
| "pump_event h inp (E_CONTROLLERDEVICEREMOVED which) =
     (True, if which = in_instance_id inp
            then open_first_controller h (close_controller (host_persist h) inp True) else inp)"
| "pump_event h inp (E_CONTROLLERBUTTON pressed which button) =
     controller_button h inp pressed which button"
| "pump_event h inp (E_CONTROLLERAXISMOTION which axis raw) = (True, controller_axis inp which axis raw)"
| "pump_event h inp (E_FINGER kind finger_id x y) = (True, handle_finger_event h inp kind finger_id x y)"
| "pump_event h inp (E_MOUSEBUTTON down from_touch left_button window_id x y) =
     (True, handle_mouse_button h inp from_touch left_button window_id x y down)"
| "pump_event h inp (E_MOUSEMOTION from_touch window_id x y) =
     (True, handle_mouse_motion h inp from_touch window_id x y)"
| "pump_event h inp (E_KEY down repeat key) =
     (True, if repeat then inp else send_key inp (keyboard_android_key key) down)"
| "pump_event h inp (E_WINDOW_SIZE window_id data1 data2) =
     (True, window_size_changed h inp window_id data1 data2)"
| "pump_event h inp E_WINDOW_FOCUS_LOST = (True, focus_lost h inp)"
| "pump_event h inp E_OTHER = (True, inp)"

text \<open>The poll loop: one host answer per polled event; the pump returns at the first event that
  ends the game, leaving the rest of the queue to SDL.\<close>

fun input_pump :: "asm2_input \<Rightarrow> (sdl_host \<times> sdl_event) list \<Rightarrow> bool \<times> asm2_input" where
  "input_pump inp [] = (True, inp)"
| "input_pump inp ((h, e) # events) =
     (case pump_event h inp e of
        (True, inp') \<Rightarrow> input_pump inp' events
      | (False, inp') \<Rightarrow> (False, inp'))"

definition input_shutdown :: "sdl_host \<Rightarrow> asm2_input \<Rightarrow> asm2_input" where
  "input_shutdown h inp =
     close_controller (host_persist h)
       (release_all_touches h (release_mouse_touch (release_keyboard_state inp))) True"

end
