(* ===== verification/Asm2_InputSafety.thy ===== *)
theory Asm2_InputSafety
  imports Asm2_Input
begin

text \<open>
  What the input component guarantees to the guest. The guest's view of its controls is computed
  from the log of callbacks alone (\<open>guest_hid\<close>, \<open>guest_keys\<close>, \<open>guest_touch\<close>); the invariant
  \<open>input_inv\<close> relates it to the state \<open>input.c\<close> keeps. The locale \<open>level_mirror\<close> is the contract
  of a bank of levels that is mirrored to the guest; it is interpreted on the HID values and on the
  key table.
\<close>

section \<open>The guest's view\<close>

fun hid_view :: "guest_event \<Rightarrow> (nat \<Rightarrow> rat) \<Rightarrow> (nat \<Rightarrow> rat)" where
  "hid_view (Ev_hid i v) f = f(i := v)"
| "hid_view _ f = f"

fun key_view :: "guest_event \<Rightarrow> (nat \<Rightarrow> bool) \<Rightarrow> (nat \<Rightarrow> bool)" where
  "key_view (Ev_key k b) f = f(k := b)"
| "key_view _ f = f"

fun touch_view :: "guest_event \<Rightarrow> (nat \<Rightarrow> bool) \<Rightarrow> (nat \<Rightarrow> bool)" where
  "touch_view (Ev_touch a x y p) f =
     (if a = TOUCH_DOWN then f(p := True) else if a = TOUCH_UP then f(p := False) else f)"
| "touch_view _ f = f"

definition guest_hid :: "guest_event list \<Rightarrow> nat \<Rightarrow> rat" where
  "guest_hid events = fold hid_view events (\<lambda>_. 0)"

definition guest_keys :: "guest_event list \<Rightarrow> nat \<Rightarrow> bool" where
  "guest_keys events = fold key_view events (\<lambda>_. False)"

definition guest_touch :: "guest_event list \<Rightarrow> nat \<Rightarrow> bool" where
  "guest_touch events = fold touch_view events (\<lambda>_. False)"

lemma guest_views_snoc [simp]:
  "guest_hid (es @ [e]) = hid_view e (guest_hid es)"
  "guest_keys (es @ [e]) = key_view e (guest_keys es)"
  "guest_touch (es @ [e]) = touch_view e (guest_touch es)"
  "guest_hid [] = (\<lambda>_. 0)" "guest_keys [] = (\<lambda>_. False)" "guest_touch [] = (\<lambda>_. False)"
  by (simp_all add: guest_hid_def guest_keys_def guest_touch_def)

definition guest_quiet :: "guest_event list \<Rightarrow> bool" where
  "guest_quiet events \<longleftrightarrow>
     guest_hid events = (\<lambda>_. 0) \<and> guest_keys events = (\<lambda>_. False)
     \<and> guest_touch events = (\<lambda>_. False)"

section \<open>Mirrored levels\<close>

locale level_mirror =
  fixes tracked :: "'s \<Rightarrow> nat \<Rightarrow> 'v"
    and seen :: "'s \<Rightarrow> nat \<Rightarrow> 'v"
    and zero :: 'v
    and clear :: "nat \<Rightarrow> 's \<Rightarrow> 's"
    and sync :: "'s \<Rightarrow> bool"
  assumes tracked_clear: "sync s \<Longrightarrow> tracked (clear k s) = (tracked s)(k := zero)"
    and sync_clear: "sync s \<Longrightarrow> sync (clear k s)"
    and seen_sync: "sync s \<Longrightarrow> seen s = tracked s \<or> seen s = (\<lambda>_. zero)"
begin

lemma sync_fold: "sync s \<Longrightarrow> sync (fold clear ks s)"
  by (induction ks arbitrary: s) (auto simp: sync_clear)

lemma tracked_fold:
  "sync s \<Longrightarrow> tracked (fold clear ks s) k = (if k \<in> set ks then zero else tracked s k)"
  by (induction ks arbitrary: s) (auto simp: sync_clear tracked_clear)

lemma seen_fold_zero:
  assumes "sync s" and "\<And>k. k \<notin> set ks \<Longrightarrow> tracked s k = zero"
  shows "seen (fold clear ks s) = (\<lambda>_. zero)"
proof -
  have "tracked (fold clear ks s) = (\<lambda>_. zero)"
    using assms by (auto simp: tracked_fold)
  with seen_sync [OF sync_fold [OF assms(1), of ks]] show ?thesis by auto
qed

end

lemma fold_frame: "(\<And>k s. f (g k s) = f s) \<Longrightarrow> f (fold g ks s) = f s"
  by (induction ks arbitrary: s) auto

lemma hid_bit_test: "w AND hid_bit n \<noteq> 0 \<longleftrightarrow> bit w n"
  by (simp add: hid_bit_def and_exp_eq_0_iff_not_bit push_bit_of_1)

lemma hid_bit_set: "bit (w OR hid_bit n) m \<longleftrightarrow> bit w m \<or> m = n \<and> n < 32"
  by (auto simp: hid_bit_def bit_simps push_bit_of_1)

definition hid_sync :: "asm2_input \<Rightarrow> bool" where
  "hid_sync inp \<longleftrightarrow>
     (\<forall>i. \<not> bit (in_hid_sent inp) i \<longrightarrow> in_hid_values inp i = 0)
     \<and> (guest_hid (in_log inp) =
          (if cb_hid (in_callbacks inp) then in_hid_values inp else (\<lambda>_. 0)))"

definition key_sync :: "asm2_input \<Rightarrow> bool" where
  "key_sync inp \<longleftrightarrow>
     guest_keys (in_log inp) = (if cb_key (in_callbacks inp) then in_key_down inp else (\<lambda>_. False))"

interpretation hid_levels: level_mirror in_hid_values "\<lambda>inp. guest_hid (in_log inp)" 0 release_hid hid_sync
proof unfold_locales
  fix s k
  assume "hid_sync s"
  then show "in_hid_values (release_hid k s) = (in_hid_values s)(k := 0)"
    by (auto simp: hid_sync_def release_hid_def hid_bit_test Let_def emit_def fun_eq_iff)
  show "hid_sync (release_hid k s)"
    using \<open>hid_sync s\<close> by (auto simp: hid_sync_def release_hid_def hid_bit_test Let_def emit_def)
  show "guest_hid (in_log s) = in_hid_values s \<or> guest_hid (in_log s) = (\<lambda>_. 0)"
    using \<open>hid_sync s\<close> by (auto simp: hid_sync_def)
qed

interpretation key_levels: level_mirror in_key_down "\<lambda>inp. guest_keys (in_log inp)" False release_key key_sync
  by unfold_locales (auto simp: key_sync_def release_key_def Let_def emit_def fun_eq_iff)

section \<open>Frames\<close>

text \<open>Which parts of the state, and of the guest's view, each operation leaves alone.\<close>

lemma send_hid_frame [input_simps]:
  "in_controller (send_hid inp i v) = in_controller inp"
  "in_instance_id (send_hid inp i v) = in_instance_id inp"
  "in_callbacks (send_hid inp i v) = in_callbacks inp"
  "in_state_path (send_hid inp i v) = in_state_path inp"
  "in_width (send_hid inp i v) = in_width inp"
  "in_height (send_hid inp i v) = in_height inp"
  "in_stage (send_hid inp i v) = in_stage inp"
  "in_touch_active (send_hid inp i v) = in_touch_active inp"
  "in_touch_button (send_hid inp i v) = in_touch_button inp"
  "in_touch_x (send_hid inp i v) = in_touch_x inp"
  "in_touch_y (send_hid inp i v) = in_touch_y inp"
  "in_mouse_pressed (send_hid inp i v) = in_mouse_pressed inp"
  "in_key_down (send_hid inp i v) = in_key_down inp"
  "in_fingers (send_hid inp i v) = in_fingers inp"
  by (simp_all add: send_hid_def emit_def Let_def)

lemma send_key_frame [input_simps]:
  "in_controller (send_key inp k b) = in_controller inp"
  "in_instance_id (send_key inp k b) = in_instance_id inp"
  "in_callbacks (send_key inp k b) = in_callbacks inp"
  "in_state_path (send_key inp k b) = in_state_path inp"
  "in_hid_values (send_key inp k b) = in_hid_values inp"
  "in_hid_sent (send_key inp k b) = in_hid_sent inp"
  "in_width (send_key inp k b) = in_width inp"
  "in_height (send_key inp k b) = in_height inp"
  "in_stage (send_key inp k b) = in_stage inp"
  "in_touch_active (send_key inp k b) = in_touch_active inp"
  "in_touch_button (send_key inp k b) = in_touch_button inp"
  "in_touch_x (send_key inp k b) = in_touch_x inp"
  "in_touch_y (send_key inp k b) = in_touch_y inp"
  "in_mouse_pressed (send_key inp k b) = in_mouse_pressed inp"
  "in_fingers (send_key inp k b) = in_fingers inp"
  by (simp_all add: send_key_def emit_def Let_def)

lemma send_touch_frame [input_simps]:
  "in_controller (send_touch h inp a x y p) = in_controller inp"
  "in_instance_id (send_touch h inp a x y p) = in_instance_id inp"
  "in_callbacks (send_touch h inp a x y p) = in_callbacks inp"
  "in_state_path (send_touch h inp a x y p) = in_state_path inp"
  "in_hid_values (send_touch h inp a x y p) = in_hid_values inp"
  "in_hid_sent (send_touch h inp a x y p) = in_hid_sent inp"
  "in_width (send_touch h inp a x y p) = in_width inp"
  "in_height (send_touch h inp a x y p) = in_height inp"
  "in_stage (send_touch h inp a x y p) = in_stage inp"
  "in_touch_active (send_touch h inp a x y p) = in_touch_active inp"
  "in_touch_button (send_touch h inp a x y p) = in_touch_button inp"
  "in_touch_x (send_touch h inp a x y p) = in_touch_x inp"
  "in_touch_y (send_touch h inp a x y p) = in_touch_y inp"
  "in_mouse_pressed (send_touch h inp a x y p) = in_mouse_pressed inp"
  "in_key_down (send_touch h inp a x y p) = in_key_down inp"
  "in_fingers (send_touch h inp a x y p) = in_fingers inp"
  by (simp_all add: send_touch_def emit_def Let_def)

lemma send_touch_pixels_frame [input_simps]:
  "in_controller (send_touch_pixels inp a i j p) = in_controller inp"
  "in_instance_id (send_touch_pixels inp a i j p) = in_instance_id inp"
  "in_callbacks (send_touch_pixels inp a i j p) = in_callbacks inp"
  "in_state_path (send_touch_pixels inp a i j p) = in_state_path inp"
  "in_hid_values (send_touch_pixels inp a i j p) = in_hid_values inp"
  "in_hid_sent (send_touch_pixels inp a i j p) = in_hid_sent inp"
  "in_width (send_touch_pixels inp a i j p) = in_width inp"
  "in_height (send_touch_pixels inp a i j p) = in_height inp"
  "in_stage (send_touch_pixels inp a i j p) = in_stage inp"
  "in_touch_active (send_touch_pixels inp a i j p) = in_touch_active inp"
  "in_touch_button (send_touch_pixels inp a i j p) = in_touch_button inp"
  "in_touch_x (send_touch_pixels inp a i j p) = in_touch_x inp"
  "in_touch_y (send_touch_pixels inp a i j p) = in_touch_y inp"
  "in_mouse_pressed (send_touch_pixels inp a i j p) = in_mouse_pressed inp"
  "in_key_down (send_touch_pixels inp a i j p) = in_key_down inp"
  "in_fingers (send_touch_pixels inp a i j p) = in_fingers inp"
  by (simp_all add: send_touch_pixels_def emit_def Let_def)

lemma sentinel_frame [input_simps]:
  "in_controller (send_touch_end_sentinel inp) = in_controller inp"
  "in_instance_id (send_touch_end_sentinel inp) = in_instance_id inp"
  "in_callbacks (send_touch_end_sentinel inp) = in_callbacks inp"
  "in_state_path (send_touch_end_sentinel inp) = in_state_path inp"
  "in_hid_values (send_touch_end_sentinel inp) = in_hid_values inp"
  "in_hid_sent (send_touch_end_sentinel inp) = in_hid_sent inp"
  "in_width (send_touch_end_sentinel inp) = in_width inp"
  "in_height (send_touch_end_sentinel inp) = in_height inp"
  "in_stage (send_touch_end_sentinel inp) = in_stage inp"
  "in_touch_active (send_touch_end_sentinel inp) = in_touch_active inp"
  "in_touch_button (send_touch_end_sentinel inp) = in_touch_button inp"
  "in_touch_x (send_touch_end_sentinel inp) = in_touch_x inp"
  "in_touch_y (send_touch_end_sentinel inp) = in_touch_y inp"
  "in_mouse_pressed (send_touch_end_sentinel inp) = in_mouse_pressed inp"
  "in_key_down (send_touch_end_sentinel inp) = in_key_down inp"
  "in_fingers (send_touch_end_sentinel inp) = in_fingers inp"
  by (simp_all add: send_touch_end_sentinel_def emit_def Let_def)

lemma release_hid_frame [input_simps]:
  "in_controller (release_hid i inp) = in_controller inp"
  "in_instance_id (release_hid i inp) = in_instance_id inp"
  "in_callbacks (release_hid i inp) = in_callbacks inp"
  "in_state_path (release_hid i inp) = in_state_path inp"
  "in_hid_sent (release_hid i inp) = in_hid_sent inp"
  "in_width (release_hid i inp) = in_width inp"
  "in_height (release_hid i inp) = in_height inp"
  "in_stage (release_hid i inp) = in_stage inp"
  "in_touch_active (release_hid i inp) = in_touch_active inp"
  "in_touch_button (release_hid i inp) = in_touch_button inp"
  "in_touch_x (release_hid i inp) = in_touch_x inp"
  "in_touch_y (release_hid i inp) = in_touch_y inp"
  "in_mouse_pressed (release_hid i inp) = in_mouse_pressed inp"
  "in_key_down (release_hid i inp) = in_key_down inp"
  "in_fingers (release_hid i inp) = in_fingers inp"
  by (simp_all add: release_hid_def emit_def Let_def)

lemma release_key_frame [input_simps]:
  "in_controller (release_key k inp) = in_controller inp"
  "in_instance_id (release_key k inp) = in_instance_id inp"
  "in_callbacks (release_key k inp) = in_callbacks inp"
  "in_state_path (release_key k inp) = in_state_path inp"
  "in_hid_values (release_key k inp) = in_hid_values inp"
  "in_hid_sent (release_key k inp) = in_hid_sent inp"
  "in_width (release_key k inp) = in_width inp"
  "in_height (release_key k inp) = in_height inp"
  "in_stage (release_key k inp) = in_stage inp"
  "in_touch_active (release_key k inp) = in_touch_active inp"
  "in_touch_button (release_key k inp) = in_touch_button inp"
  "in_touch_x (release_key k inp) = in_touch_x inp"
  "in_touch_y (release_key k inp) = in_touch_y inp"
  "in_mouse_pressed (release_key k inp) = in_mouse_pressed inp"
  "in_fingers (release_key k inp) = in_fingers inp"
  by (simp_all add: release_key_def emit_def Let_def)

lemma persist_frame [input_simps]:
  "in_controller (persist_first_run_touch_state ph inp) = in_controller inp"
  "in_instance_id (persist_first_run_touch_state ph inp) = in_instance_id inp"
  "in_callbacks (persist_first_run_touch_state ph inp) = in_callbacks inp"
  "in_state_path (persist_first_run_touch_state ph inp) = in_state_path inp"
  "in_hid_values (persist_first_run_touch_state ph inp) = in_hid_values inp"
  "in_hid_sent (persist_first_run_touch_state ph inp) = in_hid_sent inp"
  "in_width (persist_first_run_touch_state ph inp) = in_width inp"
  "in_height (persist_first_run_touch_state ph inp) = in_height inp"
  "in_stage (persist_first_run_touch_state ph inp) = in_stage inp"
  "in_touch_active (persist_first_run_touch_state ph inp) = in_touch_active inp"
  "in_touch_button (persist_first_run_touch_state ph inp) = in_touch_button inp"
  "in_touch_x (persist_first_run_touch_state ph inp) = in_touch_x inp"
  "in_touch_y (persist_first_run_touch_state ph inp) = in_touch_y inp"
  "in_mouse_pressed (persist_first_run_touch_state ph inp) = in_mouse_pressed inp"
  "in_key_down (persist_first_run_touch_state ph inp) = in_key_down inp"
  "in_fingers (persist_first_run_touch_state ph inp) = in_fingers inp"
  "in_select (persist_first_run_touch_state ph inp) = in_select inp"
  "in_start (persist_first_run_touch_state ph inp) = in_start inp"
  "in_log (persist_first_run_touch_state ph inp) = in_log inp"
  by (simp_all add: persist_first_run_touch_state_def emit_def Let_def split: option.split)

lemma view_frames [input_simps]:
  "guest_keys (in_log (send_hid inp i v)) = guest_keys (in_log inp)"
  "guest_touch (in_log (send_hid inp i v)) = guest_touch (in_log inp)"
  "guest_hid (in_log (send_key inp k b)) = guest_hid (in_log inp)"
  "guest_touch (in_log (send_key inp k b)) = guest_touch (in_log inp)"
  "guest_hid (in_log (send_touch h inp a x y p)) = guest_hid (in_log inp)"
  "guest_keys (in_log (send_touch h inp a x y p)) = guest_keys (in_log inp)"
  "guest_hid (in_log (send_touch_pixels inp a x' y' p)) = guest_hid (in_log inp)"
  "guest_keys (in_log (send_touch_pixels inp a x' y' p)) = guest_keys (in_log inp)"
  "guest_hid (in_log (send_touch_end_sentinel inp)) = guest_hid (in_log inp)"
  "guest_keys (in_log (send_touch_end_sentinel inp)) = guest_keys (in_log inp)"
  "guest_keys (in_log (release_hid i inp)) = guest_keys (in_log inp)"
  "guest_touch (in_log (release_hid i inp)) = guest_touch (in_log inp)"
  "guest_hid (in_log (release_key k inp)) = guest_hid (in_log inp)"
  "guest_touch (in_log (release_key k inp)) = guest_touch (in_log inp)"
  by (simp_all add: send_hid_def send_key_def send_touch_def send_touch_pixels_def
      send_touch_end_sentinel_def release_hid_def release_key_def emit_def Let_def)

text \<open>What the touch operations do to the guest's pointers.\<close>

lemma touch_effects [input_simps]:
  "guest_touch (in_log (send_touch h inp TOUCH_UP x y p)) =
     (if cb_touch (in_callbacks inp) then (guest_touch (in_log inp))(p := False)
      else guest_touch (in_log inp))"
  "guest_touch (in_log (send_touch h inp TOUCH_DOWN x y p)) =
     (if cb_touch (in_callbacks inp) then (guest_touch (in_log inp))(p := True)
      else guest_touch (in_log inp))"
  "guest_touch (in_log (send_touch h inp TOUCH_MOVE x y p)) = guest_touch (in_log inp)"
  "guest_touch (in_log (send_touch_pixels inp TOUCH_UP x' y' p)) =
     (if cb_touch (in_callbacks inp) then (guest_touch (in_log inp))(p := False)
      else guest_touch (in_log inp))"
  "guest_touch (in_log (send_touch_pixels inp TOUCH_DOWN x' y' p)) =
     (if cb_touch (in_callbacks inp) then (guest_touch (in_log inp))(p := True)
      else guest_touch (in_log inp))"
  "guest_touch (in_log (send_touch_pixels inp TOUCH_MOVE x' y' p)) = guest_touch (in_log inp)"
  "guest_touch (in_log (send_touch_end_sentinel inp)) =
     (if cb_touch (in_callbacks inp) then (guest_touch (in_log inp))(0 := False)
      else guest_touch (in_log inp))"
  by (simp_all add: send_touch_def send_touch_pixels_def send_touch_end_sentinel_def emit_def)

lemma send_hid_sync:
  assumes "hid_sync inp"
  shows "hid_sync (send_hid inp i v)"
  using assms by (auto simp: hid_sync_def send_hid_def hid_bit_test hid_bit_set emit_def Let_def)

lemma send_key_sync: "key_sync inp \<Longrightarrow> key_sync (send_key inp k b)"
  by (auto simp: key_sync_def send_key_def emit_def Let_def)

section \<open>The invariant\<close>

definition slots_ok :: "touch_slot list \<Rightarrow> bool" where
  "slots_ok fs \<longleftrightarrow> length fs = 10 \<and>
     (\<forall>i<10. \<forall>j<10. ts_active (fs ! i) \<and> ts_active (fs ! j) \<and> ts_finger (fs ! i) = ts_finger (fs ! j)
        \<longrightarrow> i = j)"

definition touch_tracked :: "asm2_input \<Rightarrow> bool" where
  "touch_tracked inp \<longleftrightarrow>
     (\<not> cb_touch (in_callbacks inp) \<longrightarrow> guest_touch (in_log inp) = (\<lambda>_. False))
     \<and> (\<forall>p. guest_touch (in_log inp) p \<longrightarrow>
        p < 10 \<and> ts_active (in_fingers inp ! p)
        \<or> p = 0 \<and> (in_mouse_pressed inp
                 \<or> in_touch_active inp \<and> in_stage inp \<noteq> FIRST_RUN_TOUCH_UPDATE_LOG))"

definition first_run_ok :: "asm2_input \<Rightarrow> bool" where
  "first_run_ok inp \<longleftrightarrow>
     0 \<le> in_stage inp \<and> in_stage inp \<le> 3
     \<and> (in_touch_active inp \<longrightarrow> in_controller inp \<and> in_stage inp < 3)"

definition hid_range :: "asm2_input \<Rightarrow> bool" where
  "hid_range inp \<longleftrightarrow>
     (\<forall>i. i < 1 \<or> 21 < i \<longrightarrow> in_hid_values inp i = 0)
     \<and> (\<not> in_controller inp \<longrightarrow> in_hid_values inp = (\<lambda>_. 0))"

definition key_range :: "asm2_input \<Rightarrow> bool" where
  "key_range inp \<longleftrightarrow> (\<forall>k. in_key_down inp k \<longrightarrow> 1 \<le> k \<and> k < 128)"

definition input_inv :: "asm2_input \<Rightarrow> bool" where
  "input_inv inp \<longleftrightarrow>
     hid_sync inp \<and> hid_range inp \<and> key_sync inp \<and> key_range inp
     \<and> slots_ok (in_fingers inp) \<and> touch_tracked inp \<and> first_run_ok inp
     \<and> 0 < in_width inp \<and> 0 < in_height inp"

lemmas input_inv_parts =
  input_inv_def hid_range_def key_range_def touch_tracked_def first_run_ok_def

section \<open>Every operation keeps the invariant\<close>

lemma emit_views [input_simps]:
  "guest_hid (in_log (emit (Ev_connected n) inp)) = guest_hid (in_log inp)"
  "guest_keys (in_log (emit (Ev_connected n) inp)) = guest_keys (in_log inp)"
  "guest_touch (in_log (emit (Ev_connected n) inp)) = guest_touch (in_log inp)"
  "guest_hid (in_log (emit Ev_disconnected inp)) = guest_hid (in_log inp)"
  "guest_keys (in_log (emit Ev_disconnected inp)) = guest_keys (in_log inp)"
  "guest_touch (in_log (emit Ev_disconnected inp)) = guest_touch (in_log inp)"
  by (simp_all add: emit_def)

lemma input_inv_send_key:
  assumes "input_inv inp"
  shows "input_inv (send_key inp k b)"
proof -
  have "key_range (send_key inp k b)"
    using assms by (auto simp: input_inv_def key_range_def send_key_def emit_def Let_def)
  with assms send_key_sync show ?thesis
    by (simp add: input_inv_parts hid_sync_def input_simps)
qed

lemma input_inv_send_hid:
  assumes "input_inv inp" "in_controller inp"
  shows "input_inv (send_hid inp i v)"
proof -
  have "hid_range (send_hid inp i v)"
    using assms by (auto simp: input_inv_def hid_range_def send_hid_def emit_def Let_def)
  with assms send_hid_sync show ?thesis
    by (simp add: input_inv_parts key_sync_def input_simps)
qed

lemma input_inv_persist [simp]: "input_inv (persist_first_run_touch_state ph inp) = input_inv inp"
  by (simp add: input_inv_parts hid_sync_def key_sync_def input_simps)

lemma input_inv_begin:
  assumes "input_inv inp" "in_controller inp" "in_stage inp < 3"
  shows "input_inv (begin_first_run_touch inp b)"
proof -
  let ?i1 = "inp\<lparr>in_touch_active := True, in_touch_button := Some b\<rparr>"
  have i1: "input_inv ?i1"
    using assms by (auto simp: input_inv_parts hid_sync_def key_sync_def)
  show ?thesis
  proof (cases "in_stage inp = 1")
    case True
    then show ?thesis
      using input_inv_send_hid [OF i1] assms(2) by (simp add: begin_first_run_touch_def Let_def)
  next
    case False
    with i1 show ?thesis
      by (auto simp: begin_first_run_touch_def input_inv_parts hid_sync_def key_sync_def input_simps
          split: prod.split)
  qed
qed

lemma input_inv_finish:
  assumes "input_inv inp"
  shows "input_inv (finish_first_run_touch ph inp)"
proof (cases "in_touch_active inp")
  case False
  with assms show ?thesis by (simp add: finish_first_run_touch_def)
next
  case True
  with assms have c: "in_controller inp" "in_stage inp < 3" "0 \<le> in_stage inp"
    by (auto simp: input_inv_parts)
  show ?thesis
  proof (cases "in_stage inp = 1")
    case True
    have "input_inv ((send_hid inp 14 0)\<lparr>in_touch_active := False, in_stage := 2, in_touch_button := None\<rparr>)"
      using input_inv_send_hid [OF assms c(1), of 14 0] True
      by (auto simp: input_inv_parts hid_sync_def key_sync_def input_simps)
    with True \<open>in_touch_active inp\<close> show ?thesis
      by (simp add: finish_first_run_touch_def Let_def input_simps)
  next
    case False
    with assms c \<open>in_touch_active inp\<close> show ?thesis
      by (auto simp: finish_first_run_touch_def Let_def input_inv_parts hid_sync_def key_sync_def
          input_simps)
  qed
qed

lemma finish_inactive [input_simps]: "\<not> in_touch_active (finish_first_run_touch ph inp)"
  by (simp add: finish_first_run_touch_def Let_def input_simps)

lemma finish_controller [input_simps]:
  "in_controller (finish_first_run_touch ph inp) = in_controller inp"
  "in_callbacks (finish_first_run_touch ph inp) = in_callbacks inp"
  "in_key_down (finish_first_run_touch ph inp) = in_key_down inp"
  "in_mouse_pressed (finish_first_run_touch ph inp) = in_mouse_pressed inp"
  "in_fingers (finish_first_run_touch ph inp) = in_fingers inp"
  "in_width (finish_first_run_touch ph inp) = in_width inp"
  "in_height (finish_first_run_touch ph inp) = in_height inp"
  by (simp_all add: finish_first_run_touch_def Let_def input_simps)

text \<open>The HID release loop, through the contract of the mirrored levels.\<close>

lemma fold_release_hid_frames [input_simps]:
  "in_controller (fold release_hid is inp) = in_controller inp"
  "in_callbacks (fold release_hid is inp) = in_callbacks inp"
  "in_key_down (fold release_hid is inp) = in_key_down inp"
  "in_mouse_pressed (fold release_hid is inp) = in_mouse_pressed inp"
  "in_fingers (fold release_hid is inp) = in_fingers inp"
  "in_width (fold release_hid is inp) = in_width inp"
  "in_height (fold release_hid is inp) = in_height inp"
  "in_stage (fold release_hid is inp) = in_stage inp"
  "in_touch_active (fold release_hid is inp) = in_touch_active inp"
  "guest_keys (in_log (fold release_hid is inp)) = guest_keys (in_log inp)"
  "guest_touch (in_log (fold release_hid is inp)) = guest_touch (in_log inp)"
  using fold_frame [of in_controller release_hid] fold_frame [of in_callbacks release_hid]
    fold_frame [of in_key_down release_hid] fold_frame [of in_mouse_pressed release_hid]
    fold_frame [of in_fingers release_hid] fold_frame [of in_width release_hid]
    fold_frame [of in_height release_hid] fold_frame [of in_stage release_hid]
    fold_frame [of in_touch_active release_hid]
    fold_frame [of "\<lambda>s. guest_keys (in_log s)" release_hid]
    fold_frame [of "\<lambda>s. guest_touch (in_log s)" release_hid]
  by (simp_all add: input_simps)

lemma release_controller_hid:
  assumes "input_inv inp"
  shows "guest_hid (in_log (release_controller_state ph inp)) = (\<lambda>_. 0)"
proof -
  have f: "input_inv (finish_first_run_touch ph inp)"
    using assms by (rule input_inv_finish)
  have "guest_hid (in_log (fold release_hid [1..<22] (finish_first_run_touch ph inp))) = (\<lambda>_. 0)"
  proof (rule hid_levels.seen_fold_zero)
    show "hid_sync (finish_first_run_touch ph inp)"
      using f by (simp add: input_inv_def)
    fix k :: nat
    assume "k \<notin> set [1..<22]"
    then have "k < 1 \<or> 21 < k" by auto
    with f show "in_hid_values (finish_first_run_touch ph inp) k = 0"
      unfolding input_inv_def hid_range_def by blast
  qed
  then show ?thesis by (simp add: release_controller_state_def)
qed

lemma input_inv_release_controller:
  assumes "input_inv inp"
  shows "input_inv (release_controller_state ph inp)"
proof -
  have f: "input_inv (finish_first_run_touch ph inp)"
    using assms by (rule input_inv_finish)
  have "hid_sync (release_controller_state ph inp)"
    using release_controller_hid [OF assms, of ph]
    by (simp add: hid_sync_def release_controller_state_def)
  with f show ?thesis
    by (simp add: input_inv_parts release_controller_state_def key_sync_def input_simps)
qed

lemma input_inv_close:
  assumes "input_inv inp"
  shows "input_inv (close_controller ph inp notify)"
proof -
  have r: "input_inv (release_controller_state ph inp)"
    using assms by (rule input_inv_release_controller)
  have "\<not> in_touch_active (release_controller_state ph inp)"
    "in_hid_values (release_controller_state ph inp) = (\<lambda>_. 0)"
    by (simp_all add: release_controller_state_def input_simps)
  with r assms show ?thesis
    by (auto simp: close_controller_def Let_def input_inv_parts hid_sync_def key_sync_def emit_def)
qed

lemma input_inv_open:
  assumes "input_inv inp"
  shows "input_inv (open_controller h i inp)"
  using assms
  by (auto simp: open_controller_def Let_def input_inv_parts hid_sync_def key_sync_def emit_def
      split: option.split)

lemma input_inv_open_first:
  assumes "input_inv inp"
  shows "input_inv (open_first_controller h inp)"
proof -
  have "input_inv (fold (\<lambda>index st. if in_controller st then st else open_controller h (int index) st)
          ks inp)" for ks
    using assms by (induction ks arbitrary: inp) (auto simp: input_inv_open)
  with assms show ?thesis by (simp add: open_first_controller_def)
qed

lemma input_inv_mouse_button:
  assumes "input_inv inp"
  shows "input_inv (handle_mouse_button h inp t l w x y d)"
  using assms
  by (auto simp: handle_mouse_button_def Let_def input_inv_parts hid_sync_def key_sync_def input_simps)

lemma input_inv_mouse_motion:
  assumes "input_inv inp"
  shows "input_inv (handle_mouse_motion h inp t w x y)"
  using assms
  by (auto simp: handle_mouse_motion_def Let_def input_inv_parts hid_sync_def key_sync_def input_simps)

lemma input_inv_release_mouse:
  assumes "input_inv inp"
  shows "input_inv (release_mouse_touch inp)"
  using assms
  by (auto simp: release_mouse_touch_def input_inv_parts hid_sync_def key_sync_def input_simps)

lemma input_inv_window:
  assumes "input_inv inp"
  shows "input_inv (window_size_changed h inp w a b)"
  using assms
  by (auto simp: window_size_changed_def Let_def input_inv_parts hid_sync_def key_sync_def
      split: prod.split)

section \<open>Fingers\<close>

lemma find_upt_Some: "find P [0..<n] = Some i \<Longrightarrow> i < n \<and> P i"
  by (auto simp: find_Some_iff)

lemma find_upt_None: "find P [0..<n] = None \<longleftrightarrow> (\<forall>i<n. \<not> P i)"
  by (auto simp: find_None_iff)

lemma touch_slot_Some:
  "touch_slot_for_finger inp f = Some i \<Longrightarrow>
     i < 10 \<and> ts_active (in_fingers inp ! i) \<and> ts_finger (in_fingers inp ! i) = f"
  unfolding touch_slot_for_finger_def by (drule find_upt_Some) simp

lemma slots_ok_fewer:
  assumes "slots_ok fs" "length gs = length fs"
    and "\<And>i. i < 10 \<Longrightarrow> ts_active (gs ! i) \<Longrightarrow> ts_active (fs ! i) \<and> ts_finger (gs ! i) = ts_finger (fs ! i)"
  shows "slots_ok gs"
  using assms unfolding slots_ok_def by metis

lemma slot_after_update:
  "ts_active (fs[i := (fs ! i)\<lparr>ts_x := x, ts_y := y\<rparr>] ! j) = ts_active (fs ! j)"
  "ts_finger (fs[i := (fs ! i)\<lparr>ts_x := x, ts_y := y\<rparr>] ! j) = ts_finger (fs ! j)"
  "ts_finger (fs[i := (fs ! i)\<lparr>ts_active := False\<rparr>] ! j) = ts_finger (fs ! j)"
  "i < length fs \<Longrightarrow> ts_active (fs[i := (fs ! i)\<lparr>ts_active := False\<rparr>] ! j) \<longleftrightarrow> j \<noteq> i \<and> ts_active (fs ! j)"
  by (cases "i < length fs"; cases "i = j"; simp add: list_update_beyond)+

lemma slots_ok_update_xy: "slots_ok fs \<Longrightarrow> slots_ok (fs[i := (fs ! i)\<lparr>ts_x := x, ts_y := y\<rparr>])"
  by (erule slots_ok_fewer) (simp_all add: slot_after_update)

lemma slots_ok_deactivate:
  "slots_ok fs \<Longrightarrow> i < length fs \<Longrightarrow> slots_ok (fs[i := (fs ! i)\<lparr>ts_active := False\<rparr>])"
  by (erule slots_ok_fewer) (simp_all add: slot_after_update)

lemma allocate_slot:
  assumes "slots_ok (in_fingers inp)" "allocate_touch_slot inp f = (r, inp')"
  shows "slots_ok (in_fingers inp')
    \<and> (\<forall>i<10. ts_active (in_fingers inp ! i) \<longrightarrow> ts_active (in_fingers inp' ! i))
    \<and> (\<forall>i. r = Some i \<longrightarrow> i < 10 \<and> ts_active (in_fingers inp' ! i) \<and> ts_finger (in_fingers inp' ! i) = f)
    \<and> (\<exists>fs. inp' = inp\<lparr>in_fingers := fs\<rparr>)"
proof (cases "touch_slot_for_finger inp f")
  case (Some i)
  with assms(2) have "r = Some i" "inp' = inp" by (auto simp: allocate_touch_slot_def)
  moreover from Some have "i < 10 \<and> ts_active (in_fingers inp ! i) \<and> ts_finger (in_fingers inp ! i) = f"
    by (rule touch_slot_Some)
  moreover have "inp = inp\<lparr>in_fingers := in_fingers inp\<rparr>" by simp
  ultimately show ?thesis using assms(1) by blast
next
  case None
  then have fresh: "\<forall>i<10. \<not> (ts_active (in_fingers inp ! i) \<and> ts_finger (in_fingers inp ! i) = f)"
    by (simp add: touch_slot_for_finger_def find_upt_None)
  show ?thesis
  proof (cases "find (\<lambda>slot. \<not> ts_active (in_fingers inp ! slot)) [0..<10]")
    case None
    with \<open>touch_slot_for_finger inp f = None\<close> assms(2) have "r = None" "inp' = inp"
      by (auto simp: allocate_touch_slot_def)
    moreover have "inp = inp\<lparr>in_fingers := in_fingers inp\<rparr>" by simp
    ultimately show ?thesis using assms(1) by blast
  next
    case (Some k)
    then have k: "k < 10" "\<not> ts_active (in_fingers inp ! k)"
      by (auto dest: find_upt_Some)
    from Some \<open>touch_slot_for_finger inp f = None\<close> assms(2)
    have r: "r = Some k" "inp' = inp\<lparr>in_fingers := (in_fingers inp)[k :=
               (in_fingers inp ! k)\<lparr>ts_finger := f, ts_active := True\<rparr>]\<rparr>"
      by (auto simp: allocate_touch_slot_def)
    have len: "length (in_fingers inp) = 10"
      using assms(1) by (simp add: slots_ok_def)
    have "slots_ok (in_fingers inp')"
      using assms(1) k fresh len r(2) by (auto simp: slots_ok_def nth_list_update)
    with r k len show ?thesis by (auto simp: nth_list_update)
  qed
qed

lemma input_inv_fingers_update:
  assumes "input_inv inp" "slots_ok fs"
    and "\<forall>i<10. ts_active (in_fingers inp ! i) \<longrightarrow> ts_active (fs ! i)"
  shows "input_inv (inp\<lparr>in_fingers := fs\<rparr>)"
  using assms by (simp add: input_inv_parts hid_sync_def key_sync_def) blast

lemma release_slot_frames [input_simps]:
  "in_controller (release_slot h i inp) = in_controller inp"
  "in_callbacks (release_slot h i inp) = in_callbacks inp"
  "in_mouse_pressed (release_slot h i inp) = in_mouse_pressed inp"
  "in_hid_values (release_slot h i inp) = in_hid_values inp"
  "in_hid_sent (release_slot h i inp) = in_hid_sent inp"
  "in_stage (release_slot h i inp) = in_stage inp"
  "in_touch_active (release_slot h i inp) = in_touch_active inp"
  "in_key_down (release_slot h i inp) = in_key_down inp"
  "in_width (release_slot h i inp) = in_width inp"
  "in_height (release_slot h i inp) = in_height inp"
  "guest_hid (in_log (release_slot h i inp)) = guest_hid (in_log inp)"
  "guest_keys (in_log (release_slot h i inp)) = guest_keys (in_log inp)"
  by (simp_all add: release_slot_def Let_def input_simps)

text \<open>Releasing a pointer: its slot goes inactive and the guest sees it up.\<close>

lemma input_inv_pointer_up:
  assumes "input_inv inp" "i < 10" "fs = (in_fingers inp)[i := (in_fingers inp ! i)\<lparr>ts_active := False\<rparr>]"
    and "guest_touch ev = (if cb_touch (in_callbacks inp) then (guest_touch (in_log inp))(i := False)
                           else guest_touch (in_log inp))"
    and "guest_hid ev = guest_hid (in_log inp)" "guest_keys ev = guest_keys (in_log inp)"
  shows "input_inv (inp\<lparr>in_fingers := fs, in_log := ev\<rparr>)"
proof -
  have len: "length (in_fingers inp) = 10"
    using assms(1) by (simp add: input_inv_def slots_ok_def)
  then have "slots_ok fs"
    using assms(1-3) slots_ok_deactivate by (simp add: input_inv_def)
  moreover have act: "ts_active (fs ! j) \<longleftrightarrow> j \<noteq> i \<and> ts_active (in_fingers inp ! j)" for j
    using assms(2,3) len by (simp add: slot_after_update)
  have "touch_tracked (inp\<lparr>in_fingers := fs, in_log := ev\<rparr>)"
  proof (cases "cb_touch (in_callbacks inp)")
    case True
    with assms(4) have "guest_touch ev = (guest_touch (in_log inp))(i := False)" by simp
    with assms(1) True show ?thesis by (simp add: input_inv_def touch_tracked_def act)
  next
    case False
    with assms(4) have "guest_touch ev = guest_touch (in_log inp)" by simp
    with assms(1) False show ?thesis by (simp add: input_inv_def touch_tracked_def)
  qed
  ultimately show ?thesis
    using assms(1,5,6)
    by (simp add: input_inv_def hid_range_def key_range_def first_run_ok_def hid_sync_def key_sync_def)
qed

lemma send_touch_log: "send_touch h inp a x y p = inp\<lparr>in_log := in_log (send_touch h inp a x y p)\<rparr>"
  by (simp add: send_touch_def emit_def)

lemma input_inv_release_slot:
  assumes "input_inv inp" "i < 10"
  shows "input_inv (release_slot h i inp)"
proof (cases "ts_active (in_fingers inp ! i)")
  case True
  let ?s = "send_touch h inp TOUCH_UP (ts_x (in_fingers inp ! i)) (ts_y (in_fingers inp ! i)) i"
  have "release_slot h i inp =
      inp\<lparr>in_fingers := (in_fingers inp)[i := (in_fingers inp ! i)\<lparr>ts_active := False\<rparr>],
          in_log := in_log ?s\<rparr>"
    using True by (simp add: release_slot_def Let_def send_touch_def emit_def)
  then show ?thesis
    using input_inv_pointer_up [OF assms refl, of "in_log ?s"] by (simp add: input_simps)
qed (use assms in \<open>simp add: release_slot_def\<close>)

lemma input_inv_sentinel:
  assumes "input_inv inp"
  shows "input_inv (send_touch_end_sentinel inp)"
  using assms by (auto simp: input_inv_parts hid_sync_def key_sync_def input_simps)

lemma input_inv_fold_release_slot:
  "input_inv inp \<Longrightarrow> \<forall>i \<in> set is. i < 10 \<Longrightarrow> input_inv (fold (release_slot h) is inp)"
  by (induction "is" arbitrary: inp) (auto simp: input_inv_release_slot)

lemma input_inv_release_all:
  assumes "input_inv inp"
  shows "input_inv (release_all_touches h inp)"
  using assms input_inv_fold_release_slot [of inp "[0..<10]" h]
  by (simp add: release_all_touches_def Let_def input_inv_sentinel)

lemma input_inv_release_keyboard:
  assumes "input_inv inp"
  shows "input_inv (release_keyboard_state inp)"
proof -
  have "input_inv (release_key k inp)" if "input_inv inp" for k inp
  proof -
    have "key_range (release_key k inp)"
      using that by (auto simp: input_inv_def key_range_def release_key_def emit_def Let_def)
    with that key_levels.sync_clear [of inp k] show ?thesis
      by (simp add: input_inv_def hid_range_def touch_tracked_def first_run_ok_def hid_sync_def
          input_simps)
  qed
  then have "input_inv (fold release_key ks inp)" for ks
    using assms by (induction ks arbitrary: inp) auto
  then show ?thesis by (simp add: release_keyboard_state_def)
qed

lemma input_inv_finger:
  assumes "input_inv inp"
  shows "input_inv (handle_finger_event h inp kind f x y)"
proof -
  define r where "r = (if kind = FINGERDOWN then allocate_touch_slot inp f
                       else (touch_slot_for_finger inp f, inp))"
  obtain so i1 where si: "r = (so, i1)" by (cases r)
  note e = si [unfolded r_def]
  have i1: "input_inv i1 \<and> (\<forall>i. so = Some i \<longrightarrow> i < 10 \<and> ts_active (in_fingers i1 ! i))"
  proof (cases "kind = FINGERDOWN")
    case True
    with si have a: "allocate_touch_slot inp f = (so, i1)" by (simp add: r_def)
    have "slots_ok (in_fingers inp)" using assms by (simp add: input_inv_def)
    note b = allocate_slot [OF this a]
    then obtain fs where fs: "i1 = inp\<lparr>in_fingers := fs\<rparr>" by blast
    with b input_inv_fingers_update [OF assms, of fs] show ?thesis by simp
  next
    case False
    with si have "so = touch_slot_for_finger inp f" "i1 = inp" by (auto simp: r_def)
    with assms touch_slot_Some [of inp f] show ?thesis by auto
  qed
  show ?thesis
  proof (cases so)
    case None
    with i1 si show ?thesis by (simp add: handle_finger_event_def r_def [symmetric])
  next
    case (Some k)
    let ?fs = "(in_fingers i1)[k := (in_fingers i1 ! k)\<lparr>ts_x := x, ts_y := y\<rparr>]"
    let ?i2 = "i1\<lparr>in_fingers := ?fs\<rparr>"
    note e = e [unfolded Some]
    have k: "k < 10" "ts_active (in_fingers i1 ! k)" "length (in_fingers i1) = 10"
      using i1 Some by (auto simp: input_inv_def slots_ok_def)
    have i2: "input_inv ?i2" "ts_active (?fs ! k)"
      using i1 k slots_ok_update_xy
      by (auto intro!: input_inv_fingers_update simp: slot_after_update)
        (simp add: input_inv_def)
    have "input_inv (send_touch h ?i2 TOUCH_DOWN x y k)" "input_inv (send_touch h ?i2 TOUCH_MOVE x y k)"
      using i2 k(1) by (auto simp: input_inv_parts hid_sync_def key_sync_def input_simps)
    moreover
    let ?i3 = "send_touch h ?i2 TOUCH_UP x y k"
    let ?i4 = "?i3\<lparr>in_fingers := (in_fingers ?i3)[k := (in_fingers ?i3 ! k)\<lparr>ts_active := False\<rparr>]\<rparr>"
    have "?i4 = ?i2\<lparr>in_fingers := (in_fingers ?i2)[k := (in_fingers ?i2 ! k)\<lparr>ts_active := False\<rparr>],
                    in_log := in_log ?i3\<rparr>"
      by (simp add: send_touch_def emit_def)
    then have "input_inv ?i4"
      using input_inv_pointer_up [OF i2(1) k(1) refl, of "in_log ?i3"] by (simp add: input_simps)
    ultimately show ?thesis
      unfolding handle_finger_event_def e Let_def
      by (cases kind) (simp_all add: Let_def input_inv_sentinel)
  qed
qed

section \<open>The whole component\<close>

lemma input_inv_init: "input_inv (input_init h cbs w hh path stage disk)"
  unfolding input_init_def
  by (rule input_inv_open_first)
     (auto simp: input_inv_parts hid_sync_def key_sync_def slots_ok_def)

lemma input_inv_controller_button:
  assumes "input_inv inp"
  shows "input_inv (snd (controller_button h inp pressed which b))"
proof -
  have sel: "input_inv (inp\<lparr>in_select := p\<rparr>) = input_inv inp"
    "input_inv (inp\<lparr>in_start := p\<rparr>) = input_inv inp" for inp p
    by (simp_all add: input_inv_parts hid_sync_def key_sync_def)
  show ?thesis
    using assms
    by (auto simp: controller_button_def Let_def sel input_inv_send_hid input_inv_begin input_inv_finish)
qed

lemma input_inv_focus_lost: "input_inv inp \<Longrightarrow> input_inv (focus_lost h inp)"
  by (simp add: focus_lost_def input_inv_release_controller input_inv_release_keyboard
      input_inv_release_mouse input_inv_release_all)

lemma input_inv_shutdown: "input_inv inp \<Longrightarrow> input_inv (input_shutdown h inp)"
  by (simp add: input_shutdown_def input_inv_close input_inv_release_keyboard
      input_inv_release_mouse input_inv_release_all)

lemma input_inv_controller_axis: "input_inv inp \<Longrightarrow> input_inv (controller_axis inp which axis raw)"
  by (auto simp: controller_axis_def Let_def input_inv_send_hid split: prod.split)

lemmas input_inv_ops [input_simps] =
  input_inv_open input_inv_open_first input_inv_close input_inv_controller_button
  input_inv_controller_axis input_inv_finger input_inv_mouse_button input_inv_mouse_motion
  input_inv_send_key input_inv_window input_inv_focus_lost input_inv_shutdown

lemma input_inv_event: "input_inv inp \<Longrightarrow> input_inv (snd (pump_event h inp e))"
  by (cases e) (simp_all add: input_simps)

lemma input_inv_pump: "input_inv inp \<Longrightarrow> input_inv (snd (input_pump inp es))"
proof (induction inp es rule: input_pump.induct)
  case (2 inp h e events)
  obtain go inp' where s: "pump_event h inp e = (go, inp')" by (cases "pump_event h inp e")
  have "input_inv inp'" using input_inv_event [OF 2(2), of h e] s by simp
  with s 2(1) show ?case by (cases go) simp_all
qed simp

text \<open>A state reached by the program: initialisation and then any number of calls of the pump.\<close>

inductive input_reachable :: "asm2_input \<Rightarrow> bool" where
  reach_init: "input_reachable (input_init h cbs w hh path stage disk)"
| reach_pump: "input_reachable inp \<Longrightarrow> input_reachable (snd (input_pump inp es))"

lemma reachable_inv: "input_reachable inp \<Longrightarrow> input_inv inp"
  by (induction rule: input_reachable.induct) (simp_all add: input_inv_init input_inv_pump)

end
