(* ===== verification/Asm2_InputProps.thy ===== *)
theory Asm2_InputProps
  imports Asm2_InputSafety
begin

text \<open>
  The properties of the input component: nothing stays held in the guest after the focus is lost or
  after shutdown, the guest's view of its controls is the state \<open>input.c\<close> keeps, pointers are never
  shared, coordinates stay inside the drawable, the recovery sequence only moves forward, and its
  state file is read back at the stage it was written with.
\<close>

section \<open>Nothing stays held\<close>

lemma release_slot_fingers:
  "in_fingers (release_slot h i inp) =
     (if ts_active (in_fingers inp ! i)
      then (in_fingers inp)[i := (in_fingers inp ! i)\<lparr>ts_active := False\<rparr>] else in_fingers inp)"
  by (simp add: release_slot_def Let_def input_simps)

lemma release_slot_active:
  assumes "length (in_fingers inp) = 10" "i < 10"
  shows "ts_active (in_fingers (release_slot h i inp) ! j) \<longleftrightarrow> j \<noteq> i \<and> ts_active (in_fingers inp ! j)"
    "length (in_fingers (release_slot h i inp)) = 10"
  using assms by (auto simp: release_slot_fingers slot_after_update)

lemma fold_release_slot_active:
  assumes "length (in_fingers inp) = 10" "\<forall>i \<in> set is. i < 10"
  shows "ts_active (in_fingers (fold (release_slot h) is inp) ! j) \<longleftrightarrow>
    j \<notin> set is \<and> ts_active (in_fingers inp ! j)"
  using assms
proof (induction "is" arbitrary: inp)
  case (Cons i "is")
  then have "i < 10" by simp
  note r = release_slot_active [OF Cons.prems(1) this, of h]
  have "ts_active (in_fingers (fold (release_slot h) is (release_slot h i inp)) ! j) \<longleftrightarrow>
      j \<notin> set is \<and> ts_active (in_fingers (release_slot h i inp) ! j)"
    using Cons.prems(2) r(2) by (intro Cons.IH) simp_all
  with r(1) show ?case by auto
qed simp

lemma fold_release_slot_frames [input_simps]:
  "in_mouse_pressed (fold (release_slot h) is inp) = in_mouse_pressed inp"
  "in_touch_active (fold (release_slot h) is inp) = in_touch_active inp"
  "in_controller (fold (release_slot h) is inp) = in_controller inp"
  "guest_hid (in_log (fold (release_slot h) is inp)) = guest_hid (in_log inp)"
  "guest_keys (in_log (fold (release_slot h) is inp)) = guest_keys (in_log inp)"
  using fold_frame [of in_mouse_pressed "release_slot h"] fold_frame [of in_touch_active "release_slot h"]
    fold_frame [of in_controller "release_slot h"]
    fold_frame [of "\<lambda>s. guest_hid (in_log s)" "release_slot h"]
    fold_frame [of "\<lambda>s. guest_keys (in_log s)" "release_slot h"]
  by (simp_all add: input_simps)

lemma release_all_frames [input_simps]:
  "in_mouse_pressed (release_all_touches h inp) = in_mouse_pressed inp"
  "in_touch_active (release_all_touches h inp) = in_touch_active inp"
  "in_controller (release_all_touches h inp) = in_controller inp"
  "guest_hid (in_log (release_all_touches h inp)) = guest_hid (in_log inp)"
  "guest_keys (in_log (release_all_touches h inp)) = guest_keys (in_log inp)"
  by (simp_all add: release_all_touches_def Let_def input_simps)

lemma release_all_inactive:
  assumes "input_inv inp" "i < 10"
  shows "\<not> ts_active (in_fingers (release_all_touches h inp) ! i)"
proof -
  have "length (in_fingers inp) = 10"
    using assms(1) by (simp add: input_inv_def slots_ok_def)
  then have "\<not> ts_active (in_fingers (fold (release_slot h) [0..<10] inp) ! i)"
    using assms(2) by (simp add: fold_release_slot_active)
  then show ?thesis by (simp add: release_all_touches_def Let_def input_simps)
qed

lemma release_mouse_frames [input_simps]:
  "\<not> in_mouse_pressed (release_mouse_touch inp)"
  "in_touch_active (release_mouse_touch inp) = in_touch_active inp"
  "in_controller (release_mouse_touch inp) = in_controller inp"
  "guest_hid (in_log (release_mouse_touch inp)) = guest_hid (in_log inp)"
  "guest_keys (in_log (release_mouse_touch inp)) = guest_keys (in_log inp)"
  by (auto simp: release_mouse_touch_def input_simps)

lemma release_keyboard_frames [input_simps]:
  "in_touch_active (release_keyboard_state inp) = in_touch_active inp"
  "in_controller (release_keyboard_state inp) = in_controller inp"
  "guest_hid (in_log (release_keyboard_state inp)) = guest_hid (in_log inp)"
  unfolding release_keyboard_state_def
  using fold_frame [of in_touch_active release_key] fold_frame [of in_controller release_key]
    fold_frame [of "\<lambda>s. guest_hid (in_log s)" release_key]
  by (simp_all add: input_simps)

lemma release_keyboard_keys:
  assumes "input_inv inp"
  shows "guest_keys (in_log (release_keyboard_state inp)) = (\<lambda>_. False)"
  unfolding release_keyboard_state_def
proof (rule key_levels.seen_fold_zero)
  show "key_sync inp" using assms by (simp add: input_inv_def)
  fix k :: nat
  assume "k \<notin> set [1..<128]"
  then have "k < 1 \<or> 127 < k" by auto
  with assms show "in_key_down inp k = False"
    unfolding input_inv_def key_range_def by fastforce
qed

lemma release_controller_inactive [input_simps]: "\<not> in_touch_active (release_controller_state ph inp)"
  by (simp add: release_controller_state_def input_simps)

lemma pointers_up:
  assumes "input_inv inp" "\<not> in_mouse_pressed inp" "\<not> in_touch_active inp"
    and "\<And>i. i < 10 \<Longrightarrow> \<not> ts_active (in_fingers inp ! i)"
  shows "guest_touch (in_log inp) = (\<lambda>_. False)"
  using assms by (fastforce simp: input_inv_def touch_tracked_def)

lemma focus_lost_quiet:
  assumes "input_inv inp"
  shows "guest_quiet (in_log (focus_lost h inp))"
proof -
  let ?c = "release_controller_state (host_persist h) inp"
  let ?k = "release_keyboard_state ?c"
  let ?m = "release_mouse_touch ?k"
  have inv: "input_inv ?c" "input_inv ?m" "input_inv (focus_lost h inp)"
    using assms by (simp_all add: input_inv_release_controller input_inv_release_keyboard
        input_inv_release_mouse input_inv_focus_lost)
  have "guest_touch (in_log (focus_lost h inp)) = (\<lambda>_. False)"
  proof (rule pointers_up [OF inv(3)])
    fix i :: nat assume "i < 10"
    with inv(2) show "\<not> ts_active (in_fingers (focus_lost h inp) ! i)"
      unfolding focus_lost_def by (rule release_all_inactive)
  qed (simp_all add: focus_lost_def input_simps)
  moreover have "guest_hid (in_log (focus_lost h inp)) = (\<lambda>_. 0)"
    using release_controller_hid [OF assms] by (simp add: focus_lost_def input_simps)
  moreover have "guest_keys (in_log (focus_lost h inp)) = (\<lambda>_. False)"
    using release_keyboard_keys [OF inv(1)] by (simp add: focus_lost_def input_simps)
  ultimately show ?thesis by (simp add: guest_quiet_def)
qed

lemma release_controller_fingers [input_simps]:
  "in_fingers (release_controller_state ph inp) = in_fingers inp"
  "in_mouse_pressed (release_controller_state ph inp) = in_mouse_pressed inp"
  "guest_keys (in_log (release_controller_state ph inp)) = guest_keys (in_log (finish_first_run_touch ph inp))"
  by (simp_all add: release_controller_state_def input_simps)

lemma finish_keys [input_simps]:
  "guest_keys (in_log (finish_first_run_touch ph inp)) = guest_keys (in_log inp)"
  by (simp add: finish_first_run_touch_def Let_def input_simps)

lemma close_controller_effect:
  assumes "input_inv inp"
  shows "in_fingers (close_controller ph inp notify) = in_fingers inp"
    "in_mouse_pressed (close_controller ph inp notify) = in_mouse_pressed inp"
    "guest_keys (in_log (close_controller ph inp notify)) = guest_keys (in_log inp)"
    "\<not> in_touch_active (close_controller ph inp notify)"
    "guest_hid (in_log (close_controller ph inp notify)) = (\<lambda>_. 0)"
proof -
  have "in_controller inp \<or> \<not> in_touch_active inp \<and> guest_hid (in_log inp) = (\<lambda>_. 0)"
    using assms by (auto simp: input_inv_def first_run_ok_def hid_range_def hid_sync_def)
  moreover have "guest_hid (in_log (release_controller_state ph inp)) = (\<lambda>_. 0)"
    using assms by (rule release_controller_hid)
  ultimately show "\<not> in_touch_active (close_controller ph inp notify)"
    "guest_hid (in_log (close_controller ph inp notify)) = (\<lambda>_. 0)"
    by (auto simp: close_controller_def Let_def input_simps emit_def)
qed (simp_all add: close_controller_def Let_def input_simps emit_def)

lemma shutdown_quiet:
  assumes "input_inv inp"
  shows "guest_quiet (in_log (input_shutdown h inp))"
proof -
  let ?m = "release_mouse_touch (release_keyboard_state inp)"
  let ?t = "release_all_touches h ?m"
  have inv: "input_inv ?m" "input_inv ?t" "input_inv (input_shutdown h inp)"
    using assms by (simp_all add: input_inv_release_keyboard input_inv_release_mouse
        input_inv_release_all input_inv_shutdown)
  note c = close_controller_effect [OF inv(2), of "host_persist h" True]
  have "guest_touch (in_log (input_shutdown h inp)) = (\<lambda>_. False)"
    using c release_all_inactive [OF inv(1)]
    by (intro pointers_up inv(3)) (simp_all add: input_shutdown_def input_simps)
  moreover have "guest_keys (in_log (input_shutdown h inp)) = (\<lambda>_. False)"
    using c release_keyboard_keys [OF assms] by (simp add: input_shutdown_def input_simps)
  moreover have "guest_hid (in_log (input_shutdown h inp)) = (\<lambda>_. 0)"
    using c by (simp add: input_shutdown_def)
  ultimately show ?thesis by (simp add: guest_quiet_def)
qed

text \<open>C1. Shutdown releases everything: after any number of polled events, with any host answers,
  \<open>asm2_input_shutdown\<close> leaves the guest with every HID value at zero, every key up and every touch
  pointer up, so that no control is held when the game is resumed or saved.\<close>

theorem shutdown_leaves_guest_quiet:
  "guest_quiet (in_log (input_shutdown h
     (snd (input_pump (input_init h0 cbs w hh path stage disk) events))))"
  by (rule shutdown_quiet) (simp add: input_inv_pump input_inv_init)

text \<open>Losing the window focus releases everything: in every state the program reaches, the
  focus-lost event leaves the guest with every HID value at zero, every key up and every pointer
  up.\<close>

theorem focus_lost_leaves_guest_quiet:
  assumes "input_reachable inp"
  shows "guest_quiet (in_log (snd (pump_event h inp E_WINDOW_FOCUS_LOST)))"
  using focus_lost_quiet [OF reachable_inv [OF assms]] by simp

definition sample_host :: sdl_host where
  "sample_host = \<lparr>sdl_num_joysticks = 1, sdl_is_controller = (\<lambda>i. True), sdl_open = (\<lambda>i. Some 7),
     sdl_name = (\<lambda>i. None), sdl_window_size = (\<lambda>i. None), sdl_drawable_size = (\<lambda>i. None),
     f32_mul = (\<lambda>x e. x * of_int e), f64_scale = (\<lambda>c d w. of_int (c * d) / of_int w),
     host_persist = \<lparr>ph_open = True, ph_written = 7, ph_fsync = True, ph_close = True, ph_rename = True\<rparr>\<rparr>"

definition sample_callbacks :: input_callbacks where
  "sample_callbacks = \<lparr>cb_connected = True, cb_disconnected = True, cb_hid = True, cb_key = True,
     cb_touch = True\<rparr>"

definition sample_input :: asm2_input where
  "sample_input = snd (input_pump (input_init sample_host sample_callbacks 640 480 None 0 None)
     [(sample_host, E_KEY True False K_z), (sample_host, E_MOUSEBUTTON True False True 1 10 20),
      (sample_host, E_FINGER FINGERDOWN 99 (1 / 2) (1 / 4))])"

lemma sample_reachable: "input_reachable sample_input"
  unfolding sample_input_def by (intro input_reachable.intros)

theorem focus_lost_leaves_guest_quiet_witness:
  "guest_quiet (in_log (snd (pump_event sample_host sample_input E_WINDOW_FOCUS_LOST)))"
  by (rule focus_lost_leaves_guest_quiet [OF sample_reachable])

section \<open>The guest's view is the tracked state\<close>

text \<open>C2. In every reachable state the guest's controls, as the callbacks told it, are exactly the
  tables \<open>input.c\<close> keeps: no HID value and no key is stale, values outside the event range are never
  set, at most ten pointers are down, each of them held by a finger, the mouse or the recovery touch,
  and two active fingers never have the same id.\<close>

theorem guest_view_is_tracked_state:
  assumes "input_reachable inp"
  shows "(cb_hid (in_callbacks inp) \<longrightarrow> guest_hid (in_log inp) = in_hid_values inp)
    \<and> (cb_key (in_callbacks inp) \<longrightarrow> guest_keys (in_log inp) = in_key_down inp)
    \<and> (\<forall>i. i < 1 \<or> 21 < i \<longrightarrow> in_hid_values inp i = 0)
    \<and> (\<forall>p. guest_touch (in_log inp) p \<longrightarrow>
         p < 10 \<and> ts_active (in_fingers inp ! p)
         \<or> p = 0 \<and> (in_mouse_pressed inp \<or> in_touch_active inp))
    \<and> slots_ok (in_fingers inp)"
  using reachable_inv [OF assms]
  by (auto simp: input_inv_def hid_sync_def key_sync_def hid_range_def touch_tracked_def)

theorem guest_view_is_tracked_state_witness:
  "slots_ok (in_fingers sample_input) \<and> guest_keys (in_log sample_input) = in_key_down sample_input"
proof -
  have "cb_key (in_callbacks sample_input)" by code_simp
  with guest_view_is_tracked_state [OF sample_reachable] show ?thesis by blast
qed

section \<open>Touch coordinates\<close>

text \<open>What a touch handler may have sent: only the end sentinel or a point of the drawable.\<close>

definition touch_in_drawable :: "asm2_input \<Rightarrow> guest_event \<Rightarrow> bool" where
  "touch_in_drawable inp ev = (case ev of
     Ev_touch a x y p \<Rightarrow>
       a = TOUCH_UP \<and> x = -2000 \<and> y = -2000 \<and> p = 0
       \<or> 0 \<le> x \<and> x < in_width inp \<and> 0 \<le> y \<and> y < in_height inp
   | _ \<Rightarrow> True)"

text \<open>\<open>extends P a b\<close>: state \<open>b\<close> has the extents of \<open>a\<close>, and its log is \<open>a\<close>'s followed by events
  that satisfy \<open>P\<close>.\<close>

definition sends_in_drawable :: "asm2_input \<Rightarrow> asm2_input \<Rightarrow> bool" where
  "sends_in_drawable a b \<longleftrightarrow> in_width b = in_width a \<and> in_height b = in_height a \<and>
     (\<exists>es. in_log b = in_log a @ es \<and> (\<forall>e \<in> set es. touch_in_drawable a e))"

lemma sends_refl: "in_width b = in_width a \<Longrightarrow> in_height b = in_height a \<Longrightarrow> in_log b = in_log a \<Longrightarrow>
    sends_in_drawable a b"
  by (simp add: sends_in_drawable_def)

lemma sends_trans: "sends_in_drawable a b \<Longrightarrow> sends_in_drawable b c \<Longrightarrow> sends_in_drawable a c"
proof -
  assume ab: "sends_in_drawable a b" and bc: "sends_in_drawable b c"
  have "touch_in_drawable b = touch_in_drawable a"
    using ab by (auto simp: sends_in_drawable_def touch_in_drawable_def fun_eq_iff split: guest_event.split)
  with ab bc show ?thesis
    unfolding sends_in_drawable_def by (metis append_assoc set_append UnE)
qed

lemma clamp_bounds:
  "0 < e \<Longrightarrow> 0 \<le> clamp_pixel_coordinate c e \<and> clamp_pixel_coordinate c e < e"
  by (simp add: clamp_pixel_coordinate_def)

lemma sends_pixels:
  assumes "0 < in_width inp" "0 < in_height inp"
  shows "sends_in_drawable inp (send_touch_pixels inp a x y p)"
  using assms clamp_bounds
  by (simp add: sends_in_drawable_def send_touch_pixels_def emit_def touch_in_drawable_def)

lemma sends_sentinel: "sends_in_drawable inp (send_touch_end_sentinel inp)"
  by (simp add: sends_in_drawable_def send_touch_end_sentinel_def emit_def touch_in_drawable_def)

text \<open>The float product of a factor in [0, 1] and an extent below 2 to the 30 is a
  finite float between zero and the extent rounded up, which is at most 2 to the 30.\<close>

definition f32_mul_ok :: "sdl_host \<Rightarrow> bool" where
  "f32_mul_ok h \<longleftrightarrow> (\<forall>x e. 0 \<le> x \<and> x \<le> 1 \<and> 0 < e \<and> e < 1073741824 \<longrightarrow>
     0 \<le> f32_mul h x e \<and> f32_mul h x e \<le> 1073741824)"

lemma pixel_bounds:
  assumes "f32_mul_ok h" "0 < e" "e < 1073741824"
  shows "0 \<le> pixel_coordinate h x e \<and> pixel_coordinate h x e < e"
proof -
  define n where "n = (if (if x < 0 then 0 else x) > 1 then 1 else (if x < 0 then 0 else x))"
  have n: "0 \<le> n" "n \<le> 1" by (auto simp: n_def)
  with assms have m: "0 \<le> f32_mul h n e" "f32_mul h n e \<le> 1073741824"
    by (auto simp: f32_mul_ok_def)
  then have "0 \<le> trunc_rat (f32_mul h n e)" "trunc_rat (f32_mul h n e) \<le> 1073741824"
    by (simp_all add: trunc_rat_def floor_le_iff)
  then have "i32 (trunc_rat (f32_mul h n e)) = trunc_rat (f32_mul h n e)"
    by (intro i32_id) (simp add: fits_i32_def)
  with assms(2) \<open>0 \<le> trunc_rat (f32_mul h n e)\<close> show ?thesis
    unfolding pixel_coordinate_def Let_def n_def [symmetric] by auto
qed

lemma sends_touch:
  assumes "f32_mul_ok h" "0 < in_width inp" "in_width inp < 1073741824"
    "0 < in_height inp" "in_height inp < 1073741824"
  shows "sends_in_drawable inp (send_touch h inp a x y p)"
  using assms pixel_bounds
  by (simp add: sends_in_drawable_def send_touch_def emit_def touch_in_drawable_def)

lemma sends_no_touch:
  "sends_in_drawable inp (send_hid inp i v)" "sends_in_drawable inp (send_key inp k b)"
  "sends_in_drawable inp (release_hid i inp)" "sends_in_drawable inp (release_key k inp)"
  by (auto simp: sends_in_drawable_def send_hid_def send_key_def release_hid_def release_key_def
      Let_def emit_def touch_in_drawable_def)

lemma sends_fold: "(\<And>k s. sends_in_drawable s (g k s)) \<Longrightarrow> sends_in_drawable inp (fold g ks inp)"
  by (induction ks arbitrary: inp) (auto intro: sends_refl sends_trans)

lemma sends_update [simp]:
  "sends_in_drawable a (b\<lparr>in_hid_values := hv\<rparr>) = sends_in_drawable a b"
  "sends_in_drawable a (b\<lparr>in_hid_sent := hs\<rparr>) = sends_in_drawable a b"
  "sends_in_drawable a (b\<lparr>in_stage := st\<rparr>) = sends_in_drawable a b"
  "sends_in_drawable a (b\<lparr>in_touch_active := ta\<rparr>) = sends_in_drawable a b"
  "sends_in_drawable a (b\<lparr>in_touch_button := tb\<rparr>) = sends_in_drawable a b"
  "sends_in_drawable a (b\<lparr>in_select := sel\<rparr>) = sends_in_drawable a b"
  "sends_in_drawable a (b\<lparr>in_start := sta\<rparr>) = sends_in_drawable a b"
  "sends_in_drawable a (b\<lparr>in_mouse_pressed := mp\<rparr>) = sends_in_drawable a b"
  "sends_in_drawable a (b\<lparr>in_controller := co\<rparr>) = sends_in_drawable a b"
  "sends_in_drawable a (b\<lparr>in_instance_id := ii\<rparr>) = sends_in_drawable a b"
  "sends_in_drawable a (b\<lparr>in_fingers := fs\<rparr>) = sends_in_drawable a b"
  by (simp_all add: sends_in_drawable_def)

lemma sends_from_update:
  "sends_in_drawable (a\<lparr>in_touch_active := ta, in_touch_button := tb\<rparr>) b = sends_in_drawable a b"
  "sends_in_drawable (a\<lparr>in_touch_x := tx, in_touch_y := ty\<rparr>) b = sends_in_drawable a b"
  "sends_in_drawable (a\<lparr>in_mouse_x := mx, in_mouse_y := my\<rparr>) b = sends_in_drawable a b"
  "sends_in_drawable (a\<lparr>in_mouse_pressed := mp\<rparr>) b = sends_in_drawable a b"
  "sends_in_drawable (a\<lparr>in_fingers := fs\<rparr>) b = sends_in_drawable a b"
  by (simp_all add: sends_in_drawable_def touch_in_drawable_def cong: guest_event.case_cong)

lemma sends_persist [simp]:
  "sends_in_drawable a (persist_first_run_touch_state ph b) = sends_in_drawable a b"
  by (simp add: sends_in_drawable_def input_simps)

lemma sends_up_sentinel:
  assumes "0 < in_width inp" "0 < in_height inp"
  shows "sends_in_drawable inp (send_touch_end_sentinel (send_touch_pixels inp TOUCH_UP x y p))"
    "sends_in_drawable inp (send_touch_end_sentinel
        ((send_touch_pixels inp TOUCH_UP x y p)\<lparr>in_mouse_pressed := False\<rparr>))"
  using sends_trans [OF sends_pixels [OF assms] sends_sentinel]
    sends_trans [OF _ sends_sentinel, of inp "(send_touch_pixels inp TOUCH_UP x y p)\<lparr>in_mouse_pressed := False\<rparr>"]
    sends_pixels [OF assms]
  by simp_all

lemma sends_finish:
  assumes "0 < in_width inp" "0 < in_height inp"
  shows "sends_in_drawable inp (finish_first_run_touch ph inp)"
  using sends_up_sentinel(1) [OF assms] sends_no_touch(1)
  by (simp add: finish_first_run_touch_def Let_def sends_refl)

lemma sends_release_controller:
  assumes "0 < in_width inp" "0 < in_height inp"
  shows "sends_in_drawable inp (release_controller_state ph inp)"
  using sends_trans [OF sends_finish [OF assms] sends_fold [of release_hid, OF sends_no_touch(3)]]
  by (simp add: release_controller_state_def)

lemma sends_connection:
  "sends_in_drawable inp (emit (Ev_connected n) inp)" "sends_in_drawable inp (emit Ev_disconnected inp)"
  by (simp_all add: sends_in_drawable_def emit_def touch_in_drawable_def)

lemma sends_close:
  assumes "0 < in_width inp" "0 < in_height inp"
  shows "sends_in_drawable inp (close_controller ph inp notify)"
  using sends_release_controller [OF assms, of ph]
    sends_trans [OF sends_release_controller [OF assms, of ph] sends_connection(2)]
  by (auto simp: close_controller_def Let_def sends_refl)

lemma sends_open: "sends_in_drawable inp (open_controller h i inp)"
  by (simp add: open_controller_def sends_in_drawable_def emit_def touch_in_drawable_def Let_def
      split: option.split)

lemma sends_open_first: "sends_in_drawable inp (open_first_controller h inp)"
proof -
  have "sends_in_drawable s (if in_controller s then s else open_controller h (int k) s)" for k s
    by (simp add: sends_refl sends_open)
  then show ?thesis
    unfolding open_first_controller_def by (simp add: sends_fold sends_refl)
qed

lemma sends_begin:
  assumes "0 < in_width inp" "0 < in_height inp"
  shows "sends_in_drawable inp (begin_first_run_touch inp b)"
proof -
  let ?i1 = "inp\<lparr>in_touch_active := True, in_touch_button := Some b\<rparr>"
  obtain x y where xy: "first_run_touch_position (in_stage inp) (in_width inp) (in_height inp) = (x, y)"
    by fastforce
  have "sends_in_drawable ?i1 (send_hid ?i1 14 1)" by (rule sends_no_touch)
  moreover have "sends_in_drawable (?i1\<lparr>in_touch_x := x, in_touch_y := y\<rparr>)
      (send_touch_pixels (?i1\<lparr>in_touch_x := x, in_touch_y := y\<rparr>) TOUCH_DOWN x y 0)"
    using assms by (intro sends_pixels) simp_all
  ultimately show ?thesis
    using xy by (simp add: begin_first_run_touch_def Let_def sends_from_update)
qed

lemma sends_mouse_button:
  assumes "0 < in_width inp" "0 < in_height inp"
  shows "sends_in_drawable inp (handle_mouse_button h inp t l w bx by' d)"
proof -
  define x where "x = mouse_drawable_coordinate h inp w bx True"
  define y where "y = mouse_drawable_coordinate h inp w by' False"
  define i1 where "i1 = inp\<lparr>in_mouse_x := x, in_mouse_y := y\<rparr>"
  have pos: "0 < in_width i1" "0 < in_height i1" "0 < in_width (i1\<lparr>in_mouse_pressed := True\<rparr>)"
    "0 < in_height (i1\<lparr>in_mouse_pressed := True\<rparr>)"
    using assms by (simp_all add: i1_def)
  have "sends_in_drawable i1 (send_touch_pixels (i1\<lparr>in_mouse_pressed := True\<rparr>) TOUCH_DOWN x y 0)"
    using sends_pixels [OF pos(3,4)] by (simp add: sends_from_update)
  moreover note sends_up_sentinel(2) [OF pos(1,2), of x y 0] sends_refl [of i1 i1]
  ultimately have "sends_in_drawable i1 (handle_mouse_button h inp t l w bx by' d) \<or>
      handle_mouse_button h inp t l w bx by' d = inp"
    unfolding handle_mouse_button_def Let_def x_def [symmetric] y_def [symmetric] i1_def [symmetric]
    by simp
  then show ?thesis by (auto simp: i1_def sends_from_update sends_refl)
qed

lemma sends_mouse_motion:
  assumes "0 < in_width inp" "0 < in_height inp"
  shows "sends_in_drawable inp (handle_mouse_motion h inp t w x y)"
  using sends_pixels [of "inp\<lparr>in_mouse_x := mx, in_mouse_y := my\<rparr>" TOUCH_MOVE mx my 0 for mx my] assms
  by (simp add: handle_mouse_motion_def Let_def sends_from_update sends_refl)

lemma sends_release_mouse:
  assumes "0 < in_width inp" "0 < in_height inp"
  shows "sends_in_drawable inp (release_mouse_touch inp)"
  using sends_up_sentinel(2) [OF assms] by (simp add: release_mouse_touch_def sends_refl)

lemma sends_release_slots:
  assumes "f32_mul_ok h" "0 < in_width inp" "in_width inp < 1073741824"
    "0 < in_height inp" "in_height inp < 1073741824"
  shows "sends_in_drawable inp (fold (release_slot h) is inp)"
  using assms
proof (induction "is" arbitrary: inp)
  case (Cons i "is")
  have s: "sends_in_drawable inp (release_slot h i inp)"
    using sends_touch [OF Cons.prems] by (simp add: release_slot_def Let_def sends_refl)
  moreover have "sends_in_drawable (release_slot h i inp) (fold (release_slot h) is (release_slot h i inp))"
    using s Cons.prems by (intro Cons.IH) (simp_all add: sends_in_drawable_def)
  ultimately show ?case by (auto intro: sends_trans)
qed (simp add: sends_refl)

lemma sends_release_all:
  assumes "f32_mul_ok h" "0 < in_width inp" "in_width inp < 1073741824"
    "0 < in_height inp" "in_height inp < 1073741824"
  shows "sends_in_drawable inp (release_all_touches h inp)"
  using sends_release_slots [OF assms] sends_trans [OF sends_release_slots [OF assms] sends_sentinel]
  by (simp add: release_all_touches_def Let_def)

lemma sends_extents: "sends_in_drawable a b \<Longrightarrow> in_width b = in_width a \<and> in_height b = in_height a"
  by (simp add: sends_in_drawable_def)

lemma sends_focus_lost:
  assumes "f32_mul_ok h" "0 < in_width inp" "in_width inp < 1073741824"
    "0 < in_height inp" "in_height inp < 1073741824"
  shows "sends_in_drawable inp (focus_lost h inp)"
proof -
  let ?c = "release_controller_state (host_persist h) inp"
  let ?k = "release_keyboard_state ?c"
  let ?m = "release_mouse_touch ?k"
  have c: "sends_in_drawable inp ?c" using assms by (intro sends_release_controller)
  have "sends_in_drawable ?c ?k"
    unfolding release_keyboard_state_def by (rule sends_fold) (rule sends_no_touch)
  from sends_trans [OF c this] have k: "sends_in_drawable inp ?k" .
  have "sends_in_drawable ?k ?m"
    using assms sends_extents [OF k] by (intro sends_release_mouse) simp_all
  from sends_trans [OF k this] have m: "sends_in_drawable inp ?m" .
  have "sends_in_drawable ?m (focus_lost h inp)"
    unfolding focus_lost_def using assms sends_extents [OF m] by (intro sends_release_all) simp_all
  from sends_trans [OF m this] show ?thesis .
qed

lemma same_fingers: "\<exists>fs. inp = inp\<lparr>in_fingers := fs\<rparr>"
  by (rule exI [of _ "in_fingers inp"]) simp

lemma allocate_frame: "allocate_touch_slot inp f = (r, i1) \<Longrightarrow> \<exists>fs. i1 = inp\<lparr>in_fingers := fs\<rparr>"
  by (auto simp: allocate_touch_slot_def same_fingers split: option.splits)

lemma sends_finger:
  assumes "f32_mul_ok h" "0 < in_width inp" "in_width inp < 1073741824"
    "0 < in_height inp" "in_height inp < 1073741824"
  shows "sends_in_drawable inp (handle_finger_event h inp kind f x y)"
proof -
  obtain so i1 where e: "(if kind = FINGERDOWN then allocate_touch_slot inp f
      else (touch_slot_for_finger inp f, inp)) = (so, i1)" by fastforce
  have "\<exists>fs. i1 = inp\<lparr>in_fingers := fs\<rparr>"
    using e same_fingers by (cases "kind = FINGERDOWN") (auto dest: allocate_frame)
  then obtain fs where fs: "i1 = inp\<lparr>in_fingers := fs\<rparr>" ..
  have t: "sends_in_drawable inp (send_touch h (inp\<lparr>in_fingers := gs\<rparr>) a x y k)" for gs a k
    using sends_touch [OF assms(1), of "inp\<lparr>in_fingers := gs\<rparr>"] assms
    by (simp add: sends_from_update)
  show ?thesis
    unfolding handle_finger_event_def e Let_def
    using t by (simp add: fs sends_refl sends_trans [OF _ sends_sentinel] split: option.split)
qed

text \<open>C3. Touch coordinates: whatever one event makes \<open>input.c\<close> send, in a reachable state whose
  drawable is smaller than 2 to the 30, every touch that reaches the guest is inside the current
  drawable, the only exception being the end sentinel (up at -2000, -2000, pointer 0).\<close>

theorem touches_stay_in_drawable:
  assumes "input_reachable inp" "f32_mul_ok h"
    and "in_width inp < 1073741824" "in_height inp < 1073741824"
    and "ev \<in> set (drop (length (in_log inp)) (in_log (snd (pump_event h inp e))))"
  shows "touch_in_drawable inp ev"
proof -
  have pos: "0 < in_width inp" "0 < in_height inp"
    using reachable_inv [OF assms(1)] by (simp_all add: input_inv_def)
  note ext = pos(1) assms(3) pos(2) assms(4)
  have "sends_in_drawable inp (snd (pump_event h inp e)) \<or>
      in_log (snd (pump_event h inp e)) = in_log inp"
  proof (cases e)
    case (E_CONTROLLERDEVICEREMOVED which)
    then show ?thesis
      using sends_trans [OF sends_close [OF pos] sends_open_first] by (simp add: sends_refl)
  next
    case (E_CONTROLLERBUTTON pressed which button)
    then show ?thesis
      using sends_begin [OF pos] sends_finish [OF pos] sends_no_touch(1)
      by (simp add: controller_button_def Let_def sends_refl)
  next
    case (E_WINDOW_SIZE w a b)
    then show ?thesis by (simp add: window_size_changed_def Let_def split: prod.split)
  qed (use sends_mouse_button [OF pos] sends_mouse_motion [OF pos] sends_finger [OF assms(2) ext]
       sends_focus_lost [OF assms(2) ext] sends_no_touch sends_open
       in \<open>auto simp: controller_axis_def split: prod.split\<close>)
  with assms(5) show ?thesis by (auto simp: sends_in_drawable_def)
qed

lemma sample_mul_ok: "f32_mul_ok sample_host"
proof -
  have "x * of_int e \<le> 1073741824" if "0 \<le> x" "x \<le> (1::rat)" "0 < e" "e < 1073741824" for x and e :: int
  proof -
    have "x * of_int e \<le> 1 * of_int e" using that by (intro mult_right_mono) simp_all
    also have "\<dots> \<le> 1073741824" using that(4) by simp
    finally show ?thesis .
  qed
  then show ?thesis by (simp add: f32_mul_ok_def sample_host_def)
qed

theorem touches_stay_in_drawable_witness:
  "touch_in_drawable (input_init sample_host sample_callbacks 640 480 None 0 None)
     (Ev_touch TOUCH_DOWN 639 20 0)"
proof (rule touches_stay_in_drawable [OF reach_init sample_mul_ok])
  show "Ev_touch TOUCH_DOWN 639 20 0 \<in>
    set (drop (length (in_log (input_init sample_host sample_callbacks 640 480 None 0 None)))
      (in_log (snd (pump_event sample_host (input_init sample_host sample_callbacks 640 480 None 0 None)
        (E_MOUSEBUTTON True False True 1 700 20)))))"
    by code_simp
qed (code_simp+)

section \<open>The recovery sequence and the end of the game\<close>

lemma open_stage: "in_stage (open_controller h i inp) = in_stage inp"
  by (simp add: open_controller_def Let_def emit_def split: option.split)

lemma open_first_stage: "in_stage (open_first_controller h inp) = in_stage inp"
proof -
  have "in_stage (fold (\<lambda>index st. if in_controller st then st else open_controller h (int index) st) ks inp)
      = in_stage inp" for ks
    by (rule fold_frame) (simp add: open_stage)
  then show ?thesis by (simp add: open_first_controller_def)
qed

lemma finish_stage:
  "in_stage (finish_first_run_touch ph inp) =
     (if in_touch_active inp \<and> in_stage inp < 3 then in_stage inp + 1 else in_stage inp)"
  by (simp add: finish_first_run_touch_def Let_def input_simps)

lemma release_stage: "in_stage (release_controller_state ph inp) = in_stage (finish_first_run_touch ph inp)"
  by (simp add: release_controller_state_def input_simps)

lemma close_stage:
  "in_stage (close_controller ph inp notify) =
     (if in_controller inp then in_stage (finish_first_run_touch ph inp) else in_stage inp)"
  by (simp add: close_controller_def Let_def release_stage emit_def)

lemma begin_stage: "in_stage (begin_first_run_touch inp b) = in_stage inp"
  by (simp add: begin_first_run_touch_def Let_def input_simps split: prod.split)

lemma release_slot_stage: "in_stage (fold (release_slot h) is inp) = in_stage inp"
  by (rule fold_frame) (simp add: input_simps)

lemma release_all_stage: "in_stage (release_all_touches h inp) = in_stage inp"
  by (simp add: release_all_touches_def Let_def release_slot_stage input_simps)

lemma release_keyboard_stage: "in_stage (release_keyboard_state inp) = in_stage inp"
  unfolding release_keyboard_state_def by (rule fold_frame) (simp add: input_simps)

lemma finger_stage: "in_stage (handle_finger_event h inp kind f x y) = in_stage inp"
proof -
  obtain so i1 where e: "(if kind = FINGERDOWN then allocate_touch_slot inp f
      else (touch_slot_for_finger inp f, inp)) = (so, i1)" by fastforce
  then have "in_stage i1 = in_stage inp"
    by (cases "kind = FINGERDOWN") (auto dest: allocate_frame)
  then show ?thesis
    unfolding handle_finger_event_def e Let_def by (simp add: input_simps split: option.split)
qed

text \<open>The recovery sequence only moves forward: one event raises the stage by at most one, and
  only when a recovery touch was in progress, so that no step is repeated or skipped while the
  program runs.\<close>

theorem first_run_stage_step:
  "in_stage (snd (pump_event h inp e)) = in_stage inp
   \<or> in_touch_active inp \<and> in_stage inp < FIRST_RUN_TOUCH_COMPLETE
     \<and> in_stage (snd (pump_event h inp e)) = in_stage inp + 1"
proof (cases e)
  case (E_CONTROLLERBUTTON pressed which button)
  then show ?thesis
    by (auto simp: controller_button_def Let_def finish_stage begin_stage input_simps)
next
  case E_WINDOW_FOCUS_LOST
  then show ?thesis
    by (auto simp: focus_lost_def release_mouse_touch_def release_all_stage release_keyboard_stage
        release_stage finish_stage input_simps)
next
  case (E_WINDOW_SIZE w a b)
  then show ?thesis by (simp add: window_size_changed_def Let_def split: prod.split)
qed (auto simp: open_stage open_first_stage close_stage finish_stage controller_axis_def finger_stage
      handle_mouse_button_def handle_mouse_motion_def Let_def input_simps split: prod.split)

text \<open>The game ends on request only: the pump asks for the exit at an SDL quit event or at a
  button event of the open controller after which Back and Start are both held, and at nothing
  else.\<close>

theorem exit_only_on_request:
  "\<not> fst (pump_event h inp e) \<longleftrightarrow> e = E_QUIT \<or>
     (\<exists>pressed b. e = E_CONTROLLERBUTTON pressed (in_instance_id inp) b \<and> in_controller inp
        \<and> \<not> (in_touch_active inp \<and> in_touch_button inp = Some b)
        \<and> \<not> (pressed \<and> in_stage inp < FIRST_RUN_TOUCH_COMPLETE \<and> is_first_run_touch_button b)
        \<and> (if b = BUTTON_BACK then pressed \<and> in_start inp
            else if b = BUTTON_START then in_select inp \<and> pressed
            else in_select inp \<and> in_start inp))"
proof (cases e)
  case (E_CONTROLLERBUTTON pressed which button)
  have "in_select (send_hid inp i v) = in_select inp" "in_start (send_hid inp i v) = in_start inp" for i v
    by (simp_all add: send_hid_def emit_def Let_def)
  moreover have "hid_button button = 18 \<longleftrightarrow> button = BUTTON_BACK" "hid_button button = 17 \<longleftrightarrow> button = BUTTON_START"
    by (cases button; simp add: hid_button_def)+
  ultimately show ?thesis
    using E_CONTROLLERBUTTON by (simp add: controller_button_def Let_def) blast
qed auto

lemma send_hid_idem: "send_hid (send_hid inp i v) i v = send_hid inp i v"
proof (cases "i < 1 \<or> i > 21")
  case False
  then show ?thesis
    by (simp add: send_hid_def Let_def emit_def hid_bit_test hid_bit_set)
qed (simp add: send_hid_def)

text \<open>Axis noise: delivering an axis event a second time changes nothing at all, neither the
  state nor the log of callbacks, so the guest sees one callback per change of an axis.\<close>

theorem axis_event_idempotent:
  "pump_event h (snd (pump_event h inp (E_CONTROLLERAXISMOTION which axis raw)))
     (E_CONTROLLERAXISMOTION which axis raw) = pump_event h inp (E_CONTROLLERAXISMOTION which axis raw)"
proof -
  obtain f where "controller_axis st which axis raw =
      (if \<not> in_controller st \<or> which \<noteq> in_instance_id st then st else send_hid st (fst f) (snd f))" for st
    unfolding controller_axis_def case_prod_unfold Let_def by blast
  then have "controller_axis (controller_axis inp which axis raw) which axis raw =
      controller_axis inp which axis raw"
    by (simp add: input_simps send_hid_idem)
  then show ?thesis by simp
qed

lemma dead_zone_mono:
  fixes x y c :: rat
  shows "x \<le> y \<Longrightarrow> 0 \<le> c \<Longrightarrow> (if \<bar>x\<bar> \<le> c then 0 else x) \<le> (if \<bar>y\<bar> \<le> c then 0 else y)"
  by (cases "\<bar>x\<bar> \<le> c"; cases "\<bar>y\<bar> \<le> c") (simp_all add: abs_le_iff, linarith+)

lemma dead_zone_bounds:
  fixes x c :: rat
  shows "x \<le> 1 \<Longrightarrow> (if \<bar>x\<bar> \<le> c then 0 else x) \<le> 1"
    "-1 \<le> x \<Longrightarrow> -1 \<le> (if \<bar>x\<bar> \<le> c then 0 else x)"
    "(if \<bar>x\<bar> \<le> c then 0 else x) = 0 \<or> c < \<bar>if \<bar>x\<bar> \<le> c then 0 else x\<bar>"
  by simp_all

text \<open>Axis scaling: over the 16-bit range SDL reports, a stick value lies in [-1, 1], is zero or
  beyond the dead zone of 0.12, and never decreases when the raw value grows; a trigger value lies
  in [0, 1].\<close>

theorem axis_scaling:
  assumes "-32768 \<le> raw" "raw \<le> raw'" "raw' \<le> 32767"
  shows "-1 \<le> normalized_stick_axis raw \<and> normalized_stick_axis raw \<le> normalized_stick_axis raw'
    \<and> normalized_stick_axis raw' \<le> 1
    \<and> (normalized_stick_axis raw = 0 \<or> 12 / 100 < \<bar>normalized_stick_axis raw\<bar>)
    \<and> 0 \<le> normalized_trigger_axis raw \<and> normalized_trigger_axis raw \<le> 1"
proof -
  define v where "v r = (if r < 0 then rat_of_int r / 32768 else rat_of_int r / 32767)" for r :: int
  have n: "normalized_stick_axis r = (if \<bar>v r\<bar> \<le> 12 / 100 then 0 else v r)" for r
    by (simp add: normalized_stick_axis_def v_def Let_def)
  have b: "-1 \<le> v raw" "v raw' \<le> 1" using assms by (auto simp: v_def)
  have m: "v raw \<le> v raw'"
  proof (cases "raw < 0 \<and> 0 \<le> raw'")
    case True
    then have "v raw \<le> 0" "0 \<le> v raw'" by (simp_all add: v_def)
    then show ?thesis by linarith
  qed (use assms in \<open>auto simp: v_def\<close>)
  have "normalized_trigger_axis raw \<le> 1" "0 \<le> normalized_trigger_axis raw"
    using assms by (auto simp: normalized_trigger_axis_def)
  moreover note dead_zone_mono [OF m, of "12 / 100"] dead_zone_bounds(1) [OF b(2), of "12 / 100"]
    dead_zone_bounds(2) [OF b(1), of "12 / 100"] dead_zone_bounds(3) [of "v raw" "12 / 100"]
  ultimately show ?thesis unfolding n by simp
qed

theorem axis_scaling_witness:
  "-1 \<le> normalized_stick_axis (-20000) \<and> normalized_stick_axis (-20000) \<le> normalized_stick_axis 32767"
  using axis_scaling [of "-20000" 32767] by simp

lemma state_text_read_back: "fscanf_next (first_run_state_text s) = Some s"
proof -
  have "length (cstr ''next='') = 5" by (simp add: cstr_def)
  then have "drop 5 (first_run_state_text s) = show_int s @ [10]"
    "starts_with (cstr ''next='') (first_run_state_text s)"
    by (simp_all add: first_run_state_text_def)
  moreover have "scan_int (show_int s @ [10]) = Some (s, [10])"
    by (rule scan_show_int) (simp add: is_digit_def)
  ultimately show ?thesis by (simp add: fscanf_next_def)
qed

text \<open>Restart after a completed step: when a recovery touch ends and every system call that
  replaces the state file succeeds, the next start reads the file back at the stage that followed
  the touch (or, after the last touch, at the cloud notice again, because the game's own profile
  does not exist yet).\<close>

theorem first_run_resumes_after_step:
  assumes "length dir \<le> 4000" "in_state_path inp = Some (snd (configure_first_run_touch fs dir))"
    and "in_touch_active inp" "0 \<le> in_stage inp" "in_stage inp < FIRST_RUN_TOUCH_COMPLETE"
    and "ph_open ph" "ph_fsync ph" "ph_close ph" "ph_rename ph"
    and "ph_written ph = int (length (first_run_state_text (in_stage inp + 1)))"
    and "fs_contents fs' (snd (configure_first_run_touch fs dir)) = in_disk (finish_first_run_touch ph inp)"
    and "\<not> fs_exists fs' (dir @ [47] @ existing_profile_marker_name)"
  shows "fst (configure_first_run_touch fs' dir) = first_run_resume_stage (in_stage inp + 1)"
proof -
  let ?path = "dir @ [47] @ first_run_touch_state_name"
  have path: "snd (configure_first_run_touch fs dir) = ?path"
    by (simp add: configure_fitting [OF assms(1)])
  have len: "length ?path + 4 < 4096"
    using assms(1)
    by (simp add: first_run_touch_state_name_def save_dir_prefix_def cstr_def)
  have "in_disk (finish_first_run_touch ph inp) = Some (first_run_state_text (in_stage inp + 1))"
    using assms(2-10) path len
    by (simp add: finish_first_run_touch_def persist_first_run_touch_state_def Let_def input_simps)
  with assms(4,5,11,12) path show ?thesis
    by (simp add: configure_fitting [OF assms(1)] state_text_read_back)
qed

definition resume_sample :: asm2_input where
  "resume_sample = (input_init sample_host sample_callbacks 640 480
      (Some (cstr ''/d/'' @ first_run_touch_state_name)) 0 None)\<lparr>in_touch_active := True\<rparr>"

theorem first_run_resumes_after_step_witness:
  "fst (configure_first_run_touch \<lparr>fs_exists = (\<lambda>p. False), fs_contents = (\<lambda>p. Some (cstr ''next=1'' @ [10]))\<rparr>
      (cstr ''/d'')) = 1"
proof -
  let ?fs = "\<lparr>fs_exists = (\<lambda>p. False), fs_contents = (\<lambda>p. Some (cstr ''next=1'' @ [10]))\<rparr>"
  have p: "snd (configure_first_run_touch ?fs (cstr ''/d'')) = cstr ''/d/'' @ first_run_touch_state_name"
    by (simp add: configure_fitting cstr_def)
  have f: "in_stage resume_sample = 0" "in_touch_active resume_sample"
    "in_state_path resume_sample = Some (cstr ''/d/'' @ first_run_touch_state_name)"
    "in_disk (finish_first_run_touch (host_persist sample_host) resume_sample) = Some (cstr ''next=1'' @ [10])"
    by code_simp+
  have "fst (configure_first_run_touch ?fs (cstr ''/d'')) = first_run_resume_stage (in_stage resume_sample + 1)"
  proof (rule first_run_resumes_after_step [where ph = "host_persist sample_host" and fs = ?fs])
    show "ph_written (host_persist sample_host) = int (length (first_run_state_text (in_stage resume_sample + 1)))"
      unfolding f by code_simp
    show "in_state_path resume_sample = Some (snd (configure_first_run_touch ?fs (cstr ''/d'')))"
      unfolding f p ..
    show "fs_contents ?fs (snd (configure_first_run_touch ?fs (cstr ''/d''))) =
        in_disk (finish_first_run_touch (host_persist sample_host) resume_sample)"
      unfolding f by simp
  qed (simp_all add: f sample_host_def, simp add: cstr_def)
  then show ?thesis by (simp add: f)
qed

end
