(* ===== verification/Asm2_AtomicFile.thy ===== *)
theory Asm2_AtomicFile
  imports Asm2_Prelude
begin

text \<open>
  File primitives of \<open>android_callbacks.c\<close>: \<open>write_all\<close>, \<open>read_all\<close>, directory creation and
  synchronisation, and the replace-by-rename protocol of \<open>atomic_write_shared_file\<close>.

  The host is a file system (path to node) and the list of answers it will give to the system
  calls and allocations that follow, in order. Answers are used up one by one, so a retry loop is
  recursion on the list. When the list is exhausted the process stops existing at that call:
  the outcome \<open>IO_killed\<close> shows the file system as the kill leaves it.
\<close>

section \<open>The host\<close>

datatype errno =
    EINTR | EEXIST | ENOENT | EIO | EINVAL | ENOMEM | ENAMETOOLONG | EOVERFLOW | ENOSYS | E_other nat

datatype sys_answer = Ans_ok nat | Ans_err errno

datatype node = Regular bytes | Special

record world =
  w_files :: "bytes \<Rightarrow> node option"
  w_answers :: "sys_answer list"

datatype io_outcome = IO_ok | IO_fail errno | IO_killed

definition put_file :: "bytes \<Rightarrow> node option \<Rightarrow> world \<Rightarrow> world" where
  "put_file path n w = w\<lparr>w_files := (w_files w)(path := n)\<rparr>"

text \<open>One system call whose only result is success or an errno (\<open>fstat\<close>, \<open>close\<close>, \<open>malloc\<close>, ...).\<close>

definition sys_plain :: "world \<Rightarrow> io_outcome \<times> world" where
  "sys_plain w = (case w_answers w of
     [] \<Rightarrow> (IO_killed, w)
   | Ans_ok _ # as \<Rightarrow> (IO_ok, w\<lparr>w_answers := as\<rparr>)
   | Ans_err e # as \<Rightarrow> (IO_fail e, w\<lparr>w_answers := as\<rparr>))"

text \<open>\<open>open\<close> of an existing file: it reports ENOENT exactly when there is no such file.\<close>

definition sys_open :: "bytes \<Rightarrow> world \<Rightarrow> io_outcome \<times> world" where
  "sys_open path w = (case sys_plain w of
     (IO_ok, w') \<Rightarrow> (if w_files w' path = None then IO_fail ENOENT else IO_ok, w')
   | (IO_fail e, w') \<Rightarrow> (IO_fail (if e = ENOENT \<and> w_files w' path \<noteq> None then EIO else e), w')
   | (IO_killed, w') \<Rightarrow> (IO_killed, w'))"

text \<open>Run \<open>g\<close> only after success, keep the first failure.\<close>

definition and_then :: "io_outcome \<times> world \<Rightarrow> (world \<Rightarrow> io_outcome \<times> world) \<Rightarrow> io_outcome \<times> world" where
  "and_then r g = (case fst r of IO_ok \<Rightarrow> g (snd r) | _ \<Rightarrow> r)"

section \<open>Reading and writing everything\<close>

text \<open>\<open>write_stream\<close> is \<open>write_all\<close> on an open file: what the file has gained is the second
  component. A count larger than the request is never returned by \<open>write\<close>.\<close>

fun write_stream :: "sys_answer list \<Rightarrow> bytes \<Rightarrow> io_outcome \<times> bytes \<times> sys_answer list" where
  "write_stream as [] = (IO_ok, [], as)"
| "write_stream [] (b # bs) = (IO_killed, [], [])"
| "write_stream (Ans_err e # as) (b # bs) =
     (if e = EINTR then write_stream as (b # bs) else (IO_fail e, [], as))"
| "write_stream (Ans_ok k # as) (b # bs) =
     (let n = min k (length (b # bs))
      in if n = 0 then (IO_fail EIO, [], as)
         else let (r, done, rest) = write_stream as (drop n (b # bs))
              in (r, take n (b # bs) @ done, rest))"

definition write_all :: "bytes \<Rightarrow> bytes \<Rightarrow> world \<Rightarrow> io_outcome \<times> world" where
  "write_all path content w =
     (let (r, written, as) = write_stream (w_answers w) content;
          old = (case w_files w path of Some (Regular c) \<Rightarrow> c | _ \<Rightarrow> [])
      in (r, put_file path (Some (Regular (old @ written))) (w\<lparr>w_answers := as\<rparr>)))"

fun read_stream :: "sys_answer list \<Rightarrow> bytes \<Rightarrow> io_outcome \<times> bytes \<times> sys_answer list" where
  "read_stream as [] = (IO_ok, [], as)"
| "read_stream [] (b # bs) = (IO_killed, [], [])"
| "read_stream (Ans_err e # as) (b # bs) =
     (if e = EINTR then read_stream as (b # bs) else (IO_fail e, [], as))"
| "read_stream (Ans_ok k # as) (b # bs) =
     (let n = min k (length (b # bs))
      in if n = 0 then (IO_fail EINVAL, [], as)
         else let (r, got, rest) = read_stream as (drop n (b # bs))
              in (r, take n (b # bs) @ got, rest))"

text \<open>\<open>fsync\<close> retried on EINTR, and any other call made in such a loop.\<close>

fun retry_stream :: "sys_answer list \<Rightarrow> io_outcome \<times> sys_answer list" where
  "retry_stream [] = (IO_killed, [])"
| "retry_stream (Ans_ok _ # as) = (IO_ok, as)"
| "retry_stream (Ans_err e # as) = (if e = EINTR then retry_stream as else (IO_fail e, as))"

definition sys_retry :: "world \<Rightarrow> io_outcome \<times> world" where
  "sys_retry w = (let (r, as) = retry_stream (w_answers w) in (r, w\<lparr>w_answers := as\<rparr>))"

text \<open>\<open>close\<close> after \<open>r\<close>: the descriptor is closed whatever happened, a failure of \<open>close\<close> counts only
  when nothing failed before.\<close>

definition close_after :: "io_outcome \<times> world \<Rightarrow> io_outcome \<times> world" where
  "close_after r = (case fst r of
     IO_killed \<Rightarrow> r
   | IO_ok \<Rightarrow> sys_plain (snd r)
   | IO_fail e \<Rightarrow> (case sys_plain (snd r) of (IO_killed, w) \<Rightarrow> (IO_killed, w) | (_, w) \<Rightarrow> (IO_fail e, w)))"

definition sync_storage_directory :: "bytes \<Rightarrow> world \<Rightarrow> io_outcome \<times> world" where
  "sync_storage_directory directory w =
     and_then (sys_plain w) (\<lambda>w. close_after (sys_retry w))"

section \<open>Paths\<close>

definition join_storage_path :: "bytes option \<Rightarrow> bytes option \<Rightarrow> bytes option" where
  "join_storage_path left right =
     (case (left, right) of
        (Some l, Some r) \<Rightarrow>
          if l = [] \<or> r = [] then None
          else Some (l @ (if last l \<noteq> 47 then [47] else []) @ r)
      | _ \<Rightarrow> None)"

text \<open>\<open>ensure_directory_tree\<close> after the trailing slashes are removed: one \<open>mkdir\<close> for every prefix
  that ends before a slash or at the end; \<open>mkdir\<close> may find the directory there.\<close>

fun strip_slashes :: "bytes \<Rightarrow> bytes" where
  "strip_slashes [] = []"
| "strip_slashes (b # r) = b # rev (dropWhile (\<lambda>c. c = 47) (rev r))"

definition directory_prefixes :: "bytes \<Rightarrow> bytes list" where
  "directory_prefixes path =
     (let copy = strip_slashes path; start = (if copy \<noteq> [] \<and> hd copy = 47 then 1 else 0)
      in filter (\<lambda>p. p \<noteq> []) (map (\<lambda>n. take n copy)
           (filter (\<lambda>n. n = length copy \<or> copy ! n = 47) [start..<Suc (length copy)])))"

fun make_directories :: "bytes list \<Rightarrow> world \<Rightarrow> io_outcome \<times> world" where
  "make_directories [] w = (IO_ok, w)"
| "make_directories (p # ps) w =
     (case sys_plain w of
        (IO_ok, w') \<Rightarrow> make_directories ps w'
      | (IO_fail e, w') \<Rightarrow> if e = EEXIST then make_directories ps w' else (IO_fail e, w')
      | (IO_killed, w') \<Rightarrow> (IO_killed, w'))"

definition ensure_directory_tree :: "bytes option \<Rightarrow> world \<Rightarrow> io_outcome \<times> world" where
  "ensure_directory_tree path w =
     (case path of
        None \<Rightarrow> (IO_fail EINVAL, w)
      | Some p \<Rightarrow>
          if p = [] then (IO_fail EINVAL, w)
          else and_then (sys_plain w) (make_directories (directory_prefixes p)))"

section \<open>Replacing a file\<close>

definition temporary_name :: "bytes \<Rightarrow> nat \<Rightarrow> nat \<Rightarrow> bytes" where
  "temporary_name path pid attempt =
     path @ cstr ''.tmp.'' @ show_nat pid @ [46] @ show_nat attempt"

text \<open>Up to sixteen exclusive creations; \<open>Inr\<close> the name and the world with the empty file.\<close>

fun open_temporary ::
  "bytes \<Rightarrow> nat \<Rightarrow> nat list \<Rightarrow> errno \<Rightarrow> world \<Rightarrow> (io_outcome \<times> world) + (bytes \<times> world)" where
  "open_temporary path pid [] prev w = Inl (IO_fail prev, w)"
| "open_temporary path pid (attempt # others) prev w =
     (let name = temporary_name path pid attempt
      in if length name \<ge> length path + 64 then Inl (IO_fail ENAMETOOLONG, w)
         else case sys_plain w of
           (IO_killed, w') \<Rightarrow> Inl (IO_killed, w')
         | (IO_fail e, w') \<Rightarrow>
             if e = EEXIST then open_temporary path pid others EEXIST w' else Inl (IO_fail e, w')
         | (IO_ok, w') \<Rightarrow>
             if w_files w' name \<noteq> None then open_temporary path pid others EEXIST w'
             else Inr (name, put_file name (Some (Regular [])) w'))"

text \<open>Header, payload, \<open>fsync\<close>, \<open>close\<close>.\<close>

definition write_temporary :: "bytes \<Rightarrow> bytes \<Rightarrow> bytes \<Rightarrow> world \<Rightarrow> io_outcome \<times> world" where
  "write_temporary temporary header payload w =
     close_after (and_then
       (and_then (write_all temporary header w)
          (\<lambda>w. if payload = [] then (IO_ok, w) else write_all temporary payload w))
       sys_retry)"

text \<open>The \<open>rename\<close> and then the directory \<open>fsync\<close>, whose result is ignored; or the \<open>unlink\<close>.\<close>

definition rename_file :: "bytes \<Rightarrow> bytes \<Rightarrow> world \<Rightarrow> io_outcome \<times> world" where
  "rename_file source destination w =
     and_then (sys_plain w)
       (\<lambda>w. (IO_ok, put_file source None (put_file destination (w_files w source) w)))"

definition commit_or_discard ::
  "bytes \<Rightarrow> bytes \<Rightarrow> bytes \<Rightarrow> io_outcome \<times> world \<Rightarrow> io_outcome \<times> world" where
  "commit_or_discard temporary path directory r =
     (let (result, w) = and_then r (rename_file temporary path)
      in case result of
           IO_killed \<Rightarrow> (IO_killed, w)
         | IO_ok \<Rightarrow> (case sync_storage_directory directory w of
               (IO_killed, w') \<Rightarrow> (IO_killed, w') | (_, w') \<Rightarrow> (IO_ok, w'))
         | IO_fail e \<Rightarrow> (case sys_plain w of
               (IO_ok, w') \<Rightarrow> (IO_fail e, put_file temporary None w')
             | (IO_killed, w') \<Rightarrow> (IO_killed, w')
             | (IO_fail _, w') \<Rightarrow> (IO_fail e, w')))"

definition atomic_write_shared_file ::
  "nat \<Rightarrow> bytes \<Rightarrow> bytes \<Rightarrow> bytes \<Rightarrow> bytes \<Rightarrow> world \<Rightarrow> io_outcome \<times> world" where
  "atomic_write_shared_file pid path directory header payload w =
     and_then (sys_plain w)
       (\<lambda>w. case open_temporary path pid [0..<16] ENOENT w of
           Inl r \<Rightarrow> r
         | Inr (temporary, w') \<Rightarrow>
             commit_or_discard temporary path directory (write_temporary temporary header payload w'))"

section \<open>What the protocol guarantees\<close>

lemma write_stream_ok: "write_stream as data = (IO_ok, written, rest) \<Longrightarrow> written = data"
  by (induction as data arbitrary: written rule: write_stream.induct)
     (auto simp: Let_def split: if_splits prod.splits)

lemma read_stream_ok: "read_stream as data = (IO_ok, got, rest) \<Longrightarrow> got = data"
  by (induction as data arbitrary: got rule: read_stream.induct)
     (auto simp: Let_def split: if_splits prod.splits)

text \<open>Which files a step may have changed.\<close>

definition same_but :: "bytes \<Rightarrow> world \<Rightarrow> world \<Rightarrow> bool" where
  "same_but p w w' \<longleftrightarrow> (\<forall>q. q \<noteq> p \<longrightarrow> w_files w' q = w_files w q)"

lemma same_but_refl [simp]: "same_but p w w"
  by (simp add: same_but_def)

lemma same_but_trans: "same_but p a b \<Longrightarrow> same_but p b c \<Longrightarrow> same_but p a c"
  by (simp add: same_but_def)

lemma sys_plain_files [store_simps]: "w_files (snd (sys_plain w)) = w_files w"
  by (simp add: sys_plain_def split: list.split sys_answer.split)

lemma sys_retry_files [store_simps]: "w_files (snd (sys_retry w)) = w_files w"
  by (simp add: sys_retry_def split: prod.split)

lemma close_after_files [store_simps]: "w_files (snd (close_after r)) = w_files (snd r)"
  using sys_plain_files [of "snd r"]
  by (auto simp: close_after_def split: io_outcome.split prod.split)

lemma close_after_ok: "fst (close_after r) = IO_ok \<Longrightarrow> fst r = IO_ok"
  by (auto simp: close_after_def split: io_outcome.splits prod.splits)

lemma and_then_ok: "fst (and_then r g) = IO_ok \<longleftrightarrow> fst r = IO_ok \<and> fst (g (snd r)) = IO_ok"
  by (cases r; cases "fst r") (auto simp: and_then_def)

lemma sync_files [store_simps]: "w_files (snd (sync_storage_directory d w)) = w_files w"
  by (simp add: sync_storage_directory_def and_then_def store_simps split: io_outcome.split)

lemma temporary_name_neq [simp]: "temporary_name path pid n \<noteq> path"
  by (simp add: temporary_name_def cstr_def)

lemma sys_plain_cases:
  obtains (ok) w' where "sys_plain w = (IO_ok, w')" "w_files w' = w_files w"
  | (fail) e w' where "sys_plain w = (IO_fail e, w')" "w_files w' = w_files w"
  | (killed) w' where "sys_plain w = (IO_killed, w')" "w_files w' = w_files w"
  using sys_plain_files [of w] by (cases "sys_plain w"; cases "fst (sys_plain w)") auto

lemma open_temporary_refused:
  "open_temporary path pid attempts e w = Inl r \<Longrightarrow> w_files (snd r) = w_files w \<and> fst r \<noteq> IO_ok"
proof (induction attempts arbitrary: e w)
  case (Cons a attempts)
  show ?case
  proof (cases w rule: sys_plain_cases)
    case (ok v)
    with Cons.prems Cons.IH [of EEXIST v] show ?thesis
      by (cases r) (auto simp: Let_def split: if_splits)
  next
    case (fail f v)
    with Cons.prems Cons.IH [of EEXIST v] show ?thesis
      by (cases r) (auto simp: Let_def split: if_splits)
  next
    case (killed v)
    with Cons.prems show ?thesis by (cases r) (auto simp: Let_def split: if_splits)
  qed
qed auto

lemma open_temporary_opened:
  "open_temporary path pid attempts e w = Inr (name, w') \<Longrightarrow>
     name \<noteq> path \<and> w_files w name = None \<and> w_files w' = (w_files w)(name := Some (Regular []))"
proof (induction attempts arbitrary: e w)
  case (Cons a attempts)
  show ?case
  proof (cases w rule: sys_plain_cases)
    case (ok v)
    show ?thesis
    proof (cases "w_files v (temporary_name path pid a) = None")
      case True
      with ok Cons.prems show ?thesis by (auto simp: Let_def put_file_def split: if_splits)
    next
      case False
      with ok Cons.prems Cons.IH [of EEXIST v] show ?thesis by (simp add: Let_def split: if_splits)
    qed
  next
    case (fail f v)
    with Cons.prems Cons.IH [of EEXIST v] show ?thesis by (simp add: Let_def split: if_splits)
  next
    case (killed v)
    with Cons.prems show ?thesis by (simp add: Let_def split: if_splits)
  qed
qed auto

lemma write_all_effect:
  assumes "write_all path content w = (r, w')" "w_files w path = Some (Regular old)"
  shows "same_but path w w'"
    and "\<exists>c. w_files w' path = Some (Regular c)"
    and "r = IO_ok \<Longrightarrow> w_files w' path = Some (Regular (old @ content))"
  using assms write_stream_ok [of "w_answers w" content]
  by (auto simp: write_all_def put_file_def same_but_def split: prod.splits)

lemma and_then_files:
  "w_files (snd r) = f \<Longrightarrow> (\<And>w. w_files w = f \<Longrightarrow> w_files (snd (g w)) = f) \<Longrightarrow> w_files (snd (and_then r g)) = f"
  by (auto simp: and_then_def split: io_outcome.split)

lemma two_writes_effect:
  assumes "w_files w1 t = Some (Regular [])"
    and "and_then (write_all t header w1)
           (\<lambda>w. if payload = [] then (IO_ok, w) else write_all t payload w) = (r, w2)"
  shows "same_but t w1 w2" "r = IO_ok \<Longrightarrow> w_files w2 t = Some (Regular (header @ payload))"
proof -
  obtain r1 wa where 1: "write_all t header w1 = (r1, wa)" by fastforce
  note e1 = write_all_effect [OF 1 assms(1)]
  have "same_but t w1 w2 \<and> (r = IO_ok \<longrightarrow> w_files w2 t = Some (Regular (header @ payload)))"
  proof (cases "r1 = IO_ok \<and> payload \<noteq> []")
    case True
    with assms(2) 1 have 2: "write_all t payload wa = (r, w2)" by (simp add: and_then_def)
    from e1(3) True have "w_files wa t = Some (Regular header)" by simp
    from write_all_effect [OF 2 this] show ?thesis
      using e1(1) by (auto intro: same_but_trans)
  next
    case False
    with assms(2) 1 e1 show ?thesis by (auto simp: and_then_def split: io_outcome.splits)
  qed
  then show "same_but t w1 w2" "r = IO_ok \<Longrightarrow> w_files w2 t = Some (Regular (header @ payload))"
    by blast+
qed

lemma write_temporary_effect:
  assumes "w_files w t = Some (Regular [])" "write_temporary t header payload w = (r, w')"
  shows "same_but t w w'" "r = IO_ok \<Longrightarrow> w_files w' t = Some (Regular (header @ payload))"
proof -
  obtain r1 w1 where 1: "and_then (write_all t header w)
      (\<lambda>w. if payload = [] then (IO_ok, w) else write_all t payload w) = (r1, w1)" by fastforce
  note tw = two_writes_effect [OF assms(1) 1]
  have "w_files (snd (and_then (r1, w1) sys_retry)) = w_files w1"
    by (rule and_then_files) (simp_all add: store_simps)
  then have "w_files (snd (close_after (and_then (r1, w1) sys_retry))) = w_files w1"
    by (simp add: store_simps)
  with assms(2) 1 have f: "w_files w' = w_files w1" by (simp add: write_temporary_def)
  have "r = IO_ok \<Longrightarrow> r1 = IO_ok"
    using close_after_ok [of "and_then (r1, w1) sys_retry"] assms(2) 1
    by (auto simp: write_temporary_def and_then_ok)
  with tw f show "same_but t w w'" "r = IO_ok \<Longrightarrow> w_files w' t = Some (Regular (header @ payload))"
    by (auto simp: same_but_def)
qed

lemma rename_effect:
  assumes "rename_file a b w = (r, w')"
  shows "r = IO_ok \<and> w_files w' = (w_files w)(b := w_files w a, a := None)
    \<or> r \<noteq> IO_ok \<and> w_files w' = w_files w"
  using assms by (cases w rule: sys_plain_cases) (auto simp: rename_file_def and_then_def put_file_def)

lemma commit_or_discard_effect:
  assumes "t \<noteq> path" "commit_or_discard t path directory (r, w) = (r', w')"
  shows "(r = IO_ok \<and> w_files w' path = w_files w t \<and> (r' = IO_ok \<or> r' = IO_killed)
    \<or> w_files w' path = w_files w path \<and> r' \<noteq> IO_ok)
    \<and> (\<forall>q. q \<noteq> t \<and> q \<noteq> path \<longrightarrow> w_files w' q = w_files w q)"
proof -
  obtain r1 w1 where 1: "and_then (r, w) (rename_file t path) = (r1, w1)" by fastforce
  have e: "r = IO_ok \<and> r1 = IO_ok \<and> w_files w1 = (w_files w)(path := w_files w t, t := None)
      \<or> r1 \<noteq> IO_ok \<and> w_files w1 = w_files w"
    using 1 rename_effect [of t path w r1 w1] by (cases r) (auto simp: and_then_def)
  show ?thesis
  proof (cases r1)
    case IO_ok
    with assms(2) 1 sync_files [of directory w1] have "w_files w' = w_files w1 \<and> (r' = IO_ok \<or> r' = IO_killed)"
      by (auto simp: commit_or_discard_def split: prod.splits io_outcome.splits)
    with e IO_ok assms(1) show ?thesis by auto
  next
    case (IO_fail f)
    have "(w_files w' = w_files w1 \<or> w_files w' = (w_files w1)(t := None)) \<and> r' \<noteq> IO_ok"
      using assms(2) 1 IO_fail
      by (cases w1 rule: sys_plain_cases) (auto simp: commit_or_discard_def put_file_def)
    with e IO_fail assms(1) show ?thesis by auto
  next
    case IO_killed
    with assms(2) 1 e show ?thesis by (auto simp: commit_or_discard_def)
  qed
qed

text \<open>The commit point is the rename: before it the target is untouched, after it the target holds
  the header and the whole payload, and a reported success means the rename happened. No other
  existing file is touched.\<close>

lemma atomic_write_target:
  assumes "atomic_write_shared_file pid path directory header payload w = (r, w')"
  shows "(w_files w' path = w_files w path \<and> r \<noteq> IO_ok
      \<or> w_files w' path = Some (Regular (header @ payload)) \<and> (r = IO_ok \<or> r = IO_killed))
    \<and> (\<forall>q. q \<noteq> path \<and> w_files w q \<noteq> None \<longrightarrow> w_files w' q = w_files w q)"
proof (cases w rule: sys_plain_cases)
  case (ok w0)
  show ?thesis
  proof (cases "open_temporary path pid [0..<16] ENOENT w0")
    case (Inl q)
    with ok assms have "q = (r, w')" by (simp add: atomic_write_shared_file_def and_then_def)
    with open_temporary_refused [OF Inl] ok(2) show ?thesis by simp
  next
    case (Inr q)
    obtain t w1 where q: "q = (t, w1)" by (cases q)
    have t: "t \<noteq> path" "w_files w t = None" "w_files w1 = (w_files w)(t := Some (Regular []))"
      using open_temporary_opened [OF Inr [unfolded q]] ok(2) by auto
    obtain r2 w2 where 2: "write_temporary t header payload w1 = (r2, w2)" by fastforce
    have "w_files w1 t = Some (Regular [])" using t(3) by simp
    note wt = write_temporary_effect [OF this 2]
    have "commit_or_discard t path directory (r2, w2) = (r, w')"
      using assms ok(1) Inr q 2 by (simp add: atomic_write_shared_file_def and_then_def)
    note cd = commit_or_discard_effect [OF t(1) this]
    have f: "w_files w2 q = w_files w q" if "q \<noteq> t" for q
      using that wt(1) t(3) by (simp add: same_but_def)
    from cd f [of path] t(1) wt(2)
    have "w_files w' path = w_files w path \<and> r \<noteq> IO_ok
      \<or> w_files w' path = Some (Regular (header @ payload)) \<and> (r = IO_ok \<or> r = IO_killed)"
      by auto
    moreover have "\<forall>q. q \<noteq> path \<and> w_files w q \<noteq> None \<longrightarrow> w_files w' q = w_files w q"
      using cd f t(2) by metis
    ultimately show ?thesis ..
  qed
qed (use assms in \<open>auto simp: atomic_write_shared_file_def and_then_def\<close>)

lemma sys_open_cases:
  obtains (ok) w' n where "sys_open p w = (IO_ok, w')" "w_files w' = w_files w" "w_files w p = Some n"
  | (missing) w' where "sys_open p w = (IO_fail ENOENT, w')" "w_files w' = w_files w" "w_files w p = None"
  | (fail) e w' where "sys_open p w = (IO_fail e, w')" "w_files w' = w_files w" "e \<noteq> ENOENT"
  | (killed) w' where "sys_open p w = (IO_killed, w')" "w_files w' = w_files w"
proof (cases w rule: sys_plain_cases)
  case (ok v)
  then show thesis
    using that(1) [of v] that(2) [of v] by (cases "w_files w p") (auto simp: sys_open_def)
next
  case (fail e v)
  then show thesis
    using that(2) [of v] that(3) [of "if e = ENOENT \<and> w_files w p \<noteq> None then EIO else e" v]
    by (cases "e = ENOENT \<and> w_files w p = None") (auto simp: sys_open_def)
next
  case (killed v)
  then show thesis using that(4) [of v] by (simp add: sys_open_def)
qed

text \<open>C9. Replacing a file is atomic: whatever the system calls answer, and wherever the process is
  killed, the target either still has its old contents and no success is reported, or has the header
  followed by the whole payload; an error is reported only when the target is untouched; and no other
  existing file is changed.\<close>

theorem replacement_is_atomic:
  assumes "atomic_write_shared_file pid path directory header payload w = (r, w')"
  shows "(w_files w' path = w_files w path \<and> r \<noteq> IO_ok
      \<or> w_files w' path = Some (Regular (header @ payload)) \<and> (r = IO_ok \<or> r = IO_killed))
    \<and> (\<forall>q. q \<noteq> path \<and> w_files w q \<noteq> None \<longrightarrow> w_files w' q = w_files w q)"
  using assms by (rule atomic_write_target)

text \<open>A kill after the first byte of the temporary file has been written.\<close>

definition interrupted_world :: world where
  "interrupted_world = \<lparr>w_files = (\<lambda>p. if p = cstr ''s'' then Some (Regular [1, 2]) else None),
     w_answers = [Ans_ok 0, Ans_ok 0, Ans_ok 1]\<rparr>"

theorem replacement_is_atomic_witness:
  "w_files (snd (atomic_write_shared_file 7 (cstr ''s'') (cstr ''d'') [8, 9] [3] interrupted_world)) (cstr ''s'')
     = Some (Regular [1, 2])
   \<and> w_files (snd (atomic_write_shared_file 7 (cstr ''s'') (cstr ''d'') [8, 9] [3] interrupted_world))
       (temporary_name (cstr ''s'') 7 0) = Some (Regular [8])"
proof -
  let ?r = "atomic_write_shared_file 7 (cstr ''s'') (cstr ''d'') [8, 9] [3] interrupted_world"
  have k: "fst ?r = IO_killed" "w_files (snd ?r) (temporary_name (cstr ''s'') 7 0) = Some (Regular [8])"
    "w_files (snd ?r) (cstr ''s'') \<noteq> Some (Regular ([8, 9] @ [3]))"
    by code_simp+
  have "?r = (fst ?r, snd ?r)" by simp
  from replacement_is_atomic [OF this] k show ?thesis by (auto simp: interrupted_world_def)
qed

end
