(* ===== verification/Asm2_SharedStore.thy ===== *)
theory Asm2_SharedStore
  imports Asm2_AtomicFile
begin

text \<open>
  The DataSharing store of \<open>android_callbacks.c\<close>: up to 128 (key, value) pairs of C strings in
  insertion order, persisted after every change as one file (magic, version, count, payload size,
  CRC-32, then length-prefixed entries), loaded and checked at start, and moved out of the way when
  the file is not a valid store.

  The parallel arrays \<open>shared_keys\<close> and \<open>shared_values\<close> with \<open>shared_count\<close> are the list
  \<open>sh_entries\<close>. The mutex is the flag \<open>sh_locked\<close>; every operation runs between lock and unlock.
\<close>

abbreviation (input) MAX_ENTRIES :: nat where "MAX_ENTRIES \<equiv> 128"
abbreviation (input) MAX_KEY_SIZE :: nat where "MAX_KEY_SIZE \<equiv> 1024"
abbreviation (input) MAX_VALUE_SIZE :: nat where "MAX_VALUE_SIZE \<equiv> 262144"
abbreviation (input) HEADER_SIZE :: nat where "HEADER_SIZE \<equiv> 24"
abbreviation (input) MAX_PAYLOAD_SIZE :: nat where "MAX_PAYLOAD_SIZE \<equiv> 33686528"

type_synonym entry = "bytes \<times> bytes"

section \<open>CRC-32\<close>

definition crc_step :: "u32 \<Rightarrow> u32" where
  "crc_step crc = drop_bit 1 crc XOR (if bit crc 0 then 0xedb88320 else 0)"

definition crc_byte :: "u32 \<Rightarrow> u8 \<Rightarrow> u32" where
  "crc_byte crc b = (crc_step ^^ 8) (crc XOR ucast b)"

definition shared_crc32 :: "bytes \<Rightarrow> u32" where
  "shared_crc32 data = NOT (foldl crc_byte 0xffffffff data)"

section \<open>The file format\<close>

definition shared_magic :: bytes where
  "shared_magic = cstr ''ASM2DS01''"

definition entry_size :: "entry \<Rightarrow> nat" where
  "entry_size e = 8 + length (fst e) + length (snd e)"

text \<open>\<open>None\<close> is the error return. The sizes are those \<open>strnlen\<close> reports, one beyond the limit.\<close>

definition add_entry_size :: "entry \<Rightarrow> nat option \<Rightarrow> nat option" where
  "add_entry_size e acc = (case acc of
     None \<Rightarrow> None
   | Some sofar \<Rightarrow>
       let key_size = strnlen (fst e) (MAX_KEY_SIZE + 1);
           value_size = strnlen (snd e) (MAX_VALUE_SIZE + 1)
       in if key_size = 0 \<or> key_size > MAX_KEY_SIZE \<or> value_size > MAX_VALUE_SIZE
             \<or> sofar > MAX_PAYLOAD_SIZE - 8 - key_size - value_size
          then None else Some (sofar + (8 + key_size + value_size)))"

definition shared_values_encoded_size :: "entry list \<Rightarrow> nat option" where
  "shared_values_encoded_size entries =
     (if length entries > MAX_ENTRIES then None else fold add_entry_size entries (Some 0))"

definition encode_entry :: "entry \<Rightarrow> bytes" where
  "encode_entry e =
     put_le32 (of_nat (length (fst e))) @ put_le32 (of_nat (length (snd e))) @ fst e @ snd e"

definition encode_payload :: "entry list \<Rightarrow> bytes" where
  "encode_payload entries = concat (map encode_entry entries)"

definition encode_header :: "entry list \<Rightarrow> bytes \<Rightarrow> bytes" where
  "encode_header entries payload =
     shared_magic @ put_le32 1 @ put_le32 (of_nat (length entries))
     @ put_le32 (of_nat (length payload)) @ put_le32 (shared_crc32 payload)"

definition get_u32_le :: "bytes \<Rightarrow> nat \<Rightarrow> u32" where
  "get_u32_le s i = get_le32 (s ! i) (s ! (i + 1)) (s ! (i + 2)) (s ! (i + 3))"

datatype load_status =
    LOAD_OK "entry list" | LOAD_MISSING | LOAD_CORRUPT | LOAD_IO_ERROR errno | LOAD_KILLED

text \<open>The entry loop. \<open>rest\<close> is the payload from \<open>offset\<close> on, \<open>mem\<close> says whether the two allocations
  of an entry succeed; entries already loaded are compared by key.\<close>

fun parse_entries :: "(nat \<Rightarrow> bool) \<Rightarrow> nat \<Rightarrow> bytes \<Rightarrow> entry list \<Rightarrow> load_status" where
  "parse_entries mem 0 rest loaded = (if rest = [] then LOAD_OK loaded else LOAD_CORRUPT)"
| "parse_entries mem (Suc n) rest loaded =
     (if length rest < 8 then LOAD_CORRUPT
      else let key_size = unat (get_u32_le rest 0);
               value_size = unat (get_u32_le rest 4);
               body = drop 8 rest
           in if key_size = 0 \<or> key_size > MAX_KEY_SIZE \<or> value_size > MAX_VALUE_SIZE
                 \<or> key_size > length body \<or> value_size > length body - key_size
                 \<or> \<not> is_cstr (take key_size body) \<or> \<not> is_cstr (take value_size (drop key_size body))
              then LOAD_CORRUPT
              else if \<not> mem (length loaded) then LOAD_IO_ERROR ENOMEM
              else let key = take key_size body; value = take value_size (drop key_size body)
                   in if key \<in> fst ` set loaded then LOAD_CORRUPT
                      else parse_entries mem n (drop (key_size + value_size) body)
                             (loaded @ [(key, value)]))"

definition decode_store :: "(nat \<Rightarrow> bool) \<Rightarrow> bytes \<Rightarrow> load_status" where
  "decode_store mem contents =
     (let version = get_u32_le contents 8;
          count = get_u32_le contents 12;
          payload_size = get_u32_le contents 16;
          expected_crc = get_u32_le contents 20;
          payload = drop HEADER_SIZE contents
      in if take 8 contents \<noteq> shared_magic \<or> version \<noteq> 1 \<or> unat count > MAX_ENTRIES
            \<or> unat payload_size \<noteq> length contents - HEADER_SIZE \<or> unat payload_size > MAX_PAYLOAD_SIZE
            \<or> shared_crc32 payload \<noteq> expected_crc
         then LOAD_CORRUPT
         else parse_entries mem (unat count) payload [])"

section \<open>State, persisting and loading\<close>

record android_store =
  sh_entries :: "entry list"
  sh_storage :: "(bytes \<times> bytes) option"
  sh_mutex_initialized :: bool
  sh_locked :: bool

text \<open>\<open>sh_storage\<close> is the directory and the path of the file; \<open>None\<close> until a storage root is set.\<close>

definition shared_values_persist :: "nat \<Rightarrow> android_store \<Rightarrow> world \<Rightarrow> io_outcome \<times> world" where
  "shared_values_persist pid st w =
     (case sh_storage st of
        None \<Rightarrow> (IO_ok, w)
      | Some (directory, path) \<Rightarrow>
          (case shared_values_encoded_size (sh_entries st) of
             None \<Rightarrow> (IO_fail EOVERFLOW, w)
           | Some payload_size \<Rightarrow>
               and_then (if payload_size = 0 then (IO_ok, w) else sys_plain w)
                 (\<lambda>w. let payload = encode_payload (sh_entries st)
                      in atomic_write_shared_file pid path directory
                           (encode_header (sh_entries st) payload) payload w)))"

text \<open>The buffer's allocation, \<open>read_all\<close>, the read of a trailing byte, \<open>close\<close>.\<close>

definition read_and_close :: "bytes \<Rightarrow> world \<Rightarrow> io_outcome \<times> world" where
  "read_and_close contents w =
     close_after (and_then (sys_plain w)
       (\<lambda>w. let (r, got, as) = read_stream (w_answers w) contents
            in and_then (r, w\<lparr>w_answers := as\<rparr>) sys_retry))"

text \<open>The file as it is opened. \<open>read\<close> of the trailing byte, retried on EINTR, finds the end of the
  file; every failing call closes the descriptor.\<close>

definition shared_values_load_file :: "(nat \<Rightarrow> bool) \<Rightarrow> bytes \<Rightarrow> world \<Rightarrow> load_status \<times> world" where
  "shared_values_load_file mem path w =
     (case sys_open path w of
        (IO_killed, w1) \<Rightarrow> (LOAD_KILLED, w1)
      | (IO_fail e, w1) \<Rightarrow> (if e = ENOENT then LOAD_MISSING else LOAD_IO_ERROR e, w1)
      | (IO_ok, w1) \<Rightarrow>
          (case w_files w1 path of
             None \<Rightarrow> (LOAD_MISSING, w1)
           | Some n \<Rightarrow>
               (case sys_plain w1 of
                  (IO_killed, w2) \<Rightarrow> (LOAD_KILLED, w2)
                | (IO_fail e, w2) \<Rightarrow> (case sys_plain w2 of (IO_killed, w3) \<Rightarrow> (LOAD_KILLED, w3)
                                     | (_, w3) \<Rightarrow> (LOAD_IO_ERROR e, w3))
                | (IO_ok, w2) \<Rightarrow>
                    (case n of
                       Special \<Rightarrow> (case sys_plain w2 of (IO_killed, w3) \<Rightarrow> (LOAD_KILLED, w3)
                                   | (_, w3) \<Rightarrow> (LOAD_CORRUPT, w3))
                     | Regular contents \<Rightarrow>
                         if length contents < HEADER_SIZE
                            \<or> length contents > HEADER_SIZE + MAX_PAYLOAD_SIZE
                         then (case sys_plain w2 of (IO_killed, w3) \<Rightarrow> (LOAD_KILLED, w3)
                               | (_, w3) \<Rightarrow> (LOAD_CORRUPT, w3))
                         else case read_and_close contents w2 of
                             (IO_killed, w3) \<Rightarrow> (LOAD_KILLED, w3)
                           | (IO_fail e, w3) \<Rightarrow> (LOAD_IO_ERROR e, w3)
                           | (IO_ok, w3) \<Rightarrow> (decode_store mem contents, w3)))))"

section \<open>Operations\<close>

definition shared_value_index :: "entry list \<Rightarrow> bytes option \<Rightarrow> nat option" where
  "shared_value_index entries key =
     (case key of None \<Rightarrow> None
      | Some k \<Rightarrow> find (\<lambda>i. fst (entries ! i) = k) [0..<length entries])"

text \<open>The result is the C return value, or \<open>None\<close> when the process was killed in the operation.\<close>

type_synonym store_result = "bool option \<times> android_store \<times> world"

text \<open>After the arrays have been changed to \<open>changed\<close>: persist, and on failure go back to \<open>st\<close>.\<close>

definition persist_or_roll_back :: "nat \<Rightarrow> android_store \<Rightarrow> android_store \<Rightarrow> world \<Rightarrow> store_result" where
  "persist_or_roll_back pid changed st w =
     (case shared_values_persist pid changed w of
        (IO_ok, w') \<Rightarrow> (Some True, changed, w')
      | (IO_fail _, w') \<Rightarrow> (Some False, st, w')
      | (IO_killed, w') \<Rightarrow> (None, changed, w'))"

definition shared_value_set_locked ::
  "nat \<Rightarrow> android_store \<Rightarrow> world \<Rightarrow> bytes option \<Rightarrow> bytes option \<Rightarrow> store_result" where
  "shared_value_set_locked pid st w key value =
     (case key of
        None \<Rightarrow> (Some False, st, w)
      | Some k \<Rightarrow>
          let v = (case value of None \<Rightarrow> [] | Some v \<Rightarrow> v);
              key_size = strnlen k (MAX_KEY_SIZE + 1);
              value_size = strnlen v (MAX_VALUE_SIZE + 1);
              index = shared_value_index (sh_entries st) key
          in if key_size = 0 \<or> key_size > MAX_KEY_SIZE \<or> value_size > MAX_VALUE_SIZE
             then (Some False, st, w)
             else if \<exists>i \<in> set_option index. snd (sh_entries st ! i) = v then (Some True, st, w)
             else case shared_values_encoded_size (sh_entries st) of
               None \<Rightarrow> (Some False, st, w)
             | Some current_size \<Rightarrow>
                 let previous_size = (case index of None \<Rightarrow> 0 | Some i \<Rightarrow> entry_size (sh_entries st ! i))
                 in if current_size - previous_size > MAX_PAYLOAD_SIZE - 8 - key_size - value_size
                    then (Some False, st, w)
                    else case sys_plain w of
                      (IO_killed, w1) \<Rightarrow> (None, st, w1)
                    | (IO_fail _, w1) \<Rightarrow> (Some False, st, w1)
                    | (IO_ok, w1) \<Rightarrow>
                        (case index of
                           None \<Rightarrow>
                             if length (sh_entries st) \<ge> MAX_ENTRIES then (Some False, st, w1)
                             else (case sys_plain w1 of
                                 (IO_killed, w2) \<Rightarrow> (None, st, w2)
                               | (IO_fail _, w2) \<Rightarrow> (Some False, st, w2)
                               | (IO_ok, w2) \<Rightarrow>
                                   persist_or_roll_back pid
                                     (st\<lparr>sh_entries := sh_entries st @ [(k, v)]\<rparr>) st w2)
                         | Some i \<Rightarrow>
                             persist_or_roll_back pid
                               (st\<lparr>sh_entries := (sh_entries st)[i := (fst (sh_entries st ! i), v)]\<rparr>) st w1))"

definition shared_value_delete_locked ::
  "nat \<Rightarrow> android_store \<Rightarrow> world \<Rightarrow> bytes option \<Rightarrow> store_result" where
  "shared_value_delete_locked pid st w key =
     (case shared_value_index (sh_entries st) key of
        None \<Rightarrow> (Some False, st, w)
      | Some i \<Rightarrow>
          persist_or_roll_back pid
            (st\<lparr>sh_entries := take i (sh_entries st) @ drop (Suc i) (sh_entries st)\<rparr>) st w)"

text \<open>The lock around an operation.\<close>

definition lock_store :: "android_store \<Rightarrow> android_store" where
  "lock_store st = (if sh_mutex_initialized st then st\<lparr>sh_locked := True\<rparr> else st)"

definition unlock_store :: "android_store \<Rightarrow> android_store" where
  "unlock_store st = (if sh_mutex_initialized st then st\<lparr>sh_locked := False\<rparr> else st)"

definition shared_value_set ::
  "nat \<Rightarrow> android_store \<Rightarrow> world \<Rightarrow> bytes option \<Rightarrow> bytes option \<Rightarrow> store_result" where
  "shared_value_set pid st w key value =
     (let (r, st', w') = shared_value_set_locked pid (lock_store st) w key value
      in (r, unlock_store st', w'))"

definition shared_value_delete :: "nat \<Rightarrow> android_store \<Rightarrow> world \<Rightarrow> bytes option \<Rightarrow> store_result" where
  "shared_value_delete pid st w key =
     (let (r, st', w') = shared_value_delete_locked pid (lock_store st) w key
      in (r, unlock_store st', w'))"

definition shared_value_get :: "android_store \<Rightarrow> bytes option \<Rightarrow> bytes" where
  "shared_value_get st key =
     (case shared_value_index (sh_entries st) key of
        None \<Rightarrow> [] | Some i \<Rightarrow> snd (sh_entries st ! i))"

definition shared_value_exists :: "android_store \<Rightarrow> bytes option \<Rightarrow> bool" where
  "shared_value_exists st key \<longleftrightarrow> shared_value_index (sh_entries st) key \<noteq> None"

section \<open>Quarantine\<close>

definition quarantine_name :: "bytes \<Rightarrow> int \<Rightarrow> nat \<Rightarrow> nat \<Rightarrow> nat \<Rightarrow> bytes" where
  "quarantine_name path seconds nanoseconds pid attempt =
     path @ cstr ''.corrupt-'' @ show_int seconds @ [45]
     @ replicate (9 - length (show_nat nanoseconds)) 48 @ show_nat nanoseconds @ [45]
     @ show_nat pid @ [45] @ replicate (2 - length (show_nat attempt)) 48 @ show_nat attempt"

text \<open>\<open>renameat2\<close> with RENAME_NOREPLACE, and the \<open>lstat\<close> and \<open>rename\<close> fallback where the kernel has
  no such call. The boolean tells whether the file was moved.\<close>

definition rename_no_replace :: "bytes \<Rightarrow> bytes \<Rightarrow> world \<Rightarrow> io_outcome \<times> world" where
  "rename_no_replace source destination w =
     (case sys_plain w of
        (IO_killed, w1) \<Rightarrow> (IO_killed, w1)
      | (IO_ok, w1) \<Rightarrow>
          if w_files w1 destination \<noteq> None then (IO_fail EEXIST, w1)
          else (IO_ok, put_file source None (put_file destination (w_files w1 source) w1))
      | (IO_fail e, w1) \<Rightarrow>
          if e \<noteq> ENOSYS \<and> e \<noteq> EINVAL then (IO_fail e, w1)
          else (case sys_plain w1 of
              (IO_killed, w2) \<Rightarrow> (IO_killed, w2)
            | (IO_fail e, w2) \<Rightarrow> if e \<noteq> ENOENT then (IO_fail e, w2)
                                else if w_files w2 destination \<noteq> None then (IO_fail EEXIST, w2)
                                else rename_file source destination w2
            | (IO_ok, w2) \<Rightarrow> if w_files w2 destination \<noteq> None then (IO_fail EEXIST, w2)
                            else rename_file source destination w2))"

fun quarantine_attempts ::
  "bytes \<Rightarrow> (nat \<Rightarrow> bytes) \<Rightarrow> nat list \<Rightarrow> errno \<Rightarrow> world \<Rightarrow> io_outcome \<times> world" where
  "quarantine_attempts path name [] prev w = (IO_fail prev, w)"
| "quarantine_attempts path name (attempt # others) prev w =
     (if length (name attempt) \<ge> length path + 96 then (IO_fail ENAMETOOLONG, w)
      else case rename_no_replace path (name attempt) w of
        (IO_ok, w') \<Rightarrow> (IO_ok, w')
      | (IO_killed, w') \<Rightarrow> (IO_killed, w')
      | (IO_fail e, w') \<Rightarrow>
          if e \<noteq> EEXIST then (IO_fail e, w') else quarantine_attempts path name others EEXIST w')"

definition quarantine_invalid_shared_store ::
  "nat \<Rightarrow> int \<Rightarrow> nat \<Rightarrow> bytes \<Rightarrow> bytes \<Rightarrow> world \<Rightarrow> io_outcome \<times> world" where
  "quarantine_invalid_shared_store pid seconds nanoseconds path directory w =
     and_then (sys_plain w)
       (\<lambda>w. and_then (quarantine_attempts path (quarantine_name path seconds nanoseconds pid) [0..<100] EEXIST w)
          (\<lambda>w. case sync_storage_directory directory w of
              (IO_killed, w') \<Rightarrow> (IO_killed, w') | (_, w') \<Rightarrow> (IO_ok, w')))"

end
