(* ===== verification/Asm2_StoreFormat.thy ===== *)
theory Asm2_StoreFormat
  imports Asm2_SharedStore
begin

text \<open>
  The store's file format: decoding inverts encoding and accepts nothing else, and the CRC makes
  every change of a single byte of the file visible.
\<close>

section \<open>CRC-32\<close>

lemma crc_step_top: "bit (crc_step c) 31 \<longleftrightarrow> bit c 0"
  using bit_imp_le_length [of c 32] by (auto simp: crc_step_def bit_simps)

lemma xor_cancel_right: "(a :: u32) XOR c = b XOR c \<Longrightarrow> a = b"
  by (metis xor.assoc xor_self_eq xor.right_neutral)

lemma crc_step_inj: "crc_step a = crc_step b \<Longrightarrow> a = b"
proof -
  assume e: "crc_step a = crc_step b"
  then have z: "bit a 0 \<longleftrightarrow> bit b 0" by (metis crc_step_top)
  have "drop_bit 1 a = drop_bit 1 b"
  proof (cases "bit a 0")
    case True
    with e z have "drop_bit 1 a XOR 0xedb88320 = drop_bit 1 b XOR 0xedb88320"
      by (simp add: crc_step_def)
    then show ?thesis by (rule xor_cancel_right)
  next
    case False
    with e z show ?thesis by (simp add: crc_step_def)
  qed
  then have s: "bit a (Suc n) \<longleftrightarrow> bit b (Suc n)" for n
    by (metis bit_drop_bit_eq comp_apply plus_1_eq_Suc)
  show "a = b"
  proof (rule bit_word_eqI)
    fix n show "bit a n \<longleftrightarrow> bit b n" using z s by (cases n) auto
  qed
qed

lemma crc_steps_inj: "(crc_step ^^ n) a = (crc_step ^^ n) b \<Longrightarrow> a = b"
  by (induction n) (auto dest: crc_step_inj)

lemma crc_byte_state_inj: "crc_byte a x = crc_byte b x \<Longrightarrow> a = b"
  unfolding crc_byte_def by (drule crc_steps_inj) (rule xor_cancel_right)

lemma crc_byte_data_inj: "crc_byte a x = crc_byte a y \<Longrightarrow> x = y"
proof -
  assume "crc_byte a x = crc_byte a y"
  then have "a XOR ucast x = a XOR ucast y"
    unfolding crc_byte_def by (rule crc_steps_inj)
  then have "(ucast x :: u32) = ucast y"
    by (metis xor.commute xor_cancel_right)
  then have u: "bit (ucast x :: u32) n \<longleftrightarrow> bit (ucast y :: u32) n" for n by simp
  have "bit x n \<longleftrightarrow> bit y n" if "n < 8" for n
    using u [of n] that by (simp add: bit_ucast_iff)
  then show "x = y" by (intro bit_word_eqI) simp
qed

lemma crc_fold_inj: "foldl crc_byte a data = foldl crc_byte b data \<Longrightarrow> a = b"
  by (induction data arbitrary: a b) (auto dest: crc_byte_state_inj)

lemma crc_detects_byte:
  assumes "shared_crc32 (xs @ x # ys) = shared_crc32 (xs @ y # ys)"
  shows "x = y"
proof -
  from assms have "foldl crc_byte (crc_byte (foldl crc_byte 0xffffffff xs) x) ys
      = foldl crc_byte (crc_byte (foldl crc_byte 0xffffffff xs) y) ys"
    by (simp add: shared_crc32_def)
  then have "crc_byte (foldl crc_byte 0xffffffff xs) x = crc_byte (foldl crc_byte 0xffffffff xs) y"
    by (rule crc_fold_inj)
  then show "x = y" by (rule crc_byte_data_inj)
qed

text \<open>The check value of the CRC-32 (IEEE 802.3) catalogue.\<close>

lemma crc_steps_8: "(crc_step ^^ 8) c =
    crc_step (crc_step (crc_step (crc_step (crc_step (crc_step (crc_step (crc_step c)))))))"
  by (simp add: eval_nat_numeral)

lemma crc_check_value: "shared_crc32 (cstr ''123456789'') = 0xcbf43926"
  by (simp add: shared_crc32_def cstr_def crc_byte_def crc_steps_8 crc_step_def)

section \<open>Well-formed entries\<close>

definition entry_ok :: "entry \<Rightarrow> bool" where
  "entry_ok e \<longleftrightarrow> 1 \<le> length (fst e) \<and> length (fst e) \<le> MAX_KEY_SIZE \<and> length (snd e) \<le> MAX_VALUE_SIZE
     \<and> is_cstr (fst e) \<and> is_cstr (snd e)"

definition entries_ok :: "entry list \<Rightarrow> bool" where
  "entries_ok es \<longleftrightarrow> length es \<le> MAX_ENTRIES \<and> distinct (map fst es) \<and> (\<forall>e \<in> set es. entry_ok e)"

lemma length_encode_entry [simp]: "length (encode_entry e) = entry_size e"
  by (simp add: encode_entry_def entry_size_def)

lemma length_encode_payload: "length (encode_payload es) = sum_list (map entry_size es)"
  by (simp add: encode_payload_def length_concat comp_def)

lemma entry_size_le: "entry_ok e \<Longrightarrow> entry_size e \<le> 263176"
  by (simp add: entry_ok_def entry_size_def)

lemma payload_size_le:
  assumes "entries_ok es"
  shows "sum_list (map entry_size es) \<le> MAX_PAYLOAD_SIZE"
proof -
  have "sum_list (map entry_size es) \<le> length es * 263176"
    if "\<forall>e \<in> set es. entry_ok e" for es
    using that by (induction es) (auto dest: entry_size_le)
  with assms have "sum_list (map entry_size es) \<le> length es * 263176"
    by (simp add: entries_ok_def)
  moreover have "length es \<le> 128" using assms by (simp add: entries_ok_def)
  ultimately show ?thesis by simp
qed

lemma fold_add_entry_size:
  assumes "\<forall>e \<in> set es. entry_ok e" "t + sum_list (map entry_size es) \<le> MAX_PAYLOAD_SIZE"
  shows "fold add_entry_size es (Some t) = Some (t + sum_list (map entry_size es))"
  using assms
proof (induction es arbitrary: t)
  case (Cons e es)
  then have "add_entry_size e (Some t) = Some (t + entry_size e)"
    by (auto simp: add_entry_size_def strnlen_def entry_ok_def entry_size_def Let_def)
  then show ?case using Cons by (simp add: add.assoc)
qed simp

lemma encoded_size_ok:
  assumes "entries_ok es"
  shows "shared_values_encoded_size es = Some (length (encode_payload es))"
proof -
  have "fold add_entry_size es (Some 0) = Some (0 + sum_list (map entry_size es))"
    using assms payload_size_le [OF assms] by (intro fold_add_entry_size) (auto simp: entries_ok_def)
  with assms show ?thesis
    by (simp add: shared_values_encoded_size_def entries_ok_def length_encode_payload)
qed

section \<open>Decoding an encoded store\<close>

lemma get_u32_le_append: "get_u32_le (a @ s) (length a + n) = get_u32_le s n"
  by (simp add: get_u32_le_def nth_append add.assoc)

lemma get_u32_le_put [simp]: "get_u32_le (put_le32 w @ s) 0 = w"
  using get_put_le32 [of w] by (simp add: get_u32_le_def put_le32_def)

lemma get_u32_le_put4 [simp]: "get_u32_le (put_le32 v @ s) 4 = get_u32_le s 0"
  using get_u32_le_append [of "put_le32 v" s 0] by simp

lemma unat_of_size [simp]: "n < 4294967296 \<Longrightarrow> unat (of_nat n :: u32) = n"
  by (simp only: unat_of_nat) (simp add: take_bit_eq_mod)

lemma encode_entry_fields:
  assumes "entry_ok e"
  shows "unat (get_u32_le (encode_entry e @ rest) 0) = length (fst e)"
    "unat (get_u32_le (encode_entry e @ rest) 4) = length (snd e)"
    "drop 8 (encode_entry e @ rest) = fst e @ snd e @ rest"
  using assms by (simp_all add: encode_entry_def entry_ok_def)

lemma parse_step:
  assumes "entry_ok e" "fst e \<notin> fst ` set loaded" "8 \<le> length s"
    and "unat (get_u32_le s 0) = length (fst e)" "unat (get_u32_le s 4) = length (snd e)"
    and "drop 8 s = fst e @ snd e @ rest"
  shows "parse_entries mem (Suc n) s loaded =
    (if mem (length loaded) then parse_entries mem n rest (loaded @ [e]) else LOAD_IO_ERROR ENOMEM)"
proof -
  have "fst e \<noteq> []" using assms(1) by (auto simp: entry_ok_def)
  with assms show ?thesis by (simp add: entry_ok_def Let_def)
qed

lemma parse_encode:
  assumes "\<forall>e \<in> set es. entry_ok e" "distinct (map fst (loaded @ es))"
  shows "parse_entries (\<lambda>_. True) (length es) (encode_payload es) loaded = LOAD_OK (loaded @ es)"
  using assms
proof (induction es arbitrary: loaded)
  case (Cons e es)
  then have ok: "entry_ok e" and fresh: "fst e \<notin> fst ` set loaded" by auto
  have p: "encode_payload (e # es) = encode_entry e @ encode_payload es"
    by (simp add: encode_payload_def)
  have "8 \<le> length (encode_entry e @ encode_payload es)" by (simp add: entry_size_def)
  note parse_step [OF ok fresh this encode_entry_fields [OF ok]]
  then have "parse_entries (\<lambda>_. True) (length (e # es)) (encode_payload (e # es)) loaded =
      parse_entries (\<lambda>_. True) (length es) (encode_payload es) (loaded @ [e])"
    unfolding p by (simp del: parse_entries.simps)
  also have "\<dots> = LOAD_OK ((loaded @ [e]) @ es)"
    using Cons.prems by (intro Cons.IH) auto
  finally show ?case by simp
qed (simp add: encode_payload_def)

definition encode_store :: "entry list \<Rightarrow> bytes" where
  "encode_store es = encode_header es (encode_payload es) @ encode_payload es"

lemma length_magic [simp]: "length shared_magic = 8"
  by (simp add: shared_magic_def cstr_def)

lemma length_header [simp]: "length (encode_header es p) = 24"
  by (simp add: encode_header_def)

text \<open>Reading the header back, field by field.\<close>

lemma header_fields:
  fixes v c s k :: u32 and payload :: bytes
  defines "f \<equiv> shared_magic @ put_le32 v @ put_le32 c @ put_le32 s @ put_le32 k @ payload"
  shows "take 8 f = shared_magic" "get_u32_le f 8 = v" "get_u32_le f 12 = c" "get_u32_le f 16 = s"
    "get_u32_le f 20 = k" "drop 24 f = payload" "length f = 24 + length payload"
  using get_u32_le_append [of shared_magic "put_le32 v @ put_le32 c @ put_le32 s @ put_le32 k @ payload" 0]
    get_u32_le_append [of "shared_magic @ put_le32 v" "put_le32 c @ put_le32 s @ put_le32 k @ payload" 0]
    get_u32_le_append [of "shared_magic @ put_le32 v @ put_le32 c" "put_le32 s @ put_le32 k @ payload" 0]
    get_u32_le_append [of "shared_magic @ put_le32 v @ put_le32 c @ put_le32 s" "put_le32 k @ payload" 0]
  by (simp_all add: f_def)

lemma decode_encode:
  assumes "entries_ok es"
  shows "decode_store (\<lambda>_. True) (encode_store es) = LOAD_OK es"
proof -
  let ?p = "encode_payload es"
  have size: "length ?p \<le> 33686528"
    using payload_size_le [OF assms] by (simp add: length_encode_payload)
  have f: "encode_store es = shared_magic @ put_le32 1 @ put_le32 (of_nat (length es))
      @ put_le32 (of_nat (length ?p)) @ put_le32 (shared_crc32 ?p) @ ?p"
    by (simp add: encode_store_def encode_header_def)
  have n: "length es \<le> 128" "distinct (map fst es)" "\<forall>e \<in> set es. entry_ok e"
    using assms by (simp_all add: entries_ok_def)
  then have "parse_entries (\<lambda>_. True) (length es) ?p [] = LOAD_OK es"
    using parse_encode [of es "[]"] by simp
  with size n(1) show ?thesis
    unfolding decode_store_def f header_fields Let_def by simp
qed

section \<open>What decoding accepts\<close>

lemma put_get_u32_le: "4 \<le> length s \<Longrightarrow> put_le32 (get_u32_le s 0) = take 4 s"
proof -
  assume "4 \<le> length s"
  then obtain a b c d r where "s = a # b # c # d # r"
    by (auto simp: numeral_eq_Suc Suc_le_length_iff)
  then show ?thesis by (simp add: get_u32_le_def put_get_le32)
qed

lemma get_u32_le_drop: "k + 4 \<le> length s \<Longrightarrow> get_u32_le (drop k s) 0 = get_u32_le s k"
  by (simp add: get_u32_le_def add.assoc)

lemma put_get_u32_le_at: "k + 4 \<le> length s \<Longrightarrow> put_le32 (get_u32_le s k) = take 4 (drop k s)"
  using put_get_u32_le [of "drop k s"] get_u32_le_drop [of k s] by simp

lemma of_nat_unat_id: "(of_nat (unat w) :: u32) = w"
  by simp

text \<open>One accepted entry is the encoding of the pair that is appended.\<close>

lemma parse_accepts:
  assumes "parse_entries mem (Suc n) s loaded = LOAD_OK es"
  obtains e rest where "s = encode_entry e @ rest" "entry_ok e" "fst e \<notin> fst ` set loaded"
    "parse_entries mem n rest (loaded @ [e]) = LOAD_OK es"
proof -
  define ks vs where "ks = unat (get_u32_le s 0)" and "vs = unat (get_u32_le s 4)"
  define key val where "key = take ks (drop 8 s)" and "val = take vs (drop ks (drop 8 s))"
  from assms have c: "8 \<le> length s" "ks \<noteq> 0" "ks \<le> 1024" "vs \<le> 262144"
    "ks \<le> length (drop 8 s)" "vs \<le> length (drop 8 s) - ks" "is_cstr key" "is_cstr val"
    "key \<notin> fst ` set loaded"
    "parse_entries mem n (drop (ks + vs) (drop 8 s)) (loaded @ [(key, val)]) = LOAD_OK es"
    unfolding parse_entries.simps Let_def ks_def [symmetric] vs_def [symmetric] key_def [symmetric]
      val_def [symmetric] by (auto split: if_splits)
  have len: "length key = ks" "length val = vs" using c(5,6) by (simp_all add: key_def val_def)
  have "put_le32 (of_nat ks) = take 4 s" "put_le32 (of_nat vs) = take 4 (drop 4 s)"
    using put_get_u32_le_at [of 0 s] put_get_u32_le_at [of 4 s] c(1)
    by (simp_all add: ks_def vs_def)
  moreover have "take 4 s @ take 4 (drop 4 s) = take 8 s"
    using take_add [of 4 4 s] by simp
  moreover have "key @ val @ drop (ks + vs) (drop 8 s) = drop 8 s"
    using append_take_drop_id [of ks "drop 8 s"] append_take_drop_id [of vs "drop ks (drop 8 s)"]
    by (simp add: key_def val_def ac_simps)
  ultimately have "encode_entry (key, val) @ drop (ks + vs) (drop 8 s) = take 8 s @ drop 8 s"
    by (simp add: encode_entry_def len) (metis append.assoc append_take_drop_id)
  then have "s = encode_entry (key, val) @ drop (ks + vs) (drop 8 s)" by simp
  moreover have "entry_ok (key, val)" using c len by (simp add: entry_ok_def)
  ultimately show thesis using c(9,10) that by (metis fst_conv)
qed

lemma parse_inverse:
  assumes "parse_entries mem n s loaded = LOAD_OK es"
  shows "\<exists>new. es = loaded @ new \<and> length new = n \<and> s = encode_payload new
    \<and> (\<forall>e \<in> set new. entry_ok e) \<and> (distinct (map fst loaded) \<longrightarrow> distinct (map fst es))"
  using assms
proof (induction n arbitrary: s loaded)
  case 0
  then show ?case by (auto simp: encode_payload_def split: if_splits)
next
  case (Suc n)
  from Suc.prems obtain e rest where e: "s = encode_entry e @ rest" "entry_ok e"
    "fst e \<notin> fst ` set loaded" "parse_entries mem n rest (loaded @ [e]) = LOAD_OK es"
    by (rule parse_accepts)
  from Suc.IH [OF e(4)] obtain new where new: "es = (loaded @ [e]) @ new" "length new = n"
    "rest = encode_payload new" "\<forall>e \<in> set new. entry_ok e"
    "distinct (map fst (loaded @ [e])) \<longrightarrow> distinct (map fst es)" by blast
  show ?case
    using e new by (intro exI [of _ "e # new"]) (auto simp: encode_payload_def)
qed

lemma decode_accepts:
  assumes "decode_store mem contents = LOAD_OK es" "24 \<le> length contents"
  shows "entries_ok es \<and> contents = encode_store es"
proof -
  define count size payload where "count = get_u32_le contents 12" and "size = get_u32_le contents 16"
    and "payload = drop 24 contents"
  from assms(1) have h: "take 8 contents = shared_magic" "get_u32_le contents 8 = 1" "unat count \<le> 128"
    "unat size = length contents - 24" "shared_crc32 payload = get_u32_le contents 20"
    "parse_entries mem (unat count) payload [] = LOAD_OK es"
    unfolding decode_store_def Let_def count_def [symmetric] size_def [symmetric]
      payload_def [symmetric] by (auto split: if_splits)
  from parse_inverse [OF h(6)] have es: "length es = unat count" "payload = encode_payload es"
    "\<forall>e \<in> set es. entry_ok e" "distinct (map fst es)" by auto
  have c: "of_nat (length es) = count" "of_nat (length payload) = size"
    using es(1) h(4) unfolding payload_def length_drop by (metis of_nat_unat_id)+
  have w: "put_le32 (get_u32_le contents k) = take 4 (drop k contents)" if "k + 4 \<le> 24" for k
    using that assms(2) by (intro put_get_u32_le_at) simp
  have lp: "length (encode_payload es) = length contents - 24"
    using es(2) unfolding payload_def by (metis length_drop)
  have "contents = take 8 contents @ take 4 (drop 8 contents) @ take 4 (drop 12 contents)
      @ take 4 (drop 16 contents) @ take 4 (drop 20 contents) @ drop 24 contents"
    using append_take_drop_id [of 8 contents] append_take_drop_id [of 4 "drop 8 contents"]
      append_take_drop_id [of 4 "drop 12 contents"] append_take_drop_id [of 4 "drop 16 contents"]
      append_take_drop_id [of 4 "drop 20 contents"] by simp
  also have "\<dots> = encode_store es"
    using w [of 8] w [of 12] w [of 16] w [of 20] h c es(2) lp
    by (simp add: encode_store_def encode_header_def payload_def count_def size_def)
  finally show ?thesis
    using es h(3) by (simp add: entries_ok_def)
qed

section \<open>A changed byte is noticed\<close>

lemma encode_payload_inj:
  assumes "\<forall>e \<in> set es. entry_ok e" "\<forall>e \<in> set es'. entry_ok e" "encode_payload es = encode_payload es'"
  shows "es = es'"
  using assms
proof (induction es arbitrary: es')
  case Nil
  then show ?case by (cases es') (simp_all add: encode_payload_def encode_entry_def put_le32_def)
next
  case (Cons e es)
  then obtain e' r where es': "es' = e' # r"
    by (cases es') (simp_all add: encode_payload_def encode_entry_def put_le32_def)
  with Cons.prems have eq: "encode_entry e @ encode_payload es = encode_entry e' @ encode_payload r"
    by (simp add: encode_payload_def)
  have ok: "entry_ok e" "entry_ok e'" using Cons.prems es' by auto
  note f = encode_entry_fields [OF ok(1), of "encode_payload es"]
    encode_entry_fields [OF ok(2), of "encode_payload r"]
  have "length (fst e) = length (fst e')" "length (snd e) = length (snd e')"
    using f eq by metis+
  moreover have "fst e @ snd e @ encode_payload es = fst e' @ snd e' @ encode_payload r"
    using f eq by metis
  ultimately have "fst e = fst e'" "snd e = snd e'" "encode_payload es = encode_payload r" by auto
  moreover have "es = r"
    using Cons.prems es' calculation(3) by (intro Cons.IH) auto
  ultimately show ?case using es' by (simp add: prod_eq_iff)
qed

lemma put_le32_inj: "put_le32 v = put_le32 w \<Longrightarrow> v = w"
  by (metis append_Nil2 get_u32_le_put)

lemma parse_total: "parse_entries (\<lambda>_. True) n s loaded = LOAD_CORRUPT
    \<or> (\<exists>es. parse_entries (\<lambda>_. True) n s loaded = LOAD_OK es)"
  by (induction n arbitrary: s loaded) (auto simp: Let_def)

lemma decode_total: "decode_store (\<lambda>_. True) c = LOAD_CORRUPT \<or> (\<exists>es. decode_store (\<lambda>_. True) c = LOAD_OK es)"
  unfolding decode_store_def Let_def by (auto simp: parse_total)

text \<open>C5. Integrity of the store file: if any single byte of a stored file is changed to another
  value, in the header or in the payload, loading it does not succeed with other data: the file is
  recognised as corrupt.\<close>

theorem one_changed_byte_is_corrupt:
  assumes "entries_ok es" "i < length (encode_store es)" "b \<noteq> encode_store es ! i"
  shows "decode_store (\<lambda>_. True) ((encode_store es)[i := b]) = LOAD_CORRUPT"
proof (rule ccontr)
  let ?c = "(encode_store es)[i := b]" and ?p = "encode_payload es"
  assume "decode_store (\<lambda>_. True) ?c \<noteq> LOAD_CORRUPT"
  then obtain es' where "decode_store (\<lambda>_. True) ?c = LOAD_OK es'" using decode_total by blast
  moreover have "24 \<le> length ?c" by (simp add: encode_store_def)
  ultimately have es': "entries_ok es'" "?c = encode_store es'" by (auto dest: decode_accepts)
  have ok: "\<forall>e \<in> set es. entry_ok e" "\<forall>e \<in> set es'. entry_ok e"
    using assms(1) es'(1) by (auto simp: entries_ok_def)
  show False
  proof (cases "i < 24")
    case True
    then have "drop 24 ?c = ?p" by (simp add: encode_store_def)
    then have "encode_payload es' = ?p" using es'(2) by (simp add: encode_store_def)
    then have "es' = es" using ok encode_payload_inj by metis
    with es'(2) assms(2,3) show False by (metis nth_list_update_eq)
  next
    case False
    define j where "j = i - 24"
    have j: "j < length ?p" using False assms(2) by (simp add: encode_store_def j_def)
    have c: "?c = encode_header es ?p @ ?p[j := b]"
      using False by (simp add: encode_store_def list_update_append j_def)
    then have h: "encode_header es ?p = encode_header es' (encode_payload es')"
      and p: "?p[j := b] = encode_payload es'"
      using es'(2) by (simp_all add: encode_store_def)
    from h have "put_le32 (shared_crc32 ?p) = put_le32 (shared_crc32 (encode_payload es'))"
      by (simp add: encode_header_def)
    then have crc: "shared_crc32 ?p = shared_crc32 (?p[j := b])"
      using p put_le32_inj by metis
    have "?p = take j ?p @ ?p ! j # drop (Suc j) ?p" "?p[j := b] = take j ?p @ b # drop (Suc j) ?p"
      using j by (simp_all add: id_take_nth_drop upd_conv_take_nth_drop)
    with crc have "?p ! j = b" by (metis crc_detects_byte)
    with assms(3) False j show False by (simp add: encode_store_def nth_append j_def)
  qed
qed

theorem one_changed_byte_is_corrupt_witness:
  "decode_store (\<lambda>_. True) ((encode_store [(cstr ''k'', cstr ''v'')])[33 := 0]) = LOAD_CORRUPT"
proof (rule one_changed_byte_is_corrupt)
  show "entries_ok [(cstr ''k'', cstr ''v'')]"
    by (simp add: entries_ok_def entry_ok_def cstr_def is_cstr_def)
  show "33 < length (encode_store [(cstr ''k'', cstr ''v'')])"
    by (simp add: encode_store_def encode_payload_def entry_size_def cstr_def)
  show "0 \<noteq> encode_store [(cstr ''k'', cstr ''v'')] ! 33"
    by (simp add: encode_store_def encode_payload_def encode_entry_def nth_append cstr_def)
qed

text \<open>C8. Round trip of the store file: a well-formed table (at most 128 entries, distinct
  non-empty keys of at most 1024 bytes, values of at most 256 KiB, no embedded NUL) is read back from
  its file unchanged and in order; and whatever file is accepted is exactly the file such a table
  would be stored as.\<close>

theorem store_file_round_trip:
  assumes "24 \<le> length contents"
  shows "decode_store (\<lambda>_. True) contents = LOAD_OK es \<longleftrightarrow> entries_ok es \<and> contents = encode_store es"
  using decode_accepts [OF _ assms] decode_encode by blast

theorem store_file_round_trip_witness:
  "decode_store (\<lambda>_. True) (encode_store [(cstr ''k'', cstr ''v'')]) = LOAD_OK [(cstr ''k'', cstr ''v'')]"
proof -
  have "24 \<le> length (encode_store [(cstr ''k'', cstr ''v'')])" by (simp add: encode_store_def)
  from store_file_round_trip [OF this, of "[(cstr ''k'', cstr ''v'')]"] show ?thesis
    by (simp add: entries_ok_def entry_ok_def cstr_def is_cstr_def)
qed

end
