(* ===== verification/Asm2_StoreProps.thy ===== *)
theory Asm2_StoreProps
  imports Asm2_StoreFormat
begin

text \<open>
  The store as a map on disk. \<open>synced\<close> says that the file holds the table in memory; set and
  delete are refinements of map update and map deletion that keep \<open>synced\<close> on success, undo
  everything on failure, and leave one of the two tables on disk when the process is killed.
\<close>

section \<open>The table as a map\<close>

lemma index_Some:
  assumes "shared_value_index es (Some k) = Some i"
  shows "i < length es" "fst (es ! i) = k" "map_of es k = Some (snd (es ! i))"
proof -
  from assms have i: "i < length es" "fst (es ! i) = k" "\<forall>j<i. fst (es ! j) \<noteq> k"
    by (auto simp: shared_value_index_def find_Some_iff)
  then have eq: "es = take i es @ (k, snd (es ! i)) # drop (Suc i) es"
    by (metis id_take_nth_drop prod.collapse)
  have "k \<notin> fst ` set (take i es)"
    using i by (auto simp: in_set_conv_nth) (metis fst_conv)
  then have "map_of (take i es) k = None" by (simp add: map_of_eq_None_iff)
  then have "map_of (take i es @ (k, snd (es ! i)) # drop (Suc i) es) k = Some (snd (es ! i))"
    by (simp add: map_add_def)
  moreover have "map_of es k = map_of (take i es @ (k, snd (es ! i)) # drop (Suc i) es) k"
    using eq by (rule arg_cong)
  ultimately show "map_of es k = Some (snd (es ! i))" by (rule trans [rotated])
  show "i < length es" "fst (es ! i) = k" using i by auto
qed

lemma index_None: "shared_value_index es (Some k) = None \<longleftrightarrow> k \<notin> fst ` set es"
proof -
  have "(\<forall>i<length es. fst (es ! i) \<noteq> k) \<longleftrightarrow> (\<forall>e \<in> set es. fst e \<noteq> k)"
    by (simp add: all_set_conv_all_nth)
  then show ?thesis by (auto simp: shared_value_index_def find_None_iff)
qed

lemma map_of_split:
  assumes "distinct (map fst es)" "i < length es" "fst (es ! i) = k"
  shows "map_of (es[i := (k, v)]) = (map_of es)(k \<mapsto> v)"
    "map_of (take i es @ drop (Suc i) es) = (map_of es)(k := None)"
proof -
  let ?a = "take i es" and ?b = "drop (Suc i) es"
  have es: "es = ?a @ (k, snd (es ! i)) # ?b"
    using assms by (metis id_take_nth_drop prod.collapse)
  then have "distinct (map fst (?a @ (k, snd (es ! i)) # ?b))" using assms(1) by metis
  then have n: "map_of ?a k = None" "map_of ?b k = None"
    by (auto simp: map_of_eq_None_iff)
  have m: "map_of (?a @ (k, u) # ?b) = (map_of (?a @ ?b))(k \<mapsto> u)" for u
    using n by (auto simp: map_add_def fun_eq_iff split: option.split)
  have "map_of es = (map_of (?a @ ?b))(k \<mapsto> snd (es ! i))"
    using m [of "snd (es ! i)"] es by metis
  moreover have "map_of (?a @ ?b) k = None" using n by (simp add: map_add_def)
  ultimately show "map_of (take i es @ drop (Suc i) es) = (map_of es)(k := None)"
    by (simp add: fun_eq_iff)
  have "es[i := (k, v)] = ?a @ (k, v) # ?b"
    using assms(2) by (simp add: upd_conv_take_nth_drop)
  then show "map_of (es[i := (k, v)]) = (map_of es)(k \<mapsto> v)"
    using m [of v] \<open>map_of es = (map_of (?a @ ?b))(k \<mapsto> snd (es ! i))\<close> by simp
qed

section \<open>Memory and disk\<close>

definition stored :: "world \<Rightarrow> bytes \<Rightarrow> entry list \<Rightarrow> bool" where
  "stored w path es \<longleftrightarrow>
     w_files w path = Some (Regular (encode_store es)) \<or> es = [] \<and> w_files w path = None"

definition synced :: "android_store \<Rightarrow> world \<Rightarrow> bool" where
  "synced st w \<longleftrightarrow> (\<forall>d p. sh_storage st = Some (d, p) \<longrightarrow> stored w p (sh_entries st))"

lemma synced_files: "w_files w' = w_files w \<Longrightarrow> synced st w' = synced st w"
  by (simp add: synced_def stored_def)

lemma synced_unlock [simp]: "synced (unlock_store st) w = synced st w" "synced (lock_store st) w = synced st w"
  by (simp_all add: synced_def unlock_store_def lock_store_def)

lemma lock_frame [simp]:
  "sh_entries (lock_store st) = sh_entries st" "sh_storage (lock_store st) = sh_storage st"
  "sh_entries (unlock_store st) = sh_entries st" "sh_storage (unlock_store st) = sh_storage st"
  by (simp_all add: unlock_store_def lock_store_def)

lemma persist_effect:
  assumes "entries_ok (sh_entries st)" "shared_values_persist pid st w = (r, w')"
  shows "(r = IO_ok \<longrightarrow> synced st w')
    \<and> (r \<noteq> IO_ok \<longrightarrow> (\<forall>d p. sh_storage st = Some (d, p) \<longrightarrow>
         w_files w' p = w_files w p \<or> r = IO_killed \<and> stored w' p (sh_entries st)))"
proof (cases "sh_storage st")
  case None
  with assms show ?thesis by (auto simp: shared_values_persist_def synced_def)
next
  case (Some dp)
  obtain d p where dp: "dp = (d, p)" by (cases dp)
  let ?es = "sh_entries st"
  let ?save = "\<lambda>w. atomic_write_shared_file pid p d (encode_header ?es (encode_payload ?es)) (encode_payload ?es) w"
  obtain r0 w0 where 0: "(if length (encode_payload ?es) = 0 then (IO_ok, w) else sys_plain w) = (r0, w0)"
    "w_files w0 = w_files w"
  proof (cases "length (encode_payload ?es) = 0")
    case True
    with that show thesis by simp
  next
    case False
    with that [of "fst (sys_plain w)" "snd (sys_plain w)"] sys_plain_files show thesis by simp
  qed
  have e: "and_then (r0, w0) ?save = (r, w')"
    using assms(2) Some dp 0(1) encoded_size_ok [OF assms(1)]
    by (simp add: shared_values_persist_def Let_def)
  show ?thesis
  proof (cases "r0 = IO_ok")
    case True
    with e have "?save w0 = (r, w')" by (simp add: and_then_def)
    from atomic_write_target [OF this] 0(2) Some dp show ?thesis
      by (auto simp: synced_def stored_def encode_store_def)
  next
    case False
    with e have "r = r0" "w' = w0" by (auto simp: and_then_def split: io_outcome.splits)
    with False 0(2) show ?thesis by auto
  qed
qed

lemma stored_files: "w_files w' p = w_files w p \<Longrightarrow> stored w' p es = stored w p es"
  by (simp add: stored_def)

lemma roll_back_effect:
  assumes "entries_ok (sh_entries ch)" "sh_storage ch = sh_storage st" "synced st w"
    and "persist_or_roll_back pid ch st w = (r, st', w')"
  shows "(r = Some True \<and> st' = ch \<and> synced ch w')
    \<or> (r = Some False \<and> st' = st \<and> synced st w')
    \<or> (r = None \<and> st' = ch \<and> (synced st w' \<or> synced ch w'))"
proof -
  obtain q w1 where q: "shared_values_persist pid ch w = (q, w1)" by fastforce
  note e = persist_effect [OF assms(1) q]
  show ?thesis
  proof (cases q)
    case IO_ok
    with e q assms(4) show ?thesis by (simp add: persist_or_roll_back_def)
  next
    case (IO_fail f)
    from e IO_fail have files: "\<forall>d p. sh_storage ch = Some (d, p) \<longrightarrow> w_files w1 p = w_files w p" by blast
    have "synced st w1"
      unfolding synced_def
    proof (intro allI impI)
      fix d p assume "sh_storage st = Some (d, p)"
      with files assms(2,3) have "w_files w1 p = w_files w p" "stored w p (sh_entries st)"
        by (simp_all add: synced_def)
      then show "stored w1 p (sh_entries st)" by (simp add: stored_def)
    qed
    with IO_fail q assms(4) show ?thesis by (auto simp: persist_or_roll_back_def)
  next
    case IO_killed
    have "synced st w1 \<or> synced ch w1"
    proof (cases "sh_storage st")
      case None
      then show ?thesis by (simp add: synced_def)
    next
      case (Some dp)
      obtain d p where dp: "dp = (d, p)" by (cases dp)
      from e IO_killed have "\<forall>d p. sh_storage ch = Some (d, p) \<longrightarrow>
          w_files w1 p = w_files w p \<or> stored w1 p (sh_entries ch)" by blast
      with Some dp assms(2) have "w_files w1 p = w_files w p \<or> stored w1 p (sh_entries ch)" by simp
      moreover have "stored w p (sh_entries st)" using assms(3) Some dp by (simp add: synced_def)
      ultimately have "stored w1 p (sh_entries st) \<or> stored w1 p (sh_entries ch)"
        by (auto simp: stored_def)
      with Some dp assms(2) show ?thesis by (simp add: synced_def)
    qed
    with IO_killed q assms(4) show ?thesis by (auto simp: persist_or_roll_back_def)
  qed
qed

section \<open>Set and delete\<close>

text \<open>What an operation that means to turn the table into \<open>m\<close> may do.\<close>

definition refines :: "(bytes \<rightharpoonup> bytes) \<Rightarrow> android_store \<Rightarrow> store_result \<Rightarrow> bool" where
  "refines m st res \<longleftrightarrow> (case res of (r, st', w') \<Rightarrow>
     sh_storage st' = sh_storage st
     \<and> (case r of
          Some True \<Rightarrow> entries_ok (sh_entries st') \<and> map_of (sh_entries st') = m \<and> synced st' w'
        | Some False \<Rightarrow> sh_entries st' = sh_entries st \<and> synced st' w'
        | None \<Rightarrow> synced st w' \<or> (\<exists>es. entries_ok es \<and> map_of es = m \<and> synced (st\<lparr>sh_entries := es\<rparr>) w')))"

lemma refines_roll_back:
  assumes "entries_ok es" "map_of es = m" "synced st w"
  shows "refines m st (persist_or_roll_back pid (st\<lparr>sh_entries := es\<rparr>) st w)"
proof -
  obtain r st' w' where p: "persist_or_roll_back pid (st\<lparr>sh_entries := es\<rparr>) st w = (r, st', w')"
    by (cases "persist_or_roll_back pid (st\<lparr>sh_entries := es\<rparr>) st w")
  have "entries_ok (sh_entries (st\<lparr>sh_entries := es\<rparr>))" "sh_storage (st\<lparr>sh_entries := es\<rparr>) = sh_storage st"
    using assms by simp_all
  from roll_back_effect [OF this assms(3) p] assms show ?thesis
    by (auto simp: refines_def p)
qed

lemma refines_unchanged: "synced st w \<Longrightarrow> refines m st (Some False, st, w)"
  "synced st w \<Longrightarrow> refines m st (None, st, w)"
  "synced st w \<Longrightarrow> entries_ok (sh_entries st) \<Longrightarrow> map_of (sh_entries st) = m \<Longrightarrow> refines m st (Some True, st, w)"
  by (simp_all add: refines_def)

lemma entries_ok_update:
  assumes "entries_ok es" "i < length es" "entry_ok (fst (es ! i), v)"
  shows "entries_ok (es[i := (fst (es ! i), v)])"
proof -
  have "map fst (es[i := (fst (es ! i), v)]) = map fst es"
    using assms(2) by (simp add: map_update) (metis list_update_id nth_map)
  moreover have "\<forall>e \<in> set (es[i := (fst (es ! i), v)]). entry_ok e"
    using assms set_update_subset_insert by (fastforce simp: entries_ok_def)
  ultimately show ?thesis using assms(1) by (simp add: entries_ok_def)
qed

lemma entries_ok_delete: "entries_ok es \<Longrightarrow> entries_ok (take i es @ drop (Suc i) es)"
  by (auto simp: entries_ok_def take_map [symmetric] drop_map [symmetric] distinct_take distinct_drop
      set_take_disj_set_drop_if_distinct dest: in_set_takeD in_set_dropD)

lemma set_refines:
  assumes "entries_ok (sh_entries st)" "synced st w" "is_cstr k" "is_cstr v"
  shows "refines ((map_of (sh_entries st))(k \<mapsto> v)) st
           (shared_value_set_locked pid st w (Some k) (Some v))"
proof -
  let ?es = "sh_entries st" and ?m = "(map_of (sh_entries st))(k \<mapsto> v)"
  consider (bad) "strnlen k 1025 = 0 \<or> strnlen k 1025 > 1024 \<or> strnlen v 262145 > 262144"
    | (ok) "1 \<le> length k" "length k \<le> 1024" "length v \<le> 262144"
    unfolding strnlen_def by linarith
  then show ?thesis
  proof cases
    case bad
    then show ?thesis using assms(2) by (simp add: shared_value_set_locked_def refines_unchanged)
  next
    case ok
    then have sizes: "strnlen k 1025 = length k" "strnlen v 262145 = length v" "k \<noteq> []"
      by (auto simp: strnlen_def)
    have entry: "entry_ok (k, v)" using ok assms by (simp add: entry_ok_def)
    note enc = encoded_size_ok [OF assms(1)]
    show ?thesis
    proof (cases "shared_value_index ?es (Some k)")
      case None
      then have fresh: "k \<notin> fst ` set ?es" by (simp add: index_None)
      have "refines ?m st (persist_or_roll_back pid (st\<lparr>sh_entries := ?es @ [(k, v)]\<rparr>) st w2)"
        if "length ?es < 128" "w_files w2 = w_files w" for w2
      proof (rule refines_roll_back)
        show "entries_ok (?es @ [(k, v)])"
          using assms(1) entry fresh that(1) by (auto simp: entries_ok_def)
        have "map_of ?es k = None" using fresh by (simp add: map_of_eq_None_iff)
        then show "map_of (?es @ [(k, v)]) = ?m"
          by (simp add: map_add_def fun_eq_iff split: option.split)
        show "synced st w2" using assms(2) that(2) synced_files by blast
      qed
      note tail = this
      have keep: "refines ?m st (Some False, st, u)" "refines ?m st (None, st, u)"
        if "w_files u = w_files w" for u
        using assms(2) that synced_files refines_unchanged by blast+
      note run = shared_value_set_locked_def Let_def None sizes enc entry_size_def
      show ?thesis
      proof (cases w rule: sys_plain_cases)
        case (ok w1)
        show ?thesis
        proof (cases w1 rule: sys_plain_cases)
          case (ok w2)
          with \<open>sys_plain w = _\<close> \<open>w_files w1 = _\<close> tail [of w2] keep [of w] keep [of w1]
          show ?thesis by (simp add: run)
        next
          case (fail e w2)
          with \<open>sys_plain w = _\<close> \<open>w_files w1 = _\<close> keep [of w] keep [of w1] keep [of w2]
          show ?thesis by (simp add: run)
        next
          case (killed w2)
          with \<open>sys_plain w = _\<close> \<open>w_files w1 = _\<close> keep [of w] keep [of w1] keep [of w2]
          show ?thesis by (simp add: run)
        qed
      qed (use keep in \<open>simp_all add: run\<close>)
    next
      case (Some i)
      note i = index_Some [OF Some]
      have "refines ?m st (persist_or_roll_back pid
          (st\<lparr>sh_entries := ?es[i := (fst (?es ! i), v)]\<rparr>) st w1)" if "w_files w1 = w_files w" for w1
      proof (rule refines_roll_back)
        show "entries_ok (?es[i := (fst (?es ! i), v)])"
          using assms(1) i entry by (intro entries_ok_update) auto
        show "map_of (?es[i := (fst (?es ! i), v)]) = ?m"
          using assms(1) i by (simp add: map_of_split entries_ok_def)
        show "synced st w1" using assms(2) that synced_files by blast
      qed
      moreover have "refines ?m st (Some True, st, w)" if "snd (?es ! i) = v"
        using that i(3) assms by (intro refines_unchanged) auto
      note tail = this calculation
      have keep: "refines ?m st (Some False, st, u)" "refines ?m st (None, st, u)"
        if "w_files u = w_files w" for u
        using assms(2) that synced_files refines_unchanged by blast+
      note run = shared_value_set_locked_def Let_def Some sizes enc
      show ?thesis
      proof (cases w rule: sys_plain_cases)
        case (ok w1)
        then show ?thesis using tail(1) tail(2) [of w1] keep [of w] keep [of w1] by (simp add: run)
      next
        case (fail e w1)
        then show ?thesis using tail(1) keep [of w] keep [of w1] by (simp add: run)
      next
        case (killed w1)
        then show ?thesis using tail(1) keep [of w] keep [of w1] by (simp add: run)
      qed
    qed
  qed
qed

lemma delete_refines:
  assumes "entries_ok (sh_entries st)" "synced st w"
  shows "refines ((map_of (sh_entries st))(k := None)) st
           (shared_value_delete_locked pid st w (Some k))"
proof (cases "shared_value_index (sh_entries st) (Some k)")
  case None
  with assms show ?thesis by (simp add: shared_value_delete_locked_def refines_unchanged)
next
  case (Some i)
  note i = index_Some [OF Some]
  have "refines ((map_of (sh_entries st))(k := None)) st (persist_or_roll_back pid
      (st\<lparr>sh_entries := take i (sh_entries st) @ drop (Suc i) (sh_entries st)\<rparr>) st w)"
    using assms i by (intro refines_roll_back entries_ok_delete map_of_split(2)) (auto simp: entries_ok_def)
  with Some show ?thesis by (simp add: shared_value_delete_locked_def)
qed

section \<open>Histories and restarts\<close>

datatype store_op = Set_op bytes bytes | Delete_op bytes

definition op_ok :: "store_op \<Rightarrow> bool" where
  "op_ok op = (case op of Set_op k v \<Rightarrow> is_cstr k \<and> is_cstr v | Delete_op k \<Rightarrow> is_cstr k)"

definition spec_op :: "store_op \<Rightarrow> (bytes \<rightharpoonup> bytes) \<Rightarrow> (bytes \<rightharpoonup> bytes)" where
  "spec_op op m = (case op of Set_op k v \<Rightarrow> m(k \<mapsto> v) | Delete_op k \<Rightarrow> m(k := None))"

definition run_op :: "nat \<Rightarrow> store_op \<Rightarrow> android_store \<Rightarrow> world \<Rightarrow> store_result" where
  "run_op pid op st w = (case op of
     Set_op k v \<Rightarrow> shared_value_set pid st w (Some k) (Some v)
   | Delete_op k \<Rightarrow> shared_value_delete pid st w (Some k))"

text \<open>A history: operations one after another, their results, until the process ends.\<close>

fun run_ops :: "nat \<Rightarrow> store_op list \<Rightarrow> android_store \<Rightarrow> world \<Rightarrow> bool option list \<times> android_store \<times> world" where
  "run_ops pid [] st w = ([], st, w)"
| "run_ops pid (op # ops) st w =
     (case run_op pid op st w of
        (None, st', w') \<Rightarrow> ([None], st', w')
      | (Some b, st', w') \<Rightarrow> (let (rs, st'', w'') = run_ops pid ops st' w' in (Some b # rs, st'', w'')))"

text \<open>The abstract store: an operation that reported success happened, one that reported failure did
  not, and the one during which the process was killed happened or not.\<close>

fun spec_run :: "store_op list \<Rightarrow> bool option list \<Rightarrow> (bytes \<rightharpoonup> bytes) \<Rightarrow> (bytes \<rightharpoonup> bytes) set" where
  "spec_run (op # ops) (Some True # rs) m = spec_run ops rs (spec_op op m)"
| "spec_run (op # ops) (Some False # rs) m = spec_run ops rs m"
| "spec_run (op # ops) (None # rs) m = {m, spec_op op m}"
| "spec_run _ _ m = {m}"

lemma refines_lock: "refines m (lock_store st) res \<Longrightarrow>
    refines m st (let (r, st', w') = res in (r, unlock_store st', w'))"
  by (cases res) (auto simp: refines_def synced_def split: option.splits bool.splits)

lemma run_op_refines:
  assumes "entries_ok (sh_entries st)" "synced st w" "op_ok op"
  shows "refines (spec_op op (map_of (sh_entries st))) st (run_op pid op st w)"
proof (cases op)
  case (Set_op k v)
  have "refines ((map_of (sh_entries (lock_store st)))(k \<mapsto> v)) (lock_store st)
      (shared_value_set_locked pid (lock_store st) w (Some k) (Some v))"
    using assms Set_op by (intro set_refines) (auto simp: op_ok_def)
  from refines_lock [OF this] Set_op show ?thesis
    by (simp add: run_op_def spec_op_def shared_value_set_def)
next
  case (Delete_op k)
  have "refines ((map_of (sh_entries (lock_store st)))(k := None)) (lock_store st)
      (shared_value_delete_locked pid (lock_store st) w (Some k))"
    using assms Delete_op by (intro delete_refines) auto
  from refines_lock [OF this] Delete_op show ?thesis
    by (simp add: run_op_def spec_op_def shared_value_delete_def)
qed

text \<open>A table that is on disk and that a history allows.\<close>

definition on_disk :: "world \<Rightarrow> bytes \<Rightarrow> (bytes \<rightharpoonup> bytes) set \<Rightarrow> bool" where
  "on_disk w p ms \<longleftrightarrow> (\<exists>es. entries_ok es \<and> stored w p es \<and> map_of es \<in> ms)"

lemma history_on_disk:
  assumes "entries_ok (sh_entries st)" "synced st w" "\<forall>op \<in> set ops. op_ok op"
    and "sh_storage st = Some (d, p)" "run_ops pid ops st w = (rs, st', w')"
  shows "on_disk w' p (spec_run ops rs (map_of (sh_entries st)))"
  using assms
proof (induction ops arbitrary: st w rs)
  case Nil
  then show ?case by (auto simp: on_disk_def synced_def)
next
  case (Cons op ops)
  obtain r st1 w1 where r: "run_op pid op st w = (r, st1, w1)" by (cases "run_op pid op st w")
  have "refines (spec_op op (map_of (sh_entries st))) st (r, st1, w1)"
    using run_op_refines [of st w op pid] Cons.prems r by simp
  note ref = this [unfolded refines_def prod.case]
  show ?case
  proof (cases r)
    case None
    with r Cons.prems(5) have rs: "rs = [None]" "w' = w1" by auto
    from None ref have "synced st w1 \<or> (\<exists>es. entries_ok es \<and> map_of es = spec_op op (map_of (sh_entries st))
        \<and> synced (st\<lparr>sh_entries := es\<rparr>) w1)" by simp
    then show ?thesis
    proof
      assume "synced st w1"
      with Cons.prems(1,4) rs show ?thesis
        unfolding on_disk_def synced_def by auto
    next
      assume "\<exists>es. entries_ok es \<and> map_of es = spec_op op (map_of (sh_entries st))
        \<and> synced (st\<lparr>sh_entries := es\<rparr>) w1"
      then obtain es where "entries_ok es" "map_of es = spec_op op (map_of (sh_entries st))"
        "synced (st\<lparr>sh_entries := es\<rparr>) w1" by blast
      with Cons.prems(4) rs show ?thesis
        unfolding on_disk_def synced_def by auto
    qed
  next
    case (Some b)
    obtain rs1 st2 w2 where t: "run_ops pid ops st1 w1 = (rs1, st2, w2)"
      by (cases "run_ops pid ops st1 w1")
    with r Some Cons.prems(5) have rs: "rs = Some b # rs1" "w' = w2" "st' = st2" by auto
    have s1: "entries_ok (sh_entries st1)" "synced st1 w1" "sh_storage st1 = Some (d, p)"
      "map_of (sh_entries st1) = (if b then spec_op op (map_of (sh_entries st)) else map_of (sh_entries st))"
      using ref Some Cons.prems(1,4) by (auto split: bool.splits)
    have "on_disk w' p (spec_run ops rs1 (map_of (sh_entries st1)))"
      using Cons.prems(3) s1 t rs by (intro Cons.IH) auto
    with rs s1(4) show ?thesis by (cases b) simp_all
  qed
qed

lemma load_regular:
  assumes "w_files w p = Some (Regular c)" "24 \<le> length c" "length c \<le> 24 + MAX_PAYLOAD_SIZE"
    and "shared_values_load_file mem p w = (status, w')"
  shows "status = decode_store mem c \<or> status = LOAD_KILLED \<or> (\<exists>e. status = LOAD_IO_ERROR e)"
proof (cases rule: sys_open_cases [of p w])
  case (ok w1 n)
  then have c: "w_files w1 p = Some (Regular c)" using assms(1) by simp
  show ?thesis
  proof (cases w1 rule: sys_plain_cases)
    case (ok w2)
    obtain r w3 where r: "read_and_close c w2 = (r, w3)" by fastforce
    from ok \<open>sys_open p w = _\<close> c assms(2-4) show ?thesis
      by (cases r) (auto simp: shared_values_load_file_def r)
  next
    case (fail e w2)
    obtain r w3 where r: "sys_plain w2 = (r, w3)" by fastforce
    from fail \<open>sys_open p w = _\<close> c assms(4) show ?thesis
      by (cases r) (auto simp: shared_values_load_file_def r)
  next
    case (killed w2)
    with \<open>sys_open p w = _\<close> c assms(4) show ?thesis by (simp add: shared_values_load_file_def)
  qed
qed (use assms in \<open>auto simp: shared_values_load_file_def\<close>)

section \<open>A host that answers\<close>

text \<open>The next \<open>n\<close> calls succeed, and a \<open>read\<close> or \<open>write\<close> among them moves as much as a store file can
  hold.\<close>

definition ready :: "nat \<Rightarrow> world \<Rightarrow> bool" where
  "ready n w \<longleftrightarrow> (\<exists>as. w_answers w = replicate n (Ans_ok 33686552) @ as)"

lemma ready_plain:
  assumes "ready (Suc n) w"
  obtains w' where "sys_plain w = (IO_ok, w')" "w_files w' = w_files w" "ready n w'"
  using assms by (auto simp: ready_def sys_plain_def)

lemma ready_retry:
  assumes "ready (Suc n) w"
  obtains w' where "sys_retry w = (IO_ok, w')" "w_files w' = w_files w" "ready n w'"
  using assms by (auto simp: ready_def sys_retry_def)

lemma ready_write:
  assumes "ready (Suc n) w" "data \<noteq> []" "length data \<le> 33686552" "w_files w p = Some (Regular old)"
  obtains w' where "write_all p data w = (IO_ok, w')" "ready n w'"
    "w_files w' = (w_files w)(p := Some (Regular (old @ data)))"
proof -
  obtain as where as: "w_answers w = Ans_ok 33686552 # replicate n (Ans_ok 33686552) @ as"
    using assms(1) by (auto simp: ready_def)
  have "write_stream (w_answers w) data = (IO_ok, data, replicate n (Ans_ok 33686552) @ as)"
    using assms(2,3) by (cases data) (simp_all add: as min_def)
  then show thesis
    using that [of "put_file p (Some (Regular (old @ data))) (w\<lparr>w_answers := replicate n (Ans_ok 33686552) @ as\<rparr>)"]
      assms(4) by (simp add: write_all_def put_file_def ready_def)
qed

lemma ready_close:
  assumes "ready (Suc n) w"
  obtains w' where "close_after (IO_ok, w) = (IO_ok, w')" "w_files w' = w_files w" "ready n w'"
  using assms ready_plain [OF assms] by (auto simp: close_after_def)

lemma ready_sync_directory:
  assumes "ready (Suc (Suc (Suc n))) w"
  obtains w' where "sync_storage_directory d w = (IO_ok, w')" "w_files w' = w_files w" "ready n w'"
proof -
  obtain w1 where 1: "sys_plain w = (IO_ok, w1)" "w_files w1 = w_files w" "ready (Suc (Suc n)) w1"
    using ready_plain [OF assms] .
  obtain w2 where 2: "sys_retry w1 = (IO_ok, w2)" "w_files w2 = w_files w1" "ready (Suc n) w2"
    using ready_retry [OF 1(3)] .
  obtain w3 where "close_after (IO_ok, w2) = (IO_ok, w3)" "w_files w3 = w_files w2" "ready n w3"
    using ready_close [OF 2(3)] .
  with 1 2 that show thesis by (simp add: sync_storage_directory_def and_then_def)
qed

lemma ready_fewer: "ready m w \<Longrightarrow> n \<le> m \<Longrightarrow> ready n w"
  unfolding ready_def by (metis append.assoc le_add_diff_inverse replicate_add)

lemma ready_write_temporary:
  assumes "ready (Suc (Suc (Suc (Suc n)))) w" "w_files w t = Some (Regular [])" "header \<noteq> []"
    "length header + length payload \<le> 33686552"
  obtains w' where "write_temporary t header payload w = (IO_ok, w')" "ready n w'"
proof -
  have "length header \<le> 33686552" using assms(4) by simp
  from ready_write [OF assms(1,3) this assms(2)]
  obtain w1 where 1: "write_all t header w = (IO_ok, w1)" "ready (Suc (Suc (Suc n))) w1"
    "w_files w1 = (w_files w)(t := Some (Regular header))" by auto
  obtain w2 where 2: "(if payload = [] then (IO_ok, w1) else write_all t payload w1) = (IO_ok, w2)"
    "ready (Suc (Suc n)) w2"
  proof (cases "payload = []")
    case True
    with 1(2) that [of w1] show thesis by (simp add: ready_fewer)
  next
    case False
    have "length payload \<le> 33686552" "w_files w1 t = Some (Regular header)"
      using assms(4) 1(3) by simp_all
    from ready_write [OF 1(2) False this] False that show thesis by auto
  qed
  obtain w3 where 3: "sys_retry w2 = (IO_ok, w3)" "ready (Suc n) w3"
    using ready_retry [OF 2(2)] by blast
  obtain w4 where 4: "close_after (IO_ok, w3) = (IO_ok, w4)" "ready n w4"
    using ready_close [OF 3(2)] by blast
  have "write_temporary t header payload w = (IO_ok, w4)"
    using 1(1) 2(1) 3(1) 4(1) by (cases "payload = []") (simp_all add: write_temporary_def and_then_def)
  with 4(2) that show thesis by blast
qed

lemma ready_atomic_write:
  assumes "ready 10 w" "w_files w (temporary_name p pid 0) = None" "header \<noteq> []"
    "length header + length payload \<le> 33686552" "length (show_nat pid) \<le> 50"
  obtains w' where "atomic_write_shared_file pid p d header payload w = (IO_ok, w')"
proof -
  let ?t = "temporary_name p pid 0"
  have "ready (Suc 9) w" using assms(1) by simp
  then obtain w1 where 1: "sys_plain w = (IO_ok, w1)" "w_files w1 = w_files w" "ready 9 w1"
    by (rule ready_plain)
  have "ready (Suc 8) w1" using 1(3) by simp
  then obtain w2 where 2: "sys_plain w1 = (IO_ok, w2)" "w_files w2 = w_files w1" "ready 8 w2"
    by (rule ready_plain)
  define w3 where "w3 = put_file ?t (Some (Regular [])) w2"
  have "length ?t < length p + 64"
    using assms(5) by (simp add: temporary_name_def cstr_def show_nat_def digits.simps [of 0])
  then have o: "open_temporary p pid [0..<16] ENOENT w1 = Inr (?t, w3)"
    using 2 1(2) assms(2) by (simp add: upt_conv_Cons w3_def Let_def)
  have r3: "ready (Suc (Suc (Suc (Suc 4)))) w3" "w_files w3 ?t = Some (Regular [])"
    using 2(3) by (simp_all add: w3_def put_file_def ready_def)
  obtain w4 where 4: "write_temporary ?t header payload w3 = (IO_ok, w4)" "ready 4 w4"
    by (rule ready_write_temporary [OF r3 assms(3,4)])
  have "ready (Suc 3) w4" using 4(2) by simp
  then obtain w5 where 5: "sys_plain w4 = (IO_ok, w5)" "w_files w5 = w_files w4" "ready 3 w5"
    by (rule ready_plain)
  define w6 where "w6 = put_file ?t None (put_file p (w_files w5 ?t) w5)"
  have "ready 3 w6"
    using 5(3) by (simp add: w6_def put_file_def ready_def)
  then have "ready (Suc (Suc (Suc 0))) w6" by (simp only: numeral_3_eq_3)
  then obtain w7 where 7: "sync_storage_directory d w6 = (IO_ok, w7)"
    by (rule ready_sync_directory)
  have "commit_or_discard ?t p d (IO_ok, w4) = (IO_ok, w7)"
    using 5(1) 7 by (simp add: commit_or_discard_def and_then_def rename_file_def w6_def)
  then have "atomic_write_shared_file pid p d header payload w = (IO_ok, w7)"
    by (simp only: atomic_write_shared_file_def and_then_def 1(1) o 4(1) fst_conv snd_conv
        io_outcome.case sum.case prod.case)
  then show thesis by (rule that)
qed

lemma ready_persist:
  assumes "ready 11 w" "entries_ok (sh_entries st)" "length (show_nat pid) \<le> 50"
    "\<forall>d p. sh_storage st = Some (d, p) \<longrightarrow> w_files w (temporary_name p pid 0) = None"
  obtains w' where "shared_values_persist pid st w = (IO_ok, w')"
proof (cases "sh_storage st")
  case None
  with that show thesis by (simp add: shared_values_persist_def)
next
  case (Some dp)
  obtain d p where dp: "dp = (d, p)" by (cases dp)
  let ?es = "sh_entries st"
  have "ready (Suc 10) w" using assms(1) by simp
  then obtain w0 where 0: "sys_plain w = (IO_ok, w0)" "w_files w0 = w_files w" "ready 10 w0"
    by (rule ready_plain)
  obtain w1 where 1: "(if encode_payload ?es = [] then (IO_ok, w) else sys_plain w) = (IO_ok, w1)"
    "w_files w1 = w_files w" "ready 10 w1"
  proof (cases "encode_payload ?es = []")
    case True
    with that [of w] assms(1) ready_fewer [of 11 w 10] show thesis by simp
  next
    case False
    with that [of w0] 0 show thesis by simp
  qed
  have size: "length (encode_header ?es (encode_payload ?es)) + length (encode_payload ?es) \<le> 33686552"
    using payload_size_le [OF assms(2)] by (simp add: length_encode_payload)
  have "encode_header ?es (encode_payload ?es) \<noteq> []" by (metis length_header list.size(3) zero_neq_numeral)
  moreover have "w_files w1 (temporary_name p pid 0) = None" using assms(4) Some dp 1(2) by simp
  ultimately obtain w2 where "atomic_write_shared_file pid p d (encode_header ?es (encode_payload ?es))
      (encode_payload ?es) w1 = (IO_ok, w2)"
    using ready_atomic_write [OF 1(3) _ _ size assms(3)] by blast
  with Some dp 1(1) encoded_size_ok [OF assms(2)] that show thesis
    by (simp add: shared_values_persist_def and_then_def Let_def)
qed

lemma set_succeeds:
  assumes "entries_ok (sh_entries st)" "is_cstr k" "is_cstr v"
    and "1 \<le> length k" "length k \<le> MAX_KEY_SIZE" "length v \<le> MAX_VALUE_SIZE"
    and "map_of (sh_entries st) k \<noteq> None \<or> length (sh_entries st) < MAX_ENTRIES"
    and "ready 13 w" "length (show_nat pid) \<le> 50"
    and "\<forall>d p. sh_storage st = Some (d, p) \<longrightarrow> w_files w (temporary_name p pid 0) = None"
  shows "fst (shared_value_set pid st w (Some k) (Some v)) = Some True"
proof -
  let ?st = "lock_store st" and ?es = "sh_entries st"
  have sizes: "strnlen k 1025 = length k" "strnlen v 262145 = length v" "k \<noteq> []"
    using assms(4-6) by (auto simp: strnlen_def)
  have entry: "entry_ok (k, v)" using assms by (simp add: entry_ok_def)
  have sum: "sum_list (map entry_size es) \<le> length es * 263176" if "\<forall>e \<in> set es. entry_ok e" for es
    using that by (induction es) (auto dest: entry_size_le)
  have ok: "\<forall>e \<in> set ?es. entry_ok e" using assms(1) by (simp add: entries_ok_def)
  have "ready (Suc 12) w" using assms(8) by simp
  then obtain w1 where 1: "sys_plain w = (IO_ok, w1)" "w_files w1 = w_files w" "ready 12 w1"
    by (rule ready_plain)
  have "ready (Suc 11) w1" using 1(3) by simp
  then obtain w2 where 2: "sys_plain w1 = (IO_ok, w2)" "w_files w2 = w_files w1" "ready 11 w2"
    by (rule ready_plain)
  have persists: "fst (persist_or_roll_back pid ch ?st u) = Some True"
    if a: "entries_ok (sh_entries ch)" "sh_storage ch = sh_storage st" "ready 11 u" "w_files u = w_files w" for ch u
  proof -
    have "\<forall>d p. sh_storage ch = Some (d, p) \<longrightarrow> w_files u (temporary_name p pid 0) = None"
      using assms(10) a(2,4) by simp
    then obtain u' where "shared_values_persist pid ch u = (IO_ok, u')"
      using ready_persist [OF a(3,1) assms(9)] by blast
    then show ?thesis by (simp add: persist_or_roll_back_def)
  qed
  note run = shared_value_set_locked_def Let_def sizes encoded_size_ok [OF assms(1)]
    length_encode_payload lock_frame 1(1)
  have "fst (shared_value_set_locked pid ?st w (Some k) (Some v)) = Some True"
  proof (cases "shared_value_index ?es (Some k)")
    case None
    then have fresh: "k \<notin> fst ` set ?es" by (simp add: index_None)
    then have "map_of ?es k = None" by (simp add: map_of_eq_None_iff)
    with assms(7) have room: "length ?es < 128" by simp
    have "length ?es * 263176 \<le> 127 * 263176" using room by (intro mult_le_mono1) simp
    with sum [OF ok] have "sum_list (map entry_size ?es) \<le> 127 * 263176" by (rule le_trans)
    then have "sum_list (map entry_size ?es) \<le> MAX_PAYLOAD_SIZE - 8 - length k - length v"
      using assms(5,6) by simp
    moreover have "entries_ok (?es @ [(k, v)])"
      using assms(1) entry fresh room by (auto simp: entries_ok_def)
    ultimately show ?thesis
      using None assms(5,6) room 2 1(2) persists [of "?st\<lparr>sh_entries := ?es @ [(k, v)]\<rparr>" w2]
      by (simp add: run)
  next
    case (Some i)
    note i = index_Some [OF Some]
    have "sum_list (map entry_size ?es) =
        sum_list (map entry_size (take i ?es @ drop (Suc i) ?es)) + entry_size (?es ! i)"
      using i(1) by (subst id_take_nth_drop [OF i(1)]) simp
    moreover have "sum_list (map entry_size (take i ?es @ drop (Suc i) ?es)) \<le> 127 * 263176"
    proof -
      have "\<forall>e \<in> set (take i ?es @ drop (Suc i) ?es). entry_ok e"
        using ok by (auto dest: in_set_takeD in_set_dropD)
      moreover have "length (take i ?es @ drop (Suc i) ?es) \<le> 127"
        using i(1) assms(1) by (auto simp: entries_ok_def)
      ultimately show ?thesis using sum le_trans mult_le_mono1 by blast
    qed
    ultimately have "sum_list (map entry_size ?es) - entry_size (?es ! i)
        \<le> MAX_PAYLOAD_SIZE - 8 - length k - length v"
      using assms(5,6) by simp
    moreover have "entries_ok (?es[i := (fst (?es ! i), v)])"
      using assms(1) i entry by (intro entries_ok_update) auto
    moreover have "ready 11 w1" using 1(3) by (rule ready_fewer) simp
    ultimately show ?thesis
      using Some assms(5,6) 1(2) persists [of "?st\<lparr>sh_entries := ?es[i := (fst (?es ! i), v)]\<rparr>" w1]
      by (simp add: run)
  qed
  then show ?thesis by (auto simp: shared_value_set_def split: prod.split)
qed

lemma ready_read:
  assumes "ready 4 w" "24 \<le> length c" "length c \<le> 33686552"
  obtains w' where "read_and_close c w = (IO_ok, w')"
proof -
  have "ready (Suc 3) w" using assms(1) by simp
  then obtain w1 where 1: "sys_plain w = (IO_ok, w1)" "ready 3 w1" by (rule ready_plain)
  have "ready (Suc 2) w1" using 1(2) by simp
  then obtain as where as: "w_answers w1 = Ans_ok 33686552 # replicate 2 (Ans_ok 33686552) @ as"
    unfolding ready_def replicate_Suc append_Cons by blast
  define w2 where "w2 = w1\<lparr>w_answers := replicate 2 (Ans_ok 33686552) @ as\<rparr>"
  have rd: "read_stream (w_answers w1) c = (IO_ok, c, replicate 2 (Ans_ok 33686552) @ as)"
    using assms(2,3) by (cases c) (simp_all add: as min_def)
  have "ready (Suc 1) w2" unfolding w2_def ready_def by (simp add: numeral_2_eq_2)
  then obtain w3 where 3: "sys_retry w2 = (IO_ok, w3)" "ready 1 w3" by (rule ready_retry)
  have "ready (Suc 0) w3" using 3(2) by simp
  then obtain w4 where 4: "close_after (IO_ok, w3) = (IO_ok, w4)" by (rule ready_close)
  have "read_and_close c w = (IO_ok, w4)"
    using 1(1) rd 3(1) 4 by (simp add: read_and_close_def and_then_def w2_def)
  then show thesis by (rule that)
qed

lemma load_absent:
  assumes "w_files w p = None" "shared_values_load_file mem p w = (status, w')"
  shows "status = LOAD_MISSING \<or> status = LOAD_KILLED \<or> (\<exists>e. status = LOAD_IO_ERROR e)"
  using assms
  by (cases rule: sys_open_cases [of p w]) (auto simp: shared_values_load_file_def)

lemma encode_store_size:
  assumes "entries_ok es"
  shows "24 \<le> length (encode_store es)" "length (encode_store es) \<le> 24 + MAX_PAYLOAD_SIZE"
  using payload_size_le [OF assms] by (simp_all add: encode_store_def length_encode_payload)

lemma load_stored:
  assumes "entries_ok es" "stored w p es" "shared_values_load_file (\<lambda>_. True) p w = (status, w')"
  shows "status = LOAD_OK es \<or> es = [] \<and> status = LOAD_MISSING \<or> status = LOAD_KILLED
    \<or> (\<exists>e. status = LOAD_IO_ERROR e)"
proof (cases "w_files w p")
  case None
  with assms load_absent [OF None assms(3)] show ?thesis by (auto simp: stored_def)
next
  case (Some n)
  with assms(2) have "w_files w p = Some (Regular (encode_store es))" by (simp add: stored_def)
  from load_regular [OF this encode_store_size [OF assms(1)] assms(3)] decode_encode [OF assms(1)]
  show ?thesis by auto
qed

lemma load_succeeds:
  assumes "entries_ok es" "stored w p es" "ready 6 w"
  shows "fst (shared_values_load_file (\<lambda>_. True) p w) = (if w_files w p = None then LOAD_MISSING else LOAD_OK es)"
proof -
  have "ready (Suc 5) w" using assms(3) by simp
  then obtain w0 where 0: "sys_plain w = (IO_ok, w0)" "w_files w0 = w_files w" "ready 5 w0"
    by (rule ready_plain)
  define w1 where "w1 = w0"
  have 1: "sys_open p w = (if w_files w p = None then IO_fail ENOENT else IO_ok, w1)"
    "w_files w1 = w_files w" "ready 5 w1"
    using 0 by (simp_all add: w1_def sys_open_def)
  have "ready (Suc 4) w1" using 1(3) by simp
  then obtain w2 where 2: "sys_plain w1 = (IO_ok, w2)" "ready 4 w2" by (rule ready_plain)
  note size = encode_store_size [OF assms(1)]
  obtain w3 where 3: "read_and_close (encode_store es) w2 = (IO_ok, w3)"
    using ready_read [OF 2(2) size(1)] size(2) by auto
  show ?thesis
    using assms(2) 1 2 3 size decode_encode [OF assms(1)]
    by (auto simp: shared_values_load_file_def stored_def)
qed

text \<open>C4. Crash consistency of the DataSharing store: run any sequence of sets and deletions, let any
  system call or allocation fail, be interrupted, write short, or be the point where the process is
  killed; then start again on the resulting disk. The load never finds a corrupt file, and a table
  it returns (or the empty table, when there is no file) is one the history allows: every operation
  that reported success is in it, none that reported failure is, and only the operation during which
  the process was killed is in doubt.\<close>

theorem store_survives_restart:
  assumes "entries_ok (sh_entries st)" "synced st w" "\<forall>op \<in> set ops. op_ok op"
    and "sh_storage st = Some (d, p)" "run_ops pid ops st w = (rs, st', w')"
    and "w_files v = w_files w'" "shared_values_load_file (\<lambda>_. True) p v = (status, v')"
  shows "(\<exists>es. status = LOAD_OK es \<and> map_of es \<in> spec_run ops rs (map_of (sh_entries st)))
    \<or> status = LOAD_MISSING \<and> Map.empty \<in> spec_run ops rs (map_of (sh_entries st))
    \<or> status = LOAD_KILLED \<or> (\<exists>e. status = LOAD_IO_ERROR e)"
proof -
  from history_on_disk [OF assms(1-5)] obtain es where es: "entries_ok es" "stored w' p es"
    "map_of es \<in> spec_run ops rs (map_of (sh_entries st))" by (auto simp: on_disk_def)
  have "stored v p es" using es(2) assms(6) by (simp add: stored_def)
  from load_stored [OF es(1) this assms(7)] es(3) show ?thesis by auto
qed

definition sample_store :: android_store where
  "sample_store = \<lparr>sh_entries = [], sh_storage = Some (cstr ''d'', cstr ''d/s''),
     sh_mutex_initialized = True, sh_locked = False\<rparr>"

definition sample_world :: world where
  "sample_world = \<lparr>w_files = (\<lambda>_. None), w_answers = replicate 20 (Ans_ok 33686552)\<rparr>"

definition sample_op :: store_op where
  "sample_op = Set_op (cstr ''k'') (cstr ''v'')"

definition sample_restart :: world where
  "sample_restart = (snd (snd (run_ops 1 [sample_op] sample_store sample_world)))
     \<lparr>w_answers := replicate 8 (Ans_ok 33686552)\<rparr>"

lemma sample_ok: "entries_ok (sh_entries sample_store)" "synced sample_store sample_world"
  "\<forall>op \<in> set [sample_op]. op_ok op" "sh_storage sample_store = Some (cstr ''d'', cstr ''d/s'')"
  by (simp_all add: sample_store_def sample_world_def sample_op_def entries_ok_def synced_def stored_def
      op_ok_def is_cstr_def cstr_def)

lemma sample_ready: "ready 13 sample_world" "ready 6 sample_restart"
  using ready_fewer [of 20 sample_world 13] ready_fewer [of 8 sample_restart 6]
  by (auto simp: ready_def sample_world_def sample_restart_def)

lemma sample_set: "fst (shared_value_set 1 sample_store sample_world (Some (cstr ''k'')) (Some (cstr ''v''))) = Some True"
  using sample_ok sample_ready(1)
  by (intro set_succeeds)
    (simp_all add: sample_store_def sample_world_def cstr_def is_cstr_def show_nat_def digits.simps [of "Suc 0"])

theorem store_survives_restart_witness:
  "\<exists>es. fst (shared_values_load_file (\<lambda>_. True) (cstr ''d/s'') sample_restart) = LOAD_OK es
     \<and> map_of es = [cstr ''k'' \<mapsto> cstr ''v'']"
proof -
  obtain st' w' where r: "run_ops 1 [sample_op] sample_store sample_world = ([Some True], st', w')"
    using sample_set
    by (cases "shared_value_set 1 sample_store sample_world (Some (cstr ''k'')) (Some (cstr ''v''))")
      (auto simp: run_op_def sample_op_def)
  have v: "w_files sample_restart = w_files w'"
    using r by (simp add: sample_restart_def)
  obtain status v' where l: "shared_values_load_file (\<lambda>_. True) (cstr ''d/s'') sample_restart = (status, v')"
    by fastforce
  have spec: "spec_run [sample_op] [Some True] (map_of (sh_entries sample_store)) = {[cstr ''k'' \<mapsto> cstr ''v'']}"
    by (simp add: sample_op_def sample_store_def spec_op_def)
  have "\<exists>es. stored sample_restart (cstr ''d/s'') es \<and> entries_ok es"
    using history_on_disk [OF sample_ok r] v(1) by (auto simp: on_disk_def stored_def)
  then have "status = LOAD_MISSING \<or> (\<exists>es. status = LOAD_OK es)"
    using load_succeeds sample_ready(2) l by (metis fst_conv)
  moreover have "Map.empty \<noteq> [cstr ''k'' \<mapsto> cstr ''v'']" by (metis fun_upd_same option.distinct(1))
  ultimately show ?thesis
    using store_survives_restart [OF sample_ok r v l] l spec by auto
qed

text \<open>C6. Set and delete refine the map: from a well-formed table that is on disk, a set (or
  delete) of C strings either reports success, and then memory holds the updated map and the disk
  holds the same table, or reports failure, and then memory and disk are as before; if the process is
  killed inside it, the disk holds one of the two tables. Invalid keys and values, a full table and
  every failing call are failures of this kind.\<close>

theorem store_operation_refines_map:
  assumes "entries_ok (sh_entries st)" "synced st w" "op_ok op"
  shows "refines (spec_op op (map_of (sh_entries st))) st (run_op pid op st w)"
  using assms by (rule run_op_refines)

theorem store_operation_refines_map_witness:
  "refines (spec_op sample_op (map_of (sh_entries sample_store))) sample_store
     (run_op 1 sample_op sample_store sample_world)"
  using sample_ok by (intro store_operation_refines_map) simp_all

text \<open>No valid pair is refused: when the host carries out the calls, setting a non-empty key of
  at most 1024 bytes to a value of at most 256 KiB succeeds for every key the table already has and
  for a new key while the table has fewer than 128 entries; the limit on the total size never
  strikes.\<close>

theorem valid_set_succeeds:
  assumes "entries_ok (sh_entries st)" "is_cstr k" "is_cstr v"
    and "1 \<le> length k" "length k \<le> MAX_KEY_SIZE" "length v \<le> MAX_VALUE_SIZE"
    and "map_of (sh_entries st) k \<noteq> None \<or> length (sh_entries st) < MAX_ENTRIES"
    and "ready 13 w" "length (show_nat pid) \<le> 50"
    and "\<forall>d p. sh_storage st = Some (d, p) \<longrightarrow> w_files w (temporary_name p pid 0) = None"
  shows "fst (shared_value_set pid st w (Some k) (Some v)) = Some True"
  using assms by (rule set_succeeds)

theorem valid_set_succeeds_witness:
  "fst (shared_value_set 1 sample_store sample_world (Some (cstr ''k'')) (Some (cstr ''v''))) = Some True"
  using sample_ok sample_ready(1)
  by (intro valid_set_succeeds)
    (simp_all add: sample_store_def sample_world_def cstr_def is_cstr_def show_nat_def
      digits.simps [of "Suc 0"])

text \<open>What is read is what the map says: a get returns the value of the key, and the empty
  string for a key that is absent or NULL; a key exists exactly when the map has it.\<close>

theorem store_lookup_reads_map:
  "shared_value_get st key = (case key of None \<Rightarrow> [] | Some k \<Rightarrow>
      (case map_of (sh_entries st) k of None \<Rightarrow> [] | Some v \<Rightarrow> v))
   \<and> (shared_value_exists st key \<longleftrightarrow> (\<exists>k. key = Some k \<and> map_of (sh_entries st) k \<noteq> None))"
proof (cases key)
  case None
  then show ?thesis by (simp add: shared_value_get_def shared_value_exists_def shared_value_index_def)
next
  case (Some k)
  show ?thesis
  proof (cases "shared_value_index (sh_entries st) (Some k)")
    case None
    then have "map_of (sh_entries st) k = None" by (simp add: index_None map_of_eq_None_iff)
    with None Some show ?thesis by (simp add: shared_value_get_def shared_value_exists_def)
  next
    case (Some i)
    from index_Some(3) [OF this] Some \<open>key = Some k\<close> show ?thesis
      by (simp add: shared_value_get_def shared_value_exists_def)
  qed
qed

end
