(* ===== verification/Asm2_Preferences.thy ===== *)
theory Asm2_Preferences
  imports Asm2_StoreProps
begin

text \<open>
  The Java preferences of the game, kept in the DataSharing store under a private name space
  (\<open>android_callbacks.c\<close>), the bundles that carry their arguments (\<open>jni_bridge.c\<close>), and
  \<open>asm2_android_set_storage_root\<close>, which loads or recovers the store and seeds the installer's
  preference. The locale \<open>kv_store\<close> is what the preferences need of a store; the DataSharing store
  is its instance.
\<close>

section \<open>Bundles\<close>

text \<open>A value of kind OBJECT is either a string handle, with its text, or NULL, or another handle.
  \<open>None\<close> for a bundle is a pointer that is not a Bundle handle.\<close>

datatype bundle_value = B_boolean bool | B_int int | B_long int | B_string "bytes option" | B_object

type_synonym jbundle = "(bytes \<times> bundle_value) list option"

fun replace_entry :: "bytes \<Rightarrow> bundle_value \<Rightarrow> (bytes \<times> bundle_value) list \<Rightarrow> (bytes \<times> bundle_value) list" where
  "replace_entry k v [] = []"
| "replace_entry k v (e # es) = (if fst e = k then (k, v) # es else e # replace_entry k v es)"

definition bundle_set :: "bool \<Rightarrow> jbundle \<Rightarrow> bytes \<Rightarrow> bundle_value \<Rightarrow> bool \<times> jbundle" where
  "bundle_set mem b key v =
     (case b of
        None \<Rightarrow> (False, b)
      | Some es \<Rightarrow>
          if key = [] then (False, b)
          else if map_of es key \<noteq> None then (True, Some (replace_entry key v es))
          else if mem then (True, Some ((key, v) # es))
          else (False, b))"

definition bundle_get :: "jbundle \<Rightarrow> bytes \<Rightarrow> bundle_value option" where
  "bundle_get b key = (case b of None \<Rightarrow> None | Some es \<Rightarrow> map_of es key)"

definition bundle_get_int :: "jbundle \<Rightarrow> bytes \<Rightarrow> int option" where
  "bundle_get_int b key = (case bundle_get b key of Some (B_int i) \<Rightarrow> Some i | _ \<Rightarrow> None)"

definition bundle_get_long :: "jbundle \<Rightarrow> bytes \<Rightarrow> int option" where
  "bundle_get_long b key = (case bundle_get b key of Some (B_long i) \<Rightarrow> Some i | _ \<Rightarrow> None)"

definition bundle_get_boolean :: "jbundle \<Rightarrow> bytes \<Rightarrow> bool option" where
  "bundle_get_boolean b key = (case bundle_get b key of Some (B_boolean z) \<Rightarrow> Some z | _ \<Rightarrow> None)"

definition bundle_get_string :: "jbundle \<Rightarrow> bytes \<Rightarrow> bytes option" where
  "bundle_get_string b key = (case bundle_get b key of Some (B_string s) \<Rightarrow> s | _ \<Rightarrow> None)"

definition value_or :: "'a \<Rightarrow> 'a option \<Rightarrow> 'a" where
  "value_or d v = (case v of None \<Rightarrow> d | Some x \<Rightarrow> x)"

section \<open>Storage keys\<close>

definition preference_key_prefix :: bytes where
  "preference_key_prefix = cstr ''__asm2_shared_pref_v1__''"

definition preference_storage_key :: "bool \<Rightarrow> bytes option \<Rightarrow> bytes option \<Rightarrow> bytes option" where
  "preference_storage_key mem preference_name key =
     (case key of
        None \<Rightarrow> None
      | Some k \<Rightarrow>
          let name = value_or [] preference_name;
              length_text = show_nat (length name) @ [58];
              storage_key = preference_key_prefix @ length_text @ name @ [58] @ k
          in if length length_text \<ge> 32 then None
             else if length storage_key > MAX_KEY_SIZE then None
             else if mem then Some storage_key else None)"

definition preference_storage_key_reserved :: "bytes option \<Rightarrow> bool" where
  "preference_storage_key_reserved key =
     (case key of None \<Rightarrow> False | Some k \<Rightarrow> starts_with preference_key_prefix k)"

definition shared_value_copy :: "bool \<Rightarrow> android_store \<Rightarrow> bytes option \<Rightarrow> bytes option" where
  "shared_value_copy mem st key =
     (case key of
        None \<Rightarrow> None
      | Some k \<Rightarrow>
          (case shared_value_index (sh_entries st) (Some k) of
             None \<Rightarrow> None
           | Some i \<Rightarrow> if mem then Some (snd (sh_entries st ! i)) else None))"

section \<open>Encoded values\<close>

text \<open>\<open>tagged t s\<close>: the text starts with the tag character and a colon.\<close>

definition tagged :: "u8 \<Rightarrow> bytes \<Rightarrow> bool" where
  "tagged t s \<longleftrightarrow> starts_with [t, 58] s"

definition parse_preference_int :: "bytes \<Rightarrow> int option" where
  "parse_preference_int text =
     (if \<not> tagged 105 text \<or> length text \<le> 2 then None
      else case scan_int (drop 2 text) of
        Some (v, []) \<Rightarrow> if fits_i32 v then Some v else None
      | _ \<Rightarrow> None)"

definition fits_i64 :: "int \<Rightarrow> bool" where
  "fits_i64 x \<longleftrightarrow> - (2 ^ 63) \<le> x \<and> x < 2 ^ 63"

definition parse_preference_long :: "bytes \<Rightarrow> int option" where
  "parse_preference_long text =
     (if \<not> tagged 106 text \<or> length text \<le> 2 then None
      else case scan_int (drop 2 text) of
        Some (v, []) \<Rightarrow> if fits_i64 v then Some v else None
      | _ \<Rightarrow> None)"

section \<open>Getting and setting\<close>

abbreviation (input) key_type :: bytes where "key_type \<equiv> cstr ''npDataType''"
abbreviation (input) key_key :: bytes where "key_key \<equiv> cstr ''npKey''"
abbreviation (input) key_name :: bytes where "key_name \<equiv> cstr ''npPrefName''"
abbreviation (input) key_data :: bytes where "key_data \<equiv> cstr ''npData''"
abbreviation (input) key_result :: bytes where "key_result \<equiv> cstr ''npResult''"
abbreviation (input) key_default :: bytes where "key_default \<equiv> cstr ''npDefaultValue''"

definition preference_put_default :: "bool \<Rightarrow> jbundle \<Rightarrow> int \<Rightarrow> bool \<times> jbundle" where
  "preference_put_default mem b ty =
     (if ty = 0 then bundle_set mem b key_result (B_int (value_or 0 (bundle_get_int b key_default)))
      else if ty = 1 then bundle_set mem b key_result (B_long (value_or 0 (bundle_get_long b key_default)))
      else if ty = 2
      then bundle_set mem b key_result (B_boolean (value_or False (bundle_get_boolean b key_default)))
      else if ty = 3 then bundle_set mem b key_result (B_string (bundle_get_string b key_default))
      else (True, b))"

text \<open>The value of a stored text at a type: \<open>None\<close> when it is not valid there.\<close>

definition decode_preference :: "int \<Rightarrow> bytes \<Rightarrow> bundle_value option" where
  "decode_preference ty saved =
     (if ty = 0 then map_option B_int (parse_preference_int saved)
      else if ty = 1 then map_option B_long (parse_preference_long saved)
      else if ty = 2 then
        (if saved = cstr ''z:0'' then Some (B_boolean False)
         else if saved = cstr ''z:1'' then Some (B_boolean True) else None)
      else if ty = 3 then (if tagged 115 saved then Some (B_string (Some (drop 2 saved))) else None)
      else None)"

text \<open>\<open>mem\<close> answers the allocations: the storage key, the copy of the value, a bundle entry.\<close>

definition preference_get :: "(nat \<Rightarrow> bool) \<Rightarrow> android_store \<Rightarrow> jbundle \<Rightarrow> jbundle" where
  "preference_get mem st b =
     (let ty = value_or 0 (bundle_get_int b key_type);
          storage_key = preference_storage_key (mem 0) (bundle_get_string b key_name)
                          (bundle_get_string b key_key);
          (valid, b') = (case shared_value_copy (mem 1) st storage_key of
             None \<Rightarrow> (False, b)
           | Some saved \<Rightarrow>
               if ty < 0 \<or> ty > 3 then (True, b)
               else (case decode_preference ty saved of
                   None \<Rightarrow> (False, b)
                 | Some v \<Rightarrow> bundle_set (mem 2) b key_result v))
      in if valid then b' else snd (preference_put_default (mem 2) b' ty))"

text \<open>What is stored for the data of a bundle; \<open>None\<close>: nothing is stored.\<close>

definition encode_preference :: "jbundle \<Rightarrow> int \<Rightarrow> bytes option" where
  "encode_preference b ty =
     (if ty = 0 then Some (cstr ''i:'' @ show_int (value_or 0 (bundle_get_int b key_data)))
      else if ty = 1 then Some (cstr ''j:'' @ show_int (value_or 0 (bundle_get_long b key_data)))
      else if ty = 2
      then Some (if value_or False (bundle_get_boolean b key_data) then cstr ''z:1'' else cstr ''z:0'')
      else if ty = 3 then
        (case bundle_get_string b key_data of
           None \<Rightarrow> None
         | Some s \<Rightarrow> if length s \<le> MAX_VALUE_SIZE - 2 then Some (cstr ''s:'' @ s) else None)
      else None)"

definition preference_set ::
  "(nat \<Rightarrow> bool) \<Rightarrow> nat \<Rightarrow> android_store \<Rightarrow> world \<Rightarrow> jbundle \<Rightarrow> store_result" where
  "preference_set mem pid st w b =
     (let ty = value_or 0 (bundle_get_int b key_type);
          storage_key = preference_storage_key (mem 0) (bundle_get_string b key_name)
                          (bundle_get_string b key_key);
          encoded = (if mem 1 then encode_preference b ty else None)
      in case (storage_key, encoded) of
           (Some k, Some v) \<Rightarrow> shared_value_set pid st w (Some k) (Some v)
         | _ \<Rightarrow> (Some False, st, w))"

text \<open>The two overloads of \<open>nativeGetPreferenceString\<close>: the default value is given or is the empty
  string; the result is the string returned (\<open>None\<close>: a NULL default).\<close>

definition preference_get_string_method ::
  "(nat \<Rightarrow> bool) \<Rightarrow> android_store \<Rightarrow> bytes option \<Rightarrow> bytes option \<Rightarrow> bytes option \<Rightarrow> bytes option" where
  "preference_get_string_method mem st key default_value preference_name =
     (case shared_value_copy (mem 1) st (preference_storage_key (mem 0) preference_name key) of
        Some saved \<Rightarrow> if tagged 115 saved then Some (drop 2 saved) else default_value
      | None \<Rightarrow> default_value)"

section \<open>The installer's preference and the storage root\<close>

definition ensure_installer_preferences ::
  "(nat \<Rightarrow> bool) \<Rightarrow> nat \<Rightarrow> bytes option \<Rightarrow> android_store \<Rightarrow> world \<Rightarrow> store_result" where
  "ensure_installer_preferences mem pid resource_directory st w =
     (case (resource_directory,
            preference_storage_key (mem 0) (Some (cstr ''GameActivityPrefs'')) (Some (cstr ''SDFolder''))) of
        (Some directory, Some storage_key) \<Rightarrow>
          if \<exists>saved \<in> set_option (shared_value_copy (mem 1) st (Some storage_key)). tagged 115 saved
          then (Some True, st, w)
          else if length directory > MAX_VALUE_SIZE - 2 then (Some False, st, w)
          else if \<not> mem 2 then (Some False, st, w)
          else shared_value_set pid st w (Some storage_key) (Some (cstr ''s:'' @ directory))
      | _ \<Rightarrow> (Some False, st, w))"

definition shared_directory :: bytes where
  "shared_directory = cstr ''Android/data/com.gameloft.android.ANMP.GloftASHM/files/save''"

definition shared_filename :: bytes where
  "shared_filename = cstr ''datasharing-v1.bin''"

definition set_storage_root ::
  "(nat \<Rightarrow> bool) \<Rightarrow> (nat \<Rightarrow> bool) \<Rightarrow> nat \<Rightarrow> int \<Rightarrow> nat \<Rightarrow> bytes option \<Rightarrow> android_store \<Rightarrow> world
     \<Rightarrow> bytes option \<Rightarrow> store_result" where
  "set_storage_root mem load_mem pid seconds nanoseconds resource_directory st w host_root =
     (case join_storage_path host_root (Some shared_directory) of
        None \<Rightarrow> (Some False, st, w)
      | Some directory \<Rightarrow>
          (case ensure_directory_tree (Some directory) w of
             (IO_killed, w1) \<Rightarrow> (None, st, w1)
           | (IO_fail _, w1) \<Rightarrow> (Some False, st, w1)
           | (IO_ok, w1) \<Rightarrow>
               (case join_storage_path (Some directory) (Some shared_filename) of
                  None \<Rightarrow> (Some False, st, w1)
                | Some path \<Rightarrow>
                    let adopt = (\<lambda>entries w. ensure_installer_preferences mem pid resource_directory
                          (unlock_store ((lock_store st)\<lparr>sh_storage := Some (directory, path),
                                                          sh_entries := entries\<rparr>)) w)
                    in case shared_values_load_file load_mem path w1 of
                         (LOAD_KILLED, w2) \<Rightarrow> (None, st, w2)
                       | (LOAD_IO_ERROR _, w2) \<Rightarrow> (Some False, st, w2)
                       | (LOAD_CORRUPT, w2) \<Rightarrow>
                           (case quarantine_invalid_shared_store pid seconds nanoseconds path directory w2 of
                              (IO_killed, w3) \<Rightarrow> (None, st, w3)
                            | (IO_fail _, w3) \<Rightarrow> (Some False, st, w3)
                            | (IO_ok, w3) \<Rightarrow> adopt [] w3)
                       | (LOAD_MISSING, w2) \<Rightarrow> adopt [] w2
                       | (LOAD_OK entries, w2) \<Rightarrow> adopt entries w2)))"

section \<open>The name space\<close>

lemma length_prefix [simp]: "length preference_key_prefix = 23"
  by (simp add: preference_key_prefix_def cstr_def)

lemma storage_key_Some:
  assumes "preference_storage_key mem name key = Some s"
  obtains k where "key = Some k" "mem" "length s \<le> MAX_KEY_SIZE"
    "s = preference_key_prefix @ show_nat (length (value_or [] name)) @ [58] @ value_or [] name @ [58] @ k"
proof (cases key)
  case None
  with assms show thesis by (simp add: preference_storage_key_def)
next
  case (Some k)
  with assms show thesis
    by (intro that [of k]) (auto simp: preference_storage_key_def Let_def split: if_splits)
qed

lemma storage_key_inj:
  assumes "preference_storage_key m1 n1 k1 = Some s" "preference_storage_key m2 n2 k2 = Some s"
  shows "value_or [] n1 = value_or [] n2 \<and> k1 = k2"
proof -
  from assms(1) obtain a where a: "k1 = Some a"
    "s = preference_key_prefix @ show_nat (length (value_or [] n1)) @ [58] @ value_or [] n1 @ [58] @ a"
    by (rule storage_key_Some)
  from assms(2) obtain b where b: "k2 = Some b"
    "s = preference_key_prefix @ show_nat (length (value_or [] n2)) @ [58] @ value_or [] n2 @ [58] @ b"
    by (rule storage_key_Some)
  have colon: "[58] @ r = [] \<or> \<not> is_digit (hd ([58] @ r))" for r by (simp add: is_digit_def)
  have e: "show_nat (length (value_or [] n1)) @ [58] @ value_or [] n1 @ [58] @ a
      = show_nat (length (value_or [] n2)) @ [58] @ value_or [] n2 @ [58] @ b"
    using a(2) b(2) by simp
  from scan_show_nat [OF colon, of "length (value_or [] n1)" "value_or [] n1 @ [58] @ a"]
    scan_show_nat [OF colon, of "length (value_or [] n2)" "value_or [] n2 @ [58] @ b"]
  have "length (value_or [] n1) = length (value_or [] n2)"
    "[58] @ value_or [] n1 @ [58] @ a = [58] @ value_or [] n2 @ [58] @ b"
    unfolding e by simp_all
  then show ?thesis using a(1) b(1) by simp
qed

lemma storage_key_cong:
  assumes "preference_storage_key m1 n1 k1 = Some s1" "preference_storage_key m2 n2 k2 = Some s2"
    and "value_or [] n1 = value_or [] n2" "k1 = k2"
  shows "s1 = s2"
  using assms by (auto simp: preference_storage_key_def Let_def split: option.splits if_splits)

text \<open>The preference name space: distinct (preference file, key) pairs are stored under distinct
  keys (a NULL preference name is the empty one), even when names contain colons and digits; every
  such key is accepted by the store's size limit and is reserved.\<close>

theorem storage_key_injective:
  assumes "preference_storage_key m1 n1 k1 = Some s1" "preference_storage_key m2 n2 k2 = Some s2"
  shows "(s1 = s2 \<longleftrightarrow> value_or [] n1 = value_or [] n2 \<and> k1 = k2)
    \<and> s1 \<noteq> [] \<and> length s1 \<le> MAX_KEY_SIZE \<and> preference_storage_key_reserved (Some s1)"
proof -
  from assms(1) obtain a where "length s1 \<le> 1024"
    "s1 = preference_key_prefix @ show_nat (length (value_or [] n1)) @ [58] @ value_or [] n1 @ [58] @ a"
    by (rule storage_key_Some)
  then have "s1 \<noteq> [] \<and> length s1 \<le> 1024 \<and> preference_storage_key_reserved (Some s1)"
    by (simp add: preference_storage_key_reserved_def)
  moreover have "s1 = s2 \<longleftrightarrow> value_or [] n1 = value_or [] n2 \<and> k1 = k2"
  proof
    assume "s1 = s2"
    with assms storage_key_inj show "value_or [] n1 = value_or [] n2 \<and> k1 = k2" by blast
  next
    assume "value_or [] n1 = value_or [] n2 \<and> k1 = k2"
    with assms storage_key_cong show "s1 = s2" by blast
  qed
  ultimately show ?thesis by blast
qed

theorem storage_key_injective_witness:
  "preference_key_prefix @ cstr ''1:a:b'' \<noteq> preference_key_prefix @ cstr ''0::b'' \<and>
   preference_storage_key_reserved (Some (preference_key_prefix @ cstr ''1:a:b''))"
proof -
  have k: "preference_storage_key True (Some (cstr ''a'')) (Some (cstr ''b'')) = Some (preference_key_prefix @ cstr ''1:a:b'')"
    "preference_storage_key True None (Some (cstr ''b'')) = Some (preference_key_prefix @ cstr ''0::b'')"
    by (simp_all add: preference_storage_key_def cstr_def show_nat_def digits.simps [of 0]
        digits.simps [of "Suc 0"] value_or_def Let_def)
  from storage_key_injective [OF k] show ?thesis by (simp add: value_or_def cstr_def)
qed

section \<open>The store as a key-value service\<close>

locale kv_store =
  fixes lookup :: "'s \<Rightarrow> bytes \<Rightarrow> bytes option"
    and put :: "'s \<Rightarrow> bytes \<Rightarrow> bytes \<Rightarrow> bool option \<times> 's"
    and valid :: "'s \<Rightarrow> bool"
  assumes put_done: "valid s \<Longrightarrow> is_cstr k \<Longrightarrow> is_cstr v \<Longrightarrow> put s k v = (Some True, s') \<Longrightarrow>
      valid s' \<and> lookup s' = (lookup s)(k \<mapsto> v)"
    and put_refused: "valid s \<Longrightarrow> is_cstr k \<Longrightarrow> is_cstr v \<Longrightarrow> put s k v = (Some False, s') \<Longrightarrow>
      valid s' \<and> lookup s' = lookup s"
begin

lemma put_valid: "valid s \<Longrightarrow> is_cstr k \<Longrightarrow> is_cstr v \<Longrightarrow> put s k v = (Some b, s') \<Longrightarrow> valid s'"
  by (cases b) (auto dest: put_done put_refused)

lemma put_other:
  assumes "valid s" "is_cstr k" "is_cstr v" "put s k v = (Some b, s')" "k' \<noteq> k"
  shows "lookup s' k' = lookup s k'"
  using assms by (cases b) (auto dest: put_done put_refused)

end

section \<open>The DataSharing store provides it\<close>

type_synonym ds_state = "android_store \<times> world"

definition ds_lookup :: "ds_state \<Rightarrow> bytes \<Rightarrow> bytes option" where
  "ds_lookup s = map_of (sh_entries (fst s))"

definition ds_put :: "nat \<Rightarrow> ds_state \<Rightarrow> bytes \<Rightarrow> bytes \<Rightarrow> bool option \<times> ds_state" where
  "ds_put pid s k v =
     (case shared_value_set pid (fst s) (snd s) (Some k) (Some v) of (r, st, w) \<Rightarrow> (r, (st, w)))"

definition ds_valid :: "ds_state \<Rightarrow> bool" where
  "ds_valid s \<longleftrightarrow> entries_ok (sh_entries (fst s)) \<and> synced (fst s) (snd s)"

lemma shared_value_set_refines:
  assumes "entries_ok (sh_entries st)" "synced st w" "is_cstr k" "is_cstr v"
  shows "refines ((map_of (sh_entries st))(k \<mapsto> v)) st (shared_value_set pid st w (Some k) (Some v))"
  using run_op_refines [of st w "Set_op k v" pid] assms
  by (simp add: op_ok_def spec_op_def run_op_def)

interpretation ds: kv_store ds_lookup "ds_put pid" ds_valid for pid
proof unfold_locales
  fix s s' k v
  assume a: "ds_valid s" "is_cstr k" "is_cstr v"
  then have r: "refines ((map_of (sh_entries (fst s)))(k \<mapsto> v)) (fst s)
      (shared_value_set pid (fst s) (snd s) (Some k) (Some v))"
    by (intro shared_value_set_refines) (simp_all add: ds_valid_def)
  show "ds_valid s' \<and> ds_lookup s' = (ds_lookup s)(k \<mapsto> v)" if "ds_put pid s k v = (Some True, s')"
    using r that by (auto simp: ds_put_def refines_def ds_valid_def ds_lookup_def split: prod.splits)
  show "ds_valid s' \<and> ds_lookup s' = ds_lookup s" if "ds_put pid s k v = (Some False, s')"
    using r that a(1) by (auto simp: ds_put_def refines_def ds_valid_def ds_lookup_def split: prod.splits)
qed

lemma shared_value_copy_lookup:
  "shared_value_copy True st (Some k) = ds_lookup (st, w) k"
proof (cases "shared_value_index (sh_entries st) (Some k)")
  case None
  then have "map_of (sh_entries st) k = None" by (simp add: index_None map_of_eq_None_iff)
  with None show ?thesis by (simp add: shared_value_copy_def ds_lookup_def)
next
  case (Some i)
  with index_Some(3) [OF Some] show ?thesis by (simp add: shared_value_copy_def ds_lookup_def)
qed

section \<open>Values survive the text they are stored as\<close>

definition bundle_ok :: "jbundle \<Rightarrow> bool" where
  "bundle_ok b \<longleftrightarrow> (\<forall>k v. bundle_get b k = Some v \<longrightarrow>
     (case v of B_int i \<Rightarrow> fits_i32 i | B_long i \<Rightarrow> fits_i64 i
      | B_string (Some s) \<Rightarrow> is_cstr s | _ \<Rightarrow> True))"

definition preference_field :: "bytes \<Rightarrow> jbundle \<Rightarrow> int \<Rightarrow> bundle_value" where
  "preference_field field b ty =
     (if ty = 0 then B_int (value_or 0 (bundle_get_int b field))
      else if ty = 1 then B_long (value_or 0 (bundle_get_long b field))
      else if ty = 2 then B_boolean (value_or False (bundle_get_boolean b field))
      else B_string (bundle_get_string b field))"

lemma bundle_ok_fields:
  assumes "bundle_ok b"
  shows "fits_i32 (value_or 0 (bundle_get_int b k))" "fits_i64 (value_or 0 (bundle_get_long b k))"
    "bundle_get_string b k = Some s \<Longrightarrow> is_cstr s"
  using assms
  by (auto simp: bundle_ok_def bundle_get_int_def bundle_get_long_def bundle_get_string_def value_or_def
      fits_i32_def fits_i64_def split: option.splits bundle_value.splits)

lemma tagged_cstr [simp]: "tagged t (t # 58 # s)" "tagged t (u # 58 # s) \<longleftrightarrow> t = u"
  by (auto simp: tagged_def starts_with_def)

lemma show_int_nonempty [simp]: "show_int i \<noteq> []"
  by (simp add: show_int_def)

lemma parse_show_int: "fits_i32 i \<Longrightarrow> parse_preference_int (105 # 58 # show_int i) = Some i"
  using scan_show_int [of "[]" i] by (simp add: parse_preference_int_def)

lemma parse_show_long: "fits_i64 i \<Longrightarrow> parse_preference_long (106 # 58 # show_int i) = Some i"
  using scan_show_int [of "[]" i] by (simp add: parse_preference_long_def)

lemma decode_encode_preference:
  assumes "bundle_ok b" "encode_preference b ty = Some e"
  shows "decode_preference ty e = Some (preference_field key_data b ty)"
  using assms bundle_ok_fields [OF assms(1)]
  by (auto simp: encode_preference_def decode_preference_def preference_field_def cstr_def
      parse_show_int parse_show_long split: if_splits option.splits)

lemma is_cstr_show_nat: "is_cstr (show_nat n)"
  using show_nat_digits [of 0 n] by (auto simp: is_cstr_def is_digit_def)

lemma is_cstr_show_int [simp]: "is_cstr (show_int i)"
  using is_cstr_show_nat by (simp add: show_int_def is_cstr_def)

lemma encode_preference_cstr:
  assumes "bundle_ok b" "encode_preference b ty = Some e"
  shows "is_cstr e"
  using assms bundle_ok_fields(3) [OF assms(1)]
  by (auto simp: encode_preference_def split: if_splits option.splits)
    (auto simp: cstr_def is_cstr_def)

lemma storage_key_cstr:
  assumes "preference_storage_key m n k = Some s" "\<forall>t. n = Some t \<longrightarrow> is_cstr t" "\<forall>t. k = Some t \<longrightarrow> is_cstr t"
  shows "is_cstr s"
proof -
  from assms(1) obtain a where a: "k = Some a"
    "s = preference_key_prefix @ show_nat (length (value_or [] n)) @ [58] @ value_or [] n @ [58] @ a"
    by (rule storage_key_Some)
  have "is_cstr preference_key_prefix" by (simp add: preference_key_prefix_def cstr_def is_cstr_def)
  moreover have "is_cstr (value_or [] n)" using assms(2) by (cases n) (auto simp: value_or_def)
  ultimately show ?thesis using a assms(3) is_cstr_show_nat by (simp add: is_cstr_def)
qed

section \<open>Bundles give back what was put\<close>

lemma map_of_replace_entry:
  "map_of (replace_entry k v es) = (if map_of es k = None then map_of es else (map_of es)(k \<mapsto> v))"
  by (induction es) (auto simp: fun_eq_iff)

lemma bundle_set_get:
  assumes "bundle_set True (Some es) k v = (ok, b')" "k \<noteq> []"
  shows "ok \<and> bundle_get b' k = Some v"
  using assms by (auto simp: bundle_set_def bundle_get_def map_of_replace_entry split: if_splits)

lemma key_result_nonempty [simp]: "key_result \<noteq> []"
  by (simp add: cstr_def)


text \<open>What a get returns, from the text in the store.\<close>

lemma preference_get_result:
  assumes "ty = value_or 0 (bundle_get_int (Some es) key_type)" "0 \<le> ty" "ty \<le> 3"
    and "preference_storage_key True (bundle_get_string (Some es) key_name)
           (bundle_get_string (Some es) key_key) = Some k"
  shows "bundle_get (preference_get (\<lambda>_. True) st (Some es)) key_result =
    Some (case Option.bind (ds_lookup (st, w) k) (decode_preference ty) of
        Some v \<Rightarrow> v | None \<Rightarrow> preference_field key_default (Some es) ty)"
proof -
  have put: "bundle_get (snd (bundle_set True (Some es) key_result v)) key_result = Some v"
    "fst (bundle_set True (Some es) key_result v)" for v
    using bundle_set_get [of es key_result v] by (cases "bundle_set True (Some es) key_result v"; simp)+
  have def: "snd (preference_put_default True (Some es) ty) =
      snd (bundle_set True (Some es) key_result (preference_field key_default (Some es) ty))"
    using assms(2,3) by (auto simp: preference_put_default_def preference_field_def)
  show ?thesis
  proof (cases "Option.bind (ds_lookup (st, w) k) (decode_preference ty)")
    case None
    have "preference_get (\<lambda>_. True) st (Some es) = snd (preference_put_default True (Some es) ty)"
      using None assms
      by (auto simp: preference_get_def Let_def shared_value_copy_lookup [of _ _ w] split: option.splits)
    with put def None show ?thesis by simp
  next
    case (Some v)
    then obtain saved where s: "ds_lookup (st, w) k = Some saved" "decode_preference ty saved = Some v"
      by (auto simp: bind_eq_Some_conv)
    have "preference_get (\<lambda>_. True) st (Some es) = snd (bundle_set True (Some es) key_result v)"
      using s assms put(2) [of v]
      by (auto simp: preference_get_def Let_def shared_value_copy_lookup [of _ _ w] split: prod.splits)
    with put Some show ?thesis by simp
  qed
qed

text \<open>The request a bundle carries: type, storage key, value.\<close>

definition request_key :: "jbundle \<Rightarrow> bytes option" where
  "request_key b = preference_storage_key True (bundle_get_string b key_name) (bundle_get_string b key_key)"

definition request_type :: "jbundle \<Rightarrow> int" where
  "request_type b = value_or 0 (bundle_get_int b key_type)"

lemma request_key_cstr: "bundle_ok b \<Longrightarrow> request_key b = Some k \<Longrightarrow> is_cstr k"
  unfolding request_key_def using storage_key_cstr bundle_ok_fields(3) by blast

lemma preference_set_put:
  assumes "bundle_ok b" "preference_set mem pid st w b = (Some True, st', w')"
  obtains k e where "request_key b = Some k" "encode_preference b (request_type b) = Some e"
    "ds_put pid (st, w) k e = (Some True, (st', w'))" "is_cstr k" "is_cstr e"
proof -
  from assms(2) obtain k e where ke: "preference_storage_key (mem 0) (bundle_get_string b key_name)
      (bundle_get_string b key_key) = Some k" "encode_preference b (request_type b) = Some e"
    "shared_value_set pid st w (Some k) (Some e) = (Some True, st', w')"
    by (auto simp: preference_set_def request_type_def Let_def split: option.splits if_splits)
  have "request_key b = Some k"
    using ke(1) by (auto simp: request_key_def preference_storage_key_def Let_def split: option.splits if_splits)
  moreover have "ds_put pid (st, w) k e = (Some True, (st', w'))" using ke(3) by (simp add: ds_put_def)
  ultimately show thesis
    using that ke(2) request_key_cstr encode_preference_cstr assms(1) by blast
qed

text \<open>C10. Preferences round trip: after a \<open>nativeSetPreference\<close> that stored its value, any
  \<open>nativeGetPreference\<close> for the same preference file, key and type finds, in \<open>npResult\<close>, exactly the
  value that was set, for ints, longs, booleans and strings (the allocations of the get
  succeeding).\<close>

theorem preference_round_trip:
  assumes "ds_valid (st, w)" "bundle_ok b" "0 \<le> request_type b" "request_type b \<le> 3"
    and "preference_set mem pid st w b = (Some True, st', w')"
    and "request_key (Some es) = request_key b" "request_type (Some es) = request_type b"
  shows "bundle_get (preference_get (\<lambda>_. True) st' (Some es)) key_result =
    Some (preference_field key_data b (request_type b))"
proof -
  from assms(2,5) obtain k e where ke: "request_key b = Some k"
    "encode_preference b (request_type b) = Some e" "ds_put pid (st, w) k e = (Some True, (st', w'))"
    "is_cstr k" "is_cstr e" by (rule preference_set_put)
  have "ds_lookup (st', w') k = Some e"
    using ds.put_done [OF assms(1) ke(4,5,3)] by simp
  then show ?thesis
    using preference_get_result [of "request_type b" es k st' w'] assms(3,4,6,7) ke(1)
      decode_encode_preference [OF assms(2) ke(2)]
    by (simp add: request_key_def request_type_def)
qed

text \<open>Preferences are isolated: a set, whether it stores, fails or is ignored, changes at most
  the preference it names; every other preference, and every key of the public DataSharing store
  that is not reserved, keeps its value, and memory and disk stay consistent.\<close>

theorem preference_set_isolated:
  assumes "ds_valid (st, w)" "bundle_ok b" "preference_set mem pid st w b = (Some r, st', w')"
    and "request_key b \<noteq> Some other"
  shows "ds_lookup (st', w') other = ds_lookup (st, w) other \<and> ds_valid (st', w')"
proof (cases "st' = st \<and> w' = w")
  case True
  with assms(1) show ?thesis by simp
next
  case False
  from assms(3) obtain k e where ke: "preference_storage_key (mem 0) (bundle_get_string b key_name)
      (bundle_get_string b key_key) = Some k" "encode_preference b (request_type b) = Some e"
    "shared_value_set pid st w (Some k) (Some e) = (Some r, st', w')"
    using False by (auto simp: preference_set_def request_type_def Let_def split: option.splits if_splits)
  have k: "request_key b = Some k"
    using ke(1) by (auto simp: request_key_def preference_storage_key_def Let_def split: option.splits if_splits)
  have c: "is_cstr k" "is_cstr e"
    using request_key_cstr [OF assms(2) k] encode_preference_cstr [OF assms(2) ke(2)] .
  have p: "ds_put pid (st, w) k e = (Some r, (st', w'))" using ke(3) by (simp add: ds_put_def)
  from ds.put_other [OF assms(1) c p, of other] ds.put_valid [OF assms(1) c p] k assms(4)
  show ?thesis by auto
qed

end
