(* ===== verification/Asm2_StorageRoot.thy ===== *)
theory Asm2_StorageRoot
  imports Asm2_Preferences
begin

text \<open>
  Starting the store: \<open>asm2_android_set_storage_root\<close> loads the file, moves a corrupt one out of the
  way without losing it, and seeds the installer's preference. With the witnesses of the preference
  properties at a concrete store.
\<close>

section \<open>Quarantine\<close>

lemma and_then_ok_run: "and_then (IO_ok, w) g = g w"
  by (simp add: and_then_def)

lemma quarantine_name_neq [simp]: "quarantine_name path s n pid a \<noteq> path"
  by (simp add: quarantine_name_def cstr_def)

text \<open>What moving a file to a free name does.\<close>

definition moved_to_free_name :: "bytes \<Rightarrow> world \<Rightarrow> world \<Rightarrow> bool" where
  "moved_to_free_name path w w' \<longleftrightarrow>
     (\<exists>q. q \<noteq> path \<and> w_files w q = None \<and> w_files w' = (w_files w)(q := w_files w path, path := None))"

lemma rename_no_replace_effect:
  assumes "rename_no_replace path q w = (r, w')" "q \<noteq> path"
  shows "if r = IO_ok then w_files w q = None \<and> w_files w' = (w_files w)(q := w_files w path, path := None)
    else w_files w' = w_files w"
proof (cases w rule: sys_plain_cases)
  case (ok w1)
  with assms show ?thesis by (auto simp: rename_no_replace_def put_file_def split: if_splits)
next
  case (fail e w1)
  show ?thesis
  proof (cases "e = ENOSYS \<or> e = EINVAL")
    case True
    show ?thesis
    proof (cases w1 rule: sys_plain_cases)
      case (ok w2)
      with fail True assms rename_effect [of path q w2 r w'] show ?thesis
        by (auto simp: rename_no_replace_def split: if_splits)
    next
      case (fail f w2)
      with \<open>sys_plain w = _\<close> \<open>w_files w1 = _\<close> True assms rename_effect [of path q w2 r w'] show ?thesis
        by (auto simp: rename_no_replace_def split: if_splits)
    next
      case (killed w2)
      with \<open>sys_plain w = _\<close> \<open>w_files w1 = _\<close> True assms show ?thesis
        by (auto simp: rename_no_replace_def)
    qed
  next
    case False
    with fail assms show ?thesis by (auto simp: rename_no_replace_def)
  qed
next
  case (killed w1)
  with assms show ?thesis by (auto simp: rename_no_replace_def)
qed

lemma quarantine_attempts_effect:
  assumes "quarantine_attempts path name as e w = (r, w')" "\<And>a. name a \<noteq> path"
  shows "if r = IO_ok then moved_to_free_name path w w' else w_files w' = w_files w"
  using assms(1)
proof (induction "as" arbitrary: e w)
  case (Cons a "as")
  obtain r1 w1 where r1: "rename_no_replace path (name a) w = (r1, w1)" by fastforce
  note eff = rename_no_replace_effect [OF r1 assms(2)]
  show ?case
  proof (cases "length (name a) \<ge> length path + 96")
    case True
    with Cons.prems show ?thesis by auto
  next
    case False
    show ?thesis
    proof (cases r1)
      case IO_ok
      with False r1 Cons.prems eff assms(2) [of a] show ?thesis
        by (auto simp: moved_to_free_name_def)
    next
      case (IO_fail f)
      then have f: "w_files w1 = w_files w" using eff by simp
      show ?thesis
      proof (cases "f = EEXIST")
        case True
        with False IO_fail r1 Cons.prems have "quarantine_attempts path name as EEXIST w1 = (r, w')" by simp
        from Cons.IH [OF this] f show ?thesis
          by (cases "r = IO_ok") (simp_all add: moved_to_free_name_def)
      next
        case f': False
        with False IO_fail r1 Cons.prems f show ?thesis by auto
      qed
    next
      case IO_killed
      with False r1 Cons.prems eff show ?thesis by auto
    qed
  qed
qed auto

lemma quarantine_effect:
  assumes "quarantine_invalid_shared_store pid s n path directory w = (r, w')"
  shows "moved_to_free_name path w w' \<and> (r = IO_ok \<or> r = IO_killed)
    \<or> w_files w' = w_files w \<and> r \<noteq> IO_ok"
proof (cases w rule: sys_plain_cases)
  case (ok w1)
  obtain r2 w2 where r2: "quarantine_attempts path (quarantine_name path s n pid) [0..<100] EEXIST w1 = (r2, w2)"
    by fastforce
  have name: "\<And>a. quarantine_name path s n pid a \<noteq> path" by simp
  note eff = quarantine_attempts_effect [OF r2 name]
  obtain r3 w3 where r3: "sync_storage_directory directory w2 = (r3, w3)" by fastforce
  have f3: "w_files w3 = w_files w2" using sync_files [of directory w2] r3 by simp
  have q: "and_then (r2, w2) (\<lambda>w. case sync_storage_directory directory w of
      (IO_killed, w') \<Rightarrow> (IO_killed, w') | (_, w') \<Rightarrow> (IO_ok, w')) = (r, w')"
    using assms ok(1) r2 by (simp add: quarantine_invalid_shared_store_def and_then_ok_run)
  show ?thesis
  proof (cases "r2 = IO_ok")
    case True
    with q r3 have "w' = w3" "r = IO_ok \<or> r = IO_killed"
      by (auto simp: and_then_def split: io_outcome.splits)
    with True eff f3 ok(2) show ?thesis by (simp add: moved_to_free_name_def)
  next
    case False
    with q have "w' = w2" "r = r2" by (auto simp: and_then_def split: io_outcome.splits)
    with False eff ok(2) show ?thesis by simp
  qed
qed (use assms in \<open>auto simp: quarantine_invalid_shared_store_def and_then_def\<close>)

text \<open>Quarantine loses nothing: moving a corrupt store away either renames it, with its contents,
  to a name that was free and leaves every other file as it was, or changes no file at all and reports
  the failure; in particular no earlier quarantined file is ever overwritten.\<close>

theorem quarantine_keeps_data:
  assumes "quarantine_invalid_shared_store pid s n path directory w = (r, w')"
  shows "moved_to_free_name path w w' \<and> (r = IO_ok \<or> r = IO_killed)
    \<or> w_files w' = w_files w \<and> r \<noteq> IO_ok"
  using assms by (rule quarantine_effect)

definition corrupt_world :: world where
  "corrupt_world = \<lparr>w_files = (\<lambda>p. if p = cstr ''s'' then Some (Regular [1, 2, 3]) else None),
     w_answers = replicate 8 (Ans_ok 0)\<rparr>"

theorem quarantine_keeps_data_witness:
  "moved_to_free_name (cstr ''s'') corrupt_world
     (snd (quarantine_invalid_shared_store 7 17 5 (cstr ''s'') (cstr ''d'') corrupt_world))"
proof -
  let ?r = "quarantine_invalid_shared_store 7 17 5 (cstr ''s'') (cstr ''d'') corrupt_world"
  have k: "w_files (snd ?r) (cstr ''s'') = None" by code_simp
  have "?r = (fst ?r, snd ?r)" by simp
  from quarantine_keeps_data [OF this] show ?thesis
  proof
    assume "w_files (snd ?r) = w_files corrupt_world \<and> fst ?r \<noteq> IO_ok"
    with k show ?thesis by (simp add: corrupt_world_def)
  qed simp
qed

section \<open>The storage root\<close>

lemma make_directories_files: "w_files (snd (make_directories ps w)) = w_files w"
proof (induction ps arbitrary: w)
  case (Cons p ps)
  show ?case
    by (cases w rule: sys_plain_cases) (use Cons.IH in auto)
qed simp

lemma ensure_directory_files: "w_files (snd (ensure_directory_tree p w)) = w_files w"
  by (cases w rule: sys_plain_cases)
    (auto simp: ensure_directory_tree_def and_then_def make_directories_files split: option.split)

lemma close_read_files: "w_files (snd (read_and_close c w)) = w_files w"
proof -
  have "w_files (snd (and_then (sys_plain w) (\<lambda>w. let (r, got, as) = read_stream (w_answers w) c
      in and_then (r, w\<lparr>w_answers := as\<rparr>) sys_retry))) = w_files w"
    by (rule and_then_files) (auto simp: store_simps and_then_def split: prod.split io_outcome.split)
  then show ?thesis by (simp add: read_and_close_def store_simps)
qed

text \<open>What a load says about the file, and that it changes nothing.\<close>

lemma load_effect:
  assumes "shared_values_load_file mem p w = (status, w')"
  shows "w_files w' = w_files w
    \<and> (status = LOAD_MISSING \<longrightarrow> w_files w p = None)
    \<and> (\<forall>es. status = LOAD_OK es \<longrightarrow> (\<exists>c. w_files w p = Some (Regular c) \<and> 24 \<le> length c
         \<and> decode_store mem c = LOAD_OK es))"
proof (cases rule: sys_open_cases [of p w])
  case (ok w1 n)
  then have n: "w_files w1 p = Some n" by simp
  show ?thesis
  proof (cases w1 rule: sys_plain_cases)
    case (ok w2)
    obtain r3 w3 where r3: "sys_plain w2 = (r3, w3)" "w_files w3 = w_files w2"
      using sys_plain_files [of w2] by (cases "sys_plain w2") auto
    show ?thesis
    proof (cases n)
      case Special
      with ok \<open>sys_open p w = _\<close> \<open>w_files w1 = _\<close> n r3 assms show ?thesis
        by (cases r3) (auto simp: shared_values_load_file_def)
    next
      case (Regular c)
      obtain r4 w4 where r4: "read_and_close c w2 = (r4, w4)" "w_files w4 = w_files w2"
        using close_read_files [of c w2] by (cases "read_and_close c w2") auto
      have "decode_store mem c \<noteq> LOAD_MISSING"
      proof -
        have "parse_entries mem k s l \<noteq> LOAD_MISSING" for k s l
          by (induction mem k s l rule: parse_entries.induct) (auto simp: Let_def)
        then show ?thesis by (simp add: decode_store_def Let_def)
      qed
      with Regular ok \<open>sys_open p w = _\<close> \<open>w_files w1 = _\<close> \<open>w_files w p = _\<close> n r3 r4 assms show ?thesis
        by (cases r3; cases r4) (auto simp: shared_values_load_file_def split: if_splits)
    qed
  next
    case (fail e w2)
    obtain r3 w3 where "sys_plain w2 = (r3, w3)" "w_files w3 = w_files w2"
      using sys_plain_files [of w2] by (cases "sys_plain w2") auto
    with fail \<open>sys_open p w = _\<close> \<open>w_files w1 = _\<close> n assms show ?thesis
      by (cases r3) (auto simp: shared_values_load_file_def)
  next
    case (killed w2)
    with \<open>sys_open p w = _\<close> \<open>w_files w1 = _\<close> n assms show ?thesis
      by (auto simp: shared_values_load_file_def)
  qed
qed (use assms in \<open>auto simp: shared_values_load_file_def\<close>)

lemma shared_copy_Some:
  assumes "shared_value_copy m st (Some k) = Some v"
  shows "ds_lookup (st, w) k = Some v"
  using assms shared_value_copy_lookup [of st k w]
  by (cases m) (auto simp: shared_value_copy_def split: option.splits)

definition installer_key :: bytes where
  "installer_key = the (preference_storage_key True (Some (cstr ''GameActivityPrefs'')) (Some (cstr ''SDFolder'')))"

lemma installer_key_Some:
  "preference_storage_key m (Some (cstr ''GameActivityPrefs'')) (Some (cstr ''SDFolder'')) =
     (if m then Some installer_key else None)" "is_cstr installer_key"
proof -
  have l: "length (cstr ''GameActivityPrefs'') = 17" "length (cstr ''SDFolder'') = 8" "show_nat 17 = [49, 55]"
    by (simp_all add: cstr_def show_nat_def digits.simps [of 17] digits.simps [of "Suc 0"])
  have k: "preference_storage_key True (Some (cstr ''GameActivityPrefs'')) (Some (cstr ''SDFolder'')) = Some installer_key"
    unfolding installer_key_def preference_storage_key_def by (simp add: Let_def value_or_def l)
  then show "preference_storage_key m (Some (cstr ''GameActivityPrefs'')) (Some (cstr ''SDFolder'')) =
     (if m then Some installer_key else None)"
    by (cases m) (simp_all add: preference_storage_key_def Let_def)
  show "is_cstr installer_key"
    by (rule storage_key_cstr [OF k]) (simp_all add: cstr_def is_cstr_def)
qed

lemma ensure_installer_effect:
  assumes "ensure_installer_preferences mem pid rd st w = (Some True, st', w')" "ds_valid (st, w)"
    and "\<forall>d. rd = Some d \<longrightarrow> is_cstr d"
  shows "ds_valid (st', w') \<and> sh_storage st' = sh_storage st
    \<and> (\<exists>v. ds_lookup (st', w') installer_key = Some v \<and> tagged 115 v)
    \<and> (\<forall>k. k \<noteq> installer_key \<longrightarrow> ds_lookup (st', w') k = ds_lookup (st, w) k)"
proof -
  from assms(1) obtain d where d: "rd = Some d" "mem 0"
    by (auto simp: ensure_installer_preferences_def installer_key_Some split: option.splits if_splits)
  show ?thesis
  proof (cases "\<exists>saved \<in> set_option (shared_value_copy (mem 1) st (Some installer_key)). tagged 115 saved")
    case True
    then obtain v where "shared_value_copy (mem 1) st (Some installer_key) = Some v" "tagged 115 v" by auto
    moreover have "st' = st" "w' = w"
      using True assms(1) d by (simp_all add: ensure_installer_preferences_def installer_key_Some)
    ultimately show ?thesis using shared_copy_Some assms(2) by blast
  next
    case False
    then have s: "shared_value_set pid st w (Some installer_key) (Some (cstr ''s:'' @ d)) = (Some True, st', w')"
      using assms(1) d by (auto simp: ensure_installer_preferences_def installer_key_Some split: if_splits)
    have c: "is_cstr (cstr ''s:'' @ d)" using assms(3) d by (simp add: cstr_def is_cstr_def)
    have "ds_put pid (st, w) installer_key (cstr ''s:'' @ d) = (Some True, (st', w'))"
      using s by (simp add: ds_put_def)
    from ds.put_done [OF assms(2) installer_key_Some(2) c this]
    have "ds_valid (st', w')" "ds_lookup (st', w') = (ds_lookup (st, w))(installer_key \<mapsto> cstr ''s:'' @ d)"
      by auto
    moreover have "refines ((map_of (sh_entries st))(installer_key \<mapsto> cstr ''s:'' @ d)) st (Some True, st', w')"
      using shared_value_set_refines [OF _ _ installer_key_Some(2) c, of st w pid] assms(2) s
      by (simp add: ds_valid_def)
    then have "sh_storage st' = sh_storage st" by (simp add: refines_def)
    moreover have "tagged 115 (cstr ''s:'' @ d)" by (simp add: cstr_def)
    ultimately show ?thesis by simp
  qed
qed

lemma adopt_effect:
  assumes "ensure_installer_preferences mem pid rd st0 u = (Some True, st', w')"
    and "sh_storage st0 = Some (directory, path)" "sh_entries st0 = es"
    and "entries_ok es" "stored u path es" "\<forall>d. rd = Some d \<longrightarrow> is_cstr d"
  shows "sh_storage st' = Some (directory, path)" "ds_valid (st', w')"
    "\<exists>v. ds_lookup (st', w') installer_key = Some v \<and> tagged 115 v"
    "\<forall>k. k \<noteq> installer_key \<longrightarrow> ds_lookup (st', w') k = map_of es k"
proof -
  have "ds_valid (st0, u)" using assms(2-5) by (simp add: ds_valid_def synced_def)
  note i = ensure_installer_effect [OF assms(1) this assms(6)]
  have "ds_lookup (st0, u) = map_of es" using assms(3) by (simp add: ds_lookup_def)
  with i assms(2) show "sh_storage st' = Some (directory, path)" "ds_valid (st', w')"
    "\<exists>v. ds_lookup (st', w') installer_key = Some v \<and> tagged 115 v"
    "\<forall>k. k \<noteq> installer_key \<longrightarrow> ds_lookup (st', w') k = map_of es k" by auto
qed


section \<open>The properties at a concrete store\<close>

lemma ready_directories:
  "ready (length ps + n) w \<Longrightarrow> \<exists>w'. make_directories ps w = (IO_ok, w') \<and> w_files w' = w_files w \<and> ready n w'"
proof (induction ps arbitrary: w)
  case (Cons p ps)
  have "ready (Suc (length ps + n)) w" using Cons.prems by simp
  then obtain w1 where 1: "sys_plain w = (IO_ok, w1)" "w_files w1 = w_files w" "ready (length ps + n) w1"
    by (rule ready_plain)
  from Cons.IH [OF 1(3)] 1 show ?case by auto
qed simp

lemma directory_prefixes_length: "length (directory_prefixes p) \<le> Suc (length p)"
proof -
  have "length (strip_slashes p) \<le> length p"
    by (cases p) (simp_all add: length_dropWhile_le [THEN le_trans])
  moreover have "length (filter P (map f (filter Q [a..<Suc n]))) \<le> Suc n" for P f Q and a n :: nat
  proof -
    have "length (filter P (map f (filter Q [a..<Suc n]))) \<le> length (map f (filter Q [a..<Suc n]))"
      by (rule length_filter_le)
    also have "\<dots> \<le> length [a..<Suc n]" unfolding length_map by (rule length_filter_le)
    also have "\<dots> \<le> Suc n" unfolding length_upt by (rule diff_le_self)
    finally show ?thesis .
  qed
  then have "length (directory_prefixes p) \<le> Suc (length (strip_slashes p))"
    unfolding directory_prefixes_def Let_def .
  ultimately show ?thesis by simp
qed

lemma ready_ensure_directory:
  assumes "ready (Suc (Suc (length p) + n)) w" "p \<noteq> []"
  obtains w' where "ensure_directory_tree (Some p) w = (IO_ok, w')" "w_files w' = w_files w" "ready n w'"
proof -
  obtain w1 where 1: "sys_plain w = (IO_ok, w1)" "w_files w1 = w_files w" "ready (Suc (length p) + n) w1"
    using assms(1) by (rule ready_plain)
  have "length (directory_prefixes p) + n \<le> Suc (length p) + n"
    using directory_prefixes_length [of p] by (rule add_right_mono)
  with 1(3) have "ready (length (directory_prefixes p) + n) w1" by (rule ready_fewer)
  from ready_directories [OF this] obtain w2 where "make_directories (directory_prefixes p) w1 = (IO_ok, w2)"
    "w_files w2 = w_files w1" "ready n w2" by blast
  with 1 assms(2) have "ensure_directory_tree (Some p) w = (IO_ok, w2)" "w_files w2 = w_files w" "ready n w2"
    by (simp_all add: ensure_directory_tree_def and_then_ok_run)
  then show thesis by (rule that)
qed

definition fresh_world :: world where
  "fresh_world = \<lparr>w_files = (\<lambda>_. None), w_answers = replicate 100 (Ans_ok 33686552)\<rparr>"

definition fresh_state :: android_store where
  "fresh_state = \<lparr>sh_entries = [], sh_storage = None, sh_mutex_initialized = True, sh_locked = False\<rparr>"

definition first_start :: store_result where
  "first_start = set_storage_root (\<lambda>_. True) (\<lambda>_. True) 1 0 0 (Some (cstr ''/sdcard'')) fresh_state
     fresh_world (Some (cstr ''g''))"

lemma first_start_succeeds: "fst first_start = Some True"
proof -
  define directory where "directory = cstr ''g/'' @ shared_directory"
  define path where "path = directory @ cstr ''/datasharing-v1.bin''"
  have j: "join_storage_path (Some (cstr ''g'')) (Some shared_directory) = Some directory"
    "join_storage_path (Some directory) (Some shared_filename) = Some path"
    by (simp_all add: join_storage_path_def directory_def path_def shared_directory_def shared_filename_def cstr_def)
  have len: "length directory = 61" "directory \<noteq> []"
    by (simp_all add: directory_def shared_directory_def cstr_def)
  have "ready 100 fresh_world" by (auto simp: ready_def fresh_world_def)
  then have "ready (Suc (Suc (length directory) + 14)) fresh_world" by (rule ready_fewer) (simp add: len)
  then obtain w1 where 1: "ensure_directory_tree (Some directory) fresh_world = (IO_ok, w1)"
    "w_files w1 = w_files fresh_world" "ready 14 w1"
    using len(2) by (rule ready_ensure_directory)
  have "ready (Suc 13) w1" using 1(3) by simp
  then obtain w2 where 2: "sys_plain w1 = (IO_ok, w2)" "w_files w2 = w_files w1" "ready 13 w2"
    by (rule ready_plain)
  have none: "w_files w2 p = None" for p using 1(2) 2(2) by (simp add: fresh_world_def)
  have l: "shared_values_load_file (\<lambda>_. True) path w1 = (LOAD_MISSING, w2)"
    using 2 none by (simp add: shared_values_load_file_def sys_open_def)
  define st where "st = unlock_store ((lock_store fresh_state)\<lparr>sh_storage := Some (directory, path), sh_entries := []\<rparr>)"
  have st: "sh_entries st = []" by (simp add: st_def unlock_store_def lock_store_def)
  from installer_key_Some(1) [of True] obtain k where "length installer_key \<le> 1024"
    "installer_key = preference_key_prefix @ show_nat (length (value_or [] (Some (cstr ''GameActivityPrefs''))))
      @ [58] @ value_or [] (Some (cstr ''GameActivityPrefs'')) @ [58] @ k"
    by (auto elim: storage_key_Some)
  moreover from this(2) have "installer_key \<noteq> []"
    by (metis append_is_Nil_conv length_prefix list.size(3) zero_neq_numeral)
  then have "1 \<le> length installer_key" using length_greater_0_conv [of installer_key] by linarith
  ultimately have k: "1 \<le> length installer_key" "length installer_key \<le> 1024" by simp_all
  have "fst (shared_value_set 1 st w2 (Some installer_key) (Some (cstr ''s:'' @ cstr ''/sdcard''))) = Some True"
    using st none installer_key_Some(2) k 2(3)
    by (intro set_succeeds)
      (simp_all add: entries_ok_def cstr_def is_cstr_def show_nat_def digits.simps [of "Suc 0"])
  moreover have "shared_value_copy True st (Some installer_key) = None"
    by (simp add: shared_value_copy_def shared_value_index_def st)
  ultimately have "fst (ensure_installer_preferences (\<lambda>_. True) 1 (Some (cstr ''/sdcard'')) st w2) = Some True"
    by (simp add: ensure_installer_preferences_def installer_key_Some) (simp add: cstr_def)
  then show ?thesis
    using j 1(1) l by (simp add: first_start_def set_storage_root_def st_def)
qed


definition set_request :: jbundle where
  "set_request = Some [(key_type, B_int 0), (key_key, B_string (Some (cstr ''k''))), (key_data, B_int (-7))]"

definition get_request :: "(bytes \<times> bundle_value) list" where
  "get_request = [(key_key, B_string (Some (cstr ''k''))), (key_default, B_int 5)]"

definition after_set :: store_result where
  "after_set = preference_set (\<lambda>_. True) 1 sample_store sample_world set_request"

lemma request_facts:
  "bundle_ok set_request" "request_type set_request = 0" "request_type (Some get_request) = 0"
  "request_key (Some get_request) = request_key set_request"
  "request_key set_request = Some (preference_key_prefix @ cstr ''0::k'')"
  "encode_preference set_request 0 = Some (cstr ''i:-7'')"
  "preference_field key_data set_request 0 = B_int (-7)"
  by (auto simp: set_request_def get_request_def bundle_ok_def bundle_get_def fits_i32_def is_cstr_def
      request_type_def request_key_def bundle_get_int_def bundle_get_string_def value_or_def cstr_def
      preference_storage_key_def Let_def show_nat_def digits.simps [of 0] digits.simps [of 7]
      encode_preference_def show_int_def preference_field_def split: if_splits)

lemma after_set_succeeds: "fst after_set = Some True"
proof -
  have "is_cstr (preference_key_prefix @ cstr ''0::k'')" "is_cstr (cstr ''i:-7'')"
    by (simp_all add: preference_key_prefix_def cstr_def is_cstr_def)
  then have "fst (shared_value_set 1 sample_store sample_world (Some (preference_key_prefix @ cstr ''0::k''))
      (Some (cstr ''i:-7''))) = Some True"
    using sample_ready(1) sample_ok
    by (intro set_succeeds)
      (simp_all add: sample_store_def sample_world_def cstr_def show_nat_def digits.simps [of "Suc 0"])
  then show ?thesis
    using request_facts(2,5,6)
    by (simp add: after_set_def preference_set_def request_type_def request_key_def Let_def)
qed

lemma after_set_result:
  "preference_set (\<lambda>_. True) 1 sample_store sample_world set_request =
     (Some True, fst (snd after_set), snd (snd after_set))"
  using after_set_succeeds by (simp add: after_set_def prod_eq_iff)

lemma sample_valid: "ds_valid (sample_store, sample_world)"
  using sample_ok by (simp add: ds_valid_def)

theorem preference_round_trip_witness:
  "bundle_get (preference_get (\<lambda>_. True) (fst (snd after_set)) (Some get_request)) key_result = Some (B_int (-7))"
  using preference_round_trip [OF sample_valid request_facts(1) _ _ after_set_result, of get_request]
    request_facts by simp

theorem preference_set_isolated_witness:
  "ds_lookup (fst (snd after_set), snd (snd after_set)) (cstr ''public'') = None
   \<and> ds_valid (fst (snd after_set), snd (snd after_set))"
proof -
  have "request_key set_request \<noteq> Some (cstr ''public'')"
    using request_facts(5) by (simp add: preference_key_prefix_def cstr_def)
  from preference_set_isolated [OF sample_valid request_facts(1) after_set_result this]
  show ?thesis by (simp add: ds_lookup_def sample_store_def)
qed

end
