(* ===== verification/Asm2_BridgeRegistry.thy ===== *)
theory Asm2_BridgeRegistry
  imports Asm2_Prelude "HOL-Library.Monad_Syntax"
begin

text \<open>
  The guest-handle registry of \<open>src/asm2_127/src/pthread_bridge.c\<close>.  A guest object exposes one
  32-bit word; while it is live that word holds the address of a host wrapper.  The wrappers form
  256 singly linked bucket chains and are never freed once published; a destroyed wrapper moves
  to the retired list.

  The wrappers live in an explicit heap (a map from addresses), the chains are the
  \<open>active_next\<close> pointers in it, and the two loops over a chain are \<open>partial_function (option)\<close>:
  their value is \<open>None\<close> when the loop does not end or follows a pointer to no wrapper.  The
  allocator and the host functions that may fail answer from lists kept in the state
  (\<open>br_allocs\<close>, \<open>br_replies\<close>), so every theorem holds for every behaviour of them.  One call
  of the bridge is one step: the registry mutex, and the publication order that lets readers do
  without it, are not represented.
\<close>

section \<open>Error numbers\<close>

abbreviation (input) e_perm :: int where "e_perm \<equiv> 1"
abbreviation (input) e_again :: int where "e_again \<equiv> 11"
abbreviation (input) e_nomem :: int where "e_nomem \<equiv> 12"
abbreviation (input) e_busy :: int where "e_busy \<equiv> 16"
abbreviation (input) e_inval :: int where "e_inval \<equiv> 22"
abbreviation (input) e_deadlk :: int where "e_deadlk \<equiv> 35"
abbreviation (input) e_nosys :: int where "e_nosys \<equiv> 38"
abbreviation (input) e_overflow :: int where "e_overflow \<equiv> 75"
abbreviation (input) e_timedout :: int where "e_timedout \<equiv> 110"

section \<open>Host objects\<close>

text \<open>
  The host's mutex: its type (\<open>-1\<close> once destroyed), the thread that holds it, how often, and how
  many threads wait on a condition variable with it.
\<close>

record host_mutex =
  hm_type :: int
  hm_holder :: "u32 option"
  hm_count :: nat
  hm_users :: nat

datatype object_kind = Kind_attr | Kind_mutex_attr | Kind_mutex | Kind_cond | Kind_sem

text \<open>The union of the wrapper; \<open>Host_none\<close> is the memory as \<open>calloc\<close> returned it.\<close>

datatype host_union =
    Host_none
  | Host_attr bool u32
  | Host_mutex_attr int
  | Host_mutex host_mutex
  | Host_cond nat
  | Host_sem nat

record bridge_object =
  bo_magic :: u32
  bo_kind :: object_kind
  bo_active :: bool
  bo_owner :: u32
  bo_raw :: u32
  bo_mutex_type :: int
  bo_mutex_owner :: u32
  bo_mutex_depth :: u32
  bo_next :: u32
  bo_retired_next :: u32
  bo_host :: host_union

definition bridge_magic :: u32 where
  "bridge_magic = 0x41313237"

definition bucket_count :: nat where
  "bucket_count = 256"

type_synonym wrapper_heap = "u32 \<Rightarrow> bridge_object option"

text \<open>Calls passed through to the host that no state of the bridge depends on.\<close>

datatype host_event =
    Ev_create u32 u32 u32
  | Ev_detach u64
  | Ev_join u64 u32
  | Ev_getschedparam u64 u32 u32
  | Ev_setschedparam u64 int u32
  | Ev_key_create u32
  | Ev_key_delete u32

record bridge =
  br_heap :: wrapper_heap
  br_buckets :: "nat \<Rightarrow> u32"
  br_retired :: u32
  br_created :: u64
  br_active :: u64
  br_retirements :: u64
  br_handoffs :: u64
  br_guest :: "u32 \<Rightarrow> u32"
  br_allocs :: "nat option list"
  br_replies :: "int list"
  br_errno :: int
  br_waiting :: "(u32 \<times> u32 \<times> u32) list"
  br_stack_size :: u32
  br_threads :: "u64 list"
  br_keys :: "u32 list"
  br_specific :: "u32 \<times> u32 \<Rightarrow> u32"
  br_log :: "host_event list"

section \<open>Buckets and lookup\<close>

definition slot_load :: "u32 \<Rightarrow> bridge \<Rightarrow> u32" where
  "slot_load slot s = br_guest s slot"

definition slot_store :: "u32 \<Rightarrow> u32 \<Rightarrow> bridge \<Rightarrow> bridge" where
  "slot_store slot v s = s\<lparr>br_guest := (br_guest s)(slot := v)\<rparr>"

definition registry_bucket :: "u32 \<Rightarrow> nat" where
  "registry_bucket raw =
     (let r1 = raw XOR drop_bit 16 raw;
          r2 = r1 XOR drop_bit 8 r1
      in unat (r2 AND 255))"

partial_function (option) find_from ::
  "wrapper_heap \<Rightarrow> u32 \<Rightarrow> u32 \<Rightarrow> object_kind \<Rightarrow> u32 \<Rightarrow> u32 option" where
  "find_from h raw owner kind a =
     (if a = 0 then Some 0
      else case h a of
        None \<Rightarrow> None
      | Some ob \<Rightarrow>
          if bo_raw ob = raw \<and> bo_owner ob = owner \<and> bo_magic ob = bridge_magic
             \<and> bo_kind ob = kind \<and> bo_active ob
          then Some a
          else find_from h raw owner kind (bo_next ob))"

text \<open>The value 0 is the null pointer: no active wrapper of this kind belongs to the slot.\<close>

definition registry_find :: "u32 \<Rightarrow> u32 \<Rightarrow> object_kind \<Rightarrow> bridge \<Rightarrow> u32 option" where
  "registry_find raw owner kind s =
     (if raw = 0 then Some 0
      else find_from (br_heap s) raw owner kind (br_buckets s (registry_bucket raw)))"

section \<open>Allocation, publication, retirement\<close>

text \<open>
  \<open>calloc\<close> answers with no block or with the address of a block that is not in use; an answer
  in the list that names a live wrapper is no answer of an allocator and counts as a failure.
\<close>

definition calloc_wrapper :: "bridge \<Rightarrow> nat option \<times> bridge" where
  "calloc_wrapper s =
     (case br_allocs s of
        [] \<Rightarrow> (None, s)
      | reply # rest \<Rightarrow>
          let s1 = s\<lparr>br_allocs := rest\<rparr>
          in case reply of
               None \<Rightarrow> (None, s1)
             | Some address \<Rightarrow>
                 if address < 2 ^ 32 \<and> br_heap s (of_nat address) \<noteq> None then (None, s1)
                 else (Some address, s1))"

definition fresh_object :: "u32 \<Rightarrow> u32 \<Rightarrow> object_kind \<Rightarrow> bridge_object" where
  "fresh_object raw owner kind =
     \<lparr>bo_magic = bridge_magic, bo_kind = kind, bo_active = True, bo_owner = owner,
      bo_raw = raw, bo_mutex_type = 0, bo_mutex_owner = 0, bo_mutex_depth = 0,
      bo_next = 0, bo_retired_next = 0, bo_host = Host_none\<rparr>"

definition object_allocate_locked ::
  "u32 \<Rightarrow> object_kind \<Rightarrow> bridge \<Rightarrow> int \<times> u32 \<times> bridge" where
  "object_allocate_locked owner kind s =
     (case calloc_wrapper s of
        (None, s1) \<Rightarrow> (e_nomem, 0, s1)
      | (Some address, s1) \<Rightarrow>
          if address = 0 \<or> address > 0xFFFFFFFF then (e_overflow, 0, s1)
          else
            let a = of_nat address
            in (0, a, s1\<lparr>br_heap := (br_heap s1)(a \<mapsto> fresh_object a owner kind)\<rparr>))"

definition free_object :: "u32 \<Rightarrow> bridge \<Rightarrow> bridge" where
  "free_object a s = s\<lparr>br_heap := (br_heap s)(a := None)\<rparr>"

definition object_publish_locked :: "u32 \<Rightarrow> bridge \<Rightarrow> bridge option" where
  "object_publish_locked a s = do {
     ob \<leftarrow> br_heap s a;
     let bucket = registry_bucket (bo_raw ob);
     let s1 = s\<lparr>br_heap := (br_heap s)(a \<mapsto> ob\<lparr>bo_next := br_buckets s bucket\<rparr>),
                br_buckets := (br_buckets s)(bucket := a)\<rparr>;
     let s2 = slot_store (bo_owner ob) (bo_raw ob) s1;
     Some (s2\<lparr>br_created := br_created s2 + 1, br_active := br_active s2 + 1\<rparr>)
   }"

text \<open>
  The walk to the link that points at the wrapper: the link is the bucket head (\<open>None\<close>) or the
  \<open>active_next\<close> field of a wrapper.
\<close>

definition link_load :: "u32 option \<Rightarrow> nat \<Rightarrow> bridge \<Rightarrow> u32 option" where
  "link_load link bucket s =
     (case link of
        None \<Rightarrow> Some (br_buckets s bucket)
      | Some p \<Rightarrow> map_option bo_next (br_heap s p))"

definition link_store :: "u32 option \<Rightarrow> nat \<Rightarrow> u32 \<Rightarrow> bridge \<Rightarrow> bridge" where
  "link_store link bucket v s =
     (case link of
        None \<Rightarrow> s\<lparr>br_buckets := (br_buckets s)(bucket := v)\<rparr>
      | Some p \<Rightarrow> s\<lparr>br_heap := (br_heap s)(p := map_option (\<lambda>ob. ob\<lparr>bo_next := v\<rparr>) (br_heap s p))\<rparr>)"

partial_function (option) unlink_from ::
  "u32 option \<Rightarrow> nat \<Rightarrow> u32 \<Rightarrow> bridge \<Rightarrow> bridge option" where
  "unlink_from link bucket a s =
     (case link_load link bucket s of
        None \<Rightarrow> None
      | Some current \<Rightarrow>
          if current \<noteq> 0 \<and> current \<noteq> a then unlink_from (Some current) bucket a s
          else if current = a then
            (case br_heap s a of
               None \<Rightarrow> None
             | Some ob \<Rightarrow> Some (link_store link bucket (bo_next ob) s))
          else Some s)"

definition object_retire_locked :: "u32 \<Rightarrow> bridge \<Rightarrow> bridge option" where
  "object_retire_locked a s = do {
     ob \<leftarrow> br_heap s a;
     let bucket = registry_bucket (bo_raw ob);
     let s1 = s\<lparr>br_heap := (br_heap s)(a \<mapsto> ob\<lparr>bo_active := False\<rparr>)\<rparr>;
     let s2 = slot_store (bo_owner ob) 0 s1;
     s3 \<leftarrow> unlink_from None bucket a s2;
     ob3 \<leftarrow> br_heap s3 a;
     let s4 = s3\<lparr>br_heap := (br_heap s3)(a \<mapsto> ob3\<lparr>bo_retired_next := br_retired s3\<rparr>),
                 br_retired := a\<rparr>;
     let s5 = (if br_active s4 \<noteq> 0 then s4\<lparr>br_active := br_active s4 - 1\<rparr> else s4);
     Some (s5\<lparr>br_retirements := br_retirements s5 + 1\<rparr>)
   }"

section \<open>Statistics\<close>

record bridge_stats =
  bs_created :: u64
  bs_active :: u64
  bs_retired :: u64
  bs_handoffs :: u64
  bs_longest :: u32

partial_function (option) chain_length :: "wrapper_heap \<Rightarrow> u32 \<Rightarrow> u32 \<Rightarrow> u32 option" where
  "chain_length h n a =
     (if a = 0 then Some n
      else case h a of
        None \<Rightarrow> None
      | Some ob \<Rightarrow> chain_length h (n + 1) (bo_next ob))"

fun longest_chain :: "bridge \<Rightarrow> nat list \<Rightarrow> u32 \<Rightarrow> u32 option" where
  "longest_chain s [] m = Some m"
| "longest_chain s (b # bs) m = do {
     n \<leftarrow> chain_length (br_heap s) 0 (br_buckets s b);
     longest_chain s bs (if n > m then n else m)
   }"

definition asm2_pthread_bridge_get_stats :: "bridge \<Rightarrow> bridge_stats option" where
  "asm2_pthread_bridge_get_stats s = do {
     m \<leftarrow> longest_chain s [0..<bucket_count] 0;
     Some \<lparr>bs_created = br_created s, bs_active = br_active s, bs_retired = br_retirements s,
           bs_handoffs = br_handoffs s, bs_longest = m\<rparr>
   }"

definition object_already_active_locked :: "u32 \<Rightarrow> object_kind \<Rightarrow> bridge \<Rightarrow> bool option" where
  "object_already_active_locked slot kind s =
     map_option (\<lambda>a. a \<noteq> 0) (registry_find (slot_load slot s) slot kind s)"

text \<open>Address and error; the address 0 is the null pointer.\<close>

definition object_get :: "u32 \<Rightarrow> object_kind \<Rightarrow> bridge \<Rightarrow> (u32 \<times> int) option" where
  "object_get guest_object kind s =
     (if guest_object = 0 then Some (0, e_inval)
      else map_option (\<lambda>a. (a, if a \<noteq> 0 then 0 else e_inval))
             (registry_find (slot_load guest_object s) guest_object kind s))"

end
