(* ===== verification/Asm2_RegistryInv.thy ===== *)
theory Asm2_RegistryInv
  imports Asm2_BridgeRegistry
begin

text \<open>
  The invariant of the guest-handle registry: every bucket heads an acyclic chain of active
  wrappers that hash to it, every active wrapper is in its chain, and the active count is the
  number of them.  Under it the loops end, and lookup is a test of the wrapper at the address
  the guest word names.
\<close>

section \<open>Linked chains\<close>

fun chain :: "wrapper_heap \<Rightarrow> u32 \<Rightarrow> u32 list \<Rightarrow> bool" where
  "chain h a [] \<longleftrightarrow> a = 0"
| "chain h a (x # xs) \<longleftrightarrow> a = x \<and> x \<noteq> 0 \<and> (\<exists>ob. h x = Some ob \<and> chain h (bo_next ob) xs)"

lemma chain_unique: "chain h a xs \<Longrightarrow> chain h a ys \<Longrightarrow> xs = ys"
proof (induction xs arbitrary: a ys)
  case Nil
  then show ?case by (cases ys) auto
next
  case (Cons x xs)
  then show ?case by (cases ys) auto
qed

lemma chain_upd_other:
  "p \<notin> set xs \<Longrightarrow> chain (h(p := v)) a xs \<longleftrightarrow> chain h a xs"
  by (induction xs arbitrary: a) auto

lemma chain_upd_keep:
  assumes "h p = Some ob" "bo_next ob' = bo_next ob"
  shows "chain (h(p \<mapsto> ob')) a xs \<longleftrightarrow> chain h a xs"
  using assms by (induction xs arbitrary: a) auto

lemma chain_heap_cong:
  "(\<And>p. p \<in> set xs \<Longrightarrow> h p = k p) \<Longrightarrow> chain h a xs \<longleftrightarrow> chain k a xs"
  by (induction xs arbitrary: a) auto

lemma chain_zero_notin: "chain h a xs \<Longrightarrow> 0 \<notin> set xs"
  by (induction xs arbitrary: a) auto

lemma chain_dom: "chain h a xs \<Longrightarrow> x \<in> set xs \<Longrightarrow> \<exists>ob. h x = Some ob"
  by (induction xs arbitrary: a) auto

definition entry_matches :: "wrapper_heap \<Rightarrow> u32 \<Rightarrow> u32 \<Rightarrow> object_kind \<Rightarrow> u32 \<Rightarrow> bool" where
  "entry_matches h raw owner kind a \<longleftrightarrow>
     (case h a of None \<Rightarrow> False
      | Some ob \<Rightarrow> bo_raw ob = raw \<and> bo_owner ob = owner \<and> bo_magic ob = bridge_magic
          \<and> bo_kind ob = kind \<and> bo_active ob)"

lemma find_from_chain:
  assumes "chain h a xs"
  shows "find_from h raw owner kind a
    = Some (case List.find (entry_matches h raw owner kind) xs of None \<Rightarrow> 0 | Some x \<Rightarrow> x)"
  using assms
proof (induction xs arbitrary: a)
  case Nil
  then show ?case by (simp add: find_from.simps)
next
  case (Cons x xs)
  then obtain ob where "a = x" "x \<noteq> 0" "h x = Some ob" "chain h (bo_next ob) xs" by auto
  note c = this
  have "find_from h raw owner kind x = (if entry_matches h raw owner kind x then Some x
      else find_from h raw owner kind (bo_next ob))"
    using c by (subst find_from.simps) (simp add: entry_matches_def)
  with c Cons.IH show ?case by simp
qed

lemma chain_length_chain:
  assumes "chain h a xs"
  shows "chain_length h n a = Some (n + of_nat (length xs))"
  using assms
proof (induction xs arbitrary: a n)
  case Nil
  then show ?case by (simp add: chain_length.simps)
next
  case (Cons x xs)
  then obtain ob where "a = x" "x \<noteq> 0" "h x = Some ob" "chain h (bo_next ob) xs" by auto
  with Cons.IH [of "bo_next ob" "n + 1"] show ?case
    by (subst chain_length.simps) (simp add: algebra_simps)
qed

section \<open>The invariant\<close>

definition entry_ok :: "wrapper_heap \<Rightarrow> nat \<Rightarrow> u32 \<Rightarrow> bool" where
  "entry_ok h b a \<longleftrightarrow>
     (\<exists>ob. h a = Some ob \<and> bo_active ob \<and> bo_magic ob = bridge_magic \<and> bo_raw ob = a
        \<and> registry_bucket a = b)"

definition active_set :: "wrapper_heap \<Rightarrow> u32 set" where
  "active_set h = {a. \<exists>ob. h a = Some ob \<and> bo_active ob}"

definition bucket_ok :: "wrapper_heap \<Rightarrow> (nat \<Rightarrow> u32) \<Rightarrow> nat \<Rightarrow> u32 list \<Rightarrow> bool" where
  "bucket_ok h bs b xs \<longleftrightarrow> chain h (bs b) xs \<and> distinct xs \<and> (\<forall>a\<in>set xs. entry_ok h b a)"

definition registry_inv :: "bridge \<Rightarrow> bool" where
  "registry_inv s \<longleftrightarrow>
     br_heap s 0 = None
     \<and> (\<forall>b. \<exists>xs. bucket_ok (br_heap s) (br_buckets s) b xs)
     \<and> (\<forall>a\<in>active_set (br_heap s). \<forall>xs.
          chain (br_heap s) (br_buckets s (registry_bucket a)) xs \<longrightarrow> a \<in> set xs)
     \<and> br_active s = of_nat (card (active_set (br_heap s)))"

lemma registry_inv_chain:
  assumes "registry_inv s"
  obtains xs where "bucket_ok (br_heap s) (br_buckets s) b xs"
    and "\<And>a. registry_bucket a = b \<Longrightarrow> a \<in> active_set (br_heap s) \<longleftrightarrow> a \<in> set xs"
proof -
  from assms obtain xs where b: "bucket_ok (br_heap s) (br_buckets s) b xs"
    unfolding registry_inv_def by blast
  have "a \<in> active_set (br_heap s) \<longleftrightarrow> a \<in> set xs" if "registry_bucket a = b" for a
    using assms b that unfolding registry_inv_def bucket_ok_def entry_ok_def active_set_def
    by blast
  with b show ?thesis using that by blast
qed

text \<open>What lookup decides: the guest word is the address of an active wrapper of this owner and kind.\<close>

definition live_handle :: "bridge \<Rightarrow> u32 \<Rightarrow> u32 \<Rightarrow> object_kind \<Rightarrow> bool" where
  "live_handle s raw owner kind \<longleftrightarrow>
     (\<exists>ob. br_heap s raw = Some ob \<and> bo_active ob \<and> bo_owner ob = owner \<and> bo_kind ob = kind)"

lemma find_unique_entry:
  assumes "\<And>x. x \<in> set xs \<Longrightarrow> P x \<Longrightarrow> x = a"
  shows "List.find P xs = (if a \<in> set xs \<and> P a then Some a else None)"
  using assms by (induction xs) auto

lemma active_entry_fields:
  assumes "registry_inv s" "br_heap s a = Some ob" "bo_active ob"
  shows "bo_raw ob = a" "bo_magic ob = bridge_magic" "a \<noteq> 0"
proof -
  from assms(1) obtain xs where xs: "bucket_ok (br_heap s) (br_buckets s) (registry_bucket a) xs"
    "\<And>x. registry_bucket x = registry_bucket a \<Longrightarrow> x \<in> active_set (br_heap s) \<longleftrightarrow> x \<in> set xs"
    using registry_inv_chain [OF assms(1), where b = "registry_bucket a"] by metis
  from assms xs(2) have "a \<in> set xs" by (auto simp: active_set_def)
  with xs(1) assms(2) show "bo_raw ob = a" "bo_magic ob = bridge_magic"
    by (auto simp: bucket_ok_def entry_ok_def)
  from assms show "a \<noteq> 0" by (auto simp: registry_inv_def)
qed

lemma registry_find_eq:
  assumes inv: "registry_inv s"
  shows "registry_find raw owner kind s = Some (if live_handle s raw owner kind then raw else 0)"
proof (cases "raw = 0")
  case True
  with inv show ?thesis by (simp add: registry_find_def live_handle_def)
next
  case False
  obtain xs where xs: "bucket_ok (br_heap s) (br_buckets s) (registry_bucket raw) xs"
    and act: "\<And>a. registry_bucket a = registry_bucket raw
      \<Longrightarrow> a \<in> active_set (br_heap s) \<longleftrightarrow> a \<in> set xs"
    using registry_inv_chain [OF inv, where b = "registry_bucket raw"] by metis
  have m: "x = raw" if "x \<in> set xs" "entry_matches (br_heap s) raw owner kind x" for x
    using that xs by (auto simp: bucket_ok_def entry_ok_def entry_matches_def)
  have "List.find (entry_matches (br_heap s) raw owner kind) xs
      = (if raw \<in> set xs \<and> entry_matches (br_heap s) raw owner kind raw then Some raw else None)"
    by (rule find_unique_entry) (rule m)
  moreover have "raw \<in> set xs \<and> entry_matches (br_heap s) raw owner kind raw
      \<longleftrightarrow> live_handle s raw owner kind"
    using act [of raw] active_entry_fields [OF inv, of raw]
    by (auto simp: live_handle_def entry_matches_def active_set_def split: option.splits)
  ultimately show ?thesis
    using False find_from_chain [of "br_heap s" "br_buckets s (registry_bucket raw)" xs raw owner kind] xs
    by (simp add: registry_find_def bucket_ok_def)
qed

lemma object_already_active_eq:
  assumes "registry_inv s"
  shows "object_already_active_locked slot kind s
    = Some (live_handle s (slot_load slot s) slot kind)"
  using assms by (auto simp: object_already_active_locked_def registry_find_eq live_handle_def registry_inv_def)

lemma object_get_eq:
  assumes "registry_inv s"
  shows "object_get g kind s
    = Some (if g \<noteq> 0 \<and> live_handle s (slot_load g s) g kind then (slot_load g s, 0) else (0, e_inval))"
  using assms by (auto simp: object_get_def registry_find_eq live_handle_def registry_inv_def)

section \<open>Publication\<close>

text \<open>
  A wrapper under construction: \<open>s\<close> is \<open>s0\<close> with one block more, not yet in a chain, and whatever
  the host functions changed.
\<close>

definition under_construction :: "bridge \<Rightarrow> u32 \<Rightarrow> bridge \<Rightarrow> bool" where
  "under_construction s0 a s \<longleftrightarrow>
     br_heap s0 a = None \<and> a \<noteq> 0
     \<and> (\<exists>ob. br_heap s = (br_heap s0)(a \<mapsto> ob) \<and> bo_active ob \<and> bo_magic ob = bridge_magic
          \<and> bo_raw ob = a)
     \<and> br_buckets s = br_buckets s0 \<and> br_active s = br_active s0"

lemma bucket_ok_upd_other:
  assumes "p \<notin> set xs"
  shows "bucket_ok (h(p := v)) (bs) b xs \<longleftrightarrow> bucket_ok h bs b xs"
proof -
  from assms have "(\<forall>a\<in>set xs. entry_ok (h(p := v)) b a) \<longleftrightarrow> (\<forall>a\<in>set xs. entry_ok h b a)"
    by (auto simp: entry_ok_def)
  with assms show ?thesis by (simp add: bucket_ok_def chain_upd_other)
qed

lemma bucket_ok_head: "bucket_ok h bs b xs \<longleftrightarrow> bucket_ok h (\<lambda>_. bs b) b xs"
  by (simp add: bucket_ok_def)

lemma bucket_ok_not_active:
  "bucket_ok h bs b xs \<Longrightarrow> a \<notin> active_set h \<Longrightarrow> a \<notin> set xs"
  by (auto simp: bucket_ok_def entry_ok_def active_set_def)

lemma registry_invI:
  assumes "br_heap s 0 = None"
    and "\<And>b. bucket_ok (br_heap s) (br_buckets s) b (cs b)"
    and "\<And>a. a \<in> active_set (br_heap s) \<Longrightarrow> a \<in> set (cs (registry_bucket a))"
    and "br_active s = of_nat (card (active_set (br_heap s)))"
  shows "registry_inv s"
  unfolding registry_inv_def
proof (intro conjI allI ballI impI)
  fix a xs assume "a \<in> active_set (br_heap s)"
    and "chain (br_heap s) (br_buckets s (registry_bucket a)) xs"
  then show "a \<in> set xs"
    using assms(2) [of "registry_bucket a"] assms(3) [of a]
    by (auto simp: bucket_ok_def dest: chain_unique)
qed (use assms in blast)+

lemma registry_invE:
  assumes "registry_inv s"
  obtains cs where "\<And>b. bucket_ok (br_heap s) (br_buckets s) b (cs b)"
    and "\<And>a. a \<in> active_set (br_heap s) \<longleftrightarrow> a \<in> set (cs (registry_bucket a))"
proof -
  have "\<exists>xs. bucket_ok (br_heap s) (br_buckets s) b xs \<and>
      (\<forall>a. registry_bucket a = b \<longrightarrow> (a \<in> active_set (br_heap s) \<longleftrightarrow> a \<in> set xs))" for b
    using registry_inv_chain [OF assms, of b] by metis
  then obtain cs where "\<forall>b. bucket_ok (br_heap s) (br_buckets s) b (cs b) \<and>
      (\<forall>a. registry_bucket a = b \<longrightarrow> (a \<in> active_set (br_heap s) \<longleftrightarrow> a \<in> set (cs b)))"
    by metis
  then show ?thesis using that by blast
qed

lemma publish_inv:
  assumes inv: "registry_inv s0" and uc: "under_construction s0 a s"
  shows "\<exists>s'. object_publish_locked a s = Some s' \<and> registry_inv s'"
proof -
  from uc obtain ob where ob: "br_heap s = (br_heap s0)(a \<mapsto> ob)" "bo_active ob"
    "bo_magic ob = bridge_magic" "bo_raw ob = a"
    and a: "br_heap s0 a = None" "a \<noteq> 0"
    and keep: "br_buckets s = br_buckets s0" "br_active s = br_active s0"
    unfolding under_construction_def by blast
  from inv obtain cs where cs: "\<And>b. bucket_ok (br_heap s0) (br_buckets s0) b (cs b)"
    and act: "\<And>x. x \<in> active_set (br_heap s0) \<longleftrightarrow> x \<in> set (cs (registry_bucket x))"
    by (rule registry_invE) blast
  let ?b = "registry_bucket a"
  let ?ob = "ob\<lparr>bo_next := br_buckets s0 ?b\<rparr>"
  let ?h = "(br_heap s0)(a \<mapsto> ?ob)"
  obtain s' where s': "object_publish_locked a s = Some s'"
    and h': "br_heap s' = ?h" "br_buckets s' = (br_buckets s0)(?b := a)"
      "br_active s' = br_active s0 + 1"
    using ob keep by (simp add: object_publish_locked_def slot_store_def Let_def)
  have fresh: "a \<notin> set (cs b)" for b
    using cs [of b] a by (intro bucket_ok_not_active [OF cs]) (simp add: active_set_def)
  have old: "bucket_ok ?h (br_buckets s0) b (cs b)" for b
    using cs fresh by (simp add: bucket_ok_upd_other)
  have "registry_inv s'"
  proof (rule registry_invI [where cs = "cs(?b := a # cs ?b)"])
    show "br_heap s' 0 = None" using inv a h' by (simp add: registry_inv_def)
    show "bucket_ok (br_heap s') (br_buckets s') b ((cs(?b := a # cs ?b)) b)" for b
    proof (cases "b = ?b")
      case True
      have "entry_ok ?h ?b a" using ob by (simp add: entry_ok_def)
      with old [of ?b] fresh [of ?b] a show ?thesis
        unfolding True h' by (auto simp: bucket_ok_def)
    next
      case False
      with old [of b] show ?thesis unfolding h' by (simp add: bucket_ok_def)
    qed
    have set': "active_set ?h = insert a (active_set (br_heap s0))"
      using ob by (auto simp: active_set_def)
    show "x \<in> set ((cs(?b := a # cs ?b)) (registry_bucket x))"
      if "x \<in> active_set (br_heap s')" for x
      using that unfolding h' set' by (auto simp: act)
    have "a \<notin> active_set (br_heap s0)" using a by (simp add: active_set_def)
    then have "card (active_set ?h) = Suc (card (active_set (br_heap s0)))"
      unfolding set' by simp
    with inv show "br_active s' = of_nat (card (active_set (br_heap s')))"
      unfolding h' by (simp add: registry_inv_def)
  qed
  with s' show ?thesis by blast
qed

section \<open>Retirement\<close>

lemma chain_append:
  "chain h a (xs @ ys) \<Longrightarrow> ys \<noteq> [] \<Longrightarrow> chain h (hd ys) ys"
  by (induction xs arbitrary: a) (auto simp: neq_Nil_conv)

text \<open>Replacing the link to \<open>a\<close> by the link behind \<open>a\<close> removes exactly \<open>a\<close> from the chain.\<close>

lemma unlink_from_chain:
  assumes "link_load link b s = Some c" "chain (br_heap s) c (xs @ a # ys)"
    "distinct (xs @ a # ys)" "case link of None \<Rightarrow> True | Some p \<Rightarrow> p \<notin> set (xs @ a # ys)"
    "br_heap s a = Some ob"
  shows "\<exists>l. unlink_from link b a s = Some (link_store l b (bo_next ob) s)
     \<and> l = (if xs = [] then link else Some (List.last xs))"
  using assms
proof (induction xs arbitrary: link c)
  case Nil
  then have "c = a" "a \<noteq> 0" by auto
  with Nil show ?case by (subst unlink_from.simps) simp
next
  case (Cons x xs)
  from Cons.prems obtain xo where x: "c = x" "x \<noteq> 0" "x \<noteq> a" "br_heap s x = Some xo"
    "chain (br_heap s) (bo_next xo) (xs @ a # ys)" by auto
  have "\<exists>l. unlink_from (Some x) b a s = Some (link_store l b (bo_next ob) s)
     \<and> l = (if xs = [] then Some x else Some (List.last xs))"
    using Cons.prems x by (intro Cons.IH [where c = "bo_next xo"]) (auto simp: link_load_def)
  moreover have "unlink_from link b a s = unlink_from (Some x) b a s"
    using Cons.prems(1) x by (subst unlink_from.simps) simp
  ultimately show ?case by simp
qed

lemma chain_splice_inner:
  assumes "chain h c (xs @ a # ys)" "distinct (xs @ a # ys)" "xs \<noteq> []" "h a = Some ob"
  shows "chain (h(List.last xs := map_option (\<lambda>p. p\<lparr>bo_next := bo_next ob\<rparr>) (h (List.last xs)))) c (xs @ ys)"
  using assms
proof (induction xs arbitrary: c)
  case Nil
  then show ?case by simp
next
  case (Cons x xs)
  from Cons.prems obtain xo where x: "c = x" "x \<noteq> 0" "h x = Some xo"
    "chain h (bo_next xo) (xs @ a # ys)" by auto
  show ?case
  proof (cases "xs = []")
    case True
    with Cons.prems x have "chain h (bo_next ob) ys" "x \<notin> set ys" by auto
    with True Cons.prems x show ?thesis
      using chain_upd_other [of x ys h] by (simp add: fun_upd_def)
  next
    case False
    with Cons.prems x have "chain (h(List.last xs := map_option (\<lambda>p. p\<lparr>bo_next := bo_next ob\<rparr>)
        (h (List.last xs)))) (bo_next xo) (xs @ ys)"
      by (intro Cons.IH) auto
    moreover have "List.last xs \<noteq> x" using False Cons.prems by auto
    ultimately show ?thesis using False x by (simp add: fun_upd_def)
  qed
qed

lemma chain_tail: "chain h c (xs @ a # ys) \<Longrightarrow> h a = Some ob \<Longrightarrow> chain h (bo_next ob) ys"
  by (induction xs arbitrary: c) auto

lemma link_store_removes:
  assumes "chain (br_heap s) (br_buckets s b) (xs @ a # ys)" "distinct (xs @ a # ys)"
    "br_heap s a = Some ob"
  shows "\<exists>s'. unlink_from None b a s = Some s'
     \<and> chain (br_heap s') (br_buckets s' b) (xs @ ys)
     \<and> (\<forall>p. p \<notin> set xs \<longrightarrow> br_heap s' p = br_heap s p)
     \<and> (\<forall>p. br_heap s' p = br_heap s p \<or>
          (\<exists>po v. br_heap s p = Some po \<and> br_heap s' p = Some (po\<lparr>bo_next := v\<rparr>)))
     \<and> (\<forall>c. c \<noteq> b \<longrightarrow> br_buckets s' c = br_buckets s c)
     \<and> br_active s' = br_active s \<and> br_retired s' = br_retired s
     \<and> br_guest s' = br_guest s \<and> br_waiting s' = br_waiting s"
proof -
  obtain l where l: "unlink_from None b a s = Some (link_store l b (bo_next ob) s)"
    "l = (if xs = [] then None else Some (List.last xs))"
    using unlink_from_chain [where link = None and b = b and s = s and c = "br_buckets s b"] assms
    by (auto simp: link_load_def)
  show ?thesis
  proof (cases "xs = []")
    case True
    with assms l chain_tail [OF assms(1,3)] show ?thesis by (simp add: link_store_def)
  next
    case False
    then have "List.last xs \<in> set xs" by simp
    with False assms l chain_splice_inner [OF assms(1,2) False assms(3)]
      chain_dom [OF assms(1), of "List.last xs"] show ?thesis
      by (auto simp: link_store_def)
  qed
qed

lemma bucket_ok_cong_active:
  assumes "\<And>p. p \<in> set xs \<Longrightarrow> h' p = h p \<or> (\<exists>po v. h p = Some po \<and> h' p = Some (po\<lparr>bo_next := v\<rparr>))"
    and "\<forall>a\<in>set xs. entry_ok h b a"
  shows "\<forall>a\<in>set xs. entry_ok h' b a"
  using assms by (fastforce simp: entry_ok_def)

lemma small_count_nonzero: "Suc n \<le> 2 ^ 32 \<Longrightarrow> (of_nat (Suc n) :: u64) \<noteq> 0"
  using nat_dvd_not_less [of "Suc n" "2 ^ 64"] by (simp add: word_of_nat_eq_0_iff del: of_nat_Suc)

lemma retire_inv:
  assumes inv: "registry_inv s" and ob: "br_heap s a = Some ob" "bo_active ob"
  shows "\<exists>s'. object_retire_locked a s = Some s' \<and> registry_inv s'
     \<and> (\<exists>rn. br_heap s' a = Some (ob\<lparr>bo_active := False, bo_retired_next := rn\<rparr>))
     \<and> (\<forall>p. p \<noteq> a \<longrightarrow> br_heap s' p = br_heap s p \<or>
          (\<exists>po v. br_heap s p = Some po \<and> br_heap s' p = Some (po\<lparr>bo_next := v\<rparr>)))
     \<and> br_waiting s' = br_waiting s \<and> br_guest s' = (br_guest s)(bo_owner ob := 0)"
proof -
  note f = active_entry_fields [OF inv ob]
  from inv obtain cs where cs: "\<And>b. bucket_ok (br_heap s) (br_buckets s) b (cs b)"
    and act: "\<And>x. x \<in> active_set (br_heap s) \<longleftrightarrow> x \<in> set (cs (registry_bucket x))"
    by (rule registry_invE) blast
  let ?b = "registry_bucket a"
  let ?h1 = "(br_heap s)(a \<mapsto> ob\<lparr>bo_active := False\<rparr>)"
  let ?s2 = "slot_store (bo_owner ob) 0 (s\<lparr>br_heap := ?h1\<rparr>)"
  from act [of a] ob have "a \<in> set (cs ?b)" by (auto simp: active_set_def)
  then obtain xs ys where split: "cs ?b = xs @ a # ys" by (meson split_list)
  have dist: "distinct (xs @ a # ys)" using cs [of ?b] split by (simp add: bucket_ok_def)
  have ch2: "chain (br_heap ?s2) (br_buckets ?s2 ?b) (xs @ a # ys)"
    using cs [of ?b] split chain_upd_keep [where h = "br_heap s" and p = a and ob = ob and ob' = "ob\<lparr>bo_active := False\<rparr>"] ob
    by (simp add: bucket_ok_def slot_store_def)
  obtain s3 where s3: "unlink_from None ?b a ?s2 = Some s3"
    and ch3: "chain (br_heap s3) (br_buckets s3 ?b) (xs @ ys)"
    and h3: "\<And>p. p \<notin> set xs \<Longrightarrow> br_heap s3 p = br_heap ?s2 p"
    and h3': "\<And>p. br_heap s3 p = br_heap ?s2 p \<or>
          (\<exists>po v. br_heap ?s2 p = Some po \<and> br_heap s3 p = Some (po\<lparr>bo_next := v\<rparr>))"
    and b3: "\<And>c. c \<noteq> ?b \<Longrightarrow> br_buckets s3 c = br_buckets ?s2 c"
    and o3: "br_active s3 = br_active s" "br_retired s3 = br_retired s"
      "br_guest s3 = (br_guest s)(bo_owner ob := 0)" "br_waiting s3 = br_waiting s"
    using link_store_removes [OF ch2 dist, of "ob\<lparr>bo_active := False\<rparr>"]
    by (auto simp: slot_store_def)
  have "a \<notin> set xs" "a \<notin> set ys" using dist by auto
  then have a3: "br_heap s3 a = Some (ob\<lparr>bo_active := False\<rparr>)"
    using h3 [of a] by (simp add: slot_store_def)
  let ?ob' = "ob\<lparr>bo_active := False, bo_retired_next := br_retired s3\<rparr>"
  let ?h = "(br_heap s3)(a \<mapsto> ?ob')"
  obtain s' where s': "object_retire_locked a s = Some s'" "br_heap s' = ?h"
    "br_buckets s' = br_buckets s3"
    "br_active s' = (if br_active s \<noteq> 0 then br_active s - 1 else br_active s)"
    "br_waiting s' = br_waiting s3" "br_guest s' = br_guest s3"
    using ob s3 a3 f(1) o3 by (simp add: object_retire_locked_def Let_def)
  have other: "br_heap s3 p = br_heap s p \<or>
      (\<exists>po v. br_heap s p = Some po \<and> br_heap s3 p = Some (po\<lparr>bo_next := v\<rparr>))" if "p \<noteq> a" for p
    using h3' [of p] that by (simp add: slot_store_def)
  have actset: "active_set ?h = active_set (br_heap s) - {a}"
  proof -
    have "x \<in> active_set ?h \<longleftrightarrow> x \<in> active_set (br_heap s) - {a}" for x
    proof (cases "x = a")
      case False
      with other [of x] show ?thesis by (cases "br_heap s x") (auto simp: active_set_def)
    qed (simp add: active_set_def)
    then show ?thesis by blast
  qed
  have cnt: "br_active s' = of_nat (card (active_set ?h))"
  proof -
    have "a \<in> active_set (br_heap s)" using ob by (simp add: active_set_def)
    then have c: "card (active_set (br_heap s)) = Suc (card (active_set ?h))"
      unfolding actset by (metis card.remove finite)
    have "card (active_set (br_heap s)) \<le> CARD(u32)"
      by (rule card_mono) simp_all
    then have "card (active_set (br_heap s)) \<le> 2 ^ 32" by (simp add: card_word)
    moreover have "br_active s = of_nat (card (active_set (br_heap s)))"
      using inv by (simp add: registry_inv_def)
    ultimately have "br_active s = of_nat (Suc (card (active_set ?h)))" "br_active s \<noteq> 0"
      using c small_count_nonzero [of "card (active_set ?h)"] by simp_all
    then show ?thesis using s'(4) by simp
  qed
  have "registry_inv s'"
  proof (rule registry_invI [where cs = "cs(?b := xs @ ys)"])
    have "a \<noteq> 0" by (rule f)
    then show "br_heap s' 0 = None"
      using inv other [of 0] s' by (auto simp: registry_inv_def)
    show "bucket_ok (br_heap s') (br_buckets s') b ((cs(?b := xs @ ys)) b)" for b
    proof (cases "b = ?b")
      case True
      have "\<forall>x\<in>set (xs @ ys). entry_ok (br_heap s) ?b x"
        using cs [of ?b] split by (simp add: bucket_ok_def)
      then have "\<forall>x\<in>set (xs @ ys). entry_ok (br_heap s3) ?b x"
        using \<open>a \<notin> set xs\<close> \<open>a \<notin> set ys\<close>
        by (elim bucket_ok_cong_active [rotated]) (metis other Un_iff set_append)
      with ch3 dist have "bucket_ok (br_heap s3) (br_buckets s3) ?b (xs @ ys)"
        by (simp add: bucket_ok_def)
      then show ?thesis
        using \<open>a \<notin> set xs\<close> \<open>a \<notin> set ys\<close> unfolding True s' by (simp add: bucket_ok_upd_other)
    next
      case False
      have na: "a \<notin> set (cs b)" using cs [of b] False by (auto simp: bucket_ok_def entry_ok_def)
      have nx: "p \<notin> set xs" if "p \<in> set (cs b)" for p
        using that cs [of b] cs [of ?b] split False by (auto simp: bucket_ok_def entry_ok_def)
      have same: "br_heap s3 p = br_heap s p" if "p \<in> set (cs b)" for p
        using h3 [OF nx [OF that]] that na by (auto simp: slot_store_def)
      then have "chain (br_heap s3) c (cs b) \<longleftrightarrow> chain (br_heap s) c (cs b)" for c
        using same by (intro chain_heap_cong) auto
      with cs [of b] same have "bucket_ok (br_heap s3) (br_buckets s) b (cs b)"
        by (simp add: bucket_ok_def entry_ok_def)
      then have "bucket_ok ?h (br_buckets s) b (cs b)" using na by (simp add: bucket_ok_upd_other)
      with False b3 [of b] show ?thesis
        unfolding s' by (simp add: slot_store_def bucket_ok_def)
    qed
    show "x \<in> set ((cs(?b := xs @ ys)) (registry_bucket x))" if "x \<in> active_set (br_heap s')" for x
      using that act [of x] split unfolding s' actset by auto
    show "br_active s' = of_nat (card (active_set (br_heap s')))" using cnt unfolding s' .
  qed
  with s' other o3 show ?thesis by auto
qed

end
