(* ===== verification/Asm2_PthreadBridge.thy ===== *)
theory Asm2_PthreadBridge
  imports Asm2_RegistryInv
begin

text \<open>
  The operations of \<open>src/asm2_127/src/pthread_bridge.c\<close> on mutexes, condition variables,
  semaphores, attributes and threads.

  The value of an operation is \<open>None\<close> when the code would do something undefined: follow a
  pointer to no wrapper, read a union member other than the one written, unlock or wait with a
  host mutex that the thread does not hold, or loop for ever.  Otherwise it is an outcome and a
  state; a call that the host blocks changes nothing but what it did before it blocked, and is
  made again when the host lets the thread go on.  The exception is a wait on a condition variable,
  which is two steps: the wait (\<open>Waits\<close>) and the return from it.
\<close>

datatype outcome = Returns int | Blocks | Waits

section \<open>Host functions\<close>

definition host_reply :: "bridge \<Rightarrow> int \<times> bridge" where
  "host_reply s = (case br_replies s of [] \<Rightarrow> (0, s) | r # rest \<Rightarrow> (r, s\<lparr>br_replies := rest\<rparr>))"

definition update_object :: "u32 \<Rightarrow> (bridge_object \<Rightarrow> bridge_object) \<Rightarrow> bridge \<Rightarrow> bridge" where
  "update_object a f s = s\<lparr>br_heap := (br_heap s)(a := map_option f (br_heap s a))\<rparr>"

definition host_of :: "u32 \<Rightarrow> bridge \<Rightarrow> host_union" where
  "host_of a s = (case br_heap s a of None \<Rightarrow> Host_none | Some ob \<Rightarrow> bo_host ob)"

definition set_host :: "u32 \<Rightarrow> host_union \<Rightarrow> bridge \<Rightarrow> bridge" where
  "set_host a u s = update_object a (\<lambda>ob. ob\<lparr>bo_host := u\<rparr>) s"

abbreviation host_normal :: int where "host_normal \<equiv> 0"
abbreviation host_recursive :: int where "host_recursive \<equiv> 1"
abbreviation host_errorcheck :: int where "host_errorcheck \<equiv> 2"
abbreviation host_destroyed :: int where "host_destroyed \<equiv> -1"

definition new_host_mutex :: "int \<Rightarrow> host_mutex" where
  "new_host_mutex ty = \<lparr>hm_type = ty, hm_holder = None, hm_count = 0, hm_users = 0\<rparr>"

datatype lock_result = Locked host_mutex | Lock_blocks | Lock_fails int

definition host_lock :: "u32 \<Rightarrow> host_mutex \<Rightarrow> lock_result" where
  "host_lock t m =
     (if hm_type m = host_destroyed then Lock_fails e_inval
      else case hm_holder m of
        None \<Rightarrow> Locked (m\<lparr>hm_holder := Some t, hm_count := 1\<rparr>)
      | Some h \<Rightarrow>
          if h \<noteq> t then Lock_blocks
          else if hm_type m = host_recursive then
            (if hm_count m \<ge> 2 ^ 32 - 1 then Lock_fails e_again
             else Locked (m\<lparr>hm_count := hm_count m + 1\<rparr>))
          else if hm_type m = host_errorcheck then Lock_fails e_deadlk
          else Lock_blocks)"

definition host_trylock :: "u32 \<Rightarrow> host_mutex \<Rightarrow> lock_result" where
  "host_trylock t m =
     (case hm_holder m of
        Some h \<Rightarrow>
          if hm_type m \<noteq> host_destroyed \<and> (h \<noteq> t \<or> hm_type m \<noteq> host_recursive)
          then Lock_fails e_busy else host_lock t m
      | None \<Rightarrow> host_lock t m)"

text \<open>Unlocking a mutex the thread does not hold is undefined unless the type reports it.\<close>

definition host_unlock :: "u32 \<Rightarrow> host_mutex \<Rightarrow> lock_result option" where
  "host_unlock t m =
     (if hm_type m = host_destroyed then Some (Lock_fails e_inval)
      else if hm_holder m = Some t then
        Some (Locked (if hm_count m > 1 then m\<lparr>hm_count := hm_count m - 1\<rparr>
                      else m\<lparr>hm_holder := None, hm_count := 0\<rparr>))
      else if hm_type m = host_normal then None
      else Some (Lock_fails e_perm))"

definition host_mutex_at :: "u32 \<Rightarrow> bridge \<Rightarrow> host_mutex option" where
  "host_mutex_at a s = (case host_of a s of Host_mutex m \<Rightarrow> Some m | _ \<Rightarrow> None)"

text \<open>Destruction of a mutex that is locked or waited with fails with \<open>EBUSY\<close>.\<close>

definition host_mutex_destroy :: "u32 \<Rightarrow> bridge \<Rightarrow> (int \<times> bridge) option" where
  "host_mutex_destroy a s = do {
     m \<leftarrow> host_mutex_at a s;
     if hm_type m = host_destroyed then Some (e_inval, s)
     else if hm_holder m \<noteq> None \<or> hm_users m > 0 then Some (e_busy, s)
     else Some (0, set_host a (Host_mutex (m\<lparr>hm_type := host_destroyed\<rparr>)) s)
   }"

section \<open>Mutex types and static initialisers\<close>

definition guest_mutex_type_to_host :: "int \<Rightarrow> int + int" where
  "guest_mutex_type_to_host g =
     (if g = 0 then Inr host_normal
      else if g = 1 then Inr host_recursive
      else if g = 2 then Inr host_errorcheck
      else Inl e_inval)"

definition host_mutex_type_to_guest :: "int \<Rightarrow> int + int" where
  "host_mutex_type_to_guest h =
     (if h = host_recursive then Inr 1
      else if h = host_errorcheck then Inr 2
      else if h = host_normal then Inr 0
      else Inl e_inval)"

definition static_mutex_type :: "u32 \<Rightarrow> int + int" where
  "static_mutex_type raw =
     (if raw AND NOT 0x0000e000 \<noteq> 0 then Inl e_inval
      else
        let encoded_type = drop_bit 14 raw AND 3
        in if encoded_type > 2 then Inl e_inval else Inr (uint encoded_type))"

definition mutex_host_init :: "int \<Rightarrow> u32 \<Rightarrow> bridge \<Rightarrow> int \<times> bridge" where
  "mutex_host_init guest_type a s =
     (case guest_mutex_type_to_host guest_type of
        Inl e \<Rightarrow> (e, s)
      | Inr host_type \<Rightarrow>
          let (r1, s1) = host_reply s
          in if r1 \<noteq> 0 then (r1, s1)
             else
               let (r2, s2) = host_reply s1;
                   (r3, s3) = (if r2 = 0 then host_reply s2 else (r2, s2))
               in if r3 = 0
                  then (0, update_object a (\<lambda>ob. ob\<lparr>bo_host := Host_mutex (new_host_mutex host_type),
                                                  bo_mutex_type := guest_type\<rparr>) s3)
                  else (r3, s3))"

definition cond_host_init :: "u32 \<Rightarrow> bridge \<Rightarrow> int \<times> bridge" where
  "cond_host_init a s =
     (case host_reply s of (r, s1) \<Rightarrow> (r, if r = 0 then set_host a (Host_cond 0) s1 else s1))"

definition sem_value_max :: nat where
  "sem_value_max = 0x7FFFFFFF"

definition sem_host_init :: "u32 \<Rightarrow> u32 \<Rightarrow> bridge \<Rightarrow> int \<times> bridge" where
  "sem_host_init v a s =
     (if unat v > sem_value_max then (e_inval, s)
      else case host_reply s of (r, s1) \<Rightarrow>
        if r = 0 then (0, set_host a (Host_sem (unat v)) s1) else (r, s1))"

definition attr_host_init :: "u32 \<Rightarrow> bridge \<Rightarrow> int \<times> bridge" where
  "attr_host_init a s =
     (case host_reply s of (r, s1) \<Rightarrow>
        (r, if r = 0 then set_host a (Host_attr False (br_stack_size s)) s1 else s1))"

definition mutexattr_host_init :: "u32 \<Rightarrow> bridge \<Rightarrow> int \<times> bridge" where
  "mutexattr_host_init a s =
     (case host_reply s of (r, s1) \<Rightarrow>
        (r, if r = 0
            then update_object a (\<lambda>ob. ob\<lparr>bo_host := Host_mutex_attr host_normal, bo_mutex_type := 0\<rparr>) s1
            else s1))"

section \<open>Creation\<close>

text \<open>
  The sequence every creating function runs under the registry mutex: allocate, initialise the
  host object, then publish the wrapper, or free it when the host refused.
\<close>

definition object_create_locked ::
  "u32 \<Rightarrow> object_kind \<Rightarrow> (u32 \<Rightarrow> bridge \<Rightarrow> int \<times> bridge) \<Rightarrow> bridge \<Rightarrow> (int \<times> u32 \<times> bridge) option" where
  "object_create_locked slot kind host_init s =
     (case object_allocate_locked slot kind s of
        (e, a, s1) \<Rightarrow>
          if e \<noteq> 0 then Some (e, 0, s1)
          else case host_init a s1 of
            (r, s2) \<Rightarrow>
              if r = 0 then map_option (\<lambda>s3. (0, a, s3)) (object_publish_locked a s2)
              else Some (r, 0, free_object a s2))"

definition get_or_create ::
  "object_kind \<Rightarrow> (u32 \<Rightarrow> int + 'x) \<Rightarrow> ('x \<Rightarrow> u32 \<Rightarrow> bridge \<Rightarrow> int \<times> bridge)
    \<Rightarrow> u32 \<Rightarrow> bridge \<Rightarrow> (int \<times> u32 \<times> bridge) option" where
  "get_or_create kind classify host_init slot s =
     (if slot = 0 then Some (e_inval, 0, s)
      else do {
        found \<leftarrow> registry_find (slot_load slot s) slot kind s;
        if found \<noteq> 0 then Some (0, found, s)
        else case classify (slot_load slot s) of
               Inl e \<Rightarrow> Some (e, 0, s)
             | Inr x \<Rightarrow> object_create_locked slot kind (host_init x) s
      })"

definition mutex_get_or_create :: "u32 \<Rightarrow> bridge \<Rightarrow> (int \<times> u32 \<times> bridge) option" where
  "mutex_get_or_create = get_or_create Kind_mutex static_mutex_type mutex_host_init"

definition cond_get_or_create :: "u32 \<Rightarrow> bridge \<Rightarrow> (int \<times> u32 \<times> bridge) option" where
  "cond_get_or_create =
     get_or_create Kind_cond (\<lambda>raw. if raw AND NOT 3 \<noteq> 0 then Inl e_inval else Inr ())
       (\<lambda>_. cond_host_init)"

definition sem_get_or_create :: "u32 \<Rightarrow> bridge \<Rightarrow> (int \<times> u32 \<times> bridge) option" where
  "sem_get_or_create =
     get_or_create Kind_sem (\<lambda>raw. if raw > 0x7fff then Inl e_inval else Inr raw) sem_host_init"

text \<open>The explicit \<open>_init\<close> functions: an object that is already active is busy.\<close>

definition init_object ::
  "object_kind \<Rightarrow> (u32 \<Rightarrow> bridge \<Rightarrow> int \<times> bridge) \<Rightarrow> u32 \<Rightarrow> bridge \<Rightarrow> (int \<times> bridge) option" where
  "init_object kind host_init slot s = do {
     busy \<leftarrow> object_already_active_locked slot kind s;
     if busy then Some (e_busy, s)
     else do {
       (e, a, s1) \<leftarrow> object_create_locked slot kind host_init s;
       Some (e, s1)
     }
   }"

type_synonym result = "(outcome \<times> bridge) option"

definition returning :: "(int \<times> bridge) option \<Rightarrow> result" where
  "returning r = map_option (\<lambda>(e, s). (Returns e, s)) r"

section \<open>Attributes\<close>

definition guest_write :: "u32 \<Rightarrow> u32 \<Rightarrow> bridge \<Rightarrow> bridge" where
  "guest_write address v s = s\<lparr>br_guest := (br_guest s)(address := v)\<rparr>"

definition asm2_pthread_attr_init :: "u32 \<Rightarrow> bridge \<Rightarrow> result" where
  "asm2_pthread_attr_init guest_attr s =
     (if guest_attr = 0 then Some (Returns e_inval, s)
      else returning (init_object Kind_attr attr_host_init guest_attr s))"

text \<open>\<open>destroy\<close> is the host's destroy function on the wrapper: error, new state.\<close>

definition destroy_found ::
  "object_kind \<Rightarrow> (u32 \<Rightarrow> bridge \<Rightarrow> (int \<times> bridge) option) \<Rightarrow> u32 \<Rightarrow> bridge \<Rightarrow> result" where
  "destroy_found kind destroy slot s =
     (if slot = 0 then Some (Returns e_inval, s)
      else do {
        found \<leftarrow> registry_find (slot_load slot s) slot kind s;
        if found = 0 then Some (Returns e_inval, s)
        else do {
          (e, s1) \<leftarrow> destroy found s;
          if e = 0 then map_option (\<lambda>s2. (Returns 0, s2)) (object_retire_locked found s1)
          else Some (Returns e, s1)
        }
      })"

definition host_attr_destroy :: "u32 \<Rightarrow> bridge \<Rightarrow> (int \<times> bridge) option" where
  "host_attr_destroy a s =
     (case host_of a s of Host_attr d n \<Rightarrow> Some (host_reply s) | _ \<Rightarrow> None)"

definition asm2_pthread_attr_destroy :: "u32 \<Rightarrow> bridge \<Rightarrow> result" where
  "asm2_pthread_attr_destroy = destroy_found Kind_attr host_attr_destroy"

definition asm2_pthread_attr_getdetachstate :: "u32 \<Rightarrow> u32 \<Rightarrow> bridge \<Rightarrow> result" where
  "asm2_pthread_attr_getdetachstate guest_attr detachstate s =
     (if detachstate = 0 then Some (Returns e_inval, s)
      else do {
        (a, e) \<leftarrow> object_get guest_attr Kind_attr s;
        if a = 0 then Some (Returns e, s)
        else case host_of a s of
               Host_attr detached n \<Rightarrow>
                 (case host_reply s of (r, s1) \<Rightarrow>
                    Some (Returns r, if r = 0
                      then guest_write detachstate (if detached then 1 else 0) s1 else s1))
             | _ \<Rightarrow> None
      })"

definition asm2_pthread_attr_setdetachstate :: "u32 \<Rightarrow> int \<Rightarrow> bridge \<Rightarrow> result" where
  "asm2_pthread_attr_setdetachstate guest_attr detachstate s =
     (if detachstate \<noteq> 0 \<and> detachstate \<noteq> 1 then Some (Returns e_inval, s)
      else do {
        (a, e) \<leftarrow> object_get guest_attr Kind_attr s;
        if a = 0 then Some (Returns e, s)
        else case host_of a s of
               Host_attr detached n \<Rightarrow>
                 (case host_reply s of (r, s1) \<Rightarrow>
                    Some (Returns r, if r = 0 then set_host a (Host_attr (detachstate = 1) n) s1 else s1))
             | _ \<Rightarrow> None
      })"

definition asm2_pthread_attr_getstacksize :: "u32 \<Rightarrow> u32 \<Rightarrow> bridge \<Rightarrow> result" where
  "asm2_pthread_attr_getstacksize guest_attr stacksize s =
     (if stacksize = 0 then Some (Returns e_inval, s)
      else do {
        (a, e) \<leftarrow> object_get guest_attr Kind_attr s;
        if a = 0 then Some (Returns e, s)
        else case host_of a s of
               Host_attr detached n \<Rightarrow>
                 (case host_reply s of (r, s1) \<Rightarrow>
                    Some (Returns r, if r = 0 then guest_write stacksize n s1 else s1))
             | _ \<Rightarrow> None
      })"

definition asm2_pthread_attr_setstacksize :: "u32 \<Rightarrow> u32 \<Rightarrow> bridge \<Rightarrow> result" where
  "asm2_pthread_attr_setstacksize guest_attr stacksize s = do {
     (a, e) \<leftarrow> object_get guest_attr Kind_attr s;
     if a = 0 then Some (Returns e, s)
     else case host_of a s of
            Host_attr detached n \<Rightarrow>
              (case host_reply s of (r, s1) \<Rightarrow>
                 Some (Returns r, if r = 0 then set_host a (Host_attr detached stacksize) s1 else s1))
          | _ \<Rightarrow> None
   }"

definition asm2_pthread_mutexattr_init :: "u32 \<Rightarrow> bridge \<Rightarrow> result" where
  "asm2_pthread_mutexattr_init guest_attr s =
     (if guest_attr = 0 then Some (Returns e_inval, s)
      else returning (init_object Kind_mutex_attr mutexattr_host_init guest_attr s))"

definition host_mutexattr_destroy :: "u32 \<Rightarrow> bridge \<Rightarrow> (int \<times> bridge) option" where
  "host_mutexattr_destroy a s =
     (case host_of a s of Host_mutex_attr ty \<Rightarrow> Some (host_reply s) | _ \<Rightarrow> None)"

definition asm2_pthread_mutexattr_destroy :: "u32 \<Rightarrow> bridge \<Rightarrow> result" where
  "asm2_pthread_mutexattr_destroy = destroy_found Kind_mutex_attr host_mutexattr_destroy"

definition asm2_pthread_mutexattr_gettype :: "u32 \<Rightarrow> u32 \<Rightarrow> bridge \<Rightarrow> result" where
  "asm2_pthread_mutexattr_gettype guest_attr type s =
     (if type = 0 then Some (Returns e_inval, s)
      else do {
        (a, e) \<leftarrow> object_get guest_attr Kind_mutex_attr s;
        if a = 0 then Some (Returns e, s)
        else case host_of a s of
               Host_mutex_attr host_type \<Rightarrow>
                 (case host_reply s of (r, s1) \<Rightarrow>
                    if r \<noteq> 0 then Some (Returns r, s1)
                    else case host_mutex_type_to_guest host_type of
                           Inl e1 \<Rightarrow> Some (Returns e1, s1)
                         | Inr g \<Rightarrow> Some (Returns 0, guest_write type (word_of_int g) s1))
             | _ \<Rightarrow> None
      })"

definition asm2_pthread_mutexattr_settype :: "u32 \<Rightarrow> int \<Rightarrow> bridge \<Rightarrow> result" where
  "asm2_pthread_mutexattr_settype guest_attr type s =
     (case guest_mutex_type_to_host type of
        Inl e \<Rightarrow> Some (Returns e, s)
      | Inr host_type \<Rightarrow> do {
          (a, e) \<leftarrow> object_get guest_attr Kind_mutex_attr s;
          if a = 0 then Some (Returns e, s)
          else case host_of a s of
                 Host_mutex_attr old \<Rightarrow>
                   (case host_reply s of (r, s1) \<Rightarrow>
                      Some (Returns r,
                        if r = 0
                        then update_object a (\<lambda>ob. ob\<lparr>bo_host := Host_mutex_attr host_type,
                                                       bo_mutex_type := type\<rparr>) s1
                        else s1))
               | _ \<Rightarrow> None
        })"

section \<open>Mutexes\<close>

text \<open>The token recorded for a thread; 0 means unowned, so a zero handle is stored as all ones.\<close>

definition mutex_current_owner :: "u32 \<Rightarrow> u32" where
  "mutex_current_owner thread = (if thread \<noteq> 0 then thread else 0xFFFFFFFF)"

definition mutex_record_acquired :: "u32 \<Rightarrow> bridge_object \<Rightarrow> bridge_object" where
  "mutex_record_acquired t ob =
     (if bo_mutex_owner ob = mutex_current_owner t
      then ob\<lparr>bo_mutex_depth := bo_mutex_depth ob + 1\<rparr>
      else ob\<lparr>bo_mutex_depth := 1, bo_mutex_owner := mutex_current_owner t\<rparr>)"

text \<open>\<open>None\<close> is the \<open>EPERM\<close> return; otherwise the wrapper and the previous depth.\<close>

definition mutex_record_releasing :: "u32 \<Rightarrow> bridge_object \<Rightarrow> (bridge_object \<times> u32) option" where
  "mutex_record_releasing t ob =
     (let depth = bo_mutex_depth ob
      in if bo_mutex_owner ob \<noteq> mutex_current_owner t \<or> depth = 0 then None
         else if depth > 1 then Some (ob\<lparr>bo_mutex_depth := depth - 1\<rparr>, depth)
         else Some (ob\<lparr>bo_mutex_owner := 0, bo_mutex_depth := 0\<rparr>, depth))"

definition mutex_record_restore :: "u32 \<Rightarrow> u32 \<Rightarrow> bridge_object \<Rightarrow> bridge_object" where
  "mutex_record_restore t depth ob =
     ob\<lparr>bo_mutex_depth := depth, bo_mutex_owner := mutex_current_owner t\<rparr>"

definition asm2_pthread_mutex_init :: "u32 \<Rightarrow> u32 \<Rightarrow> bridge \<Rightarrow> result" where
  "asm2_pthread_mutex_init guest_mutex guest_attr s =
     (if guest_mutex = 0 then Some (Returns e_inval, s)
      else do {
        (attr, e) \<leftarrow> (if guest_attr = 0 then Some (0, 0) else object_get guest_attr Kind_mutex_attr s);
        if guest_attr \<noteq> 0 \<and> attr = 0 then Some (Returns e, s)
        else do {
          guest_type \<leftarrow> (if guest_attr = 0 then Some 0 else map_option bo_mutex_type (br_heap s attr));
          returning (init_object Kind_mutex (mutex_host_init guest_type) guest_mutex s)
        }
      })"

definition asm2_pthread_mutex_destroy :: "u32 \<Rightarrow> bridge \<Rightarrow> result" where
  "asm2_pthread_mutex_destroy guest_mutex s = do {
     (e, a, s1) \<leftarrow> mutex_get_or_create guest_mutex s;
     if a = 0 then Some (Returns e, s1)
     else do {
       (r, s2) \<leftarrow> host_mutex_destroy a s1;
       if r = 0 then map_option (\<lambda>s3. (Returns 0, s3)) (object_retire_locked a s2)
       else Some (Returns r, s2)
     }
   }"

definition finish_lock :: "u32 \<Rightarrow> u32 \<Rightarrow> lock_result \<Rightarrow> bridge \<Rightarrow> outcome \<times> bridge" where
  "finish_lock t a r s =
     (case r of
        Locked m \<Rightarrow> (Returns 0, update_object a (mutex_record_acquired t) (set_host a (Host_mutex m) s))
      | Lock_blocks \<Rightarrow> (Blocks, s)
      | Lock_fails e \<Rightarrow> (Returns e, s))"

definition asm2_pthread_mutex_lock :: "u32 \<Rightarrow> u32 \<Rightarrow> bridge \<Rightarrow> result" where
  "asm2_pthread_mutex_lock t guest_mutex s = do {
     (e, a, s1) \<leftarrow> mutex_get_or_create guest_mutex s;
     if a = 0 then Some (Returns e, s1)
     else do {
       m \<leftarrow> host_mutex_at a s1;
       Some (finish_lock t a (host_lock t m) s1)
     }
   }"

definition asm2_pthread_mutex_trylock :: "u32 \<Rightarrow> u32 \<Rightarrow> bridge \<Rightarrow> result" where
  "asm2_pthread_mutex_trylock t guest_mutex s = do {
     (e, a, s1) \<leftarrow> mutex_get_or_create guest_mutex s;
     if a = 0 then Some (Returns e, s1)
     else do {
       m \<leftarrow> host_mutex_at a s1;
       Some (finish_lock t a (host_trylock t m) s1)
     }
   }"

text \<open>
  Release the record, then the host mutex; when the host refuses, the record is restored.  The
  result is the error and the state.
\<close>

definition release_mutex :: "u32 \<Rightarrow> u32 \<Rightarrow> bridge \<Rightarrow> (int \<times> bridge) option" where
  "release_mutex t a s = do {
     ob \<leftarrow> br_heap s a;
     case mutex_record_releasing t ob of
       None \<Rightarrow> Some (e_perm, s)
     | Some (ob1, previous_depth) \<Rightarrow> do {
         let s1 = update_object a (\<lambda>_. ob1) s;
         m \<leftarrow> host_mutex_at a s1;
         r \<leftarrow> host_unlock t m;
         case r of
           Locked m1 \<Rightarrow> Some (0, set_host a (Host_mutex m1) s1)
         | Lock_blocks \<Rightarrow> None
         | Lock_fails e1 \<Rightarrow> Some (e1, update_object a (mutex_record_restore t previous_depth) s1)
       }
   }"

definition asm2_pthread_mutex_unlock :: "u32 \<Rightarrow> u32 \<Rightarrow> bridge \<Rightarrow> result" where
  "asm2_pthread_mutex_unlock t guest_mutex s = do {
     (e, a, s1) \<leftarrow> mutex_get_or_create guest_mutex s;
     if a = 0 then Some (Returns e, s1)
     else returning (release_mutex t a s1)
   }"

record mutex_handoff =
  mh_object :: u32
  mh_active :: int

definition asm2_pthread_mutex_handoff_begin ::
  "u32 \<Rightarrow> u32 \<Rightarrow> bridge \<Rightarrow> (outcome \<times> mutex_handoff \<times> bridge) option" where
  "asm2_pthread_mutex_handoff_begin t guest_mutex s =
     (let none = \<lparr>mh_object = 0, mh_active = 0\<rparr>
      in do {
        (e, a, s1) \<leftarrow> mutex_get_or_create guest_mutex s;
        if a = 0 then Some (Returns (- e), none, s1)
        else do {
          ob \<leftarrow> br_heap s1 a;
          if bo_mutex_owner ob \<noteq> mutex_current_owner t \<or> bo_mutex_depth ob \<noteq> 1
          then Some (Returns 0, none, s1)
          else do {
            (r, s2) \<leftarrow> release_mutex t a s1;
            if r \<noteq> 0 then Some (Returns (- r), none, s2)
            else Some (Returns 1, \<lparr>mh_object = a, mh_active = 1\<rparr>,
                       s2\<lparr>br_handoffs := br_handoffs s2 + 1\<rparr>)
          }
        }
      })"

definition asm2_pthread_mutex_handoff_end ::
  "u32 \<Rightarrow> mutex_handoff \<Rightarrow> bridge \<Rightarrow> (outcome \<times> mutex_handoff \<times> bridge) option" where
  "asm2_pthread_mutex_handoff_end t handoff s =
     (if mh_active handoff = 0 \<or> mh_object handoff = 0 then Some (Returns e_inval, handoff, s)
      else do {
        m \<leftarrow> host_mutex_at (mh_object handoff) s;
        case finish_lock t (mh_object handoff) (host_lock t m) s of
          (out, s1) \<Rightarrow>
            Some (out, if out = Returns 0 then \<lparr>mh_object = 0, mh_active = 0\<rparr> else handoff, s1)
      })"

section \<open>Condition variables\<close>

definition asm2_pthread_cond_init :: "u32 \<Rightarrow> u32 \<Rightarrow> bridge \<Rightarrow> result" where
  "asm2_pthread_cond_init guest_cond guest_attr s =
     (if guest_cond = 0 then Some (Returns e_inval, s)
      else returning (init_object Kind_cond cond_host_init guest_cond s))"

text \<open>The host's destroy waits until no thread uses the condition variable any more.\<close>

definition asm2_pthread_cond_destroy :: "u32 \<Rightarrow> bridge \<Rightarrow> result" where
  "asm2_pthread_cond_destroy guest_cond s = do {
     (e, a, s1) \<leftarrow> cond_get_or_create guest_cond s;
     if a = 0 then Some (Returns e, s1)
     else case host_of a s1 of
            Host_cond waiters \<Rightarrow>
              if waiters > 0 then Some (Blocks, s1)
              else (case host_reply s1 of (r, s2) \<Rightarrow>
                if r = 0 then map_option (\<lambda>s3. (Returns 0, s3)) (object_retire_locked a s2)
                else Some (Returns r, s2))
          | _ \<Rightarrow> None
   }"

text \<open>
  The wait: the record is released, then the host releases the mutex and the thread waits.  An
  error of the host is reported at once, with the mutex still held.
\<close>

definition cond_wait_common :: "u32 \<Rightarrow> u32 \<Rightarrow> u32 \<Rightarrow> bridge \<Rightarrow> result" where
  "cond_wait_common t guest_cond guest_mutex s = do {
     (e, c, s1) \<leftarrow> cond_get_or_create guest_cond s;
     if c = 0 then Some (Returns e, s1)
     else do {
       (e2, a, s2) \<leftarrow> mutex_get_or_create guest_mutex s1;
       if a = 0 then Some (Returns e2, s2)
       else do {
         ob \<leftarrow> br_heap s2 a;
         case mutex_record_releasing t ob of
           None \<Rightarrow> Some (Returns e_perm, s2)
         | Some (ob1, previous_depth) \<Rightarrow>
             let s3 = update_object a (\<lambda>_. ob1) s2
             in if previous_depth \<noteq> 1
                then Some (Returns e_inval, update_object a (mutex_record_restore t previous_depth) s3)
                else do {
                  m \<leftarrow> host_mutex_at a s3;
                  if hm_holder m \<noteq> Some t \<or> hm_count m \<noteq> 1 then None
                  else case host_reply s3 of (r, s4) \<Rightarrow>
                    if r \<noteq> 0 then Some (Returns r, update_object a (mutex_record_acquired t) s4)
                    else case host_of c s4 of
                           Host_cond waiters \<Rightarrow>
                             Some (Waits,
                               set_host a (Host_mutex (m\<lparr>hm_holder := None, hm_count := 0,
                                                        hm_users := hm_users m + 1\<rparr>))
                                 (set_host c (Host_cond (waiters + 1))
                                   (s4\<lparr>br_waiting := (t, c, a) # br_waiting s4\<rparr>)))
                         | _ \<Rightarrow> None
                }
       }
     }
   }"

definition asm2_pthread_cond_wait :: "u32 \<Rightarrow> u32 \<Rightarrow> u32 \<Rightarrow> bridge \<Rightarrow> result" where
  "asm2_pthread_cond_wait = cond_wait_common"

definition asm2_pthread_cond_timedwait :: "u32 \<Rightarrow> u32 \<Rightarrow> u32 \<Rightarrow> u32 \<Rightarrow> bridge \<Rightarrow> result" where
  "asm2_pthread_cond_timedwait t guest_cond guest_mutex abstime s =
     (if abstime = 0 then Some (Returns e_inval, s)
      else cond_wait_common t guest_cond guest_mutex s)"

text \<open>
  The return from a wait: the host takes the mutex again, then the record.  The host decides what
  woke the thread; its answer is 0 or \<open>ETIMEDOUT\<close>.
\<close>

definition cond_wait_returns :: "u32 \<times> u32 \<times> u32 \<Rightarrow> bridge \<Rightarrow> result" where
  "cond_wait_returns w s =
     (if w \<notin> set (br_waiting s) then Some (Blocks, s)
      else case w of (t, c, a) \<Rightarrow> do {
        m \<leftarrow> host_mutex_at a s;
        if hm_type m = host_destroyed then None
        else if hm_holder m \<noteq> None then Some (Blocks, s)
        else case host_of c s of
               Host_cond waiters \<Rightarrow>
                 (case host_reply s of (r, s1) \<Rightarrow>
                    Some (Returns r,
                      update_object a (mutex_record_acquired t)
                        (set_host a (Host_mutex (m\<lparr>hm_holder := Some t, hm_count := 1,
                                                 hm_users := hm_users m - 1\<rparr>))
                          (set_host c (Host_cond (waiters - 1))
                            (s1\<lparr>br_waiting := remove1 w (br_waiting s1)\<rparr>)))))
             | _ \<Rightarrow> None
      })"

text \<open>Which waiters a signal or a broadcast wakes is the host's choice at their return.\<close>

definition asm2_pthread_cond_signal :: "u32 \<Rightarrow> bridge \<Rightarrow> result" where
  "asm2_pthread_cond_signal guest_cond s = do {
     (e, c, s1) \<leftarrow> cond_get_or_create guest_cond s;
     if c = 0 then Some (Returns e, s1)
     else case host_of c s1 of Host_cond waiters \<Rightarrow> returning (Some (host_reply s1)) | _ \<Rightarrow> None
   }"

definition asm2_pthread_cond_broadcast :: "u32 \<Rightarrow> bridge \<Rightarrow> result" where
  "asm2_pthread_cond_broadcast guest_cond s = do {
     (e, c, s1) \<leftarrow> cond_get_or_create guest_cond s;
     if c = 0 then Some (Returns e, s1)
     else case host_of c s1 of Host_cond waiters \<Rightarrow> returning (Some (host_reply s1)) | _ \<Rightarrow> None
   }"

section \<open>Semaphores\<close>

text \<open>The \<open>sem_\<close> functions return \<open>-1\<close> and set \<open>errno\<close>.\<close>

definition sem_fails :: "int \<Rightarrow> bridge \<Rightarrow> outcome \<times> bridge" where
  "sem_fails e s = (Returns (- 1), s\<lparr>br_errno := e\<rparr>)"

text \<open>A host function that failed has set \<open>errno\<close> to its answer.\<close>

definition sem_result :: "int \<Rightarrow> bridge \<Rightarrow> outcome \<times> bridge" where
  "sem_result host_result s =
     (if host_result = 0 then (Returns 0, s)
      else (Returns (- 1), s\<lparr>br_errno := if br_errno s = 0 then e_inval else br_errno s\<rparr>))"

definition host_sem_fails :: "int \<Rightarrow> bridge \<Rightarrow> outcome \<times> bridge" where
  "host_sem_fails e s = sem_result (- 1) (s\<lparr>br_errno := e\<rparr>)"

definition asm2_sem_init :: "u32 \<Rightarrow> int \<Rightarrow> u32 \<Rightarrow> bridge \<Rightarrow> result" where
  "asm2_sem_init guest_sem pshared v s =
     (if guest_sem = 0 then Some (sem_fails e_inval s)
      else if pshared \<noteq> 0 then Some (sem_fails e_nosys s)
      else do {
        (e, s1) \<leftarrow> init_object Kind_sem (sem_host_init v) guest_sem s;
        Some (if e \<noteq> 0 then sem_fails e s1 else (Returns 0, s1))
      })"

definition with_sem :: "u32 \<Rightarrow> (u32 \<Rightarrow> nat \<Rightarrow> bridge \<Rightarrow> result) \<Rightarrow> bridge \<Rightarrow> result" where
  "with_sem guest_sem act s = do {
     (e, a, s1) \<leftarrow> sem_get_or_create guest_sem s;
     if a = 0 then Some (sem_fails e s1)
     else case host_of a s1 of Host_sem n \<Rightarrow> act a n s1 | _ \<Rightarrow> None
   }"

definition asm2_sem_destroy :: "u32 \<Rightarrow> bridge \<Rightarrow> result" where
  "asm2_sem_destroy guest_sem = with_sem guest_sem (\<lambda>a n s.
     case host_reply s of (r, s1) \<Rightarrow>
       if r = 0 then map_option (sem_result 0) (object_retire_locked a s1)
       else Some (host_sem_fails r s1))"

definition asm2_sem_post :: "u32 \<Rightarrow> bridge \<Rightarrow> result" where
  "asm2_sem_post guest_sem = with_sem guest_sem (\<lambda>a n s.
     Some (if n \<ge> sem_value_max then host_sem_fails e_overflow s
           else sem_result 0 (set_host a (Host_sem (n + 1)) s)))"

definition asm2_sem_trywait :: "u32 \<Rightarrow> bridge \<Rightarrow> result" where
  "asm2_sem_trywait guest_sem = with_sem guest_sem (\<lambda>a n s.
     Some (if n = 0 then host_sem_fails e_again s
           else sem_result 0 (set_host a (Host_sem (n - 1)) s)))"

text \<open>A wait that would block returns only when the host interrupts it.\<close>

definition asm2_sem_wait :: "u32 \<Rightarrow> bridge \<Rightarrow> result" where
  "asm2_sem_wait guest_sem = with_sem guest_sem (\<lambda>a n s.
     if n > 0 then Some (sem_result 0 (set_host a (Host_sem (n - 1)) s))
     else case host_reply s of (r, s1) \<Rightarrow>
       Some (if r = 0 then (Blocks, s1) else host_sem_fails r s1))"

definition asm2_sem_getvalue :: "u32 \<Rightarrow> u32 \<Rightarrow> bridge \<Rightarrow> result" where
  "asm2_sem_getvalue guest_sem value_out s =
     (if value_out = 0 then Some (sem_fails e_inval s)
      else with_sem guest_sem (\<lambda>a n s1. Some (sem_result 0 (guest_write value_out (of_nat n) s1))) s)"

section \<open>Threads and keys\<close>

text \<open>Host thread handles are 64-bit words, of which a 32-bit process uses the low half.\<close>

definition guest_thread_to_host :: "u32 \<Rightarrow> u64" where
  "guest_thread_to_host g = ucast g"

text \<open>The guest word is stored before the high bytes are examined.\<close>

definition host_thread_to_guest :: "u64 \<Rightarrow> int \<times> u32" where
  "host_thread_to_guest h = (if drop_bit 32 h \<noteq> 0 then e_overflow else 0, ucast h)"

definition log_event :: "host_event \<Rightarrow> bridge \<Rightarrow> bridge" where
  "log_event ev s = s\<lparr>br_log := br_log s @ [ev]\<rparr>"

definition next_thread :: "bridge \<Rightarrow> u64 \<times> bridge" where
  "next_thread s = (case br_threads s of [] \<Rightarrow> (1, s) | h # rest \<Rightarrow> (h, s\<lparr>br_threads := rest\<rparr>))"

definition asm2_pthread_create :: "u32 \<Rightarrow> u32 \<Rightarrow> u32 \<Rightarrow> u32 \<Rightarrow> bridge \<Rightarrow> result" where
  "asm2_pthread_create guest_thread guest_attr start_routine arg s =
     (if guest_thread = 0 \<or> start_routine = 0 then Some (Returns e_inval, s)
      else do {
        (attr, e) \<leftarrow> (if guest_attr = 0 then Some (0, 0) else object_get guest_attr Kind_attr s);
        if guest_attr \<noteq> 0 \<and> attr = 0 then Some (Returns e, s)
        else case host_reply s of (r, s1) \<Rightarrow>
          if r \<noteq> 0 then Some (Returns r, s1)
          else case next_thread (log_event (Ev_create attr start_routine arg) s1) of (h, s2) \<Rightarrow>
            case host_thread_to_guest h of (e1, g) \<Rightarrow>
              let s3 = guest_write guest_thread g s2
              in if e1 \<noteq> 0 then Some (Returns e1, log_event (Ev_detach h) s3)
                 else Some (Returns 0, s3)
      })"

definition host_thread_call :: "host_event \<Rightarrow> bridge \<Rightarrow> result" where
  "host_thread_call ev s = returning (Some (host_reply (log_event ev s)))"

definition asm2_pthread_detach :: "u32 \<Rightarrow> bridge \<Rightarrow> result" where
  "asm2_pthread_detach guest_thread = host_thread_call (Ev_detach (guest_thread_to_host guest_thread))"

definition asm2_pthread_join :: "u32 \<Rightarrow> u32 \<Rightarrow> bridge \<Rightarrow> result" where
  "asm2_pthread_join guest_thread retval =
     host_thread_call (Ev_join (guest_thread_to_host guest_thread) retval)"

definition asm2_pthread_equal :: "u32 \<Rightarrow> u32 \<Rightarrow> bool" where
  "asm2_pthread_equal first second =
     (guest_thread_to_host first = guest_thread_to_host second)"

definition asm2_pthread_getschedparam :: "u32 \<Rightarrow> u32 \<Rightarrow> u32 \<Rightarrow> bridge \<Rightarrow> result" where
  "asm2_pthread_getschedparam guest_thread policy param s =
     (if policy = 0 \<or> param = 0 then Some (Returns e_inval, s)
      else host_thread_call (Ev_getschedparam (guest_thread_to_host guest_thread) policy param) s)"

definition asm2_pthread_setschedparam :: "u32 \<Rightarrow> int \<Rightarrow> u32 \<Rightarrow> bridge \<Rightarrow> result" where
  "asm2_pthread_setschedparam guest_thread policy param s =
     (if param = 0 then Some (Returns e_inval, s)
      else host_thread_call (Ev_setschedparam (guest_thread_to_host guest_thread) policy param) s)"

definition asm2_pthread_self :: "u64 \<Rightarrow> u32" where
  "asm2_pthread_self h = snd (host_thread_to_guest h)"

definition asm2_pthread_getspecific :: "u32 \<Rightarrow> u32 \<Rightarrow> bridge \<Rightarrow> u32" where
  "asm2_pthread_getspecific t guest_key s = br_specific s (t, guest_key)"

definition asm2_pthread_setspecific :: "u32 \<Rightarrow> u32 \<Rightarrow> u32 \<Rightarrow> bridge \<Rightarrow> result" where
  "asm2_pthread_setspecific t guest_key v s =
     (case host_reply s of (r, s1) \<Rightarrow>
        Some (Returns r, if r = 0 then s1\<lparr>br_specific := (br_specific s1)((t, guest_key) := v)\<rparr> else s1))"

definition asm2_pthread_key_create :: "u32 \<Rightarrow> u32 \<Rightarrow> bridge \<Rightarrow> result" where
  "asm2_pthread_key_create guest_key destructor s =
     (if guest_key = 0 then Some (Returns e_inval, s)
      else case host_reply (log_event (Ev_key_create destructor) s) of (r, s1) \<Rightarrow>
        Some (Returns r,
          if r = 0
          then (case br_keys s1 of
                  [] \<Rightarrow> guest_write guest_key 0 s1
                | k # rest \<Rightarrow> guest_write guest_key k (s1\<lparr>br_keys := rest\<rparr>))
          else s1))"

definition asm2_pthread_key_delete :: "u32 \<Rightarrow> bridge \<Rightarrow> result" where
  "asm2_pthread_key_delete guest_key = host_thread_call (Ev_key_delete guest_key)"

end
