(* ===== verification/Asm2_BridgeSafety.thy ===== *)
theory Asm2_BridgeSafety
  imports Asm2_PthreadBridge
begin

text \<open>
  Type safety of the pthread bridge.  In every state the guest can bring about, by any sequence of
  calls from any threads and any writes to its own memory, every wrapper's union holds the member
  of its kind, the recorded owner and depth of a mutex are those of the host mutex, and no
  operation does anything undefined.
\<close>

section \<open>The invariant\<close>

definition mutex_ok :: "bridge_object \<Rightarrow> host_mutex \<Rightarrow> bool" where
  "mutex_ok ob m \<longleftrightarrow>
     hm_type m \<in> {host_destroyed, host_normal, host_recursive, host_errorcheck}
     \<and> (hm_type m = host_destroyed \<longrightarrow> hm_holder m = None \<and> hm_users m = 0)
     \<and> (case hm_holder m of
          None \<Rightarrow> bo_mutex_owner ob = 0 \<and> bo_mutex_depth ob = 0 \<and> hm_count m = 0
        | Some t \<Rightarrow> t \<noteq> 0 \<and> bo_mutex_owner ob = t \<and> bo_mutex_depth ob = of_nat (hm_count m)
            \<and> 1 \<le> hm_count m \<and> hm_count m \<le> 2 ^ 32 - 1
            \<and> (hm_type m \<noteq> host_recursive \<longrightarrow> hm_count m = 1))"

type_synonym waiting = "(u32 \<times> u32 \<times> u32) list"

definition mutex_users :: "waiting \<Rightarrow> u32 \<Rightarrow> nat" where
  "mutex_users W a = length (filter (\<lambda>w. snd (snd w) = a) W)"

definition cond_users :: "waiting \<Rightarrow> u32 \<Rightarrow> nat" where
  "cond_users W a = length (filter (\<lambda>w. fst (snd w) = a) W)"

definition object_ok :: "waiting \<Rightarrow> u32 \<Rightarrow> bridge_object \<Rightarrow> bool" where
  "object_ok W a ob \<longleftrightarrow>
     (case bo_kind ob of
        Kind_attr \<Rightarrow> (case bo_host ob of Host_attr d n \<Rightarrow> True | _ \<Rightarrow> False)
      | Kind_mutex_attr \<Rightarrow>
          (\<exists>ty. bo_host ob = Host_mutex_attr ty \<and> bo_mutex_type ob = ty
             \<and> ty \<in> {host_normal, host_recursive, host_errorcheck})
      | Kind_mutex \<Rightarrow> (\<exists>m. bo_host ob = Host_mutex m \<and> mutex_ok ob m \<and> hm_users m = mutex_users W a)
      | Kind_cond \<Rightarrow> bo_host ob = Host_cond (cond_users W a)
      | Kind_sem \<Rightarrow> (\<exists>n. bo_host ob = Host_sem n \<and> n \<le> sem_value_max))"

definition waiting_ok :: "wrapper_heap \<Rightarrow> waiting \<Rightarrow> bool" where
  "waiting_ok h W \<longleftrightarrow>
     (\<forall>w\<in>set W. fst w \<noteq> 0
        \<and> (\<exists>ob. h (fst (snd w)) = Some ob \<and> bo_kind ob = Kind_cond)
        \<and> (\<exists>ob. h (snd (snd w)) = Some ob \<and> bo_kind ob = Kind_mutex))"

definition kinds_kept :: "wrapper_heap \<Rightarrow> wrapper_heap \<Rightarrow> bool" where
  "kinds_kept h h' \<longleftrightarrow>
     (\<forall>p ob. h p = Some ob \<longrightarrow>
        (\<exists>ob'. h' p = Some ob' \<and> bo_kind ob' = bo_kind ob \<and> (bo_active ob' \<longrightarrow> bo_active ob)))"

lemma waiting_ok_kept:
  assumes "waiting_ok h W" "kinds_kept h h'"
  shows "waiting_ok h' W"
  unfolding waiting_ok_def
proof (intro ballI conjI)
  fix w assume "w \<in> set W"
  with assms(1) obtain c m where "fst w \<noteq> 0" "h (fst (snd w)) = Some c" "bo_kind c = Kind_cond"
    "h (snd (snd w)) = Some m" "bo_kind m = Kind_mutex"
    unfolding waiting_ok_def by blast
  with assms(2) show "fst w \<noteq> 0" "\<exists>ob. h' (fst (snd w)) = Some ob \<and> bo_kind ob = Kind_cond"
    "\<exists>ob. h' (snd (snd w)) = Some ob \<and> bo_kind ob = Kind_mutex"
    unfolding kinds_kept_def by metis+
qed

lemma kinds_kept_fresh: "h a = None \<Longrightarrow> kinds_kept h (h(a \<mapsto> ob))"
  by (auto simp: kinds_kept_def)

lemma kinds_kept_upd: "h a = Some ob \<Longrightarrow> bo_kind ob' = bo_kind ob \<Longrightarrow> (bo_active ob' \<Longrightarrow> bo_active ob)
    \<Longrightarrow> kinds_kept h (h(a \<mapsto> ob'))"
  by (auto simp: kinds_kept_def)

lemma kinds_kept_trans: "kinds_kept h k \<Longrightarrow> kinds_kept k l \<Longrightarrow> kinds_kept h l"
  unfolding kinds_kept_def by metis

lemma kinds_kept_refl [simp]: "kinds_kept h h"
  by (simp add: kinds_kept_def)

definition objects_ok :: "wrapper_heap \<Rightarrow> waiting \<Rightarrow> bool" where
  "objects_ok h W \<longleftrightarrow> (\<forall>a ob. h a = Some ob \<longrightarrow> object_ok W a ob)"

text \<open>
  \<open>K\<close> lists wrappers to keep an eye on: those that outstanding handoffs point to (\<open>Inl\<close>), and
  retired ones (\<open>Inr\<close>).
\<close>

type_synonym watched = "(u32 + u32) list"

definition watched_ok :: "wrapper_heap \<Rightarrow> watched \<Rightarrow> bool" where
  "watched_ok h K \<longleftrightarrow>
     (\<forall>a. Inl a \<in> set K \<longrightarrow> (\<exists>ob. h a = Some ob \<and> bo_kind ob = Kind_mutex))
     \<and> (\<forall>a. Inr a \<in> set K \<longrightarrow> (\<exists>ob. h a = Some ob \<and> \<not> bo_active ob))"

lemma watched_ok_kept: "watched_ok h K \<Longrightarrow> kinds_kept h h' \<Longrightarrow> watched_ok h' K"
  unfolding watched_ok_def kinds_kept_def by metis

definition bridge_inv :: "watched \<Rightarrow> bridge \<Rightarrow> bool" where
  "bridge_inv K s \<longleftrightarrow>
     registry_inv s \<and> objects_ok (br_heap s) (br_waiting s) \<and> waiting_ok (br_heap s) (br_waiting s)
     \<and> watched_ok (br_heap s) K"

text \<open>Both depend only on the kinds of the wrappers.\<close>

lemma bridge_inv_kept:
  assumes "bridge_inv K s" "kinds_kept (br_heap s) h"
  shows "waiting_ok h (br_waiting s) \<and> watched_ok h K"
  using assms waiting_ok_kept watched_ok_kept unfolding bridge_inv_def by blast

lemma bridge_inv_registry: "bridge_inv K s \<Longrightarrow> registry_inv s"
  by (simp add: bridge_inv_def)

lemma bridge_inv_object: "bridge_inv K s \<Longrightarrow> br_heap s a = Some ob \<Longrightarrow> object_ok (br_waiting s) a ob"
  by (simp add: bridge_inv_def objects_ok_def)

text \<open>The links of a wrapper do not matter to it.\<close>

lemma object_ok_links [simp]:
  "object_ok W a (ob\<lparr>bo_next := n\<rparr>) = object_ok W a ob"
  "object_ok W a (ob\<lparr>bo_active := b, bo_retired_next := n\<rparr>) = object_ok W a ob"
  by (cases "bo_kind ob"; simp add: object_ok_def mutex_ok_def cong: option.case_cong)+

section \<open>Frames\<close>

text \<open>Components the invariant does not read.\<close>

lemma registry_inv_cong:
  "br_heap s' = br_heap s \<Longrightarrow> br_buckets s' = br_buckets s \<Longrightarrow> br_active s' = br_active s
    \<Longrightarrow> registry_inv s' \<longleftrightarrow> registry_inv s"
  by (simp add: registry_inv_def)

lemma bridge_inv_cong:
  "br_heap s' = br_heap s \<Longrightarrow> br_buckets s' = br_buckets s \<Longrightarrow> br_active s' = br_active s
    \<Longrightarrow> br_waiting s' = br_waiting s \<Longrightarrow> bridge_inv K s' \<longleftrightarrow> bridge_inv K s"
  by (simp add: bridge_inv_def cong: registry_inv_cong)

lemma bridge_inv_frame [simp]:
  "bridge_inv K (s\<lparr>br_guest := g\<rparr>) = bridge_inv K s"
  "bridge_inv K (s\<lparr>br_replies := rs\<rparr>) = bridge_inv K s"
  "bridge_inv K (s\<lparr>br_allocs := as\<rparr>) = bridge_inv K s"
  "bridge_inv K (s\<lparr>br_errno := n\<rparr>) = bridge_inv K s"
  "bridge_inv K (s\<lparr>br_handoffs := k\<rparr>) = bridge_inv K s"
  "bridge_inv K (s\<lparr>br_log := l\<rparr>) = bridge_inv K s"
  "bridge_inv K (s\<lparr>br_threads := ts\<rparr>) = bridge_inv K s"
  "bridge_inv K (s\<lparr>br_keys := ks\<rparr>) = bridge_inv K s"
  "bridge_inv K (s\<lparr>br_specific := sp\<rparr>) = bridge_inv K s"
  by (rule bridge_inv_cong; simp)+

lemma guest_write_simps [simp]:
  "bridge_inv K (guest_write p v s) = bridge_inv K s"
  "br_heap (guest_write p v s) = br_heap s"
  "br_waiting (guest_write p v s) = br_waiting s"
  by (simp_all add: guest_write_def)

lemma log_event_simps [simp]:
  "bridge_inv K (log_event ev s) = bridge_inv K s"
  "br_heap (log_event ev s) = br_heap s"
  "br_waiting (log_event ev s) = br_waiting s"
  by (simp_all add: log_event_def)

lemma host_reply_cases:
  obtains r rs where "host_reply s = (r, s\<lparr>br_replies := rs\<rparr>)"
proof (cases "br_replies s")
  case Nil
  then have "host_reply s = (0, s\<lparr>br_replies := []\<rparr>)" by (simp add: host_reply_def)
  then show ?thesis using that by blast
next
  case (Cons r rs)
  then show ?thesis using that by (simp add: host_reply_def)
qed

text \<open>The fields of a wrapper the registry reads.\<close>

definition registry_same :: "bridge_object \<Rightarrow> bridge_object \<Rightarrow> bool" where
  "registry_same ob ob' \<longleftrightarrow>
     bo_magic ob' = bo_magic ob \<and> bo_kind ob' = bo_kind ob \<and> bo_active ob' = bo_active ob
     \<and> bo_owner ob' = bo_owner ob \<and> bo_raw ob' = bo_raw ob \<and> bo_next ob' = bo_next ob"

lemma active_set_upd_same:
  "h a = Some ob \<Longrightarrow> registry_same ob ob' \<Longrightarrow> active_set (h(a \<mapsto> ob')) = active_set h"
  by (auto simp: active_set_def registry_same_def)

lemma registry_inv_upd:
  assumes inv: "registry_inv s" and ob: "br_heap s a = Some ob" "registry_same ob ob'"
    and s': "br_heap s' = (br_heap s)(a \<mapsto> ob')" "br_buckets s' = br_buckets s" "br_active s' = br_active s"
  shows "registry_inv s'"
proof -
  have ch: "chain ((br_heap s)(a \<mapsto> ob')) c xs \<longleftrightarrow> chain (br_heap s) c xs" for c xs
    using ob by (intro chain_upd_keep) (auto simp: registry_same_def)
  have en: "entry_ok ((br_heap s)(a \<mapsto> ob')) b x \<longleftrightarrow> entry_ok (br_heap s) b x" for b x
    using ob by (auto simp: entry_ok_def registry_same_def)
  have "a \<noteq> 0" using inv ob by (auto simp: registry_inv_def)
  with inv show ?thesis
    using ob active_set_upd_same [where h = "br_heap s" and a = a and ob = ob and ob' = ob']
    unfolding registry_inv_def bucket_ok_def s' ch en by simp
qed

lemma bridge_inv_upd:
  assumes inv: "bridge_inv K s" and ob: "br_heap s a = Some ob" "registry_same ob (f ob)"
    and ok: "object_ok (br_waiting s) a (f ob)"
  shows "bridge_inv K (update_object a f s)"
proof -
  have "registry_inv (update_object a f s)"
    by (rule registry_inv_upd [OF bridge_inv_registry [OF inv] ob]) (simp_all add: update_object_def ob)
  moreover have "objects_ok (br_heap (update_object a f s)) (br_waiting s)"
    using inv ok ob by (auto simp: bridge_inv_def objects_ok_def update_object_def)
  moreover have "waiting_ok (br_heap (update_object a f s)) (br_waiting s)
      \<and> watched_ok (br_heap (update_object a f s)) K"
    using ob bridge_inv_kept [OF inv kinds_kept_upd [where h = "br_heap s" and a = a and ob = ob and ob' = "f ob"]]
    by (auto simp add: update_object_def registry_same_def)
  ultimately show ?thesis by (simp add: bridge_inv_def update_object_def)
qed

lemma bridge_inv_set_host:
  assumes "bridge_inv K s" "br_heap s a = Some ob" "object_ok (br_waiting s) a (ob\<lparr>bo_host := u\<rparr>)"
  shows "bridge_inv K (set_host a u s)"
  unfolding set_host_def by (rule bridge_inv_upd [OF assms(1,2)]) (use assms(3) in \<open>simp_all add: registry_same_def\<close>)

section \<open>Creation and retirement keep the invariant\<close>

definition no_users :: "waiting \<Rightarrow> u32 \<Rightarrow> bool" where
  "no_users W a \<longleftrightarrow> (\<forall>w\<in>set W. fst (snd w) \<noteq> a \<and> snd (snd w) \<noteq> a)"

lemma no_users_counts: "no_users W a \<Longrightarrow> mutex_users W a = 0 \<and> cond_users W a = 0"
  by (auto simp: no_users_def mutex_users_def cond_users_def filter_empty_conv)

lemma waiting_not_free:
  "waiting_ok h W \<Longrightarrow> h a = None \<Longrightarrow> no_users W a"
  by (auto simp: waiting_ok_def no_users_def)

definition good_init :: "object_kind \<Rightarrow> (u32 \<Rightarrow> bridge \<Rightarrow> int \<times> bridge) \<Rightarrow> bool" where
  "good_init kind host_init \<longleftrightarrow>
     (\<forall>a s ob. br_heap s a = Some ob \<and> bo_kind ob = kind \<and> bo_mutex_owner ob = 0 \<and> bo_mutex_depth ob = 0 \<longrightarrow>
        (\<exists>r rs ob'. host_init a s = (r, s\<lparr>br_replies := rs, br_heap := (br_heap s)(a \<mapsto> ob')\<rparr>)
           \<and> registry_same ob ob' \<and> (r = 0 \<longrightarrow> (\<forall>W. no_users W a \<longrightarrow> object_ok W a ob'))))"

lemma good_initD:
  "good_init kind host_init \<Longrightarrow> br_heap s a = Some ob \<Longrightarrow> bo_kind ob = kind \<Longrightarrow> bo_mutex_owner ob = 0
    \<Longrightarrow> bo_mutex_depth ob = 0 \<Longrightarrow>
    \<exists>r rs ob'. host_init a s = (r, s\<lparr>br_replies := rs, br_heap := (br_heap s)(a \<mapsto> ob')\<rparr>)
       \<and> registry_same ob ob' \<and> (r = 0 \<longrightarrow> (\<forall>W. no_users W a \<longrightarrow> object_ok W a ob'))"
  unfolding good_init_def by blast

lemma under_construction_publish:
  assumes inv: "bridge_inv K s0" and uc: "under_construction s0 a s" and W: "br_waiting s = br_waiting s0"
    and ob: "br_heap s a = Some ob" "object_ok (br_waiting s0) a ob"
  shows "\<exists>s'. object_publish_locked a s = Some s' \<and> bridge_inv K s' \<and> br_waiting s' = br_waiting s0
     \<and> br_heap s' = (br_heap s)(a \<mapsto> ob\<lparr>bo_next := br_buckets s (registry_bucket (bo_raw ob))\<rparr>)
     \<and> br_guest s' = (br_guest s)(bo_owner ob := bo_raw ob)"
proof -
  obtain s' where s': "object_publish_locked a s = Some s'" "registry_inv s'"
    using publish_inv [OF bridge_inv_registry [OF inv] uc] by blast
  have h': "br_heap s' = (br_heap s)(a \<mapsto> ob\<lparr>bo_next := br_buckets s (registry_bucket (bo_raw ob))\<rparr>)"
    "br_waiting s' = br_waiting s" "br_guest s' = (br_guest s)(bo_owner ob := bo_raw ob)"
    using s'(1) ob by (auto simp: object_publish_locked_def slot_store_def Let_def)
  from uc have h: "br_heap s = (br_heap s0)(a \<mapsto> ob)" "br_heap s0 a = None"
    using ob(1) by (auto simp: under_construction_def)
  from inv ob h have "objects_ok (br_heap s') (br_waiting s0)"
    unfolding h' by (auto simp: bridge_inv_def objects_ok_def)
  moreover have "waiting_ok (br_heap s') (br_waiting s0) \<and> watched_ok (br_heap s') K"
    using h bridge_inv_kept [OF inv kinds_kept_fresh [where h = "br_heap s0" and a = a]]
    unfolding h' by simp
  ultimately show ?thesis using s' h' W by (simp add: bridge_inv_def)
qed

lemma allocate_cases:
  assumes "br_heap s 0 = None"
  obtains (failed) e as where "object_allocate_locked slot kind s = (e, 0, s\<lparr>br_allocs := as\<rparr>)" "e \<noteq> 0"
  | (fresh) a as where "object_allocate_locked slot kind s = (0, a, s\<lparr>br_allocs := as,
      br_heap := (br_heap s)(a \<mapsto> fresh_object a slot kind)\<rparr>)" "a \<noteq> 0" "br_heap s a = None"
proof (cases "br_allocs s")
  case Nil
  then have "object_allocate_locked slot kind s = (e_nomem, 0, s\<lparr>br_allocs := []\<rparr>)"
    by (simp add: object_allocate_locked_def calloc_wrapper_def)
  then show ?thesis by (rule failed) simp
next
  case (Cons reply as)
  show ?thesis
  proof (cases reply)
    case None
    with Cons have "object_allocate_locked slot kind s = (e_nomem, 0, s\<lparr>br_allocs := as\<rparr>)"
      by (simp add: object_allocate_locked_def calloc_wrapper_def)
    then show ?thesis by (rule failed) simp
  next
    case (Some address)
    consider (used) "address < 2 ^ 32 \<and> br_heap s (of_nat address) \<noteq> None"
      | (bad) "\<not> (address < 2 ^ 32 \<and> br_heap s (of_nat address) \<noteq> None)"
          "address = 0 \<or> address > 0xFFFFFFFF"
      | (good) "br_heap s (of_nat address) = None" "address \<noteq> 0" "address < 2 ^ 32"
      by fastforce
    then show ?thesis
    proof cases
      case used
      with Cons Some have "object_allocate_locked slot kind s = (e_nomem, 0, s\<lparr>br_allocs := as\<rparr>)"
        by (simp add: object_allocate_locked_def calloc_wrapper_def)
      then show ?thesis by (rule failed) simp
    next
      case bad
      with Cons Some have "object_allocate_locked slot kind s = (e_overflow, 0, s\<lparr>br_allocs := as\<rparr>)"
        by (auto simp: object_allocate_locked_def calloc_wrapper_def)
      then show ?thesis by (rule failed) simp
    next
      case good
      then have "(of_nat address :: u32) \<noteq> 0"
        using nat_dvd_not_less [of address "2 ^ 32"] by (simp add: word_of_nat_eq_0_iff)
      moreover have "object_allocate_locked slot kind s = (0, of_nat address, s\<lparr>br_allocs := as,
          br_heap := (br_heap s)(of_nat address \<mapsto> fresh_object (of_nat address) slot kind)\<rparr>)"
        using good Cons Some by (simp add: object_allocate_locked_def calloc_wrapper_def Let_def)
      ultimately show ?thesis using good by (intro fresh)
    qed
  qed
qed

text \<open>What a creating operation leaves behind: the old state, or one wrapper more.\<close>

definition grown :: "bridge \<Rightarrow> bridge \<Rightarrow> bool" where
  "grown s s' \<longleftrightarrow> kinds_kept (br_heap s) (br_heap s') \<and> br_waiting s' = br_waiting s"

lemma grown_refl [simp]: "grown s s"
  by (simp add: grown_def)

lemma grown_trans: "grown s s1 \<Longrightarrow> grown s1 s2 \<Longrightarrow> grown s s2"
  unfolding grown_def using kinds_kept_trans by metis

definition wrapper_at :: "bridge \<Rightarrow> u32 \<Rightarrow> u32 \<Rightarrow> object_kind \<Rightarrow> bool" where
  "wrapper_at s a slot kind \<longleftrightarrow> a \<noteq> 0 \<and>
     (\<exists>ob. br_heap s a = Some ob \<and> bo_active ob \<and> bo_owner ob = slot \<and> bo_kind ob = kind)"

definition created :: "watched \<Rightarrow> bridge \<Rightarrow> u32 \<Rightarrow> object_kind \<Rightarrow> int \<times> u32 \<times> bridge \<Rightarrow> bool" where
  "created K s slot kind r \<longleftrightarrow>
     (case r of (e, a, s') \<Rightarrow> bridge_inv K s' \<and> grown s s'
        \<and> (a = 0 \<and> e \<noteq> 0 \<or> e = 0 \<and> wrapper_at s' a slot kind \<and> slot_load slot s' = a))"

lemma create_ok:
  assumes inv: "bridge_inv K s" and good: "good_init kind host_init"
  shows "\<exists>r. object_create_locked slot kind host_init s = Some r \<and> created K s slot kind r"
proof -
  have h0: "br_heap s 0 = None" using inv by (simp add: bridge_inv_def registry_inv_def)
  from h0 show ?thesis
  proof (cases rule: allocate_cases [where slot = slot and kind = kind])
    case (failed e as)
    with inv show ?thesis by (simp add: object_create_locked_def created_def grown_def)
  next
    case (fresh a as)
    let ?ob = "fresh_object a slot kind"
    let ?s1 = "s\<lparr>br_allocs := as, br_heap := (br_heap s)(a \<mapsto> ?ob)\<rparr>"
    from good obtain r rs ob' where i:
      "host_init a ?s1 = (r, ?s1\<lparr>br_replies := rs, br_heap := (br_heap ?s1)(a \<mapsto> ob')\<rparr>)"
      "registry_same ?ob ob'" "r = 0 \<longrightarrow> (\<forall>W. no_users W a \<longrightarrow> object_ok W a ob')"
      using good_initD [OF good, of ?s1 a ?ob] by (auto simp: fresh_object_def)
    let ?s2 = "?s1\<lparr>br_replies := rs, br_heap := (br_heap s)(a \<mapsto> ob')\<rparr>"
    have i2: "host_init a ?s1 = (r, ?s2)" using i(1) by simp
    show ?thesis
    proof (cases "r = 0")
      case True
      have uc: "under_construction s a ?s2"
        using fresh i(2) by (auto simp: under_construction_def registry_same_def fresh_object_def)
      have "no_users (br_waiting s) a"
        using inv fresh waiting_not_free by (auto simp: bridge_inv_def)
      with i(3) True have "object_ok (br_waiting s) a ob'" by blast
      then obtain s' where s': "object_publish_locked a ?s2 = Some s'" "bridge_inv K s'"
        "br_waiting s' = br_waiting s"
        "br_heap s' = (br_heap ?s2)(a \<mapsto> ob'\<lparr>bo_next := br_buckets ?s2 (registry_bucket (bo_raw ob'))\<rparr>)"
        "br_guest s' = (br_guest ?s2)(bo_owner ob' := bo_raw ob')"
        using under_construction_publish [OF inv uc] by auto
      have "object_create_locked slot kind host_init s = Some (0, a, s')"
        using fresh i2 True s'(1) by (simp add: object_create_locked_def)
      moreover have "created K s slot kind (0, a, s')"
        using s' fresh i(2) kinds_kept_fresh [of "br_heap s" a]
        by (simp add: created_def grown_def wrapper_at_def registry_same_def fresh_object_def slot_load_def)
      ultimately show ?thesis by blast
    next
      case False
      have heap: "br_heap (free_object a ?s2) = br_heap s"
        using fresh by (simp add: free_object_def fun_upd_idem)
      have "bridge_inv K (free_object a ?s2) = bridge_inv K s"
        by (rule bridge_inv_cong, rule heap) (simp_all add: free_object_def)
      moreover have "grown s (free_object a ?s2)"
        unfolding grown_def heap by (simp add: free_object_def)
      ultimately have "created K s slot kind (r, 0, free_object a ?s2)"
        using False inv by (simp add: created_def)
      moreover have "object_create_locked slot kind host_init s = Some (r, 0, free_object a ?s2)"
        using fresh i2 False by (simp add: object_create_locked_def)
      ultimately show ?thesis by blast
    qed
  qed
qed

lemma get_or_create_ok:
  assumes inv: "bridge_inv K s" and good: "\<And>x raw. classify raw = Inr x \<Longrightarrow> good_init kind (host_init x)"
    and err: "\<And>raw e. classify raw = Inl e \<Longrightarrow> e \<noteq> 0"
  shows "\<exists>r. get_or_create kind classify host_init slot s = Some r \<and> created K s slot kind r"
proof (cases "slot = 0")
  case True
  with inv show ?thesis by (simp add: get_or_create_def created_def)
next
  case False
  note find = registry_find_eq [OF bridge_inv_registry [OF inv], of "slot_load slot s" slot kind]
  show ?thesis
  proof (cases "live_handle s (slot_load slot s) slot kind")
    case True
    then have "slot_load slot s \<noteq> 0"
      using inv by (auto simp: live_handle_def bridge_inv_def registry_inv_def)
    with True False find inv show ?thesis
      by (auto simp: get_or_create_def created_def wrapper_at_def live_handle_def)
  next
    case False
    show ?thesis
    proof (cases "classify (slot_load slot s)")
      case (Inl e)
      with False find \<open>slot \<noteq> 0\<close> inv err [OF Inl] show ?thesis
        by (simp add: get_or_create_def created_def)
    next
      case (Inr x)
      with False find \<open>slot \<noteq> 0\<close> create_ok [OF inv good [OF Inr], of slot] show ?thesis
        by (simp add: get_or_create_def)
    qed
  qed
qed

lemma retire_ok:
  assumes inv: "bridge_inv K s" and ob: "br_heap s a = Some ob" "bo_active ob"
  shows "\<exists>s'. object_retire_locked a s = Some s' \<and> bridge_inv K s' \<and> grown s s'
     \<and> \<not> live_handle s' a slot kind"
proof -
  obtain s' rn where s': "object_retire_locked a s = Some s'" "registry_inv s'"
    "br_heap s' a = Some (ob\<lparr>bo_active := False, bo_retired_next := rn\<rparr>)"
    and other: "\<And>p. p \<noteq> a \<Longrightarrow> br_heap s' p = br_heap s p \<or>
          (\<exists>po v. br_heap s p = Some po \<and> br_heap s' p = Some (po\<lparr>bo_next := v\<rparr>))"
    and W: "br_waiting s' = br_waiting s"
    using retire_inv [OF bridge_inv_registry [OF inv] ob] by blast
  have k: "kinds_kept (br_heap s) (br_heap s')"
    unfolding kinds_kept_def
  proof (intro allI impI)
    fix p po assume "br_heap s p = Some po"
    then show "\<exists>ob'. br_heap s' p = Some ob' \<and> bo_kind ob' = bo_kind po \<and> (bo_active ob' \<longrightarrow> bo_active po)"
      using other [of p] s'(3) ob by (cases "p = a") auto
  qed
  have "objects_ok (br_heap s') (br_waiting s)"
    unfolding objects_ok_def
  proof (intro allI impI)
    fix p po assume p: "br_heap s' p = Some po"
    show "object_ok (br_waiting s) p po"
    proof (cases "p = a")
      case True
      with p s'(3) bridge_inv_object [OF inv ob(1)] show ?thesis by auto
    next
      case False
      from other [OF False] p bridge_inv_object [OF inv, of p] show ?thesis by auto
    qed
  qed
  moreover have "waiting_ok (br_heap s') (br_waiting s) \<and> watched_ok (br_heap s') K"
    using bridge_inv_kept [OF inv k] by simp
  ultimately show ?thesis using s' k W by (auto simp: bridge_inv_def grown_def live_handle_def)
qed

section \<open>Every operation is defined and keeps the invariant\<close>

definition safe :: "watched \<Rightarrow> result \<Rightarrow> bool" where
  "safe K r \<longleftrightarrow> (\<exists>out s'. r = Some (out, s') \<and> bridge_inv K s')"

lemma safe_Some [simp]: "safe K (Some (out, s)) \<longleftrightarrow> bridge_inv K s"
  by (simp add: safe_def)

lemma safe_pair [simp]: "safe K (Some r) \<longleftrightarrow> bridge_inv K (snd r)"
  by (cases r) simp

lemma good_init_set_host:
  assumes "\<And>ob W. bo_kind ob = kind \<Longrightarrow> no_users W a \<Longrightarrow> object_ok W a (ob\<lparr>bo_host := u\<rparr>)"
    "br_heap s a = Some ob" "bo_kind ob = kind"
  shows "\<exists>r rs ob'. (case host_reply s of (r, s1) \<Rightarrow> (r, if r = 0 then set_host a u s1 else s1))
      = (r, s\<lparr>br_replies := rs, br_heap := (br_heap s)(a \<mapsto> ob')\<rparr>)
     \<and> registry_same ob ob' \<and> (r = 0 \<longrightarrow> (\<forall>W. no_users W a \<longrightarrow> object_ok W a ob'))"
proof -
  obtain r rs where r: "host_reply s = (r, s\<lparr>br_replies := rs\<rparr>)" by (rule host_reply_cases)
  show ?thesis
  proof (cases "r = 0")
    case True
    with r assms show ?thesis
      by (intro exI [of _ r] exI [of _ rs] exI [of _ "ob\<lparr>bo_host := u\<rparr>"])
        (simp add: set_host_def update_object_def registry_same_def)
  next
    case False
    with r assms(2) show ?thesis
      by (intro exI [of _ r] exI [of _ rs] exI [of _ ob])
        (simp add: registry_same_def fun_upd_idem)
  qed
qed

lemma good_attr_init: "good_init Kind_attr attr_host_init"
  unfolding good_init_def
proof (intro allI impI)
  fix a and s :: bridge and ob
  assume "br_heap s a = Some ob \<and> bo_kind ob = Kind_attr \<and> bo_mutex_owner ob = 0 \<and> bo_mutex_depth ob = 0"
  moreover have "attr_host_init a s = (case host_reply s of (r, s1) \<Rightarrow>
      (r, if r = 0 then set_host a (Host_attr False (br_stack_size s)) s1 else s1))"
    by (rule host_reply_cases [of s]) (simp add: attr_host_init_def)
  ultimately show "\<exists>r rs ob'. attr_host_init a s = (r, s\<lparr>br_replies := rs, br_heap := (br_heap s)(a \<mapsto> ob')\<rparr>)
       \<and> registry_same ob ob' \<and> (r = 0 \<longrightarrow> (\<forall>W. no_users W a \<longrightarrow> object_ok W a ob'))"
    by (simp only:) (rule good_init_set_host; simp add: object_ok_def)
qed

lemma good_cond_init: "good_init Kind_cond cond_host_init"
  unfolding good_init_def cond_host_init_def
  by (intro allI impI) (rule good_init_set_host; simp add: object_ok_def no_users_counts)

lemma good_mutexattr_init: "good_init Kind_mutex_attr mutexattr_host_init"
  unfolding good_init_def
proof (intro allI impI)
  fix a and s :: bridge and ob
  assume ob: "br_heap s a = Some ob \<and> bo_kind ob = Kind_mutex_attr \<and> bo_mutex_owner ob = 0 \<and> bo_mutex_depth ob = 0"
  obtain r rs where r: "host_reply s = (r, s\<lparr>br_replies := rs\<rparr>)" by (rule host_reply_cases)
  show "\<exists>r rs ob'. mutexattr_host_init a s = (r, s\<lparr>br_replies := rs, br_heap := (br_heap s)(a \<mapsto> ob')\<rparr>)
       \<and> registry_same ob ob' \<and> (r = 0 \<longrightarrow> (\<forall>W. no_users W a \<longrightarrow> object_ok W a ob'))"
    using r ob
    by (intro exI [of _ r] exI [of _ rs]
          exI [of _ "if r = 0 then ob\<lparr>bo_host := Host_mutex_attr host_normal, bo_mutex_type := 0\<rparr> else ob"])
      (simp add: mutexattr_host_init_def update_object_def registry_same_def object_ok_def fun_upd_idem)
qed

lemma good_sem_init: "good_init Kind_sem (sem_host_init v)"
  unfolding good_init_def
proof (intro allI impI)
  fix a and s :: bridge and ob
  assume ob: "br_heap s a = Some ob \<and> bo_kind ob = Kind_sem \<and> bo_mutex_owner ob = 0 \<and> bo_mutex_depth ob = 0"
  obtain r rs where r: "host_reply s = (r, s\<lparr>br_replies := rs\<rparr>)" by (rule host_reply_cases)
  show "\<exists>r rs ob'. sem_host_init v a s = (r, s\<lparr>br_replies := rs, br_heap := (br_heap s)(a \<mapsto> ob')\<rparr>)
       \<and> registry_same ob ob' \<and> (r = 0 \<longrightarrow> (\<forall>W. no_users W a \<longrightarrow> object_ok W a ob'))"
  proof (cases "unat v > sem_value_max")
    case True
    with ob show ?thesis
      by (intro exI [of _ e_inval] exI [of _ "br_replies s"] exI [of _ ob])
        (simp add: sem_host_init_def registry_same_def fun_upd_idem)
  next
    case False
    with r ob show ?thesis
      by (intro exI [of _ r] exI [of _ rs] exI [of _ "if r = 0 then ob\<lparr>bo_host := Host_sem (unat v)\<rparr> else ob"])
        (simp add: sem_host_init_def set_host_def update_object_def registry_same_def object_ok_def fun_upd_idem)
  qed
qed

lemma guest_type_cases:
  "guest_mutex_type_to_host g = Inr h \<Longrightarrow> h = g \<and> h \<in> {host_normal, host_recursive, host_errorcheck}"
  by (auto simp: guest_mutex_type_to_host_def split: if_splits)

lemma good_mutex_init: "good_init Kind_mutex (mutex_host_init g)"
  unfolding good_init_def
proof (intro allI impI)
  fix a and s :: bridge and ob
  assume ob: "br_heap s a = Some ob \<and> bo_kind ob = Kind_mutex \<and> bo_mutex_owner ob = 0 \<and> bo_mutex_depth ob = 0"
  let ?P = "\<lambda>r rs ob'. mutex_host_init g a s = (r, s\<lparr>br_replies := rs, br_heap := (br_heap s)(a \<mapsto> ob')\<rparr>)
       \<and> registry_same ob ob' \<and> (r = 0 \<longrightarrow> (\<forall>W. no_users W a \<longrightarrow> object_ok W a ob'))"
  have fail: "\<exists>r rs ob'. ?P r rs ob'" if "mutex_host_init g a s = (r, s\<lparr>br_replies := rs\<rparr>)" "r \<noteq> 0" for r rs
    using that ob by (intro exI [of _ r] exI [of _ rs] exI [of _ ob]) (simp add: registry_same_def fun_upd_idem)
  show "\<exists>r rs ob'. ?P r rs ob'"
  proof (cases "guest_mutex_type_to_host g")
    case (Inl e)
    then have "e = e_inval" by (simp add: guest_mutex_type_to_host_def split: if_splits)
    with Inl have "mutex_host_init g a s = (e_inval, s\<lparr>br_replies := br_replies s\<rparr>)"
      by (simp add: mutex_host_init_def)
    then show ?thesis by (rule fail) simp
  next
    case (Inr h)
    obtain r1 rs1 where r1: "host_reply s = (r1, s\<lparr>br_replies := rs1\<rparr>)" by (rule host_reply_cases)
    obtain r2 rs2 where r2: "host_reply (s\<lparr>br_replies := rs1\<rparr>) = (r2, s\<lparr>br_replies := rs2\<rparr>)"
      by (rule host_reply_cases [of "s\<lparr>br_replies := rs1\<rparr>"]) simp
    obtain r3 rs3 where r3: "host_reply (s\<lparr>br_replies := rs2\<rparr>) = (r3, s\<lparr>br_replies := rs3\<rparr>)"
      by (rule host_reply_cases [of "s\<lparr>br_replies := rs2\<rparr>"]) simp
    consider "r1 \<noteq> 0" | "r1 = 0" "r2 \<noteq> 0" | "r1 = 0" "r2 = 0" "r3 \<noteq> 0" | "r1 = 0" "r2 = 0" "r3 = 0"
      by blast
    then show ?thesis
    proof cases
      case 1
      with Inr r1 have "mutex_host_init g a s = (r1, s\<lparr>br_replies := rs1\<rparr>)"
        by (simp add: mutex_host_init_def)
      then show ?thesis using 1 by (intro fail)
    next
      case 2
      with Inr r1 r2 have "mutex_host_init g a s = (r2, s\<lparr>br_replies := rs2\<rparr>)"
        by (simp add: mutex_host_init_def)
      then show ?thesis using 2 by (intro fail)
    next
      case 3
      with Inr r1 r2 r3 have "mutex_host_init g a s = (r3, s\<lparr>br_replies := rs3\<rparr>)"
        by (simp add: mutex_host_init_def)
      then show ?thesis using 3 by (intro fail)
    next
      case 4
      let ?ob' = "ob\<lparr>bo_host := Host_mutex (new_host_mutex h), bo_mutex_type := g\<rparr>"
      have "mutex_host_init g a s = (0, s\<lparr>br_replies := rs3, br_heap := (br_heap s)(a \<mapsto> ?ob')\<rparr>)"
        using 4 Inr r1 r2 r3 ob by (simp add: mutex_host_init_def update_object_def)
      moreover have "object_ok W a ?ob'" if "no_users W a" for W
        using ob guest_type_cases [OF Inr] no_users_counts [OF that]
        by (auto simp: object_ok_def mutex_ok_def new_host_mutex_def)
      ultimately have "?P 0 rs3 ?ob'" by (simp add: registry_same_def)
      then show ?thesis by blast
    qed
  qed
qed

lemma mutex_get_or_create_ok:
  assumes "bridge_inv K s"
  shows "\<exists>r. mutex_get_or_create slot s = Some r \<and> created K s slot Kind_mutex r"
  unfolding mutex_get_or_create_def
  by (rule get_or_create_ok [OF assms good_mutex_init])
    (auto simp: static_mutex_type_def Let_def split: if_splits)

lemma cond_get_or_create_ok:
  assumes "bridge_inv K s"
  shows "\<exists>r. cond_get_or_create slot s = Some r \<and> created K s slot Kind_cond r"
  unfolding cond_get_or_create_def
  by (rule get_or_create_ok [OF assms good_cond_init]) (auto split: if_splits)

lemma sem_get_or_create_ok:
  assumes "bridge_inv K s"
  shows "\<exists>r. sem_get_or_create slot s = Some r \<and> created K s slot Kind_sem r"
  unfolding sem_get_or_create_def
  by (rule get_or_create_ok [OF assms good_sem_init]) (auto split: if_splits)

lemma init_object_ok:
  assumes inv: "bridge_inv K s" and good: "good_init kind host_init"
  shows "\<exists>e s'. init_object kind host_init slot s = Some (e, s') \<and> bridge_inv K s' \<and> grown s s'"
proof -
  obtain e a s1 where c: "object_create_locked slot kind host_init s = Some (e, a, s1)"
    "created K s slot kind (e, a, s1)"
    using create_ok [OF assms, of slot] by auto
  with inv show ?thesis
    by (simp add: init_object_def object_already_active_eq [OF bridge_inv_registry [OF inv]] created_def)
qed

end
