(* ===== verification/Asm2_BridgeCalls.thy ===== *)
theory Asm2_BridgeCalls
  imports Asm2_BridgeSafety
begin

text \<open>
  Each operation of the pthread bridge is defined on every state that satisfies the invariant and
  keeps it; by induction this holds in every state the guest reaches.
\<close>

section \<open>Attributes\<close>

lemma get_cases:
  assumes inv: "bridge_inv K s"
  obtains (missing) "object_get g kind s = Some (0, e_inval)"
  | (found) a ob where "object_get g kind s = Some (a, 0)" "a \<noteq> 0" "br_heap s a = Some ob"
      "bo_active ob" "bo_kind ob = kind" "bo_owner ob = g" "object_ok (br_waiting s) a ob"
proof (cases "g \<noteq> 0 \<and> live_handle s (slot_load g s) g kind")
  case True
  then obtain ob where ob: "br_heap s (slot_load g s) = Some ob" "bo_active ob" "bo_owner ob = g"
    "bo_kind ob = kind" by (auto simp: live_handle_def)
  have "slot_load g s \<noteq> 0" using ob inv by (auto simp: bridge_inv_def registry_inv_def)
  with True ob show ?thesis
    by (intro found [of "slot_load g s" ob])
      (simp_all add: object_get_eq [OF bridge_inv_registry [OF inv]] bridge_inv_object [OF inv])
next
  case False
  with inv show ?thesis by (intro missing) (simp add: object_get_eq [OF bridge_inv_registry [OF inv]])
qed

lemma attr_host: "bo_kind ob = Kind_attr \<Longrightarrow> object_ok W a ob \<Longrightarrow> \<exists>d n. bo_host ob = Host_attr d n"
  by (cases "bo_host ob") (simp_all add: object_ok_def)

lemma host_reply_inv:
  assumes "bridge_inv K s"
  obtains r rs where "host_reply s = (r, s\<lparr>br_replies := rs\<rparr>)" "bridge_inv K (s\<lparr>br_replies := rs\<rparr>)"
  using assms host_reply_cases [of s] by (metis bridge_inv_frame(2))

lemma set_attr_inv:
  assumes "bridge_inv K s" "br_heap s a = Some ob" "bo_kind ob = Kind_attr"
  shows "bridge_inv K (set_host a (Host_attr d n) (s\<lparr>br_replies := rs\<rparr>))"
  using assms by (intro bridge_inv_set_host [where ob = ob]) (simp_all add: object_ok_def)

lemma attr_getdetachstate_safe: "bridge_inv K s \<Longrightarrow> safe K (asm2_pthread_attr_getdetachstate g p s)"
proof -
  assume inv: "bridge_inv K s"
  obtain r rs where r: "host_reply s = (r, s\<lparr>br_replies := rs\<rparr>)" by (rule host_reply_cases)
  from inv show ?thesis
  proof (cases rule: get_cases [where g = g and kind = Kind_attr])
    case (found a ob)
    with attr_host r inv show ?thesis
      by (fastforce simp: asm2_pthread_attr_getdetachstate_def host_of_def)
  qed (use inv in \<open>simp add: asm2_pthread_attr_getdetachstate_def\<close>)
qed

lemma attr_getstacksize_safe: "bridge_inv K s \<Longrightarrow> safe K (asm2_pthread_attr_getstacksize g p s)"
proof -
  assume inv: "bridge_inv K s"
  obtain r rs where r: "host_reply s = (r, s\<lparr>br_replies := rs\<rparr>)" by (rule host_reply_cases)
  from inv show ?thesis
  proof (cases rule: get_cases [where g = g and kind = Kind_attr])
    case (found a ob)
    with attr_host r inv show ?thesis
      by (fastforce simp: asm2_pthread_attr_getstacksize_def host_of_def)
  qed (use inv in \<open>simp add: asm2_pthread_attr_getstacksize_def\<close>)
qed

lemma attr_setdetachstate_safe: "bridge_inv K s \<Longrightarrow> safe K (asm2_pthread_attr_setdetachstate g d s)"
proof -
  assume inv: "bridge_inv K s"
  obtain r rs where r: "host_reply s = (r, s\<lparr>br_replies := rs\<rparr>)" by (rule host_reply_cases)
  from inv show ?thesis
  proof (cases rule: get_cases [where g = g and kind = Kind_attr])
    case (found a ob)
    then obtain d n where "bo_host ob = Host_attr d n" using attr_host by blast
    with found r inv set_attr_inv [OF inv found(3,5)] show ?thesis
      by (simp add: asm2_pthread_attr_setdetachstate_def host_of_def)
  qed (use inv in \<open>simp add: asm2_pthread_attr_setdetachstate_def\<close>)
qed

lemma attr_setstacksize_safe: "bridge_inv K s \<Longrightarrow> safe K (asm2_pthread_attr_setstacksize g n s)"
proof -
  assume inv: "bridge_inv K s"
  obtain r rs where r: "host_reply s = (r, s\<lparr>br_replies := rs\<rparr>)" by (rule host_reply_cases)
  from inv show ?thesis
  proof (cases rule: get_cases [where g = g and kind = Kind_attr])
    case (found a ob)
    then obtain d n where "bo_host ob = Host_attr d n" using attr_host by blast
    with found r inv set_attr_inv [OF inv found(3,5)] show ?thesis
      by (simp add: asm2_pthread_attr_setstacksize_def host_of_def)
  qed (use inv in \<open>simp add: asm2_pthread_attr_setstacksize_def\<close>)
qed

lemma init_object_safe:
  assumes "bridge_inv K s" "good_init kind host_init"
  shows "safe K (returning (init_object kind host_init slot s))"
  using init_object_ok [OF assms, of slot] by (auto simp: returning_def)

lemma destroy_found_safe:
  assumes inv: "bridge_inv K s"
    and ok: "\<And>a ob. br_heap s a = Some ob \<Longrightarrow> bo_active ob \<Longrightarrow> bo_kind ob = kind \<Longrightarrow> object_ok (br_waiting s) a ob
      \<Longrightarrow> \<exists>r rs. destroy a s = Some (r, s\<lparr>br_replies := rs\<rparr>)"
  shows "safe K (destroy_found kind destroy slot s)"
proof (cases "slot = 0 \<or> \<not> live_handle s (slot_load slot s) slot kind")
  case True
  with inv show ?thesis
    by (auto simp: destroy_found_def registry_find_eq [OF bridge_inv_registry [OF inv]])
next
  case False
  let ?a = "slot_load slot s"
  from False obtain ob where ob: "br_heap s ?a = Some ob" "bo_active ob" "bo_kind ob = kind"
    by (auto simp: live_handle_def)
  then have nz: "?a \<noteq> 0" using inv by (auto simp: bridge_inv_def registry_inv_def)
  obtain r rs where r: "destroy ?a s = Some (r, s\<lparr>br_replies := rs\<rparr>)"
    using ok [OF ob bridge_inv_object [OF inv ob(1)]] by blast
  have "\<exists>s'. object_retire_locked ?a (s\<lparr>br_replies := rs\<rparr>) = Some s' \<and> bridge_inv K s'"
    using retire_ok [of K "s\<lparr>br_replies := rs\<rparr>" ?a ob] inv ob by auto
  with False r inv nz show ?thesis
    by (auto simp: destroy_found_def registry_find_eq [OF bridge_inv_registry [OF inv]])
qed

lemma attr_destroy_safe: "bridge_inv K s \<Longrightarrow> safe K (asm2_pthread_attr_destroy g s)"
  unfolding asm2_pthread_attr_destroy_def
proof (rule destroy_found_safe)
  fix a ob assume ob: "br_heap s a = Some ob" "bo_kind ob = Kind_attr" "object_ok (br_waiting s) a ob"
  obtain r rs where "host_reply s = (r, s\<lparr>br_replies := rs\<rparr>)" by (rule host_reply_cases)
  with ob attr_host [OF ob(2,3)] show "\<exists>r rs. host_attr_destroy a s = Some (r, s\<lparr>br_replies := rs\<rparr>)"
    by (auto simp: host_attr_destroy_def host_of_def)
qed

lemma mutexattr_host:
  "bo_kind ob = Kind_mutex_attr \<Longrightarrow> object_ok W a ob
    \<Longrightarrow> \<exists>ty. bo_host ob = Host_mutex_attr ty \<and> bo_mutex_type ob = ty \<and> (ty = 0 \<or> ty = 1 \<or> ty = 2)"
  by (auto simp: object_ok_def)

lemma mutexattr_destroy_safe: "bridge_inv K s \<Longrightarrow> safe K (asm2_pthread_mutexattr_destroy g s)"
  unfolding asm2_pthread_mutexattr_destroy_def
proof (rule destroy_found_safe)
  fix a ob assume ob: "br_heap s a = Some ob" "bo_kind ob = Kind_mutex_attr" "object_ok (br_waiting s) a ob"
  obtain r rs where "host_reply s = (r, s\<lparr>br_replies := rs\<rparr>)" by (rule host_reply_cases)
  with ob mutexattr_host [OF ob(2,3)] show "\<exists>r rs. host_mutexattr_destroy a s = Some (r, s\<lparr>br_replies := rs\<rparr>)"
    by (auto simp: host_mutexattr_destroy_def host_of_def)
qed

lemma mutexattr_gettype_safe: "bridge_inv K s \<Longrightarrow> safe K (asm2_pthread_mutexattr_gettype g p s)"
proof -
  assume inv: "bridge_inv K s"
  obtain r rs where r: "host_reply s = (r, s\<lparr>br_replies := rs\<rparr>)" by (rule host_reply_cases)
  from inv show ?thesis
  proof (cases rule: get_cases [where g = g and kind = Kind_mutex_attr])
    case (found a ob)
    then obtain ty where "bo_host ob = Host_mutex_attr ty" using mutexattr_host by blast
    with found r inv show ?thesis
      by (simp add: asm2_pthread_mutexattr_gettype_def host_of_def split: sum.split)
  qed (use inv in \<open>simp add: asm2_pthread_mutexattr_gettype_def\<close>)
qed

lemma mutexattr_settype_safe: "bridge_inv K s \<Longrightarrow> safe K (asm2_pthread_mutexattr_settype g ty s)"
proof (cases "guest_mutex_type_to_host ty")
  case (Inr h)
  assume inv: "bridge_inv K s"
  obtain r rs where r: "host_reply s = (r, s\<lparr>br_replies := rs\<rparr>)" by (rule host_reply_cases)
  from inv show ?thesis
  proof (cases rule: get_cases [where g = g and kind = Kind_mutex_attr])
    case (found a ob)
    then obtain old where "bo_host ob = Host_mutex_attr old" using mutexattr_host by blast
    moreover have "bridge_inv K (update_object a (\<lambda>ob. ob\<lparr>bo_host := Host_mutex_attr h, bo_mutex_type := ty\<rparr>)
        (s\<lparr>br_replies := rs\<rparr>))"
      using inv found guest_type_cases [OF Inr]
      by (intro bridge_inv_upd [where ob = ob]) (auto simp: registry_same_def object_ok_def)
    ultimately show ?thesis using found r inv Inr
      by (simp add: asm2_pthread_mutexattr_settype_def host_of_def)
  qed (use inv Inr in \<open>simp add: asm2_pthread_mutexattr_settype_def\<close>)
qed (simp add: asm2_pthread_mutexattr_settype_def)

section \<open>Mutexes\<close>

lemma mutex_create_cases:
  assumes "bridge_inv K s"
  obtains (failed) e s1 where "mutex_get_or_create g s = Some (e, 0, s1)" "e \<noteq> 0" "bridge_inv K s1" "grown s s1"
  | (found) a s1 ob m where "mutex_get_or_create g s = Some (0, a, s1)" "a \<noteq> 0" "bridge_inv K s1" "grown s s1"
      "br_heap s1 a = Some ob" "bo_active ob" "bo_kind ob = Kind_mutex" "bo_owner ob = g"
      "bo_host ob = Host_mutex m" "mutex_ok ob m" "hm_users m = mutex_users (br_waiting s1) a"
      "slot_load g s1 = a"
proof -
  obtain e a s1 where r: "mutex_get_or_create g s = Some (e, a, s1)" "created K s g Kind_mutex (e, a, s1)"
    using mutex_get_or_create_ok [OF assms, of g] by auto
  show ?thesis
  proof (cases "a = 0")
    case True
    with r failed [of e s1] show ?thesis by (simp add: created_def wrapper_at_def)
  next
    case False
    with r obtain ob where ob: "br_heap s1 a = Some ob" "bo_active ob" "bo_kind ob = Kind_mutex" "bo_owner ob = g"
      "bridge_inv K s1" "grown s s1" "e = 0" "slot_load g s1 = a"
      by (auto simp: created_def wrapper_at_def)
    with bridge_inv_object [OF ob(5,1)] obtain m where
      "bo_host ob = Host_mutex m" "mutex_ok ob m" "hm_users m = mutex_users (br_waiting s1) a"
      by (auto simp: object_ok_def)
    with r ob False show ?thesis by (intro found [of a s1 ob m]) simp_all
  qed
qed

lemma mutex_ok_host [simp]: "mutex_ok (ob\<lparr>bo_host := u\<rparr>) m = mutex_ok ob m"
  by (simp add: mutex_ok_def cong: option.case_cong)

lemma record_acquired_simps [simp]:
  "bo_kind (mutex_record_acquired t ob) = bo_kind ob"
  "bo_host (mutex_record_acquired t ob) = bo_host ob"
  "mutex_record_acquired t (ob\<lparr>bo_host := u\<rparr>) = (mutex_record_acquired t ob)\<lparr>bo_host := u\<rparr>"
  by (simp_all add: mutex_record_acquired_def)

lemma record_acquired_same: "registry_same ob (mutex_record_acquired t ob)"
  by (simp add: mutex_record_acquired_def registry_same_def)

lemma registry_same_host [simp]: "registry_same ob (ob'\<lparr>bo_host := u\<rparr>) = registry_same ob ob'"
  by (simp add: registry_same_def)

lemma lock_keeps:
  assumes ok: "mutex_ok ob m" and t: "t \<noteq> 0" and l: "host_lock t m = Locked m'"
  shows "mutex_ok (mutex_record_acquired t ob) m' \<and> hm_users m' = hm_users m"
proof (cases "hm_holder m")
  case None
  with l have "m' = m\<lparr>hm_holder := Some t, hm_count := 1\<rparr>" "hm_type m \<noteq> host_destroyed"
    by (auto simp: host_lock_def split: if_splits)
  with None ok t show ?thesis
    by (auto simp: mutex_ok_def mutex_record_acquired_def mutex_current_owner_def)
next
  case (Some h)
  with l have h: "h = t" "hm_type m = host_recursive" "hm_count m < 2 ^ 32 - 1"
    "m' = m\<lparr>hm_count := hm_count m + 1\<rparr>"
    by (auto simp: host_lock_def split: if_splits)
  with Some ok t show ?thesis
    by (auto simp: mutex_ok_def mutex_record_acquired_def mutex_current_owner_def)
qed

lemma trylock_is_lock: "host_trylock t m = Locked m' \<Longrightarrow> host_lock t m = Locked m'"
  by (auto simp: host_trylock_def split: option.splits if_splits)

lemma trylock_never_blocks: "host_trylock t m \<noteq> Lock_blocks"
  by (auto simp: host_trylock_def host_lock_def split: option.splits)

lemma finish_lock_inv:
  assumes inv: "bridge_inv K s" and ob: "br_heap s a = Some ob" "bo_kind ob = Kind_mutex"
    "bo_host ob = Host_mutex m" "mutex_ok ob m" "hm_users m = mutex_users (br_waiting s) a"
    and t: "t \<noteq> 0" and l: "\<And>m'. r = Locked m' \<Longrightarrow> host_lock t m = Locked m'"
  shows "bridge_inv K (snd (finish_lock t a r s))"
proof (cases r)
  case (Locked m')
  note k = lock_keeps [OF ob(4) t l [OF Locked]]
  have e: "update_object a (mutex_record_acquired t) (set_host a (Host_mutex m') s)
      = update_object a (\<lambda>_. mutex_record_acquired t (ob\<lparr>bo_host := Host_mutex m'\<rparr>)) s"
    using ob by (simp add: update_object_def set_host_def)
  have "bridge_inv K (update_object a (\<lambda>_. mutex_record_acquired t (ob\<lparr>bo_host := Host_mutex m'\<rparr>)) s)"
    by (rule bridge_inv_upd [OF inv ob(1)])
      (use ob k in \<open>simp_all add: record_acquired_same object_ok_def\<close>)
  with e show ?thesis by (simp add: finish_lock_def Locked)
qed (use inv in \<open>simp_all add: finish_lock_def\<close>)

lemma host_mutex_at_Some:
  "br_heap s a = Some ob \<Longrightarrow> bo_host ob = Host_mutex m \<Longrightarrow> host_mutex_at a s = Some m"
  by (simp add: host_mutex_at_def host_of_def)

lemma mutex_lock_safe:
  assumes inv: "bridge_inv K s" and t: "t \<noteq> 0"
  shows "safe K (asm2_pthread_mutex_lock t g s)"
  using inv
proof (cases rule: mutex_create_cases [where g = g])
  case (found a s1 ob m)
  have "bridge_inv K (snd (finish_lock t a (host_lock t m) s1))"
    by (rule finish_lock_inv [OF found(3,5,7,9,10,11) t])
  with found show ?thesis by (simp add: asm2_pthread_mutex_lock_def host_mutex_at_Some)
qed (simp add: asm2_pthread_mutex_lock_def)

lemma mutex_trylock_safe:
  assumes inv: "bridge_inv K s" and t: "t \<noteq> 0"
  shows "safe K (asm2_pthread_mutex_trylock t g s)"
  using inv
proof (cases rule: mutex_create_cases [where g = g])
  case (found a s1 ob m)
  have "bridge_inv K (snd (finish_lock t a (host_trylock t m) s1))"
    by (rule finish_lock_inv [OF found(3,5,7,9,10,11) t trylock_is_lock])
  with found show ?thesis by (simp add: asm2_pthread_mutex_trylock_def host_mutex_at_Some)
qed (simp add: asm2_pthread_mutex_trylock_def)

text \<open>A thread that passes the bridge's ownership test holds the host mutex.\<close>

lemma releasing_holds:
  assumes ok: "mutex_ok ob m" and t: "t \<noteq> 0" and r: "mutex_record_releasing t ob = Some (ob1, d)"
  shows "hm_holder m = Some t" "d = of_nat (hm_count m)" "hm_type m \<noteq> host_destroyed"
    "\<exists>m1. host_unlock t m = Some (Locked m1) \<and> mutex_ok ob1 m1 \<and> hm_users m1 = hm_users m"
    "registry_same ob ob1" "bo_host ob1 = bo_host ob"
    "mutex_record_restore t d ob1 = ob"
    "d = 1 \<Longrightarrow> hm_count m = 1 \<and> bo_mutex_owner ob1 = 0 \<and> bo_mutex_depth ob1 = 0"
proof -
  from r t have o: "bo_mutex_owner ob = t" "bo_mutex_depth ob \<noteq> 0" "d = bo_mutex_depth ob"
    by (auto simp: mutex_record_releasing_def mutex_current_owner_def Let_def split: if_splits)
  show h: "hm_holder m = Some t"
    using ok o t by (auto simp: mutex_ok_def split: option.splits)
  with ok have c: "bo_mutex_depth ob = of_nat (hm_count m)" "1 \<le> hm_count m" "hm_count m \<le> 2 ^ 32 - 1"
    "hm_type m \<noteq> host_recursive \<longrightarrow> hm_count m = 1"
    by (auto simp: mutex_ok_def)
  then show "d = of_nat (hm_count m)" using o by simp
  show ty: "hm_type m \<noteq> host_destroyed" using ok h by (auto simp: mutex_ok_def)
  have u: "unat (bo_mutex_depth ob) = hm_count m"
    using c by (simp add: unat_of_nat)
  have gt: "bo_mutex_depth ob > 1 \<longleftrightarrow> hm_count m > 1"
    using u by (simp add: word_less_nat_alt)
  show "\<exists>m1. host_unlock t m = Some (Locked m1) \<and> mutex_ok ob1 m1 \<and> hm_users m1 = hm_users m"
  proof (cases "hm_count m > 1")
    case True
    let ?m1 = "m\<lparr>hm_count := hm_count m - 1\<rparr>"
    have "ob1 = ob\<lparr>bo_mutex_depth := bo_mutex_depth ob - 1\<rparr>"
      using r True gt by (auto simp: mutex_record_releasing_def Let_def split: if_splits)
    moreover have "bo_mutex_depth ob - 1 = of_nat (hm_count m - 1)"
      using c(1) True by (simp add: of_nat_diff)
    ultimately have "mutex_ok ob1 ?m1"
      using ok h o True t by (auto simp: mutex_ok_def)
    with h ty True show ?thesis by (simp add: host_unlock_def)
  next
    case False
    with r gt have "ob1 = ob\<lparr>bo_mutex_owner := 0, bo_mutex_depth := 0\<rparr>"
      by (auto simp: mutex_record_releasing_def Let_def split: if_splits)
    moreover have "mutex_ok (ob\<lparr>bo_mutex_owner := 0, bo_mutex_depth := 0\<rparr>) (m\<lparr>hm_holder := None, hm_count := 0\<rparr>)"
      using ok h ty by (auto simp: mutex_ok_def)
    ultimately show ?thesis using h ty False by (simp add: host_unlock_def)
  qed
  show "registry_same ob ob1" "bo_host ob1 = bo_host ob" "mutex_record_restore t d ob1 = ob"
    using r o t by (auto simp: mutex_record_releasing_def registry_same_def mutex_record_restore_def
        mutex_current_owner_def Let_def split: if_splits)
  show "hm_count m = 1 \<and> bo_mutex_owner ob1 = 0 \<and> bo_mutex_depth ob1 = 0" if "d = 1"
  proof -
    have "hm_count m = 1" using u o that by simp
    moreover have "\<not> bo_mutex_depth ob > 1" using o that by simp
    ultimately show ?thesis
      using r by (auto simp: mutex_record_releasing_def Let_def split: if_splits)
  qed
qed

lemma release_mutex_ok:
  assumes inv: "bridge_inv K s" and ob: "br_heap s a = Some ob" "bo_kind ob = Kind_mutex"
    "bo_host ob = Host_mutex m" "mutex_ok ob m" "hm_users m = mutex_users (br_waiting s) a"
    and t: "t \<noteq> 0"
  shows "\<exists>e s'. release_mutex t a s = Some (e, s') \<and> bridge_inv K s' \<and> kinds_kept (br_heap s) (br_heap s')"
proof (cases "mutex_record_releasing t ob")
  case None
  with inv ob show ?thesis by (simp add: release_mutex_def)
next
  case (Some p)
  obtain ob1 d where p: "p = (ob1, d)" by (cases p)
  note r = releasing_holds [OF ob(4) t Some [unfolded p]]
  obtain m1 where m1: "host_unlock t m = Some (Locked m1)" "mutex_ok ob1 m1" "hm_users m1 = hm_users m"
    using r(4) by blast
  have e: "release_mutex t a s = Some (0, update_object a (\<lambda>_. ob1\<lparr>bo_host := Host_mutex m1\<rparr>) s)"
    using ob Some p m1(1) r(6)
    by (simp add: release_mutex_def update_object_def host_mutex_at_def host_of_def set_host_def)
  have "bridge_inv K (update_object a (\<lambda>_. ob1\<lparr>bo_host := Host_mutex m1\<rparr>) s)"
    by (rule bridge_inv_upd [OF inv ob(1)])
      (use ob m1 r(5) in \<open>simp_all add: object_ok_def\<close>, simp add: registry_same_def)
  moreover have "kinds_kept (br_heap s) (br_heap (update_object a (\<lambda>_. ob1\<lparr>bo_host := Host_mutex m1\<rparr>) s))"
    using ob(1,2) r(5) by (simp add: update_object_def kinds_kept_def registry_same_def)
  ultimately show ?thesis using e by blast
qed

lemma mutex_unlock_safe:
  assumes inv: "bridge_inv K s" and t: "t \<noteq> 0"
  shows "safe K (asm2_pthread_mutex_unlock t g s)"
  using inv
proof (cases rule: mutex_create_cases [where g = g])
  case (found a s1 ob m)
  show ?thesis
    using release_mutex_ok [OF found(3,5,7,9,10,11) t] found
    by (auto simp: asm2_pthread_mutex_unlock_def returning_def)
qed (simp add: asm2_pthread_mutex_unlock_def returning_def)

lemma mutex_init_safe:
  assumes inv: "bridge_inv K s"
  shows "safe K (asm2_pthread_mutex_init g attr s)"
proof (cases "g = 0 \<or> attr = 0")
  case True
  with inv init_object_safe [OF inv good_mutex_init] show ?thesis
    by (auto simp: asm2_pthread_mutex_init_def)
next
  case False
  from inv show ?thesis
  proof (cases rule: get_cases [where g = attr and kind = Kind_mutex_attr])
    case missing
    with False inv show ?thesis by (simp add: asm2_pthread_mutex_init_def)
  next
    case (found a ob)
    with False init_object_safe [OF inv good_mutex_init] show ?thesis
      by (simp add: asm2_pthread_mutex_init_def)
  qed
qed

lemma mutex_destroy_safe:
  assumes inv: "bridge_inv K s"
  shows "safe K (asm2_pthread_mutex_destroy g s)"
  using inv
proof (cases rule: mutex_create_cases [where g = g])
  case (found a s1 ob m)
  show ?thesis
  proof (cases "hm_type m = host_destroyed \<or> hm_holder m \<noteq> None \<or> hm_users m > 0")
    case True
    with found show ?thesis
      by (auto simp: asm2_pthread_mutex_destroy_def host_mutex_destroy_def host_mutex_at_Some)
  next
    case False
    let ?m = "m\<lparr>hm_type := host_destroyed\<rparr>"
    let ?s2 = "set_host a (Host_mutex ?m) s1"
    have "mutex_ok ob ?m" using found(10) False by (auto simp: mutex_ok_def)
    then have i: "bridge_inv K ?s2"
      using found by (intro bridge_inv_set_host [OF found(3,5)]) (auto simp: object_ok_def)
    have h: "br_heap ?s2 a = Some (ob\<lparr>bo_host := Host_mutex ?m\<rparr>)"
      using found(5) by (simp add: set_host_def update_object_def)
    have d: "host_mutex_destroy a s1 = Some (0, ?s2)"
      using False host_mutex_at_Some [OF found(5,9)] by (simp add: host_mutex_destroy_def)
    obtain s3 where "object_retire_locked a ?s2 = Some s3" "bridge_inv K s3"
      using retire_ok [OF i h] found(6) by auto
    with found(1,2) d show ?thesis by (simp add: asm2_pthread_mutex_destroy_def)
  qed
qed (simp add: asm2_pthread_mutex_destroy_def)

section \<open>Condition variables\<close>

lemma cond_create_cases:
  assumes "bridge_inv K s"
  obtains (failed) e s1 where "cond_get_or_create g s = Some (e, 0, s1)" "e \<noteq> 0" "bridge_inv K s1" "grown s s1"
  | (found) a s1 ob where "cond_get_or_create g s = Some (0, a, s1)" "a \<noteq> 0" "bridge_inv K s1" "grown s s1"
      "br_heap s1 a = Some ob" "bo_active ob" "bo_kind ob = Kind_cond"
      "bo_host ob = Host_cond (cond_users (br_waiting s1) a)" "host_of a s1 = Host_cond (cond_users (br_waiting s1) a)"
proof -
  obtain e a s1 where r: "cond_get_or_create g s = Some (e, a, s1)" "created K s g Kind_cond (e, a, s1)"
    using cond_get_or_create_ok [OF assms, of g] by auto
  show ?thesis
  proof (cases "a = 0")
    case True
    with r failed [of e s1] show ?thesis by (simp add: created_def wrapper_at_def)
  next
    case False
    with r obtain ob where ob: "br_heap s1 a = Some ob" "bo_active ob" "bo_kind ob = Kind_cond"
      "bridge_inv K s1" "grown s s1" "e = 0"
      by (auto simp: created_def wrapper_at_def)
    with bridge_inv_object [OF ob(4,1)] have "bo_host ob = Host_cond (cond_users (br_waiting s1) a)"
      by (auto simp: object_ok_def)
    with r ob False show ?thesis by (intro found [of a s1 ob]) (simp_all add: host_of_def)
  qed
qed

lemma cond_signal_safe:
  assumes inv: "bridge_inv K s"
  shows "safe K (asm2_pthread_cond_signal g s)" "safe K (asm2_pthread_cond_broadcast g s)"
proof -
  have "safe K (asm2_pthread_cond_signal g s) \<and> safe K (asm2_pthread_cond_broadcast g s)"
    using inv
  proof (cases rule: cond_create_cases [where g = g])
    case (found a s1 ob)
    obtain r rs where "host_reply s1 = (r, s1\<lparr>br_replies := rs\<rparr>)" by (rule host_reply_cases)
    with found show ?thesis
      by (simp add: asm2_pthread_cond_signal_def asm2_pthread_cond_broadcast_def returning_def)
  qed (simp add: asm2_pthread_cond_signal_def asm2_pthread_cond_broadcast_def)
  then show "safe K (asm2_pthread_cond_signal g s)" "safe K (asm2_pthread_cond_broadcast g s)" by simp_all
qed

lemma retire_after_reply:
  assumes "bridge_inv K s1" "br_heap s1 a = Some ob" "bo_active ob"
  shows "\<exists>s'. object_retire_locked a (s1\<lparr>br_replies := rs\<rparr>) = Some s' \<and> bridge_inv K s'"
  using retire_ok [of K "s1\<lparr>br_replies := rs\<rparr>" a ob] assms by auto

lemma cond_destroy_safe:
  assumes inv: "bridge_inv K s"
  shows "safe K (asm2_pthread_cond_destroy g s)"
  using inv
proof (cases rule: cond_create_cases [where g = g])
  case (found a s1 ob)
  obtain r rs where "host_reply s1 = (r, s1\<lparr>br_replies := rs\<rparr>)" by (rule host_reply_cases)
  with found retire_after_reply [OF found(3,5,6), of rs] show ?thesis
    by (auto simp: asm2_pthread_cond_destroy_def)
qed (simp add: asm2_pthread_cond_destroy_def)

section \<open>Waiting\<close>

text \<open>A step that changes one condition variable, one mutex and the list of waiting threads.\<close>

lemma object_ok_users:
  assumes "bo_kind ob = Kind_mutex \<Longrightarrow> mutex_users W' p = mutex_users W p"
    and "bo_kind ob = Kind_cond \<Longrightarrow> cond_users W' p = cond_users W p"
  shows "object_ok W' p ob = object_ok W p ob"
  using assms by (cases "bo_kind ob") (simp_all add: object_ok_def)

lemma wait_step_inv:
  assumes inv: "bridge_inv K s"
    and c: "br_heap s c = Some oc" "bo_kind oc = Kind_cond" "registry_same oc oc'" "object_ok W' c oc'"
    and a: "br_heap s a = Some oa" "bo_kind oa = Kind_mutex" "registry_same oa oa'" "object_ok W' a oa'"
    and users: "\<And>p. p \<noteq> a \<Longrightarrow> mutex_users W' p = mutex_users (br_waiting s) p"
      "\<And>p. p \<noteq> c \<Longrightarrow> cond_users W' p = cond_users (br_waiting s) p"
    and W': "waiting_ok (br_heap s) W'"
    and s': "br_heap s' = (br_heap s)(c \<mapsto> oc', a \<mapsto> oa')" "br_waiting s' = W'"
      "br_buckets s' = br_buckets s" "br_active s' = br_active s"
  shows "bridge_inv K s'"
proof -
  have ne: "a \<noteq> c" using a c by auto
  have "registry_inv (s\<lparr>br_heap := (br_heap s)(c \<mapsto> oc')\<rparr>)"
    by (rule registry_inv_upd [OF bridge_inv_registry [OF inv] c(1,3)]) simp_all
  then have "registry_inv s'"
    by (rule registry_inv_upd [of _ a oa oa']) (use a ne s' in simp_all)
  moreover have "objects_ok (br_heap s') W'"
    unfolding objects_ok_def s'
  proof (intro allI impI)
    fix p ob assume p: "((br_heap s)(c \<mapsto> oc', a \<mapsto> oa')) p = Some ob"
    show "object_ok W' p ob"
    proof (cases "p = a \<or> p = c")
      case True
      with p a c ne show ?thesis by auto
    next
      case False
      with p have "object_ok (br_waiting s) p ob" using bridge_inv_object [OF inv, of p ob] by simp
      with False users show ?thesis by (subst object_ok_users [where W = "br_waiting s"]) simp_all
    qed
  qed
  moreover have "waiting_ok (br_heap s') W' \<and> watched_ok (br_heap s') K"
  proof -
    have k: "kinds_kept (br_heap s) (br_heap s')"
      using a c ne unfolding s' by (auto simp: kinds_kept_def registry_same_def)
    show ?thesis using waiting_ok_kept [OF W' k] bridge_inv_kept [OF inv k] by blast
  qed
  ultimately show ?thesis by (simp add: bridge_inv_def s')
qed

lemma users_Cons [simp]:
  "mutex_users ((t, c, a) # W) p = (if p = a then Suc (mutex_users W p) else mutex_users W p)"
  "cond_users ((t, c, a) # W) p = (if p = c then Suc (cond_users W p) else cond_users W p)"
  by (simp_all add: mutex_users_def cond_users_def)

lemma users_remove1:
  assumes "(t, c, a) \<in> set W"
  shows "mutex_users W p = mutex_users (remove1 (t, c, a) W) p + (if p = a then 1 else 0)"
    "cond_users W p = cond_users (remove1 (t, c, a) W) p + (if p = c then 1 else 0)"
  using assms by (induction W) (auto simp: mutex_users_def cond_users_def)

lemma record_released_reacquired:
  assumes "mutex_ok ob m" "t \<noteq> 0" "mutex_record_releasing t ob = Some (ob1, 1)"
  shows "mutex_record_acquired t ob1 = ob"
  using releasing_holds(1,7,8) [OF assms] assms
  by (auto simp: mutex_record_acquired_def mutex_record_restore_def mutex_current_owner_def)

lemma waiting_update_object [simp]: "br_waiting (update_object a f s) = br_waiting s"
  by (simp add: update_object_def)

lemma update_object_back:
  assumes "br_heap s a = Some ob" "f ob1 = ob"
  shows "update_object a f (update_object a (\<lambda>_. ob1) s) = s"
proof -
  have "(br_heap s)(a \<mapsto> ob) = br_heap s" using assms(1) by (rule fun_upd_idem)
  with assms show ?thesis by (simp add: update_object_def)
qed

lemma cond_wait_safe:
  assumes inv: "bridge_inv K s" and t: "t \<noteq> 0"
  shows "safe K (cond_wait_common t gc gm s)"
  using inv
proof (cases rule: cond_create_cases [where g = gc])
  case (failed e s1)
  then show ?thesis by (simp add: cond_wait_common_def)
next
  case c: (found c s1 oc0)
  from c(3) show ?thesis
  proof (cases rule: mutex_create_cases [where g = gm])
    case (failed e s2)
    with c show ?thesis by (simp add: cond_wait_common_def)
  next
    case a: (found a s2 oa m)
    from c(5,7) a(4) obtain oc where oc: "br_heap s2 c = Some oc" "bo_kind oc = Kind_cond"
      unfolding grown_def kinds_kept_def by metis
    with bridge_inv_object [OF a(3) oc(1)] have ch: "bo_host oc = Host_cond (cond_users (br_waiting s2) c)"
      by (simp add: object_ok_def)
    have ne: "a \<noteq> c" using a(5,7) oc by auto
    show ?thesis
    proof (cases "mutex_record_releasing t oa")
      case None
      with a c show ?thesis by (simp add: cond_wait_common_def)
    next
      case (Some pr)
      obtain ob1 d where p: "pr = (ob1, d)" by (cases pr)
      note r = releasing_holds [OF a(10) t Some [unfolded p]]
      show ?thesis
      proof (cases "d = 1")
        case False
        have "update_object a (mutex_record_restore t d) (update_object a (\<lambda>_. ob1) s2) = s2"
          using a(5) r(7) by (intro update_object_back)
        with a c Some p False show ?thesis by (simp add: cond_wait_common_def Let_def)
      next
        case True
        note reacq = record_released_reacquired [OF a(10) t Some [unfolded p True]]
        let ?s3 = "update_object a (\<lambda>_. ob1) s2"
        have m3: "host_mutex_at a ?s3 = Some m"
          using a(5,9) r(6) by (simp add: update_object_def host_mutex_at_def host_of_def)
        obtain rr rs where rr: "host_reply ?s3 = (rr, ?s3\<lparr>br_replies := rs\<rparr>)" by (rule host_reply_cases)
        have c3: "host_of c (?s3\<lparr>br_replies := rs\<rparr>) = Host_cond (cond_users (br_waiting s2) c)"
          using oc ch ne by (simp add: update_object_def host_of_def)
        have "update_object a (mutex_record_acquired t) (?s3\<lparr>br_replies := rs\<rparr>)
            = (update_object a (mutex_record_acquired t) ?s3)\<lparr>br_replies := rs\<rparr>"
          by (simp add: update_object_def)
        then have b3: "update_object a (mutex_record_acquired t) (?s3\<lparr>br_replies := rs\<rparr>) = s2\<lparr>br_replies := rs\<rparr>"
          using update_object_back [where f = "mutex_record_acquired t", OF a(5) reacq] by simp
        let ?W = "(t, c, a) # br_waiting s2"
        let ?m = "m\<lparr>hm_holder := None, hm_count := 0, hm_users := hm_users m + 1\<rparr>"
        let ?oc = "oc\<lparr>bo_host := Host_cond (cond_users (br_waiting s2) c + 1)\<rparr>"
        let ?oa = "ob1\<lparr>bo_host := Host_mutex ?m\<rparr>"
        let ?s' = "set_host a (Host_mutex ?m) (set_host c (Host_cond (cond_users (br_waiting s2) c + 1))
            (?s3\<lparr>br_replies := rs, br_waiting := ?W\<rparr>))"
        have "bridge_inv K ?s'"
        proof (rule wait_step_inv [OF a(3) oc, of ?oc ?W a oa ?oa])
          show "br_heap ?s' = (br_heap s2)(c \<mapsto> ?oc, a \<mapsto> ?oa)"
            using oc(1) a(5) ne by (auto simp: set_host_def update_object_def)
          show "object_ok ?W a ?oa"
            using a(7,10,11) r(3,5,8) True
            by (auto simp: object_ok_def mutex_ok_def registry_same_def)
          show "waiting_ok (br_heap s2) ?W"
            using a(3,5,7) oc t by (auto simp: bridge_inv_def waiting_ok_def)
        qed (use a oc r in \<open>simp_all add: registry_same_def object_ok_def set_host_def update_object_def\<close>)
        then show ?thesis
          using a c Some p True m3 rr c3 b3 r(1,8)
          by (simp add: cond_wait_common_def Let_def)
      qed
    qed
  qed
qed

lemma cond_wait_returns_safe:
  assumes inv: "bridge_inv K s"
  shows "safe K (cond_wait_returns w s)"
proof (cases "w \<in> set (br_waiting s)")
  case False
  with inv show ?thesis by (simp add: cond_wait_returns_def)
next
  case True
  obtain t c a where w: "w = (t, c, a)" by (cases w)
  from inv have wok: "waiting_ok (br_heap s) (br_waiting s)" by (simp add: bridge_inv_def)
  with True w obtain oc oa where t: "t \<noteq> 0" and oc: "br_heap s c = Some oc" "bo_kind oc = Kind_cond"
    and oa: "br_heap s a = Some oa" "bo_kind oa = Kind_mutex"
    unfolding waiting_ok_def by fastforce
  from bridge_inv_object [OF inv oc(1)] oc(2) have ch: "bo_host oc = Host_cond (cond_users (br_waiting s) c)"
    by (simp add: object_ok_def)
  from bridge_inv_object [OF inv oa(1)] oa(2) obtain m where m: "bo_host oa = Host_mutex m"
    "mutex_ok oa m" "hm_users m = mutex_users (br_waiting s) a"
    by (auto simp: object_ok_def)
  have ne: "a \<noteq> c" using oc oa by auto
  note rem = users_remove1 [OF True [unfolded w]]
  have users: "hm_users m = Suc (mutex_users (remove1 w (br_waiting s)) a)"
    "cond_users (br_waiting s) c = Suc (cond_users (remove1 w (br_waiting s)) c)"
    using rem(1) [of a] rem(2) [of c] m(3) w by simp_all
  have live: "hm_type m \<noteq> host_destroyed" using m(2) users by (auto simp: mutex_ok_def)
  show ?thesis
  proof (cases "hm_holder m = None")
    case False
    with True w live inv host_mutex_at_Some [OF oa(1) m(1)] show ?thesis
      by (simp add: cond_wait_returns_def)
  next
    case None: True
    obtain rr rs where rr: "host_reply s = (rr, s\<lparr>br_replies := rs\<rparr>)" by (rule host_reply_cases)
    let ?W = "remove1 w (br_waiting s)"
    let ?m = "m\<lparr>hm_holder := Some t, hm_count := 1, hm_users := hm_users m - 1\<rparr>"
    let ?oc = "oc\<lparr>bo_host := Host_cond (cond_users (br_waiting s) c - 1)\<rparr>"
    let ?oa = "(mutex_record_acquired t oa)\<lparr>bo_host := Host_mutex ?m\<rparr>"
    let ?s' = "update_object a (mutex_record_acquired t) (set_host a (Host_mutex ?m)
        (set_host c (Host_cond (cond_users (br_waiting s) c - 1)) (s\<lparr>br_replies := rs, br_waiting := ?W\<rparr>)))"
    have "host_lock t m = Locked (m\<lparr>hm_holder := Some t, hm_count := 1\<rparr>)"
      using None live by (simp add: host_lock_def)
    from lock_keeps [OF m(2) t this] have k: "mutex_ok (mutex_record_acquired t oa) ?m"
      by (simp add: mutex_ok_def live)
    have "bridge_inv K ?s'"
    proof (rule wait_step_inv [OF inv oc, of ?oc ?W a oa ?oa])
      show "br_heap ?s' = (br_heap s)(c \<mapsto> ?oc, a \<mapsto> ?oa)"
        using oc(1) oa(1) ne by (auto simp: set_host_def update_object_def)
      show "object_ok ?W a ?oa" using oa k users by (simp add: object_ok_def)
      show "object_ok ?W c ?oc" using oc users by (simp add: object_ok_def)
      show "waiting_ok (br_heap s) ?W"
        using wok set_remove1_subset [of w "br_waiting s"] by (auto simp: waiting_ok_def)
      show "registry_same oa ?oa" by (simp add: record_acquired_same)
      show "mutex_users ?W p = mutex_users (br_waiting s) p" if "p \<noteq> a" for p
        using rem(1) [of p] that w by simp
      show "cond_users ?W p = cond_users (br_waiting s) p" if "p \<noteq> c" for p
        using rem(2) [of p] that w by simp
    qed (use oa oc in \<open>simp_all add: registry_same_def set_host_def update_object_def\<close>)
    then show ?thesis
      using True w live None rr host_mutex_at_Some [OF oa(1) m(1)] oc(1) ch
      by (simp add: cond_wait_returns_def host_of_def)
  qed
qed

section \<open>Semaphores\<close>

lemma sem_create_cases:
  assumes "bridge_inv K s"
  obtains (failed) e s1 where "sem_get_or_create g s = Some (e, 0, s1)" "e \<noteq> 0" "bridge_inv K s1"
  | (found) a s1 ob n where "sem_get_or_create g s = Some (0, a, s1)" "a \<noteq> 0" "bridge_inv K s1"
      "br_heap s1 a = Some ob" "bo_active ob" "bo_kind ob = Kind_sem"
      "host_of a s1 = Host_sem n" "n \<le> sem_value_max"
proof -
  obtain e a s1 where r: "sem_get_or_create g s = Some (e, a, s1)" "created K s g Kind_sem (e, a, s1)"
    using sem_get_or_create_ok [OF assms, of g] by auto
  show ?thesis
  proof (cases "a = 0")
    case True
    with r failed [of e s1] show ?thesis by (simp add: created_def wrapper_at_def)
  next
    case False
    with r obtain ob where ob: "br_heap s1 a = Some ob" "bo_active ob" "bo_kind ob = Kind_sem"
      "bridge_inv K s1" "e = 0"
      by (auto simp: created_def wrapper_at_def)
    with bridge_inv_object [OF ob(4,1)] obtain n where "bo_host ob = Host_sem n" "n \<le> sem_value_max"
      by (auto simp: object_ok_def)
    with r ob False show ?thesis by (intro found [of a s1 ob n]) (simp_all add: host_of_def)
  qed
qed

lemma sem_outcomes_inv [simp]:
  "bridge_inv K (snd (sem_fails e s)) = bridge_inv K s"
  "bridge_inv K (snd (sem_result k s)) = bridge_inv K s"
  "bridge_inv K (snd (host_sem_fails e s)) = bridge_inv K s"
  by (simp_all add: sem_fails_def sem_result_def host_sem_fails_def)

lemma set_sem_inv:
  assumes "bridge_inv K s" "br_heap s a = Some ob" "bo_kind ob = Kind_sem" "n \<le> sem_value_max"
  shows "bridge_inv K (set_host a (Host_sem n) s)"
  using assms by (intro bridge_inv_set_host [where ob = ob]) (simp_all add: object_ok_def)

lemma with_sem_safe:
  assumes inv: "bridge_inv K s"
    and act: "\<And>a n s1 ob. bridge_inv K s1 \<Longrightarrow> br_heap s1 a = Some ob \<Longrightarrow> bo_active ob \<Longrightarrow> bo_kind ob = Kind_sem
      \<Longrightarrow> n \<le> sem_value_max \<Longrightarrow> safe K (act a n s1)"
  shows "safe K (with_sem g act s)"
  using inv
proof (cases rule: sem_create_cases [where g = g])
  case (found a s1 ob n)
  with act show ?thesis by (simp add: with_sem_def)
qed (simp add: with_sem_def)

lemma sem_post_safe: "bridge_inv K s \<Longrightarrow> safe K (asm2_sem_post g s)"
  unfolding asm2_sem_post_def by (rule with_sem_safe) (simp_all add: set_sem_inv)

lemma sem_trywait_safe: "bridge_inv K s \<Longrightarrow> safe K (asm2_sem_trywait g s)"
  unfolding asm2_sem_trywait_def by (rule with_sem_safe) (simp_all add: set_sem_inv)

lemma sem_wait_safe: "bridge_inv K s \<Longrightarrow> safe K (asm2_sem_wait g s)"
  unfolding asm2_sem_wait_def
proof (rule with_sem_safe)
  fix a n s1 ob
  assume a: "bridge_inv K s1" "br_heap s1 a = Some ob" "bo_kind ob = Kind_sem" "n \<le> sem_value_max"
  obtain r rs where "host_reply s1 = (r, s1\<lparr>br_replies := rs\<rparr>)" by (rule host_reply_cases)
  with a show "safe K (if n > 0 then Some (sem_result 0 (set_host a (Host_sem (n - 1)) s1))
      else case host_reply s1 of (r, s1) \<Rightarrow> Some (if r = 0 then (Blocks, s1) else host_sem_fails r s1))"
    by (simp add: set_sem_inv)
qed

lemma sem_destroy_safe: "bridge_inv K s \<Longrightarrow> safe K (asm2_sem_destroy g s)"
  unfolding asm2_sem_destroy_def
proof (rule with_sem_safe)
  fix a n s1 ob
  assume a: "bridge_inv K s1" "br_heap s1 a = Some ob" "bo_active ob"
  obtain r rs where r: "host_reply s1 = (r, s1\<lparr>br_replies := rs\<rparr>)" by (rule host_reply_cases)
  obtain s2 where "object_retire_locked a (s1\<lparr>br_replies := rs\<rparr>) = Some s2" "bridge_inv K s2"
    using retire_after_reply [OF a] by blast
  with a r show "safe K (case host_reply s1 of (r, s1) \<Rightarrow>
      if r = 0 then map_option (sem_result 0) (object_retire_locked a s1)
      else Some (host_sem_fails r s1))"
    by simp
qed

lemma sem_getvalue_safe: "bridge_inv K s \<Longrightarrow> safe K (asm2_sem_getvalue g p s)"
  unfolding asm2_sem_getvalue_def by (auto intro!: with_sem_safe)

lemma sem_init_safe: "bridge_inv K s \<Longrightarrow> safe K (asm2_sem_init g ps v s)"
  using init_object_ok [OF _ good_sem_init, of K s v g] by (auto simp: asm2_sem_init_def)

section \<open>Threads\<close>

lemma host_thread_call_safe: "bridge_inv K s \<Longrightarrow> safe K (host_thread_call ev s)"
proof -
  assume inv: "bridge_inv K s"
  obtain r rs where "host_reply (log_event ev s) = (r, (log_event ev s)\<lparr>br_replies := rs\<rparr>)"
    by (rule host_reply_cases)
  with inv show ?thesis by (simp add: host_thread_call_def returning_def)
qed

lemma pthread_create_safe: "bridge_inv K s \<Longrightarrow> safe K (asm2_pthread_create g attr f x s)"
proof -
  assume inv: "bridge_inv K s"
  obtain r rs where r: "host_reply s = (r, s\<lparr>br_replies := rs\<rparr>)" by (rule host_reply_cases)
  have step: "safe K (case host_reply s of (r, s1) \<Rightarrow>
          if r \<noteq> 0 then Some (Returns r, s1)
          else case next_thread (log_event (Ev_create aa f x) s1) of (h, s2) \<Rightarrow>
            case host_thread_to_guest h of (e1, gv) \<Rightarrow>
              let s3 = guest_write g gv s2
              in if e1 \<noteq> 0 then Some (Returns e1, log_event (Ev_detach h) s3)
                 else Some (Returns 0, s3))" for aa
    using inv r
    by (cases "br_threads s") (simp_all add: next_thread_def log_event_def guest_write_def Let_def split: prod.split)
  from inv show ?thesis
  proof (cases rule: get_cases [where g = attr and kind = Kind_attr])
    case missing
    with inv step [of 0] show ?thesis by (simp add: asm2_pthread_create_def)
  next
    case (found a ob)
    with inv step [of 0] step [of a] show ?thesis by (simp add: asm2_pthread_create_def)
  qed
qed

lemma key_create_safe: "bridge_inv K s \<Longrightarrow> safe K (asm2_pthread_key_create g d s)"
proof -
  assume inv: "bridge_inv K s"
  obtain r rs where "host_reply (log_event (Ev_key_create d) s) = (r, (log_event (Ev_key_create d) s)\<lparr>br_replies := rs\<rparr>)"
    by (rule host_reply_cases)
  with inv show ?thesis
    by (simp add: asm2_pthread_key_create_def split: list.split)
qed

lemma setspecific_safe: "bridge_inv K s \<Longrightarrow> safe K (asm2_pthread_setspecific t k v s)"
proof -
  assume inv: "bridge_inv K s"
  obtain r rs where "host_reply s = (r, s\<lparr>br_replies := rs\<rparr>)" by (rule host_reply_cases)
  with inv show ?thesis by (simp add: asm2_pthread_setspecific_def)
qed

section \<open>Handing a mutex over\<close>

lemma bridge_inv_Cons:
  "bridge_inv (Inl a # K) s \<longleftrightarrow> bridge_inv K s \<and> (\<exists>ob. br_heap s a = Some ob \<and> bo_kind ob = Kind_mutex)"
  by (auto simp: bridge_inv_def watched_ok_def)

lemma bridge_inv_subset: "bridge_inv K s \<Longrightarrow> set L \<subseteq> set K \<Longrightarrow> bridge_inv L s"
  by (auto simp: bridge_inv_def watched_ok_def)

text \<open>The wrapper a handoff points to, while it is active.\<close>

definition handed :: "mutex_handoff \<Rightarrow> watched" where
  "handed ho = (if mh_active ho = 0 \<or> mh_object ho = 0 then [] else [Inl (mh_object ho)])"

lemma handoff_begin_safe:
  assumes inv: "bridge_inv K s" and t: "t \<noteq> 0"
  shows "\<exists>out ho s'. asm2_pthread_mutex_handoff_begin t g s = Some (out, ho, s')
     \<and> bridge_inv (handed ho @ K) s'"
  using inv
proof (cases rule: mutex_create_cases [where g = g])
  case (failed e s1)
  then show ?thesis
    by (simp add: asm2_pthread_mutex_handoff_begin_def handed_def)
next
  case (found a s1 ob m)
  show ?thesis
  proof (cases "bo_mutex_owner ob \<noteq> mutex_current_owner t \<or> bo_mutex_depth ob \<noteq> 1")
    case True
    with found show ?thesis
      by (simp add: asm2_pthread_mutex_handoff_begin_def handed_def)
  next
    case False
    obtain e s2 where r: "release_mutex t a s1 = Some (e, s2)" "bridge_inv K s2"
      "kinds_kept (br_heap s1) (br_heap s2)"
      using release_mutex_ok [OF found(3,5,7,9,10,11) t] by blast
    have "\<exists>ob2. br_heap s2 a = Some ob2 \<and> bo_kind ob2 = Kind_mutex"
      using r(3) found(5,7) unfolding kinds_kept_def by metis
    with r found False show ?thesis
      by (simp add: asm2_pthread_mutex_handoff_begin_def handed_def bridge_inv_Cons)
  qed
qed

lemma handoff_end_safe:
  assumes inv: "bridge_inv K s" and t: "t \<noteq> 0" and ho: "set (handed ho) \<subseteq> set K"
  shows "\<exists>out ho' s'. asm2_pthread_mutex_handoff_end t ho s = Some (out, ho', s') \<and> bridge_inv K s'
     \<and> (ho' = ho \<or> handed ho' = [])"
proof (cases "mh_active ho = 0 \<or> mh_object ho = 0")
  case True
  with inv ho show ?thesis by (auto simp: asm2_pthread_mutex_handoff_end_def)
next
  case False
  let ?a = "mh_object ho"
  from False ho inv obtain ob where ob: "br_heap s ?a = Some ob" "bo_kind ob = Kind_mutex"
    by (auto simp: handed_def bridge_inv_def watched_ok_def)
  with bridge_inv_object [OF inv ob(1)] obtain m where m: "bo_host ob = Host_mutex m" "mutex_ok ob m"
    "hm_users m = mutex_users (br_waiting s) ?a"
    by (auto simp: object_ok_def)
  obtain out s1 where f: "finish_lock t ?a (host_lock t m) s = (out, s1)" by fastforce
  have i: "bridge_inv K s1"
    using finish_lock_inv [OF inv ob m t, of "host_lock t m"] f by simp
  with False f host_mutex_at_Some [OF ob(1) m(1)] show ?thesis
    by (auto simp: asm2_pthread_mutex_handoff_end_def handed_def)
qed

section \<open>Every state the guest reaches\<close>

datatype bridge_call =
    Attr_init u32 | Attr_destroy u32
  | Attr_getdetachstate u32 u32 | Attr_setdetachstate u32 int
  | Attr_getstacksize u32 u32 | Attr_setstacksize u32 u32
  | Mutexattr_init u32 | Mutexattr_destroy u32
  | Mutexattr_gettype u32 u32 | Mutexattr_settype u32 int
  | Mutex_init u32 u32 | Mutex_destroy u32
  | Mutex_lock u32 | Mutex_trylock u32 | Mutex_unlock u32
  | Cond_init u32 u32 | Cond_destroy u32
  | Cond_wait u32 u32 | Cond_timedwait u32 u32 u32
  | Cond_signal u32 | Cond_broadcast u32
  | Wait_returns "u32 \<times> u32 \<times> u32"
  | Sem_init u32 int u32 | Sem_destroy u32 | Sem_post u32
  | Sem_trywait u32 | Sem_wait u32 | Sem_getvalue u32 u32
  | Thread_create u32 u32 u32 u32 | Thread_detach u32 | Thread_join u32 u32
  | Thread_getschedparam u32 u32 u32 | Thread_setschedparam u32 int u32
  | Key_create u32 u32 | Key_delete u32 | Key_setspecific u32 u32

fun perform :: "u32 \<Rightarrow> bridge_call \<Rightarrow> bridge \<Rightarrow> result" where
  "perform t (Attr_init a) s = asm2_pthread_attr_init a s"
| "perform t (Attr_destroy a) s = asm2_pthread_attr_destroy a s"
| "perform t (Attr_getdetachstate a p) s = asm2_pthread_attr_getdetachstate a p s"
| "perform t (Attr_setdetachstate a d) s = asm2_pthread_attr_setdetachstate a d s"
| "perform t (Attr_getstacksize a p) s = asm2_pthread_attr_getstacksize a p s"
| "perform t (Attr_setstacksize a n) s = asm2_pthread_attr_setstacksize a n s"
| "perform t (Mutexattr_init a) s = asm2_pthread_mutexattr_init a s"
| "perform t (Mutexattr_destroy a) s = asm2_pthread_mutexattr_destroy a s"
| "perform t (Mutexattr_gettype a p) s = asm2_pthread_mutexattr_gettype a p s"
| "perform t (Mutexattr_settype a ty) s = asm2_pthread_mutexattr_settype a ty s"
| "perform t (Mutex_init m a) s = asm2_pthread_mutex_init m a s"
| "perform t (Mutex_destroy m) s = asm2_pthread_mutex_destroy m s"
| "perform t (Mutex_lock m) s = asm2_pthread_mutex_lock t m s"
| "perform t (Mutex_trylock m) s = asm2_pthread_mutex_trylock t m s"
| "perform t (Mutex_unlock m) s = asm2_pthread_mutex_unlock t m s"
| "perform t (Cond_init c a) s = asm2_pthread_cond_init c a s"
| "perform t (Cond_destroy c) s = asm2_pthread_cond_destroy c s"
| "perform t (Cond_wait c m) s = asm2_pthread_cond_wait t c m s"
| "perform t (Cond_timedwait c m d) s = asm2_pthread_cond_timedwait t c m d s"
| "perform t (Cond_signal c) s = asm2_pthread_cond_signal c s"
| "perform t (Cond_broadcast c) s = asm2_pthread_cond_broadcast c s"
| "perform t (Wait_returns w) s = cond_wait_returns w s"
| "perform t (Sem_init g ps v) s = asm2_sem_init g ps v s"
| "perform t (Sem_destroy g) s = asm2_sem_destroy g s"
| "perform t (Sem_post g) s = asm2_sem_post g s"
| "perform t (Sem_trywait g) s = asm2_sem_trywait g s"
| "perform t (Sem_wait g) s = asm2_sem_wait g s"
| "perform t (Sem_getvalue g p) s = asm2_sem_getvalue g p s"
| "perform t (Thread_create p a f x) s = asm2_pthread_create p a f x s"
| "perform t (Thread_detach g) s = asm2_pthread_detach g s"
| "perform t (Thread_join g p) s = asm2_pthread_join g p s"
| "perform t (Thread_getschedparam g p q) s = asm2_pthread_getschedparam g p q s"
| "perform t (Thread_setschedparam g p q) s = asm2_pthread_setschedparam g p q s"
| "perform t (Key_create p d) s = asm2_pthread_key_create p d s"
| "perform t (Key_delete k) s = asm2_pthread_key_delete k s"
| "perform t (Key_setspecific k v) s = asm2_pthread_setspecific t k v s"

lemmas call_safe =
  attr_getdetachstate_safe attr_setdetachstate_safe attr_getstacksize_safe attr_setstacksize_safe
  attr_destroy_safe mutexattr_destroy_safe mutexattr_gettype_safe mutexattr_settype_safe
  mutex_init_safe mutex_destroy_safe mutex_lock_safe mutex_trylock_safe mutex_unlock_safe
  cond_destroy_safe cond_wait_safe cond_signal_safe cond_wait_returns_safe
  sem_init_safe sem_destroy_safe sem_post_safe sem_trywait_safe sem_wait_safe sem_getvalue_safe
  pthread_create_safe host_thread_call_safe key_create_safe setspecific_safe
  init_object_safe good_attr_init good_mutexattr_init good_cond_init

lemma perform_safe: "bridge_inv K s \<Longrightarrow> t \<noteq> 0 \<Longrightarrow> safe K (perform t c s)"
  by (cases c)
    (simp_all add: call_safe asm2_pthread_attr_init_def asm2_pthread_mutexattr_init_def asm2_pthread_cond_init_def
      asm2_pthread_cond_wait_def asm2_pthread_cond_timedwait_def asm2_pthread_detach_def asm2_pthread_join_def
      asm2_pthread_getschedparam_def asm2_pthread_setschedparam_def asm2_pthread_key_delete_def)

text \<open>The bridge as the process starts, with any answers of the host to come.\<close>

definition initial_bridge :: "bridge \<Rightarrow> bool" where
  "initial_bridge s \<longleftrightarrow>
     br_heap s = (\<lambda>_. None) \<and> br_buckets s = (\<lambda>_. 0) \<and> br_active s = 0 \<and> br_waiting s = []"

text \<open>
  A step of the process, with the handoffs that threads hold: any thread makes any call, the guest
  writes any memory of its own between calls, and a handoff is ended by the thread that began it
  or by another.
\<close>

inductive bridge_step :: "bridge \<times> mutex_handoff list \<Rightarrow> bridge \<times> mutex_handoff list \<Rightarrow> bool" where
  memory: "bridge_step (s, H) (s\<lparr>br_guest := g\<rparr>, H)"
| call: "t \<noteq> 0 \<Longrightarrow> perform t c s = Some (out, s') \<Longrightarrow> bridge_step (s, H) (s', H)"
| handoff_begin: "t \<noteq> 0 \<Longrightarrow> asm2_pthread_mutex_handoff_begin t m s = Some (out, ho, s')
    \<Longrightarrow> bridge_step (s, H) (s', ho # H)"
| handoff_end: "t \<noteq> 0 \<Longrightarrow> ho \<in> set H \<Longrightarrow> asm2_pthread_mutex_handoff_end t ho s = Some (out, ho', s')
    \<Longrightarrow> bridge_step (s, H) (s', ho' # remove1 ho H)"

inductive_cases bridge_stepE: "bridge_step (s, H) (s', H')"

definition bridge_reachable :: "bridge \<times> mutex_handoff list \<Rightarrow> bool" where
  "bridge_reachable x \<longleftrightarrow> (\<exists>s0. initial_bridge s0 \<and> bridge_step\<^sup>*\<^sup>* (s0, []) x)"

text \<open>\<open>D\<close> lists retired wrappers, which no step revives.\<close>

definition process_inv :: "u32 list \<Rightarrow> bridge \<times> mutex_handoff list \<Rightarrow> bool" where
  "process_inv D x \<longleftrightarrow> bridge_inv (map Inr D @ concat (map handed (snd x))) (fst x)"

lemma step_inv:
  assumes "bridge_step x y" "process_inv D x"
  shows "process_inv D y"
  using assms
proof (cases rule: bridge_step.cases)
  case (memory s H g)
  with assms(2) show ?thesis by (simp add: process_inv_def)
next
  case (call t c s out s' H)
  with assms(2) show ?thesis
    using perform_safe [of "map Inr D @ concat (map handed H)" s t c] by (simp add: process_inv_def safe_def)
next
  case (handoff_begin t m s out ho s' H)
  let ?K = "map Inr D @ concat (map handed H)"
  have "bridge_inv (handed ho @ ?K) s'"
    using handoff_begin_safe [of ?K s t m] handoff_begin assms(2) by (simp add: process_inv_def)
  then have "bridge_inv (map Inr D @ concat (map handed (ho # H))) s'"
    by (rule bridge_inv_subset) auto
  with handoff_begin show ?thesis by (simp add: process_inv_def)
next
  case (handoff_end t ho H s out ho' s')
  let ?K = "map Inr D @ concat (map handed H)"
  have sub: "set (handed ho) \<subseteq> set ?K" using handoff_end by auto
  have i: "bridge_inv ?K s'" "ho' = ho \<or> handed ho' = []"
    using handoff_end_safe [of ?K s t ho] sub handoff_end assms(2) by (auto simp: process_inv_def)
  have "set (map Inr D @ concat (map handed (ho' # remove1 ho H))) \<subseteq> set ?K"
    using i(2) sub set_remove1_subset [of ho H] by auto
  then have "bridge_inv (map Inr D @ concat (map handed (ho' # remove1 ho H))) s'"
    using bridge_inv_subset [OF i(1)] by blast
  with handoff_end show ?thesis by (simp add: process_inv_def)
qed

lemma steps_inv: "bridge_step\<^sup>*\<^sup>* x y \<Longrightarrow> process_inv D x \<Longrightarrow> process_inv D y"
  by (induction rule: rtranclp_induct) (auto intro: step_inv)

lemma initial_inv: "initial_bridge s \<Longrightarrow> process_inv [] (s, [])"
  by (auto simp: initial_bridge_def process_inv_def bridge_inv_def objects_ok_def waiting_ok_def watched_ok_def
      active_set_def bucket_ok_def intro!: registry_invI [where cs = "\<lambda>_. []"])

lemma bridge_process_inv: "bridge_reachable x \<Longrightarrow> process_inv [] x"
  using steps_inv initial_inv unfolding bridge_reachable_def by blast

lemma reachable_bridge_inv: "bridge_reachable (s, H) \<Longrightarrow> bridge_inv [] s"
  using bridge_process_inv [of "(s, H)"] bridge_inv_subset [of _ s "[]"] by (auto simp: process_inv_def)

lemma process_inv_dead:
  "process_inv D (s, H) \<Longrightarrow> a \<in> set D \<Longrightarrow> \<exists>ob. br_heap s a = Some ob \<and> \<not> bo_active ob"
  by (auto simp: process_inv_def bridge_inv_def watched_ok_def)

lemma process_inv_add:
  assumes "process_inv D (s, H)" "br_heap s a = Some ob" "\<not> bo_active ob"
  shows "process_inv (a # D) (s, H)"
  using assms by (auto simp: process_inv_def bridge_inv_def watched_ok_def)

end
