(* ===== verification/Asm2_BridgeProps.thy ===== *)
theory Asm2_BridgeProps
  imports Asm2_BridgeCalls
begin

text \<open>
  The properties of the pthread bridge, for every state the guest reaches, and the contract of the
  registry as an interface.
\<close>

section \<open>The registry as an interface\<close>

text \<open>
  A table of handles bound to their slots: what is published is found, for its own slot and kind
  only; what is retired is found no more; other entries are not affected.
\<close>

locale handle_table =
  fixes valid :: "'s \<Rightarrow> bool"
    and find :: "'s \<Rightarrow> 'h \<Rightarrow> 'o \<Rightarrow> bool"
    and retire :: "'h \<Rightarrow> 's \<Rightarrow> 's option"
  assumes retire_valid: "valid s \<Longrightarrow> find s h k \<Longrightarrow> \<exists>s'. retire h s = Some s' \<and> valid s'"
    and retired: "valid s \<Longrightarrow> find s h k \<Longrightarrow> retire h s = Some s' \<Longrightarrow> \<not> find s' h k'"
    and others: "valid s \<Longrightarrow> find s h k \<Longrightarrow> retire h s = Some s' \<Longrightarrow> h' \<noteq> h
      \<Longrightarrow> find s' h' k' = find s h' k'"
begin

lemma retire_exactly_one:
  assumes "valid s" "find s h k"
  shows "\<exists>s'. retire h s = Some s' \<and> valid s' \<and>
     (\<forall>h' k'. find s' h' k' \<longleftrightarrow> find s h' k' \<and> h' \<noteq> h)"
  using retire_valid [OF assms] retired [OF assms] others [OF assms] by metis

lemma retire_twice_needs_new:
  assumes "valid s" "find s h k" "retire h s = Some s'"
  shows "\<not> (\<exists>k'. find s' h k')"
  using retired [OF assms] by blast

end

lemma registry_retire_effect:
  assumes inv: "registry_inv s" and live: "live_handle s h (fst k) (snd k)"
    and r: "object_retire_locked h s = Some s'"
  shows "registry_inv s'" "\<not> live_handle s' h (fst k') (snd k')"
    "h' \<noteq> h \<Longrightarrow> live_handle s' h' (fst k') (snd k') = live_handle s h' (fst k') (snd k')"
proof -
  from live obtain ob where ob: "br_heap s h = Some ob" "bo_active ob" by (auto simp: live_handle_def)
  obtain s1 rn where s1: "object_retire_locked h s = Some s1" "registry_inv s1"
    "br_heap s1 h = Some (ob\<lparr>bo_active := False, bo_retired_next := rn\<rparr>)"
    and other: "\<And>p. p \<noteq> h \<Longrightarrow> br_heap s1 p = br_heap s p \<or>
          (\<exists>po v. br_heap s p = Some po \<and> br_heap s1 p = Some (po\<lparr>bo_next := v\<rparr>))"
    using retire_inv [OF inv ob] by blast
  from s1 r have e: "s' = s1" by simp
  show "registry_inv s'" "\<not> live_handle s' h (fst k') (snd k')"
    using s1 e by (auto simp: live_handle_def)
  show "live_handle s' h' (fst k') (snd k') = live_handle s h' (fst k') (snd k')" if "h' \<noteq> h"
    using other [OF that] e by (cases "br_heap s h'") (auto simp: live_handle_def)
qed

interpretation wrappers: handle_table registry_inv
  "\<lambda>s h k. live_handle s h (fst k) (snd k)" object_retire_locked
proof unfold_locales
  fix s h and k :: "u32 \<times> object_kind"
  assume a: "registry_inv s" "live_handle s h (fst k) (snd k)"
  then obtain ob where "br_heap s h = Some ob" "bo_active ob" by (auto simp: live_handle_def)
  with retire_inv [OF a(1)] show "\<exists>s'. object_retire_locked h s = Some s' \<and> registry_inv s'" by blast
qed (use registry_retire_effect in blast)+

section \<open>Type safety and termination\<close>

definition union_matches_kind :: "bridge_object \<Rightarrow> bool" where
  "union_matches_kind ob \<longleftrightarrow>
     (case (bo_kind ob, bo_host ob) of
        (Kind_attr, Host_attr d n) \<Rightarrow> True
      | (Kind_mutex_attr, Host_mutex_attr ty) \<Rightarrow> True
      | (Kind_mutex, Host_mutex m) \<Rightarrow> True
      | (Kind_cond, Host_cond n) \<Rightarrow> True
      | (Kind_sem, Host_sem n) \<Rightarrow> True
      | _ \<Rightarrow> False)"

lemma object_ok_union: "object_ok W a ob \<Longrightarrow> union_matches_kind ob"
  by (cases "bo_kind ob"; cases "bo_host ob") (auto simp: object_ok_def union_matches_kind_def)

text \<open>C11. In every state the guest reaches, each wrapper's union holds the member of its kind, and
  every call of the bridge by any thread is defined: it reads no member other than the one stored,
  follows no pointer but to a wrapper, and never unlocks or waits with a host mutex the thread does
  not hold.\<close>

theorem bridge_calls_are_defined:
  assumes "bridge_reachable (s, H)" and "t \<noteq> 0"
  shows "perform t c s \<noteq> None \<and> asm2_pthread_mutex_handoff_begin t g s \<noteq> None
     \<and> list_all (\<lambda>ho. asm2_pthread_mutex_handoff_end t ho s \<noteq> None) H
     \<and> (br_heap s a = None \<or> union_matches_kind (the (br_heap s a)))"
proof -
  from assms(1) have inv: "bridge_inv (concat (map handed H)) s"
    using bridge_process_inv [of "(s, H)"] by (simp add: process_inv_def)
  have "perform t c s \<noteq> None" using perform_safe [OF inv assms(2), of c] by (auto simp: safe_def)
  moreover have "asm2_pthread_mutex_handoff_begin t g s \<noteq> None"
    using handoff_begin_safe [OF inv assms(2), of g] by auto
  moreover have "asm2_pthread_mutex_handoff_end t ho s \<noteq> None" if "ho \<in> set H" for ho
    using handoff_end_safe [OF inv assms(2), of ho] that by auto
  moreover have "br_heap s a = None \<or> union_matches_kind (the (br_heap s a))"
    using bridge_inv_object [OF inv, of a] object_ok_union by (cases "br_heap s a") auto
  ultimately show ?thesis by (simp add: list_all_iff)
qed

definition demo_bridge :: bridge where
  "demo_bridge =
     \<lparr>br_heap = (\<lambda>_. None), br_buckets = (\<lambda>_. 0), br_retired = 0, br_created = 0, br_active = 0,
      br_retirements = 0, br_handoffs = 0, br_guest = (\<lambda>_. 0), br_allocs = [Some 4096, None, Some 8192],
      br_replies = [], br_errno = 0, br_waiting = [], br_stack_size = 0x800000, br_threads = [],
      br_keys = [], br_specific = (\<lambda>_. 0), br_log = []\<rparr>"

lemma demo_initial: "initial_bridge demo_bridge"
  by (simp add: initial_bridge_def demo_bridge_def)

lemma demo_reachable: "bridge_reachable (demo_bridge, [])"
  using demo_initial by (auto simp: bridge_reachable_def)

theorem bridge_calls_are_defined_witness:
  "perform 7 (Cond_wait 100 104) demo_bridge \<noteq> None"
  using bridge_calls_are_defined [OF demo_reachable, of 7 "Cond_wait 100 104"] by simp

text \<open>C12. In every state the guest reaches, a lookup of any guest word ends, and it finds the word itself
  exactly when the word is the address of an active wrapper of that kind that belongs to that very
  slot; the loops of the statistics end too, and the active count is the number of active
  wrappers.\<close>

theorem registry_lookup_ends:
  assumes "bridge_reachable (s, H)"
  shows "registry_find raw slot kind s = Some (if live_handle s raw slot kind then raw else 0)
     \<and> map_option bs_active (asm2_pthread_bridge_get_stats s)
         = Some (of_nat (card {a. \<exists>ob. br_heap s a = Some ob \<and> bo_active ob}))"
proof -
  have inv: "registry_inv s" by (rule bridge_inv_registry [OF reachable_bridge_inv [OF assms]])
  have "\<exists>m. longest_chain s bs k = Some m" for bs k
  proof (induction bs arbitrary: k)
    case (Cons b bs)
    obtain xs where "bucket_ok (br_heap s) (br_buckets s) b xs"
      using registry_inv_chain [OF inv, of b] by metis
    then have "chain_length (br_heap s) 0 (br_buckets s b) = Some (of_nat (length xs))"
      using chain_length_chain [of "br_heap s" "br_buckets s b" xs 0] by (simp add: bucket_ok_def)
    with Cons.IH show ?case by simp
  qed simp
  then obtain m where "longest_chain s [0..<bucket_count] 0 = Some m" by blast
  then have "map_option bs_active (asm2_pthread_bridge_get_stats s) = Some (br_active s)"
    by (simp add: asm2_pthread_bridge_get_stats_def)
  with inv registry_find_eq [OF inv] show ?thesis
    by (simp add: registry_inv_def active_set_def)
qed

theorem registry_lookup_ends_witness:
  "registry_find 77 100 Kind_mutex demo_bridge = Some 0"
  using registry_lookup_ends [OF demo_reachable, of 77 100 Kind_mutex]
  by (simp add: live_handle_def demo_bridge_def)

section \<open>A destroyed handle stays invalid\<close>

lemma live_get_or_create:
  assumes inv: "bridge_inv K s" and live: "live_handle s (slot_load g s) g kind" and g: "g \<noteq> 0"
  shows "get_or_create kind classify host_init g s = Some (0, slot_load g s, s)"
proof -
  have "slot_load g s \<noteq> 0" using live inv by (auto simp: live_handle_def bridge_inv_def registry_inv_def)
  with live g show ?thesis
    by (simp add: get_or_create_def registry_find_eq [OF bridge_inv_registry [OF inv]])
qed

lemma mutex_destroyed_inactive:
  assumes inv: "bridge_inv K s" and g: "g \<noteq> 0"
    and live: "live_handle s (slot_load g s) g Kind_mutex"
    and d: "asm2_pthread_mutex_destroy g s = Some (Returns 0, s')"
  shows "\<exists>ob. br_heap s' (slot_load g s) = Some ob \<and> \<not> bo_active ob"
proof -
  let ?a = "slot_load g s"
  note goc = live_get_or_create [OF inv live g]
  from live obtain ob where ob: "br_heap s ?a = Some ob" "bo_active ob" "bo_kind ob = Kind_mutex"
    by (auto simp: live_handle_def)
  then have nz: "?a \<noteq> 0" using inv by (auto simp: bridge_inv_def registry_inv_def)
  from bridge_inv_object [OF inv ob(1)] ob(3) obtain m where m: "bo_host ob = Host_mutex m" "mutex_ok ob m"
    "hm_users m = mutex_users (br_waiting s) ?a" by (auto simp: object_ok_def)
  note d' = d [unfolded asm2_pthread_mutex_destroy_def mutex_get_or_create_def goc]
  have free: "\<not> (hm_type m = host_destroyed \<or> hm_holder m \<noteq> None \<or> hm_users m > 0)"
    using d' nz host_mutex_at_Some [OF ob(1) m(1)]
    by (auto simp: host_mutex_destroy_def split: if_splits)
  let ?m = "m\<lparr>hm_type := host_destroyed\<rparr>"
  let ?s2 = "set_host ?a (Host_mutex ?m) s"
  have r: "object_retire_locked ?a ?s2 = Some s'"
    using d' nz host_mutex_at_Some [OF ob(1) m(1)] free
    by (auto simp: host_mutex_destroy_def split: if_splits)
  have "mutex_ok ob ?m" using m free by (auto simp: mutex_ok_def)
  then have i: "bridge_inv K ?s2"
    using m ob free by (intro bridge_inv_set_host [OF inv ob(1)]) (auto simp: object_ok_def)
  have h: "br_heap ?s2 ?a = Some (ob\<lparr>bo_host := Host_mutex ?m\<rparr>)"
    using ob by (simp add: set_host_def update_object_def)
  obtain rn where "br_heap s' ?a = Some (ob\<lparr>bo_host := Host_mutex ?m, bo_active := False, bo_retired_next := rn\<rparr>)"
    using retire_inv [OF bridge_inv_registry [OF i] h] ob(2) r by auto
  then show ?thesis by simp
qed

text \<open>C13. Once a mutex has been destroyed, the handle it had is never valid again, for any slot and any
  kind of object, whatever the guest writes into its memory and whatever any thread calls
  afterwards: no later allocation revives it.\<close>

theorem destroyed_handle_never_valid_again:
  assumes "bridge_reachable (s, H)" and "g \<noteq> 0"
    and "live_handle s (slot_load g s) g Kind_mutex"
    and "asm2_pthread_mutex_destroy g s = Some (Returns 0, s1)"
    and "bridge_step\<^sup>*\<^sup>* (s1, H) (s2, H2)"
  shows "registry_find (slot_load g s) slot kind s2 = Some 0"
proof -
  obtain ob where ob: "br_heap s1 (slot_load g s) = Some ob" "\<not> bo_active ob"
    using mutex_destroyed_inactive [OF reachable_bridge_inv [OF assms(1)] assms(2,3,4)] by blast
  have "bridge_step (s, H) (s1, H)"
    by (rule bridge_step.call [where t = 1 and c = "Mutex_destroy g"]) (use assms(4) in simp_all)
  then have "process_inv [] (s1, H)" using bridge_process_inv [OF assms(1)] step_inv by blast
  from steps_inv [OF assms(5) process_inv_add [OF this ob]]
  have p: "process_inv [slot_load g s] (s2, H2)" .
  then obtain ob2 where "br_heap s2 (slot_load g s) = Some ob2" "\<not> bo_active ob2"
    using process_inv_dead by fastforce
  moreover have "registry_inv s2" using p by (simp add: process_inv_def bridge_inv_def)
  ultimately show ?thesis by (simp add: registry_find_eq live_handle_def)
qed

section \<open>The recorded owner\<close>

text \<open>C14. In every state the guest reaches, the owner and depth the bridge records for a mutex are those of the
  host mutex: unowned if and only if the host mutex is free, and otherwise the holder and the
  number of times it locked it, which fits the 32-bit depth.\<close>

theorem recorded_owner_is_host_holder:
  assumes "bridge_reachable (s, H)" and "br_heap s a = Some ob" and "bo_host ob = Host_mutex m"
    and "bo_kind ob = Kind_mutex"
  shows "(if bo_mutex_owner ob = 0 then hm_holder m = None \<and> bo_mutex_depth ob = 0
     else hm_holder m = Some (bo_mutex_owner ob) \<and> unat (bo_mutex_depth ob) = hm_count m \<and> 0 < hm_count m)"
proof -
  have "mutex_ok ob m"
    using bridge_inv_object [OF reachable_bridge_inv [OF assms(1)] assms(2)] assms(3,4)
    by (simp add: object_ok_def)
  then show ?thesis
    by (cases "hm_holder m") (auto simp: mutex_ok_def unat_of_nat)
qed

section \<open>Handing a mutex over\<close>

text \<open>C15. When a handoff begins (returns 1), the caller held the mutex exactly once; while it lasts, another
  thread can take the mutex; and ending it at once gives the mutex back, with every wrapper as it
  was before.\<close>

theorem handoff_round_trip:
  assumes "bridge_reachable (s, H)" and "t \<noteq> 0" and "live_handle s (slot_load g s) g Kind_mutex" and "g \<noteq> 0"
    and "asm2_pthread_mutex_handoff_begin t g s = Some (Returns 1, ho, s1)"
  shows "\<exists>s2. asm2_pthread_mutex_handoff_end t ho s1 = Some (Returns 0, \<lparr>mh_object = 0, mh_active = 0\<rparr>, s2)
     \<and> br_heap s2 = br_heap s \<and> br_guest s2 = br_guest s
     \<and> map_option (\<lambda>m. (hm_holder m, hm_count m)) (host_mutex_at (slot_load g s) s) = Some (Some t, 1)
     \<and> map_option fst (asm2_pthread_mutex_trylock t' g s1) = Some (Returns 0)"
proof -
  note inv = reachable_bridge_inv [OF assms(1)]
  let ?a = "slot_load g s"
  note goc = live_get_or_create [OF inv assms(3,4)]
  from assms(3) obtain ob where ob: "br_heap s ?a = Some ob" "bo_active ob" "bo_owner ob = g" "bo_kind ob = Kind_mutex"
    by (auto simp: live_handle_def)
  then have nz: "?a \<noteq> 0" using inv by (auto simp: bridge_inv_def registry_inv_def)
  from bridge_inv_object [OF inv ob(1)] ob(4) obtain m where m: "bo_host ob = Host_mutex m" "mutex_ok ob m"
    "hm_users m = mutex_users (br_waiting s) ?a" by (auto simp: object_ok_def)
  note b = assms(5) [unfolded asm2_pthread_mutex_handoff_begin_def mutex_get_or_create_def goc]
  have own: "bo_mutex_owner ob = mutex_current_owner t" "bo_mutex_depth ob = 1"
    using b nz ob by (auto simp: Let_def split: if_splits)
  obtain ob1 where rel: "mutex_record_releasing t ob = Some (ob1, 1)"
    "ob1 = ob\<lparr>bo_mutex_owner := 0, bo_mutex_depth := 0\<rparr>"
    using own by (simp add: mutex_record_releasing_def Let_def)
  note r = releasing_holds [OF m(2) assms(2) rel(1)]
  let ?m1 = "m\<lparr>hm_holder := None, hm_count := 0\<rparr>"
  have u: "host_unlock t m = Some (Locked ?m1)" using r(1,3,8) by (simp add: host_unlock_def)
  let ?ob1 = "ob1\<lparr>bo_host := Host_mutex ?m1\<rparr>"
  have s1: "s1 = (update_object ?a (\<lambda>_. ?ob1) s)\<lparr>br_handoffs := br_handoffs s + 1\<rparr>"
    "ho = \<lparr>mh_object = ?a, mh_active = 1\<rparr>"
    using b nz ob own rel(1) u r(6) m
    by (auto simp: Let_def release_mutex_def update_object_def host_mutex_at_def host_of_def set_host_def)
  have l: "host_lock t ?m1 = Locked m"
    using r(1,3,8) by (simp add: host_lock_def)
  have again: "mutex_record_acquired t (?ob1\<lparr>bo_host := Host_mutex m\<rparr>) = ob"
    using record_released_reacquired [OF m(2) assms(2) rel(1)] m(1) r(6) by simp
  have h1: "br_heap s1 ?a = Some ?ob1" "host_mutex_at ?a s1 = Some ?m1" "slot_load g s1 = ?a"
    using s1 ob(1) [unfolded slot_load_def]
    by (simp_all add: update_object_def host_mutex_at_def host_of_def slot_load_def)
  let ?s2 = "update_object ?a (mutex_record_acquired t) (set_host ?a (Host_mutex m) s1)"
  have e: "asm2_pthread_mutex_handoff_end t ho s1 = Some (Returns 0, \<lparr>mh_object = 0, mh_active = 0\<rparr>, ?s2)"
    using nz h1 l by (simp add: asm2_pthread_mutex_handoff_end_def s1(2) finish_lock_def)
  have h2: "br_heap ?s2 = br_heap s"
    using s1 again ob(1) by (simp add: update_object_def set_host_def fun_upd_idem)
  have inv1: "bridge_inv [] s1"
    using handoff_begin_safe [OF inv assms(2), of g] assms(5) bridge_inv_subset [of _ s1 "[]"] by auto
  have "live_handle s1 ?a g Kind_mutex"
    using h1 r(5) ob by (auto simp: live_handle_def registry_same_def)
  then have goc1: "mutex_get_or_create g s1 = Some (0, ?a, s1)"
    using live_get_or_create [OF inv1, of g] assms(4) h1(3) by (simp add: mutex_get_or_create_def)
  have "host_trylock t' ?m1 = Locked (?m1\<lparr>hm_holder := Some t', hm_count := 1\<rparr>)"
    using r(3) by (simp add: host_trylock_def host_lock_def)
  then have "map_option fst (asm2_pthread_mutex_trylock t' g s1) = Some (Returns 0)"
    using goc1 nz h1(2) by (simp add: asm2_pthread_mutex_trylock_def finish_lock_def)
  moreover have "map_option (\<lambda>m. (hm_holder m, hm_count m)) (host_mutex_at ?a s) = Some (Some t, 1)"
    using r(1,8) host_mutex_at_Some [OF ob(1) m(1)] by simp
  moreover have "br_guest ?s2 = br_guest s"
    by (simp add: s1(1) update_object_def set_host_def)
  ultimately show ?thesis using e h2 by blast
qed

section \<open>Witnesses\<close>

text \<open>A run: thread 7 locks the statically initialised mutex at 100.\<close>

definition demo_locked :: bridge where
  "demo_locked = snd (the (asm2_pthread_mutex_lock 7 100 demo_bridge))"

lemmas bridge_eval =
  asm2_pthread_mutex_lock_def mutex_get_or_create_def get_or_create_def registry_find_def
  demo_bridge_def slot_load_def static_mutex_type_def object_create_locked_def object_allocate_locked_def
  calloc_wrapper_def fresh_object_def mutex_host_init_def guest_mutex_type_to_host_def host_reply_def
  update_object_def object_publish_locked_def slot_store_def registry_bucket_def host_mutex_at_def
  host_of_def host_lock_def new_host_mutex_def finish_lock_def Let_def

lemmas bridge_eval_more =
  demo_locked_def asm2_pthread_mutex_handoff_begin_def release_mutex_def mutex_record_acquired_def
  mutex_record_releasing_def mutex_current_owner_def host_unlock_def set_host_def live_handle_def
  asm2_pthread_mutex_unlock_def returning_def asm2_pthread_mutex_destroy_def host_mutex_destroy_def
  object_retire_locked_def link_load_def link_store_def bridge_magic_def

lemma demo_lock: "asm2_pthread_mutex_lock 7 100 demo_bridge = Some (Returns 0, demo_locked)"
  unfolding demo_locked_def by (simp add: bridge_eval)

lemma demo_locked_reachable: "bridge_reachable (demo_locked, [])"
proof -
  have "bridge_step (demo_bridge, []) (demo_locked, [])"
    by (rule bridge_step.call [where t = 7 and c = "Mutex_lock 100"]) (simp_all add: demo_lock)
  then show ?thesis using demo_initial by (auto simp: bridge_reachable_def)
qed

definition demo_handoff :: "mutex_handoff \<times> bridge" where
  "demo_handoff = snd (the (asm2_pthread_mutex_handoff_begin 7 100 demo_locked))"

lemma demo_handoff_begins:
  "asm2_pthread_mutex_handoff_begin 7 100 demo_locked = Some (Returns 1, demo_handoff)"
  unfolding demo_handoff_def
  by (simp add: bridge_eval bridge_eval_more find_from.simps)

lemma demo_live: "live_handle demo_locked (slot_load 100 demo_locked) 100 Kind_mutex"
  by (simp add: bridge_eval bridge_eval_more)

theorem handoff_round_trip_witness:
  "\<exists>s2. asm2_pthread_mutex_handoff_end 7 (fst demo_handoff) (snd demo_handoff)
     = Some (Returns 0, \<lparr>mh_object = 0, mh_active = 0\<rparr>, s2) \<and> br_heap s2 = br_heap demo_locked"
  using handoff_round_trip [OF demo_locked_reachable _ demo_live, of 7 "fst demo_handoff" "snd demo_handoff" 9]
  by (auto simp: demo_handoff_begins)

theorem recorded_owner_is_host_holder_witness:
  "map_option (\<lambda>ob. bo_mutex_owner ob) (br_heap demo_locked 4096) = Some 7"
proof -
  obtain ob m where ob: "br_heap demo_locked 4096 = Some ob" "bo_host ob = Host_mutex m"
    "bo_kind ob = Kind_mutex" "hm_holder m = Some 7"
    by (simp add: bridge_eval bridge_eval_more)
  from recorded_owner_is_host_holder [OF demo_locked_reachable ob(1-3)] ob show ?thesis
    by (auto split: if_splits)
qed

definition demo_unlocked :: bridge where
  "demo_unlocked = snd (the (asm2_pthread_mutex_unlock 7 100 demo_locked))"

definition demo_destroyed :: bridge where
  "demo_destroyed = snd (the (asm2_pthread_mutex_destroy 100 demo_unlocked))"

lemma demo_unlock: "asm2_pthread_mutex_unlock 7 100 demo_locked = Some (Returns 0, demo_unlocked)"
  unfolding demo_unlocked_def by (simp add: bridge_eval bridge_eval_more find_from.simps)

lemma demo_destroy: "asm2_pthread_mutex_destroy 100 demo_unlocked = Some (Returns 0, demo_destroyed)"
  unfolding demo_destroyed_def
  by (simp add: demo_unlocked_def bridge_eval bridge_eval_more find_from.simps unlink_from.simps)

lemma demo_unlocked_reachable: "bridge_reachable (demo_unlocked, [])"
proof -
  have "bridge_step (demo_locked, []) (demo_unlocked, [])"
    by (rule bridge_step.call [where t = 7 and c = "Mutex_unlock 100"]) (simp_all add: demo_unlock)
  then show ?thesis using demo_locked_reachable
    unfolding bridge_reachable_def by (meson rtranclp.rtrancl_into_rtrancl)
qed

text \<open>The guest writes the old handle back into the slot of the destroyed mutex.\<close>

theorem destroyed_handle_never_valid_again_witness:
  "registry_find 4096 100 Kind_mutex (demo_destroyed\<lparr>br_guest := \<lambda>_. 4096\<rparr>) = Some 0"
proof -
  have live: "live_handle demo_unlocked (slot_load 100 demo_unlocked) 100 Kind_mutex"
    and a: "slot_load 100 demo_unlocked = 4096"
    by (simp_all add: demo_unlocked_def bridge_eval bridge_eval_more find_from.simps)
  have "bridge_step\<^sup>*\<^sup>* (demo_destroyed, []) (demo_destroyed\<lparr>br_guest := \<lambda>_. 4096\<rparr>, [])"
    using bridge_step.memory by blast
  then show ?thesis
    using destroyed_handle_never_valid_again [OF demo_unlocked_reachable _ live demo_destroy] a by simp
qed

end
