(* ===== verification/Asm2_Once.thy ===== *)
theory Asm2_Once
  imports Asm2_Prelude "HOL-Library.Monad_Syntax"
begin

text \<open>
  \<open>asm2_pthread_once\<close> of \<open>src/asm2_127/src/pthread_bridge.c\<close>: any number of threads call it on one
  control word, wait on one condition variable, and may be cancelled inside the initialiser.

  A step of the relation is one critical section under \<open>once_lock\<close>; a thread that waits is asleep
  until a broadcast (or the host, spuriously) wakes it, and then tests the control word again.
\<close>

datatype once_phase =
    Outside
  | Asleep
  | Awake
  | Running
  | Cancelled
  | Returned int

record once_state =
  os_control :: u32
  os_phase :: "nat \<Rightarrow> once_phase"
  os_started :: nat
  os_completed :: nat

text \<open>
  The section from taking \<open>once_lock\<close> to releasing it: the new control word and what the caller
  does next.
\<close>

definition once_test :: "u32 \<Rightarrow> u32 \<times> once_phase" where
  "once_test control =
     (if control = 1 then (control, Asleep)
      else if control = 2 then (control, Returned 0)
      else if control \<noteq> 0 then (control, Returned 22)
      else (1, Running))"

text \<open>The null checks at the head of the function.\<close>

definition once_arguments :: "u32 \<Rightarrow> u32 \<Rightarrow> int option" where
  "once_arguments guest_once init_routine =
     (if guest_once = 0 \<or> init_routine = 0 then Some 22 else None)"

definition once_broadcast :: "(nat \<Rightarrow> once_phase) \<Rightarrow> nat \<Rightarrow> once_phase" where
  "once_broadcast ph t = (if ph t = Asleep then Awake else ph t)"

definition once_enter :: "nat \<Rightarrow> once_state \<Rightarrow> once_state" where
  "once_enter t s =
     (case once_test (os_control s) of (control, phase) \<Rightarrow>
        s\<lparr>os_control := control, os_phase := (os_phase s)(t := phase),
          os_started := os_started s + (if phase = Running then 1 else 0)\<rparr>)"

text \<open>After the initialiser has returned.\<close>

definition once_finish :: "nat \<Rightarrow> once_state \<Rightarrow> once_state" where
  "once_finish t s =
     s\<lparr>os_control := 2, os_phase := once_broadcast ((os_phase s)(t := Returned 0)),
       os_completed := os_completed s + 1\<rparr>"

text \<open>The cleanup handler when the thread is cancelled inside the initialiser.\<close>

definition once_init_cancelled :: "nat \<Rightarrow> once_state \<Rightarrow> once_state" where
  "once_init_cancelled t s =
     s\<lparr>os_control := (if os_control s = 1 then 0 else os_control s),
       os_phase := once_broadcast ((os_phase s)(t := Cancelled))\<rparr>"

inductive once_step :: "once_state \<Rightarrow> once_state \<Rightarrow> bool" where
  enter: "os_phase s t = Outside \<Longrightarrow> once_step s (once_enter t s)"
| again: "os_phase s t = Awake \<Longrightarrow> once_step s (once_enter t s)"
| spurious: "os_phase s t = Asleep \<Longrightarrow> once_step s (s\<lparr>os_phase := (os_phase s)(t := Awake)\<rparr>)"
| finish: "os_phase s t = Running \<Longrightarrow> once_step s (once_finish t s)"
| cancel: "os_phase s t = Running \<Longrightarrow> once_step s (once_init_cancelled t s)"

inductive_cases once_stepE: "once_step s s'"

definition once_initial :: once_state where
  "once_initial = \<lparr>os_control = 0, os_phase = (\<lambda>_. Outside), os_started = 0, os_completed = 0\<rparr>"

section \<open>The invariant\<close>

text \<open>
  The control word says who runs the initialiser: 0 nobody and it has not completed, 1 exactly one
  thread, 2 nobody and it has completed once.  Only in the second case does anybody sleep.
\<close>

definition once_inv :: "once_state \<Rightarrow> bool" where
  "once_inv s \<longleftrightarrow>
     os_control s \<in> {0, 1, 2}
     \<and> os_completed s = (if os_control s = 2 then 1 else 0)
     \<and> (\<forall>t. os_phase s t = Running \<longrightarrow> os_control s = 1)
     \<and> (\<forall>t u. os_phase s t = Running \<longrightarrow> os_phase s u = Running \<longrightarrow> t = u)
     \<and> (os_control s = 1 \<longrightarrow> (\<exists>t. os_phase s t = Running))
     \<and> (\<forall>t. os_phase s t = Asleep \<longrightarrow> os_control s = 1)
     \<and> (\<forall>t e. os_phase s t = Returned e \<longrightarrow> e = 0 \<and> os_control s = 2)"

lemma once_invD:
  assumes "once_inv s"
  shows "os_control s = 0 \<or> os_control s = 1 \<or> os_control s = 2"
    "os_completed s = (if os_control s = 2 then 1 else 0)"
    "os_phase s t = Running \<Longrightarrow> os_control s = 1"
    "os_phase s t = Running \<Longrightarrow> os_phase s u = Running \<Longrightarrow> t = u"
    "os_control s = 1 \<Longrightarrow> \<exists>t. os_phase s t = Running"
    "os_phase s t = Asleep \<Longrightarrow> os_control s = 1"
    "os_phase s t = Returned e \<Longrightarrow> e = 0 \<and> os_control s = 2"
  using assms unfolding once_inv_def by blast+

lemma once_invI:
  assumes "os_control s = 0 \<or> os_control s = 1 \<or> os_control s = 2"
    "os_completed s = (if os_control s = 2 then 1 else 0)"
    "\<And>t. os_phase s t = Running \<Longrightarrow> os_control s = 1"
    "\<And>t u. os_phase s t = Running \<Longrightarrow> os_phase s u = Running \<Longrightarrow> t = u"
    "os_control s = 1 \<Longrightarrow> \<exists>t. os_phase s t = Running"
    "\<And>t. os_phase s t = Asleep \<Longrightarrow> os_control s = 1"
    "\<And>t e. os_phase s t = Returned e \<Longrightarrow> e = 0 \<and> os_control s = 2"
  shows "once_inv s"
  using assms unfolding once_inv_def by blast

lemma once_enter_inv:
  assumes inv: "once_inv s" and ph: "os_phase s t = Outside \<or> os_phase s t = Awake"
  shows "once_inv (once_enter t s)"
proof -
  note d = once_invD [OF inv]
  have cases: "os_control s = 0 \<or> os_control s = 1 \<or> os_control s = 2" by (rule d(1))
  then consider (zero) "os_control s = 0" | (one) "os_control s = 1" | (two) "os_control s = 2" by blast
  then show ?thesis
  proof cases
    case zero
    then have none: "os_phase s u \<noteq> Running" "os_phase s u \<noteq> Asleep" "os_phase s u \<noteq> Returned e" for u e
      using d(3,6,7) [of u] by auto
    show ?thesis
      by (rule once_invI) (use zero none d(2) in \<open>auto simp: once_enter_def once_test_def split: if_splits\<close>)
  next
    case one
    then obtain r where r: "os_phase s r = Running" using d(5) by blast
    then have "((os_phase s)(t := Asleep)) r = Running" using ph by auto
    then show ?thesis
      by (intro once_invI)
        (use one d in \<open>auto simp: once_enter_def once_test_def split: if_splits\<close>)
  next
    case two
    then have none: "os_phase s u \<noteq> Running" "os_phase s u \<noteq> Asleep" for u
      using d(3,6) [of u] by auto
    show ?thesis
      by (rule once_invI) (use two none d(2,7) in \<open>auto simp: once_enter_def once_test_def split: if_splits\<close>)
  qed
qed

lemma once_broadcast_simps:
  "once_broadcast ph t = Running \<longleftrightarrow> ph t = Running"
  "once_broadcast ph t \<noteq> Asleep"
  "once_broadcast ph t = Returned e \<longleftrightarrow> ph t = Returned e"
  by (auto simp: once_broadcast_def)

lemma once_step_inv:
  assumes "once_step s s'" "once_inv s"
  shows "once_inv s'"
  using assms(1)
proof (cases rule: once_step.cases)
  case (enter t)
  with assms(2) show ?thesis by (simp add: once_enter_inv)
next
  case (again t)
  with assms(2) show ?thesis by (simp add: once_enter_inv)
next
  case (spurious t)
  note d = once_invD [OF assms(2)]
  have "((os_phase s)(t := Awake)) u = Running \<longleftrightarrow> os_phase s u = Running" for u
    using spurious by auto
  with d spurious show ?thesis
    by (intro once_invI) (simp_all split: if_splits, blast+)
next
  case (finish t)
  note d = once_invD [OF assms(2)]
  have "os_phase s u = Running \<longleftrightarrow> u = t" for u using d(4) finish by blast
  moreover have "os_control s = 1" using d(3) finish by blast
  ultimately show ?thesis using finish d(2,7)
    by (intro once_invI) (auto simp: once_finish_def once_broadcast_simps split: if_splits)
next
  case (cancel t)
  note d = once_invD [OF assms(2)]
  have "os_phase s u = Running \<longleftrightarrow> u = t" for u using d(4) cancel by blast
  moreover have "os_control s = 1" using d(3) cancel by blast
  ultimately show ?thesis using cancel d(2,7)
    by (intro once_invI) (auto simp: once_init_cancelled_def once_broadcast_simps split: if_splits)
qed

lemma once_initial_inv: "once_inv once_initial"
  by (simp add: once_inv_def once_initial_def)

lemma once_reachable_inv: "once_step\<^sup>*\<^sup>* once_initial s \<Longrightarrow> once_inv s"
  by (induction rule: rtranclp_induct) (auto intro: once_initial_inv once_step_inv)

section \<open>Properties\<close>

text \<open>C16. Whatever the interleaving, spurious wake-ups and cancellations: the initialiser runs in at most
  one thread at a time and completes at most once; a call returns only 0, and only after the
  initialiser has completed; and no thread sleeps unless another is inside the initialiser.\<close>

theorem once_completes_before_any_return:
  assumes "once_step\<^sup>*\<^sup>* once_initial s"
  shows "os_completed s \<le> 1
     \<and> (os_phase s t = Running \<and> os_phase s u = Running \<longrightarrow> t = u)
     \<and> (os_phase s t = Returned e \<longrightarrow> e = 0 \<and> os_completed s = 1)
     \<and> (os_phase s t = Asleep \<longrightarrow> (\<exists>r. os_phase s r = Running))"
proof -
  note d = once_invD [OF once_reachable_inv [OF assms]]
  show ?thesis using d(2) d(4) [of t u] d(7) [of t e] d(5) d(6) [of t] by auto
qed

theorem once_completes_before_any_return_witness:
  "os_phase (once_finish 1 (once_enter 2 (once_enter 1 once_initial))) 1 = Returned 0
   \<and> os_completed (once_finish 1 (once_enter 2 (once_enter 1 once_initial))) = 1"
proof -
  let ?s1 = "once_enter 1 once_initial" and ?s2 = "once_enter 2 (once_enter 1 once_initial)"
  have "once_step once_initial ?s1" by (rule once_step.enter) (simp add: once_initial_def)
  moreover have "once_step ?s1 ?s2"
    by (rule once_step.enter) (simp add: once_initial_def once_enter_def once_test_def)
  moreover have "once_step ?s2 (once_finish 1 ?s2)"
    by (rule once_step.finish) (simp add: once_initial_def once_enter_def once_test_def)
  ultimately have r: "once_step\<^sup>*\<^sup>* once_initial (once_finish 1 ?s2)"
    by (meson converse_rtranclp_into_rtranclp rtranclp.rtrancl_refl)
  have p: "os_phase (once_finish 1 ?s2) 1 = Returned 0"
    by (simp add: once_finish_def once_broadcast_def)
  with once_completes_before_any_return [OF r, of 1 1 0] show ?thesis by simp
qed

text \<open>C17. Nobody is stranded: while a call sleeps, some thread is inside the initialiser, whose return wakes
  it with the control word at 2, and whose cancellation wakes it with the control word at 0, so that the
  next to test the word runs the initialiser.\<close>

theorem once_never_stranded:
  assumes "once_step\<^sup>*\<^sup>* once_initial s" and "os_phase s t = Asleep"
  shows "\<exists>r. os_phase s r = Running
     \<and> os_phase (once_finish r s) t = Awake
     \<and> os_phase (once_enter t (once_finish r s)) t = Returned 0
     \<and> os_phase (once_init_cancelled r s) t = Awake
     \<and> os_phase (once_enter t (once_init_cancelled r s)) t = Running"
proof -
  note d = once_invD [OF once_reachable_inv [OF assms(1)]]
  obtain r where r: "os_phase s r = Running" using d(5) d(6) [OF assms(2)] by blast
  with assms(2) have "r \<noteq> t" by auto
  with r d(6) [OF assms(2)] assms(2) show ?thesis
    by (intro exI [of _ r])
      (simp add: once_finish_def once_init_cancelled_def once_broadcast_def once_enter_def once_test_def)
qed

theorem once_never_stranded_witness:
  "\<exists>r. os_phase (once_finish r (once_enter 2 (once_enter 1 once_initial))) 2 = Awake"
proof -
  let ?s1 = "once_enter 1 once_initial" and ?s2 = "once_enter 2 (once_enter 1 once_initial)"
  have "once_step once_initial ?s1" by (rule once_step.enter) (simp add: once_initial_def)
  moreover have "once_step ?s1 ?s2"
    by (rule once_step.enter) (simp add: once_initial_def once_enter_def once_test_def)
  ultimately have r: "once_step\<^sup>*\<^sup>* once_initial ?s2"
    by (meson converse_rtranclp_into_rtranclp rtranclp.rtrancl_refl)
  have p: "os_phase ?s2 2 = Asleep"
    by (simp add: once_initial_def once_enter_def once_test_def)
  from once_never_stranded [OF r p] show ?thesis by blast
qed

end
