(* ===== verification/Asm2_AudioQueue.thy ===== *)
theory Asm2_AudioQueue
  imports Asm2_Prelude
begin

text \<open>
  The buffer queue of an audio player in \<open>src/asm2_127/src/opensl_bridge.c\<close>: enqueueing from guest
  threads, the SDL audio callback that drains the queue, clearing, and the worker that calls the
  guest back.

  The queue and the list of free buffers are HOL lists (the C code links them through \<open>next\<close>,
  with \<open>tail\<close> the last element of the queue).  Each definition is one section of code under the player's
  mutex, or the code between two such sections; an enqueue is three of them, so that other
  threads may come in between.
\<close>

section \<open>Constants and data\<close>

abbreviation (input) sl_success :: u32 where "sl_success \<equiv> 0"
abbreviation (input) sl_preconditions_violated :: u32 where "sl_preconditions_violated \<equiv> 1"
abbreviation (input) sl_parameter_invalid :: u32 where "sl_parameter_invalid \<equiv> 2"
abbreviation (input) sl_memory_failure :: u32 where "sl_memory_failure \<equiv> 3"
abbreviation (input) sl_resource_error :: u32 where "sl_resource_error \<equiv> 4"
abbreviation (input) sl_buffer_insufficient :: u32 where "sl_buffer_insufficient \<equiv> 7"
abbreviation (input) sl_feature_unsupported :: u32 where "sl_feature_unsupported \<equiv> 12"

abbreviation (input) sl_unrealized :: u32 where "sl_unrealized \<equiv> 1"
abbreviation (input) sl_realized :: u32 where "sl_realized \<equiv> 2"
abbreviation (input) sl_suspended :: u32 where "sl_suspended \<equiv> 3"

abbreviation (input) sl_stopped :: u32 where "sl_stopped \<equiv> 1"
abbreviation (input) sl_paused :: u32 where "sl_paused \<equiv> 2"
abbreviation (input) sl_playing :: u32 where "sl_playing \<equiv> 3"

record audio_buffer =
  ab_data :: bytes
  ab_size :: u32
  ab_offset :: u32
  ab_capacity :: u32

record player =
  pl_object_state :: u32
  pl_has_mutex :: bool
  pl_has_thread :: bool
  pl_thread_id :: "u32 option"
  pl_device :: u32
  pl_queue :: "audio_buffer list"
  pl_free :: "audio_buffer list"
  pl_queued_count :: u32
  pl_queue_capacity :: u32
  pl_play_index :: u32
  pl_played_frames :: u64
  pl_frequency :: u32
  pl_channels :: u32
  pl_bytes_per_frame :: u32
  pl_play_state :: u32
  pl_pending :: u32
  pl_pending_recovery :: u32
  pl_in_flight :: bool
  pl_generation :: u32
  pl_in_flight_generation :: u32
  pl_shutdown :: bool
  pl_destroy_on_exit :: bool
  pl_resources_closed :: bool
  pl_subsystem :: bool
  pl_callback :: u32
  pl_context :: u32
  pl_in_flight_callback :: u32
  pl_in_flight_context :: u32
  pl_serial :: u64
  pl_enqueues :: u64
  pl_completed :: u64
  pl_callbacks :: u64
  pl_dry_callbacks :: u64
  pl_recoveries :: u64
  pl_stale :: u64
  pl_failures :: u64
  pl_underruns :: u64
  pl_underrun_bytes :: u64
  pl_peak :: u32
  pl_last_report :: u32

definition empty_buffer :: audio_buffer where
  "empty_buffer = \<lparr>ab_data = [], ab_size = 0, ab_offset = 0, ab_capacity = 0\<rparr>"

section \<open>Buffers\<close>

definition asm2_sl_recycle_buffer_locked :: "audio_buffer \<Rightarrow> player \<Rightarrow> player" where
  "asm2_sl_recycle_buffer_locked b p = p\<lparr>pl_free := b\<lparr>ab_size := 0, ab_offset := 0\<rparr> # pl_free p\<rparr>"

definition asm2_sl_clear_queued_buffers_locked :: "player \<Rightarrow> player" where
  "asm2_sl_clear_queued_buffers_locked p =
     (fold asm2_sl_recycle_buffer_locked (pl_queue p) p)\<lparr>pl_queue := [], pl_queued_count := 0\<rparr>"

definition asm2_sl_recovery_ready_locked :: "player \<Rightarrow> bool" where
  "asm2_sl_recovery_ready_locked p \<longleftrightarrow>
     \<not> pl_shutdown p \<and> pl_play_state p = sl_playing \<and> pl_callback p \<noteq> 0 \<and> pl_queue p = []
     \<and> pl_queued_count p = 0 \<and> pl_pending p = 0 \<and> \<not> pl_in_flight p"

section \<open>Enqueue\<close>

text \<open>The caller is the worker, inside a callback that began before the last change of generation.\<close>

definition stale_caller :: "u32 \<Rightarrow> player \<Rightarrow> bool" where
  "stale_caller t p \<longleftrightarrow>
     pl_in_flight p \<and> pl_thread_id p = Some t \<and> pl_in_flight_generation p \<noteq> pl_generation p"

text \<open>The tests made twice, before and after the copy: the error, if any, and the counters.\<close>

definition enqueue_refused :: "u32 \<Rightarrow> player \<Rightarrow> (u32 \<times> player) option" where
  "enqueue_refused t p =
     (if pl_shutdown p \<or> stale_caller t p \<or> pl_queued_count p \<ge> pl_queue_capacity p then
        Some (if pl_shutdown p \<or> stale_caller t p then sl_preconditions_violated else sl_buffer_insufficient,
              p\<lparr>pl_failures := pl_failures p + 1,
                pl_stale := pl_stale p + (if stale_caller t p then 1 else 0)\<rparr>)
      else None)"

datatype reservation = Rejected u32 | Reserved "audio_buffer option"

definition enqueue_reserve :: "u32 \<Rightarrow> bytes option \<Rightarrow> u32 \<Rightarrow> player \<Rightarrow> reservation \<times> player" where
  "enqueue_reserve t data n p =
     (if data = None \<or> n = 0 then (Rejected sl_parameter_invalid, p)
      else if pl_object_state p \<noteq> sl_realized then (Rejected sl_preconditions_violated, p)
      else case enqueue_refused t p of
        Some (e, p1) \<Rightarrow> (Rejected e, p1)
      | None \<Rightarrow>
          (case pl_free p of
             b # rest \<Rightarrow> (Reserved (Some b), p\<lparr>pl_free := rest\<rparr>)
           | [] \<Rightarrow> (Reserved None, p)))"

text \<open>Outside the lock: \<open>calloc\<close> when no free buffer was taken, \<open>realloc\<close> when it is too small, copy.\<close>

datatype filling = Calloc_failed | Realloc_failed audio_buffer | Filled audio_buffer

definition enqueue_fill ::
  "bool \<Rightarrow> bool \<Rightarrow> audio_buffer option \<Rightarrow> bytes \<Rightarrow> u32 \<Rightarrow> filling" where
  "enqueue_fill calloc_ok realloc_ok reserved data n =
     (case (case reserved of Some b \<Rightarrow> Some b | None \<Rightarrow> if calloc_ok then Some empty_buffer else None) of
        None \<Rightarrow> Calloc_failed
      | Some b \<Rightarrow>
          if ab_capacity b < n \<and> \<not> realloc_ok then Realloc_failed b
          else
            let kept = (if ab_capacity b < n then [] else drop (unat n) (ab_data b));
                capacity = (if ab_capacity b < n then n else ab_capacity b)
            in Filled \<lparr>ab_data = take (unat n) data @ kept, ab_size = n, ab_offset = 0,
                       ab_capacity = capacity\<rparr>)"

text \<open>The loudest 16-bit sample of the data, for the report.\<close>

definition pcm_sample :: "u8 \<Rightarrow> u8 \<Rightarrow> int" where
  "pcm_sample lo hi = sint (ucast lo OR push_bit 8 (ucast hi) :: 16 word)"

fun pcm_peak :: "bytes \<Rightarrow> u32 \<Rightarrow> u32" where
  "pcm_peak (lo # hi # rest) peak =
     (let sample = pcm_sample lo hi;
          magnitude = (if sample < 0 then word_of_int (- sample) else word_of_int sample)
      in pcm_peak rest (if magnitude > peak then magnitude else peak))"
| "pcm_peak _ peak = peak"

definition enqueue_abandon :: "audio_buffer \<Rightarrow> player \<Rightarrow> player" where
  "enqueue_abandon b p =
     (let p1 = asm2_sl_recycle_buffer_locked b p in p1\<lparr>pl_failures := pl_failures p1 + 1\<rparr>)"

definition enqueue_commit :: "u32 \<Rightarrow> audio_buffer \<Rightarrow> u32 \<Rightarrow> player \<Rightarrow> u32 \<times> player" where
  "enqueue_commit t b peak p =
     (case enqueue_refused t p of
        Some (e, p1) \<Rightarrow> (e, asm2_sl_recycle_buffer_locked b p1)
      | None \<Rightarrow>
          (sl_success,
           p\<lparr>pl_queue := pl_queue p @ [b], pl_queued_count := pl_queued_count p + 1,
             pl_serial := pl_serial p + 1, pl_enqueues := pl_enqueues p + 1,
             pl_peak := (if peak > pl_peak p then peak else pl_peak p)\<rparr>))"

text \<open>The whole function, when no other thread comes in between.\<close>

definition asm2_sl_buffer_enqueue ::
  "u32 \<Rightarrow> bool \<Rightarrow> bool \<Rightarrow> bytes option \<Rightarrow> u32 \<Rightarrow> player \<Rightarrow> u32 \<times> player" where
  "asm2_sl_buffer_enqueue t calloc_ok realloc_ok data n p =
     (case enqueue_reserve t data n p of
        (Rejected e, p1) \<Rightarrow> (e, p1)
      | (Reserved reserved, p1) \<Rightarrow>
          let d = (case data of None \<Rightarrow> [] | Some d \<Rightarrow> d)
          in case enqueue_fill calloc_ok realloc_ok reserved d n of
               Calloc_failed \<Rightarrow> (sl_memory_failure, p1)
             | Realloc_failed b \<Rightarrow> (sl_memory_failure, enqueue_abandon b p1)
             | Filled b \<Rightarrow> enqueue_commit t b (pcm_peak (take (unat n) d) 0) p1)"

section \<open>The audio callback\<close>

text \<open>One turn of the loop: the first buffer gives what it has, up to what is wanted.\<close>

definition pull_count :: "audio_buffer \<Rightarrow> u32 \<Rightarrow> u32" where
  "pull_count b remaining =
     (let available = ab_size b - ab_offset b in if available < remaining then available else remaining)"

definition pull_bytes :: "audio_buffer \<Rightarrow> u32 \<Rightarrow> bytes" where
  "pull_bytes b count = take (unat count) (drop (unat (ab_offset b)) (ab_data b))"

definition finish_buffer :: "audio_buffer \<Rightarrow> audio_buffer list \<Rightarrow> player \<Rightarrow> player" where
  "finish_buffer b rest p =
     asm2_sl_recycle_buffer_locked b
       (p\<lparr>pl_queue := rest,
          pl_queued_count := (if pl_queued_count p \<noteq> 0 then pl_queued_count p - 1 else 0),
          pl_play_index := pl_play_index p + 1, pl_pending := pl_pending p + 1,
          pl_completed := pl_completed p + 1\<rparr>)"

function audio_pull :: "player \<Rightarrow> u32 \<Rightarrow> bytes \<Rightarrow> player \<times> u32 \<times> bytes" where
  "audio_pull p remaining out =
     (case pl_queue p of
        [] \<Rightarrow> (p, remaining, out)
      | b # rest \<Rightarrow>
          if remaining = 0 then (p, remaining, out)
          else
            let count = pull_count b remaining;
                b1 = b\<lparr>ab_offset := ab_offset b + count\<rparr>;
                p1 = p\<lparr>pl_queue := b1 # rest,
                       pl_played_frames := pl_played_frames p + ucast (count div pl_bytes_per_frame p)\<rparr>;
                p2 = (if ab_offset b1 = ab_size b1 then finish_buffer b1 rest p1 else p1)
            in audio_pull p2 (remaining - count) (out @ pull_bytes b count))"
  by pat_completeness auto

lemma pull_count_not_finished:
  "ab_offset b + pull_count b remaining \<noteq> ab_size b \<Longrightarrow> pull_count b remaining = remaining"
  by (auto simp: pull_count_def Let_def split: if_splits)

termination audio_pull
proof (relation "measure (\<lambda>(p, remaining, out). length (pl_queue p) + (if remaining = 0 then 0 else 1))")
  show "wf (measure (\<lambda>(p, remaining :: u32, out :: bytes). length (pl_queue p) + (if remaining = 0 then 0 else 1)))"
    by simp
next
  fix p :: player and remaining :: u32 and out b rest count b1 p1 p2
  assume a: "pl_queue p = b # rest" "remaining \<noteq> 0" "count = pull_count b remaining"
    "b1 = b\<lparr>ab_offset := ab_offset b + count\<rparr>"
    "p1 = p\<lparr>pl_queue := b1 # rest,
        pl_played_frames := pl_played_frames p + ucast (count div pl_bytes_per_frame p)\<rparr>"
    "p2 = (if ab_offset b1 = ab_size b1 then finish_buffer b1 rest p1 else p1)"
  show "((p2, remaining - count, out @ pull_bytes b count), (p, remaining, out))
      \<in> measure (\<lambda>(p, remaining, out). length (pl_queue p) + (if remaining = 0 then 0 else 1))"
  proof (cases "ab_offset b1 = ab_size b1")
    case True
    with a show ?thesis by (simp add: finish_buffer_def asm2_sl_recycle_buffer_locked_def)
  next
    case False
    with a have "count = remaining" using pull_count_not_finished by simp
    with a False show ?thesis by simp
  qed
qed

declare audio_pull.simps [simp del]

text \<open>The stream starts as silence; what the queue could not supply stays silent.\<close>

definition asm2_sl_sdl_audio_callback :: "nat \<Rightarrow> player \<Rightarrow> bytes \<times> player" where
  "asm2_sl_sdl_audio_callback wanted p =
     (if pl_play_state p \<noteq> sl_playing \<or> pl_shutdown p then (replicate wanted 0, p)
      else
        case audio_pull p (of_nat wanted) [] of
          (p1, remaining, out) \<Rightarrow>
            (out @ replicate (wanted - length out) 0,
             if remaining \<noteq> 0
             then p1\<lparr>pl_underruns := pl_underruns p1 + 1,
                     pl_underrun_bytes := pl_underrun_bytes p1 + ucast remaining\<rparr>
             else p1))"

section \<open>Control\<close>

definition asm2_sl_buffer_clear :: "player \<Rightarrow> u32 \<times> player" where
  "asm2_sl_buffer_clear p =
     (if \<not> pl_has_mutex p then (sl_preconditions_violated, p)
      else
        let p1 = asm2_sl_clear_queued_buffers_locked p
        in (sl_success,
            p1\<lparr>pl_play_index := 0, pl_played_frames := 0, pl_generation := pl_generation p1 + 1,
               pl_pending := 0, pl_pending_recovery := 0\<rparr>))"

definition asm2_sl_buffer_get_state :: "player \<Rightarrow> u32 \<times> (u32 \<times> u32) option" where
  "asm2_sl_buffer_get_state p =
     (if \<not> pl_has_mutex p then (sl_preconditions_violated, None)
      else (sl_success, Some (pl_queued_count p, pl_play_index p)))"

definition asm2_sl_buffer_register_callback :: "u32 \<Rightarrow> u32 \<Rightarrow> player \<Rightarrow> u32 \<times> player" where
  "asm2_sl_buffer_register_callback callback context p =
     (let p1 = p\<lparr>pl_generation := pl_generation p + 1, pl_callback := callback, pl_context := context\<rparr>
      in (sl_success,
          if \<not> pl_has_mutex p then p1 else p1\<lparr>pl_pending := 0, pl_pending_recovery := 0\<rparr>))"

definition asm2_sl_play_set_state :: "u32 \<Rightarrow> player \<Rightarrow> u32 \<times> player" where
  "asm2_sl_play_set_state state p =
     (if state < sl_stopped \<or> state > sl_playing then (sl_parameter_invalid, p)
      else if pl_object_state p \<noteq> sl_realized then (sl_preconditions_violated, p)
      else
        let p1 = (if state = sl_stopped
                  then p\<lparr>pl_generation := pl_generation p + 1, pl_pending := 0, pl_pending_recovery := 0\<rparr>
                  else p)
        in (sl_success, p1\<lparr>pl_play_state := state\<rparr>))"

definition asm2_sl_play_get_state :: "player \<Rightarrow> u32 \<times> u32 option" where
  "asm2_sl_play_get_state p =
     (if \<not> pl_has_mutex p then (sl_preconditions_violated, None) else (sl_success, Some (pl_play_state p)))"

definition asm2_sl_play_get_duration :: "u32 \<times> u32 option" where
  "asm2_sl_play_get_duration = (sl_success, Some 0xFFFFFFFF)"

definition asm2_sl_play_get_position :: "player \<Rightarrow> u32 \<times> u32 option" where
  "asm2_sl_play_get_position p =
     (if \<not> pl_has_mutex p then (sl_preconditions_violated, None)
      else (sl_success, Some (ucast (pl_played_frames p * 1000 div ucast (pl_frequency p)))))"

section \<open>The worker\<close>

text \<open>A wait of 50 ms has ended: a dry, playing queue gets one more callback.\<close>

definition worker_poll :: "player \<Rightarrow> player" where
  "worker_poll p =
     (if asm2_sl_recovery_ready_locked p then p\<lparr>pl_pending := 1, pl_pending_recovery := 1\<rparr> else p)"

text \<open>
  The section after the wait: take one pending callback.  The result is the call to make, with the
  enqueue serial before it.
\<close>

definition worker_take :: "player \<Rightarrow> (u32 \<times> u32 \<times> u64) option \<times> player" where
  "worker_take p =
     (if pl_shutdown p \<or> pl_pending p = 0 then (None, p)
      else
        let p1 = p\<lparr>pl_pending := pl_pending p - 1\<rparr>;
            p2 = (if pl_pending_recovery p1 \<noteq> 0
                  then p1\<lparr>pl_pending_recovery := pl_pending_recovery p1 - 1,
                          pl_recoveries := pl_recoveries p1 + 1\<rparr>
                  else p1)
        in if pl_callback p2 = 0 then (None, p2)
           else (Some (pl_callback p2, pl_context p2, pl_serial p2),
                 p2\<lparr>pl_in_flight := True, pl_in_flight_generation := pl_generation p2,
                    pl_in_flight_callback := pl_callback p2, pl_in_flight_context := pl_context p2\<rparr>))"

definition worker_done :: "u64 \<Rightarrow> player \<Rightarrow> player" where
  "worker_done enqueue_before p =
     p\<lparr>pl_callbacks := pl_callbacks p + 1,
       pl_dry_callbacks := pl_dry_callbacks p + (if pl_serial p = enqueue_before then 1 else 0),
       pl_in_flight := False, pl_in_flight_generation := 0, pl_in_flight_callback := 0,
       pl_in_flight_context := 0\<rparr>"

text \<open>The report, at most every five seconds, resets the peak.\<close>

definition asm2_sl_maybe_report :: "u32 \<Rightarrow> player \<Rightarrow> player" where
  "asm2_sl_maybe_report now p =
     (if now - pl_last_report p < 5000 then p else p\<lparr>pl_last_report := now, pl_peak := 0\<rparr>)"

end
