(* ===== verification/Asm2_AudioPlayer.thy ===== *)
theory Asm2_AudioPlayer
  imports Asm2_AudioQueue
begin

text \<open>
  The OpenSL objects of \<open>src/asm2_127/src/opensl_bridge.c\<close>: creating the engine, the output mix and
  players, realising a player (audio subsystem, synchronisation objects, worker thread, device),
  and destroying it, from any thread or from its own callback.

  SDL is the host: whether each of its functions succeeds is an answer in \<open>audio_host\<close>, which also
  counts the resources of SDL that are held.
\<close>

section \<open>The host\<close>

record audio_host =
  ah_driver :: "bytes option"
  ah_init :: "bool list"
  ah_setenv :: bool
  ah_make :: "bool list"
  ah_device :: u32
  ah_worker_id :: u32
  ah_subsystems :: nat
  ah_mutexes :: nat
  ah_conds :: nat
  ah_threads :: nat
  ah_devices :: nat
  ah_created :: u64
  ah_released :: u64
  ah_workers_started :: u64
  ah_workers_exited :: u64
  ah_deferred :: u64

definition sdl_init_audio :: "audio_host \<Rightarrow> bool \<times> audio_host" where
  "sdl_init_audio h =
     (case ah_init h of
        [] \<Rightarrow> (True, h\<lparr>ah_subsystems := ah_subsystems h + 1\<rparr>)
      | ok # rest \<Rightarrow> (ok, h\<lparr>ah_init := rest, ah_subsystems := ah_subsystems h + (if ok then 1 else 0)\<rparr>))"

definition sdl_quit_audio :: "audio_host \<Rightarrow> audio_host" where
  "sdl_quit_audio h = h\<lparr>ah_subsystems := ah_subsystems h - 1\<rparr>"

definition sdl_make :: "audio_host \<Rightarrow> bool \<times> audio_host" where
  "sdl_make h = (case ah_make h of [] \<Rightarrow> (True, h) | ok # rest \<Rightarrow> (ok, h\<lparr>ah_make := rest\<rparr>))"

text \<open>\<open>fallback\<close> is the build option \<open>ASM2_ARMHF_AUDIO_ALSA_FALLBACK\<close>.\<close>

definition asm2_sl_initialize_audio_subsystem :: "bool \<Rightarrow> audio_host \<Rightarrow> int \<times> audio_host" where
  "asm2_sl_initialize_audio_subsystem fallback h =
     (case sdl_init_audio h of
        (True, h1) \<Rightarrow> (0, h1)
      | (False, h1) \<Rightarrow>
          if \<not> fallback then (-1, h1)
          else
            let requested = (case ah_driver h of None \<Rightarrow> [] | Some d \<Rightarrow> d)
            in if requested \<noteq> [] \<and> requested \<noteq> cstr ''pulse'' \<and> requested \<noteq> cstr ''pulseaudio'' then (-1, h1)
               else if \<not> ah_setenv h1 then (-1, h1)
               else case sdl_init_audio (h1\<lparr>ah_driver := Some (cstr ''alsa'')\<rparr>) of
                 (True, h2) \<Rightarrow> (0, h2)
               | (False, h2) \<Rightarrow> (-1, h2\<lparr>ah_driver := None\<rparr>))"

section \<open>Realising a player\<close>

definition sync_failed :: "bool \<Rightarrow> bool \<Rightarrow> player \<Rightarrow> audio_host \<Rightarrow> u32 \<times> player \<times> audio_host" where
  "sync_failed mutex_ok cond_ok p h =
     (sl_memory_failure, p\<lparr>pl_has_mutex := False, pl_subsystem := False\<rparr>, sdl_quit_audio h)"

definition asm2_sl_open_player :: "bool \<Rightarrow> player \<Rightarrow> audio_host \<Rightarrow> u32 \<times> player \<times> audio_host" where
  "asm2_sl_open_player fallback p h =
     (case asm2_sl_initialize_audio_subsystem fallback h of (r, h0) \<Rightarrow>
        if r \<noteq> 0 then (sl_resource_error, p, h0)
        else case sdl_make h0 of (mutex_ok, h1) \<Rightarrow> case sdl_make h1 of (cond_ok, h2) \<Rightarrow>
          if \<not> mutex_ok \<or> \<not> cond_ok then sync_failed mutex_ok cond_ok p h2
          else case sdl_make h2 of (thread_ok, h3) \<Rightarrow>
            if \<not> thread_ok then
              (sl_resource_error, p\<lparr>pl_has_mutex := False, pl_subsystem := False\<rparr>, sdl_quit_audio h3)
            else if ah_device h3 = 0 then
              (sl_resource_error,
               p\<lparr>pl_has_mutex := False, pl_has_thread := False, pl_shutdown := False, pl_subsystem := False,
                 pl_device := 0, pl_thread_id := Some (ah_worker_id h3)\<rparr>,
               (sdl_quit_audio h3)\<lparr>ah_workers_started := ah_workers_started h3 + 1,
                                   ah_workers_exited := ah_workers_exited h3 + 1\<rparr>)
            else
              (sl_success,
               p\<lparr>pl_has_mutex := True, pl_has_thread := True, pl_subsystem := True, pl_device := ah_device h3\<rparr>,
               h3\<lparr>ah_mutexes := ah_mutexes h3 + 1, ah_conds := ah_conds h3 + 1,
                  ah_threads := ah_threads h3 + 1, ah_devices := ah_devices h3 + 1\<rparr>))"

datatype sl_object = Sl_engine u32 | Sl_output_mix u32 | Sl_player player

definition object_state :: "sl_object \<Rightarrow> u32" where
  "object_state ob = (case ob of Sl_engine s \<Rightarrow> s | Sl_output_mix s \<Rightarrow> s | Sl_player p \<Rightarrow> pl_object_state p)"

definition set_object_state :: "u32 \<Rightarrow> sl_object \<Rightarrow> sl_object" where
  "set_object_state s ob =
     (case ob of Sl_engine _ \<Rightarrow> Sl_engine s | Sl_output_mix _ \<Rightarrow> Sl_output_mix s
      | Sl_player p \<Rightarrow> Sl_player (p\<lparr>pl_object_state := s\<rparr>))"

text \<open>\<open>None\<close> is the object of a null handle.\<close>

definition asm2_sl_object_realize ::
  "bool \<Rightarrow> sl_object option \<Rightarrow> u32 \<Rightarrow> audio_host \<Rightarrow> u32 \<times> sl_object option \<times> audio_host" where
  "asm2_sl_object_realize fallback self async h =
     (case self of
        None \<Rightarrow> (sl_parameter_invalid, None, h)
      | Some ob \<Rightarrow>
          if async \<noteq> 0 then (sl_feature_unsupported, self, h)
          else if object_state ob = sl_realized then (sl_success, self, h)
          else case ob of
            Sl_player p \<Rightarrow>
              (case asm2_sl_open_player fallback p h of (r, p1, h1) \<Rightarrow>
                 if r \<noteq> sl_success then (r, Some (Sl_player p1), h1)
                 else (sl_success, Some (set_object_state sl_realized (Sl_player p1)), h1))
          | _ \<Rightarrow> (sl_success, Some (set_object_state sl_realized ob), h))"

definition asm2_sl_object_resume :: "sl_object option \<Rightarrow> u32 \<Rightarrow> u32" where
  "asm2_sl_object_resume self async =
     (case self of
        None \<Rightarrow> sl_parameter_invalid
      | Some ob \<Rightarrow>
          if async \<noteq> 0 then sl_feature_unsupported
          else if object_state ob = sl_suspended then sl_feature_unsupported else sl_success)"

definition asm2_sl_object_get_state :: "sl_object option \<Rightarrow> bool \<Rightarrow> u32 \<times> u32 option" where
  "asm2_sl_object_get_state self has_output =
     (case self of
        Some ob \<Rightarrow> if has_output then (sl_success, Some (object_state ob)) else (sl_parameter_invalid, None)
      | None \<Rightarrow> (sl_parameter_invalid, None))"

datatype interface_id = Iid_engine | Iid_bufferqueue | Iid_play | Iid_other u32

datatype interface_handle = If_engine | If_play | If_buffer_queue

text \<open>The result and the value left in the output, \<open>None\<close> for the null pointer.\<close>

definition asm2_sl_object_get_interface ::
  "sl_object option \<Rightarrow> interface_id option \<Rightarrow> bool \<Rightarrow> u32 \<times> interface_handle option" where
  "asm2_sl_object_get_interface self iid has_output =
     (case (self, iid) of
        (Some ob, Some i) \<Rightarrow>
          if \<not> has_output then (sl_parameter_invalid, None)
          else (case (ob, i) of
                  (Sl_engine _, Iid_engine) \<Rightarrow> (sl_success, Some If_engine)
                | (Sl_player _, Iid_play) \<Rightarrow> (sl_success, Some If_play)
                | (Sl_player _, Iid_bufferqueue) \<Rightarrow> (sl_success, Some If_buffer_queue)
                | _ \<Rightarrow> (sl_feature_unsupported, None))
      | _ \<Rightarrow> (sl_parameter_invalid, None))"

definition asm2_sl_object_register_callback :: u32 where
  "asm2_sl_object_register_callback = sl_feature_unsupported"

definition asm2_sl_object_set_priority :: u32 where
  "asm2_sl_object_set_priority = sl_success"

definition asm2_sl_object_get_priority :: "bool \<Rightarrow> u32 \<times> (int \<times> u32) option" where
  "asm2_sl_object_get_priority arguments_given =
     (if \<not> arguments_given then (sl_parameter_invalid, None) else (sl_success, Some (0, 0)))"

section \<open>Creating objects\<close>

fun interfaces_supported :: "bool \<Rightarrow> interface_id list \<Rightarrow> u32 list option \<Rightarrow> u32" where
  "interfaces_supported player_interfaces [] required = sl_success"
| "interfaces_supported player_interfaces (i # ids) required =
     (if required \<noteq> None \<and> hd (the required) = 0
         \<or> player_interfaces \<and> (i = Iid_play \<or> i = Iid_bufferqueue)
         \<or> \<not> player_interfaces \<and> i = Iid_engine
      then interfaces_supported player_interfaces ids (map_option tl required)
      else sl_feature_unsupported)"

text \<open>\<open>count\<close> interfaces; the arrays are \<open>None\<close> for the null pointer.\<close>

definition asm2_sl_validate_required_interfaces ::
  "nat \<Rightarrow> interface_id list option \<Rightarrow> u32 list option \<Rightarrow> bool \<Rightarrow> u32" where
  "asm2_sl_validate_required_interfaces count ids required player_interfaces =
     (if count = 0 then sl_success
      else case ids of
        None \<Rightarrow> sl_parameter_invalid
      | Some is \<Rightarrow> interfaces_supported player_interfaces (take count is) required)"

record pcm_format =
  pf_format_type :: u32
  pf_channels :: u32
  pf_samples_per_sec :: u32
  pf_bits :: u32
  pf_container :: u32
  pf_endianness :: u32

text \<open>A data source: the locator (type, number of buffers) and the format, each possibly null.\<close>

record data_source =
  ds_locator :: "(u32 \<times> u32) option"
  ds_format :: "pcm_format option"

definition new_player :: player where
  "new_player =
     \<lparr>pl_object_state = sl_unrealized, pl_has_mutex = False, pl_has_thread = False, pl_thread_id = None,
      pl_device = 0, pl_queue = [], pl_free = [], pl_queued_count = 0, pl_queue_capacity = 2,
      pl_play_index = 0, pl_played_frames = 0, pl_frequency = 32000, pl_channels = 2,
      pl_bytes_per_frame = 4, pl_play_state = sl_stopped, pl_pending = 0, pl_pending_recovery = 0,
      pl_in_flight = False, pl_generation = 0, pl_in_flight_generation = 0, pl_shutdown = False,
      pl_destroy_on_exit = False, pl_resources_closed = False, pl_subsystem = False, pl_callback = 0,
      pl_context = 0, pl_in_flight_callback = 0, pl_in_flight_context = 0, pl_serial = 0,
      pl_enqueues = 0, pl_completed = 0, pl_callbacks = 0, pl_dry_callbacks = 0, pl_recoveries = 0,
      pl_stale = 0, pl_failures = 0, pl_underruns = 0, pl_underrun_bytes = 0, pl_peak = 0,
      pl_last_report = 0\<rparr>"

definition format_supported :: "pcm_format \<Rightarrow> bool" where
  "format_supported f \<longleftrightarrow>
     pf_format_type f = 2 \<and> pf_channels f = 2 \<and> pf_samples_per_sec f = 32000000 \<and> pf_bits f = 16
     \<and> pf_container f = 16 \<and> (pf_endianness f = 0 \<or> pf_endianness f = 2)"

text \<open>Freeing a player: the buffers, the SDL objects it holds, and the subsystem.\<close>

definition asm2_sl_release_player :: "player \<Rightarrow> audio_host \<Rightarrow> audio_host" where
  "asm2_sl_release_player p h =
     (let h1 = (if pl_has_mutex p
                then h\<lparr>ah_mutexes := ah_mutexes h - 1, ah_conds := ah_conds h - 1\<rparr> else h);
          h2 = (if pl_subsystem p then sdl_quit_audio h1 else h1)
      in h2\<lparr>ah_released := ah_released h2 + 1\<rparr>)"

definition asm2_sl_engine_create_audio_player ::
  "u32 option \<Rightarrow> bool \<Rightarrow> data_source option \<Rightarrow> nat \<Rightarrow> interface_id list option \<Rightarrow> u32 list option
    \<Rightarrow> bool \<Rightarrow> audio_host \<Rightarrow> u32 \<times> player option \<times> audio_host" where
  "asm2_sl_engine_create_audio_player engine has_output source count ids required calloc_ok h =
     (case (engine, source) of
        (Some engine_state, Some src) \<Rightarrow>
          if \<not> has_output then (sl_parameter_invalid, None, h)
          else if engine_state \<noteq> sl_realized then (sl_preconditions_violated, None, h)
          else
            let result = asm2_sl_validate_required_interfaces count ids required True
            in if result \<noteq> sl_success then (result, None, h)
               else if \<not> calloc_ok then (sl_memory_failure, None, h)
               else
                 let h1 = h\<lparr>ah_created := ah_created h + 1\<rparr>;
                     refused = (sl_feature_unsupported, None, asm2_sl_release_player new_player h1)
                 in case ds_locator src of
                      Some (ty, n) \<Rightarrow>
                        if ty \<noteq> 6 then refused
                        else if ds_format src \<noteq> None \<and> \<not> format_supported (the (ds_format src)) then refused
                        else (sl_success,
                              Some (new_player\<lparr>pl_queue_capacity := (if n > 0 \<and> n \<le> 64 then n else 2)\<rparr>), h1)
                    | None \<Rightarrow>
                        if ds_format src \<noteq> None \<and> \<not> format_supported (the (ds_format src)) then refused
                        else (sl_success, Some new_player, h1)
      | _ \<Rightarrow> (sl_parameter_invalid, None, h))"

definition asm2_sl_engine_create_output_mix ::
  "u32 option \<Rightarrow> bool \<Rightarrow> nat \<Rightarrow> interface_id list option \<Rightarrow> u32 list option \<Rightarrow> bool \<Rightarrow> u32 \<times> sl_object option" where
  "asm2_sl_engine_create_output_mix engine has_output count ids required calloc_ok =
     (case engine of
        None \<Rightarrow> (sl_parameter_invalid, None)
      | Some engine_state \<Rightarrow>
          if \<not> has_output then (sl_parameter_invalid, None)
          else if engine_state \<noteq> sl_realized then (sl_preconditions_violated, None)
          else if count \<noteq> 0 \<and> (ids = None \<or> required = None) then (sl_parameter_invalid, None)
          else if count \<noteq> 0 \<and> list_ex (\<lambda>r. r \<noteq> 0) (take count (the required)) then (sl_feature_unsupported, None)
          else if \<not> calloc_ok then (sl_memory_failure, None)
          else (sl_success, Some (Sl_output_mix sl_unrealized)))"

definition asm2_slCreateEngine ::
  "bool \<Rightarrow> nat \<Rightarrow> interface_id list option \<Rightarrow> u32 list option \<Rightarrow> bool \<Rightarrow> u32 \<times> sl_object option" where
  "asm2_slCreateEngine has_output count ids required calloc_ok =
     (if \<not> has_output then (sl_parameter_invalid, None)
      else
        let result = asm2_sl_validate_required_interfaces count ids required False
        in if result \<noteq> sl_success then (result, None)
           else if \<not> calloc_ok then (sl_memory_failure, None)
           else (sl_success, Some (Sl_engine sl_unrealized)))"

section \<open>Destroying a player\<close>

text \<open>
  Destroying an object that needs no protocol: an engine, an output mix, or a player that was never
  realised.  \<open>None\<close> is the realised player, whose teardown is the protocol below.
\<close>

definition destroy_directly :: "sl_object option \<Rightarrow> audio_host \<Rightarrow> audio_host option" where
  "destroy_directly self h =
     (case self of
        None \<Rightarrow> Some h
      | Some (Sl_player p) \<Rightarrow> if \<not> pl_has_mutex p then Some (asm2_sl_release_player p h) else None
      | Some _ \<Rightarrow> Some h)"

text \<open>The first section, under the mutex: is the caller the worker, which device is to be closed, and
  the callback that is in flight.\<close>

definition destroy_begin :: "u32 \<Rightarrow> player \<Rightarrow> (bool \<times> u32 \<times> bool \<times> u32 \<times> u32) \<times> player" where
  "destroy_begin t p =
     (let deferred = (pl_has_thread p \<and> pl_thread_id p = Some t)
      in ((deferred, pl_device p, pl_in_flight p, pl_in_flight_callback p, pl_in_flight_context p),
          p\<lparr>pl_shutdown := True, pl_play_state := sl_stopped, pl_generation := pl_generation p + 1,
            pl_callback := 0, pl_context := 0, pl_pending := 0, pl_pending_recovery := 0,
            pl_device := 0, pl_destroy_on_exit := pl_destroy_on_exit p \<or> deferred\<rparr>))"

text \<open>The guest mutex to hand over while waiting for the callback in flight, 0 for none;
  \<open>callback_mutex\<close> is \<open>asm2_audio_compat_callback_mutex\<close>.\<close>

definition destroy_handoff_mutex :: "(u32 \<Rightarrow> u32 \<Rightarrow> u32) \<Rightarrow> bool \<times> u32 \<times> bool \<times> u32 \<times> u32 \<Rightarrow> u32" where
  "destroy_handoff_mutex callback_mutex b =
     (case b of (deferred, device, in_flight, callback, context) \<Rightarrow>
        if \<not> deferred \<and> in_flight then callback_mutex callback context else 0)"

text \<open>The section that ends a destroy from inside the callback.\<close>

definition destroy_deferred :: "player \<Rightarrow> player" where
  "destroy_deferred p = p\<lparr>pl_has_thread := False, pl_resources_closed := True\<rparr>"

definition worker_start :: "u32 \<Rightarrow> player \<Rightarrow> player" where
  "worker_start t p = p\<lparr>pl_thread_id := Some t\<rparr>"

end
