(* ===== verification/Asm2_AudioProps.thy ===== *)
theory Asm2_AudioProps
  imports Asm2_AudioQueue
begin

text \<open>
  Properties of the buffer queue, for every interleaving of guest threads, the audio callback and
  the worker.  The step relation carries two ghost byte strings: what has been accepted since the
  last clear, and what the callback has taken of it.
\<close>

section \<open>Well-formed buffers\<close>

definition buffer_ok :: "audio_buffer \<Rightarrow> bool" where
  "buffer_ok b \<longleftrightarrow> unat (ab_capacity b) = length (ab_data b) \<and> ab_size b \<le> ab_capacity b"

definition queued_ok :: "audio_buffer \<Rightarrow> bool" where
  "queued_ok b \<longleftrightarrow> buffer_ok b \<and> ab_offset b < ab_size b"

text \<open>The bytes of a queued buffer that have not been played.\<close>

definition unplayed :: "audio_buffer \<Rightarrow> bytes" where
  "unplayed b = take (unat (ab_size b - ab_offset b)) (drop (unat (ab_offset b)) (ab_data b))"

definition queue_bytes :: "player \<Rightarrow> bytes" where
  "queue_bytes p = concat (map unplayed (pl_queue p))"

definition queue_inv :: "player \<Rightarrow> bool" where
  "queue_inv p \<longleftrightarrow>
     list_all queued_ok (pl_queue p) \<and> list_all buffer_ok (pl_free p)
     \<and> unat (pl_queued_count p) = length (pl_queue p)
     \<and> pl_queued_count p \<le> pl_queue_capacity p
     \<and> pl_queue_capacity p \<le> 64 \<and> pl_pending_recovery p = 0"

lemma u32_unat_lt: "unat (x :: u32) < 4294967296"
  using unsigned_less [of x] by simp

lemma pull_splits:
  assumes q: "queued_ok b" and r: "remaining \<noteq> 0"
  defines "count \<equiv> pull_count b remaining"
  shows "unplayed b = pull_bytes b count @ unplayed (b\<lparr>ab_offset := ab_offset b + count\<rparr>)"
    and "ab_offset b + count \<noteq> ab_size b \<Longrightarrow> queued_ok (b\<lparr>ab_offset := ab_offset b + count\<rparr>)"
    and "ab_offset b + count = ab_size b \<Longrightarrow> unplayed (b\<lparr>ab_offset := ab_offset b + count\<rparr>) = []"
    and "length (pull_bytes b count) = unat count" and "count \<le> remaining"
    and "ab_offset b + count \<noteq> ab_size b \<Longrightarrow> count = remaining"
proof -
  let ?o = "unat (ab_offset b)" and ?s = "unat (ab_size b)" and ?n = "unat count"
  have ok: "?s \<le> length (ab_data b)" "?o < ?s"
    using q by (auto simp: queued_ok_def buffer_ok_def word_le_nat_alt word_less_nat_alt)
  have av: "unat (ab_size b - ab_offset b) = ?s - ?o"
    using ok by (simp add: unat_sub word_le_nat_alt)
  have n: "?n \<le> ?s - ?o" "count \<le> remaining"
    unfolding count_def pull_count_def Let_def using av
    by (auto simp: word_less_nat_alt word_le_nat_alt)
  have o': "unat (ab_offset b + count) = ?o + ?n"
  proof (rule unat_add_lem [THEN iffD1])
    have "?s < 2 ^ 32" using u32_unat_lt [of "ab_size b"] by simp
    then show "?o + ?n < 2 ^ LENGTH(32)" using n(1) ok by simp
  qed
  have s': "unat (ab_size b - (ab_offset b + count)) = ?s - ?o - ?n"
    using ok n o' by (simp add: unat_sub word_le_nat_alt)
  show "unplayed b = pull_bytes b count @ unplayed (b\<lparr>ab_offset := ab_offset b + count\<rparr>)"
  proof -
    have "?n + (?s - ?o - ?n) = ?s - ?o" using n(1) by simp
    then have "take (?s - ?o) (drop ?o (ab_data b))
        = take ?n (drop ?o (ab_data b)) @ take (?s - ?o - ?n) (drop ?n (drop ?o (ab_data b)))"
      using take_add [of ?n "?s - ?o - ?n" "drop ?o (ab_data b)"] by simp
    then show ?thesis
      unfolding unplayed_def pull_bytes_def using o' s' av by (simp add: add.commute)
  qed
  show "queued_ok (b\<lparr>ab_offset := ab_offset b + count\<rparr>)" if "ab_offset b + count \<noteq> ab_size b"
  proof -
    have "?o + ?n \<noteq> ?s" using that o' by (metis word_unat_eq_iff)
    with q n ok o' show ?thesis by (simp add: queued_ok_def buffer_ok_def word_less_nat_alt)
  qed
  show "unplayed (b\<lparr>ab_offset := ab_offset b + count\<rparr>) = []" if "ab_offset b + count = ab_size b"
    by (simp add: unplayed_def that)
  show "length (pull_bytes b count) = unat count"
    using n ok by (simp add: pull_bytes_def)
  show "count \<le> remaining" by (rule n)
  show "count = remaining" if "ab_offset b + count \<noteq> ab_size b"
    using that pull_count_not_finished unfolding count_def by blast
qed

lemma recycle_simps [simp]:
  "pl_queue (asm2_sl_recycle_buffer_locked b p) = pl_queue p"
  "pl_queued_count (asm2_sl_recycle_buffer_locked b p) = pl_queued_count p"
  "pl_queue_capacity (asm2_sl_recycle_buffer_locked b p) = pl_queue_capacity p"
  "pl_pending_recovery (asm2_sl_recycle_buffer_locked b p) = pl_pending_recovery p"
  "pl_free (asm2_sl_recycle_buffer_locked b p) = b\<lparr>ab_size := 0, ab_offset := 0\<rparr> # pl_free p"
  by (simp_all add: asm2_sl_recycle_buffer_locked_def)

lemma buffer_ok_emptied [simp]: "buffer_ok b \<Longrightarrow> buffer_ok (b\<lparr>ab_size := 0, ab_offset := 0\<rparr>)"
  by (simp add: buffer_ok_def)

text \<open>One drain of the queue: what comes out is what was in front, in order, and nothing is lost.\<close>

lemma audio_pull_fifo:
  assumes "queue_inv p"
  shows "case audio_pull p remaining out of (p1, r1, out1) \<Rightarrow>
     queue_inv p1 \<and> out1 @ queue_bytes p1 = out @ queue_bytes p
     \<and> length out1 + unat r1 = length out + unat remaining
     \<and> (r1 \<noteq> 0 \<longrightarrow> pl_queue p1 = [])"
  using assms
proof (induction p remaining out rule: audio_pull.induct)
  case (1 p remaining out)
  show ?case
  proof (cases "pl_queue p")
    case Nil
    with "1.prems" show ?thesis by (simp add: audio_pull.simps)
  next
    case (Cons b rest)
    show ?thesis
    proof (cases "remaining = 0")
      case True
      with Cons "1.prems" show ?thesis by (simp add: audio_pull.simps)
    next
      case False
      let ?n = "pull_count b remaining"
      let ?b1 = "b\<lparr>ab_offset := ab_offset b + ?n\<rparr>"
      let ?p1 = "p\<lparr>pl_queue := ?b1 # rest,
          pl_played_frames := pl_played_frames p + ucast (?n div pl_bytes_per_frame p)\<rparr>"
      let ?p2 = "if ab_offset ?b1 = ab_size ?b1 then finish_buffer ?b1 rest ?p1 else ?p1"
      have qb: "queued_ok b" using "1.prems" Cons by (simp add: queue_inv_def)
      note s = pull_splits [OF qb False]
      have inv2: "queue_inv ?p2"
      proof (cases "ab_offset b + ?n = ab_size b")
        case True
        have "pl_queued_count p \<noteq> 0" using "1.prems" Cons by (auto simp: queue_inv_def)
        moreover from this have "unat (pl_queued_count p - 1) = unat (pl_queued_count p) - 1"
          by (simp add: unat_minus_one)
        moreover have "pl_queued_count p - 1 \<le> pl_queued_count p"
          using calculation by (simp add: word_le_nat_alt)
        moreover have "buffer_ok (b\<lparr>ab_size := 0, ab_offset := 0\<rparr>)" using qb by (simp add: queued_ok_def)
        ultimately show ?thesis
          using True "1.prems" Cons by (auto simp: queue_inv_def finish_buffer_def)
      next
        case False
        with s(2) "1.prems" Cons show ?thesis by (simp add: queue_inv_def)
      qed
      have bytes2: "pull_bytes b ?n @ queue_bytes ?p2 = queue_bytes p"
        using s(1,3) Cons by (simp add: queue_bytes_def finish_buffer_def)
      have step: "audio_pull p remaining out = audio_pull ?p2 (remaining - ?n) (out @ pull_bytes b ?n)"
        using Cons False by (subst audio_pull.simps) (simp add: Let_def)
      have r: "unat (remaining - ?n) = unat remaining - unat ?n" "unat ?n \<le> unat remaining"
        using s(5) by (simp_all add: unat_sub word_le_nat_alt)
      have "case audio_pull ?p2 (remaining - ?n) (out @ pull_bytes b ?n) of (p1, r1, out1) \<Rightarrow>
         queue_inv p1 \<and> out1 @ queue_bytes p1 = (out @ pull_bytes b ?n) @ queue_bytes ?p2
         \<and> length out1 + unat r1 = length (out @ pull_bytes b ?n) + unat (remaining - ?n)
         \<and> (r1 \<noteq> 0 \<longrightarrow> pl_queue p1 = [])"
        by (rule "1.IH" [OF Cons False refl refl refl refl inv2])
      then show ?thesis
        unfolding step using bytes2 s(4) r by (auto split: prod.splits)
    qed
  qed
qed

section \<open>Operations keep the queue well formed\<close>

lemma queue_inv_frame:
  assumes "queue_inv p" "pl_queue p' = pl_queue p" "pl_queued_count p' = pl_queued_count p"
    "pl_queue_capacity p' = pl_queue_capacity p" "list_all buffer_ok (pl_free p')" "pl_pending_recovery p' = 0"
  shows "queue_inv p' \<and> queue_bytes p' = queue_bytes p"
  using assms by (simp add: queue_inv_def queue_bytes_def)

lemma fold_recycle:
  "pl_queue (fold asm2_sl_recycle_buffer_locked bs p) = pl_queue p"
  "pl_queue_capacity (fold asm2_sl_recycle_buffer_locked bs p) = pl_queue_capacity p"
  "pl_pending_recovery (fold asm2_sl_recycle_buffer_locked bs p) = pl_pending_recovery p"
  by (induction bs arbitrary: p) simp_all

lemma fold_recycle_free:
  "list_all buffer_ok bs \<Longrightarrow> list_all buffer_ok (pl_free p)
    \<Longrightarrow> list_all buffer_ok (pl_free (fold asm2_sl_recycle_buffer_locked bs p))"
  by (induction bs arbitrary: p) simp_all

lemma clear_inv:
  assumes "queue_inv p"
  shows "queue_inv (snd (asm2_sl_buffer_clear p))"
    and "pl_has_mutex p \<Longrightarrow> queue_bytes (snd (asm2_sl_buffer_clear p)) = []"
proof -
  have "list_all buffer_ok (pl_queue p)"
    using assms by (auto simp: queue_inv_def queued_ok_def list_all_iff)
  then have "list_all buffer_ok (pl_free (asm2_sl_clear_queued_buffers_locked p))"
    using assms by (simp add: asm2_sl_clear_queued_buffers_locked_def fold_recycle_free queue_inv_def)
  then show "queue_inv (snd (asm2_sl_buffer_clear p))"
    using assms by (simp add: asm2_sl_buffer_clear_def asm2_sl_clear_queued_buffers_locked_def queue_inv_def
        fold_recycle Let_def)
  show "queue_bytes (snd (asm2_sl_buffer_clear p)) = []" if "pl_has_mutex p"
    using that by (simp add: asm2_sl_buffer_clear_def asm2_sl_clear_queued_buffers_locked_def queue_bytes_def Let_def)
qed

lemma refused_effect:
  assumes "enqueue_refused t p = Some (e, p1)"
  shows "pl_queue p1 = pl_queue p" "pl_free p1 = pl_free p" "pl_queued_count p1 = pl_queued_count p"
    "pl_queue_capacity p1 = pl_queue_capacity p" "pl_pending_recovery p1 = pl_pending_recovery p" "e \<noteq> sl_success"
  using assms by (auto simp: enqueue_refused_def split: if_splits)

lemma refused_inv:
  assumes "enqueue_refused t p = Some (e, p1)" "queue_inv p"
  shows "queue_inv p1 \<and> queue_bytes p1 = queue_bytes p"
  using refused_effect [OF assms(1)] assms(2) by (intro queue_inv_frame) (simp_all add: queue_inv_def)

lemma reserve_inv:
  assumes "enqueue_reserve t data n p = (r, p1)" "queue_inv p"
  shows "queue_inv p1 \<and> queue_bytes p1 = queue_bytes p
     \<and> (\<forall>b. r = Reserved (Some b) \<longrightarrow> buffer_ok b) \<and> (\<forall>b. r = Reserved b \<longrightarrow> n \<noteq> 0 \<and> data \<noteq> None)"
proof (cases "data = None \<or> n = 0 \<or> pl_object_state p \<noteq> sl_realized")
  case True
  with assms show ?thesis by (auto simp: enqueue_reserve_def split: if_splits)
next
  case False
  show ?thesis
  proof (cases "enqueue_refused t p")
    case None
    with False assms show ?thesis
      by (cases "pl_free p") (auto simp: enqueue_reserve_def queue_inv_def queue_bytes_def)
  next
    case (Some ep)
    with False assms refused_inv show ?thesis
      by (cases ep) (auto simp: enqueue_reserve_def)
  qed
qed

lemma fill_ok:
  assumes "\<And>b. r = Some b \<Longrightarrow> buffer_ok b" "n \<noteq> 0" "length d = unat n"
  shows "case enqueue_fill c a r d n of
      Calloc_failed \<Rightarrow> True
    | Realloc_failed b \<Rightarrow> buffer_ok b
    | Filled b \<Rightarrow> queued_ok b \<and> unplayed b = d"
proof -
  have e: "buffer_ok empty_buffer" by (simp add: buffer_ok_def empty_buffer_def)
  have cap: "length (ab_data b) = unat (ab_capacity b)" if "buffer_ok b" for b
    using that by (simp add: buffer_ok_def)
  have "n > 0" using assms(2) by (simp add: word_gt_0)
  then show ?thesis
    using assms e cap
    by (auto simp: enqueue_fill_def queued_ok_def buffer_ok_def unplayed_def Let_def word_le_nat_alt word_less_nat_alt
        split: option.splits)
qed

lemma commit_inv:
  assumes inv: "queue_inv p" and b: "queued_ok b" and r: "enqueue_commit t b peak p = (e, p1)"
  shows "queue_inv p1"
    and "queue_bytes p1 = (if e = sl_success then queue_bytes p @ unplayed b else queue_bytes p)"
proof -
  have "queue_inv p1 \<and> queue_bytes p1 = (if e = sl_success then queue_bytes p @ unplayed b else queue_bytes p)"
  proof (cases "enqueue_refused t p")
    case None
    then have lt: "pl_queued_count p < pl_queue_capacity p"
      by (auto simp: enqueue_refused_def split: if_splits)
    moreover have "unat (pl_queued_count p + 1) = unat (pl_queued_count p) + 1"
      using lt u32_unat_lt [of "pl_queue_capacity p"] by (simp add: unat_word_ariths word_less_nat_alt)
    moreover have "pl_queued_count p + 1 \<le> pl_queue_capacity p"
      using lt calculation(2) by (simp add: word_less_nat_alt word_le_nat_alt)
    ultimately show ?thesis
      using None inv b r by (auto simp: enqueue_commit_def queue_inv_def queue_bytes_def)
  next
    case (Some ep)
    obtain e1 p2 where ep: "ep = (e1, p2)" by (cases ep)
    note f = refused_effect [OF Some [unfolded ep]]
    have "buffer_ok b" using b by (simp add: queued_ok_def)
    then show ?thesis
      using Some ep f inv r by (auto simp: enqueue_commit_def queue_inv_def queue_bytes_def)
  qed
  then show "queue_inv p1" "queue_bytes p1 = (if e = sl_success then queue_bytes p @ unplayed b else queue_bytes p)"
    by simp_all
qed

text \<open>The worker's section: after a wait that timed out (\<open>polled\<close>), or after a signal.\<close>

definition worker_section :: "bool \<Rightarrow> player \<Rightarrow> (u32 \<times> u32 \<times> u64) option \<times> player" where
  "worker_section polled p = worker_take (if polled then worker_poll p else p)"

lemma worker_section_inv:
  assumes "queue_inv p"
  shows "queue_inv (snd (worker_section polled p)) \<and> queue_bytes (snd (worker_section polled p)) = queue_bytes p"
  using assms
  by (auto simp: worker_section_def worker_poll_def worker_take_def queue_inv_def queue_bytes_def Let_def
      asm2_sl_recovery_ready_locked_def)

section \<open>Any interleaving\<close>

datatype enqueuer =
    Idle
  | Copying "audio_buffer option" bytes
  | Copied audio_buffer bytes

record sound =
  so_player :: player
  so_enqueuers :: "u32 \<Rightarrow> enqueuer"
  so_accepted :: bytes
  so_played :: bytes

definition begin_enqueue :: "u32 \<Rightarrow> bytes \<Rightarrow> sound \<Rightarrow> sound" where
  "begin_enqueue t data s =
     (case enqueue_reserve t (Some data) (of_nat (length data)) (so_player s) of
        (Rejected e, p) \<Rightarrow> s\<lparr>so_player := p\<rparr>
      | (Reserved b, p) \<Rightarrow> s\<lparr>so_player := p, so_enqueuers := (so_enqueuers s)(t := Copying b data)\<rparr>)"

definition copy_enqueue :: "u32 \<Rightarrow> bool \<Rightarrow> bool \<Rightarrow> audio_buffer option \<Rightarrow> bytes \<Rightarrow> sound \<Rightarrow> sound" where
  "copy_enqueue t c r b data s =
     (case enqueue_fill c r b data (of_nat (length data)) of
        Calloc_failed \<Rightarrow> s\<lparr>so_enqueuers := (so_enqueuers s)(t := Idle)\<rparr>
      | Realloc_failed b1 \<Rightarrow>
          s\<lparr>so_player := enqueue_abandon b1 (so_player s), so_enqueuers := (so_enqueuers s)(t := Idle)\<rparr>
      | Filled b1 \<Rightarrow> s\<lparr>so_enqueuers := (so_enqueuers s)(t := Copied b1 data)\<rparr>)"

definition end_enqueue :: "u32 \<Rightarrow> audio_buffer \<Rightarrow> bytes \<Rightarrow> sound \<Rightarrow> sound" where
  "end_enqueue t b data s =
     (case enqueue_commit t b (pcm_peak data 0) (so_player s) of
        (e, p) \<Rightarrow> s\<lparr>so_player := p, so_enqueuers := (so_enqueuers s)(t := Idle),
                    so_accepted := so_accepted s @ (if e = sl_success then data else [])\<rparr>)"

definition device_pull :: "nat \<Rightarrow> sound \<Rightarrow> sound" where
  "device_pull wanted s =
     (case asm2_sl_sdl_audio_callback wanted (so_player s) of
        (out, p) \<Rightarrow> s\<lparr>so_player := p,
           so_played := so_played s @ take (length (queue_bytes (so_player s)) - length (queue_bytes p)) out\<rparr>)"

inductive sound_step :: "sound \<Rightarrow> sound \<Rightarrow> bool" where
  reserve: "length data < 2 ^ 32 \<Longrightarrow> so_enqueuers s t = Idle \<Longrightarrow> sound_step s (begin_enqueue t data s)"
| fill: "so_enqueuers s t = Copying b data \<Longrightarrow> sound_step s (copy_enqueue t c r b data s)"
| commit: "so_enqueuers s t = Copied b data \<Longrightarrow> sound_step s (end_enqueue t b data s)"
| device: "wanted < 2 ^ 31 \<Longrightarrow> sound_step s (device_pull wanted s)"
| clear: "pl_has_mutex (so_player s) \<Longrightarrow>
    sound_step s (s\<lparr>so_player := snd (asm2_sl_buffer_clear (so_player s)), so_accepted := [], so_played := []\<rparr>)"
| state: "sound_step s (s\<lparr>so_player := snd (asm2_sl_play_set_state v (so_player s))\<rparr>)"
| callback: "sound_step s (s\<lparr>so_player := snd (asm2_sl_buffer_register_callback f x (so_player s))\<rparr>)"
| worker: "sound_step s (s\<lparr>so_player := snd (worker_section polled (so_player s))\<rparr>)"
| worker_end: "sound_step s (s\<lparr>so_player := worker_done serial (so_player s)\<rparr>)"
| report: "sound_step s (s\<lparr>so_player := asm2_sl_maybe_report now (so_player s)\<rparr>)"

inductive_cases sound_stepE: "sound_step s s'"

definition enqueuer_ok :: "enqueuer \<Rightarrow> bool" where
  "enqueuer_ok e \<longleftrightarrow>
     (case e of
        Idle \<Rightarrow> True
      | Copying b data \<Rightarrow> data \<noteq> [] \<and> length data < 2 ^ 32 \<and> (\<forall>b1. b = Some b1 \<longrightarrow> buffer_ok b1)
      | Copied b data \<Rightarrow> queued_ok b \<and> unplayed b = data)"

definition sound_inv :: "sound \<Rightarrow> bool" where
  "sound_inv s \<longleftrightarrow>
     queue_inv (so_player s) \<and> (\<forall>t. enqueuer_ok (so_enqueuers s t))
     \<and> so_accepted s = so_played s @ queue_bytes (so_player s)"

lemma sound_inv_player:
  assumes "sound_inv s" "queue_inv p" "queue_bytes p = queue_bytes (so_player s)"
  shows "sound_inv (s\<lparr>so_player := p\<rparr>)"
  using assms by (simp add: sound_inv_def)

lemma callback_output:
  assumes inv: "queue_inv p" and w: "wanted < 2 ^ 32"
    and r: "asm2_sl_sdl_audio_callback wanted p = (out, p1)"
    and playing: "pl_play_state p = sl_playing" "\<not> pl_shutdown p"
  shows "out = take wanted (queue_bytes p) @ replicate (wanted - length (queue_bytes p)) 0"
    "queue_bytes p1 = drop wanted (queue_bytes p)" "queue_inv p1"
proof -
  obtain p2 r2 out2 where a: "audio_pull p (of_nat wanted) [] = (p2, r2, out2)" by (cases "audio_pull p (of_nat wanted) []")
  have u: "unat (of_nat wanted :: u32) = wanted" using w by (simp add: unat_of_nat)
  from audio_pull_fifo [where remaining = "of_nat wanted" and out = "[]", OF inv] a u
  have f: "queue_inv p2" "out2 @ queue_bytes p2 = queue_bytes p" "length out2 + unat r2 = wanted"
    "r2 \<noteq> 0 \<longrightarrow> pl_queue p2 = []" by simp_all
  have p1: "queue_inv p1 \<and> queue_bytes p1 = queue_bytes p2"
    using r a playing f(1) by (auto simp: asm2_sl_sdl_audio_callback_def queue_inv_def queue_bytes_def split: if_splits)
  have out: "out = out2 @ replicate (wanted - length out2) 0"
    using r a playing by (simp add: asm2_sl_sdl_audio_callback_def)
  show "queue_inv p1" using p1 by simp
  show "out = take wanted (queue_bytes p) @ replicate (wanted - length (queue_bytes p)) 0"
    "queue_bytes p1 = drop wanted (queue_bytes p)"
  proof -
    have "out2 = take wanted (queue_bytes p) \<and> queue_bytes p2 = drop wanted (queue_bytes p)
        \<and> wanted - length out2 = wanted - length (queue_bytes p)"
    proof (cases "r2 = 0")
      case True
      with f show ?thesis by (metis add.right_neutral append_eq_conv_conj diff_is_0_eq' length_append
            le_add1 unsigned_0 diff_self_eq_0)
    next
      case False
      with f have "queue_bytes p2 = []" by (simp add: queue_bytes_def)
      with f show ?thesis by (metis append_Nil2 drop_all le_add1 take_all)
    qed
    with out p1 show "out = take wanted (queue_bytes p) @ replicate (wanted - length (queue_bytes p)) 0"
      "queue_bytes p1 = drop wanted (queue_bytes p)" by simp_all
  qed
qed

lemma device_pull_inv:
  assumes inv: "sound_inv s" and w: "wanted < 2 ^ 31"
  shows "sound_inv (device_pull wanted s)"
proof -
  let ?p = "so_player s"
  obtain out p1 where r: "asm2_sl_sdl_audio_callback wanted ?p = (out, p1)" by fastforce
  have q: "queue_inv ?p" and acc: "so_accepted s = so_played s @ queue_bytes ?p"
    using inv by (simp_all add: sound_inv_def)
  show ?thesis
  proof (cases "pl_play_state ?p = sl_playing \<and> \<not> pl_shutdown ?p")
    case True
    have w': "wanted < 2 ^ 32" using w by simp
    note c = callback_output [OF q w' r]
    have "take (length (queue_bytes ?p) - length (queue_bytes p1)) out = take wanted (queue_bytes ?p)"
      using c True by (cases "wanted \<le> length (queue_bytes ?p)") simp_all
    then show ?thesis
      using inv r c True acc by (simp add: device_pull_def sound_inv_def)
  next
    case False
    with r have "p1 = ?p" by (auto simp: asm2_sl_sdl_audio_callback_def)
    with inv r show ?thesis by (simp add: device_pull_def sound_inv_def)
  qed
qed

lemma sound_step_inv:
  assumes "sound_step s s'" and inv: "sound_inv s"
  shows "sound_inv s'"
  using assms(1)
proof (cases rule: sound_step.cases)
  case (reserve data t)
  have u: "of_nat (length data) = (0 :: u32) \<longleftrightarrow> data = []"
    using reserve(2) nat_dvd_not_less [of "length data" "2 ^ 32"] by (auto simp: word_of_nat_eq_0_iff)
  obtain r p where rp: "enqueue_reserve t (Some data) (of_nat (length data)) (so_player s) = (r, p)" by fastforce
  have q: "queue_inv (so_player s)" using inv by (simp add: sound_inv_def)
  note k = reserve_inv [OF rp q]
  show ?thesis
  proof (cases r)
    case (Rejected e)
    with reserve(1) rp k inv show ?thesis by (simp add: begin_enqueue_def sound_inv_def)
  next
    case (Reserved b)
    have "enqueuer_ok (Copying b data)" using k Reserved reserve(2) u by (auto simp: enqueuer_ok_def)
    with reserve(1) rp k inv Reserved show ?thesis by (simp add: begin_enqueue_def sound_inv_def)
  qed
next
  case (fill t b data c r)
  have e: "enqueuer_ok (Copying b data)" using inv fill(2) by (metis sound_inv_def)
  then have d: "data \<noteq> []" "length data < 2 ^ 32" by (simp_all add: enqueuer_ok_def)
  have u: "of_nat (length data) \<noteq> (0 :: u32)" "unat (of_nat (length data) :: u32) = length data"
    using d nat_dvd_not_less [of "length data" "2 ^ 32"] by (auto simp: word_of_nat_eq_0_iff unat_of_nat)
  have f: "case enqueue_fill c r b data (of_nat (length data)) of
      Calloc_failed \<Rightarrow> True | Realloc_failed b \<Rightarrow> buffer_ok b | Filled b \<Rightarrow> queued_ok b \<and> unplayed b = data"
    using fill_ok [of b "of_nat (length data)" data c r] e u by (simp add: enqueuer_ok_def)
  show ?thesis
  proof (cases "enqueue_fill c r b data (of_nat (length data))")
    case Calloc_failed
    with fill(1) inv show ?thesis by (simp add: copy_enqueue_def sound_inv_def enqueuer_ok_def)
  next
    case (Realloc_failed b1)
    with fill(1) inv f show ?thesis
      by (simp add: copy_enqueue_def sound_inv_def enqueuer_ok_def enqueue_abandon_def queue_inv_def queue_bytes_def Let_def)
  next
    case (Filled b1)
    with fill(1) inv f show ?thesis by (simp add: copy_enqueue_def sound_inv_def enqueuer_ok_def)
  qed
next
  case (commit t b data)
  have e: "enqueuer_ok (Copied b data)" using inv commit(2) by (metis sound_inv_def)
  have q: "queue_inv (so_player s)" using inv by (simp add: sound_inv_def)
  obtain r p where rp: "enqueue_commit t b (pcm_peak data 0) (so_player s) = (r, p)" by fastforce
  have "queued_ok b" using e by (simp add: enqueuer_ok_def)
  note k = commit_inv [OF q this rp]
  show ?thesis
    using commit(1) rp k inv e by (auto simp: end_enqueue_def sound_inv_def enqueuer_ok_def)
next
  case (device wanted)
  with inv device_pull_inv show ?thesis by simp
next
  case clear
  with inv clear_inv [of "so_player s"] show ?thesis by (simp add: sound_inv_def)
next
  case (state v)
  with inv show ?thesis
    by (auto intro!: sound_inv_player simp: asm2_sl_play_set_state_def sound_inv_def queue_inv_def queue_bytes_def Let_def)
next
  case (callback f x)
  with inv show ?thesis
    by (auto intro!: sound_inv_player simp: asm2_sl_buffer_register_callback_def sound_inv_def queue_inv_def queue_bytes_def Let_def)
next
  case (worker polled)
  with inv worker_section_inv show ?thesis by (simp add: sound_inv_player sound_inv_def)
next
  case (worker_end serial)
  with inv show ?thesis
    by (auto intro!: sound_inv_player simp: worker_done_def sound_inv_def queue_inv_def queue_bytes_def)
next
  case (report now)
  with inv show ?thesis
    by (auto intro!: sound_inv_player simp: asm2_sl_maybe_report_def sound_inv_def queue_inv_def queue_bytes_def)
qed

section \<open>Properties\<close>

text \<open>A player as it is after \<open>Realize\<close>, with nothing queued.\<close>

definition fresh_player :: "u32 \<Rightarrow> player" where
  "fresh_player capacity =
     \<lparr>pl_object_state = sl_realized, pl_has_mutex = True, pl_has_thread = True, pl_thread_id = Some 1,
      pl_device = 1, pl_queue = [], pl_free = [], pl_queued_count = 0, pl_queue_capacity = capacity,
      pl_play_index = 0, pl_played_frames = 0, pl_frequency = 32000, pl_channels = 2,
      pl_bytes_per_frame = 4, pl_play_state = sl_stopped, pl_pending = 0, pl_pending_recovery = 0,
      pl_in_flight = False, pl_generation = 0, pl_in_flight_generation = 0, pl_shutdown = False,
      pl_destroy_on_exit = False, pl_resources_closed = False, pl_subsystem = True, pl_callback = 0,
      pl_context = 0, pl_in_flight_callback = 0, pl_in_flight_context = 0, pl_serial = 0,
      pl_enqueues = 0, pl_completed = 0, pl_callbacks = 0, pl_dry_callbacks = 0, pl_recoveries = 0,
      pl_stale = 0, pl_failures = 0, pl_underruns = 0, pl_underrun_bytes = 0, pl_peak = 0,
      pl_last_report = 0\<rparr>"

definition fresh_sound :: "u32 \<Rightarrow> sound" where
  "fresh_sound capacity =
     \<lparr>so_player = fresh_player capacity, so_enqueuers = (\<lambda>_. Idle), so_accepted = [], so_played = []\<rparr>"

lemma fresh_sound_inv: "capacity \<le> 64 \<Longrightarrow> sound_inv (fresh_sound capacity)"
  by (simp add: fresh_sound_def fresh_player_def sound_inv_def queue_inv_def queue_bytes_def enqueuer_ok_def)

lemma sound_reachable_inv:
  "sound_step\<^sup>*\<^sup>* (fresh_sound capacity) s \<Longrightarrow> capacity \<le> 64 \<Longrightarrow> sound_inv s"
  by (induction rule: rtranclp_induct) (auto intro: fresh_sound_inv sound_step_inv)


definition demo_sound :: sound where
  "demo_sound = begin_enqueue 9 [1, 2, 3, 4] (fresh_sound 2)"


text \<open>While the player plays, the device is given exactly as many bytes as it wants: the next bytes of
  the queue, then silence; and exactly those bytes leave the queue.\<close>

theorem device_gets_queue_then_silence:
  assumes "queue_inv p" and "wanted < 2 ^ 32" and "pl_play_state p = sl_playing" and "\<not> pl_shutdown p"
  shows "fst (asm2_sl_sdl_audio_callback wanted p)
       = take wanted (queue_bytes p) @ replicate (wanted - length (queue_bytes p)) 0
     \<and> queue_bytes (snd (asm2_sl_sdl_audio_callback wanted p)) = drop wanted (queue_bytes p)
     \<and> queue_inv (snd (asm2_sl_sdl_audio_callback wanted p))"
  using callback_output [OF assms(1,2) _ assms(3,4)] by (metis prod.collapse)

theorem device_gets_queue_then_silence_witness:
  "fst (asm2_sl_sdl_audio_callback 3 ((fresh_player 2)\<lparr>pl_play_state := sl_playing\<rparr>)) = [0, 0, 0]"
  using device_gets_queue_then_silence [of "(fresh_player 2)\<lparr>pl_play_state := sl_playing\<rparr>" 3]
  by (simp add: fresh_player_def queue_inv_def queue_bytes_def numeral_3_eq_3)

text \<open>A playing player whose queue has run dry is never left silent for good: when the worker's wait
  times out and no callback is pending or in flight, it calls the guest's callback again.\<close>

theorem dry_queue_calls_back:
  assumes "pl_play_state p = sl_playing" and "\<not> pl_shutdown p" and "pl_callback p \<noteq> 0"
    and "queue_inv p" and "queue_bytes p = []" and "pl_pending p = 0" and "\<not> pl_in_flight p"
  shows "fst (worker_section True p) = Some (pl_callback p, pl_context p, pl_serial p)
     \<and> pl_in_flight (snd (worker_section True p)) \<and> pl_pending (snd (worker_section True p)) = 0
     \<and> pl_recoveries (snd (worker_section True p)) = pl_recoveries p + 1"
proof -
  have "pl_queue p = []"
  proof (cases "pl_queue p")
    case (Cons b rest)
    then have q: "queued_ok b" using assms(4) by (simp add: queue_inv_def)
    then have "unplayed b \<noteq> []"
      using q
      by (auto simp: unplayed_def queued_ok_def buffer_ok_def word_less_nat_alt word_le_nat_alt unat_sub)
    with assms(5) Cons show ?thesis by (simp add: queue_bytes_def)
  qed
  moreover from this have "pl_queued_count p = 0" using assms(4) by (simp add: queue_inv_def unat_eq_zero)
  ultimately show ?thesis
    using assms by (simp add: worker_section_def worker_poll_def worker_take_def asm2_sl_recovery_ready_locked_def)
qed

theorem dry_queue_calls_back_witness:
  "fst (worker_section True ((fresh_player 2)\<lparr>pl_play_state := sl_playing, pl_callback := 77\<rparr>)) = Some (77, 0, 0)"
  using dry_queue_calls_back [of "(fresh_player 2)\<lparr>pl_play_state := sl_playing, pl_callback := 77\<rparr>"]
  by (simp add: fresh_player_def queue_inv_def queue_bytes_def)

lemma fold_recycle_eq:
  "fold asm2_sl_recycle_buffer_locked bs p
    = p\<lparr>pl_free := rev (map (\<lambda>b. b\<lparr>ab_size := 0, ab_offset := 0\<rparr>) bs) @ pl_free p\<rparr>"
  by (induction bs arbitrary: p) (simp_all add: asm2_sl_recycle_buffer_locked_def)

text \<open>A callback that was overtaken while in flight, by a stop, a clear or a new registration, can
  enqueue nothing: its Enqueue returns an error, counts as stale, and leaves the queue as it was.\<close>

theorem overtaken_callback_cannot_enqueue:
  assumes "pl_in_flight p" and "pl_thread_id p = Some t" and "pl_in_flight_generation p = pl_generation p"
    and "pl_object_state p = sl_realized" and "pl_has_mutex p" and "n \<noteq> 0"
    and "q = snd (asm2_sl_play_set_state sl_stopped p) \<or> q = snd (asm2_sl_buffer_clear p)
       \<or> q = snd (asm2_sl_buffer_register_callback f x p)"
  shows "asm2_sl_buffer_enqueue t c r (Some data) n q
     = (sl_preconditions_violated, q\<lparr>pl_failures := pl_failures q + 1, pl_stale := pl_stale q + 1\<rparr>)"
proof -
  have "stale_caller t q \<and> pl_object_state q = sl_realized"
    using assms(7)
  proof (elim disjE)
    assume "q = snd (asm2_sl_buffer_clear p)"
    with assms(1-5) show ?thesis
      by (simp add: stale_caller_def asm2_sl_buffer_clear_def asm2_sl_clear_queued_buffers_locked_def
          fold_recycle_eq Let_def)
  qed (use assms(1-5) in \<open>simp_all add: stale_caller_def asm2_sl_play_set_state_def
      asm2_sl_buffer_register_callback_def Let_def\<close>)
  with assms(6) show ?thesis
    by (simp add: asm2_sl_buffer_enqueue_def enqueue_reserve_def enqueue_refused_def)
qed

theorem overtaken_callback_cannot_enqueue_witness:
  "fst (asm2_sl_buffer_enqueue 1 True True (Some [5, 6]) 2
     (snd (asm2_sl_play_set_state sl_stopped ((fresh_player 2)\<lparr>pl_in_flight := True\<rparr>)))) = sl_preconditions_violated"
  using overtaken_callback_cannot_enqueue [of "(fresh_player 2)\<lparr>pl_in_flight := True\<rparr>" 1 2
      "snd (asm2_sl_play_set_state sl_stopped ((fresh_player 2)\<lparr>pl_in_flight := True\<rparr>))" 0 0 True True "[5, 6]"]
  by (simp add: fresh_player_def)

end
