(* ===== verification/Asm2_AudioTeardown.thy ===== *)
theory Asm2_AudioTeardown
  imports Asm2_AudioPlayer Asm2_AudioProps
begin

text \<open>
  Realising and destroying a player.  A failed \<open>Realize\<close> gives back everything it took.  Destroying
  is a protocol between the destroyer, the worker and the device: the step relation below has one
  step for each section of code that reads or writes the player, so that "no step is possible"
  says that nobody touches it any more.
\<close>

section \<open>Realize\<close>

definition resources :: "audio_host \<Rightarrow> nat \<times> nat \<times> nat \<times> nat \<times> nat" where
  "resources h = (ah_subsystems h, ah_mutexes h, ah_conds h, ah_threads h, ah_devices h)"

definition same_resources :: "audio_host \<Rightarrow> audio_host \<Rightarrow> bool" where
  "same_resources h h' \<longleftrightarrow> resources h' = resources h"

lemma initialize_cases:
  "asm2_sl_initialize_audio_subsystem fallback h = (r, h1) \<Longrightarrow>
    (r = 0 \<and> resources h1 = (ah_subsystems h + 1, ah_mutexes h, ah_conds h, ah_threads h, ah_devices h))
    \<or> (r = -1 \<and> resources h1 = resources h)"
  by (auto simp: asm2_sl_initialize_audio_subsystem_def sdl_init_audio_def resources_def Let_def
      split: list.splits if_splits bool.splits)

lemma sdl_make_resources: "sdl_make h = (ok, h1) \<Longrightarrow> resources h1 = resources h"
  by (auto simp: sdl_make_def resources_def split: list.splits)


definition demo_host :: audio_host where
  "demo_host =
     \<lparr>ah_driver = None, ah_init = [], ah_setenv = True, ah_make = [True, True, True], ah_device = 0,
      ah_worker_id = 5, ah_subsystems = 3, ah_mutexes = 0, ah_conds = 0, ah_threads = 0, ah_devices = 0,
      ah_created = 1, ah_released = 0, ah_workers_started = 0, ah_workers_exited = 0, ah_deferred = 0\<rparr>"


section \<open>Destroy\<close>

datatype worker_phase = W_starting | W_loop | W_calling u64 | W_leaving | W_exited

datatype destroy_phase = D_none | D_closing bool u32 | D_joining | D_done

record teardown =
  td_player :: player
  td_worker :: worker_phase
  td_destroyer :: destroy_phase
  td_device_open :: bool
  td_released :: nat

text \<open>What the guest may do with the player until Destroy: any operation of its interfaces.\<close>

definition guest_operation :: "player \<Rightarrow> player \<Rightarrow> bool" where
  "guest_operation p p' \<longleftrightarrow>
     (\<exists>t c r data n. p' = snd (asm2_sl_buffer_enqueue t c r data n p))
     \<or> p' = snd (asm2_sl_buffer_clear p)
     \<or> (\<exists>v. p' = snd (asm2_sl_play_set_state v p))
     \<or> (\<exists>f x. p' = snd (asm2_sl_buffer_register_callback f x p))"

inductive teardown_step :: "teardown \<Rightarrow> teardown \<Rightarrow> bool" where
  start: "td_worker s = W_starting
    \<Longrightarrow> teardown_step s (s\<lparr>td_player := worker_start t (td_player s), td_worker := W_loop\<rparr>)"
| take: "td_worker s = W_loop \<Longrightarrow> worker_section polled (td_player s) = (call, p)
    \<Longrightarrow> teardown_step s (s\<lparr>td_player := p, td_worker :=
          (case call of Some (f, x, n) \<Rightarrow> W_calling n
           | None \<Rightarrow> if pl_shutdown p then W_leaving else W_loop)\<rparr>)"
| return: "td_worker s = W_calling n \<Longrightarrow> (\<And>d. td_destroyer s \<noteq> D_closing True d)
    \<Longrightarrow> teardown_step s (s\<lparr>td_player := worker_done n (td_player s), td_worker := W_loop\<rparr>)"
| leave: "td_worker s = W_leaving \<Longrightarrow> \<not> pl_destroy_on_exit (td_player s) \<or> pl_resources_closed (td_player s)
    \<Longrightarrow> teardown_step s (s\<lparr>td_worker := W_exited,
          td_released := td_released s + (if pl_destroy_on_exit (td_player s) then 1 else 0)\<rparr>)"
| pull: "td_device_open s
    \<Longrightarrow> teardown_step s (s\<lparr>td_player := snd (asm2_sl_sdl_audio_callback wanted (td_player s))\<rparr>)"
| guest: "td_destroyer s = D_none \<Longrightarrow> guest_operation (td_player s) p
    \<Longrightarrow> teardown_step s (s\<lparr>td_player := p\<rparr>)"
| destroy: "td_destroyer s = D_none
    \<Longrightarrow> (pl_thread_id (td_player s) = Some t \<Longrightarrow> \<exists>n. td_worker s = W_calling n)
    \<Longrightarrow> destroy_begin t (td_player s) = ((d, dev, rest), p)
    \<Longrightarrow> teardown_step s (s\<lparr>td_player := p, td_destroyer := D_closing d dev\<rparr>)"
| close_deferred: "td_destroyer s = D_closing True dev
    \<Longrightarrow> teardown_step s (s\<lparr>td_player := destroy_deferred (td_player s), td_destroyer := D_done,
          td_device_open := False\<rparr>)"
| close: "td_destroyer s = D_closing False dev
    \<Longrightarrow> teardown_step s (s\<lparr>td_destroyer := D_joining, td_device_open := False\<rparr>)"
| join: "td_destroyer s = D_joining \<Longrightarrow> td_worker s = W_exited
    \<Longrightarrow> teardown_step s (s\<lparr>td_destroyer := D_done, td_released := td_released s + 1\<rparr>)"

inductive_cases teardown_stepE: "teardown_step s s'"

definition teardown_initial :: "player \<Rightarrow> teardown" where
  "teardown_initial p =
     \<lparr>td_player = p, td_worker = W_starting, td_destroyer = D_none, td_device_open = True, td_released = 0\<rparr>"

text \<open>A player just realised: it has its thread, and nobody is destroying it.\<close>

definition just_realized :: "player \<Rightarrow> bool" where
  "just_realized p \<longleftrightarrow>
     pl_has_thread p \<and> pl_thread_id p = None \<and> \<not> pl_shutdown p \<and> \<not> pl_destroy_on_exit p \<and> \<not> pl_resources_closed p"

text \<open>The fields the protocol turns on.\<close>

definition flags :: "player \<Rightarrow> bool \<times> bool \<times> bool \<times> bool \<times> u32 option" where
  "flags p = (pl_shutdown p, pl_destroy_on_exit p, pl_resources_closed p, pl_has_thread p, pl_thread_id p)"

lemma flags_recycle [simp]: "flags (asm2_sl_recycle_buffer_locked b p) = flags p"
  by (simp add: flags_def asm2_sl_recycle_buffer_locked_def)

lemma flags_refused: "enqueue_refused t p = Some (e, p1) \<Longrightarrow> flags p1 = flags p"
  by (auto simp: enqueue_refused_def flags_def split: if_splits)

lemma flags_reserve: "enqueue_reserve t data n p = (r, p1) \<Longrightarrow> flags p1 = flags p"
proof (cases "enqueue_refused t p")
  case None
  then show "enqueue_reserve t data n p = (r, p1) \<Longrightarrow> flags p1 = flags p"
    by (auto simp: enqueue_reserve_def flags_def split: if_splits list.splits)
next
  case (Some ep)
  then show "enqueue_reserve t data n p = (r, p1) \<Longrightarrow> flags p1 = flags p"
    using flags_refused by (cases ep) (auto simp: enqueue_reserve_def split: if_splits)
qed

lemma flags_commit: "enqueue_commit t b k p = (r, p1) \<Longrightarrow> flags p1 = flags p"
proof (cases "enqueue_refused t p")
  case None
  then show "enqueue_commit t b k p = (r, p1) \<Longrightarrow> flags p1 = flags p"
    by (auto simp: enqueue_commit_def flags_def)
next
  case (Some ep)
  then show "enqueue_commit t b k p = (r, p1) \<Longrightarrow> flags p1 = flags p"
    using flags_refused by (cases ep) (auto simp: enqueue_commit_def)
qed

lemma flags_enqueue: "flags (snd (asm2_sl_buffer_enqueue t c r data n p)) = flags p"
proof -
  obtain res p1 where e: "enqueue_reserve t data n p = (res, p1)" by fastforce
  note f = flags_reserve [OF e]
  show ?thesis
  proof (cases res)
    case (Rejected x)
    with e f show ?thesis by (simp add: asm2_sl_buffer_enqueue_def)
  next
    case (Reserved rb)
    let ?d = "case data of None \<Rightarrow> [] | Some d \<Rightarrow> d"
    show ?thesis
    proof (cases "enqueue_fill c r rb ?d n")
      case Calloc_failed
      with e f Reserved show ?thesis by (simp add: asm2_sl_buffer_enqueue_def Let_def)
    next
      case (Realloc_failed b)
      moreover have "flags (enqueue_abandon b p1) = flags p1"
        by (simp add: enqueue_abandon_def flags_def asm2_sl_recycle_buffer_locked_def Let_def)
      ultimately show ?thesis using e f Reserved by (simp add: asm2_sl_buffer_enqueue_def Let_def)
    next
      case (Filled b)
      obtain r2 p2 where "enqueue_commit t b (pcm_peak (take (unat n) ?d) 0) p1 = (r2, p2)" by fastforce
      with flags_commit [OF this] e f Reserved Filled show ?thesis
        by (simp add: asm2_sl_buffer_enqueue_def Let_def)
    qed
  qed
qed

lemma flags_guest: "guest_operation p p' \<Longrightarrow> flags p' = flags p"
  unfolding guest_operation_def
proof (elim disjE exE)
  assume "p' = snd (asm2_sl_buffer_clear p)"
  then show ?thesis
    by (simp add: asm2_sl_buffer_clear_def asm2_sl_clear_queued_buffers_locked_def fold_recycle_eq flags_def Let_def)
next
  fix t c r data n assume "p' = snd (asm2_sl_buffer_enqueue t c r data n p)"
  then show ?thesis by (simp add: flags_enqueue)
qed (auto simp: asm2_sl_play_set_state_def asm2_sl_buffer_register_callback_def flags_def Let_def)

lemma flags_section: "flags (snd (worker_section polled p)) = flags p"
  by (simp add: worker_section_def worker_take_def worker_poll_def flags_def Let_def)

lemma section_shutdown: "pl_shutdown p \<Longrightarrow> fst (worker_section polled p) = None"
  by (simp add: worker_section_def worker_take_def worker_poll_def asm2_sl_recovery_ready_locked_def)

lemma flags_pull: "flags (fst (audio_pull p remaining out)) = flags p"
proof (induction p remaining out rule: audio_pull.induct)
  case (1 p remaining out)
  show ?case
  proof (cases "pl_queue p = [] \<or> remaining = 0")
    case True
    then show ?thesis by (cases "pl_queue p") (auto simp: audio_pull.simps)
  next
    case False
    then obtain b rest where q: "pl_queue p = b # rest" by (cases "pl_queue p") auto
    show ?thesis
      using False q 1 [OF q _ refl refl refl refl]
      by (subst audio_pull.simps) (simp add: Let_def finish_buffer_def flags_def asm2_sl_recycle_buffer_locked_def)
  qed
qed

lemma flags_callback: "flags (snd (asm2_sl_sdl_audio_callback wanted p)) = flags p"
  using flags_pull [of p "of_nat wanted" "[]"]
  by (auto simp: asm2_sl_sdl_audio_callback_def flags_def split: prod.splits)

text \<open>What holds in each phase of the destroyer.\<close>

definition teardown_inv :: "teardown \<Rightarrow> bool" where
  "teardown_inv s \<longleftrightarrow>
     (let p = td_player s; w = td_worker s
      in case td_destroyer s of
           D_none \<Rightarrow> \<not> pl_shutdown p \<and> \<not> pl_destroy_on_exit p \<and> w \<noteq> W_leaving \<and> w \<noteq> W_exited
             \<and> td_released s = 0 \<and> pl_has_thread p
         | D_closing d dev \<Rightarrow> pl_shutdown p \<and> pl_destroy_on_exit p = d \<and> (d \<longrightarrow> (\<exists>n. w = W_calling n))
             \<and> td_released s = 0
         | D_joining \<Rightarrow> pl_shutdown p \<and> \<not> pl_destroy_on_exit p \<and> \<not> td_device_open s \<and> td_released s = 0
         | D_done \<Rightarrow> pl_shutdown p \<and> \<not> td_device_open s
             \<and> (if pl_destroy_on_exit p
                then pl_resources_closed p \<and> td_released s = (if w = W_exited then 1 else 0)
                else w = W_exited \<and> td_released s = 1))"

lemma teardown_inv_player:
  assumes "teardown_inv s" "flags p = flags (td_player s)"
  shows "teardown_inv (s\<lparr>td_player := p\<rparr>)"
  using assms by (cases "td_destroyer s") (auto simp: teardown_inv_def flags_def Let_def)

lemma teardown_step_inv:
  assumes "teardown_step s s'" and inv: "teardown_inv s"
  shows "teardown_inv s'"
  using assms(1)
proof (cases rule: teardown_step.cases)
  case (start t)
  with inv show ?thesis
    by (cases "td_destroyer s") (auto simp: teardown_inv_def worker_start_def Let_def split: if_splits)
next
  case (take polled call p)
  have f: "flags p = flags (td_player s)" using flags_section [of polled "td_player s"] take(3) by simp
  have c: "pl_shutdown (td_player s) \<Longrightarrow> call = None" using section_shutdown take(3) by (metis fst_conv)
  have i: "teardown_inv (s\<lparr>td_player := p\<rparr>)" by (rule teardown_inv_player [OF inv f])
  show ?thesis
    using take(1,2) i c f by (cases "td_destroyer s"; cases call) (auto simp: teardown_inv_def flags_def Let_def)
next
  case (return n)
  have i: "teardown_inv (s\<lparr>td_player := worker_done n (td_player s)\<rparr>)"
    by (rule teardown_inv_player [OF inv]) (simp add: flags_def worker_done_def)
  show ?thesis
    using return i by (cases "td_destroyer s") (auto simp: teardown_inv_def Let_def split: if_splits)
next
  case leave
  with inv show ?thesis
    by (cases "td_destroyer s") (auto simp: teardown_inv_def Let_def split: if_splits)
next
  case (pull wanted)
  with inv teardown_inv_player flags_callback show ?thesis by simp
next
  case (guest p)
  with inv teardown_inv_player flags_guest show ?thesis by simp
next
  case (destroy t d dev rest p)
  then show ?thesis
    using inv by (auto simp: teardown_inv_def destroy_begin_def Let_def)
next
  case (close_deferred dev)
  with inv show ?thesis by (auto simp: teardown_inv_def destroy_deferred_def Let_def)
next
  case (close dev)
  with inv show ?thesis by (auto simp: teardown_inv_def Let_def)
next
  case join
  with inv show ?thesis by (auto simp: teardown_inv_def Let_def)
qed

lemma teardown_reachable_inv:
  "teardown_step\<^sup>*\<^sup>* (teardown_initial p) s \<Longrightarrow> just_realized p \<Longrightarrow> teardown_inv s"
proof (induction rule: rtranclp_induct)
  case base
  then show ?case by (simp add: teardown_inv_def teardown_initial_def just_realized_def Let_def)
next
  case (step s s')
  then show ?case using teardown_step_inv by blast
qed

lemma teardown_freed:
  assumes "teardown_inv s" "td_released s \<noteq> 0"
  shows "td_destroyer s = D_done \<and> \<not> td_device_open s \<and> td_worker s = W_exited \<and> td_released s = 1"
  using assms by (cases "td_destroyer s") (auto simp: teardown_inv_def Let_def split: if_splits)

lemma teardown_freed_stuck:
  assumes "td_destroyer s = D_done" "\<not> td_device_open s" "td_worker s = W_exited"
  shows "\<not> teardown_step s s'"
proof
  assume "teardown_step s s'"
  then show False using assms by (cases rule: teardown_step.cases) auto
qed

lemma teardown_progress:
  assumes inv: "teardown_inv s" and r: "td_released s = 0"
  shows "\<exists>s'. teardown_step s s'"
proof (cases "td_worker s")
  case W_starting
  then show ?thesis using teardown_step.start by blast
next
  case W_loop
  obtain call q where "worker_section True (td_player s) = (call, q)" by fastforce
  with W_loop show ?thesis using teardown_step.take by blast
next
  case (W_calling n)
  show ?thesis
  proof (cases "\<exists>d. td_destroyer s = D_closing True d")
    case True
    then show ?thesis using teardown_step.close_deferred by blast
  next
    case False
    with W_calling show ?thesis using teardown_step.return by blast
  qed
next
  case W_leaving
  have "\<not> pl_destroy_on_exit (td_player s) \<or> pl_resources_closed (td_player s)"
    using inv W_leaving r by (cases "td_destroyer s") (auto simp: teardown_inv_def Let_def split: if_splits)
  with W_leaving show ?thesis using teardown_step.leave by blast
next
  case W_exited
  consider d where "td_destroyer s = D_closing False d" | "td_destroyer s = D_joining"
    using inv r W_exited
    by (cases "td_destroyer s") (auto simp: teardown_inv_def Let_def split: if_splits)
  then show ?thesis
  proof cases
    case (1 d)
    then show ?thesis using teardown_step.close by blast
  next
    case 2
    with W_exited show ?thesis using teardown_step.join by blast
  qed
qed



end
