(* ===== verification/Asm2_ElfLoader.thy ===== *)
theory Asm2_ElfLoader
  imports Asm2_Prelude "HOL-Library.Monad_Syntax"
begin

text \<open>
  The ELF loader of \<open>src/asm2_127/src/so_util.c\<close> for the 32-bit ARM build: parsing and checking
  the file, laying out the segments, relocation, import resolution, symbol lookup and hooks.

  The file is a byte list and a read of it is an option: \<open>None\<close> is a read past the end of the
  allocated copy, which the C code does not exclude.  Process memory is a total map from 32-bit addresses to
  bytes.  Pointers, \<open>size_t\<close> and \<open>uintptr_t\<close> are 32-bit words, and their sums wrap as in the code.
  The functions that end the process (\<open>fatal_error\<close>) have the value \<open>None\<close> as well.
\<close>

section \<open>Memory\<close>

type_synonym memory = "u32 \<Rightarrow> u8"

definition ld16 :: "memory \<Rightarrow> u32 \<Rightarrow> u16" where
  "ld16 m a = ucast (m a) OR push_bit 8 (ucast (m (a + 1)))"

definition ld32 :: "memory \<Rightarrow> u32 \<Rightarrow> u32" where
  "ld32 m a = get_le32 (m a) (m (a + 1)) (m (a + 2)) (m (a + 3))"

definition st16 :: "memory \<Rightarrow> u32 \<Rightarrow> u16 \<Rightarrow> memory" where
  "st16 m a v = m(a := ucast v, a + 1 := ucast (drop_bit 8 v))"

definition st32 :: "memory \<Rightarrow> u32 \<Rightarrow> u32 \<Rightarrow> memory" where
  "st32 m a v = m(a := ucast v, a + 1 := ucast (drop_bit 8 v), a + 2 := ucast (drop_bit 16 v),
                  a + 3 := ucast (drop_bit 24 v))"

text \<open>\<open>memset(a, 0, n)\<close> and \<open>memcpy\<close> of a byte list.\<close>

definition clear_range :: "u32 \<Rightarrow> u32 \<Rightarrow> memory \<Rightarrow> memory" where
  "clear_range a n m = (\<lambda>x. if x - a < n then 0 else m x)"

fun store_bytes :: "u32 \<Rightarrow> bytes \<Rightarrow> memory \<Rightarrow> memory" where
  "store_bytes a [] m = m"
| "store_bytes a (b # bs) m = store_bytes (a + 1) bs (m(a := b))"

text \<open>The C string at an address; it has none when no byte from there on is 0.\<close>

partial_function (option) cstring_at :: "memory \<Rightarrow> u32 \<Rightarrow> bytes option" where
  "cstring_at m a =
     (if m a = 0 then Some []
      else do { s \<leftarrow> cstring_at m (a + 1); Some (m a # s) })"

declare cstring_at.simps [code]

section \<open>The file\<close>

definition rd8 :: "bytes \<Rightarrow> u32 \<Rightarrow> u8 option" where
  "rd8 file off = (if unat off < length file then Some (file ! unat off) else None)"

definition rd16 :: "bytes \<Rightarrow> u32 \<Rightarrow> u16 option" where
  "rd16 file off = do {
     a \<leftarrow> rd8 file off; b \<leftarrow> rd8 file (off + 1);
     Some (ucast a OR push_bit 8 (ucast b))
   }"

definition rd32 :: "bytes \<Rightarrow> u32 \<Rightarrow> u32 option" where
  "rd32 file off = do {
     a \<leftarrow> rd8 file off; b \<leftarrow> rd8 file (off + 1); c \<leftarrow> rd8 file (off + 2); d \<leftarrow> rd8 file (off + 3);
     Some (get_le32 a b c d)
   }"

text \<open>\<open>memcmp\<close> and \<open>strcmp\<close> on the file, stopping at the first difference.\<close>

fun file_prefix_is :: "bytes \<Rightarrow> u32 \<Rightarrow> bytes \<Rightarrow> bool option" where
  "file_prefix_is file off [] = Some True"
| "file_prefix_is file off (c # cs) =
     (case rd8 file off of
        None \<Rightarrow> None
      | Some b \<Rightarrow> if b \<noteq> c then Some False else file_prefix_is file (off + 1) cs)"

fun file_string_is :: "bytes \<Rightarrow> u32 \<Rightarrow> bytes \<Rightarrow> bool option" where
  "file_string_is file off [] = map_option (\<lambda>b. b = 0) (rd8 file off)"
| "file_string_is file off (c # cs) =
     (case rd8 file off of
        None \<Rightarrow> None
      | Some b \<Rightarrow> if b \<noteq> c then Some False else file_string_is file (off + 1) cs)"

record elf_header =
  eh_class :: u8
  eh_machine :: u16
  eh_phoff :: u32
  eh_shoff :: u32
  eh_phnum :: u16
  eh_shnum :: u16
  eh_shstrndx :: u16

record program_header =
  ph_type :: u32
  ph_offset :: u32
  ph_vaddr :: u32
  ph_filesz :: u32
  ph_memsz :: u32
  ph_flags :: u32

record section_header =
  sh_name :: u32
  sh_addr :: u32
  sh_offset :: u32
  sh_size :: u32

definition read_elf_header :: "bytes \<Rightarrow> elf_header option" where
  "read_elf_header file = do {
     c \<leftarrow> rd8 file 4; mc \<leftarrow> rd16 file 18; po \<leftarrow> rd32 file 28; so \<leftarrow> rd32 file 32;
     pn \<leftarrow> rd16 file 44; sn \<leftarrow> rd16 file 48; si \<leftarrow> rd16 file 50;
     Some \<lparr>eh_class = c, eh_machine = mc, eh_phoff = po, eh_shoff = so, eh_phnum = pn,
           eh_shnum = sn, eh_shstrndx = si\<rparr>
   }"

definition read_program_header :: "bytes \<Rightarrow> u32 \<Rightarrow> program_header option" where
  "read_program_header file off = do {
     t \<leftarrow> rd32 file off; o1 \<leftarrow> rd32 file (off + 4); va \<leftarrow> rd32 file (off + 8);
     fs \<leftarrow> rd32 file (off + 16); ms \<leftarrow> rd32 file (off + 20); fl \<leftarrow> rd32 file (off + 24);
     Some \<lparr>ph_type = t, ph_offset = o1, ph_vaddr = va, ph_filesz = fs, ph_memsz = ms, ph_flags = fl\<rparr>
   }"

definition read_section_header :: "bytes \<Rightarrow> u32 \<Rightarrow> section_header option" where
  "read_section_header file off = do {
     n \<leftarrow> rd32 file off; a \<leftarrow> rd32 file (off + 12); o1 \<leftarrow> rd32 file (off + 16); sz \<leftarrow> rd32 file (off + 20);
     Some \<lparr>sh_name = n, sh_addr = a, sh_offset = o1, sh_size = sz\<rparr>
   }"

fun read_table :: "(u32 \<Rightarrow> 'a option) \<Rightarrow> u32 \<Rightarrow> u32 \<Rightarrow> nat \<Rightarrow> 'a list option" where
  "read_table rd off stride 0 = Some []"
| "read_table rd off stride (Suc n) = do {
     x \<leftarrow> rd off; xs \<leftarrow> read_table rd (off + stride) stride n;
     Some (x # xs)
   }"

section \<open>Loading\<close>

record so_image =
  so_file :: bytes
  so_programs :: "program_header list"
  so_sections :: "section_header list"
  so_shstrtab :: u32
  so_mapping :: u32
  so_bias :: u32
  so_load_size :: u32
  so_min_vaddr :: u32
  so_text_base :: u32
  so_text_size :: u32
  so_data_base :: u32
  so_data_size :: u32
  so_syms :: u32
  so_num_syms :: nat
  so_dynstr :: u32

text \<open>A failing load gives the code's result, the mapping it leaves recorded and the memory.\<close>

datatype load_result = Load_fails int u32 memory | Loaded so_image memory | Load_reads_outside

definition align_page :: "u32 \<Rightarrow> u32" where
  "align_page x = (x + 0xFFF) AND NOT 0xFFF"

definition pt_load :: u32 where "pt_load = 1"

definition segment_start :: "program_header \<Rightarrow> u32" where
  "segment_start ph = ph_vaddr ph AND NOT 0xFFF"

definition segment_end :: "program_header \<Rightarrow> u32" where
  "segment_end ph = align_page (ph_vaddr ph + ph_memsz ph)"

text \<open>The loop over the segments: lowest start, highest end, first executable, first writable.\<close>

type_synonym layout = "u32 \<times> u32 \<times> program_header option \<times> program_header option"

definition segment_refused :: "u32 \<Rightarrow> program_header \<Rightarrow> bool" where
  "segment_refused so_size ph \<longleftrightarrow>
     ph_filesz ph > ph_memsz ph
     \<or> unat (ph_offset ph) + unat (ph_filesz ph) > unat so_size
     \<or> segment_end ph < segment_start ph"

fun scan_segments :: "u32 \<Rightarrow> program_header list \<Rightarrow> layout \<Rightarrow> layout option" where
  "scan_segments so_size [] l = Some l"
| "scan_segments so_size (ph # phs) (lo, hi, text_seg, data_seg) =
     (if ph_type ph \<noteq> pt_load then scan_segments so_size phs (lo, hi, text_seg, data_seg)
      else if segment_refused so_size ph then None
      else scan_segments so_size phs
        (if segment_start ph < lo then segment_start ph else lo,
         if segment_end ph > hi then segment_end ph else hi,
         if bit (ph_flags ph) 0 \<and> text_seg = None then Some ph else text_seg,
         if bit (ph_flags ph) 1 \<and> data_seg = None then Some ph else data_seg))"

fun copy_segments :: "bytes \<Rightarrow> u32 \<Rightarrow> program_header list \<Rightarrow> memory \<Rightarrow> memory" where
  "copy_segments file bias [] m = m"
| "copy_segments file bias (ph # phs) m =
     (if ph_type ph \<noteq> pt_load then copy_segments file bias phs m
      else copy_segments file bias phs
        (store_bytes (bias + ph_vaddr ph)
           (take (unat (ph_filesz ph)) (drop (unat (ph_offset ph)) file)) m))"

text \<open>The dynamic symbol table and its strings, found by section name; a later section wins.\<close>

fun find_dynamic ::
  "bytes \<Rightarrow> u32 \<Rightarrow> u32 \<Rightarrow> section_header list \<Rightarrow> (u32 \<times> nat) option \<times> u32 option
    \<Rightarrow> ((u32 \<times> nat) option \<times> u32 option) option" where
  "find_dynamic file shstrtab bias [] found = Some found"
| "find_dynamic file shstrtab bias (sh # shs) (syms, strs) = do {
     is_dynsym \<leftarrow> file_string_is file (shstrtab + sh_name sh) (cstr ''.dynsym'');
     if is_dynsym then
       find_dynamic file shstrtab bias shs (Some (bias + sh_addr sh, unat (sh_size sh div 16)), strs)
     else do {
       is_dynstr \<leftarrow> file_string_is file (shstrtab + sh_name sh) (cstr ''.dynstr'');
       find_dynamic file shstrtab bias shs (syms, if is_dynstr then Some (bias + sh_addr sh) else strs)
     }
   }"

datatype file_answer = No_file | Malloc_failed | Read_failed | File bytes

definition so_layout :: "u32 \<Rightarrow> u32 \<Rightarrow> program_header list \<Rightarrow> int + layout" where
  "so_layout so_size max_size phs =
     (case scan_segments so_size phs (0xFFFFFFFF, 0, None, None) of
        None \<Rightarrow> Inl (-1)
      | Some (lo, hi, text_seg, data_seg) \<Rightarrow>
          if lo = 0xFFFFFFFF \<or> hi \<le> lo \<or> text_seg = None \<or> data_seg = None then Inl (-1)
          else if hi - lo > max_size then Inl (-3)
          else Inr (lo, hi, text_seg, data_seg))"

text \<open>From the checks of the header up to the layout.\<close>

definition so_check ::
  "bytes \<Rightarrow> u32 \<Rightarrow> (int + program_header list \<times> section_header list \<times> u32 \<times> layout) option" where
  "so_check file max_size = do {
     let so_size = of_nat (length file);
     h \<leftarrow> read_elf_header file;
     if eh_class h \<noteq> 1 then Some (Inl (-1))
     else if eh_machine h \<noteq> 40 then Some (Inl (-1))
     else if eh_phoff h + ucast (eh_phnum h) * 32 > so_size then Some (Inl (-1))
     else if eh_shoff h + ucast (eh_shnum h) * 40 > so_size then Some (Inl (-1))
     else if eh_shstrndx h \<ge> eh_shnum h then Some (Inl (-1))
     else do {
       phs \<leftarrow> read_table (read_program_header file) (eh_phoff h) 32 (unat (eh_phnum h));
       shs \<leftarrow> read_table (read_section_header file) (eh_shoff h) 40 (unat (eh_shnum h));
       let shstrtab = sh_offset (shs ! unat (eh_shstrndx h));
       Some (case so_layout so_size max_size phs of
               Inl e \<Rightarrow> Inl e
             | Inr l \<Rightarrow> Inr (phs, shs, shstrtab, l))
     }
   }"

definition so_load :: "file_answer \<Rightarrow> u32 \<Rightarrow> u32 \<Rightarrow> memory \<Rightarrow> load_result" where
  "so_load answer base max_size m =
     (case answer of
        No_file \<Rightarrow> Load_fails (-1) 0 m
      | Malloc_failed \<Rightarrow> Load_fails (-2) 0 m
      | Read_failed \<Rightarrow> Load_fails (-3) 0 m
      | File file \<Rightarrow>
          if file = [] then Load_fails (-3) 0 m
          else case file_prefix_is file 0 [0x7F, 0x45, 0x4C, 0x46] of
            None \<Rightarrow> Load_reads_outside
          | Some False \<Rightarrow> Load_fails (-1) 0 m
          | Some True \<Rightarrow>
            (case so_check file max_size of
               None \<Rightarrow> Load_reads_outside
             | Some (Inl e) \<Rightarrow> Load_fails e 0 m
             | Some (Inr (phs, shs, shstrtab, (lo, hi, text_seg, data_seg))) \<Rightarrow>
                 if base = 0 then Load_fails (-1) 0 m
                 else
                   let bias = base - lo;
                       m1 = copy_segments file bias phs (clear_range base (hi - lo) m)
                   in case find_dynamic file shstrtab bias shs (None, None) of
                        None \<Rightarrow> Load_reads_outside
                      | Some (Some (syms, n), Some strs) \<Rightarrow>
                          if syms = 0 \<or> strs = 0 then Load_fails (-2) base m1
                          else Loaded \<lparr>so_file = file, so_programs = phs, so_sections = shs,
                                  so_shstrtab = shstrtab, so_mapping = base, so_bias = bias,
                                  so_load_size = hi - lo, so_min_vaddr = lo,
                                  so_text_base = ph_vaddr (the text_seg) + bias,
                                  so_text_size = ph_memsz (the text_seg),
                                  so_data_base = ph_vaddr (the data_seg) + bias,
                                  so_data_size = ph_memsz (the data_seg),
                                  so_syms = syms, so_num_syms = n, so_dynstr = strs\<rparr> m1
                      | Some _ \<Rightarrow> Load_fails (-2) base m1))"

text \<open>\<open>so_unload\<close> looks at the recorded mapping only; a failing \<open>munmap\<close> is fatal.\<close>

definition so_unload :: "u32 \<Rightarrow> bool \<Rightarrow> (int \<times> u32) option" where
  "so_unload mapping munmap_ok =
     (if mapping = 0 then Some (-1, 0) else if munmap_ok then Some (0, 0) else None)"

section \<open>The relocation tables\<close>

definition section_is :: "so_image \<Rightarrow> section_header \<Rightarrow> string \<Rightarrow> bool option" where
  "section_is img sh name = file_string_is (so_file img) (so_shstrtab img + sh_name sh) (cstr name)"

definition is_rel_section :: "so_image \<Rightarrow> section_header \<Rightarrow> bool option" where
  "is_rel_section img sh = do {
     dyn \<leftarrow> section_is img sh ''.rel.dyn'';
     if dyn then Some True else section_is img sh ''.rel.plt''
   }"

text \<open>The fields of a relocation entry and of a symbol, both read from the loaded image.\<close>

definition rel_offset :: "memory \<Rightarrow> u32 \<Rightarrow> u32" where "rel_offset m rel = ld32 m rel"
definition rel_info :: "memory \<Rightarrow> u32 \<Rightarrow> u32" where "rel_info m rel = ld32 m (rel + 4)"
definition rel_type :: "memory \<Rightarrow> u32 \<Rightarrow> u32" where "rel_type m rel = rel_info m rel AND 0xFF"

definition rel_sym :: "so_image \<Rightarrow> memory \<Rightarrow> u32 \<Rightarrow> u32" where
  "rel_sym img m rel = so_syms img + 16 * drop_bit 8 (rel_info m rel)"

definition st_name :: "memory \<Rightarrow> u32 \<Rightarrow> u32" where "st_name m sy = ld32 m sy"
definition st_value :: "memory \<Rightarrow> u32 \<Rightarrow> u32" where "st_value m sy = ld32 m (sy + 4)"
definition st_bind :: "memory \<Rightarrow> u32 \<Rightarrow> u8" where "st_bind m sy = drop_bit 4 (m (sy + 12))"
definition st_shndx :: "memory \<Rightarrow> u32 \<Rightarrow> u16" where "st_shndx m sy = ld16 m (sy + 14)"

abbreviation (input) "R_ARM_ABS32 \<equiv> 2 :: u32"
abbreviation (input) "R_ARM_GLOB_DAT \<equiv> 21 :: u32"
abbreviation (input) "R_ARM_JUMP_SLOT \<equiv> 22 :: u32"
abbreviation (input) "R_ARM_RELATIVE \<equiv> 23 :: u32"

text \<open>Every entry of every relocation section, in the order in which all the passes visit them.\<close>

fun table_entries :: "u32 \<Rightarrow> nat \<Rightarrow> u32 list" where
  "table_entries rel 0 = []"
| "table_entries rel (Suc n) = rel # table_entries (rel + 8) n"

fun section_entries :: "so_image \<Rightarrow> section_header list \<Rightarrow> u32 list option" where
  "section_entries img [] = Some []"
| "section_entries img (sh # shs) = do {
     rel \<leftarrow> is_rel_section img sh;
     es \<leftarrow> section_entries img shs;
     Some ((if rel then table_entries (so_bias img + sh_addr sh) (unat (sh_size sh div 8)) else []) @ es)
   }"

section \<open>Relocation\<close>

definition relocated_value :: "so_image \<Rightarrow> memory \<Rightarrow> u32 \<Rightarrow> u32 option" where
  "relocated_value img m rel =
     (let slot = so_bias img + rel_offset m rel;
          sy = rel_sym img m rel;
          type = rel_type m rel
      in if type = R_ARM_ABS32 then
           (if st_shndx m sy \<noteq> 0 then Some (so_bias img + st_value m sy + ld32 m slot) else None)
         else if type = R_ARM_RELATIVE then Some (so_bias img + ld32 m slot)
         else if type = R_ARM_GLOB_DAT \<or> type = R_ARM_JUMP_SLOT then
           (if st_shndx m sy \<noteq> 0 then Some (so_bias img + st_value m sy) else None)
         else None)"

definition known_type :: "u32 \<Rightarrow> bool" where
  "known_type t \<longleftrightarrow> t = R_ARM_ABS32 \<or> t = R_ARM_RELATIVE \<or> t = R_ARM_GLOB_DAT \<or> t = R_ARM_JUMP_SLOT"

definition put_slot :: "u32 \<Rightarrow> u32 option \<Rightarrow> memory \<Rightarrow> memory" where
  "put_slot slot v m = (case v of None \<Rightarrow> m | Some w \<Rightarrow> st32 m slot w)"

text \<open>An unknown type is fatal.\<close>

definition relocate_one :: "so_image \<Rightarrow> u32 \<Rightarrow> memory \<Rightarrow> memory option" where
  "relocate_one img rel m =
     (if known_type (rel_type m rel)
      then Some (put_slot (so_bias img + rel_offset m rel) (relocated_value img m rel) m)
      else None)"

fun relocate_table :: "so_image \<Rightarrow> u32 \<Rightarrow> nat \<Rightarrow> memory \<Rightarrow> memory option" where
  "relocate_table img rel 0 m = Some m"
| "relocate_table img rel (Suc n) m = do {
     m1 \<leftarrow> relocate_one img rel m;
     relocate_table img (rel + 8) n m1
   }"

fun relocate_sections :: "so_image \<Rightarrow> section_header list \<Rightarrow> memory \<Rightarrow> memory option" where
  "relocate_sections img [] m = Some m"
| "relocate_sections img (sh # shs) m = do {
     rel \<leftarrow> is_rel_section img sh;
     m1 \<leftarrow> (if rel then relocate_table img (so_bias img + sh_addr sh) (unat (sh_size sh div 8)) m else Some m);
     relocate_sections img shs m1
   }"

definition so_relocate :: "so_image \<Rightarrow> memory \<Rightarrow> (int \<times> memory) option" where
  "so_relocate img m = do { m1 \<leftarrow> relocate_sections img (so_sections img) m; Some (0, m1) }"

section \<open>Imports\<close>

type_synonym import_table = "(bytes \<times> u32) list"

fun so_find_import :: "import_table \<Rightarrow> bytes \<Rightarrow> (bytes \<times> u32) option" where
  "so_find_import [] name = None"
| "so_find_import (f # fs) name = (if fst f = name then Some f else so_find_import fs name)"

text \<open>
  What an undefined symbol resolves to: the table first, then the host's symbols
  (\<open>dlsym\<close>, 0 for none), then 0 for a weak symbol.  The addend is added by the caller.
\<close>

definition import_address :: "import_table \<Rightarrow> (bytes \<Rightarrow> u32) \<Rightarrow> bytes \<Rightarrow> bool \<Rightarrow> u32 option" where
  "import_address funcs dlsym name weak =
     (case so_find_import funcs name of
        Some (_, f) \<Rightarrow> Some f
      | None \<Rightarrow> if dlsym name \<noteq> 0 then Some (dlsym name) else if weak then Some 0 else None)"

definition import_type :: "u32 \<Rightarrow> bool" where
  "import_type t \<longleftrightarrow> t = R_ARM_GLOB_DAT \<or> t = R_ARM_JUMP_SLOT \<or> t = R_ARM_ABS32"

definition resolve_one ::
  "so_image \<Rightarrow> import_table \<Rightarrow> (bytes \<Rightarrow> u32) \<Rightarrow> bool \<Rightarrow> u32 \<Rightarrow> memory \<Rightarrow> (nat \<times> memory) option" where
  "resolve_one img funcs dlsym taint rel m =
     (let slot = so_bias img + rel_offset m rel;
          sy = rel_sym img m rel;
          type = rel_type m rel
      in if \<not> import_type type \<or> st_shndx m sy \<noteq> 0 then Some (0, m)
         else do {
           let addend = (if type = R_ARM_ABS32 then ld32 m slot else 0);
           let m1 = (if taint then st32 m slot (rel_offset m rel) else m);
           name \<leftarrow> cstring_at m1 (so_dynstr img + st_name m1 sy);
           case import_address funcs dlsym name (st_bind m1 sy = 2) of
             Some f \<Rightarrow> Some (0, st32 m1 slot (f + addend))
           | None \<Rightarrow> Some (1, m1)
         })"

fun resolve_table ::
  "so_image \<Rightarrow> import_table \<Rightarrow> (bytes \<Rightarrow> u32) \<Rightarrow> bool \<Rightarrow> u32 \<Rightarrow> nat \<Rightarrow> nat \<times> memory
    \<Rightarrow> (nat \<times> memory) option" where
  "resolve_table img funcs dlsym taint rel 0 (u, m) = Some (u, m)"
| "resolve_table img funcs dlsym taint rel (Suc n) (u, m) = do {
     (d, m1) \<leftarrow> resolve_one img funcs dlsym taint rel m;
     resolve_table img funcs dlsym taint (rel + 8) n (u + d, m1)
   }"

fun resolve_sections ::
  "so_image \<Rightarrow> import_table \<Rightarrow> (bytes \<Rightarrow> u32) \<Rightarrow> bool \<Rightarrow> section_header list \<Rightarrow> nat \<times> memory
    \<Rightarrow> (nat \<times> memory) option" where
  "resolve_sections img funcs dlsym taint [] (u, m) = Some (u, m)"
| "resolve_sections img funcs dlsym taint (sh # shs) (u, m) = do {
     rel \<leftarrow> is_rel_section img sh;
     s1 \<leftarrow> (if rel then resolve_table img funcs dlsym taint (so_bias img + sh_addr sh)
                        (unat (sh_size sh div 8)) (u, m)
            else Some (u, m));
     resolve_sections img funcs dlsym taint shs s1
   }"

definition so_resolve ::
  "so_image \<Rightarrow> import_table \<Rightarrow> (bytes \<Rightarrow> u32) \<Rightarrow> bool \<Rightarrow> memory \<Rightarrow> (nat \<times> memory) option" where
  "so_resolve img funcs dlsym taint m = resolve_sections img funcs dlsym taint (so_sections img) (0, m)"

end
