(* ===== verification/Asm2_ElfSymbols.thy ===== *)
theory Asm2_ElfSymbols
  imports Asm2_ElfLoader
begin

text \<open>
  The rest of \<open>so_util.c\<close>: symbol lookup, the snapshot of exported symbols, the constructor array,
  the unwind table, addresses of the original image, page protection and the code hooks.  Calls into the
  guest and \<open>mprotect\<close> are parameters.
\<close>

unbundle bit_operations_syntax

section \<open>Symbols\<close>

text \<open>\<open>strcmp(a, name) == 0\<close> for a string in memory.\<close>

fun mem_string_is :: "memory \<Rightarrow> u32 \<Rightarrow> bytes \<Rightarrow> bool" where
  "mem_string_is m a [] \<longleftrightarrow> m a = 0"
| "mem_string_is m a (c # cs) \<longleftrightarrow> m a = c \<and> mem_string_is m (a + 1) cs"

definition symbol_at :: "so_image \<Rightarrow> nat \<Rightarrow> u32" where
  "symbol_at img i = so_syms img + 16 * of_nat i"

fun search_symbol :: "so_image \<Rightarrow> memory \<Rightarrow> bool \<Rightarrow> bytes \<Rightarrow> u32 \<Rightarrow> nat \<Rightarrow> u32 option" where
  "search_symbol img m defined_only name sy 0 = None"
| "search_symbol img m defined_only name sy (Suc n) =
     (if (defined_only \<longrightarrow> st_shndx m sy \<noteq> 0) \<and> mem_string_is m (so_dynstr img + st_name m sy) name
      then Some (so_bias img + st_value m sy)
      else search_symbol img m defined_only name (sy + 16) n)"

text \<open>\<open>None\<close>: the missing symbol is fatal.\<close>

definition so_find_addr :: "so_image \<Rightarrow> memory \<Rightarrow> bytes \<Rightarrow> u32 option" where
  "so_find_addr img m name = search_symbol img m False name (so_syms img) (so_num_syms img)"

definition so_find_addr_rx :: "so_image \<Rightarrow> memory \<Rightarrow> bytes \<Rightarrow> u32 option" where
  "so_find_addr_rx img m name = search_symbol img m False name (so_syms img) (so_num_syms img)"

definition so_find_addr_safe :: "so_image \<Rightarrow> memory \<Rightarrow> bytes \<Rightarrow> u32" where
  "so_find_addr_safe img m name =
     (case search_symbol img m True name (so_syms img) (so_num_syms img) of Some a \<Rightarrow> a | None \<Rightarrow> 0)"

fun search_entries :: "so_image \<Rightarrow> memory \<Rightarrow> bytes \<Rightarrow> u32 list \<Rightarrow> u32 option" where
  "search_entries img m name [] = None"
| "search_entries img m name (rel # rels) =
     (if import_type (rel_type m rel)
         \<and> mem_string_is m (so_dynstr img + st_name m (rel_sym img m rel)) name
      then Some (so_bias img + rel_offset m rel)
      else search_entries img m name rels)"

fun search_rel_sections :: "so_image \<Rightarrow> memory \<Rightarrow> bytes \<Rightarrow> section_header list \<Rightarrow> u32 option option" where
  "search_rel_sections img m name [] = Some None"
| "search_rel_sections img m name (sh # shs) = do {
     rel \<leftarrow> is_rel_section img sh;
     case (if rel then search_entries img m name
                         (table_entries (so_bias img + sh_addr sh) (unat (sh_size sh div 8)))
           else None) of
       Some a \<Rightarrow> Some (Some a)
     | None \<Rightarrow> search_rel_sections img m name shs
   }"

definition so_find_rel_addr :: "so_image \<Rightarrow> memory \<Rightarrow> bytes \<Rightarrow> u32 option" where
  "so_find_rel_addr img m name = do {
     found \<leftarrow> search_rel_sections img m name (so_sections img);
     found
   }"

definition so_find_rel_addr_safe :: "so_image \<Rightarrow> memory \<Rightarrow> bytes \<Rightarrow> u32 option" where
  "so_find_rel_addr_safe img m name = do {
     found \<leftarrow> search_rel_sections img m name (so_sections img);
     Some (case found of Some a \<Rightarrow> a | None \<Rightarrow> 0)
   }"

text \<open>
  The exported symbols, each as the address of its name and its own address: a pass that counts, the
  allocation, and a pass that fills.  \<open>None\<close>: the allocation failed.
\<close>

definition exported :: "memory \<Rightarrow> u32 \<Rightarrow> bool" where
  "exported m sy \<longleftrightarrow> \<not> (st_shndx m sy = 0 \<or> st_value m sy = 0 \<or> st_name m sy = 0)
     \<and> (st_bind m sy = 1 \<or> st_bind m sy = 2)"

fun count_exported :: "memory \<Rightarrow> u32 \<Rightarrow> nat \<Rightarrow> nat" where
  "count_exported m sy 0 = 0"
| "count_exported m sy (Suc n) = (if exported m sy then 1 else 0) + count_exported m (sy + 16) n"

fun fill_exported :: "so_image \<Rightarrow> memory \<Rightarrow> u32 \<Rightarrow> nat \<Rightarrow> (u32 \<times> u32) list" where
  "fill_exported img m sy 0 = []"
| "fill_exported img m sy (Suc n) =
     (if exported m sy then [(so_dynstr img + st_name m sy, so_bias img + st_value m sy)] else [])
     @ fill_exported img m (sy + 16) n"

definition so_snapshot_symbols ::
  "so_image \<Rightarrow> memory \<Rightarrow> (nat \<Rightarrow> bool) \<Rightarrow> nat \<times> (u32 \<times> u32) list option" where
  "so_snapshot_symbols img m malloc_ok =
     (let n = count_exported m (so_syms img) (so_num_syms img) in
      if \<not> malloc_ok (8 * (if n > 0 then n else 1)) then (0, None)
      else let tbl = fill_exported img m (so_syms img) (so_num_syms img) in (length tbl, Some tbl))"

section \<open>Constructors and the unwind table\<close>

fun init_section :: "so_image \<Rightarrow> section_header list \<Rightarrow> section_header option option" where
  "init_section img [] = Some None"
| "init_section img (sh # shs) = do {
     yes \<leftarrow> section_is img sh ''.init_array'';
     if yes then Some (Some sh) else init_section img shs
   }"

definition so_init_array_count :: "so_image \<Rightarrow> u32 option" where
  "so_init_array_count img = do {
     found \<leftarrow> init_section img (so_sections img);
     Some (case found of Some sh \<Rightarrow> sh_size sh div 4 | None \<Rightarrow> 0)
   }"

text \<open>Each function is read just before its call, so a constructor may change the later entries.\<close>

fun run_constructors ::
  "(u32 \<Rightarrow> memory \<Rightarrow> memory) \<Rightarrow> u32 \<Rightarrow> nat \<Rightarrow> u32 list \<times> memory \<Rightarrow> u32 list \<times> memory" where
  "run_constructors call entry 0 (calls, m) = (calls, m)"
| "run_constructors call entry (Suc n) (calls, m) =
     (let f = ld32 m entry in
      if f \<noteq> 0 \<and> f \<noteq> 0xFFFFFFFF
      then run_constructors call (entry + 4) n (calls @ [f], call f m)
      else run_constructors call (entry + 4) n (calls, m))"

definition so_execute_init_array_limit ::
  "so_image \<Rightarrow> (u32 \<Rightarrow> memory \<Rightarrow> memory) \<Rightarrow> u32 \<Rightarrow> memory \<Rightarrow> (u32 \<times> u32 list \<times> memory) option" where
  "so_execute_init_array_limit img call limit m = do {
     found \<leftarrow> init_section img (so_sections img);
     Some (case found of
       None \<Rightarrow> (0, [], m)
     | Some sh \<Rightarrow>
         let count = sh_size sh div 4;
             n = (if limit > count then count else limit);
             (calls, m1) = run_constructors call (so_bias img + sh_addr sh) (unat n) ([], m)
         in (n, calls, m1))
   }"

definition so_execute_init_array ::
  "so_image \<Rightarrow> (u32 \<Rightarrow> memory \<Rightarrow> memory) \<Rightarrow> memory \<Rightarrow> (u32 \<times> u32 list \<times> memory) option" where
  "so_execute_init_array img call m = do {
     count \<leftarrow> so_init_array_count img;
     so_execute_init_array_limit img call count m
   }"

text \<open>The entry of type \<open>PT_ARM_EXIDX\<close>; the count is stored unless the address is outside the image.\<close>

fun exidx_segment :: "program_header list \<Rightarrow> program_header option" where
  "exidx_segment [] = None"
| "exidx_segment (ph # phs) = (if ph_type ph = 0x70000001 then Some ph else exidx_segment phs)"

definition so_find_exidx :: "so_image \<Rightarrow> u32 \<Rightarrow> u32 \<times> u32 option" where
  "so_find_exidx img pc =
     (if pc < so_mapping img \<or> pc \<ge> so_mapping img + so_load_size img then (0, None)
      else case exidx_segment (so_programs img) of
        Some ph \<Rightarrow> (so_bias img + ph_vaddr ph, Some (ph_memsz ph div 8))
      | None \<Rightarrow> (0, Some 0))"

section \<open>Addresses of the original image\<close>

text \<open>\<open>NULL\<close> is \<open>None\<close>; a bias of 0 counts as no image, as in the code.\<close>

definition so_guest_vma :: "so_image \<Rightarrow> u32 \<Rightarrow> u32 \<Rightarrow> u32 option" where
  "so_guest_vma img vma sz =
     (if so_bias img = 0 \<or> vma < so_min_vaddr img then None
      else let offset = vma - so_min_vaddr img in
        if offset > so_load_size img \<or> sz > so_load_size img - offset then None
        else Some (so_bias img + vma))"

section \<open>Page protection\<close>

record protection_request =
  pr_address :: u32
  pr_length :: u32
  pr_bits :: u32

definition round_up :: "u32 \<Rightarrow> u32 \<Rightarrow> u32" where
  "round_up x a = (x + a - 1) AND NOT (a - 1)"

text \<open>\<open>getpagesize()\<close> is a parameter; 4096 replaces an answer that is not positive.\<close>

definition protect_request :: "int \<Rightarrow> u32 \<Rightarrow> u32 \<Rightarrow> u32 \<Rightarrow> protection_request" where
  "protect_request page_size start len prot =
     (let ps = (if page_size \<le> 0 then 4096 else of_int page_size);
          page_base = start AND NOT (ps - 1)
      in \<lparr>pr_address = page_base, pr_length = round_up (len + (start - page_base)) ps, pr_bits = prot\<rparr>)"

definition segment_protection :: "program_header \<Rightarrow> u32" where
  "segment_protection ph =
     (if bit (ph_flags ph) 2 then 1 else 0) OR (if bit (ph_flags ph) 1 then 2 else 0)
     OR (if bit (ph_flags ph) 0 then 4 else 0)"

text \<open>The requests made; \<open>None\<close> when one fails, which is fatal.\<close>

fun finalize_segments ::
  "so_image \<Rightarrow> int \<Rightarrow> (protection_request \<Rightarrow> bool) \<Rightarrow> program_header list \<Rightarrow> protection_request list option" where
  "finalize_segments img ps mprotect_ok [] = Some []"
| "finalize_segments img ps mprotect_ok (ph # phs) =
     (if ph_type ph \<noteq> pt_load \<or> ph_memsz ph = 0 then finalize_segments img ps mprotect_ok phs
      else let r = protect_request ps (so_bias img + ph_vaddr ph) (ph_memsz ph) (segment_protection ph) in
        if mprotect_ok r then map_option ((#) r) (finalize_segments img ps mprotect_ok phs)
        else None)"

definition so_finalize ::
  "so_image \<Rightarrow> int \<Rightarrow> (protection_request \<Rightarrow> bool) \<Rightarrow> protection_request list option" where
  "so_finalize img ps mprotect_ok = finalize_segments img ps mprotect_ok (so_programs img)"

definition so_make_text_writable :: "so_image \<Rightarrow> protection_request" where
  "so_make_text_writable img =
     \<lparr>pr_address = so_text_base img, pr_length = align_page (so_text_size img), pr_bits = 7\<rparr>"

definition so_make_text_executable :: "so_image \<Rightarrow> protection_request" where
  "so_make_text_executable img =
     \<lparr>pr_address = so_text_base img, pr_length = align_page (so_text_size img), pr_bits = 5\<rparr>"

section \<open>Code hooks\<close>

definition hook_arm :: "u32 \<Rightarrow> u32 \<Rightarrow> memory \<Rightarrow> memory" where
  "hook_arm addr dst m =
     (if addr = 0 then m
      else if bit addr 0 then
        (let hook = addr AND NOT 1 in
         st32 (st16 (st16 m hook 0xF8DF) (hook + 2) 0xF000) (hook + 4) dst)
      else st32 (st32 m addr 0xE51FF004) (addr + 4) dst)"

text \<open>
  What the processor does at an entry point, for the two instructions a hook uses: \<open>LDR PC, [PC, #-4]\<close>
  in ARM state, where PC reads as the instruction's address plus 8, and \<open>LDR.W PC, [PC, #0]\<close> in Thumb
  state, where it reads as the address plus 4 rounded down to a multiple of 4.
\<close>

definition hooked_target :: "memory \<Rightarrow> u32 \<Rightarrow> u32 option" where
  "hooked_target m addr =
     (if bit addr 0 then
        (let pc = addr AND NOT 1 in
         if ld16 m pc = 0xF8DF \<and> ld16 m (pc + 2) = 0xF000 then Some (ld32 m ((pc + 4) AND NOT 3)) else None)
      else if ld32 m addr = 0xE51FF004 then Some (ld32 m (addr + 8 - 4)) else None)"

end
