(* ===== verification/Asm2_ElfPasses.thy ===== *)
theory Asm2_ElfPasses
  imports Asm2_ElfSymbols
begin

text \<open>
  What the loader's writes add up to.  First the copy of the segments, against the image a byte at a time.
  Then a contract for a pass over the relocation entries: every step writes only its own slot and depends
  only on the bytes it reads.  Under it a pass over entries that do not overlap has the effect of all its
  steps taken at once from the initial memory; relocation and import resolution are interpretations.
\<close>

unbundle bit_operations_syntax

section \<open>Stores and loads\<close>

lemma word_sub_succ:
  fixes x a :: u32
  assumes "x \<noteq> a"
  shows "unat (x - a) = Suc (unat (x - (a + 1)))"
proof -
  have "x - a \<noteq> 0" using assms by simp
  then have "unat (x - a - 1) = unat (x - a) - 1" by (rule unat_minus_one)
  moreover have "0 < unat (x - a)" using \<open>x - a \<noteq> 0\<close> by (simp add: unat_eq_0 flip: neq0_conv)
  moreover have "unat (x - (a + 1)) = unat (x - a - 1)" by (rule arg_cong [where f = unat]) simp
  ultimately show ?thesis by linarith
qed

lemma unat_minus_one_u32: "unat (- 1 :: u32) = 4294967295"
  by (simp add: unsigned_minus_1_eq_mask mask_eq_exp_minus_1)

lemma unat_le_u32: "unat (w :: u32) \<le> 2 ^ 32"
  by (simp add: order_less_imp_le [OF order_less_le_trans [OF unsigned_less]])

lemma store_bytes_apply:
  assumes "length bs \<le> 2 ^ 32"
  shows "store_bytes a bs m x = (if unat (x - a) < length bs then bs ! unat (x - a) else m x)"
  using assms
proof (induction bs arbitrary: a m)
  case (Cons b bs)
  then have ih: "store_bytes (a + 1) bs (m(a := b)) x
      = (if unat (x - (a + 1)) < length bs then bs ! unat (x - (a + 1)) else (m(a := b)) x)"
    by simp
  show ?case
  proof (cases "x = a")
    case True
    have "unat (x - (a + 1)) = 2 ^ 32 - 1" using True by (simp add: unat_minus_one_u32)
    with Cons.prems have "\<not> unat (x - (a + 1)) < length bs" by simp
    with True show ?thesis unfolding store_bytes.simps ih by simp
  next
    case False
    then show ?thesis unfolding store_bytes.simps ih by (simp add: word_sub_succ)
  qed
qed simp

lemma ld32_cong:
  assumes "m' a = m a" "m' (a + 1) = m (a + 1)" "m' (a + 2) = m (a + 2)" "m' (a + 3) = m (a + 3)"
  shows "ld32 m' a = ld32 m a"
  using assms by (simp add: ld32_def)

lemma ld16_cong:
  assumes "m' a = m a" "m' (a + 1) = m (a + 1)"
  shows "ld16 m' a = ld16 m a"
  using assms by (simp add: ld16_def)

definition in_slot :: "u32 \<Rightarrow> u32 \<Rightarrow> bool" where
  "in_slot a x \<longleftrightarrow> x - a < 4"

lemma in_slot_cases: "in_slot a x \<longleftrightarrow> x = a \<or> x = a + 1 \<or> x = a + 2 \<or> x = a + 3"
proof
  assume "in_slot a x"
  then have lt: "unat (x - a) < 4" by (simp add: in_slot_def word_less_nat_alt)
  define d where "d = x - a"
  have x: "x = a + d" by (simp add: d_def)
  have "unat d = 0 \<or> unat d = 1 \<or> unat d = 2 \<or> unat d = 3" using lt unfolding d_def by linarith
  then have "d = 0 \<or> d = 1 \<or> d = 2 \<or> d = 3" by (simp add: word_unat_eq_iff)
  with x show "x = a \<or> x = a + 1 \<or> x = a + 2 \<or> x = a + 3" by auto
qed (auto simp: in_slot_def)

lemma st32_outside: "\<not> in_slot a x \<Longrightarrow> st32 m a v x = m x"
  by (simp add: st32_def in_slot_cases)

lemma st32_inside: "in_slot a x \<Longrightarrow> st32 m a v x = st32 m' a v x"
  by (auto simp: st32_def in_slot_cases)

lemma ld32_st32 [simp]: "ld32 (st32 m a v) a = v"
  by (simp add: ld32_def st32_def get_put_le32)

section \<open>The loaded image\<close>

text \<open>The byte the file gives for an address of the original image: the last segment that has it wins.\<close>

definition segment_has :: "u32 \<Rightarrow> program_header \<Rightarrow> bool" where
  "segment_has v ph \<longleftrightarrow> ph_type ph = pt_load \<and> v - ph_vaddr ph < ph_filesz ph"

definition image_byte :: "bytes \<Rightarrow> program_header list \<Rightarrow> u8 \<Rightarrow> u32 \<Rightarrow> u8" where
  "image_byte file phs d v =
     (case filter (segment_has v) (rev phs) of
        [] \<Rightarrow> d
      | ph # _ \<Rightarrow> file ! (unat (ph_offset ph) + unat (v - ph_vaddr ph)))"

lemma image_byte_Cons:
  "image_byte file (ph # phs) d v =
     image_byte file phs
       (if segment_has v ph then file ! (unat (ph_offset ph) + unat (v - ph_vaddr ph)) else d) v"
  by (auto simp: image_byte_def split: list.splits)

lemma scan_segments_accepts:
  assumes "scan_segments sz phs (lo0, hi0, t0, d0) = Some (lo, hi, t, d)"
  shows "lo \<le> lo0" and "hi0 \<le> hi"
    and "ph \<in> set phs \<Longrightarrow> ph_type ph = pt_load \<Longrightarrow>
      \<not> segment_refused sz ph \<and> lo \<le> segment_start ph \<and> segment_end ph \<le> hi"
proof -
  have "lo \<le> lo0 \<and> hi0 \<le> hi \<and> (\<forall>ph \<in> set phs. ph_type ph = pt_load \<longrightarrow>
      \<not> segment_refused sz ph \<and> lo \<le> segment_start ph \<and> segment_end ph \<le> hi)"
    using assms
  proof (induction phs arbitrary: lo0 hi0 t0 d0)
    case (Cons p ps)
    show ?case
    proof (cases "ph_type p = pt_load")
      case False
      then show ?thesis using Cons.prems Cons.IH [of lo0 hi0 t0 d0] by simp
    next
      case True
      with Cons.prems have acc: "\<not> segment_refused sz p" by (auto split: if_splits)
      define lo1 where "lo1 = (if segment_start p < lo0 then segment_start p else lo0)"
      define hi1 where "hi1 = (if segment_end p > hi0 then segment_end p else hi0)"
      obtain t1 d1 where "scan_segments sz ps (lo1, hi1, t1, d1) = Some (lo, hi, t, d)"
        using Cons.prems True acc unfolding lo1_def hi1_def by auto
      from Cons.IH [OF this] have ih: "lo \<le> lo1" "hi1 \<le> hi"
        "\<forall>ph \<in> set ps. ph_type ph = pt_load \<longrightarrow>
           \<not> segment_refused sz ph \<and> lo \<le> segment_start ph \<and> segment_end ph \<le> hi"
        by auto
      have "lo1 \<le> lo0" "lo1 \<le> segment_start p" "hi0 \<le> hi1" "segment_end p \<le> hi1"
        by (auto simp: lo1_def hi1_def)
      with ih acc show ?thesis by (auto intro: order_trans)
    qed
  qed simp
  then show "lo \<le> lo0" and "hi0 \<le> hi"
    and "ph \<in> set phs \<Longrightarrow> ph_type ph = pt_load \<Longrightarrow>
      \<not> segment_refused sz ph \<and> lo \<le> segment_start ph \<and> segment_end ph \<le> hi"
    by auto
qed

definition segments_in_file :: "bytes \<Rightarrow> program_header list \<Rightarrow> bool" where
  "segments_in_file file phs \<longleftrightarrow>
     (\<forall>ph \<in> set phs. ph_type ph = pt_load \<longrightarrow>
        unat (ph_offset ph) + unat (ph_filesz ph) \<le> List.length file)"

lemma copy_segments_apply:
  assumes "segments_in_file file phs"
  shows "copy_segments file bias phs m x = image_byte file phs (m x) (x - bias)"
  using assms
proof (induction phs arbitrary: m)
  case Nil
  then show ?case by (simp add: image_byte_def)
next
  case (Cons ph phs)
  then have inf: "segments_in_file file phs" by (simp add: segments_in_file_def)
  show ?case
  proof (cases "ph_type ph = pt_load")
    case False
    then show ?thesis using Cons.IH [OF inf] by (simp add: image_byte_Cons segment_has_def)
  next
    case True
    define data where "data = take (unat (ph_filesz ph)) (drop (unat (ph_offset ph)) file)"
    have "unat (ph_offset ph) + unat (ph_filesz ph) \<le> List.length file"
      using Cons.prems True by (simp add: segments_in_file_def)
    then have len: "List.length data = unat (ph_filesz ph)"
      and nth: "\<And>i. i < unat (ph_filesz ph) \<Longrightarrow> data ! i = file ! (unat (ph_offset ph) + i)"
      by (simp_all add: data_def)
    have "List.length data \<le> 2 ^ 32" unfolding len by (rule unat_le_u32)
    from store_bytes_apply [OF this]
    have "store_bytes (bias + ph_vaddr ph) data m x
        = (if segment_has (x - bias) ph
           then file ! (unat (ph_offset ph) + unat (x - bias - ph_vaddr ph)) else m x)"
      by (simp add: len nth segment_has_def True word_less_nat_alt diff_diff_eq)
    then show ?thesis
      unfolding image_byte_Cons using True Cons.IH [OF inf] by (simp add: data_def)
  qed
qed

text \<open>A segment whose end does not wrap around the address space lies between the bounds of the scan.\<close>

definition segment_fits :: "program_header \<Rightarrow> bool" where
  "segment_fits ph \<longleftrightarrow> unat (ph_vaddr ph) + unat (ph_memsz ph) \<le> 0xFFFFF000"

lemma align_page_ge:
  assumes "unat x \<le> 0xFFFFF000"
  shows "x \<le> align_page x"
proof -
  let ?w = "x + 0xFFF"
  have sum: "unat ?w = unat x + 0xFFF" using assms by (subst unat_add_lem [THEN iffD1]) simp_all
  have "?w = ?w AND NOT 0xFFF OR ?w AND 0xFFF" by (simp flip: bit.conj_disj_distrib)
  also have "\<dots> = (?w AND NOT 0xFFF) + (?w AND 0xFFF)"
    by (rule disjunctive_add [symmetric]) (auto simp: bit_simps)
  finally have "?w AND NOT 0xFFF = ?w - (?w AND 0xFFF)" by (simp add: eq_diff_eq)
  moreover have "?w AND 0xFFF \<le> ?w" by (rule word_and_le2)
  ultimately have "unat (?w AND NOT 0xFFF) = unat ?w - unat (?w AND 0xFFF)" by (simp add: unat_sub)
  moreover have "unat (?w AND 0xFFF) \<le> 0xFFF"
    using word_and_le1 [of ?w "0xFFF"] by (simp add: word_le_nat_alt)
  ultimately show ?thesis using sum by (simp add: align_page_def word_le_nat_alt)
qed

lemma so_check_layout:
  assumes "so_check file max_size = Some (Inr (phs, shs, strs, (lo, hi, t, d)))"
  shows "hi - lo \<le> max_size" and "lo < hi" and "segments_in_file file phs"
    and "ph \<in> set phs \<Longrightarrow> ph_type ph = pt_load \<Longrightarrow>
      ph_filesz ph \<le> ph_memsz ph \<and> lo \<le> segment_start ph \<and> segment_end ph \<le> hi"
proof -
  have facts: "scan_segments (of_nat (List.length file)) phs (0xFFFFFFFF, 0, None, None) = Some (lo, hi, t, d)
      \<and> lo < hi \<and> hi - lo \<le> max_size"
  proof -
    have "so_layout (of_nat (List.length file)) max_size phs = Inr (lo, hi, t, d)"
      using assms by (auto simp: so_check_def Let_def bind_eq_Some_conv split: if_split_asm sum.split_asm)
        (metis sum.exhaust prod_cases4)
    then show ?thesis by (auto simp: so_layout_def split: if_splits option.splits)
  qed
  then show "hi - lo \<le> max_size" and "lo < hi" by auto
  have sz: "unat (of_nat (List.length file) :: u32) \<le> List.length file"
    by (simp add: unat_of_nat)
  have acc: "\<And>ph. ph \<in> set phs \<Longrightarrow> ph_type ph = pt_load \<Longrightarrow>
      \<not> segment_refused (of_nat (List.length file)) ph \<and> lo \<le> segment_start ph \<and> segment_end ph \<le> hi"
    using facts scan_segments_accepts(3) by blast
  then show "segments_in_file file phs"
    using sz by (fastforce simp: segments_in_file_def segment_refused_def)
  show "ph \<in> set phs \<Longrightarrow> ph_type ph = pt_load \<Longrightarrow>
      ph_filesz ph \<le> ph_memsz ph \<and> lo \<le> segment_start ph \<and> segment_end ph \<le> hi"
    using acc by (auto simp: segment_refused_def linorder_not_less)
qed

lemma segment_within_layout:
  assumes "segment_has v ph" and "segment_fits ph" and "ph_filesz ph \<le> ph_memsz ph"
    and "lo \<le> segment_start ph" and "segment_end ph \<le> hi"
  shows "v - lo < hi - lo"
proof -
  let ?e = "ph_vaddr ph + ph_memsz ph"
  have e: "unat ?e = unat (ph_vaddr ph) + unat (ph_memsz ph)"
    using assms(2) by (subst unat_add_lem [THEN iffD1]) (simp_all add: segment_fits_def)
  have "?e \<le> hi"
    using align_page_ge [of ?e] assms(2,5) e by (simp add: segment_end_def segment_fits_def)
  moreover have "lo \<le> ph_vaddr ph"
    using assms(4) word_and_le2 [of "ph_vaddr ph" "NOT 0xFFF"] by (simp add: segment_start_def)
  moreover have "unat (v - ph_vaddr ph) < unat (ph_memsz ph)"
    using assms(1,3) by (simp add: segment_has_def word_less_nat_alt word_le_nat_alt)
  moreover have v: "v = ph_vaddr ph + (v - ph_vaddr ph)" by simp
  ultimately have "unat v = unat (ph_vaddr ph) + unat (v - ph_vaddr ph)"
    using assms(2) by (subst v, subst unat_add_lem [THEN iffD1]) (simp_all add: segment_fits_def)
  with \<open>unat (v - ph_vaddr ph) < unat (ph_memsz ph)\<close> \<open>?e \<le> hi\<close> \<open>lo \<le> ph_vaddr ph\<close> e
  have "lo \<le> v" "v < hi" by (simp_all add: word_less_nat_alt word_le_nat_alt)
  then show ?thesis by (simp add: word_less_nat_alt word_le_nat_alt unat_sub diff_less_mono)
qed

lemma so_load_parts:
  assumes "so_load (File file) base max_size m = Loaded img m'"
  obtains phs shs strs lo hi t d where
    "so_check file max_size = Some (Inr (phs, shs, strs, (lo, hi, t, d)))"
    and "m' = copy_segments file (so_bias img) phs (clear_range base (hi - lo) m)"
    and "so_programs img = phs" and "so_bias img = base - lo" and "so_min_vaddr img = lo"
    and "so_load_size img = hi - lo" and "so_mapping img = base" and "base \<noteq> 0" and "so_file img = file"
proof -
  obtain phs shs strs lo hi t d where
    chk: "so_check file max_size = Some (Inr (phs, shs, strs, (lo, hi, t, d)))"
    using assms by (auto simp: so_load_def Let_def split: if_splits option.splits bool.splits sum.splits)
  with assms show thesis
    by (intro that [OF chk])
      (auto simp: so_load_def Let_def split: if_splits option.splits bool.splits)
qed

lemma loaded_memory:
  assumes "so_load (File file) base max_size m = Loaded img m'"
    and "list_all (\<lambda>ph. ph_type ph = pt_load \<longrightarrow> segment_fits ph) (so_programs img)"
  shows "so_load_size img \<le> max_size
     \<and> m' x = (if x - base < so_load_size img
               then image_byte file (so_programs img) 0 (x - so_bias img) else m x)"
proof -
  from so_load_parts [OF assms(1)] obtain phs shs strs lo hi t d where
    chk: "so_check file max_size = Some (Inr (phs, shs, strs, (lo, hi, t, d)))"
    and m': "m' = copy_segments file (so_bias img) phs (clear_range base (hi - lo) m)"
    and img: "so_programs img = phs" "so_bias img = base - lo" "so_load_size img = hi - lo"
    by metis
  note lay = so_check_layout [OF chk]
  have at: "m' x = image_byte file phs (clear_range base (hi - lo) m x) (x - so_bias img)"
    unfolding m' by (rule copy_segments_apply [OF lay(3)])
  have sub: "x - so_bias img - lo = x - base" by (simp add: img)
  show ?thesis
  proof (cases "x - base < hi - lo")
    case True
    then show ?thesis using at lay(1) by (simp add: img clear_range_def)
  next
    case False
    have "\<not> segment_has (x - so_bias img) ph" if "ph \<in> set phs" for ph
    proof
      assume has: "segment_has (x - so_bias img) ph"
      then have load: "ph_type ph = pt_load" by (simp add: segment_has_def)
      with assms(2) that have "segment_fits ph" by (simp add: img list_all_iff)
      from segment_within_layout [OF has this, of lo hi] lay(4) [OF that load]
      have "x - so_bias img - lo < hi - lo" by blast
      with False show False unfolding sub by blast
    qed
    then have "filter (segment_has (x - so_bias img)) (rev phs) = []" by (simp add: filter_empty_conv)
    then show ?thesis using at False lay(1) by (simp add: img image_byte_def clear_range_def)
  qed
qed

section \<open>A pass over the relocation entries\<close>

definition slot_addresses :: "u32 \<Rightarrow> u32 list" where
  "slot_addresses a = [a, a + 1, a + 2, a + 3]"

lemma set_slot_addresses: "x \<in> set (slot_addresses a) \<longleftrightarrow> in_slot a x"
  by (simp add: slot_addresses_def in_slot_cases)

text \<open>
  A pass counts and changes the memory, entry by entry.  Entries are independent when no step writes a byte
  that a later step reads or writes, and every entry is one the pass can handle.
\<close>

fun run_pass :: "(u32 \<Rightarrow> memory \<Rightarrow> (nat \<times> memory) option) \<Rightarrow> u32 list \<Rightarrow> nat \<times> memory
    \<Rightarrow> (nat \<times> memory) option" where
  "run_pass one [] (u, m) = Some (u, m)"
| "run_pass one (e # es) (u, m) = do { (d, m1) \<leftarrow> one e m; run_pass one es (u + d, m1) }"

fun independent ::
  "(memory \<Rightarrow> u32 \<Rightarrow> bool) \<Rightarrow> (memory \<Rightarrow> u32 \<Rightarrow> u32) \<Rightarrow> (memory \<Rightarrow> u32 \<Rightarrow> u32 list) \<Rightarrow> memory
    \<Rightarrow> u32 list \<Rightarrow> bool" where
  "independent ok slot reads m [] \<longleftrightarrow> True"
| "independent ok slot reads m (e # es) \<longleftrightarrow>
     ok m e
     \<and> list_all (\<lambda>e'. list_all (\<lambda>x. \<not> in_slot (slot m e) x)
                        (reads m e' @ slot_addresses (slot m e'))) es
     \<and> independent ok slot reads m es"

definition simultaneous ::
  "(memory \<Rightarrow> u32 \<Rightarrow> u32) \<Rightarrow> (u32 \<Rightarrow> memory \<Rightarrow> memory) \<Rightarrow> u32 list \<Rightarrow> memory \<Rightarrow> memory" where
  "simultaneous slot step es m = (\<lambda>x.
     case List.find (\<lambda>e. in_slot (slot m e) x) es of Some e \<Rightarrow> step e m x | None \<Rightarrow> m x)"

definition same_on :: "u32 list \<Rightarrow> memory \<Rightarrow> memory \<Rightarrow> bool" where
  "same_on xs m m' \<longleftrightarrow> (\<forall>x \<in> set xs. m' x = m x)"

locale slot_pass =
  fixes ok :: "memory \<Rightarrow> u32 \<Rightarrow> bool"
    and slot :: "memory \<Rightarrow> u32 \<Rightarrow> u32"
    and reads :: "memory \<Rightarrow> u32 \<Rightarrow> u32 list"
    and missing :: "memory \<Rightarrow> u32 \<Rightarrow> bool"
    and step :: "u32 \<Rightarrow> memory \<Rightarrow> memory"
    and one :: "u32 \<Rightarrow> memory \<Rightarrow> (nat \<times> memory) option"
  assumes one_ok: "ok m e \<Longrightarrow> one e m = Some (of_bool (missing m e), step e m)"
    and writes_slot: "ok m e \<Longrightarrow> \<not> in_slot (slot m e) x \<Longrightarrow> step e m x = m x"
    and local_fields: "ok m e \<Longrightarrow> same_on (reads m e @ slot_addresses (slot m e)) m m' \<Longrightarrow>
        ok m' e \<and> slot m' e = slot m e \<and> reads m' e = reads m e \<and> (missing m' e \<longleftrightarrow> missing m e)"
    and local_step: "ok m e \<Longrightarrow> same_on (reads m e @ slot_addresses (slot m e)) m m' \<Longrightarrow>
        in_slot (slot m e) x \<Longrightarrow> step e m' x = step e m x"
begin

lemma independent_ok: "independent ok slot reads m es \<Longrightarrow> e \<in> set es \<Longrightarrow> ok m e"
  by (induction es) auto

lemma untouched_entry:
  assumes "ok m e"
    and "list_all (\<lambda>x. \<not> in_slot (slot m e) x) (reads m e' @ slot_addresses (slot m e'))"
  shows "same_on (reads m e' @ slot_addresses (slot m e')) m (step e m)"
  using assms writes_slot by (auto simp: same_on_def list_all_iff)

lemma independent_cong:
  assumes "independent ok slot reads m es"
    and "\<And>e. e \<in> set es \<Longrightarrow> same_on (reads m e @ slot_addresses (slot m e)) m m'"
  shows "independent ok slot reads m' es"
  using assms
proof (induction es)
  case (Cons e es)
  have eq: "ok m' a \<and> slot m' a = slot m a \<and> reads m' a = reads m a" if "a \<in> set (e # es)" for a
    using local_fields [of m a m'] Cons.prems independent_ok [OF Cons.prems(1) that] that by blast
  have "independent ok slot reads m' es" using Cons by simp
  with Cons.prems(1) eq show ?case by (auto simp: list_all_iff)
qed simp

text \<open>The pass has the effect of all the steps taken at once.\<close>

lemma pass_is_simultaneous:
  assumes "independent ok slot reads m es"
  shows "run_pass one es (u, m) =
    Some (u + List.length (filter (missing m) es), simultaneous slot step es m)"
  using assms
proof (induction es arbitrary: u m)
  case Nil
  then show ?case by (simp add: simultaneous_def)
next
  case (Cons e es)
  let ?m1 = "step e m"
  from Cons.prems have ok: "ok m e" and ind: "independent ok slot reads m es" by simp_all
  have same: "same_on (reads m a @ slot_addresses (slot m a)) m ?m1" if "a \<in> set es" for a
    using untouched_entry [OF ok] Cons.prems that by (auto simp: list_all_iff)
  have eq: "slot ?m1 a = slot m a \<and> (missing ?m1 a \<longleftrightarrow> missing m a)" if "a \<in> set es" for a
    using local_fields [OF independent_ok [OF ind that] same [OF that]] by blast
  from independent_cong [OF ind same] have ind1: "independent ok slot reads ?m1 es" .
  have miss: "filter (missing ?m1) es = filter (missing m) es" by (rule filter_cong) (auto simp: eq)
  have find: "List.find (\<lambda>a. in_slot (slot ?m1 a) x) es = List.find (\<lambda>a. in_slot (slot m a) x) es" for x
    by (rule find_cong) (auto simp: eq)
  have "simultaneous slot step es ?m1 x = simultaneous slot step (e # es) m x" for x
  proof (cases "List.find (\<lambda>a. in_slot (slot m a) x) es")
    case None
    then show ?thesis
      using writes_slot [OF ok, of x] by (auto simp: simultaneous_def find)
  next
    case (Some a)
    then have a: "a \<in> set es" "in_slot (slot m a) x" by (auto simp: find_Some_iff)
    then have "\<not> in_slot (slot m e) x"
      using Cons.prems by (auto simp: list_all_iff set_slot_addresses)
    moreover have "step a ?m1 x = step a m x"
      using local_step [OF independent_ok [OF ind a(1)] same [OF a(1)] a(2)] .
    ultimately show ?thesis using Some by (simp add: simultaneous_def find)
  qed
  then have sim: "simultaneous slot step es ?m1 = simultaneous slot step (e # es) m" by (rule ext)
  show ?case
    using Cons.IH [OF ind1, of "u + of_bool (missing m e)"]
    by (simp add: one_ok [OF ok] miss sim)
qed

lemma slot_after_pass:
  assumes "independent ok slot reads m es" and "e \<in> set es" and "in_slot (slot m e) x"
  shows "simultaneous slot step es m x = step e m x"
  using assms
proof (induction es)
  case (Cons a es)
  show ?case
  proof (cases "in_slot (slot m a) x")
    case True
    have "e = a"
      using Cons.prems True by (auto simp: list_all_iff set_slot_addresses)
    then show ?thesis using True by (simp add: simultaneous_def)
  next
    case False
    then have "e \<in> set es" using Cons.prems by auto
    with Cons False show ?thesis by (simp add: simultaneous_def)
  qed
qed simp

lemma outside_the_slots:
  assumes "\<And>e. e \<in> set es \<Longrightarrow> \<not> in_slot (slot m e) x"
  shows "simultaneous slot step es m x = m x"
proof -
  have "List.find (\<lambda>e. in_slot (slot m e) x) es = None" using assms by (auto simp: find_None_iff)
  then show ?thesis by (simp add: simultaneous_def)
qed

end

section \<open>Relocation as a pass\<close>

definition entry_slot :: "so_image \<Rightarrow> memory \<Rightarrow> u32 \<Rightarrow> u32" where
  "entry_slot img m e = so_bias img + rel_offset m e"

text \<open>The bytes of an entry and of its symbol that the passes read.\<close>

definition entry_reads :: "so_image \<Rightarrow> memory \<Rightarrow> u32 \<Rightarrow> u32 list" where
  "entry_reads img m e =
     (let sy = rel_sym img m e in
      [e, e + 1, e + 2, e + 3, e + 4, e + 4 + 1, e + 4 + 2, e + 4 + 3,
       sy, sy + 1, sy + 2, sy + 3, sy + 4, sy + 4 + 1, sy + 4 + 2, sy + 4 + 3,
       sy + 12, sy + 14, sy + 14 + 1])"

definition relocatable :: "memory \<Rightarrow> u32 \<Rightarrow> bool" where
  "relocatable m e \<longleftrightarrow> known_type (rel_type m e)"

definition relocate_step :: "so_image \<Rightarrow> u32 \<Rightarrow> memory \<Rightarrow> memory" where
  "relocate_step img e m = put_slot (entry_slot img m e) (relocated_value img m e) m"

definition never_missing :: "memory \<Rightarrow> u32 \<Rightarrow> bool" where
  "never_missing m e \<longleftrightarrow> False"

definition relocate_counted :: "so_image \<Rightarrow> u32 \<Rightarrow> memory \<Rightarrow> (nat \<times> memory) option" where
  "relocate_counted img e m = map_option (Pair 0) (relocate_one img e m)"

lemma same_fields:
  assumes "same_on (entry_reads img m e @ ys) m m'"
  shows "rel_offset m' e = rel_offset m e" and "rel_info m' e = rel_info m e"
    and "rel_type m' e = rel_type m e" and "rel_sym img m' e = rel_sym img m e"
    and "entry_slot img m' e = entry_slot img m e" and "entry_reads img m' e = entry_reads img m e"
    and "st_name m' (rel_sym img m e) = st_name m (rel_sym img m e)"
    and "st_value m' (rel_sym img m e) = st_value m (rel_sym img m e)"
    and "st_bind m' (rel_sym img m e) = st_bind m (rel_sym img m e)"
    and "st_shndx m' (rel_sym img m e) = st_shndx m (rel_sym img m e)"
proof -
  have same: "m' x = m x" if "x \<in> set (entry_reads img m e)" for x
    using assms that by (auto simp: same_on_def)
  show off: "rel_offset m' e = rel_offset m e"
    unfolding rel_offset_def by (rule ld32_cong; rule same) (simp_all add: entry_reads_def Let_def)
  show info: "rel_info m' e = rel_info m e"
    unfolding rel_info_def by (rule ld32_cong; rule same) (simp_all add: entry_reads_def Let_def)
  show "rel_type m' e = rel_type m e" and sy: "rel_sym img m' e = rel_sym img m e"
    by (simp_all add: rel_type_def rel_sym_def info)
  show "entry_slot img m' e = entry_slot img m e" and "entry_reads img m' e = entry_reads img m e"
    by (simp_all add: entry_slot_def entry_reads_def off sy)
  show "st_name m' (rel_sym img m e) = st_name m (rel_sym img m e)"
    unfolding st_name_def by (rule ld32_cong; rule same) (simp_all add: entry_reads_def Let_def)
  show "st_value m' (rel_sym img m e) = st_value m (rel_sym img m e)"
    unfolding st_value_def by (rule ld32_cong; rule same) (simp_all add: entry_reads_def Let_def)
  have "m' (rel_sym img m e + 12) = m (rel_sym img m e + 12)"
    by (rule same) (simp add: entry_reads_def Let_def)
  then show "st_bind m' (rel_sym img m e) = st_bind m (rel_sym img m e)" by (simp add: st_bind_def)
  show "st_shndx m' (rel_sym img m e) = st_shndx m (rel_sym img m e)"
    unfolding st_shndx_def by (rule ld16_cong; rule same) (simp_all add: entry_reads_def Let_def)
qed

lemma same_slot:
  assumes "same_on (xs @ slot_addresses a) m m'"
  shows "ld32 m' a = ld32 m a" and "in_slot a x \<Longrightarrow> m' x = m x"
  using assms by (auto simp: same_on_def slot_addresses_def in_slot_cases intro!: ld32_cong)

lemma same_relocated_value:
  assumes "same_on (entry_reads img m e @ slot_addresses (entry_slot img m e)) m m'"
  shows "relocated_value img m' e = relocated_value img m e"
  using same_slot(1) [OF assms] same_fields [OF assms]
  by (simp add: relocated_value_def Let_def entry_slot_def)

interpretation relocating: slot_pass
    relocatable "entry_slot img" "entry_reads img" never_missing "relocate_step img" "relocate_counted img"
  for img
proof unfold_locales
  fix m e
  assume "relocatable m e"
  then show "relocate_counted img e m = Some (of_bool (never_missing m e), relocate_step img e m)"
    by (simp add: relocate_counted_def relocate_one_def relocatable_def never_missing_def
        relocate_step_def entry_slot_def)
next
  fix m e x
  assume "\<not> in_slot (entry_slot img m e) x"
  then show "relocate_step img e m x = m x"
    by (simp add: relocate_step_def put_slot_def st32_outside split: option.split)
next
  fix m e m'
  assume ok: "relocatable m e"
    and "same_on (entry_reads img m e @ slot_addresses (entry_slot img m e)) m m'"
  from same_fields [OF this(2)] ok
  show "relocatable m' e \<and> entry_slot img m' e = entry_slot img m e
      \<and> entry_reads img m' e = entry_reads img m e \<and> never_missing m' e = never_missing m e"
    by (simp add: relocatable_def never_missing_def)
next
  fix m e m' x
  assume same: "same_on (entry_reads img m e @ slot_addresses (entry_slot img m e)) m m'"
    and x: "in_slot (entry_slot img m e) x"
  show "relocate_step img e m' x = relocate_step img e m x"
    using same_slot(2) [OF same x] st32_inside [OF x]
    by (simp add: relocate_step_def put_slot_def same_relocated_value [OF same] same_fields [OF same]
        split: option.split)
qed

lemma run_pass_append:
  "run_pass one (es @ fs) (u, m) = (case run_pass one es (u, m) of None \<Rightarrow> None | Some s \<Rightarrow> run_pass one fs s)"
  by (induction es arbitrary: u m) (auto split: Option.bind_splits)

lemma relocate_table_is_pass:
  "map_option (Pair 0) (relocate_table img rel n m) =
     run_pass (relocate_counted img) (table_entries rel n) (0, m)"
  by (induction n arbitrary: rel m)
    (auto simp: relocate_counted_def split: Option.bind_splits)

lemma relocate_sections_is_pass:
  "section_entries img shs = Some es \<Longrightarrow>
     map_option (Pair 0) (relocate_sections img shs m) = run_pass (relocate_counted img) es (0, m)"
proof (induction shs arbitrary: es m)
  case (Cons sh shs)
  then obtain rel fs where rel: "is_rel_section img sh = Some rel" and fs: "section_entries img shs = Some fs"
    and es: "es = (if rel then table_entries (so_bias img + sh_addr sh) (unat (sh_size sh div 8)) else []) @ fs"
    by (auto simp: bind_eq_Some_conv)
  show ?case
  proof (cases rel)
    case False
    then show ?thesis using Cons.IH [OF fs] rel es by simp
  next
    case True
    let ?t = "relocate_table img (so_bias img + sh_addr sh) (unat (sh_size sh div 8)) m"
    from relocate_table_is_pass [of img "so_bias img + sh_addr sh" "unat (sh_size sh div 8)" m, symmetric]
    show ?thesis
      using Cons.IH [OF fs] True rel es by (cases ?t) (auto simp: run_pass_append)
  qed
qed simp

lemma relocation_simultaneous:
  assumes "section_entries img (so_sections img) = Some es"
    and "independent relocatable (entry_slot img) (entry_reads img) m es"
  shows "so_relocate img m = Some (0, simultaneous (entry_slot img) (relocate_step img) es m)"
proof -
  have "map_option (Pair (0 :: nat)) (relocate_sections img (so_sections img) m)
      = Some (List.length (filter (never_missing m) es),
          simultaneous (entry_slot img) (relocate_step img) es m)"
    using relocating.pass_is_simultaneous [OF assms(2), of 0] relocate_sections_is_pass [OF assms(1)]
    by simp
  then show ?thesis by (auto simp: so_relocate_def)
qed

section \<open>Import resolution as a pass\<close>

definition import_entry :: "so_image \<Rightarrow> memory \<Rightarrow> u32 \<Rightarrow> bool" where
  "import_entry img m e \<longleftrightarrow> import_type (rel_type m e) \<and> st_shndx m (rel_sym img m e) = 0"

definition import_name_at :: "so_image \<Rightarrow> memory \<Rightarrow> u32 \<Rightarrow> u32" where
  "import_name_at img m e = so_dynstr img + st_name m (rel_sym img m e)"

definition import_name :: "so_image \<Rightarrow> memory \<Rightarrow> u32 \<Rightarrow> bytes option" where
  "import_name img m e = cstring_at m (import_name_at img m e)"

definition import_target :: "so_image \<Rightarrow> import_table \<Rightarrow> (bytes \<Rightarrow> u32) \<Rightarrow> memory \<Rightarrow> u32 \<Rightarrow> u32 option" where
  "import_target img funcs dlsym m e =
     import_address funcs dlsym (the (import_name img m e)) (st_bind m (rel_sym img m e) = 2)"

definition import_addend :: "so_image \<Rightarrow> memory \<Rightarrow> u32 \<Rightarrow> u32" where
  "import_addend img m e = (if rel_type m e = R_ARM_ABS32 then ld32 m (entry_slot img m e) else 0)"

definition resolvable :: "so_image \<Rightarrow> memory \<Rightarrow> u32 \<Rightarrow> bool" where
  "resolvable img m e \<longleftrightarrow> (import_entry img m e \<longrightarrow> import_name img m e \<noteq> None)"

definition string_reads :: "memory \<Rightarrow> u32 \<Rightarrow> u32 list" where
  "string_reads m a =
     (case cstring_at m a of None \<Rightarrow> [] | Some s \<Rightarrow> map (\<lambda>i. a + of_nat i) [0..<Suc (List.length s)])"

definition import_reads :: "so_image \<Rightarrow> memory \<Rightarrow> u32 \<Rightarrow> u32 list" where
  "import_reads img m e =
     entry_reads img m e @ (if import_entry img m e then string_reads m (import_name_at img m e) else [])"

definition unresolved :: "so_image \<Rightarrow> import_table \<Rightarrow> (bytes \<Rightarrow> u32) \<Rightarrow> memory \<Rightarrow> u32 \<Rightarrow> bool" where
  "unresolved img funcs dlsym m e \<longleftrightarrow> import_entry img m e \<and> import_target img funcs dlsym m e = None"

definition resolve_step :: "so_image \<Rightarrow> import_table \<Rightarrow> (bytes \<Rightarrow> u32) \<Rightarrow> u32 \<Rightarrow> memory \<Rightarrow> memory" where
  "resolve_step img funcs dlsym e m =
     put_slot (entry_slot img m e)
       (if import_entry img m e
        then map_option (\<lambda>f. f + import_addend img m e) (import_target img funcs dlsym m e) else None) m"

lemma cstring_at_agree:
  assumes "cstring_at m a = Some s" and "\<And>i. i \<le> List.length s \<Longrightarrow> m' (a + of_nat i) = m (a + of_nat i)"
  shows "cstring_at m' a = Some s"
  using assms
proof (induction s arbitrary: a)
  case Nil
  have "m a = 0"
    using Nil.prems(1) by (subst (asm) cstring_at.simps) (auto simp: bind_eq_Some_conv split: if_splits)
  with Nil.prems(2) [of 0] have "m' a = 0" by simp
  then show ?case by (subst cstring_at.simps) simp
next
  case (Cons c s)
  have nz: "m a \<noteq> 0" "m a = c" and rest: "cstring_at m (a + 1) = Some s"
    using Cons.prems(1) by (subst (asm) (1) cstring_at.simps; auto simp: bind_eq_Some_conv split: if_splits)+
  have "cstring_at m' (a + 1) = Some s"
  proof (rule Cons.IH [OF rest])
    fix i
    assume "i \<le> List.length s"
    then show "m' (a + 1 + of_nat i) = m (a + 1 + of_nat i)"
      using Cons.prems(2) [of "Suc i"] by (simp add: algebra_simps)
  qed
  moreover have "m' a = m a" using Cons.prems(2) [of 0] by simp
  ultimately show ?case using nz by (subst cstring_at.simps) simp
qed

lemma same_import:
  assumes ok: "resolvable img m e"
    and same: "same_on (import_reads img m e @ ys) m m'"
  shows "import_entry img m' e = import_entry img m e"
    and "import_entry img m e \<Longrightarrow> import_name img m' e = import_name img m e"
    and "import_reads img m' e = import_reads img m e"
    and "entry_slot img m' e = entry_slot img m e" and "resolvable img m' e"
    and "import_entry img m e \<Longrightarrow> import_target img funcs dlsym m' e = import_target img funcs dlsym m e"
proof -
  have "same_on (entry_reads img m e @ ys) m m'"
    using same by (auto simp: same_on_def import_reads_def)
  note fields = same_fields [OF this]
  show "entry_slot img m' e = entry_slot img m e" by (rule fields)
  show entry: "import_entry img m' e = import_entry img m e"
    by (simp add: import_entry_def fields)
  have name_at: "import_name_at img m' e = import_name_at img m e"
    by (simp add: import_name_at_def fields)
  have name: "import_name img m' e = import_name img m e"
    and reads: "string_reads m' (import_name_at img m e) = string_reads m (import_name_at img m e)"
    if imp: "import_entry img m e"
  proof -
    obtain s where s: "cstring_at m (import_name_at img m e) = Some s"
      using ok imp by (auto simp: resolvable_def import_name_def)
    have "cstring_at m' (import_name_at img m e) = Some s"
    proof (rule cstring_at_agree [OF s])
      fix i
      assume "i \<le> List.length s"
      then have "import_name_at img m e + of_nat i \<in> set (import_reads img m e)"
        using s imp by (auto simp: import_reads_def string_reads_def less_Suc_eq_le simp del: upt_Suc)
      with same show "m' (import_name_at img m e + of_nat i) = m (import_name_at img m e + of_nat i)"
        by (simp add: same_on_def)
    qed
    with s show "import_name img m' e = import_name img m e"
      and "string_reads m' (import_name_at img m e) = string_reads m (import_name_at img m e)"
      by (simp_all add: import_name_def name_at string_reads_def)
  qed
  show "import_entry img m e \<Longrightarrow> import_name img m' e = import_name img m e" by (rule name)
  show "import_reads img m' e = import_reads img m e"
    using reads by (simp add: import_reads_def entry name_at fields)
  show "resolvable img m' e" using ok name by (auto simp: resolvable_def entry)
  show "import_entry img m e \<Longrightarrow> import_target img funcs dlsym m' e = import_target img funcs dlsym m e"
    using name by (simp add: import_target_def fields)
qed

lemma same_import_addend:
  assumes "same_on (import_reads img m e @ slot_addresses (entry_slot img m e)) m m'"
  shows "import_addend img m' e = import_addend img m e"
proof -
  have "same_on (entry_reads img m e @ slot_addresses (entry_slot img m e)) m m'"
    using assms by (auto simp: same_on_def import_reads_def)
  from same_fields [OF this] same_slot [OF this] show ?thesis by (simp add: import_addend_def)
qed

lemma resolve_one_step:
  assumes "resolvable img m e"
  shows "resolve_one img funcs dlsym False e m =
    Some (of_bool (unresolved img funcs dlsym m e), resolve_step img funcs dlsym e m)"
proof (cases "import_entry img m e")
  case False
  then show ?thesis
    by (auto simp: resolve_one_def Let_def import_entry_def unresolved_def resolve_step_def put_slot_def)
next
  case True
  with assms obtain s where s: "import_name img m e = Some s" by (auto simp: resolvable_def)
  with True show ?thesis
    by (auto simp: resolve_one_def Let_def import_entry_def unresolved_def resolve_step_def put_slot_def
        import_target_def import_addend_def import_name_def import_name_at_def entry_slot_def
        split: option.split)
qed

interpretation resolving: slot_pass
    "resolvable img" "entry_slot img" "import_reads img" "unresolved img funcs dlsym"
    "resolve_step img funcs dlsym" "resolve_one img funcs dlsym False"
  for img funcs dlsym
proof unfold_locales
  fix m e
  assume "resolvable img m e"
  then show "resolve_one img funcs dlsym False e m =
      Some (of_bool (unresolved img funcs dlsym m e), resolve_step img funcs dlsym e m)"
    by (rule resolve_one_step)
next
  fix m e x
  assume "\<not> in_slot (entry_slot img m e) x"
  then show "resolve_step img funcs dlsym e m x = m x"
    by (simp add: resolve_step_def put_slot_def st32_outside split: option.split)
next
  fix m e m'
  assume ok: "resolvable img m e"
    and same: "same_on (import_reads img m e @ slot_addresses (entry_slot img m e)) m m'"
  from same_import [OF ok same] same_import_addend [OF same]
  show "resolvable img m' e \<and> entry_slot img m' e = entry_slot img m e
      \<and> import_reads img m' e = import_reads img m e
      \<and> unresolved img funcs dlsym m' e = unresolved img funcs dlsym m e"
    by (auto simp: unresolved_def)
next
  fix m e m' x
  assume ok: "resolvable img m e"
    and same: "same_on (import_reads img m e @ slot_addresses (entry_slot img m e)) m m'"
    and x: "in_slot (entry_slot img m e) x"
  show "resolve_step img funcs dlsym e m' x = resolve_step img funcs dlsym e m x"
    using same_slot(2) [OF same x] st32_inside [OF x] same_import [OF ok same] same_import_addend [OF same]
    by (simp add: resolve_step_def put_slot_def split: option.split)
qed

lemma run_pass_counts:
  "run_pass one es (u, m) = map_option (\<lambda>(n, m1). (u + n, m1)) (run_pass one es (0, m))"
proof (induction es arbitrary: u m)
  case (Cons e es)
  show ?case
  proof (cases "one e m")
    case (Some p)
    obtain d m1 where p: "p = (d, m1)" by (cases p)
    show ?thesis
      using Cons.IH [of "u + d" m1] Cons.IH [of d m1]
      by (simp add: Some p option.map_comp comp_def case_prod_unfold add.assoc)
  qed simp
qed simp

lemma resolve_table_is_pass:
  "resolve_table img funcs dlsym taint rel n (u, m) =
     run_pass (resolve_one img funcs dlsym taint) (table_entries rel n) (u, m)"
  by (induction n arbitrary: rel u m) auto

lemma resolve_sections_is_pass:
  "section_entries img shs = Some es \<Longrightarrow>
     resolve_sections img funcs dlsym taint shs (u, m) = run_pass (resolve_one img funcs dlsym taint) es (u, m)"
proof (induction shs arbitrary: es u m)
  case (Cons sh shs)
  then obtain rel fs where rel: "is_rel_section img sh = Some rel" and fs: "section_entries img shs = Some fs"
    and es: "es = (if rel then table_entries (so_bias img + sh_addr sh) (unat (sh_size sh div 8)) else []) @ fs"
    by (auto simp: bind_eq_Some_conv)
  show ?case
    using Cons.IH [OF fs] rel es
    by (auto simp: resolve_table_is_pass run_pass_append split: option.split)
qed simp

lemma resolution_simultaneous:
  assumes "section_entries img (so_sections img) = Some es"
    and "independent (resolvable img) (entry_slot img) (import_reads img) m es"
  shows "so_resolve img funcs dlsym False m =
    Some (List.length (filter (unresolved img funcs dlsym m) es),
          simultaneous (entry_slot img) (resolve_step img funcs dlsym) es m)"
  using resolving.pass_is_simultaneous [OF assms(2), of funcs dlsym 0] resolve_sections_is_pass [OF assms(1)]
  by (simp add: so_resolve_def)

end
