(* ===== verification/Asm2_ElfProps.thy ===== *)
theory Asm2_ElfProps
  imports Asm2_ElfPasses
begin

text \<open>
  Relocation followed by import resolution, the addresses handed to the patches, and the code hooks.
\<close>

unbundle bit_operations_syntax

section \<open>Linking: both passes in sequence\<close>

text \<open>No slot lies on a byte that any entry's relocation or resolution reads, and no two slots overlap.\<close>

fun slots_apart :: "(u32 \<Rightarrow> u32) \<Rightarrow> u32 list \<Rightarrow> bool" where
  "slots_apart slot [] \<longleftrightarrow> True"
| "slots_apart slot (e # es) \<longleftrightarrow>
     list_all (\<lambda>e'. list_all (\<lambda>x. \<not> in_slot (slot e) x) (slot_addresses (slot e'))) es
     \<and> slots_apart slot es"

definition separate :: "so_image \<Rightarrow> memory \<Rightarrow> u32 list \<Rightarrow> bool" where
  "separate img m es \<longleftrightarrow>
     list_all (\<lambda>e. list_all (\<lambda>e'. list_all (\<lambda>x. \<not> in_slot (entry_slot img m e) x) (import_reads img m e')) es) es
     \<and> slots_apart (entry_slot img m) es"

definition linkable :: "so_image \<Rightarrow> memory \<Rightarrow> u32 list \<Rightarrow> bool" where
  "linkable img m es \<longleftrightarrow> separate img m es \<and> list_all (\<lambda>e. relocatable m e \<and> resolvable img m e) es"

definition linked_value ::
  "so_image \<Rightarrow> import_table \<Rightarrow> (bytes \<Rightarrow> u32) \<Rightarrow> memory \<Rightarrow> u32 \<Rightarrow> u32" where
  "linked_value img funcs dlsym m e =
     (if import_entry img m e then
        (case import_target img funcs dlsym m e of
           Some f \<Rightarrow> f + import_addend img m e
         | None \<Rightarrow> ld32 m (entry_slot img m e))
      else case relocated_value img m e of Some v \<Rightarrow> v | None \<Rightarrow> ld32 m (entry_slot img m e))"

lemma independentI:
  assumes "\<And>e. e \<in> set es \<Longrightarrow> ok m e" and "slots_apart (slot m) es"
    and "\<And>e e' x. e \<in> set es \<Longrightarrow> e' \<in> set es \<Longrightarrow> x \<in> set (reads m e') \<Longrightarrow> \<not> in_slot (slot m e) x"
  shows "independent ok slot reads m es"
  using assms by (induction es) (auto simp: list_all_iff)

lemma linkableD:
  assumes "linkable img m es"
  shows "e \<in> set es \<Longrightarrow> relocatable m e" and "e \<in> set es \<Longrightarrow> resolvable img m e"
    and "slots_apart (entry_slot img m) es"
    and "e \<in> set es \<Longrightarrow> e' \<in> set es \<Longrightarrow> x \<in> set (import_reads img m e') \<Longrightarrow> \<not> in_slot (entry_slot img m e) x"
  using assms by (auto simp: linkable_def separate_def list_all_iff)

lemma linkable_relocation:
  assumes "linkable img m es"
  shows "independent relocatable (entry_slot img) (entry_reads img) m es"
proof (rule independentI)
  show "slots_apart (entry_slot img m) es" by (rule linkableD [OF assms])
  show "\<And>e. e \<in> set es \<Longrightarrow> relocatable m e" by (rule linkableD [OF assms])
  show "\<not> in_slot (entry_slot img m e) x"
    if "e \<in> set es" "e' \<in> set es" "x \<in> set (entry_reads img m e')" for e e' x
    using that by (intro linkableD(4) [OF assms, of e e' x]) (auto simp: import_reads_def)
qed

lemma linkable_resolution:
  assumes "linkable img m es"
  shows "independent (resolvable img) (entry_slot img) (import_reads img) m es"
  by (rule independentI) (use linkableD [OF assms] in blast)+

lemma import_not_relocated: "import_entry img m e \<Longrightarrow> relocated_value img m e = None"
  by (auto simp: import_entry_def import_type_def relocated_value_def Let_def)

text \<open>A pass over other slots leaves what the entries read, and what an import slot holds.\<close>

lemma after_relocation:
  assumes lk: "linkable img m es" and "m1 = simultaneous (entry_slot img) (relocate_step img) es m"
    and e: "e \<in> set es"
  shows "same_on (import_reads img m e) m m1"
    and "in_slot (entry_slot img m e) x \<Longrightarrow> m1 x = relocate_step img e m x"
    and "import_entry img m e \<Longrightarrow> same_on (import_reads img m e @ slot_addresses (entry_slot img m e)) m m1"
proof -
  note ind = linkable_relocation [OF lk]
  show reads: "same_on (import_reads img m e) m m1"
    using relocating.outside_the_slots [of es img m] linkableD(4) [OF lk _ e] assms(2)
    by (auto simp: same_on_def)
  show at: "m1 x = relocate_step img e m x" if "in_slot (entry_slot img m e) x" for x
    unfolding assms(2) by (rule relocating.slot_after_pass [OF ind e that])
  show "same_on (import_reads img m e @ slot_addresses (entry_slot img m e)) m m1"
    if "import_entry img m e"
    using reads at import_not_relocated [OF that]
    by (auto simp: same_on_def set_slot_addresses relocate_step_def put_slot_def)
qed

lemma linkable_after_relocation:
  assumes lk: "linkable img m es" and m1: "m1 = simultaneous (entry_slot img) (relocate_step img) es m"
  shows "independent (resolvable img) (entry_slot img) (import_reads img) m1 es"
proof (rule independentI)
  have eqs: "entry_slot img m1 e = entry_slot img m e" "import_reads img m1 e = import_reads img m e"
    "resolvable img m1 e" if "e \<in> set es" for e
    using same_import [OF linkableD(2) [OF lk that], of "[]" m1] after_relocation(1) [OF lk m1 that]
    by simp_all
  show "resolvable img m1 e" if "e \<in> set es" for e by (rule eqs(3) [OF that])
  have "slots_apart (entry_slot img m1) as" if "slots_apart (entry_slot img m) as" "set as \<subseteq> set es" for as
    using that by (induction as) (auto simp: eqs list_all_iff)
  then show "slots_apart (entry_slot img m1) es" using linkableD(3) [OF lk] by simp
  show "\<not> in_slot (entry_slot img m1 e) x"
    if "e \<in> set es" "e' \<in> set es" "x \<in> set (import_reads img m1 e')" for e e' x
    using linkableD(4) [OF lk] that by (simp add: eqs)
qed

lemma ld32_put_slot: "ld32 (put_slot a v m) a = (case v of Some w \<Rightarrow> w | None \<Rightarrow> ld32 m a)"
  by (simp add: put_slot_def split: option.split)

lemma ld32_slot_cong: "(\<And>x. in_slot a x \<Longrightarrow> m' x = m x) \<Longrightarrow> ld32 m' a = ld32 m a"
  by (rule ld32_cong) (simp_all add: in_slot_cases)

lemma linked_slot:
  assumes lk: "linkable img m es" and m1: "m1 = simultaneous (entry_slot img) (relocate_step img) es m"
    and m2: "m2 = simultaneous (entry_slot img) (resolve_step img funcs dlsym) es m1"
    and e: "e \<in> set es"
  shows "ld32 m2 (entry_slot img m e) = linked_value img funcs dlsym m e"
proof -
  note ind1 = linkable_after_relocation [OF lk m1]
  note reads = after_relocation(1) [OF lk m1 e]
  have eqs: "entry_slot img m1 e = entry_slot img m e" "import_entry img m1 e = import_entry img m e"
    "import_entry img m e \<Longrightarrow> import_target img funcs dlsym m1 e = import_target img funcs dlsym m e"
    using same_import [OF linkableD(2) [OF lk e], of "[]" m1] reads by simp_all
  have "m2 x = resolve_step img funcs dlsym e m1 x" if "in_slot (entry_slot img m e) x" for x
    unfolding m2 by (rule resolving.slot_after_pass [OF ind1 e]) (simp add: eqs that)
  then have v2: "ld32 m2 (entry_slot img m e) = ld32 (resolve_step img funcs dlsym e m1) (entry_slot img m e)"
    by (rule ld32_slot_cong)
  have v1: "ld32 m1 (entry_slot img m e) = ld32 (relocate_step img e m) (entry_slot img m e)"
    by (rule ld32_slot_cong) (rule after_relocation(2) [OF lk m1 e])
  show ?thesis
  proof (cases "import_entry img m e")
    case True
    have "import_addend img m1 e = import_addend img m e"
      by (rule same_import_addend) (rule after_relocation(3) [OF lk m1 e True])
    then show ?thesis
      using True v1 v2 import_not_relocated [OF True]
      by (simp add: linked_value_def resolve_step_def relocate_step_def ld32_put_slot eqs split: option.split)
  next
    case False
    then show ?thesis
      using v1 v2 by (simp add: linked_value_def resolve_step_def relocate_step_def ld32_put_slot eqs)
  qed
qed

lemma linked_outside:
  assumes lk: "linkable img m es" and m1: "m1 = simultaneous (entry_slot img) (relocate_step img) es m"
    and m2: "m2 = simultaneous (entry_slot img) (resolve_step img funcs dlsym) es m1"
    and x: "list_all (\<lambda>e. \<not> in_slot (entry_slot img m e) x) es"
  shows "m2 x = m x"
proof -
  have "entry_slot img m1 e = entry_slot img m e" if "e \<in> set es" for e
    using same_import(4) [OF linkableD(2) [OF lk that], of "[]" m1] after_relocation(1) [OF lk m1 that]
    by simp
  then have "m2 x = m1 x"
    unfolding m2 using x by (intro resolving.outside_the_slots) (auto simp: list_all_iff)
  also have "m1 x = m x"
    unfolding m1 using x by (intro relocating.outside_the_slots) (auto simp: list_all_iff)
  finally show ?thesis .
qed

lemma unresolved_after_relocation:
  assumes lk: "linkable img m es" and m1: "m1 = simultaneous (entry_slot img) (relocate_step img) es m"
  shows "filter (unresolved img funcs dlsym m1) es = filter (unresolved img funcs dlsym m) es"
proof (rule filter_cong [OF refl])
  fix e
  assume e: "e \<in> set es"
  show "unresolved img funcs dlsym m1 e = unresolved img funcs dlsym m e"
    using same_import [OF linkableD(2) [OF lk e], of "[]" m1] after_relocation(1) [OF lk m1 e]
    by (auto simp: unresolved_def)
qed

section \<open>Properties\<close>

definition two_entry_image :: so_image where
  "two_entry_image =
     \<lparr>so_file = cstr ''.rel.dyn'' @ [0], so_programs = [],
      so_sections = [\<lparr>sh_name = 0, sh_addr = 0x100, sh_offset = 0, sh_size = 16\<rparr>], so_shstrtab = 0,
      so_mapping = 0x1000, so_bias = 0x1000, so_load_size = 0x1000, so_min_vaddr = 0,
      so_text_base = 0x1000, so_text_size = 0x1000, so_data_base = 0x1000, so_data_size = 0x1000,
      so_syms = 0x1300, so_num_syms = 2, so_dynstr = 0x1400\<rparr>"

definition two_entry_memory :: memory where
  "two_entry_memory =
     st32 (st32 (st32 (st32 (st32 (st32 (\<lambda>_. 0) 0x1100 0x200) 0x1104 23) 0x1108 0x204) 0x110C 0x115) 0x1200 0x50)
       0x1400 102"

lemma two_entry_entries:
  "section_entries two_entry_image (so_sections two_entry_image) = Some [0x1100, 0x1108]"
  by code_simp

lemma two_entry_fields:
  "entry_slot two_entry_image two_entry_memory 0x1100 = 0x1200"
  "entry_slot two_entry_image two_entry_memory 0x1108 = 0x1204"
  "rel_type two_entry_memory 0x1100 = 23" "rel_type two_entry_memory 0x1108 = 21"
  "rel_sym two_entry_image two_entry_memory 0x1100 = 0x1300"
  "rel_sym two_entry_image two_entry_memory 0x1108 = 0x1310"
  "import_name_at two_entry_image two_entry_memory 0x1108 = 0x1400"
  "cstring_at two_entry_memory 0x1400 = Some (cstr ''f'')"
  "st_shndx two_entry_memory 0x1310 = 0"
  by code_simp+

lemma two_entry_linkable: "linkable two_entry_image two_entry_memory [0x1100, 0x1108]"
  by (simp add: linkable_def separate_def relocatable_def resolvable_def known_type_def import_name_def
      import_reads_def entry_reads_def import_entry_def import_type_def string_reads_def cstr_def
      two_entry_fields slot_addresses_def in_slot_def Let_def)



text \<open>C22. Loading: when no segment wraps around the address space, a successful \<open>so_load\<close> uses at most
  \<open>max_size\<close> bytes at the base, fills them with exactly the bytes the segments of the file give (0 where
  no segment has one, the last segment where several do) and changes no other byte of memory.\<close>

theorem loaded_image_is_the_segments:
  assumes "so_load (File file) base max_size m = Loaded img m'"
    and "list_all (\<lambda>ph. ph_type ph = pt_load \<longrightarrow> segment_fits ph) (so_programs img)"
  shows "so_load_size img \<le> max_size
     \<and> m' x = (if x - base < so_load_size img
               then image_byte file (so_programs img) 0 (x - so_bias img) else m x)"
  by (rule loaded_memory [OF assms])

text \<open>
  A small library: one segment of the whole file, readable, writable and executable, and two sections named
  by the second.
\<close>

definition tiny_library :: bytes where
  "tiny_library =
     [0x7F, 0x45, 0x4C, 0x46, 1] @ replicate 13 0 @ [40, 0] @ replicate 8 0 @ put_le32 52 @ put_le32 84
     @ replicate 8 0 @ [1, 0, 0, 0, 2, 0, 1, 0]
     @ concat (map put_le32 [1, 0, 0x2000, 0, 180, 200, 7, 0])
     @ concat (map put_le32 [0, 0, 0, 0x20A4, 0, 16, 0, 0, 0, 0])
     @ concat (map put_le32 [8, 0, 0, 0x20AC, 164, 16, 0, 0, 0, 0])
     @ cstr ''.dynsym'' @ [0] @ cstr ''.dynstr'' @ [0]"

definition tiny_programs :: "program_header list" where
  "tiny_programs = [\<lparr>ph_type = 1, ph_offset = 0, ph_vaddr = 0x2000, ph_filesz = 180, ph_memsz = 200, ph_flags = 7\<rparr>]"

definition tiny_sections :: "section_header list" where
  "tiny_sections =
     [\<lparr>sh_name = 0, sh_addr = 0x20A4, sh_offset = 0, sh_size = 16\<rparr>,
      \<lparr>sh_name = 8, sh_addr = 0x20AC, sh_offset = 164, sh_size = 16\<rparr>]"

lemma tiny_library_header:
  "read_elf_header tiny_library =
     Some \<lparr>eh_class = 1, eh_machine = 40, eh_phoff = 52, eh_shoff = 84, eh_phnum = 1, eh_shnum = 2, eh_shstrndx = 1\<rparr>"
  by code_simp

lemma tiny_library_tables:
  "read_table (read_program_header tiny_library) 52 32 1 = Some tiny_programs"
  "read_table (read_section_header tiny_library) 84 40 2 = Some tiny_sections"
  by code_simp+

lemma tiny_library_dynamic:
  "find_dynamic tiny_library 164 0x6000 tiny_sections (None, None) = Some (Some (0x80A4, 1), Some 0x80AC)"
  by code_simp

lemma tiny_library_magic: "file_prefix_is tiny_library 0 [0x7F, 0x45, 0x4C, 0x46] = Some True"
  by code_simp

lemma tiny_library_layout:
  "so_layout 180 0x1000 tiny_programs = Inr (0x2000, 0x3000, Some (hd tiny_programs), Some (hd tiny_programs))"
  by code_simp

lemma tiny_library_length: "List.length tiny_library = 180"
  by (simp add: tiny_library_def put_le32_def cstr_def)

lemma tiny_library_checked:
  "so_check tiny_library 0x1000 =
     Some (Inr (tiny_programs, tiny_sections, 164, (0x2000, 0x3000, Some (hd tiny_programs), Some (hd tiny_programs))))"
  using tiny_library_tables tiny_library_layout
  by (simp add: so_check_def tiny_library_header tiny_library_length Let_def tiny_sections_def word_le_nat_alt)

lemma tiny_library_loads:
  obtains img m' where "so_load (File tiny_library) 0x8000 0x1000 m = Loaded img m'"
    and "list_all (\<lambda>ph. ph_type ph = pt_load \<longrightarrow> segment_fits ph) (so_programs img)"
    and "so_load_size img = 0x1000"
proof -
  have "tiny_library \<noteq> []" by (simp add: tiny_library_def)
  moreover have "list_all (\<lambda>ph. ph_type ph = pt_load \<longrightarrow> segment_fits ph) tiny_programs"
    by (simp add: tiny_programs_def segment_fits_def)
  ultimately show thesis
    by (intro that, simp add: so_load_def tiny_library_magic tiny_library_checked tiny_library_dynamic Let_def
        del: file_prefix_is.simps) simp_all
qed

theorem loaded_image_is_the_segments_witness:
  "\<exists>img m'. so_load (File tiny_library) 0x8000 0x1000 (\<lambda>_. 7) = Loaded img m' \<and> m' 0x9000 = 7"
proof -
  obtain img m' where l: "so_load (File tiny_library) 0x8000 0x1000 (\<lambda>_. 7) = Loaded img m'"
    and "list_all (\<lambda>ph. ph_type ph = pt_load \<longrightarrow> segment_fits ph) (so_programs img)"
    and "so_load_size img = 0x1000"
    by (rule tiny_library_loads)
  with loaded_image_is_the_segments [OF l, of "0x9000"] show ?thesis by auto
qed

section \<open>Addresses handed to the patches\<close>

lemma guest_range_inside:
  assumes "so_guest_vma img vma sz = Some a" and "so_mapping img = so_bias img + so_min_vaddr img"
  shows "unat (a - so_mapping img) + unat sz \<le> unat (so_load_size img)"
proof -
  have g: "so_min_vaddr img \<le> vma" "vma - so_min_vaddr img \<le> so_load_size img"
    "sz \<le> so_load_size img - (vma - so_min_vaddr img)" "a = so_bias img + vma"
    using assms(1) by (auto simp: so_guest_vma_def Let_def split: if_splits)
  then have "a - so_mapping img = vma - so_min_vaddr img" by (simp add: assms(2))
  with g(2,3) show ?thesis by (simp add: word_le_nat_alt unat_sub)
qed

lemma loaded_mapping:
  assumes "so_load (File file) base max_size m = Loaded img m'"
  shows "so_mapping img = so_bias img + so_min_vaddr img" and "so_mapping img = base"
  by (rule so_load_parts [OF assms]; simp)+

section \<open>Code hooks\<close>

lemma ld32_apart:
  assumes "\<not> in_slot a b" "\<not> in_slot a (b + 1)" "\<not> in_slot a (b + 2)" "\<not> in_slot a (b + 3)"
  shows "ld32 (st32 m a v) b = ld32 m b"
  using assms by (intro ld32_cong) (simp_all add: st32_outside)

lemma ld16_apart:
  assumes "\<not> in_slot a b" "\<not> in_slot a (b + 1)"
  shows "ld16 (st32 m a v) b = ld16 m b"
  using assms by (intro ld16_cong) (simp_all add: st32_outside)

lemma ld16_st16 [simp]: "ld16 (st16 m a v) a = v"
proof -
  have "ucast (ucast v :: u8) OR push_bit 8 (ucast (ucast (drop_bit 8 v) :: u8)) = v"
    by (rule bit_word_eqI) (auto simp: bit_simps)
  then show ?thesis by (simp add: ld16_def st16_def)
qed

lemma ld16_st16_apart:
  assumes "a \<noteq> b" "a \<noteq> b + 1" "a + 1 \<noteq> b" "a + 1 \<noteq> b + 1"
  shows "ld16 (st16 m a v) b = ld16 m b"
  using assms by (intro ld16_cong) (auto simp: st16_def)

lemma even_address: "\<not> bit addr 0 \<Longrightarrow> addr AND NOT 1 = addr" for addr :: u32
  by (rule bit_word_eqI) (auto simp: bit_simps bit_1_iff intro: gr0I)

lemma multiple_of_4:
  fixes h :: u32
  assumes "h AND 3 = 0"
  shows "h + 4 AND NOT 3 = h + 4"
proof -
  have three: "(3 :: u32) = mask 2" by (simp add: mask_eq_exp_minus_1)
  have low: "unat (x AND 3) = unat x mod 4" for x :: u32
    by (simp add: three unsigned_take_bit_eq take_bit_eq_mod unat_mod_distrib flip: take_bit_eq_mask)
  have "unat h mod 4 = 0" using low [of h] assms by simp
  moreover have "unat (h + 4) = (unat h + 4) mod (4 * 2 ^ 30)" by (simp add: unat_word_ariths)
  ultimately have "unat (h + 4) mod 4 = 0" by (simp add: mod_mod_cancel)
  then have low: "h + 4 AND 3 = 0" using low [of "h + 4"] by (simp add: unat_eq_0)
  have "h + 4 = (h + 4 AND NOT 3) OR (h + 4 AND 3)" by (simp flip: bit.conj_disj_distrib)
  with low show ?thesis by simp
qed

lemma ld32_st32_second: "ld32 (st32 m (a + 4) v) (4 + a) = v"
  by (subst add.commute) simp

lemma hook_arm_even:
  assumes "addr \<noteq> 0" and "\<not> bit addr 0"
  shows "hooked_target (hook_arm addr dst m) addr = Some dst"
  using assms by (simp add: hooked_target_def hook_arm_def ld32_apart in_slot_def ld32_st32_second)

lemma hook_arm_thumb_instruction:
  assumes "bit addr 0"
  shows "hooked_target (hook_arm addr dst m) addr =
    Some (ld32 (hook_arm addr dst m) ((addr AND NOT 1) + 4 AND NOT 3))"
  using assms
  by (auto simp: hooked_target_def hook_arm_def Let_def ld16_apart ld16_st16_apart in_slot_def)

text \<open>A hook takes effect at once: after \<open>hook_arm(addr, dst)\<close> the instruction at an ARM entry point, or
  at a Thumb entry point that is a multiple of 4, jumps to \<open>dst\<close>.\<close>

theorem hook_redirects:
  assumes "addr \<noteq> 0" and "bit addr 0 \<longrightarrow> (addr AND NOT 1) AND 3 = 0"
  shows "hooked_target (hook_arm addr dst m) addr = Some dst"
proof (cases "bit addr 0")
  case False
  then show ?thesis by (rule hook_arm_even [OF assms(1)])
next
  case True
  let ?h = "addr AND NOT 1"
  have "?h + 4 AND NOT 3 = ?h + 4" using True assms(2) by (intro multiple_of_4) simp
  then show ?thesis
    using True assms(1) by (simp add: hook_arm_thumb_instruction) (simp add: hook_arm_def Let_def)
qed

theorem hook_redirects_witness:
  "hooked_target (hook_arm 0x1001 0x8000 (\<lambda>_. 0)) 0x1001 = Some 0x8000"
  by (rule hook_redirects) simp_all

text \<open>
  At a Thumb entry point that is 2 more than a multiple of 4 the literal is read 2 bytes too early: the
  jump goes to an address made of the second halfword of the instruction and half of the target.
\<close>

lemma hook_misses_unaligned_thumb:
  "hooked_target (hook_arm 0x1003 0x12345678 (\<lambda>_. 0)) 0x1003 = Some 0x5678F000"
  by code_simp

section \<open>What the checks of the loader let through\<close>

text \<open>A file that ends inside the header is read past its end.\<close>

lemma short_file_read_outside:
  "so_load (File [0x7F, 0x45, 0x4C, 0x46]) base max_size m = Load_reads_outside"
  by (simp add: so_load_def so_check_def read_elf_header_def rd8_def)

text \<open>The sum of the offset and the size of the program headers wraps, so a table outside the file passes.\<close>

definition wrapped_table :: bytes where
  "wrapped_table =
     [0x7F, 0x45, 0x4C, 0x46, 1] @ replicate 13 0 @ [40, 0] @ replicate 8 0 @ put_le32 0xFFFFFFE0
     @ put_le32 0 @ replicate 8 0 @ [1, 0, 0, 0, 1, 0, 0, 0]"

lemma wrapped_table_read_outside: "so_load (File wrapped_table) base max_size m = Load_reads_outside"
proof -
  have "read_elf_header wrapped_table =
      Some \<lparr>eh_class = 1, eh_machine = 40, eh_phoff = 0xFFFFFFE0, eh_shoff = 0, eh_phnum = 1, eh_shnum = 1,
            eh_shstrndx = 0\<rparr>"
    and magic: "file_prefix_is wrapped_table 0 [0x7F, 0x45, 0x4C, 0x46] = Some True"
    and "read_program_header wrapped_table 0xFFFFFFE0 = None"
    by (code_simp, code_simp, simp add: read_program_header_def rd32_def rd8_def wrapped_table_def put_le32_def)
  moreover have "List.length wrapped_table = 52" "wrapped_table \<noteq> []"
    by (simp_all add: wrapped_table_def put_le32_def)
  ultimately have "so_check wrapped_table max_size = None"
    by (simp add: so_check_def Let_def)
  with magic \<open>wrapped_table \<noteq> []\<close> show ?thesis
    by (simp add: so_load_def del: file_prefix_is.simps)
qed

text \<open>A segment whose end wraps to 0 passes the scan without counting: the copy writes 0x2000 bytes into 0x1000.\<close>

lemma wrapped_segment_accepted:
  "so_layout 0x3000 0x1000
     [\<lparr>ph_type = 1, ph_offset = 0, ph_vaddr = 0, ph_filesz = 0x2000, ph_memsz = 0xFFFFF001, ph_flags = 7\<rparr>,
      \<lparr>ph_type = 1, ph_offset = 0, ph_vaddr = 0, ph_filesz = 0, ph_memsz = 0x1000, ph_flags = 7\<rparr>]
   = Inr (0, 0x1000,
      Some \<lparr>ph_type = 1, ph_offset = 0, ph_vaddr = 0, ph_filesz = 0x2000, ph_memsz = 0xFFFFF001, ph_flags = 7\<rparr>,
      Some \<lparr>ph_type = 1, ph_offset = 0, ph_vaddr = 0, ph_filesz = 0x2000, ph_memsz = 0xFFFFF001, ph_flags = 7\<rparr>)"
  by (simp add: so_layout_def segment_refused_def segment_end_def segment_start_def align_page_def pt_load_def)

end
