(* ===== verification/Asm2_JniText.thy ===== *)
theory Asm2_JniText
  imports Asm2_Prelude
begin

text \<open>
  The two encodings of a string handle in \<open>src/asm2_127/src/jni_bridge.c\<close>: the UTF-8 text it keeps and
  the UTF-16 units the guest reads (\<open>asm2_utf8_codepoint\<close>, \<open>asm2_fill_utf16\<close>, \<open>asm2_utf16_to_utf8\<close>).
  Texts are byte lists without their terminator; a byte past the end reads as the terminator.
\<close>

unbundle bit_operations_syntax

definition byte_at :: "bytes \<Rightarrow> nat \<Rightarrow> u8" where
  "byte_at s i = (if i < List.length s then s ! i else 0)"

abbreviation (input) "continuation b \<equiv> (b :: u8) AND 0xC0 = 0x80"

definition utf8_codepoint :: "bytes \<Rightarrow> u32 \<times> bytes" where
  "utf8_codepoint s =
     (let t0 = byte_at s 0; t1 = byte_at s 1; t2 = byte_at s 2; t3 = byte_at s 3 in
      if t0 < 0x80 then (ucast t0, drop 1 s)
      else if t0 AND 0xE0 = 0xC0 \<and> continuation t1 then
        (push_bit 6 (ucast (t0 AND 0x1F)) OR ucast (t1 AND 0x3F), drop 2 s)
      else if t0 AND 0xF0 = 0xE0 \<and> continuation t1 \<and> continuation t2 then
        (push_bit 12 (ucast (t0 AND 0x0F)) OR push_bit 6 (ucast (t1 AND 0x3F)) OR ucast (t2 AND 0x3F), drop 3 s)
      else if t0 AND 0xF8 = 0xF0 \<and> continuation t1 \<and> continuation t2 \<and> continuation t3 then
        (push_bit 18 (ucast (t0 AND 0x07)) OR push_bit 12 (ucast (t1 AND 0x3F))
           OR push_bit 6 (ucast (t2 AND 0x3F)) OR ucast (t3 AND 0x3F), drop 4 s)
      else (0xFFFD, drop 1 s))"

definition utf16_units :: "u32 \<Rightarrow> u16 list" where
  "utf16_units c =
     (if c \<le> 0xFFFF then [ucast c]
      else let d = c - 0x10000 in [ucast (0xD800 OR drop_bit 10 d), ucast (0xDC00 OR (d AND 0x3FF))])"

lemma utf8_codepoint_shorter: "s \<noteq> [] \<Longrightarrow> List.length (snd (utf8_codepoint s)) < List.length s"
  by (auto simp: utf8_codepoint_def Let_def)

function asm2_fill_utf16 :: "bytes \<Rightarrow> u16 list" where
  "asm2_fill_utf16 s =
     (if s = [] then []
      else case utf8_codepoint s of (c, rest) \<Rightarrow> utf16_units c @ asm2_fill_utf16 rest)"
  by pat_completeness auto

termination
  by (relation "measure List.length") (use utf8_codepoint_shorter in \<open>auto, metis snd_conv\<close>)

declare asm2_fill_utf16.simps [simp del]

definition high_surrogate :: "u16 \<Rightarrow> bool" where
  "high_surrogate u \<longleftrightarrow> 0xD800 \<le> u \<and> u \<le> 0xDBFF"

definition low_surrogate :: "u16 \<Rightarrow> bool" where
  "low_surrogate u \<longleftrightarrow> 0xDC00 \<le> u \<and> u \<le> 0xDFFF"

definition utf8_bytes :: "u32 \<Rightarrow> bytes" where
  "utf8_bytes c =
     (if c < 0x80 then [ucast c]
      else if c < 0x800 then [ucast (0xC0 OR drop_bit 6 c), ucast (0x80 OR (c AND 0x3F))]
      else if c < 0x10000 then
        [ucast (0xE0 OR drop_bit 12 c), ucast (0x80 OR (drop_bit 6 c AND 0x3F)), ucast (0x80 OR (c AND 0x3F))]
      else [ucast (0xF0 OR drop_bit 18 c), ucast (0x80 OR (drop_bit 12 c AND 0x3F)),
            ucast (0x80 OR (drop_bit 6 c AND 0x3F)), ucast (0x80 OR (c AND 0x3F))])"

definition surrogate_pair :: "u16 \<Rightarrow> u16 \<Rightarrow> u32" where
  "surrogate_pair u v = 0x10000 + push_bit 10 (ucast u - 0xD800) + (ucast v - 0xDC00)"

fun asm2_utf16_to_utf8 :: "u16 list \<Rightarrow> bytes" where
  "asm2_utf16_to_utf8 [] = []"
| "asm2_utf16_to_utf8 [u] = utf8_bytes (ucast u)"
| "asm2_utf16_to_utf8 (u # v # us) =
     (if high_surrogate u \<and> low_surrogate v
      then utf8_bytes (surrogate_pair u v) @ asm2_utf16_to_utf8 us
      else utf8_bytes (ucast u) @ asm2_utf16_to_utf8 (v # us))"

section \<open>Sizes of the two buffers\<close>

lemma utf16_units_length: "List.length (utf16_units c) \<le> 2"
  by (simp add: utf16_units_def Let_def)

lemma utf8_bytes_length: "1 \<le> List.length (utf8_bytes c) \<and> List.length (utf8_bytes c) \<le> 4"
  by (simp add: utf8_bytes_def)

lemma fill_utf16_fits: "List.length (asm2_fill_utf16 s) \<le> 2 * List.length s"
proof (induction s rule: asm2_fill_utf16.induct)
  case (1 s)
  show ?case
  proof (cases "s = []")
    case False
    obtain c rest where p: "utf8_codepoint s = (c, rest)" by fastforce
    have "List.length rest < List.length s" using utf8_codepoint_shorter [OF False] p by simp
    moreover have "List.length (asm2_fill_utf16 rest) \<le> 2 * List.length rest" using 1 False p by auto
    ultimately show ?thesis
      using False p utf16_units_length [of c] by (subst asm2_fill_utf16.simps) auto
  qed (simp add: asm2_fill_utf16.simps)
qed

lemma utf16_to_utf8_fits: "List.length (asm2_utf16_to_utf8 us) \<le> 4 * List.length us"
proof (induction us rule: asm2_utf16_to_utf8.induct)
  case (3 u v us)
  then show ?case
    using utf8_bytes_length [of "ucast u"] utf8_bytes_length [of "surrogate_pair u v"] by auto
qed (use utf8_bytes_length in auto)

section \<open>Decoding what was encoded\<close>

lemma bit_below:
  fixes c :: "'a :: len word"
  assumes "unat c < 2 ^ k" and "k \<le> n"
  shows "\<not> bit c n"
proof -
  have "take_bit k (unat c) = unat c" using assms(1) by (simp add: take_bit_nat_eq_self_iff)
  then have "\<not> bit (unat c) n" using assms(2) by (metis bit_take_bit_iff linorder_not_less)
  then show ?thesis by (simp add: bit_unsigned_iff)
qed

lemma bit_less: "unat c < 2 ^ k \<Longrightarrow> bit c n \<Longrightarrow> n < k"
  by (metis bit_below linorder_not_less)

lemma u8_eqI:
  fixes a b :: u8
  assumes "bit a 0 = bit b 0" "bit a 1 = bit b 1" "bit a 2 = bit b 2" "bit a 3 = bit b 3"
    "bit a 4 = bit b 4" "bit a 5 = bit b 5" "bit a 6 = bit b 6" "bit a 7 = bit b 7"
  shows "a = b"
proof (rule bit_word_eqI)
  fix n
  assume "n < LENGTH(8)"
  then have "n = 0 \<or> n = 1 \<or> n = 2 \<or> n = 3 \<or> n = 4 \<or> n = 5 \<or> n = 6 \<or> n = 7" by fastforce
  with assms show "bit a n = bit b n" by auto
qed

lemma masks:
  "(0x1F :: 'a :: len word) = mask 5" "(0x3F :: 'a word) = mask 6" "(0x0F :: 'a word) = mask 4" "(7 :: 'a word) = mask 3"
  "(0x80 :: 'a word) = push_bit 7 (mask 1)" "(0xC0 :: 'a word) = push_bit 6 (mask 2)"
  "(0xE0 :: 'a word) = push_bit 5 (mask 3)" "(0xF0 :: 'a word) = push_bit 4 (mask 4)"
  by (simp_all add: mask_eq_exp_minus_1 push_bit_eq_mult)

text \<open>The lead byte of each length and the continuation bytes are recognised and carry their bits.\<close>

lemma not_ascii: "bit b 7 \<Longrightarrow> \<not> b < (0x80 :: u8)"
  using bit_below [of b 7 7] by (auto simp: word_less_nat_alt)

lemma lead_1:
  fixes c :: u32
  assumes "c < 0x80"
  shows "(ucast c :: u8) < 0x80" and "ucast (ucast c :: u8) = c"
proof -
  have c: "unat c < 2 ^ 7" using assms by (simp add: word_less_nat_alt)
  show eq: "ucast (ucast c :: u8) = c"
    using bit_less [OF c] by (intro bit_word_eqI) (fastforce simp: bit_simps)
  show "(ucast c :: u8) < 0x80"
    using c by (simp add: word_less_nat_alt unsigned_ucast_eq take_bit_nat_eq_self)
qed

lemma lead_2:
  fixes x :: u32
  assumes "unat x < 2 ^ 5"
  shows "\<not> ucast (0xC0 OR x) < (0x80 :: u8)" and "ucast (0xC0 OR x) AND 0xE0 = (0xC0 :: u8)"
    and "ucast (ucast (0xC0 OR x) AND (0x1F :: u8)) = x"
proof -
  show "\<not> ucast (0xC0 OR x) < (0x80 :: u8)" by (rule not_ascii) (simp add: bit_simps)
  show "ucast (0xC0 OR x) AND 0xE0 = (0xC0 :: u8)"
    using bit_below [OF assms] by (intro u8_eqI) (simp_all add: bit_simps)
  show "ucast (ucast (0xC0 OR x) AND (0x1F :: u8)) = x"
    using bit_less [OF assms] by (intro bit_word_eqI) (fastforce simp: bit_simps masks)
qed

lemma lead_3:
  fixes x :: u32
  assumes "unat x < 2 ^ 4"
  shows "\<not> ucast (0xE0 OR x) < (0x80 :: u8)" and "ucast (0xE0 OR x) AND 0xE0 \<noteq> (0xC0 :: u8)"
    and "ucast (0xE0 OR x) AND 0xF0 = (0xE0 :: u8)"
    and "ucast (ucast (0xE0 OR x) AND (0x0F :: u8)) = x"
proof -
  show "\<not> ucast (0xE0 OR x) < (0x80 :: u8)" by (rule not_ascii) (simp add: bit_simps)
  have "bit (ucast (0xE0 OR x) AND (0xE0 :: u8)) 5 \<noteq> bit (0xC0 :: u8) 5" by (simp add: bit_simps)
  then show "ucast (0xE0 OR x) AND 0xE0 \<noteq> (0xC0 :: u8)" by metis
  show "ucast (0xE0 OR x) AND 0xF0 = (0xE0 :: u8)"
    using bit_below [OF assms] by (intro u8_eqI) (simp_all add: bit_simps)
  show "ucast (ucast (0xE0 OR x) AND (0x0F :: u8)) = x"
    using bit_less [OF assms] by (intro bit_word_eqI) (fastforce simp: bit_simps masks)
qed

lemma lead_4:
  fixes x :: u32
  assumes "unat x < 2 ^ 3"
  shows "\<not> ucast (0xF0 OR x) < (0x80 :: u8)" and "ucast (0xF0 OR x) AND 0xE0 \<noteq> (0xC0 :: u8)"
    and "ucast (0xF0 OR x) AND 0xF0 \<noteq> (0xE0 :: u8)" and "ucast (0xF0 OR x) AND 0xF8 = (0xF0 :: u8)"
    and "ucast (ucast (0xF0 OR x) AND (7 :: u8)) = x"
proof -
  show "\<not> ucast (0xF0 OR x) < (0x80 :: u8)" by (rule not_ascii) (simp add: bit_simps)
  have "bit (ucast (0xF0 OR x) AND (0xE0 :: u8)) 5 \<noteq> bit (0xC0 :: u8) 5" by (simp add: bit_simps)
  then show "ucast (0xF0 OR x) AND 0xE0 \<noteq> (0xC0 :: u8)" by metis
  have "bit (ucast (0xF0 OR x) AND (0xF0 :: u8)) 4 \<noteq> bit (0xE0 :: u8) 4" by (simp add: bit_simps)
  then show "ucast (0xF0 OR x) AND 0xF0 \<noteq> (0xE0 :: u8)" by metis
  show "ucast (0xF0 OR x) AND 0xF8 = (0xF0 :: u8)"
    using bit_below [OF assms] by (intro u8_eqI) (simp_all add: bit_simps)
  show "ucast (ucast (0xF0 OR x) AND (7 :: u8)) = x"
    using bit_less [OF assms] by (intro bit_word_eqI) (fastforce simp: bit_simps masks)
qed

lemma continuation_byte:
  fixes x :: u32
  shows "continuation (ucast (0x80 OR (x AND 0x3F)))"
    and "ucast (ucast (0x80 OR (x AND 0x3F)) AND (0x3F :: u8)) = x AND 0x3F"
proof -
  show "continuation (ucast (0x80 OR (x AND 0x3F)))" by (intro u8_eqI) (simp_all add: bit_simps)
  have "ucast (ucast w AND (0x3F :: u8)) = w AND 0x3F" for w :: u32
    by (rule bit_word_eqI) (auto simp: bit_simps masks(2))
  then have "ucast (ucast (0x80 OR (x AND 0x3F)) AND (0x3F :: u8)) = (0x80 OR (x AND 0x3F)) AND 0x3F" .
  also have "\<dots> = x AND 0x3F"
    by (simp add: bit.conj_disj_distrib2 and.assoc)
  finally show "ucast (ucast (0x80 OR (x AND 0x3F)) AND (0x3F :: u8)) = x AND 0x3F" .
qed

text \<open>The groups of six bits put together again.\<close>

lemma bit_high_group: "bit (push_bit k (drop_bit k x)) n \<longleftrightarrow> k \<le> n \<and> bit x n" for x :: u32
  using bit_imp_le_length [of x n] by (auto simp: bit_simps)

lemma bit_group: "bit (push_bit k (drop_bit k x AND 0x3F)) n \<longleftrightarrow> k \<le> n \<and> n < k + 6 \<and> bit x n" for x :: u32
  using bit_imp_le_length [of x n] by (auto simp: bit_simps masks(2))

lemma bit_low_group: "bit (x AND 0x3F) n \<longleftrightarrow> n < 6 \<and> bit x n" for x :: u32
  using bit_imp_le_length [of x n] by (auto simp: bit_simps masks(2))

lemmas bit_groups = bit_high_group bit_group bit_low_group bit_or_iff

lemma join_2: "push_bit 6 (drop_bit 6 x) OR x AND 0x3F = x" for x :: u32
  by (rule bit_word_eqI) (auto simp only: bit_groups)

lemma join_3: "push_bit 12 (drop_bit 12 x) OR push_bit 6 (drop_bit 6 x AND 0x3F) OR x AND 0x3F = x" for x :: u32
  by (rule bit_word_eqI) (simp only: bit_groups, arith)

lemma join_4:
  "push_bit 18 (drop_bit 18 x) OR push_bit 12 (drop_bit 12 x AND 0x3F) OR push_bit 6 (drop_bit 6 x AND 0x3F)
     OR x AND 0x3F = x" for x :: u32
  by (rule bit_word_eqI) (simp only: bit_groups, arith)

lemma utf8_decode:
  fixes c :: u32
  assumes "c < 0x110000"
  shows "utf8_codepoint (utf8_bytes c @ s) = (c, s)"
proof -
  have c: "unat c < 2 ^ 21" using assms by (simp add: word_less_nat_alt)
  have drop: "unat (drop_bit k c) < 2 ^ j" if "unat c < 2 ^ (j + k)" for k j
    using that unfolding unat_drop_bit_eq
    by (simp add: drop_bit_eq_div power_add less_mult_imp_div_less)
  consider (one) "c < 0x80" | (two) "\<not> c < 0x80" "c < 0x800" | (three) "\<not> c < 0x800" "c < 0x10000"
    | (four) "\<not> c < 0x10000"
    by blast
  then show ?thesis
  proof cases
    case one
    then show ?thesis using lead_1 [OF one]
      by (simp add: utf8_codepoint_def utf8_bytes_def byte_at_def Let_def)
  next
    case two
    have "unat (drop_bit 6 c) < 2 ^ 5" using two by (intro drop) (simp add: word_less_nat_alt)
    note l = lead_2 [OF this]
    have b: "utf8_bytes c = [ucast (0xC0 OR drop_bit 6 c), ucast (0x80 OR (c AND 0x3F))]"
      using two by (simp add: utf8_bytes_def)
    show ?thesis
      unfolding utf8_codepoint_def b Let_def byte_at_def using l continuation_byte [of c] join_2 [of c]
      by simp
  next
    case three
    then have "\<not> c < 0x80" by (auto simp: word_less_nat_alt)
    have "unat (drop_bit 12 c) < 2 ^ 4" using three by (intro drop) (simp add: word_less_nat_alt)
    note l = lead_3 [OF this]
    have b: "utf8_bytes c = [ucast (0xE0 OR drop_bit 12 c), ucast (0x80 OR (drop_bit 6 c AND 0x3F)),
        ucast (0x80 OR (c AND 0x3F))]"
      using three \<open>\<not> c < 0x80\<close> by (simp add: utf8_bytes_def)
    show ?thesis
      unfolding utf8_codepoint_def b Let_def byte_at_def
      using l continuation_byte [of c] continuation_byte [of "drop_bit 6 c"] join_3 [of c]
      by simp
  next
    case four
    then have "\<not> c < 0x80" "\<not> c < 0x800" by (auto simp: word_less_nat_alt)
    have "unat (drop_bit 18 c) < 2 ^ 3" using c by (intro drop) simp
    note l = lead_4 [OF this]
    have b: "utf8_bytes c = [ucast (0xF0 OR drop_bit 18 c), ucast (0x80 OR (drop_bit 12 c AND 0x3F)),
        ucast (0x80 OR (drop_bit 6 c AND 0x3F)), ucast (0x80 OR (c AND 0x3F))]"
      using four \<open>\<not> c < 0x80\<close> \<open>\<not> c < 0x800\<close> by (simp add: utf8_bytes_def)
    show ?thesis
      unfolding utf8_codepoint_def b Let_def byte_at_def
      using l continuation_byte [of c] continuation_byte [of "drop_bit 6 c"]
        continuation_byte [of "drop_bit 12 c"] join_4 [of c]
      by simp
  qed
qed

lemma utf8_bytes_no_nul:
  fixes c :: u32
  assumes "c \<noteq> 0"
  shows "0 \<notin> set (utf8_bytes c)"
proof -
  have "bit (ucast (0xC0 OR x) :: u8) 7" "bit (ucast (0x80 OR x) :: u8) 7" "bit (ucast (0xE0 OR x) :: u8) 7"
    "bit (ucast (0xF0 OR x) :: u8) 7" for x :: u32
    by (simp_all add: bit_simps)
  then have "ucast (0xC0 OR x) \<noteq> (0 :: u8)" "ucast (0x80 OR x) \<noteq> (0 :: u8)" "ucast (0xE0 OR x) \<noteq> (0 :: u8)"
    "ucast (0xF0 OR x) \<noteq> (0 :: u8)" for x :: u32
    by (metis bit_0_eq bot_apply bot_bool_def)+
  moreover have "(ucast c :: u8) \<noteq> 0" if "c < 0x80"
    using lead_1(2) [OF that] assms by auto
  ultimately show ?thesis unfolding utf8_bytes_def by (auto simp: eq_commute [of "0 :: u8"])
qed

section \<open>Surrogate pairs\<close>

lemma unat_up: "unat (ucast u :: u32) = unat u" for u :: u16
proof -
  have "unat u < 2 ^ 32" using unsigned_less [of u, where ?'a = nat] by simp
  then show ?thesis by (simp add: unsigned_ucast_eq take_bit_nat_eq_self)
qed

lemma ucast_back: "ucast (ucast u :: u32) = u" for u :: u16
  by (rule bit_word_eqI) (simp add: bit_simps)

lemma low_ten_bits:
  fixes x :: u32
  assumes "unat x < 2 ^ 10"
  shows "x AND 0x3FF = x"
proof -
  have "(0x3FF :: u32) = mask 10" by (simp add: mask_eq_exp_minus_1)
  moreover have "x AND mask 10 = x"
    using bit_less [OF assms] by (intro bit_word_eqI) (auto simp: bit_simps)
  ultimately show ?thesis by simp
qed

lemma or_is_plus:
  fixes x :: u32
  assumes "unat x < 2 ^ 10"
  shows "0xD800 OR x = 0xD800 + x" and "0xDC00 OR x = 0xDC00 + x"
proof -
  have low: "k AND x = (k AND 0x3FF) AND x" for k :: u32
    using low_ten_bits [OF assms] by (metis and.assoc and.commute)
  have "0xD800 AND x = 0" "0xDC00 AND x = 0" using low [of "0xD800"] low [of "0xDC00"] by simp_all
  then show "0xD800 OR x = 0xD800 + x" and "0xDC00 OR x = 0xDC00 + x"
    by (simp_all add: disjunctive_add_eq_or)
qed

lemma surrogate_halves:
  assumes "high_surrogate u" and "low_surrogate v"
  obtains x y :: u32 where "unat x < 2 ^ 10" "unat y < 2 ^ 10" "surrogate_pair u v = 0x10000 + (push_bit 10 x OR y)"
    "ucast (0xD800 OR x) = u" "ucast (0xDC00 OR y) = v"
proof -
  let ?x = "ucast u - 0xD800 :: u32" and ?y = "ucast v - 0xDC00 :: u32"
  have "0xD800 \<le> (ucast u :: u32)" "0xDC00 \<le> (ucast v :: u32)"
    using assms by (simp_all add: high_surrogate_def low_surrogate_def word_le_nat_alt unat_up)
  then have "unat ?x = unat u - 0xD800" "unat ?y = unat v - 0xDC00"
    by (simp_all add: unat_sub unat_up)
  then have x: "unat ?x < 2 ^ 10" and y: "unat ?y < 2 ^ 10"
    using assms by (auto simp: high_surrogate_def low_surrogate_def word_le_nat_alt)
  have "push_bit 10 ?x AND ?y = 0"
    using bit_less [OF y] by (intro bit_word_eqI) (fastforce simp: bit_simps)
  then have "push_bit 10 ?x + ?y = (push_bit 10 ?x OR ?y)" by (rule disjunctive_add_eq_or)
  then have "surrogate_pair u v = 0x10000 + (push_bit 10 ?x OR ?y)"
    by (simp only: surrogate_pair_def add.assoc)
  moreover have "ucast (0xD800 OR ?x) = u"
    by (simp only: or_is_plus(1) [OF x]) (simp add: ucast_back)
  moreover have "ucast (0xDC00 OR ?y) = v"
    by (simp only: or_is_plus(2) [OF y]) (simp add: ucast_back)
  ultimately show thesis using that x y by blast
qed

lemma surrogate_pair_decoded:
  assumes "high_surrogate u" and "low_surrogate v"
  shows "surrogate_pair u v < 0x110000" and "surrogate_pair u v \<noteq> 0"
    and "utf16_units (surrogate_pair u v) = [u, v]"
proof -
  obtain x y :: u32 where x: "unat x < 2 ^ 10" and y: "unat y < 2 ^ 10"
    and p: "surrogate_pair u v = 0x10000 + (push_bit 10 x OR y)"
    and halves: "ucast (0xD800 OR x) = u" "ucast (0xDC00 OR y) = v"
    using surrogate_halves [OF assms] .
  let ?d = "push_bit 10 x OR y"
  have d: "unat ?d < 2 ^ 20"
  proof -
    have "?d = take_bit 20 ?d"
      using bit_less [OF x] bit_less [OF y] by (intro bit_word_eqI) (fastforce simp: bit_simps)
    then have "unat ?d = take_bit 20 (unat ?d)" by (metis unsigned_take_bit_eq)
    then show ?thesis by (metis take_bit_nat_less_exp)
  qed
  have sum: "unat (0x10000 + ?d) = 0x10000 + unat ?d"
    using d by (subst unat_add_lem [THEN iffD1]) simp_all
  show "surrogate_pair u v < 0x110000" using d sum by (simp add: p word_less_nat_alt)
  show "surrogate_pair u v \<noteq> 0" using sum unfolding p by (metis add_is_0 unat_0 zero_neq_numeral)
  have big: "\<not> surrogate_pair u v \<le> 0xFFFF" using sum by (simp add: p word_le_nat_alt)
  have "drop_bit 10 ?d = x"
    using bit_less [OF x] bit_less [OF y] by (intro bit_word_eqI) (fastforce simp: bit_simps)
  moreover have "?d AND 0x3FF = y"
  proof -
    have "push_bit 10 x AND mask 10 = 0" by (intro bit_word_eqI) (auto simp: bit_simps)
    then have "push_bit 10 x AND 0x3FF = 0" by (simp add: mask_eq_exp_minus_1)
    then show ?thesis by (simp add: bit.conj_disj_distrib2 low_ten_bits [OF y])
  qed
  ultimately show "utf16_units (surrogate_pair u v) = [u, v]"
    using big halves by (simp add: utf16_units_def Let_def p)
qed

section \<open>Round trips\<close>

lemma fill_utf16_bytes:
  fixes c :: u32
  assumes "c < 0x110000"
  shows "asm2_fill_utf16 (utf8_bytes c @ s) = utf16_units c @ asm2_fill_utf16 s"
proof -
  have "utf8_bytes c \<noteq> []" using utf8_bytes_length [of c] by auto
  then show ?thesis by (subst asm2_fill_utf16.simps) (simp add: utf8_decode [OF assms])
qed

lemma unit_decoded: "ucast u < (0x110000 :: u32)" "utf16_units (ucast u) = [u]" for u :: u16
proof -
  have "unat u < 2 ^ 16" using unsigned_less [of u, where ?'a = nat] by simp
  then have "unat (ucast u :: u32) \<le> 0xFFFF" by (simp add: unat_up)
  then show "ucast u < (0x110000 :: u32)" "utf16_units (ucast u) = [u]"
    by (simp_all add: utf16_units_def word_le_nat_alt word_less_nat_alt ucast_back)
qed

lemma utf16_round_trip: "asm2_fill_utf16 (asm2_utf16_to_utf8 us) = us"
proof (induction us rule: asm2_utf16_to_utf8.induct)
  case 1
  then show ?case by (simp add: asm2_fill_utf16.simps)
next
  case (2 u)
  show ?case using fill_utf16_bytes [of "ucast u" "[]"]
    by (simp add: unit_decoded asm2_fill_utf16.simps [of "[]"])
next
  case (3 u v us)
  then show ?case
    by (auto simp: fill_utf16_bytes unit_decoded surrogate_pair_decoded)
qed

lemma utf8_of_units_no_nul: "0 \<notin> set us \<Longrightarrow> 0 \<notin> set (asm2_utf16_to_utf8 us)"
proof (induction us rule: asm2_utf16_to_utf8.induct)
  case (2 u)
  then have "(ucast u :: u32) \<noteq> 0" using ucast_back [of u] by auto
  then show ?case using utf8_bytes_no_nul by simp
next
  case (3 u v us)
  then have "(ucast u :: u32) \<noteq> 0" using ucast_back [of u] by auto
  with 3 show ?case using utf8_bytes_no_nul surrogate_pair_decoded(2) by auto
qed simp

text \<open>A text made of the encodings of code points that are not surrogates is read back from its units.\<close>

definition scalar_value :: "u32 \<Rightarrow> bool" where
  "scalar_value c \<longleftrightarrow> c < 0x110000 \<and> \<not> (0xD800 \<le> c \<and> c \<le> 0xDFFF)"

lemma units_of_large:
  fixes c :: u32
  assumes "c < 0x110000" and "\<not> c \<le> 0xFFFF"
  obtains u v where "utf16_units c = [u, v]" "high_surrogate u" "low_surrogate v" "surrogate_pair u v = c"
proof -
  let ?d = "c - 0x10000" let ?x = "drop_bit 10 ?d" and ?y = "?d AND 0x3FF"
  have "unat ?d = unat c - 0x10000"
    using assms(2) by (simp add: unat_sub word_le_nat_alt)
  then have d: "unat ?d < 2 ^ 20" using assms by (simp add: word_less_nat_alt word_le_nat_alt)
  have x: "unat ?x < 2 ^ 10"
    using d unfolding unat_drop_bit_eq by (simp add: drop_bit_eq_div less_mult_imp_div_less)
  have y: "unat ?y < 2 ^ 10"
    using word_and_le1 [of ?d "0x3FF"] by (simp add: word_le_nat_alt)
  have sx: "unat (0xD800 + ?x) = 0xD800 + unat ?x" and sy: "unat (0xDC00 + ?y) = 0xDC00 + unat ?y"
    using x y by (subst unat_add_lem [THEN iffD1]; simp)+
  let ?u = "ucast (0xD800 OR ?x) :: u16" and ?v = "ucast (0xDC00 OR ?y) :: u16"
  have widen: "unat w < 2 ^ 16 \<Longrightarrow> ucast (ucast w :: u16) = w" for w :: u32
    using bit_less [of w 16] by (intro bit_word_eqI) (fastforce simp: bit_simps)
  have small: "unat w < 2 ^ 16 \<Longrightarrow> unat (ucast w :: u16) = unat w" for w :: u32
    by (simp add: unsigned_ucast_eq take_bit_nat_eq_self)
  have u: "unat ?u = 0xD800 + unat ?x" "ucast ?u = 0xD800 + ?x"
    unfolding or_is_plus(1) [OF x] using x sx by (simp_all add: small widen)
  have v: "unat ?v = 0xDC00 + unat ?y" "ucast ?v = 0xDC00 + ?y"
    unfolding or_is_plus(2) [OF y] using y sy by (simp_all add: small widen)
  have "push_bit 10 ?x + ?y = ?d"
  proof -
    have ten: "(0x3FF :: u32) = mask 10" by (simp add: mask_eq_exp_minus_1)
    have "push_bit 10 ?x AND ?y = 0" by (intro bit_word_eqI) (auto simp: bit_simps ten)
    then have "push_bit 10 ?x + ?y = (push_bit 10 ?x OR ?y)" by (rule disjunctive_add_eq_or)
    also have "\<dots> = ?d" by (intro bit_word_eqI) (auto simp: bit_simps ten)
    finally show ?thesis .
  qed
  then have "surrogate_pair ?u ?v = c" by (simp add: surrogate_pair_def u v algebra_simps)
  moreover have "high_surrogate ?u" "low_surrogate ?v"
    using u v x y by (simp_all add: high_surrogate_def low_surrogate_def word_le_nat_alt)
  moreover have "utf16_units c = [?u, ?v]" using assms(2) by (simp add: utf16_units_def Let_def)
  ultimately show thesis using that by blast
qed

lemma utf16_to_utf8_units:
  assumes "scalar_value c"
  shows "asm2_utf16_to_utf8 (utf16_units c @ us) = utf8_bytes c @ asm2_utf16_to_utf8 us"
proof (cases "c \<le> 0xFFFF")
  case True
  let ?u = "ucast c :: u16"
  have c: "unat c < 2 ^ 16" using True by (simp add: word_le_nat_alt)
  have widen: "ucast ?u = c"
    using bit_less [OF c] by (intro bit_word_eqI) (fastforce simp: bit_simps)
  have small: "unat ?u = unat c"
    using c by (simp add: unsigned_ucast_eq take_bit_nat_eq_self)
  have "\<not> high_surrogate ?u"
    using assms small by (auto simp: high_surrogate_def scalar_value_def word_le_nat_alt)
  then have "asm2_utf16_to_utf8 (?u # us) = utf8_bytes (ucast ?u) @ asm2_utf16_to_utf8 us"
    by (cases us) auto
  then show ?thesis using True by (simp add: utf16_units_def widen)
next
  case False
  with assms obtain u v where "utf16_units c = [u, v]" "high_surrogate u" "low_surrogate v" "surrogate_pair u v = c"
    using units_of_large [of c] by (auto simp: scalar_value_def)
  then show ?thesis by simp
qed

lemma utf8_round_trip:
  assumes "list_all scalar_value cs"
  shows "asm2_utf16_to_utf8 (asm2_fill_utf16 (concat (map utf8_bytes cs))) = concat (map utf8_bytes cs)"
  using assms
proof (induction cs)
  case (Cons c cs)
  then have "c < 0x110000" "scalar_value c" by (simp_all add: scalar_value_def)
  with Cons show ?case by (simp add: fill_utf16_bytes utf16_to_utf8_units)
qed (simp add: asm2_fill_utf16.simps)

text \<open>
  A sequence of four bytes above the last code point is not refused, and its first unit is not a high
  surrogate.
\<close>

lemma out_of_range_units:
  "asm2_fill_utf16 [0xF7, 0xBF, 0xBF, 0xBF] = [0xDFBF, 0xDFFF]"
  by code_simp

end
