(* ===== verification/Asm2_JniHandles.thy ===== *)
theory Asm2_JniHandles
  imports Asm2_JniText "HOL-Library.State_Monad"
begin

text \<open>
  The handles of the JNI environment (\<open>src/asm2_127/src/jni_bridge.c\<close>): allocation, the two hash tables,
  interning of classes, objects, strings and member ids, arrays and bundles.

  A handle is an address; the handles live in a map that never loses an entry, as nothing frees a handle.
  A bucket is the list of the addresses its chain holds, newest first: the code only ever pushes at the
  head.  Two streams answer the allocations: the addresses \<open>calloc\<close> gives for handles (0 for none) and,
  for every other block, whether it could be had.  A C string is a byte list without its terminator and
  \<open>None\<close> is \<open>NULL\<close>.  The exception that is pending is kept per thread.
\<close>

unbundle bit_operations_syntax

section \<open>State\<close>

datatype handle_kind =
  Class_handle | Object_handle | String_handle | Method_handle | Field_handle | Array_handle
  | Direct_buffer_handle | Throwable_handle

datatype entry_kind = Bundle_boolean | Bundle_int | Bundle_long | Bundle_object

record jentry =
  je_key :: "bytes option"
  je_kind :: entry_kind
  je_value :: u64

record jhandle =
  jh_kind :: handle_kind
  jh_class :: "bytes option"
  jh_name :: "bytes option"
  jh_signature :: "bytes option"
  jh_text :: "bytes option"
  jh_utf16 :: "u16 list option"
  jh_static :: bool
  jh_has_value :: bool
  jh_value :: u64
  jh_data :: "bytes option"
  jh_address :: u32
  jh_length :: u32
  jh_element_size :: u32
  jh_capacity :: u64
  jh_bundle :: "jentry list"

record jni_native =
  nt_class :: "bytes option"
  nt_name :: "bytes option"
  nt_signature :: "bytes option"
  nt_function :: u32

record jni_stats =
  js_handles :: u64
  js_of_kind :: "handle_kind \<Rightarrow> u64"
  js_array_bytes :: u64
  js_bundle_entries :: u64
  js_longest_handle_bucket :: u32
  js_longest_intern_bucket :: u32

record jni =
  jn_heap :: "u32 \<Rightarrow> jhandle option"
  jn_handles :: "u32 list"
  jn_handle_buckets :: "u32 \<Rightarrow> u32 list"
  jn_intern_buckets :: "u32 \<Rightarrow> u32 list"
  jn_handle_bucket_lengths :: "u32 \<Rightarrow> u32"
  jn_intern_bucket_lengths :: "u32 \<Rightarrow> u32"
  jn_natives :: "jni_native list"
  jn_native_count :: u32
  jn_stats :: jni_stats
  jn_pending :: "nat \<Rightarrow> u32"
  jn_addresses :: "nat \<Rightarrow> u32"
  jn_addresses_taken :: nat
  jn_blocks :: "nat \<Rightarrow> bool"
  jn_blocks_taken :: nat

type_synonym 'a jni_op = "(jni, 'a) state"

abbreviation (input) "NULL \<equiv> 0 :: u32"

definition take_address :: "u32 jni_op" where
  "take_address = State (\<lambda>s.
     (jn_addresses s (jn_addresses_taken s), s\<lparr>jn_addresses_taken := Suc (jn_addresses_taken s)\<rparr>))"

definition take_block :: "bool jni_op" where
  "take_block = State (\<lambda>s. (jn_blocks s (jn_blocks_taken s), s\<lparr>jn_blocks_taken := Suc (jn_blocks_taken s)\<rparr>))"

definition asm2_duplicate :: "bytes option \<Rightarrow> bytes option jni_op" where
  "asm2_duplicate text =
     (case text of
        None \<Rightarrow> State_Monad.return None
      | Some t \<Rightarrow> do { ok \<leftarrow> take_block; State_Monad.return (if ok then Some t else None) })"

text \<open>Two pointers that are both \<open>NULL\<close> are equal, one that is \<open>NULL\<close> equals no string.\<close>

definition asm2_text_equal :: "bytes option \<Rightarrow> bytes option \<Rightarrow> bool" where
  "asm2_text_equal l r \<longleftrightarrow> l = r"

section \<open>Hashes\<close>

definition hash_mix :: "u32 \<Rightarrow> u32" where
  "hash_mix v = (drop_bit 16 v XOR v) * 0x45D9F3B"

definition asm2_handle_bucket :: "u32 \<Rightarrow> u32" where
  "asm2_handle_bucket p =
     (let v = hash_mix (hash_mix (drop_bit 4 p)) in (v XOR drop_bit 16 v) AND 1023)"

fun hash_bytes :: "u32 \<Rightarrow> bytes \<Rightarrow> u32" where
  "hash_bytes h [] = h"
| "hash_bytes h (b # bs) = hash_bytes ((h XOR ucast b) * 16777619) bs"

definition asm2_hash_text :: "u32 \<Rightarrow> bytes option \<Rightarrow> u32" where
  "asm2_hash_text h text =
     (hash_bytes h (case text of None \<Rightarrow> [] | Some t \<Rightarrow> t) XOR 0xFF) * 16777619"

fun kind_code :: "handle_kind \<Rightarrow> u32" where
  "kind_code Class_handle = 0"
| "kind_code Object_handle = 1"
| "kind_code String_handle = 2"
| "kind_code Method_handle = 3"
| "kind_code Field_handle = 4"
| "kind_code Array_handle = 5"
| "kind_code Direct_buffer_handle = 6"
| "kind_code Throwable_handle = 7"

definition asm2_intern_bucket ::
  "handle_kind \<Rightarrow> bytes option \<Rightarrow> bytes option \<Rightarrow> bytes option \<Rightarrow> bytes option \<Rightarrow> bool \<Rightarrow> u32" where
  "asm2_intern_bucket kind class_name name signature text is_static =
     (let h1 = (2166136261 XOR kind_code kind) * 16777619;
          h2 = (h1 XOR of_bool is_static) * 16777619;
          h3 = asm2_hash_text h2 class_name;
          h4 = asm2_hash_text h3 name;
          h5 = asm2_hash_text h4 signature;
          h6 = asm2_hash_text h5 text
      in (h6 XOR drop_bit 16 h6) AND 1023)"

section \<open>Allocation and lookup\<close>

definition blank_handle :: "handle_kind \<Rightarrow> bytes option \<Rightarrow> jhandle" where
  "blank_handle kind class_name =
     \<lparr>jh_kind = kind, jh_class = class_name, jh_name = None, jh_signature = None, jh_text = None,
      jh_utf16 = None, jh_static = False, jh_has_value = False, jh_value = 0, jh_data = None,
      jh_address = 0, jh_length = 0, jh_element_size = 0, jh_capacity = 0, jh_bundle = []\<rparr>"

definition link_handle :: "u32 \<Rightarrow> jhandle \<Rightarrow> jni \<Rightarrow> jni" where
  "link_handle p h s =
     (let b = asm2_handle_bucket p;
          len = jn_handle_bucket_lengths s b + 1;
          st = jn_stats s
      in s\<lparr>jn_heap := (jn_heap s)(p \<mapsto> h),
           jn_handles := p # jn_handles s,
           jn_handle_buckets := (jn_handle_buckets s)(b := p # jn_handle_buckets s b),
           jn_handle_bucket_lengths := (jn_handle_bucket_lengths s)(b := len),
           jn_stats := st\<lparr>js_handles := js_handles st + 1,
                         js_of_kind := (js_of_kind st)(jh_kind h := js_of_kind st (jh_kind h) + 1),
                         js_longest_handle_bucket :=
                           (if len > js_longest_handle_bucket st then len else js_longest_handle_bucket st)\<rparr>\<rparr>)"

definition asm2_allocate_handle :: "handle_kind \<Rightarrow> bytes option \<Rightarrow> u32 jni_op" where
  "asm2_allocate_handle kind class_name = do {
     p \<leftarrow> take_address;
     if p = NULL then State_Monad.return NULL
     else do {
       c \<leftarrow> asm2_duplicate class_name;
       State_Monad.update (link_handle p (blank_handle kind c));
       State_Monad.return p
     }
   }"

definition modify_handle :: "u32 \<Rightarrow> (jhandle \<Rightarrow> jhandle) \<Rightarrow> unit jni_op" where
  "modify_handle p f = State_Monad.update (\<lambda>s. s\<lparr>jn_heap := (jn_heap s)(p := map_option f (jn_heap s p))\<rparr>)"

definition asm2_publish_intern :: "u32 \<Rightarrow> u32 \<Rightarrow> unit jni_op" where
  "asm2_publish_intern p b = State_Monad.update (\<lambda>s.
     let len = jn_intern_bucket_lengths s b + 1; st = jn_stats s in
     s\<lparr>jn_intern_buckets := (jn_intern_buckets s)(b := p # jn_intern_buckets s b),
       jn_intern_bucket_lengths := (jn_intern_bucket_lengths s)(b := len),
       jn_stats := st\<lparr>js_longest_intern_bucket :=
         (if len > js_longest_intern_bucket st then len else js_longest_intern_bucket st)\<rparr>\<rparr>)"

text \<open>The address is looked for in its bucket before anything is read through it.\<close>

definition asm2_find_handle :: "jni \<Rightarrow> u32 \<Rightarrow> jhandle option" where
  "asm2_find_handle s p =
     (case List.find (\<lambda>q. q = p) (jn_handle_buckets s (asm2_handle_bucket p)) of
        None \<Rightarrow> None | Some q \<Rightarrow> jn_heap s q)"

definition asm2_lookup_handle :: "jni \<Rightarrow> u32 \<Rightarrow> jhandle option" where
  "asm2_lookup_handle s p = (if p = NULL then None else asm2_find_handle s p)"

definition looked_up :: "u32 \<Rightarrow> jhandle option jni_op" where
  "looked_up p = do { s \<leftarrow> State_Monad.get; State_Monad.return (asm2_lookup_handle s p) }"

section \<open>Interning\<close>

definition find_interned :: "jni \<Rightarrow> u32 \<Rightarrow> (jhandle \<Rightarrow> bool) \<Rightarrow> u32 option" where
  "find_interned s b fits =
     List.find (\<lambda>q. case jn_heap s q of Some h \<Rightarrow> fits h | None \<Rightarrow> False) (jn_intern_buckets s b)"

definition java_lang_object :: bytes where "java_lang_object = cstr ''java/lang/Object''"

definition class_or_object :: "bytes option \<Rightarrow> bytes" where
  "class_or_object class_name =
     (case class_name of None \<Rightarrow> java_lang_object | Some c \<Rightarrow> if c = [] then java_lang_object else c)"

definition intern_named :: "handle_kind \<Rightarrow> bytes option \<Rightarrow> u32 jni_op" where
  "intern_named kind class_name = do {
     let name = class_or_object class_name;
     let b = asm2_intern_bucket kind (Some name) None None None False;
     s \<leftarrow> State_Monad.get;
     case find_interned s b (\<lambda>h. jh_kind h = kind \<and> asm2_text_equal (jh_class h) (Some name)) of
       Some q \<Rightarrow> State_Monad.return q
     | None \<Rightarrow> do {
         p \<leftarrow> asm2_allocate_handle kind (Some name);
         if p = NULL then State_Monad.return NULL
         else do { asm2_publish_intern p b; State_Monad.return p }
       }
   }"

definition asm2_intern_class :: "bytes option \<Rightarrow> u32 jni_op" where
  "asm2_intern_class class_name = intern_named Class_handle class_name"

definition asm2_intern_object :: "bytes option \<Rightarrow> u32 jni_op" where
  "asm2_intern_object class_name = intern_named Object_handle class_name"

definition asm2_new_object_handle :: "bytes option \<Rightarrow> u32 jni_op" where
  "asm2_new_object_handle class_name = asm2_allocate_handle Object_handle (Some (class_or_object class_name))"

definition class_name_of :: "jhandle option \<Rightarrow> bytes \<Rightarrow> bytes" where
  "class_name_of h other =
     (case h of None \<Rightarrow> other | Some i \<Rightarrow> (case jh_class i of None \<Rightarrow> other | Some c \<Rightarrow> c))"

text \<open>A missing name is stored as the empty one but looked for as \<open>NULL\<close>, as in the code.\<close>

definition text_or_empty :: "bytes option \<Rightarrow> bytes" where
  "text_or_empty t = (case t of None \<Rightarrow> [] | Some x \<Rightarrow> x)"

definition asm2_intern_id ::
  "handle_kind \<Rightarrow> u32 \<Rightarrow> bytes option \<Rightarrow> bytes option \<Rightarrow> bool \<Rightarrow> u32 jni_op" where
  "asm2_intern_id kind class_handle name signature is_static = do {
     s \<leftarrow> State_Monad.get;
     let class_name = class_name_of (asm2_lookup_handle s class_handle) java_lang_object;
     let b = asm2_intern_bucket kind (Some class_name) name signature None is_static;
     case find_interned s b (\<lambda>h. jh_kind h = kind \<and> jh_static h = is_static
         \<and> asm2_text_equal (jh_class h) (Some class_name) \<and> asm2_text_equal (jh_name h) name
         \<and> asm2_text_equal (jh_signature h) signature) of
       Some q \<Rightarrow> State_Monad.return q
     | None \<Rightarrow> do {
         p \<leftarrow> asm2_allocate_handle kind (Some class_name);
         if p = NULL then State_Monad.return NULL
         else do {
           n \<leftarrow> asm2_duplicate (Some (text_or_empty name));
           g \<leftarrow> asm2_duplicate (Some (text_or_empty signature));
           modify_handle p (\<lambda>h. h\<lparr>jh_name := n, jh_signature := g, jh_static := is_static\<rparr>);
           asm2_publish_intern p b;
           State_Monad.return p
         }
       }
   }"

definition java_lang_string :: bytes where "java_lang_string = cstr ''java/lang/String''"

definition asm2_intern_string :: "bytes option \<Rightarrow> u32 jni_op" where
  "asm2_intern_string text0 = do {
     let text = text_or_empty text0;
     let b = asm2_intern_bucket String_handle None None None (Some text) False;
     s \<leftarrow> State_Monad.get;
     case find_interned s b (\<lambda>h. jh_kind h = String_handle \<and> asm2_text_equal (jh_text h) (Some text)) of
       Some q \<Rightarrow> State_Monad.return q
     | None \<Rightarrow> do {
         p \<leftarrow> asm2_allocate_handle String_handle (Some java_lang_string);
         if p = NULL then State_Monad.return NULL
         else do {
           t \<leftarrow> asm2_duplicate (Some text);
           units \<leftarrow> take_block;
           modify_handle p (\<lambda>h. h\<lparr>jh_text := t,
             jh_utf16 := (if units then Some (asm2_fill_utf16 (text_or_empty t)) else None)\<rparr>);
           asm2_publish_intern p b;
           State_Monad.return p
         }
       }
   }"

section \<open>Arrays\<close>

definition set_pending :: "nat \<Rightarrow> u32 \<Rightarrow> unit jni_op" where
  "set_pending t p = State_Monad.update (\<lambda>s. s\<lparr>jn_pending := (jn_pending s)(t := p)\<rparr>)"

definition out_of_memory_error :: bytes where "out_of_memory_error = cstr ''java/lang/OutOfMemoryError''"

text \<open>The data of the array, when it has any: nothing is asked for a length of 0 or a size that overflows.\<close>

definition array_data :: "u32 \<Rightarrow> u32 \<Rightarrow> bytes option jni_op" where
  "array_data len element_size =
     (if len \<noteq> 0 \<and> element_size \<le> 0xFFFFFFFF div len then do {
        ok \<leftarrow> take_block;
        if ok then do {
          State_Monad.update (\<lambda>s. s\<lparr>jn_stats := (jn_stats s)
            \<lparr>js_array_bytes := js_array_bytes (jn_stats s) + ucast (len * element_size)\<rparr>\<rparr>);
          State_Monad.return (Some (replicate (unat (len * element_size)) 0))
        } else State_Monad.return None
      } else State_Monad.return None)"

definition asm2_new_array :: "nat \<Rightarrow> bytes option \<Rightarrow> u32 \<Rightarrow> u32 \<Rightarrow> u32 jni_op" where
  "asm2_new_array t class_name len element_size = do {
     p \<leftarrow> asm2_allocate_handle Array_handle class_name;
     if p = NULL then State_Monad.return NULL
     else do {
       d \<leftarrow> array_data len element_size;
       modify_handle p (\<lambda>h. h\<lparr>jh_length := len, jh_element_size := element_size, jh_data := d\<rparr>);
       (if len \<noteq> 0 \<and> d = None then do {
          e \<leftarrow> asm2_intern_object (Some out_of_memory_error);
          set_pending t e
        } else State_Monad.return ());
       State_Monad.return p
     }
   }"

section \<open>Bundles\<close>

definition asm2_is_bundle :: "jhandle \<Rightarrow> bool" where
  "asm2_is_bundle h \<longleftrightarrow> jh_kind h = Object_handle \<and> asm2_text_equal (jh_class h) (Some (cstr ''android/os/Bundle''))"

definition asm2_bundle_find :: "jhandle option \<Rightarrow> bytes option \<Rightarrow> jentry option" where
  "asm2_bundle_find h key =
     (case h of
        None \<Rightarrow> None
      | Some b \<Rightarrow> if \<not> asm2_is_bundle b \<or> key = None then None
                 else List.find (\<lambda>e. asm2_text_equal (je_key e) key) (jh_bundle b))"

fun replace_value :: "bytes option \<Rightarrow> entry_kind \<Rightarrow> u64 \<Rightarrow> jentry list \<Rightarrow> jentry list" where
  "replace_value key kind v [] = []"
| "replace_value key kind v (e # es) =
     (if asm2_text_equal (je_key e) key then e\<lparr>je_kind := kind, je_value := v\<rparr> # es
      else e # replace_value key kind v es)"

definition count_entries :: "(u64 \<Rightarrow> u64) \<Rightarrow> unit jni_op" where
  "count_entries f = State_Monad.update (\<lambda>s. s\<lparr>jn_stats := (jn_stats s)
     \<lparr>js_bundle_entries := f (js_bundle_entries (jn_stats s))\<rparr>\<rparr>)"

definition asm2_bundle_set :: "u32 \<Rightarrow> bytes option \<Rightarrow> entry_kind \<Rightarrow> u64 \<Rightarrow> bool jni_op" where
  "asm2_bundle_set p key kind v =
     (if key = None \<or> key = Some [] then State_Monad.return False
      else do {
        s \<leftarrow> State_Monad.get;
        case asm2_find_handle s p of
          None \<Rightarrow> State_Monad.return False
        | Some b \<Rightarrow>
            if \<not> asm2_is_bundle b then State_Monad.return False
            else if asm2_bundle_find (Some b) key \<noteq> None then do {
              modify_handle p (\<lambda>h. h\<lparr>jh_bundle := replace_value key kind v (jh_bundle h)\<rparr>);
              State_Monad.return True
            } else do {
              entry \<leftarrow> take_block;
              if \<not> entry then State_Monad.return False
              else do {
                k \<leftarrow> asm2_duplicate key;
                if k = None then State_Monad.return False
                else do {
                  modify_handle p (\<lambda>h. h\<lparr>jh_bundle :=
                    \<lparr>je_key = k, je_kind = kind, je_value = v\<rparr> # jh_bundle h\<rparr>);
                  count_entries (\<lambda>n. n + 1);
                  State_Monad.return True
                }
              }
            }
      })"

definition asm2_bundle_get :: "jni \<Rightarrow> u32 \<Rightarrow> bytes option \<Rightarrow> (entry_kind \<times> u64) option" where
  "asm2_bundle_get s p key =
     map_option (\<lambda>e. (je_kind e, je_value e)) (asm2_bundle_find (asm2_find_handle s p) key)"

definition asm2_bundle_clear :: "u32 \<Rightarrow> unit jni_op" where
  "asm2_bundle_clear p = do {
     s \<leftarrow> State_Monad.get;
     case asm2_find_handle s p of
       None \<Rightarrow> State_Monad.return ()
     | Some b \<Rightarrow>
         if \<not> asm2_is_bundle b then State_Monad.return ()
         else do {
           modify_handle p (\<lambda>h. h\<lparr>jh_bundle := []\<rparr>);
           count_entries (\<lambda>n. if unat n \<le> List.length (jh_bundle b) then 0 else n - of_nat (List.length (jh_bundle b)))
         }
   }"

end
