(* ===== verification/Asm2_JniObjects.thy ===== *)
theory Asm2_JniObjects
  imports Asm2_JniHandles
begin

text \<open>
  The JNI functions that work on handles: classes and members, exceptions, strings, arrays, registered
  natives, direct buffers and the VM interface.  The thread is a parameter where the pending exception is
  involved.  Pointers the guest passes for output are not represented but for their being \<open>NULL\<close>.
\<close>

section \<open>Exceptions\<close>

definition runtime_exception :: bytes where "runtime_exception = cstr ''java/lang/RuntimeException''"

definition asm2_throw :: "nat \<Rightarrow> u32 \<Rightarrow> int jni_op" where
  "asm2_throw t throwable = do {
     e \<leftarrow> (if throwable \<noteq> NULL then State_Monad.return throwable
          else asm2_intern_object (Some (cstr ''java/lang/Throwable'')));
     set_pending t e;
     State_Monad.return 0
   }"

definition asm2_throw_new :: "nat \<Rightarrow> u32 \<Rightarrow> bytes option \<Rightarrow> int jni_op" where
  "asm2_throw_new t class_handle message = do {
     s \<leftarrow> State_Monad.get;
     let class_name = class_name_of (asm2_lookup_handle s class_handle) runtime_exception;
     p \<leftarrow> asm2_allocate_handle Throwable_handle (Some class_name);
     (if p = NULL then State_Monad.return ()
      else do {
        m \<leftarrow> asm2_duplicate (Some (text_or_empty message));
        modify_handle p (\<lambda>h. h\<lparr>jh_text := m\<rparr>)
      });
     set_pending t p;
     State_Monad.return (if p = NULL then -1 else 0)
   }"

definition throw_named :: "nat \<Rightarrow> string \<Rightarrow> string \<Rightarrow> unit jni_op" where
  "throw_named t class_name message = do {
     c \<leftarrow> asm2_intern_class (Some (cstr class_name));
     asm2_throw_new t c (Some (cstr message));
     State_Monad.return ()
   }"

definition asm2_exception_occurred :: "jni \<Rightarrow> nat \<Rightarrow> u32" where
  "asm2_exception_occurred s t = jn_pending s t"

definition asm2_exception_check :: "jni \<Rightarrow> nat \<Rightarrow> bool" where
  "asm2_exception_check s t \<longleftrightarrow> jn_pending s t \<noteq> NULL"

definition asm2_exception_clear :: "nat \<Rightarrow> unit jni_op" where
  "asm2_exception_clear t = set_pending t NULL"

definition asm2_fatal_error :: "nat \<Rightarrow> bytes option \<Rightarrow> unit jni_op" where
  "asm2_fatal_error t message = do {
     c \<leftarrow> asm2_intern_class (Some (cstr ''java/lang/InternalError''));
     asm2_throw_new t c message;
     State_Monad.return ()
   }"

section \<open>The virtual machine\<close>

definition asm2_valid_jni_version :: "int \<Rightarrow> bool" where
  "asm2_valid_jni_version v \<longleftrightarrow> v = 0x00010001 \<or> v = 0x00010002 \<or> v = 0x00010004 \<or> v = 0x00010006"

text \<open>What is stored through \<open>environment\<close> (\<open>None\<close>: nothing; the environment is \<open>env\<close>), and the result.\<close>

definition asm2_vm_get_env :: "u32 \<Rightarrow> bool \<Rightarrow> int \<Rightarrow> u32 option \<times> int" where
  "asm2_vm_get_env env has_output version =
     (if \<not> has_output then (None, -1)
      else if \<not> asm2_valid_jni_version version then (Some NULL, -3)
      else (Some env, 0))"

definition asm2_vm_attach :: "u32 \<Rightarrow> bool \<Rightarrow> u32 option \<times> int" where
  "asm2_vm_attach env has_output = (if \<not> has_output then (None, -1) else (Some env, 0))"

definition asm2_vm_detach :: "nat \<Rightarrow> int jni_op" where
  "asm2_vm_detach t = do { set_pending t NULL; State_Monad.return 0 }"

section \<open>Classes and members\<close>

definition asm2_get_superclass :: "u32 \<Rightarrow> u32 jni_op" where
  "asm2_get_superclass class_handle = do {
     c \<leftarrow> looked_up class_handle;
     case c of
       Some h \<Rightarrow> if asm2_text_equal (jh_class h) (Some java_lang_object) then State_Monad.return NULL
                 else asm2_intern_class (Some java_lang_object)
     | None \<Rightarrow> asm2_intern_class (Some java_lang_object)
   }"

definition same_or_object :: "jhandle option \<Rightarrow> jhandle option \<Rightarrow> bool" where
  "same_or_object sub super =
     (case (sub, super) of
        (Some a, Some b) \<Rightarrow> asm2_text_equal (jh_class a) (jh_class b)
          \<or> asm2_text_equal (jh_class b) (Some java_lang_object)
      | _ \<Rightarrow> False)"

definition asm2_is_assignable :: "jni \<Rightarrow> u32 \<Rightarrow> u32 \<Rightarrow> bool" where
  "asm2_is_assignable s subclass superclass =
     same_or_object (asm2_lookup_handle s subclass) (asm2_lookup_handle s superclass)"

definition asm2_is_instance_of :: "jni \<Rightarrow> u32 \<Rightarrow> u32 \<Rightarrow> bool" where
  "asm2_is_instance_of s obj class_handle \<longleftrightarrow>
     obj = NULL \<or> same_or_object (asm2_lookup_handle s obj) (asm2_lookup_handle s class_handle)"

definition asm2_alloc_object :: "u32 \<Rightarrow> u32 jni_op" where
  "asm2_alloc_object class_handle = do {
     c \<leftarrow> looked_up class_handle;
     case c of
       Some h \<Rightarrow> if asm2_text_equal (jh_class h) (Some (cstr ''android/os/Bundle''))
                 then asm2_new_object_handle (Some (cstr ''android/os/Bundle''))
                 else asm2_intern_object (jh_class h)
     | None \<Rightarrow> asm2_intern_object (Some java_lang_object)
   }"

definition asm2_get_object_class :: "u32 \<Rightarrow> u32 jni_op" where
  "asm2_get_object_class obj = do {
     c \<leftarrow> looked_up obj;
     case c of
       None \<Rightarrow> asm2_intern_class (Some java_lang_object)
     | Some h \<Rightarrow> if jh_kind h = Class_handle then asm2_intern_class (Some (cstr ''java/lang/Class''))
                 else asm2_intern_class (jh_class h)
   }"

definition asm2_get_method_id :: "u32 \<Rightarrow> bytes option \<Rightarrow> bytes option \<Rightarrow> u32 jni_op" where
  "asm2_get_method_id c name signature = asm2_intern_id Method_handle c name signature False"

definition asm2_get_static_method_id :: "u32 \<Rightarrow> bytes option \<Rightarrow> bytes option \<Rightarrow> u32 jni_op" where
  "asm2_get_static_method_id c name signature = asm2_intern_id Method_handle c name signature True"

definition asm2_get_field_id :: "u32 \<Rightarrow> bytes option \<Rightarrow> bytes option \<Rightarrow> u32 jni_op" where
  "asm2_get_field_id c name signature = asm2_intern_id Field_handle c name signature False"

definition asm2_get_static_field_id :: "u32 \<Rightarrow> bytes option \<Rightarrow> bytes option \<Rightarrow> u32 jni_op" where
  "asm2_get_static_field_id c name signature = asm2_intern_id Field_handle c name signature True"

section \<open>Strings\<close>

definition string_handle :: "jni \<Rightarrow> u32 \<Rightarrow> jhandle option" where
  "string_handle s p =
     (case asm2_lookup_handle s p of
        Some h \<Rightarrow> if jh_kind h = String_handle then Some h else None
      | None \<Rightarrow> None)"

definition asm2_jni_string_chars :: "jni \<Rightarrow> u32 \<Rightarrow> bytes option" where
  "asm2_jni_string_chars s p = (case string_handle s p of Some h \<Rightarrow> jh_text h | None \<Rightarrow> None)"

text \<open>\<open>NewString\<close> is given the units and \<open>length\<close> says how many; the text ends at the first 0.\<close>

definition asm2_new_string :: "nat \<Rightarrow> u16 list option \<Rightarrow> int \<Rightarrow> u32 jni_op" where
  "asm2_new_string t units len =
     (if len < 0 \<or> (units = None \<and> len \<noteq> 0) then do {
        throw_named t ''java/lang/IllegalArgumentException'' ''invalid NewString input'';
        State_Monad.return NULL
      } else do {
        ok \<leftarrow> take_block;
        if \<not> ok then State_Monad.return NULL
        else asm2_intern_string
          (Some (takeWhile (\<lambda>b. b \<noteq> 0)
             (asm2_utf16_to_utf8 (take (nat len) (case units of None \<Rightarrow> [] | Some us \<Rightarrow> us)))))
      })"

definition asm2_new_string_utf :: "bytes option \<Rightarrow> u32 jni_op" where
  "asm2_new_string_utf text = asm2_intern_string (Some (text_or_empty text))"

definition string_units :: "jhandle \<Rightarrow> u16 list" where
  "string_units h = (case jh_utf16 h of None \<Rightarrow> [] | Some us \<Rightarrow> us)"

definition asm2_get_string_length :: "jni \<Rightarrow> u32 \<Rightarrow> nat" where
  "asm2_get_string_length s p =
     (case string_handle s p of Some h \<Rightarrow> List.length (string_units h) | None \<Rightarrow> 0)"

definition asm2_get_string_chars :: "jni \<Rightarrow> u32 \<Rightarrow> u16 list option" where
  "asm2_get_string_chars s p = (case string_handle s p of Some h \<Rightarrow> jh_utf16 h | None \<Rightarrow> None)"

definition asm2_get_string_utf_length :: "jni \<Rightarrow> u32 \<Rightarrow> nat" where
  "asm2_get_string_utf_length s p =
     (case asm2_jni_string_chars s p of Some text \<Rightarrow> List.length text | None \<Rightarrow> 0)"

text \<open>The test of a region, on the sizes as the code converts them.\<close>

definition region_refused :: "int \<Rightarrow> int \<Rightarrow> nat \<Rightarrow> bool" where
  "region_refused start len limit \<longleftrightarrow>
     start < 0 \<or> len < 0 \<or> nat start > limit \<or> nat len > limit - nat start"

definition asm2_get_string_region :: "nat \<Rightarrow> u32 \<Rightarrow> int \<Rightarrow> int \<Rightarrow> bool \<Rightarrow> u16 list option jni_op" where
  "asm2_get_string_region t p start len has_output = do {
     s \<leftarrow> State_Monad.get;
     case string_handle s p of
       Some h \<Rightarrow>
         if region_refused start len (List.length (string_units h)) \<or> \<not> has_output then do {
           throw_named t ''java/lang/StringIndexOutOfBoundsException'' ''GetStringRegion'';
           State_Monad.return None
         } else State_Monad.return (Some (take (nat len) (drop (nat start) (string_units h))))
     | None \<Rightarrow> do {
         throw_named t ''java/lang/StringIndexOutOfBoundsException'' ''GetStringRegion'';
         State_Monad.return None
       }
   }"

definition asm2_get_string_utf_region :: "nat \<Rightarrow> u32 \<Rightarrow> int \<Rightarrow> int \<Rightarrow> bool \<Rightarrow> bytes option jni_op" where
  "asm2_get_string_utf_region t p start len has_output = do {
     s \<leftarrow> State_Monad.get;
     case string_handle s p of
       Some h \<Rightarrow>
         if region_refused start len (List.length (string_units h)) \<or> \<not> has_output then do {
           throw_named t ''java/lang/StringIndexOutOfBoundsException'' ''GetStringUTFRegion'';
           State_Monad.return None
         } else do {
           ok \<leftarrow> take_block;
           State_Monad.return
             (if ok then Some (takeWhile (\<lambda>b. b \<noteq> 0)
                           (asm2_utf16_to_utf8 (take (nat len) (drop (nat start) (string_units h)))))
              else None)
         }
     | None \<Rightarrow> do {
         throw_named t ''java/lang/StringIndexOutOfBoundsException'' ''GetStringUTFRegion'';
         State_Monad.return None
       }
   }"

section \<open>Arrays\<close>

text \<open>What a copy from or to an array does: an exception, or the bytes, or an access through \<open>NULL\<close>.\<close>

datatype 'a access = Refused | Done 'a | Through_NULL

definition array_handle :: "jni \<Rightarrow> u32 \<Rightarrow> jhandle option" where
  "array_handle s p =
     (case asm2_lookup_handle s p of
        Some h \<Rightarrow> if jh_kind h = Array_handle then Some h else None
      | None \<Rightarrow> None)"

definition index_error :: "nat \<Rightarrow> string \<Rightarrow> unit jni_op" where
  "index_error t message = throw_named t ''java/lang/ArrayIndexOutOfBoundsException'' message"

definition asm2_get_array_length :: "jni \<Rightarrow> u32 \<Rightarrow> u32" where
  "asm2_get_array_length s p = (case array_handle s p of Some h \<Rightarrow> jh_length h | None \<Rightarrow> 0)"

definition asm2_new_primitive_array :: "nat \<Rightarrow> string \<Rightarrow> u32 \<Rightarrow> int \<Rightarrow> u32 jni_op" where
  "asm2_new_primitive_array t descriptor element_size len =
     (if len < 0 then State_Monad.return NULL
      else asm2_new_array t (Some (cstr descriptor)) (of_int len) element_size)"

text \<open>\<open>snprintf\<close> into 512 bytes keeps 511 of them.\<close>

definition object_array_descriptor :: "bytes \<Rightarrow> bytes" where
  "object_array_descriptor component = take 511 (cstr ''[L'' @ component @ cstr '';'')"

definition asm2_new_object_array :: "nat \<Rightarrow> int \<Rightarrow> u32 \<Rightarrow> u32 \<Rightarrow> u32 jni_op" where
  "asm2_new_object_array t len class_handle initial =
     (if len < 0 then State_Monad.return NULL
      else do {
        s \<leftarrow> State_Monad.get;
        let component = class_name_of (asm2_lookup_handle s class_handle) java_lang_object;
        p \<leftarrow> asm2_new_array t (Some (object_array_descriptor component)) (of_int len) 4;
        (if p \<noteq> NULL \<and> initial \<noteq> NULL
         then modify_handle p (\<lambda>h. h\<lparr>jh_data :=
                map_option (\<lambda>_. concat (replicate (nat len) (put_le32 initial))) (jh_data h)\<rparr>)
         else State_Monad.return ());
        State_Monad.return p
      })"

definition asm2_array_index :: "jhandle option \<Rightarrow> int \<Rightarrow> bool" where
  "asm2_array_index a index =
     (case a of Some h \<Rightarrow> jh_kind h = Array_handle \<and> 0 \<le> index \<and> nat index < unat (jh_length h) | None \<Rightarrow> False)"

definition element_refused :: "jhandle option \<Rightarrow> int \<Rightarrow> bool" where
  "element_refused a index \<longleftrightarrow>
     \<not> asm2_array_index a index \<or> (case a of Some h \<Rightarrow> jh_element_size h \<noteq> 4 | None \<Rightarrow> True)"

definition asm2_get_object_array_element :: "nat \<Rightarrow> u32 \<Rightarrow> int \<Rightarrow> u32 access jni_op" where
  "asm2_get_object_array_element t p index = do {
     a \<leftarrow> looked_up p;
     (if element_refused a index then do {
        index_error t ''GetObjectArrayElement'';
        State_Monad.return Refused
      } else State_Monad.return
        (case a of
           None \<Rightarrow> Refused
         | Some h \<Rightarrow>
           (case jh_data h of
              None \<Rightarrow> Through_NULL
            | Some d \<Rightarrow> let i = 4 * nat index in
                Done (get_le32 (d ! i) (d ! (i + 1)) (d ! (i + 2)) (d ! (i + 3))))))
   }"

definition overwrite :: "nat \<Rightarrow> bytes \<Rightarrow> bytes \<Rightarrow> bytes" where
  "overwrite i new d = take i d @ new @ drop (i + List.length new) d"

definition asm2_set_object_array_element :: "nat \<Rightarrow> u32 \<Rightarrow> int \<Rightarrow> u32 \<Rightarrow> unit access jni_op" where
  "asm2_set_object_array_element t p index v = do {
     a \<leftarrow> looked_up p;
     (if element_refused a index then do {
        index_error t ''SetObjectArrayElement'';
        State_Monad.return Refused
      } else case a of
        None \<Rightarrow> State_Monad.return Refused
      | Some h \<Rightarrow>
        (case jh_data h of
           None \<Rightarrow> State_Monad.return Through_NULL
         | Some d \<Rightarrow> do {
             modify_handle p (\<lambda>h. h\<lparr>jh_data := Some (overwrite (4 * nat index) (put_le32 v) d)\<rparr>);
             State_Monad.return (Done ())
           }))
   }"

text \<open>The pairs of functions for the eight primitive types differ in the size of the element only.\<close>

definition array_region_refused :: "jhandle option \<Rightarrow> int \<Rightarrow> int \<Rightarrow> u32 \<Rightarrow> bool \<Rightarrow> bool" where
  "array_region_refused a start len element_size has_buffer =
     (case a of
        None \<Rightarrow> True
      | Some h \<Rightarrow> jh_kind h \<noteq> Array_handle \<or> region_refused start len (unat (jh_length h))
          \<or> \<not> has_buffer \<or> jh_element_size h \<noteq> element_size)"

definition asm2_get_array_region :: "nat \<Rightarrow> u32 \<Rightarrow> u32 \<Rightarrow> int \<Rightarrow> int \<Rightarrow> bool \<Rightarrow> bytes access jni_op" where
  "asm2_get_array_region t element_size p start len has_output = do {
     a \<leftarrow> looked_up p;
     (if array_region_refused a start len element_size has_output then do {
        index_error t ''GetArrayRegion'';
        State_Monad.return Refused
      } else State_Monad.return
        (case a of
           None \<Rightarrow> Refused
         | Some h \<Rightarrow>
           (case jh_data h of
              None \<Rightarrow> if len = 0 then Done [] else Through_NULL
            | Some d \<Rightarrow> Done (take (nat len * unat element_size) (drop (nat start * unat element_size) d)))))
   }"

text \<open>\<open>input\<close> holds \<open>length\<close> elements; \<open>None\<close> is \<open>NULL\<close>.\<close>

definition asm2_set_array_region :: "nat \<Rightarrow> u32 \<Rightarrow> u32 \<Rightarrow> int \<Rightarrow> int \<Rightarrow> bytes option \<Rightarrow> unit access jni_op" where
  "asm2_set_array_region t element_size p start len input = do {
     a \<leftarrow> looked_up p;
     (if array_region_refused a start len element_size (input \<noteq> None) then do {
        index_error t ''SetArrayRegion'';
        State_Monad.return Refused
      } else case (a, input) of
        (Some h, Some bs) \<Rightarrow>
          (case jh_data h of
             None \<Rightarrow> State_Monad.return (if len = 0 then Done () else Through_NULL)
           | Some d \<Rightarrow> do {
               modify_handle p (\<lambda>h. h\<lparr>jh_data :=
                 Some (overwrite (nat start * unat element_size) (take (nat len * unat element_size) bs) d)\<rparr>);
               State_Monad.return (Done ())
             })
      | _ \<Rightarrow> State_Monad.return Refused)
   }"

definition asm2_get_array_elements :: "jni \<Rightarrow> u32 \<Rightarrow> u32 \<Rightarrow> bytes option" where
  "asm2_get_array_elements s element_size p =
     (case array_handle s p of
        Some h \<Rightarrow> if jh_element_size h = element_size then jh_data h else None
      | None \<Rightarrow> None)"

definition asm2_get_primitive_array_critical :: "jni \<Rightarrow> u32 \<Rightarrow> bytes option" where
  "asm2_get_primitive_array_critical s p = (case array_handle s p of Some h \<Rightarrow> jh_data h | None \<Rightarrow> None)"

section \<open>Direct buffers\<close>

definition asm2_new_direct_byte_buffer :: "u32 \<Rightarrow> int \<Rightarrow> u32 jni_op" where
  "asm2_new_direct_byte_buffer address capacity =
     (if address = NULL \<or> capacity < 0 then State_Monad.return NULL
      else do {
        p \<leftarrow> asm2_allocate_handle Direct_buffer_handle (Some (cstr ''java/nio/DirectByteBuffer''));
        (if p = NULL then State_Monad.return ()
         else modify_handle p (\<lambda>h. h\<lparr>jh_address := address, jh_capacity := of_int capacity\<rparr>));
        State_Monad.return p
      })"

definition direct_buffer :: "jni \<Rightarrow> u32 \<Rightarrow> jhandle option" where
  "direct_buffer s p =
     (case asm2_lookup_handle s p of
        Some h \<Rightarrow> if jh_kind h = Direct_buffer_handle then Some h else None
      | None \<Rightarrow> None)"

definition asm2_get_direct_buffer_address :: "jni \<Rightarrow> u32 \<Rightarrow> u32" where
  "asm2_get_direct_buffer_address s p = (case direct_buffer s p of Some h \<Rightarrow> jh_address h | None \<Rightarrow> NULL)"

definition asm2_get_direct_buffer_capacity :: "jni \<Rightarrow> u32 \<Rightarrow> int" where
  "asm2_get_direct_buffer_capacity s p = (case direct_buffer s p of Some h \<Rightarrow> sint (jh_capacity h) | None \<Rightarrow> -1)"

section \<open>Registered natives\<close>

definition native_is :: "bytes option \<Rightarrow> bytes option \<Rightarrow> bytes option \<Rightarrow> jni_native \<Rightarrow> bool" where
  "native_is c name signature n \<longleftrightarrow>
     asm2_text_equal (nt_class n) c \<and> asm2_text_equal (nt_name n) name \<and> asm2_text_equal (nt_signature n) signature"

fun set_function :: "(jni_native \<Rightarrow> bool) \<Rightarrow> u32 \<Rightarrow> jni_native list \<Rightarrow> jni_native list" where
  "set_function this f [] = []"
| "set_function this f (n # ns) = (if this n then n\<lparr>nt_function := f\<rparr> # ns else n # set_function this f ns)"

text \<open>One method: its record is found or made, given the function, and counted.  False: no memory.\<close>

definition count_native :: "bool \<Rightarrow> u32 \<Rightarrow> u32 \<Rightarrow> u32" where
  "count_native was_active f n =
     (if \<not> was_active \<and> f \<noteq> 0 then n + 1 else if was_active \<and> f = 0 \<and> n \<noteq> 0 then n - 1 else n)"

definition register_one :: "bytes option \<Rightarrow> bytes option \<times> bytes option \<times> u32 \<Rightarrow> bool jni_op" where
  "register_one c m =
     (case m of (name0, signature0, f) \<Rightarrow> do {
        let name = Some (text_or_empty name0);
        let signature = Some (text_or_empty signature0);
        s \<leftarrow> State_Monad.get;
        case List.find (native_is c name signature) (jn_natives s) of
          Some n \<Rightarrow> do {
            State_Monad.update (\<lambda>s. s\<lparr>jn_natives := set_function (native_is c name signature) f (jn_natives s),
                                jn_native_count := count_native (nt_function n \<noteq> 0) f (jn_native_count s)\<rparr>);
            State_Monad.return True
          }
        | None \<Rightarrow> do {
            ok \<leftarrow> take_block;
            if \<not> ok then State_Monad.return False
            else do {
              c1 \<leftarrow> asm2_duplicate c;
              n1 \<leftarrow> asm2_duplicate name;
              g1 \<leftarrow> asm2_duplicate signature;
              State_Monad.update (\<lambda>s. s\<lparr>jn_natives :=
                  \<lparr>nt_class = c1, nt_name = n1, nt_signature = g1, nt_function = f\<rparr> # jn_natives s,
                jn_native_count := count_native False f (jn_native_count s)\<rparr>);
              State_Monad.return True
            }
          }
      })"

fun register_all :: "bytes option \<Rightarrow> (bytes option \<times> bytes option \<times> u32) list \<Rightarrow> int jni_op" where
  "register_all c [] = State_Monad.return 0"
| "register_all c (m # ms) = do {
     ok \<leftarrow> register_one c m;
     if \<not> ok then State_Monad.return (-1) else register_all c ms
   }"

text \<open>The client's \<open>native_callback\<close> is told of every method; it has no effect on this component.\<close>

definition asm2_register_natives ::
  "u32 \<Rightarrow> (bytes option \<times> bytes option \<times> u32) list option \<Rightarrow> int \<Rightarrow> int jni_op" where
  "asm2_register_natives class_handle methods method_count = do {
     c \<leftarrow> looked_up class_handle;
     case (c, methods) of
       (Some h, Some ms) \<Rightarrow>
         if method_count < 0 then State_Monad.return (-1)
         else register_all (jh_class h) (take (nat method_count) ms)
     | _ \<Rightarrow> State_Monad.return (-1)
   }"

fun unregister_all :: "bytes option \<Rightarrow> jni_native list \<Rightarrow> u32 \<Rightarrow> jni_native list \<times> u32" where
  "unregister_all c [] n = ([], n)"
| "unregister_all c (x # xs) n =
     (if nt_function x \<noteq> 0 \<and> asm2_text_equal (nt_class x) c then
        (case unregister_all c xs (if n \<noteq> 0 then n - 1 else n) of (ys, k) \<Rightarrow> (x\<lparr>nt_function := 0\<rparr> # ys, k))
      else (case unregister_all c xs n of (ys, k) \<Rightarrow> (x # ys, k)))"

definition asm2_unregister_natives :: "u32 \<Rightarrow> int jni_op" where
  "asm2_unregister_natives class_handle = do {
     c \<leftarrow> looked_up class_handle;
     case c of
       None \<Rightarrow> State_Monad.return (-1)
     | Some h \<Rightarrow> do {
         State_Monad.update (\<lambda>s. case unregister_all (jh_class h) (jn_natives s) (jn_native_count s) of
           (ns, k) \<Rightarrow> s\<lparr>jn_natives := ns, jn_native_count := k\<rparr>);
         State_Monad.return 0
       }
   }"

definition asm2_jni_find_registered_native :: "jni \<Rightarrow> bytes option \<Rightarrow> bytes option \<Rightarrow> bytes option \<Rightarrow> u32" where
  "asm2_jni_find_registered_native s c name signature =
     (case List.find (\<lambda>n. nt_function n \<noteq> 0 \<and> native_is c name signature n) (jn_natives s) of
        Some n \<Rightarrow> nt_function n | None \<Rightarrow> 0)"

section \<open>Handles for the host\<close>

definition asm2_jni_bundle :: "u32 jni_op" where
  "asm2_jni_bundle = asm2_new_object_handle (Some (cstr ''android/os/Bundle''))"

definition asm2_jni_activity :: "u32 jni_op" where
  "asm2_jni_activity = asm2_intern_object (Some (cstr ''com/gameloft/glf/GL2JNIActivity''))"

definition asm2_jni_int_array :: "nat \<Rightarrow> u32 list option \<Rightarrow> u32 \<Rightarrow> u32 jni_op" where
  "asm2_jni_int_array t values count = do {
     p \<leftarrow> asm2_new_array t (Some (cstr ''[I'')) count 4;
     (case values of
        Some vs \<Rightarrow>
          if p \<noteq> NULL \<and> count \<noteq> 0
          then modify_handle p (\<lambda>h. h\<lparr>jh_data := map_option
                 (overwrite 0 (concat (map put_le32 (take (unat count) vs)))) (jh_data h)\<rparr>)
          else State_Monad.return ()
      | None \<Rightarrow> State_Monad.return ());
     State_Monad.return p
   }"

definition asm2_jni_bundle_put_byte_array :: "nat \<Rightarrow> u32 \<Rightarrow> bytes option \<Rightarrow> bytes option \<Rightarrow> u32 \<Rightarrow> bool jni_op" where
  "asm2_jni_bundle_put_byte_array t bundle_p key content count = do {
     p \<leftarrow> asm2_new_array t (Some (cstr ''[B'')) count 1;
     s \<leftarrow> State_Monad.get;
     if p = NULL \<or> (count \<noteq> 0 \<and> (case jn_heap s p of Some h \<Rightarrow> jh_data h = None | None \<Rightarrow> True))
     then State_Monad.return False
     else do {
       (case content of
          Some bs \<Rightarrow> if count \<noteq> 0
            then modify_handle p (\<lambda>h. h\<lparr>jh_data := map_option (overwrite 0 (take (unat count) bs)) (jh_data h)\<rparr>)
            else State_Monad.return ()
        | None \<Rightarrow> State_Monad.return ());
       asm2_bundle_set bundle_p key Bundle_object (ucast p)
     }
   }"

end
