(* ===== verification/Asm2_JniDispatch.thy ===== *)
theory Asm2_JniDispatch
  imports Asm2_JniObjects
begin

text \<open>
  Method and field dispatch of \<open>jni_bridge.c\<close>: the configuration, what a call answers when the client's
  callback does not handle it, and fields.  A JNI value is the 8 bytes of the union; a member is its low
  bits.  The arguments of a call, given as an array or as a \<open>va_list\<close>, are a list of values (\<open>None\<close>:
  neither was given); one that was not passed reads as 0.  Floating-point members are their bit patterns.
  The client's callbacks are parameters.
\<close>

unbundle bit_operations_syntax

section \<open>Configuration\<close>

record jni_config =
  jc_package_name :: "bytes option"
  jc_external_storage :: "bytes option"
  jc_files_directory :: "bytes option"
  jc_cache_directory :: "bytes option"
  jc_locale_language :: "bytes option"
  jc_locale_country :: "bytes option"
  jc_device_model :: "bytes option"
  jc_device_manufacturer :: "bytes option"
  jc_android_release :: "bytes option"
  jc_sdk_int :: int
  jc_screen_width :: int
  jc_screen_height :: int
  jc_screen_density :: u32

definition asm2_config_text :: "bytes option \<Rightarrow> string \<Rightarrow> bytes" where
  "asm2_config_text v fallback =
     (case v of None \<Rightarrow> cstr fallback | Some t \<Rightarrow> if t = [] then cstr fallback else t)"

text \<open>The value of the bit pattern is at most 0: a zero or a negative number, not a NaN.\<close>

definition float_not_positive :: "u32 \<Rightarrow> bool" where
  "float_not_positive f \<longleftrightarrow> f AND 0x7FFFFFFF = 0 \<or> (bit f 31 \<and> f AND 0x7FFFFFFF \<le> 0x7F800000)"

definition configured :: "bytes option \<Rightarrow> string \<Rightarrow> bytes option jni_op" where
  "configured v fallback = asm2_duplicate (Some (asm2_config_text v fallback))"

text \<open>Handles, tables of handles and natives survive a second call.\<close>

definition asm2_jni_init :: "nat \<Rightarrow> jni_config \<Rightarrow> jni_config jni_op" where
  "asm2_jni_init t c = do {
     package \<leftarrow> configured (jc_package_name c) ''com.gameloft.android.ANMP.GloftASHM'';
     storage \<leftarrow> configured (jc_external_storage c) ''/sdcard'';
     files \<leftarrow> configured (jc_files_directory c) ''/data/data/com.gameloft.android.ANMP.GloftASHM/files'';
     cache \<leftarrow> configured (jc_cache_directory c) ''/data/data/com.gameloft.android.ANMP.GloftASHM/cache'';
     language \<leftarrow> configured (jc_locale_language c) ''en'';
     country \<leftarrow> configured (jc_locale_country c) ''US'';
     model \<leftarrow> configured (jc_device_model c) ''NextOS ARMv7'';
     manufacturer \<leftarrow> configured (jc_device_manufacturer c) ''NextOS'';
     android \<leftarrow> configured (jc_android_release c) ''8.1'';
     set_pending t NULL;
     State_Monad.return
       \<lparr>jc_package_name = package, jc_external_storage = storage, jc_files_directory = files,
        jc_cache_directory = cache, jc_locale_language = language, jc_locale_country = country,
        jc_device_model = model, jc_device_manufacturer = manufacturer, jc_android_release = android,
        jc_sdk_int = (if jc_sdk_int c \<le> 0 then 27 else jc_sdk_int c),
        jc_screen_width = (if jc_screen_width c \<le> 0 then 1280 else jc_screen_width c),
        jc_screen_height = (if jc_screen_height c \<le> 0 then 720 else jc_screen_height c),
        jc_screen_density = (if float_not_positive (jc_screen_density c) then 0x3F800000 else jc_screen_density c)\<rparr>
   }"

section \<open>The object a signature asks for\<close>

text \<open>The part after the last closing parenthesis.\<close>

fun return_type_of :: "bytes \<Rightarrow> bytes option" where
  "return_type_of [] = None"
| "return_type_of (c # cs) =
     (case return_type_of cs of
        Some r \<Rightarrow> Some r
      | None \<Rightarrow> if c = of_char CHR '')'' then Some cs else None)"

definition descriptor_element_size :: "u8 \<Rightarrow> u32" where
  "descriptor_element_size c =
     (if c = of_char CHR ''Z'' then 1 else if c = of_char CHR ''B'' then 1
      else if c = of_char CHR ''C'' then 2 else if c = of_char CHR ''S'' then 2
      else if c = of_char CHR ''I'' then 4 else if c = of_char CHR ''J'' then 8
      else if c = of_char CHR ''F'' then 4 else if c = of_char CHR ''D'' then 8 else 4)"

definition asm2_return_object_for_signature :: "nat \<Rightarrow> bytes option \<Rightarrow> u32 jni_op" where
  "asm2_return_object_for_signature t signature =
     (case Option.bind signature return_type_of of
        None \<Rightarrow> State_Monad.return NULL
      | Some [] \<Rightarrow> State_Monad.return NULL
      | Some (c # r) \<Rightarrow>
          if c = of_char CHR ''L'' then
            (let name = takeWhile (\<lambda>b. b \<noteq> of_char CHR '';'') r in
             if List.length name = List.length r \<or> name = [] then State_Monad.return NULL
             else do {
               ok \<leftarrow> take_block;
               if \<not> ok then State_Monad.return NULL
               else if name = java_lang_string then asm2_intern_string (Some [])
               else asm2_intern_object (Some name)
             })
          else if c = of_char CHR ''['' then
            asm2_new_array t (Some (c # r)) 0 (descriptor_element_size (byte_at r 0))
          else State_Monad.return NULL)"

section \<open>Values\<close>

type_synonym jargs = "u64 list option"

definition low_part :: "nat \<Rightarrow> u64 \<Rightarrow> u64" where
  "low_part n v = take_bit n v"

definition argument :: "jargs \<Rightarrow> nat \<Rightarrow> u64" where
  "argument args i =
     (case args of None \<Rightarrow> 0 | Some vs \<Rightarrow> if i < List.length vs then vs ! i else 0)"

definition object_argument :: "jargs \<Rightarrow> nat \<Rightarrow> u32" where
  "object_argument args i = ucast (argument args i)"

definition asm2_first_object_argument :: "bytes option \<Rightarrow> jargs \<Rightarrow> u32" where
  "asm2_first_object_argument signature args =
     (case signature of
        None \<Rightarrow> NULL
      | Some g \<Rightarrow>
          if byte_at g 0 \<noteq> of_char CHR ''('' then NULL
          else if byte_at g 1 \<noteq> of_char CHR ''L'' \<and> byte_at g 1 \<noteq> of_char CHR ''['' then NULL
          else object_argument args 0)"

definition object_value :: "u32 jni_op \<Rightarrow> u64 jni_op" where
  "object_value m = do { p \<leftarrow> m; State_Monad.return (ucast p) }"

definition string_value :: "bytes option \<Rightarrow> u64 jni_op" where
  "string_value text = object_value (asm2_intern_string text)"

definition named_object :: "string \<Rightarrow> u64 jni_op" where
  "named_object class_name = object_value (asm2_intern_object (Some (cstr class_name)))"

section \<open>Bundles\<close>

definition bundle_method :: "bytes \<Rightarrow> u32 \<Rightarrow> jargs \<Rightarrow> u64 jni_op" where
  "bundle_method name receiver args =
     (if name = cstr ''<init>'' then State_Monad.return 0
      else if name = cstr ''clear'' then do { asm2_bundle_clear receiver; State_Monad.return 0 }
      else do {
        s \<leftarrow> State_Monad.get;
        let key = asm2_jni_string_chars s (object_argument args 0);
        let found = asm2_bundle_get s receiver key;
        (if name = cstr ''putInt'' \<or> name = cstr ''putBoolean'' then do {
           asm2_bundle_set receiver key (if name = cstr ''putInt'' then Bundle_int else Bundle_boolean)
             (low_part 32 (argument args 1));
           State_Monad.return 0
         } else if name = cstr ''putLong'' then do {
           asm2_bundle_set receiver key Bundle_long (argument args 1);
           State_Monad.return 0
         } else if name = cstr ''putString'' \<or> name = cstr ''putByteArray'' then do {
           asm2_bundle_set receiver key Bundle_object (low_part 32 (argument args 1));
           State_Monad.return 0
         } else State_Monad.return
           (if name = cstr ''getInt'' then
              (case found of Some (Bundle_int, v) \<Rightarrow> low_part 32 v | _ \<Rightarrow> 0)
            else if name = cstr ''getBoolean'' then
              (case found of Some (Bundle_boolean, v) \<Rightarrow> low_part 8 v | _ \<Rightarrow> 0)
            else if name = cstr ''getLong'' then
              (case found of Some (Bundle_long, v) \<Rightarrow> v | _ \<Rightarrow> 0)
            else if name = cstr ''getString'' \<or> name = cstr ''getByteArray'' then
              (case found of Some (Bundle_object, v) \<Rightarrow> low_part 32 v | _ \<Rightarrow> 0)
            else if name = cstr ''containsKey'' then of_bool (found \<noteq> None)
            else 0))
      })"

section \<open>The answers without a callback\<close>

definition name_in :: "bytes \<Rightarrow> string list \<Rightarrow> bool" where
  "name_in name names \<longleftrightarrow> list_ex (\<lambda>n. name = cstr n) names"

definition java_hash :: "bytes \<Rightarrow> u32" where
  "java_hash text = fold (\<lambda>b h. h * 31 + ucast b) text 0"

definition dots_for_slashes :: "bytes \<Rightarrow> bytes" where
  "dots_for_slashes = map (\<lambda>b. if b = of_char CHR ''/'' then of_char CHR ''.'' else b)"

text \<open>The methods whose answer is text from the configuration or the receiver.\<close>

definition text_method :: "jni_config \<Rightarrow> bytes \<Rightarrow> bytes \<Rightarrow> u32 \<Rightarrow> u64 jni_op option" where
  "text_method c class_name name receiver =
     (if name = cstr ''getPackageName'' then Some (string_value (jc_package_name c))
      else if name = cstr ''getFilesDir'' then Some (string_value (jc_files_directory c))
      else if name = cstr ''getCacheDir'' then Some (string_value (jc_cache_directory c))
      else if name_in name [''getExternalStorageDirectory'', ''getExternalFilesDir'']
      then Some (string_value (jc_external_storage c))
      else if name = cstr ''getExternalStorageState'' then Some (string_value (Some (cstr ''mounted'')))
      else if name_in name [''getAbsolutePath'', ''getCanonicalPath'', ''getPath'', ''toString''] then
        Some (do {
          s \<leftarrow> State_Monad.get;
          if asm2_jni_string_chars s receiver \<noteq> None then State_Monad.return (ucast receiver)
          else string_value (Some class_name)
        })
      else if name_in name [''getApplicationContext'', ''getApplication'', ''getBaseContext'', ''getActivity'']
      then Some (object_value asm2_jni_activity)
      else None)"

definition class_and_string_method ::
  "bytes \<Rightarrow> bytes \<Rightarrow> bytes option \<Rightarrow> u32 \<Rightarrow> jargs \<Rightarrow> u64 jni_op option" where
  "class_and_string_method class_name name signature receiver args =
     (if name = cstr ''getClass'' then
        Some (do {
          s \<leftarrow> State_Monad.get;
          object_value (asm2_intern_class (Some (class_name_of (asm2_lookup_handle s receiver) java_lang_object)))
        })
      else if class_name = cstr ''java/lang/Class'' \<and> name = cstr ''getName'' then
        Some (do {
          s \<leftarrow> State_Monad.get;
          d \<leftarrow> asm2_duplicate (Some (class_name_of (asm2_lookup_handle s receiver) java_lang_object));
          case d of
            None \<Rightarrow> State_Monad.return 0
          | Some slash_name \<Rightarrow> string_value (Some (dots_for_slashes slash_name))
        })
      else if class_name = java_lang_string \<and> name_in name [''length'', ''hashCode''] then
        Some (do {
          s \<leftarrow> State_Monad.get;
          let text = text_or_empty (asm2_jni_string_chars s receiver);
          State_Monad.return
            (if name = cstr ''length'' then low_part 32 (of_nat (List.length text)) else ucast (java_hash text))
        })
      else if class_name = java_lang_string \<and> name = cstr ''isEmpty'' then
        Some (do {
          s \<leftarrow> State_Monad.get;
          State_Monad.return (of_bool (text_or_empty (asm2_jni_string_chars s receiver) = []))
        })
      else if name = cstr ''equals'' then
        Some (do {
          s \<leftarrow> State_Monad.get;
          let other = asm2_first_object_argument signature args;
          State_Monad.return (of_bool
            (case (asm2_jni_string_chars s receiver, asm2_jni_string_chars s other) of
               (Some l, Some r) \<Rightarrow> l = r
             | _ \<Rightarrow> receiver = other))
        })
      else None)"

definition system_method :: "jni_config \<Rightarrow> bytes \<Rightarrow> bytes \<Rightarrow> bytes option \<Rightarrow> jargs \<Rightarrow> u64 jni_op option" where
  "system_method c class_name name signature args =
     (if class_name = cstr ''java/lang/System'' \<and> name = cstr ''getProperty'' then
        Some (do {
          s \<leftarrow> State_Monad.get;
          let key = asm2_jni_string_chars s (asm2_first_object_argument signature args);
          string_value
            (if key = Some (cstr ''os.name'') then Some (cstr ''Linux'')
             else if key = Some (cstr ''os.version'') then jc_android_release c
             else if key = Some (cstr ''user.language'') then jc_locale_language c
             else Some [])
        })
      else if class_name = cstr ''java/util/Locale'' \<and> name = cstr ''getDefault''
      then Some (named_object ''java/util/Locale'')
      else if class_name = cstr ''java/util/Locale'' \<and> name = cstr ''getLanguage''
      then Some (string_value (jc_locale_language c))
      else if class_name = cstr ''java/util/Locale'' \<and> name = cstr ''getCountry''
      then Some (string_value (jc_locale_country c))
      else if name_in name [''getWidth'', ''getMeasuredWidth'']
      then Some (State_Monad.return (low_part 32 (of_int (jc_screen_width c))))
      else if name_in name [''getHeight'', ''getMeasuredHeight'']
      then Some (State_Monad.return (low_part 32 (of_int (jc_screen_height c))))
      else if name = cstr ''getResources'' then Some (named_object ''android/content/res/Resources'')
      else if name = cstr ''getDisplayMetrics'' then Some (named_object ''android/util/DisplayMetrics'')
      else if name = cstr ''getWindowManager'' then Some (named_object ''android/view/WindowManager'')
      else if name = cstr ''getDefaultDisplay'' then Some (named_object ''android/view/Display'')
      else if name = cstr ''getPackageManager'' then Some (named_object ''android/content/pm/PackageManager'')
      else if name = cstr ''getApplicationInfo'' then Some (named_object ''android/content/pm/ApplicationInfo'')
      else if name = cstr ''getAssets'' then Some (named_object ''android/content/res/AssetManager'')
      else if name_in name [''checkCallingOrSelfPermission'', ''checkSelfPermission'']
      then Some (State_Monad.return 0)
      else None)"

definition boxed_method :: "bytes \<Rightarrow> u32 \<Rightarrow> u64 jni_op option" where
  "boxed_method name receiver =
     (let part = (\<lambda>n. Some (do {
                   h \<leftarrow> looked_up receiver;
                   State_Monad.return (case h of None \<Rightarrow> 0 | Some i \<Rightarrow> low_part n (jh_value i))
                 }))
      in if name = cstr ''booleanValue'' then part 8
         else if name = cstr ''intValue'' then part 32
         else if name = cstr ''floatValue'' then part 32
         else if name = cstr ''doubleValue'' then part 64
         else None)"

definition asm2_default_method :: "nat \<Rightarrow> jni_config \<Rightarrow> jhandle \<Rightarrow> u32 \<Rightarrow> jargs \<Rightarrow> u64 jni_op" where
  "asm2_default_method t c method receiver args =
     (let class_name = text_or_empty (jh_class method);
          name = text_or_empty (jh_name method)
      in if class_name = cstr ''android/os/Bundle'' then bundle_method name receiver args
         else case text_method c class_name name receiver of
           Some m \<Rightarrow> m
         | None \<Rightarrow>
           (case class_and_string_method class_name name (jh_signature method) receiver args of
              Some m \<Rightarrow> m
            | None \<Rightarrow>
              (case system_method c class_name name (jh_signature method) args of
                 Some m \<Rightarrow> m
               | None \<Rightarrow>
                 (case boxed_method name receiver of
                    Some m \<Rightarrow> m
                  | None \<Rightarrow> object_value (asm2_return_object_for_signature t (jh_signature method))))))"

text \<open>
  The callback is given the names of the method, the receiver and the arguments; \<open>None\<close> is one that does
  not handle the call.  A client without a callback is one that handles nothing.
\<close>

type_synonym method_callback = "jhandle \<Rightarrow> u32 \<Rightarrow> jargs \<Rightarrow> u64 option jni_op"

definition asm2_dispatch_method ::
  "nat \<Rightarrow> jni_config \<Rightarrow> method_callback option \<Rightarrow> u32 \<Rightarrow> u32 \<Rightarrow> jargs \<Rightarrow> u64 jni_op" where
  "asm2_dispatch_method t c callback receiver method_id args = do {
     m \<leftarrow> looked_up method_id;
     case m of
       None \<Rightarrow> State_Monad.return 0
     | Some method \<Rightarrow>
         if jh_kind method \<noteq> Method_handle then State_Monad.return 0
         else do {
           handled \<leftarrow> (case callback of
                         None \<Rightarrow> State_Monad.return None
                       | Some cb \<Rightarrow> cb method receiver args);
           case handled of
             Some v \<Rightarrow> State_Monad.return v
           | None \<Rightarrow> asm2_default_method t c method receiver args
         }
   }"

definition asm2_new_object ::
  "nat \<Rightarrow> jni_config \<Rightarrow> method_callback option \<Rightarrow> u32 \<Rightarrow> u32 \<Rightarrow> jargs \<Rightarrow> u32 jni_op" where
  "asm2_new_object t c callback class_handle method_id args = do {
     v \<leftarrow> asm2_dispatch_method t c callback class_handle method_id args;
     if (ucast v :: u32) \<noteq> NULL then State_Monad.return (ucast v) else asm2_alloc_object class_handle
   }"

section \<open>Fields\<close>

definition asm2_default_field :: "nat \<Rightarrow> jni_config \<Rightarrow> jhandle \<Rightarrow> u64 jni_op" where
  "asm2_default_field t c field =
     (let class_name = text_or_empty (jh_class field);
          name = text_or_empty (jh_name field);
          of_class = (\<lambda>n. class_name = cstr n)
      in if jh_has_value field then State_Monad.return (jh_value field)
         else if of_class ''android/os/Build$VERSION'' \<and> name = cstr ''SDK_INT''
         then State_Monad.return (low_part 32 (of_int (jc_sdk_int c)))
         else if of_class ''android/os/Build$VERSION'' \<and> name = cstr ''RELEASE''
         then string_value (jc_android_release c)
         else if of_class ''android/os/Build'' \<and> name = cstr ''MODEL'' then string_value (jc_device_model c)
         else if of_class ''android/os/Build'' \<and> name = cstr ''MANUFACTURER''
         then string_value (jc_device_manufacturer c)
         else if of_class ''android/os/Build'' \<and> name_in name [''BRAND'', ''DEVICE'', ''PRODUCT'']
         then string_value (Some (cstr ''NextOS''))
         else if of_class ''android/util/DisplayMetrics'' \<and> name_in name [''widthPixels'', ''heightPixels'']
         then State_Monad.return (low_part 32 (of_int
                (if name = cstr ''widthPixels'' then jc_screen_width c else jc_screen_height c)))
         else if of_class ''android/util/DisplayMetrics'' \<and> name_in name [''density'', ''scaledDensity'']
         then State_Monad.return (ucast (jc_screen_density c))
         else if byte_at (text_or_empty (jh_signature field)) 0 = of_char CHR ''L''
                 \<and> (ucast (jh_value field) :: u32) = 0
         then object_value (asm2_return_object_for_signature t
                (Some (take 511 (cstr ''()'' @ text_or_empty (jh_signature field)))))
         else State_Monad.return (jh_value field))"

type_synonym field_get_callback = "jhandle \<Rightarrow> u32 \<Rightarrow> u64 option jni_op"

definition asm2_get_field ::
  "nat \<Rightarrow> jni_config \<Rightarrow> field_get_callback option \<Rightarrow> u32 \<Rightarrow> u32 \<Rightarrow> u64 jni_op" where
  "asm2_get_field t c callback receiver field_id = do {
     f \<leftarrow> looked_up field_id;
     case f of
       None \<Rightarrow> State_Monad.return 0
     | Some field \<Rightarrow>
         if jh_kind field \<noteq> Field_handle then State_Monad.return 0
         else do {
           supplied \<leftarrow> (case callback of
                          None \<Rightarrow> State_Monad.return None
                        | Some cb \<Rightarrow> cb field receiver);
           case supplied of
             Some v \<Rightarrow> State_Monad.return v
           | None \<Rightarrow> asm2_default_field t c field
         }
   }"

text \<open>The value is kept with the field id, for every receiver.\<close>

definition asm2_set_field :: "(jhandle \<Rightarrow> u32 \<Rightarrow> u64 \<Rightarrow> unit jni_op) option \<Rightarrow> u32 \<Rightarrow> u32 \<Rightarrow> u64 \<Rightarrow> unit jni_op" where
  "asm2_set_field callback receiver field_id v = do {
     f \<leftarrow> looked_up field_id;
     case f of
       None \<Rightarrow> State_Monad.return ()
     | Some field \<Rightarrow>
         if jh_kind field \<noteq> Field_handle then State_Monad.return ()
         else do {
           modify_handle field_id (\<lambda>h. h\<lparr>jh_value := v, jh_has_value := True\<rparr>);
           (case callback of None \<Rightarrow> State_Monad.return () | Some cb \<Rightarrow> cb field receiver v)
         }
   }"

end
