(* ===== verification/Asm2_JniInv.thy ===== *)
theory Asm2_JniInv
  imports Asm2_JniDispatch
begin

text \<open>
  The invariant of the handle tables and the order on their states: handles and what is interned only grow.
  Every operation is shown to respect both, by the rule for sequential composition of the state monad and
  one lemma for each way in which an operation changes the state.
\<close>

section \<open>States\<close>

definition intern_key ::
  "jhandle \<Rightarrow> handle_kind \<times> bytes option \<times> bytes option \<times> bytes option \<times> bytes option \<times> bool" where
  "intern_key h = (jh_kind h, jh_class h, jh_name h, jh_signature h, jh_text h, jh_static h)"

definition key_bucket :: "jhandle \<Rightarrow> u32" where
  "key_bucket h =
     asm2_intern_bucket (jh_kind h) (if jh_kind h = String_handle then None else jh_class h) (jh_name h)
       (jh_signature h) (jh_text h) (jh_static h)"

definition array_has_data :: "jhandle \<Rightarrow> bool" where
  "array_has_data h \<longleftrightarrow>
     (case jh_data h of
        None \<Rightarrow> jh_length h = 0 \<or> 2 ^ 32 \<le> unat (jh_length h) * unat (jh_element_size h)
      | Some d \<Rightarrow> List.length d = unat (jh_length h) * unat (jh_element_size h))"

definition string_complete :: "jhandle \<Rightarrow> bool" where
  "string_complete h \<longleftrightarrow> (\<exists>t. jh_text h = Some t \<and> jh_utf16 h = Some (asm2_fill_utf16 t))"

text \<open>Which of the key fields a handle of each kind has.\<close>

definition shaped :: "jhandle \<Rightarrow> bool" where
  "shaped h \<longleftrightarrow>
     (jh_kind h \<in> {Class_handle, Object_handle} \<longrightarrow>
        jh_name h = None \<and> jh_signature h = None \<and> jh_text h = None \<and> \<not> jh_static h)
     \<and> (jh_kind h \<in> {Method_handle, Field_handle} \<longrightarrow> jh_text h = None)
     \<and> (jh_kind h = String_handle \<longrightarrow>
          jh_class h = Some java_lang_string \<and> jh_name h = None \<and> jh_signature h = None \<and> \<not> jh_static h)"

definition complete :: "jhandle \<Rightarrow> bool" where
  "complete h \<longleftrightarrow> shaped h \<and> (jh_kind h = String_handle \<longrightarrow> string_complete h) \<and> (jh_kind h = Array_handle \<longrightarrow> array_has_data h)"

text \<open>What \<open>calloc\<close> promises: no two handles, none of which is ever freed, have the same address.\<close>

definition addresses_distinct :: "jni \<Rightarrow> bool" where
  "addresses_distinct s \<longleftrightarrow>
     (\<forall>i j. i \<noteq> j \<longrightarrow> jn_addresses s i \<noteq> NULL \<longrightarrow> jn_addresses s i \<noteq> jn_addresses s j)"

definition all_blocks :: "jni \<Rightarrow> bool" where
  "all_blocks s \<longleftrightarrow> (\<forall>i. jn_blocks s i)"

definition heap_inv :: "jni \<Rightarrow> bool" where
  "heap_inv s \<longleftrightarrow>
     addresses_distinct s
     \<and> (\<forall>p. jn_heap s p \<noteq> None \<longrightarrow> p \<noteq> NULL \<and> (\<exists>i < jn_addresses_taken s. p = jn_addresses s i))
     \<and> (\<forall>b p. p \<in> set (jn_handle_buckets s b) \<longleftrightarrow> jn_heap s p \<noteq> None \<and> asm2_handle_bucket p = b)
     \<and> (\<forall>b. \<forall>p \<in> set (jn_intern_buckets s b). jn_heap s p \<noteq> None)"

text \<open>The rest of the invariant needs the blocks that are asked for.\<close>

definition interned :: "jni \<Rightarrow> u32 \<Rightarrow> bool" where
  "interned s p \<longleftrightarrow> (\<exists>b. p \<in> set (jn_intern_buckets s b))"

definition intern_inv :: "jni \<Rightarrow> bool" where
  "intern_inv s \<longleftrightarrow>
     (\<forall>p h. jn_heap s p = Some h \<longrightarrow> complete h)
     \<and> (\<forall>b. \<forall>p \<in> set (jn_intern_buckets s b). key_bucket (the (jn_heap s p)) = b)
     \<and> (\<forall>p q. interned s p \<longrightarrow> interned s q
          \<longrightarrow> intern_key (the (jn_heap s p)) = intern_key (the (jn_heap s q)) \<longrightarrow> p = q)"

definition jni_inv :: "jni \<Rightarrow> bool" where
  "jni_inv s \<longleftrightarrow> heap_inv s \<and> (all_blocks s \<longrightarrow> intern_inv s)"

definition jni_le :: "jni \<Rightarrow> jni \<Rightarrow> bool" where
  "jni_le s s' \<longleftrightarrow>
     jn_blocks s' = jn_blocks s
     \<and> (\<forall>p h. jn_heap s p = Some h \<longrightarrow>
          (\<exists>h'. jn_heap s' p = Some h' \<and> jh_kind h' = jh_kind h \<and> jh_class h' = jh_class h))
     \<and> (\<forall>p. interned s p \<longrightarrow> interned s' p \<and> intern_key (the (jn_heap s' p)) = intern_key (the (jn_heap s p)))"

definition grows :: "jni \<Rightarrow> jni \<Rightarrow> bool" where
  "grows s s' \<longleftrightarrow> (jni_inv s \<longrightarrow> jni_inv s' \<and> jni_le s s')"

abbreviation good :: "'a jni_op \<Rightarrow> bool" where
  "good m \<equiv> state_io_rel grows m"

lemma jni_le_refl: "jni_le s s"
  by (auto simp: jni_le_def)

lemma jni_le_trans: "jni_le s t \<Longrightarrow> jni_le t u \<Longrightarrow> jni_le s u"
  unfolding jni_le_def by (metis (no_types, lifting))

lemma grows_refl: "grows s s"
  by (simp add: grows_def jni_le_refl)

lemma grows_trans: "grows s t \<Longrightarrow> grows t u \<Longrightarrow> grows s u"
  by (auto simp: grows_def intro: jni_le_trans)

named_theorems good_ops

lemma good_return [good_ops]: "good (State_Monad.return x)"
  by (auto simp: grows_refl)

lemma good_get [good_ops]: "good State_Monad.get"
  by (auto simp: grows_refl)

lemma good_bind:
  assumes "good m" and "\<And>x. good (f x)"
  shows "good (State_Monad.bind m f)"
proof
  fix a s s'
  assume "run_state (State_Monad.bind m f) s = (a, s')"
  then obtain x t where "run_state m s = (x, t)" "run_state (f x) t = (a, s')"
    by (auto split: prod.splits)
  then show "grows s s'" using assms by (blast intro: grows_trans)
qed

lemma good_bind_get:
  assumes "\<And>s. grows s (snd (run_state (f s) s))"
  shows "good (State_Monad.bind State_Monad.get f)"
  using assms by (auto simp: state_io_rel_def)

lemma good_if [good_ops]: "good m \<Longrightarrow> good n \<Longrightarrow> good (if b then m else n)"
  by simp

lemma good_option [good_ops]: "good m \<Longrightarrow> (\<And>x. good (f x)) \<Longrightarrow> good (case v of None \<Rightarrow> m | Some x \<Rightarrow> f x)"
  by (cases v) simp_all

lemma good_prod [good_ops]: "(\<And>x y. good (f x y)) \<Longrightarrow> good (case v of (x, y) \<Rightarrow> f x y)"
  by (cases v) simp

lemma good_update: "(\<And>s. grows s (f s)) \<Longrightarrow> good (State_Monad.update f)"
  by (auto simp: state_io_rel_def State_Monad.update_def)

section \<open>Changes that the invariant does not see\<close>

definition same_tables :: "jni \<Rightarrow> jni \<Rightarrow> bool" where
  "same_tables s s' \<longleftrightarrow>
     jn_heap s' = jn_heap s \<and> jn_handle_buckets s' = jn_handle_buckets s
     \<and> jn_intern_buckets s' = jn_intern_buckets s \<and> jn_addresses s' = jn_addresses s
     \<and> jn_addresses_taken s \<le> jn_addresses_taken s' \<and> jn_blocks s' = jn_blocks s"

lemma same_tables_interned: "same_tables s s' \<Longrightarrow> interned s' p \<longleftrightarrow> interned s p"
  by (simp add: same_tables_def interned_def)

lemma same_tables_grows:
  assumes "same_tables s s'"
  shows "grows s s'"
proof -
  note int = same_tables_interned [OF assms]
  have "heap_inv s \<Longrightarrow> heap_inv s'"
    using assms unfolding heap_inv_def same_tables_def addresses_distinct_def
    by (simp, meson order_less_le_trans)
  moreover have "intern_inv s \<Longrightarrow> intern_inv s'"
    using assms int unfolding intern_inv_def by (simp add: same_tables_def)
  moreover have "all_blocks s' \<Longrightarrow> all_blocks s" using assms by (simp add: all_blocks_def same_tables_def)
  moreover have "jni_le s s'" using assms int by (auto simp: jni_le_def same_tables_def)
  ultimately show ?thesis by (auto simp: grows_def jni_inv_def)
qed

lemma good_take_address [good_ops]: "good take_address"
  and good_take_block [good_ops]: "good take_block"
  by (auto simp: take_address_def take_block_def same_tables_def intro!: same_tables_grows)

lemma good_duplicate [good_ops]: "good (asm2_duplicate x)"
  unfolding asm2_duplicate_def by (intro good_ops good_bind)

lemma good_set_pending [good_ops]: "good (set_pending t p)"
  unfolding set_pending_def by (rule good_update) (simp add: same_tables_def same_tables_grows)

lemma good_count_entries [good_ops]: "good (count_entries f)"
  unfolding count_entries_def by (rule good_update) (simp add: same_tables_def same_tables_grows)

lemma good_looked_up [good_ops]: "good (looked_up p)"
  unfolding looked_up_def by (intro good_ops good_bind)

section \<open>A new handle\<close>

lemma link_handle_simps [simp]:
  "jn_heap (link_handle p h s) = (jn_heap s)(p \<mapsto> h)"
  "jn_handle_buckets (link_handle p h s) =
     (jn_handle_buckets s)(asm2_handle_bucket p := p # jn_handle_buckets s (asm2_handle_bucket p))"
  "jn_intern_buckets (link_handle p h s) = jn_intern_buckets s"
  "jn_addresses (link_handle p h s) = jn_addresses s"
  "jn_addresses_taken (link_handle p h s) = jn_addresses_taken s"
  "jn_blocks (link_handle p h s) = jn_blocks s"
  "jn_blocks_taken (link_handle p h s) = jn_blocks_taken s"
  "jn_natives (link_handle p h s) = jn_natives s"
  "jn_native_count (link_handle p h s) = jn_native_count s"
  "jn_pending (link_handle p h s) = jn_pending s"
  by (simp_all add: link_handle_def Let_def)

lemma link_then_take_block:
  "run_state take_block (link_handle p h s) =
     (fst (run_state take_block s), link_handle p h (snd (run_state take_block s)))"
  by (simp add: take_block_def link_handle_def Let_def)

lemma link_then_duplicate:
  "run_state (asm2_duplicate x) (link_handle p h s) =
     (fst (run_state (asm2_duplicate x) s), link_handle p h (snd (run_state (asm2_duplicate x) s)))"
  by (cases x) (simp_all add: asm2_duplicate_def link_then_take_block case_prod_beta)

lemma link_then_modify:
  "jh_kind (f h) = jh_kind h \<Longrightarrow>
     run_state (modify_handle p f) (link_handle p h s) = ((), link_handle p (f h) s)"
  by (simp add: modify_handle_def State_Monad.update_def link_handle_def Let_def)

lemma fresh_address:
  assumes "heap_inv s"
  shows "jn_heap s (jn_addresses s (jn_addresses_taken s)) = None"
proof (rule ccontr)
  assume "jn_heap s (jn_addresses s (jn_addresses_taken s)) \<noteq> None"
  with assms obtain i where "i < jn_addresses_taken s" "jn_addresses s (jn_addresses_taken s) \<noteq> NULL"
    "jn_addresses s (jn_addresses_taken s) = jn_addresses s i"
    unfolding heap_inv_def by blast
  then show False using assms unfolding heap_inv_def addresses_distinct_def by (metis less_irrefl)
qed

text \<open>\<open>t\<close> is \<open>s\<close> after the address and some blocks were asked for.\<close>

definition allocated_from :: "jni \<Rightarrow> jni \<Rightarrow> u32 \<Rightarrow> bool" where
  "allocated_from s t p \<longleftrightarrow>
     same_tables s t \<and> jn_addresses_taken s < jn_addresses_taken t
     \<and> p = jn_addresses s (jn_addresses_taken s) \<and> p \<noteq> NULL"

lemma link_interned: "interned (link_handle p h t) q \<longleftrightarrow> interned t q"
  by (simp add: interned_def)

lemma link_heap_inv:
  assumes "heap_inv s" and "allocated_from s t p"
  shows "heap_inv (link_handle p h t)"
proof -
  have none: "jn_heap s p = None" using fresh_address [OF assms(1)] assms(2) by (simp add: allocated_from_def)
  show ?thesis
    unfolding heap_inv_def
  proof (intro conjI allI impI ballI)
    show "addresses_distinct (link_handle p h t)"
      using assms by (simp add: heap_inv_def allocated_from_def same_tables_def addresses_distinct_def)
  next
    fix q
    assume q: "jn_heap (link_handle p h t) q \<noteq> None"
    show "q \<noteq> NULL"
      using q assms by (auto simp: heap_inv_def allocated_from_def same_tables_def split: if_splits)
    show "\<exists>i < jn_addresses_taken (link_handle p h t). q = jn_addresses (link_handle p h t) i"
    proof (cases "q = p")
      case True
      with assms(2) show ?thesis by (auto simp: allocated_from_def same_tables_def)
    next
      case False
      with q have "jn_heap s q \<noteq> None" using assms(2) by (simp add: allocated_from_def same_tables_def)
      with assms(1) obtain i where "i < jn_addresses_taken s" "q = jn_addresses s i"
        unfolding heap_inv_def by blast
      with assms(2) show ?thesis
        by (intro exI [of _ i]) (simp add: allocated_from_def same_tables_def)
    qed
  next
    fix b q
    show "q \<in> set (jn_handle_buckets (link_handle p h t) b)
        \<longleftrightarrow> jn_heap (link_handle p h t) q \<noteq> None \<and> asm2_handle_bucket q = b"
      using assms none by (auto simp: heap_inv_def allocated_from_def same_tables_def)
  next
    fix b q
    assume "q \<in> set (jn_intern_buckets (link_handle p h t) b)"
    then show "jn_heap (link_handle p h t) q \<noteq> None"
      using assms by (auto simp: heap_inv_def allocated_from_def same_tables_def)
  qed
qed

lemma interned_in_heap: "heap_inv s \<Longrightarrow> interned s q \<Longrightarrow> jn_heap s q \<noteq> None"
  by (auto simp: heap_inv_def interned_def)

lemma link_grows:
  assumes "allocated_from s t p" and "all_blocks s \<Longrightarrow> complete h"
  shows "grows s (link_handle p h t)"
  unfolding grows_def
proof
  assume inv: "jni_inv s"
  then have hp: "heap_inv s" by (simp add: jni_inv_def)
  have none: "jn_heap s p = None" using fresh_address [OF hp] assms(1) by (simp add: allocated_from_def)
  have tab: "jn_heap t = jn_heap s" "jn_intern_buckets t = jn_intern_buckets s" "jn_blocks t = jn_blocks s"
    using assms(1) by (simp_all add: allocated_from_def same_tables_def)
  have int: "interned (link_handle p h t) q \<longleftrightarrow> interned s q" for q
    using tab by (simp add: interned_def)
  have old: "q \<noteq> p" if "interned s q" for q
    using interned_in_heap [OF hp that] none by auto
  have "intern_inv (link_handle p h t)" if "all_blocks s"
    unfolding intern_inv_def
  proof (intro conjI allI impI ballI)
    have inv': "intern_inv s" using inv that by (simp add: jni_inv_def)
    show "complete g" if "jn_heap (link_handle p h t) q = Some g" for q g
      using that inv' assms(2) \<open>all_blocks s\<close> tab by (auto simp: intern_inv_def split: if_splits)
    show "key_bucket (the (jn_heap (link_handle p h t) q)) = b"
      if q: "q \<in> set (jn_intern_buckets (link_handle p h t) b)" for q b
    proof -
      have "interned s q" using q tab by (auto simp: interned_def)
      then show ?thesis using old [OF \<open>interned s q\<close>] inv' q tab by (simp add: intern_inv_def)
    qed
    show "q = q'" if "interned (link_handle p h t) q" "interned (link_handle p h t) q'"
      "intern_key (the (jn_heap (link_handle p h t) q)) = intern_key (the (jn_heap (link_handle p h t) q'))" for q q'
      using that old inv' tab unfolding int by (simp add: intern_inv_def)
  qed
  moreover have "all_blocks (link_handle p h t) \<Longrightarrow> all_blocks s" using tab by (simp add: all_blocks_def)
  moreover have "jni_le s (link_handle p h t)"
    using none old int tab by (auto simp: jni_le_def)
  ultimately show "jni_inv (link_handle p h t) \<and> jni_le s (link_handle p h t)"
    using link_heap_inv [OF hp assms(1)] by (auto simp: jni_inv_def)
qed

section \<open>A change of one handle\<close>

definition change_handle :: "u32 \<Rightarrow> (jhandle \<Rightarrow> jhandle) \<Rightarrow> jni \<Rightarrow> jni" where
  "change_handle p f s = s\<lparr>jn_heap := (jn_heap s)(p := map_option f (jn_heap s p))\<rparr>"

lemma run_modify_handle: "run_state (modify_handle p f) s = ((), change_handle p f s)"
  by (simp add: modify_handle_def State_Monad.update_def change_handle_def)

lemma change_grows:
  assumes "\<And>h. jn_heap s p = Some h \<Longrightarrow> intern_key (f h) = intern_key h"
    and "\<And>h. all_blocks s \<Longrightarrow> jn_heap s p = Some h \<Longrightarrow> complete h \<Longrightarrow> complete (f h)"
  shows "grows s (change_handle p f s)"
  unfolding grows_def
proof
  assume inv: "jni_inv s"
  then have hp: "heap_inv s" by (simp add: jni_inv_def)
  let ?t = "change_handle p f s"
  have tab: "jn_intern_buckets ?t = jn_intern_buckets s" "jn_blocks ?t = jn_blocks s"
    "jn_handle_buckets ?t = jn_handle_buckets s" "jn_addresses ?t = jn_addresses s"
    "jn_addresses_taken ?t = jn_addresses_taken s"
    by (simp_all add: change_handle_def)
  have dom: "jn_heap ?t q = None \<longleftrightarrow> jn_heap s q = None" for q by (simp add: change_handle_def)
  have int: "interned ?t q \<longleftrightarrow> interned s q" for q by (simp add: interned_def tab)
  have key: "intern_key (the (jn_heap ?t q)) = intern_key (the (jn_heap s q))" if "jn_heap s q \<noteq> None" for q
    using that assms(1) by (auto simp: change_handle_def)
  have "heap_inv ?t" using hp by (simp add: heap_inv_def tab dom addresses_distinct_def)
  moreover have "intern_inv ?t" if "intern_inv s" "all_blocks s"
    unfolding intern_inv_def
  proof (intro conjI allI impI ballI)
    show "complete g" if "jn_heap ?t q = Some g" for q g
      using that \<open>intern_inv s\<close> assms(2) [OF \<open>all_blocks s\<close>]
      by (auto simp: change_handle_def intern_inv_def split: if_splits)
    show "key_bucket (the (jn_heap ?t q)) = b" if q: "q \<in> set (jn_intern_buckets ?t b)" for q b
    proof -
      have "jn_heap s q \<noteq> None" using q hp by (auto simp: heap_inv_def tab)
      from key [OF this] have "key_bucket (the (jn_heap ?t q)) = key_bucket (the (jn_heap s q))"
        by (simp add: intern_key_def key_bucket_def)
      also have "\<dots> = b" using q \<open>intern_inv s\<close> by (simp add: intern_inv_def tab)
      finally show ?thesis .
    qed
    show "q = q'" if "interned ?t q" "interned ?t q'"
      "intern_key (the (jn_heap ?t q)) = intern_key (the (jn_heap ?t q'))" for q q'
      using that \<open>intern_inv s\<close> interned_in_heap [OF hp] key unfolding int by (simp add: intern_inv_def)
  qed
  moreover have "all_blocks ?t \<Longrightarrow> all_blocks s" by (simp add: all_blocks_def tab)
  moreover have "jni_le s ?t"
    unfolding jni_le_def
  proof (intro conjI allI impI)
    show "jn_blocks ?t = jn_blocks s" by (rule tab)
    show "\<exists>h'. jn_heap ?t q = Some h' \<and> jh_kind h' = jh_kind h \<and> jh_class h' = jh_class h"
      if "jn_heap s q = Some h" for q h
      using that assms(1) [of h] by (auto simp: change_handle_def intern_key_def)
    show "interned ?t q" if "interned s q" for q using that int by simp
    show "intern_key (the (jn_heap ?t q)) = intern_key (the (jn_heap s q))" if "interned s q" for q
      by (rule key [OF interned_in_heap [OF hp that]])
  qed
  ultimately show "jni_inv ?t \<and> jni_le s ?t" using inv by (auto simp: jni_inv_def)
qed

lemma good_bind_result:
  assumes "good m" and "\<And>s a t. run_state m s = (a, t) \<Longrightarrow> grows t (snd (run_state (f a) t))"
  shows "good (State_Monad.bind m f)"
proof
  fix b s s'
  assume "run_state (State_Monad.bind m f) s = (b, s')"
  then obtain a t where "run_state m s = (a, t)" "run_state (f a) t = (b, s')"
    by (auto split: prod.splits)
  then show "grows s s'"
    using assms(2) [of s a t] assms(1) by (auto intro: grows_trans)
qed

lemma good_modify:
  assumes "\<And>h. intern_key (f h) = intern_key h" and "\<And>h. complete h \<Longrightarrow> complete (f h)"
  shows "good (modify_handle p f)"
  using change_grows [of _ p f] assms by (auto simp: run_modify_handle state_io_rel_def)

section \<open>Interning a new handle\<close>

lemma publish_simps [simp]:
  "jn_heap (snd (run_state (asm2_publish_intern p b) s)) = jn_heap s"
  "jn_handle_buckets (snd (run_state (asm2_publish_intern p b) s)) = jn_handle_buckets s"
  "jn_intern_buckets (snd (run_state (asm2_publish_intern p b) s)) =
     (jn_intern_buckets s)(b := p # jn_intern_buckets s b)"
  "jn_addresses (snd (run_state (asm2_publish_intern p b) s)) = jn_addresses s"
  "jn_addresses_taken (snd (run_state (asm2_publish_intern p b) s)) = jn_addresses_taken s"
  "jn_blocks (snd (run_state (asm2_publish_intern p b) s)) = jn_blocks s"
  by (simp_all add: asm2_publish_intern_def State_Monad.update_def Let_def)

lemma publish_interned:
  "interned (snd (run_state (asm2_publish_intern p b) s)) q \<longleftrightarrow> q = p \<or> interned s q"
  by (auto simp: interned_def)

lemma publish_grows:
  assumes "jn_heap s p = Some h"
    and "all_blocks s \<Longrightarrow> key_bucket h = b"
    and "\<And>q. all_blocks s \<Longrightarrow> interned s q \<Longrightarrow> intern_key (the (jn_heap s q)) \<noteq> intern_key h"
  shows "grows s (snd (run_state (asm2_publish_intern p b) s))"
  unfolding grows_def
proof
  let ?t = "snd (run_state (asm2_publish_intern p b) s)"
  assume inv: "jni_inv s"
  then have "heap_inv ?t"
    using assms(1) by (auto simp: jni_inv_def heap_inv_def addresses_distinct_def)
  moreover have "intern_inv ?t" if ab: "all_blocks s"
  proof -
    have i: "intern_inv s" using inv ab by (simp add: jni_inv_def)
    show ?thesis
      unfolding intern_inv_def
    proof (intro conjI allI impI ballI)
      show "complete g" if "jn_heap ?t q = Some g" for q g using that i by (simp add: intern_inv_def)
      show "key_bucket (the (jn_heap ?t q)) = c" if "q \<in> set (jn_intern_buckets ?t c)" for q c
        using that i assms(1) assms(2) [OF ab] by (auto simp: intern_inv_def split: if_splits)
      show "q = q'" if "interned ?t q" "interned ?t q'"
        "intern_key (the (jn_heap ?t q)) = intern_key (the (jn_heap ?t q'))" for q q'
        using that i assms(1) assms(3) [OF ab, of q] assms(3) [OF ab, of q']
        unfolding publish_interned by (auto simp: intern_inv_def)
    qed
  qed
  moreover have "all_blocks ?t \<longleftrightarrow> all_blocks s" by (simp add: all_blocks_def)
  moreover have "jni_le s ?t" by (auto simp: jni_le_def publish_interned)
  ultimately show "jni_inv ?t \<and> jni_le s ?t" by (auto simp: jni_inv_def)
qed

lemma key_bucket_cong: "intern_key g = intern_key h \<Longrightarrow> key_bucket g = key_bucket h"
  by (simp add: intern_key_def key_bucket_def)

text \<open>A search that fails shows that no interned handle has the key, provided the search knows the key.\<close>

lemma not_found_no_key:
  assumes "jni_inv s" and "all_blocks s" and "find_interned s b fits = None"
    and "key_bucket h = b" and "\<And>g. intern_key g = intern_key h \<Longrightarrow> fits g" and "interned s q"
  shows "intern_key (the (jn_heap s q)) \<noteq> intern_key h"
proof
  assume key: "intern_key (the (jn_heap s q)) = intern_key h"
  obtain c where q: "q \<in> set (jn_intern_buckets s c)" using assms(6) by (auto simp: interned_def)
  have "c = key_bucket (the (jn_heap s q))"
    using assms(1,2) q by (simp add: jni_inv_def intern_inv_def)
  also have "\<dots> = b" using key_bucket_cong [OF key] assms(4) by simp
  finally have qb: "q \<in> set (jn_intern_buckets s b)" using q by simp
  obtain g where g: "jn_heap s q = Some g"
    using assms(1) interned_in_heap [OF _ assms(6)] by (auto simp: jni_inv_def)
  have "fits g" using key g by (intro assms(5)) simp
  with qb g assms(3) show False by (force simp: find_interned_def find_None_iff)
qed

lemma intern_new_grows:
  assumes "allocated_from s t p" and "find_interned s b fits = None"
    and "all_blocks s \<Longrightarrow> complete h \<and> key_bucket h = b \<and> (\<forall>g. intern_key g = intern_key h \<longrightarrow> fits g)"
  shows "grows s (snd (run_state (asm2_publish_intern p b) (link_handle p h t)))"
  unfolding grows_def
proof
  assume inv: "jni_inv s"
  let ?l = "link_handle p h t"
  have lg: "grows s ?l" by (rule link_grows [OF assms(1)]) (use assms(3) in blast)
  then have li: "jni_inv ?l" and ll: "jni_le s ?l" using inv by (simp_all add: grows_def)
  have tab: "jn_heap t = jn_heap s" "jn_intern_buckets t = jn_intern_buckets s" "jn_blocks t = jn_blocks s"
    using assms(1) by (simp_all add: allocated_from_def same_tables_def)
  have ab: "all_blocks ?l \<longleftrightarrow> all_blocks s" by (simp add: all_blocks_def tab)
  have "grows ?l (snd (run_state (asm2_publish_intern p b) ?l))"
  proof (rule publish_grows)
    show "jn_heap ?l p = Some h" by simp
    show "key_bucket h = b" if "all_blocks ?l" using assms(3) that ab by blast
    show "intern_key (the (jn_heap ?l q)) \<noteq> intern_key h" if "all_blocks ?l" "interned ?l q" for q
    proof -
      have q: "interned s q" using that(2) by (simp add: interned_def tab)
      have "intern_key (the (jn_heap ?l q)) = intern_key (the (jn_heap s q))"
        using ll q by (simp add: jni_le_def)
      also have "\<dots> \<noteq> intern_key h"
        using not_found_no_key [OF inv _ assms(2) _ _ q] assms(3) that(1) ab by blast
      finally show ?thesis .
    qed
  qed
  with lg inv show "jni_inv (snd (run_state (asm2_publish_intern p b) ?l))
      \<and> jni_le s (snd (run_state (asm2_publish_intern p b) ?l))"
    using grows_trans unfolding grows_def by blast
qed

text \<open>What the blocks asked for between two states leave alone.\<close>

definition only_blocks :: "jni \<Rightarrow> jni \<Rightarrow> bool" where
  "only_blocks s t \<longleftrightarrow> (\<exists>n. t = s\<lparr>jn_blocks_taken := n\<rparr>)"

lemma only_blocks_duplicate: "only_blocks s (snd (run_state (asm2_duplicate x) s))"
  by (cases x) (auto simp: asm2_duplicate_def take_block_def only_blocks_def intro: exI [of _ "jn_blocks_taken s"])

lemma only_blocks_take: "only_blocks s (snd (run_state take_block s))"
  by (auto simp: take_block_def only_blocks_def)

lemma only_blocks_trans: "only_blocks s t \<Longrightarrow> only_blocks t u \<Longrightarrow> only_blocks s u"
  by (auto simp: only_blocks_def)

lemma allocated_after_blocks:
  assumes "jn_addresses s (jn_addresses_taken s) \<noteq> NULL"
    and "only_blocks (s\<lparr>jn_addresses_taken := Suc (jn_addresses_taken s)\<rparr>) t"
  shows "allocated_from s t (jn_addresses s (jn_addresses_taken s))"
  using assms by (auto simp: allocated_from_def same_tables_def only_blocks_def)

lemma duplicate_complete:
  "all_blocks s \<Longrightarrow> fst (run_state (asm2_duplicate x) s) = x"
  by (cases x) (simp_all add: asm2_duplicate_def take_block_def all_blocks_def)

lemma only_blocks_all: "only_blocks s t \<Longrightarrow> all_blocks t \<longleftrightarrow> all_blocks s"
  by (auto simp: only_blocks_def all_blocks_def)

text \<open>An allocation answers \<open>NULL\<close> or links a blank handle.\<close>

lemma run_allocate:
  "run_state (asm2_allocate_handle kind c) s =
     (let p = jn_addresses s (jn_addresses_taken s);
          s1 = s\<lparr>jn_addresses_taken := Suc (jn_addresses_taken s)\<rparr>;
          (d, s2) = run_state (asm2_duplicate c) s1
      in if p = NULL then (NULL, s1) else (p, link_handle p (blank_handle kind d) s2))"
  by (auto simp: asm2_allocate_handle_def take_address_def State_Monad.update_def Let_def split: prod.split)

lemma allocation_cases:
  obtains (none) s1 where "run_state (asm2_allocate_handle kind c) s = (NULL, s1)" "same_tables s s1"
  | (some) p d t where "run_state (asm2_allocate_handle kind c) s = (p, link_handle p (blank_handle kind d) t)"
      "allocated_from s t p" "only_blocks (s\<lparr>jn_addresses_taken := Suc (jn_addresses_taken s)\<rparr>) t"
      "all_blocks s \<longrightarrow> d = c"
proof (cases "jn_addresses s (jn_addresses_taken s) = NULL")
  case True
  then show thesis by (intro none) (auto simp: run_allocate Let_def same_tables_def split: prod.splits)
next
  case False
  let ?s1 = "s\<lparr>jn_addresses_taken := Suc (jn_addresses_taken s)\<rparr>"
  let ?r = "run_state (asm2_duplicate c) ?s1"
  have ob: "only_blocks ?s1 (snd ?r)" by (rule only_blocks_duplicate)
  have "all_blocks s \<longrightarrow> fst ?r = c" using duplicate_complete [of ?s1 c] by (simp add: all_blocks_def)
  with False show thesis
    by (intro some [of "jn_addresses s (jn_addresses_taken s)" "fst ?r" "snd ?r"])
      (auto simp: run_allocate Let_def case_prod_beta intro!: allocated_after_blocks ob)
qed

section \<open>The requests that intern\<close>

datatype intern_request =
  Named handle_kind bytes | Member handle_kind bytes bytes bytes bool | Text bytes

fun request_key ::
  "intern_request \<Rightarrow> handle_kind \<times> bytes option \<times> bytes option \<times> bytes option \<times> bytes option \<times> bool" where
  "request_key (Named k c) = (k, Some c, None, None, None, False)"
| "request_key (Member k c n g st) = (k, Some c, Some n, Some g, None, st)"
| "request_key (Text t) = (String_handle, Some java_lang_string, None, None, Some t, False)"

fun request_bucket :: "intern_request \<Rightarrow> u32" where
  "request_bucket (Named k c) = asm2_intern_bucket k (Some c) None None None False"
| "request_bucket (Member k c n g st) = asm2_intern_bucket k (Some c) (Some n) (Some g) None st"
| "request_bucket (Text t) = asm2_intern_bucket String_handle None None None (Some t) False"

fun fits_request :: "intern_request \<Rightarrow> jhandle \<Rightarrow> bool" where
  "fits_request (Named k c) h \<longleftrightarrow> jh_kind h = k \<and> asm2_text_equal (jh_class h) (Some c)"
| "fits_request (Member k c n g st) h \<longleftrightarrow> jh_kind h = k \<and> jh_static h = st
     \<and> asm2_text_equal (jh_class h) (Some c) \<and> asm2_text_equal (jh_name h) (Some n)
     \<and> asm2_text_equal (jh_signature h) (Some g)"
| "fits_request (Text t) h \<longleftrightarrow> jh_kind h = String_handle \<and> asm2_text_equal (jh_text h) (Some t)"

fun proper :: "intern_request \<Rightarrow> bool" where
  "proper (Named k c) \<longleftrightarrow> k \<in> {Class_handle, Object_handle}"
| "proper (Member k c n g st) \<longleftrightarrow> k \<in> {Method_handle, Field_handle}"
| "proper (Text t) \<longleftrightarrow> True"

lemma fits_key: "proper r \<Longrightarrow> intern_key g = request_key r \<Longrightarrow> fits_request r g"
  by (cases r) (auto simp: intern_key_def asm2_text_equal_def)

lemma key_fits: "proper r \<Longrightarrow> shaped g \<Longrightarrow> fits_request r g \<Longrightarrow> intern_key g = request_key r"
  by (cases r) (auto simp: intern_key_def asm2_text_equal_def shaped_def)

lemma key_in_bucket: "proper r \<Longrightarrow> intern_key g = request_key r \<Longrightarrow> key_bucket g = request_bucket r"
  by (cases r) (auto simp: intern_key_def key_bucket_def)

definition interns :: "intern_request \<Rightarrow> jni \<Rightarrow> u32 \<Rightarrow> jni \<Rightarrow> bool" where
  "interns r s q s' \<longleftrightarrow>
     (find_interned s (request_bucket r) (fits_request r) = Some q \<and> s' = s)
     \<or> (q = NULL \<and> same_tables s s')
     \<or> (find_interned s (request_bucket r) (fits_request r) = None
         \<and> (\<exists>t h. allocated_from s t q
              \<and> s' = snd (run_state (asm2_publish_intern q (request_bucket r)) (link_handle q h t))
              \<and> (all_blocks s \<longrightarrow> complete h \<and> intern_key h = request_key r)))"

lemma interns_grows:
  assumes "interns r s q s'" and "proper r"
  shows "grows s s'"
  using assms(1) unfolding interns_def
proof (elim disjE conjE exE)
  fix t h
  assume new: "allocated_from s t q" "find_interned s (request_bucket r) (fits_request r) = None"
    and h: "all_blocks s \<longrightarrow> complete h \<and> intern_key h = request_key r"
    and s': "s' = snd (run_state (asm2_publish_intern q (request_bucket r)) (link_handle q h t))"
  show "grows s s'"
    unfolding s'
    using h assms(2) key_in_bucket [OF assms(2)] fits_key [OF assms(2)]
    by (intro intern_new_grows [OF new]) auto
qed (auto simp: grows_refl same_tables_grows)

lemma interns_result:
  assumes "interns r s q s'" and "proper r" and "jni_inv s" and "all_blocks s" and "q \<noteq> NULL"
  shows "interned s' q \<and> intern_key (the (jn_heap s' q)) = request_key r"
  using assms(1) unfolding interns_def
proof (elim disjE conjE exE)
  assume found: "find_interned s (request_bucket r) (fits_request r) = Some q" and "s' = s"
  from found obtain g where g: "q \<in> set (jn_intern_buckets s (request_bucket r))" "jn_heap s q = Some g"
    "fits_request r g"
    by (auto simp: find_interned_def find_Some_iff split: option.splits)
  moreover have "complete g" using assms(3,4) g(2) by (auto simp: jni_inv_def intern_inv_def)
  ultimately show ?thesis
    using key_fits [OF assms(2) _ g(3)] \<open>s' = s\<close> by (auto simp: interned_def complete_def)
next
  assume "q = NULL"
  with assms(5) show ?thesis by simp
next
  fix t h
  assume "all_blocks s \<longrightarrow> complete h \<and> intern_key h = request_key r"
    and "s' = snd (run_state (asm2_publish_intern q (request_bucket r)) (link_handle q h t))"
  with assms(4) show ?thesis by (simp add: publish_interned)
qed

text \<open>The three operations.\<close>

lemma good_interns:
  assumes "\<And>s. interns r s (fst (run_state m s)) (snd (run_state m s))" and "proper r"
  shows "good m"
  using interns_grows [OF assms(1) assms(2)] by (auto simp: state_io_rel_def)

lemma fits_request_fun:
  "fits_request (Named k c) = (\<lambda>h. jh_kind h = k \<and> asm2_text_equal (jh_class h) (Some c))"
  "fits_request (Member k c n g st) = (\<lambda>h. jh_kind h = k \<and> jh_static h = st
     \<and> asm2_text_equal (jh_class h) (Some c) \<and> asm2_text_equal (jh_name h) (Some n)
     \<and> asm2_text_equal (jh_signature h) (Some g))"
  "fits_request (Text t) = (\<lambda>h. jh_kind h = String_handle \<and> asm2_text_equal (jh_text h) (Some t))"
  by auto

text \<open>What the three functions have in common: the search, the allocation, the contents, the publication.\<close>

definition intern_with :: "intern_request \<Rightarrow> bytes option \<Rightarrow> (u32 \<Rightarrow> unit jni_op) \<Rightarrow> u32 jni_op" where
  "intern_with r class_name fill = do {
     s \<leftarrow> State_Monad.get;
     case find_interned s (request_bucket r) (fits_request r) of
       Some q \<Rightarrow> State_Monad.return q
     | None \<Rightarrow> do {
         p \<leftarrow> asm2_allocate_handle (fst (request_key r)) class_name;
         if p = NULL then State_Monad.return NULL
         else do {
           fill p;
           asm2_publish_intern p (request_bucket r);
           State_Monad.return p
         }
       }
   }"

lemma intern_with_interns:
  assumes "\<And>p d t. p \<noteq> NULL \<Longrightarrow> \<exists>t' h. run_state (fill p) (link_handle p (blank_handle (fst (request_key r)) d) t)
        = ((), link_handle p h t') \<and> only_blocks t t'
        \<and> (all_blocks t \<longrightarrow> d = class_name \<longrightarrow> complete h \<and> intern_key h = request_key r)"
  shows "interns r s (fst (run_state (intern_with r class_name fill) s))
    (snd (run_state (intern_with r class_name fill) s))"
proof (cases "find_interned s (request_bucket r) (fits_request r)")
  case (Some q)
  then show ?thesis by (simp add: interns_def intern_with_def)
next
  case None
  show ?thesis
  proof (cases rule: allocation_cases [of "fst (request_key r)" class_name s])
    case (none s1)
    then show ?thesis using None by (simp add: interns_def intern_with_def)
  next
    case (some p d t)
    have "p \<noteq> NULL" using some(2) unfolding allocated_from_def by blast
    from assms [OF this, of d t] obtain t' h
      where fill: "run_state (fill p) (link_handle p (blank_handle (fst (request_key r)) d) t) = ((), link_handle p h t')"
        and t': "only_blocks t t'"
        and h: "all_blocks t \<longrightarrow> d = class_name \<longrightarrow> complete h \<and> intern_key h = request_key r"
      by blast
    have alloc: "allocated_from s t' p"
      using some(2) t' by (auto simp: allocated_from_def same_tables_def only_blocks_def)
    have "all_blocks t \<longleftrightarrow> all_blocks s"
      using some(2) by (auto simp: allocated_from_def same_tables_def all_blocks_def)
    with h some(4) have "all_blocks s \<longrightarrow> complete h \<and> intern_key h = request_key r" by blast
    moreover have "run_state (intern_with r class_name fill) s
        = (p, snd (run_state (asm2_publish_intern p (request_bucket r)) (link_handle p h t')))"
      using None \<open>p \<noteq> NULL\<close> by (simp add: intern_with_def some(1) fill case_prod_beta)
    ultimately show ?thesis using None alloc by (auto simp: interns_def)
  qed
qed

lemma named_is_intern_with:
  "intern_named kind c = intern_with (Named kind (class_or_object c)) (Some (class_or_object c)) (\<lambda>_. State_Monad.return ())"
  by (rule state_ext)
    (simp add: intern_named_def intern_with_def Let_def fits_request_fun del: fits_request.simps split: option.split prod.split)

lemma string_is_intern_with:
  "asm2_intern_string c = intern_with (Text (text_or_empty c)) (Some java_lang_string) (\<lambda>p. do {
     t \<leftarrow> asm2_duplicate (Some (text_or_empty c));
     units \<leftarrow> take_block;
     modify_handle p (\<lambda>h. h\<lparr>jh_text := t,
       jh_utf16 := (if units then Some (asm2_fill_utf16 (text_or_empty t)) else None)\<rparr>) })"
  by (rule state_ext)
    (simp add: asm2_intern_string_def intern_with_def Let_def fits_request_fun del: fits_request.simps split: option.split prod.split)

lemma member_is_intern_with:
  assumes "class_name = class_name_of (asm2_lookup_handle s c) java_lang_object"
  shows "run_state (asm2_intern_id kind c (Some n) (Some g) st) s =
    run_state (intern_with (Member kind class_name n g st) (Some class_name) (\<lambda>p. do {
      n1 \<leftarrow> asm2_duplicate (Some n);
      g1 \<leftarrow> asm2_duplicate (Some g);
      modify_handle p (\<lambda>h. h\<lparr>jh_name := n1, jh_signature := g1, jh_static := st\<rparr>) })) s"
  using assms
  by (simp add: asm2_intern_id_def intern_with_def Let_def text_or_empty_def fits_request_fun
      del: fits_request.simps split: option.split prod.split)

lemma intern_named_interns:
  assumes "kind \<in> {Class_handle, Object_handle}"
  shows "interns (Named kind (class_or_object c)) s
    (fst (run_state (intern_named kind c) s)) (snd (run_state (intern_named kind c) s))"
  unfolding named_is_intern_with
proof (rule intern_with_interns)
  fix p d t
  let ?r = "Named kind (class_or_object c)"
  let ?h = "blank_handle (fst (request_key ?r)) d"
  have "d = Some (class_or_object c) \<longrightarrow> complete ?h \<and> intern_key ?h = request_key ?r"
    using assms by (auto simp: complete_def shaped_def blank_handle_def intern_key_def)
  then show "\<exists>t' h. run_state (State_Monad.return ()) (link_handle p ?h t) = ((), link_handle p h t')
      \<and> only_blocks t t'
      \<and> (all_blocks t \<longrightarrow> d = Some (class_or_object c) \<longrightarrow> complete h \<and> intern_key h = request_key ?r)"
    by (intro exI [of _ t] exI [of _ ?h]) (auto simp: only_blocks_def intro: exI [of _ "jn_blocks_taken t"])
qed

lemma intern_string_interns:
  "interns (Text (text_or_empty c)) s
    (fst (run_state (asm2_intern_string c) s)) (snd (run_state (asm2_intern_string c) s))"
  unfolding string_is_intern_with
proof (rule intern_with_interns)
  fix p d t
  let ?r = "Text (text_or_empty c)"
  let ?b = "blank_handle (fst (request_key ?r)) d"
  let ?dup = "run_state (asm2_duplicate (Some (text_or_empty c))) t"
  let ?u = "run_state take_block (snd ?dup)"
  let ?h = "?b\<lparr>jh_text := fst ?dup,
    jh_utf16 := (if fst ?u then Some (asm2_fill_utf16 (text_or_empty (fst ?dup))) else None)\<rparr>"
  have blocks: "only_blocks t (snd ?u)"
    using only_blocks_trans only_blocks_duplicate only_blocks_take by blast
  have "all_blocks t \<longrightarrow> d = Some java_lang_string \<longrightarrow> complete ?h \<and> intern_key ?h = request_key ?r"
  proof (intro impI)
    assume ab: "all_blocks t" and d: "d = Some java_lang_string"
    have "fst ?dup = Some (text_or_empty c)" using duplicate_complete [OF ab] .
    moreover have "fst ?u"
      using only_blocks_all [OF only_blocks_duplicate [of t]] ab by (simp add: take_block_def all_blocks_def)
    ultimately show "complete ?h \<and> intern_key ?h = request_key ?r"
      using d by (auto simp: complete_def shaped_def string_complete_def blank_handle_def intern_key_def text_or_empty_def)
  qed
  with blocks show "\<exists>t' h. run_state (do {
        t \<leftarrow> asm2_duplicate (Some (text_or_empty c));
        units \<leftarrow> take_block;
        modify_handle p (\<lambda>h. h\<lparr>jh_text := t,
          jh_utf16 := (if units then Some (asm2_fill_utf16 (text_or_empty t)) else None)\<rparr>) })
        (link_handle p ?b t) = ((), link_handle p h t')
      \<and> only_blocks t t' \<and> (all_blocks t \<longrightarrow> d = Some java_lang_string \<longrightarrow> complete h \<and> intern_key h = request_key ?r)"
    by (intro exI [of _ "snd ?u"] exI [of _ ?h])
      (simp add: link_then_duplicate link_then_take_block link_then_modify case_prod_beta)
qed

lemma intern_id_interns:
  assumes "kind \<in> {Method_handle, Field_handle}"
  shows "interns (Member kind (class_name_of (asm2_lookup_handle s c) java_lang_object) n g st) s
    (fst (run_state (asm2_intern_id kind c (Some n) (Some g) st) s))
    (snd (run_state (asm2_intern_id kind c (Some n) (Some g) st) s))"
  unfolding member_is_intern_with [OF refl]
proof (rule intern_with_interns)
  fix p d t
  let ?c = "class_name_of (asm2_lookup_handle s c) java_lang_object"
  let ?r = "Member kind ?c n g st"
  let ?b = "blank_handle (fst (request_key ?r)) d"
  let ?n = "run_state (asm2_duplicate (Some n)) t"
  let ?g = "run_state (asm2_duplicate (Some g)) (snd ?n)"
  let ?h = "?b\<lparr>jh_name := fst ?n, jh_signature := fst ?g, jh_static := st\<rparr>"
  have blocks: "only_blocks t (snd ?g)"
    using only_blocks_trans only_blocks_duplicate by blast
  have "all_blocks t \<longrightarrow> d = Some ?c \<longrightarrow> complete ?h \<and> intern_key ?h = request_key ?r"
  proof (intro impI)
    assume ab: "all_blocks t" and d: "d = Some ?c"
    have "fst ?n = Some n" using duplicate_complete [OF ab] .
    moreover have "fst ?g = Some g"
      using only_blocks_all [OF only_blocks_duplicate [of t]] ab by (simp add: duplicate_complete)
    ultimately show "complete ?h \<and> intern_key ?h = request_key ?r"
      using d assms by (auto simp: complete_def shaped_def blank_handle_def intern_key_def)
  qed
  with blocks show "\<exists>t' h. run_state (do {
        n1 \<leftarrow> asm2_duplicate (Some n);
        g1 \<leftarrow> asm2_duplicate (Some g);
        modify_handle p (\<lambda>h. h\<lparr>jh_name := n1, jh_signature := g1, jh_static := st\<rparr>) })
        (link_handle p ?b t) = ((), link_handle p h t')
      \<and> only_blocks t t' \<and> (all_blocks t \<longrightarrow> d = Some ?c \<longrightarrow> complete h \<and> intern_key h = request_key ?r)"
    by (intro exI [of _ "snd ?g"] exI [of _ ?h])
      (simp add: link_then_duplicate link_then_modify case_prod_beta)
qed

lemma good_intern_named: "kind \<in> {Class_handle, Object_handle} \<Longrightarrow> good (intern_named kind c)"
  by (rule good_interns [OF intern_named_interns]) auto

lemma good_intern_class [good_ops]: "good (asm2_intern_class c)"
  and good_intern_object [good_ops]: "good (asm2_intern_object c)"
  by (simp_all add: asm2_intern_class_def asm2_intern_object_def good_intern_named)

lemma good_intern_string [good_ops]: "good (asm2_intern_string c)"
  by (rule good_interns [OF intern_string_interns]) simp

lemma good_intern_id [good_ops]:
  assumes "kind \<in> {Method_handle, Field_handle}"
  shows "good (asm2_intern_id kind c (Some n) (Some g) st)"
  using interns_grows [OF intern_id_interns [OF assms]] assms by (auto simp: state_io_rel_def)

section \<open>Handles that are not interned\<close>

lemma good_allocate [good_ops]:
  assumes "kind \<noteq> String_handle"
  shows "good (asm2_allocate_handle kind c)"
proof
  fix p s s'
  assume run: "run_state (asm2_allocate_handle kind c) s = (p, s')"
  show "grows s s'"
  proof (cases rule: allocation_cases [of kind c s])
    case (none s1)
    then show ?thesis using run by (simp add: same_tables_grows)
  next
    case (some q d t)
    have "complete (blank_handle kind d)" if "all_blocks s"
      using assms by (auto simp: complete_def shaped_def blank_handle_def array_has_data_def)
    then show ?thesis using some(1) run link_grows [OF some(2)] by simp
  qed
qed

lemma good_new_object_handle [good_ops]: "good (asm2_new_object_handle c)"
  unfolding asm2_new_object_handle_def by (rule good_allocate) simp

lemma good_throw_new [good_ops]: "good (asm2_throw_new t c message)"
proof -
  have body: "good (State_Monad.bind (asm2_allocate_handle Throwable_handle (Some n))
      (\<lambda>p. State_Monad.bind
        (if p = NULL then State_Monad.return ()
         else do { m \<leftarrow> asm2_duplicate (Some (text_or_empty message)); modify_handle p (\<lambda>h. h\<lparr>jh_text := m\<rparr>) })
        (\<lambda>_. State_Monad.bind (set_pending t p) (\<lambda>_. State_Monad.return (if p = NULL then -1 else 0 :: int)))))"
    (is "good ?m") for n
  proof
    fix a s s'
    assume run: "run_state ?m s = (a, s')"
    show "grows s s'"
    proof (cases rule: allocation_cases [of Throwable_handle "Some n" s])
      case (none s1)
      have "grows s1 (s1\<lparr>jn_pending := (jn_pending s1)(t := NULL)\<rparr>)"
        by (rule same_tables_grows) (simp add: same_tables_def)
      with none run show ?thesis
        by (auto simp: set_pending_def State_Monad.update_def intro: grows_trans same_tables_grows)
    next
      case (some p d u)
      then have "p \<noteq> NULL" unfolding allocated_from_def by blast
      let ?m = "run_state (asm2_duplicate (Some (text_or_empty message))) u"
      let ?h = "(blank_handle Throwable_handle d)\<lparr>jh_text := fst ?m\<rparr>"
      have alloc: "allocated_from s (snd ?m) p"
        using some(2) only_blocks_duplicate [of u "Some (text_or_empty message)"]
        by (auto simp: allocated_from_def same_tables_def only_blocks_def)
      have "complete ?h" by (simp add: complete_def shaped_def blank_handle_def)
      then have "grows s (link_handle p ?h (snd ?m))" by (rule link_grows [OF alloc])
      moreover have "grows w (w\<lparr>jn_pending := (jn_pending w)(t := p)\<rparr>)" for w
        by (rule same_tables_grows) (simp add: same_tables_def)
      moreover have "s' = (link_handle p ?h (snd ?m))\<lparr>jn_pending := (jn_pending (link_handle p ?h (snd ?m)))(t := p)\<rparr>"
        using run some(1) \<open>p \<noteq> NULL\<close>
        by (simp add: link_then_duplicate link_then_modify set_pending_def State_Monad.update_def case_prod_beta)
      ultimately show ?thesis by (blast intro: grows_trans)
    qed
  qed
  show ?thesis
    unfolding asm2_throw_new_def Let_def by (rule good_bind [OF good_get]) (rule body)
qed

lemma good_throw_named [good_ops]: "good (throw_named t c message)"
  unfolding throw_named_def by (intro good_ops good_bind)

section \<open>Objects\<close>

lemma good_exceptions [good_ops]:
  "good (asm2_throw t p)" "good (asm2_exception_clear t)" "good (asm2_fatal_error t message)"
  "good (asm2_vm_detach t)" "good (index_error t m)"
  unfolding asm2_throw_def asm2_exception_clear_def asm2_fatal_error_def asm2_vm_detach_def index_error_def
  by (intro good_ops good_bind)+

lemma good_classes [good_ops]:
  "good (asm2_get_superclass c)" "good (asm2_alloc_object c)" "good (asm2_get_object_class c)"
  "good (asm2_get_method_id c (Some n) (Some g))" "good (asm2_get_static_method_id c (Some n) (Some g))"
  "good (asm2_get_field_id c (Some n) (Some g))" "good (asm2_get_static_field_id c (Some n) (Some g))"
  unfolding asm2_get_superclass_def asm2_alloc_object_def asm2_get_object_class_def asm2_get_method_id_def
    asm2_get_static_method_id_def asm2_get_field_id_def asm2_get_static_field_id_def
  by (intro good_ops good_bind; simp)+

lemma good_strings [good_ops]:
  "good (asm2_new_string t us n)" "good (asm2_new_string_utf x)"
  "good (asm2_get_string_region t p start n out)" "good (asm2_get_string_utf_region t p start n out)"
  unfolding asm2_new_string_def asm2_new_string_utf_def asm2_get_string_region_def asm2_get_string_utf_region_def
  by (intro good_ops good_bind)+

lemma complete_change:
  assumes "complete h" and "intern_key g = intern_key h" and "jh_utf16 g = jh_utf16 h"
    and "jh_kind h = Array_handle \<Longrightarrow> array_has_data h \<Longrightarrow> array_has_data g"
  shows "complete g"
  using assms by (auto simp: complete_def shaped_def string_complete_def intern_key_def)

lemma run_array_data:
  assumes "run_state (array_data len e) s = (d, t)"
  shows "same_tables s t"
    and "all_blocks s \<Longrightarrow> jh_length h = len \<Longrightarrow> jh_element_size h = e \<Longrightarrow> jh_data h = d \<Longrightarrow> array_has_data h"
proof -
  show "same_tables s t"
    using assms
    by (auto simp: array_data_def take_block_def State_Monad.update_def same_tables_def split: if_splits)
  assume ab: "all_blocks s" and h: "jh_length h = len" "jh_element_size h = e" "jh_data h = d"
  have le: "e \<le> 0xFFFFFFFF div len \<longleftrightarrow> unat len * unat e < 2 ^ 32" if "len \<noteq> 0"
  proof -
    have "e \<le> 0xFFFFFFFF div len \<longleftrightarrow> unat e \<le> 0xFFFFFFFF div unat len"
      by (simp add: word_le_nat_alt unat_div_distrib)
    also have "\<dots> \<longleftrightarrow> unat e * unat len \<le> 0xFFFFFFFF"
      using that by (simp add: less_eq_div_iff_mult_less_eq unat_gt_0)
    finally show ?thesis by (simp add: mult.commute) arith
  qed
  show "array_has_data h"
  proof (cases "len \<noteq> 0 \<and> e \<le> 0xFFFFFFFF div len")
    case True
    then have d: "d = Some (replicate (unat (len * e)) 0)"
      using assms ab by (auto simp: array_data_def take_block_def State_Monad.update_def all_blocks_def)
    have "unat (len * e) = unat len * unat e"
      using True le by (subst unat_mult_lem [THEN iffD1]) simp_all
    then show ?thesis by (simp add: array_has_data_def h d)
  next
    case False
    then have "d = None" using assms by (auto simp: array_data_def)
    moreover have "len = 0 \<or> 2 ^ 32 \<le> unat len * unat e" using False le by linarith
    ultimately show ?thesis by (simp add: array_has_data_def h)
  qed
qed

lemma good_array_data [good_ops]: "good (array_data len e)"
  by (rule state_io_relI) (rule same_tables_grows, erule run_array_data(1))

lemma good_array_init:
  assumes "run_state (array_data len e) s = (d, t)"
  shows "grows t (snd (run_state (modify_handle p (\<lambda>h. h\<lparr>jh_length := len, jh_element_size := e, jh_data := d\<rparr>)) t))"
proof -
  have "all_blocks t \<Longrightarrow> all_blocks s"
    using run_array_data(1) [OF assms] by (simp add: all_blocks_def same_tables_def)
  note data = run_array_data(2) [OF assms this]
  show ?thesis
    unfolding run_modify_handle snd_conv
  proof (rule change_grows)
    fix h
    show "intern_key (h\<lparr>jh_length := len, jh_element_size := e, jh_data := d\<rparr>) = intern_key h"
      by (simp add: intern_key_def)
    assume "all_blocks t" and h: "complete h"
    show "complete (h\<lparr>jh_length := len, jh_element_size := e, jh_data := d\<rparr>)"
      by (rule complete_change [OF h]) (simp_all add: intern_key_def data \<open>all_blocks t\<close>)
  qed
qed

lemma good_new_array [good_ops]: "good (asm2_new_array t c len e)"
proof -
  have body: "good (do {
      d \<leftarrow> array_data len e;
      modify_handle p (\<lambda>h. h\<lparr>jh_length := len, jh_element_size := e, jh_data := d\<rparr>);
      (if len \<noteq> 0 \<and> d = None then do {
         e \<leftarrow> asm2_intern_object (Some out_of_memory_error);
         set_pending t e
       } else State_Monad.return ());
      State_Monad.return p })" for p
  proof (rule good_bind_result [OF good_array_data])
    fix s d u
    assume run: "run_state (array_data len e) s = (d, u)"
    let ?rest = "do {
      (if len \<noteq> 0 \<and> d = None then do {
         e \<leftarrow> asm2_intern_object (Some out_of_memory_error);
         set_pending t e
       } else State_Monad.return ());
      State_Monad.return p }"
    have "good ?rest" by (intro good_ops good_bind)
    then have "grows v (snd (run_state ?rest v))" for v by (simp add: state_io_rel_def)
    with good_array_init [OF run, of p]
    show "grows u (snd (run_state (do {
        modify_handle p (\<lambda>h. h\<lparr>jh_length := len, jh_element_size := e, jh_data := d\<rparr>); ?rest }) u))"
      by (auto simp: case_prod_beta intro: grows_trans)
  qed
  show ?thesis
    unfolding asm2_new_array_def
    by (rule good_bind [OF good_allocate], simp) (rule good_if [OF good_return body])
qed

lemma good_primitive_array [good_ops]: "good (asm2_new_primitive_array t c e n)"
  unfolding asm2_new_primitive_array_def by (intro good_ops)

lemma interns_heap:
  assumes "interns r s q s'" and "heap_inv s" and "jn_heap s x = Some h"
  shows "jn_heap s' x = Some h"
proof -
  have "x \<noteq> jn_addresses s (jn_addresses_taken s)" using fresh_address [OF assms(2)] assms(3) by auto
  with assms show ?thesis by (auto simp: interns_def same_tables_def allocated_from_def)
qed

lemma grows_inv: "grows s s' \<Longrightarrow> jni_inv s \<Longrightarrow> jni_inv s'"
  by (simp add: grows_def)

lemma good_inv: "good m \<Longrightarrow> jni_inv s \<Longrightarrow> jni_inv (snd (run_state m s))"
  by (simp add: state_io_rel_def grows_def)

text \<open>The array that was just made has the length and the element size asked for.\<close>

lemma new_array_result:
  assumes "run_state (asm2_new_array t c len e) s = (p, s')" and "p \<noteq> NULL" and "jni_inv s"
  shows "\<exists>h. jn_heap s' p = Some h \<and> jh_kind h = Array_handle \<and> jh_length h = len \<and> jh_element_size h = e"
proof (cases rule: allocation_cases [of Array_handle c s])
  case (none s1)
  with assms show ?thesis by (simp add: asm2_new_array_def)
next
  case (some q d u)
  let ?l = "link_handle q (blank_handle Array_handle d) u"
  let ?a = "run_state (array_data len e) ?l"
  let ?f = "\<lambda>h. h\<lparr>jh_length := len, jh_element_size := e, jh_data := fst ?a\<rparr>"
  let ?m = "change_handle q ?f (snd ?a)"
  let ?o = "if len \<noteq> 0 \<and> fst ?a = None then do {
         e \<leftarrow> asm2_intern_object (Some out_of_memory_error);
         set_pending t e
       } else State_Monad.return ()"
  have q: "q \<noteq> NULL" using some(2) unfolding allocated_from_def by blast
  then have pq: "p = q" "s' = snd (run_state ?o ?m)"
    using assms(1) some(1) by (auto simp: asm2_new_array_def case_prod_beta run_modify_handle)
  have "jn_heap (snd ?a) = jn_heap ?l"
    using run_array_data(1) [of len e ?l "fst ?a" "snd ?a"] by (simp add: same_tables_def)
  then have m: "jn_heap ?m q = Some (?f (blank_handle Array_handle d))" by (simp add: change_handle_def)
  show ?thesis
  proof (cases "len \<noteq> 0 \<and> fst ?a = None")
    case False
    then show ?thesis using pq m by (auto simp: blank_handle_def)
  next
    case True
    let ?r = "run_state (asm2_intern_object (Some out_of_memory_error)) ?m"
    have "interns (Named Object_handle (class_or_object (Some out_of_memory_error))) ?m (fst ?r) (snd ?r)"
      unfolding asm2_intern_object_def by (rule intern_named_interns) simp
    moreover have "heap_inv ?m"
    proof -
      have "jni_inv ?l"
        using good_inv [OF good_allocate [of Array_handle c] assms(3)] some(1) by simp
      then have a: "jni_inv (snd ?a)" by (rule good_inv [OF good_array_data])
      have "grows (snd ?a) (snd (run_state (modify_handle q ?f) (snd ?a)))"
        by (rule good_array_init [of len e ?l]) simp
      then have "grows (snd ?a) ?m" by (simp only: run_modify_handle snd_conv)
      from grows_inv [OF this a] show ?thesis by (simp add: jni_inv_def)
    qed
    ultimately have "jn_heap (snd ?r) q = Some (?f (blank_handle Array_handle d))"
      by (rule interns_heap) (rule m)
    moreover have "jn_heap s' p = jn_heap (snd ?r) q"
      unfolding pq using True by (simp add: set_pending_def State_Monad.update_def case_prod_beta)
    ultimately show ?thesis by (simp add: blank_handle_def)
  qed
qed

lemma length_overwrite: "i + List.length new \<le> List.length d \<Longrightarrow> List.length (overwrite i new d) = List.length d"
  by (simp add: overwrite_def)

text \<open>What follows the making of an array may use its size; filling it keeps it.\<close>

lemma good_new_array_bind:
  assumes "\<And>p u h. p \<noteq> NULL \<Longrightarrow> jn_heap u p = Some h \<Longrightarrow> jh_length h = len \<Longrightarrow> jh_element_size h = e
      \<Longrightarrow> grows u (snd (run_state (m p) u))"
    and "\<And>u. grows u (snd (run_state (m NULL) u))"
  shows "good (State_Monad.bind (asm2_new_array t c len e) m)"
proof
  fix a s s'
  assume run: "run_state (State_Monad.bind (asm2_new_array t c len e) m) s = (a, s')"
  obtain p u where n: "run_state (asm2_new_array t c len e) s = (p, u)" by fastforce
  have s': "s' = snd (run_state (m p) u)" using run n by simp
  show "grows s s'"
    unfolding grows_def
  proof
    assume inv: "jni_inv s"
    have "grows u s'"
      unfolding s' using new_array_result [OF n _ inv] assms by (cases "p = NULL") blast+
    with state_io_relD [OF good_new_array n] have "grows s s'" by (rule grows_trans)
    with inv show "jni_inv s' \<and> jni_le s s'" by (simp add: grows_def)
  qed
qed

lemma fill_array_grows:
  assumes "jn_heap u p = Some h0" "jh_length h0 = len" "jh_element_size h0 = e"
    and "\<And>d. List.length d = unat len * unat e \<Longrightarrow> List.length (g d) = List.length d"
  shows "grows u (snd (run_state (modify_handle p (\<lambda>h. h\<lparr>jh_data := map_option g (jh_data h)\<rparr>)) u))"
  unfolding run_modify_handle snd_conv
proof (rule change_grows)
  fix h
  let ?f = "\<lambda>h. h\<lparr>jh_data := map_option g (jh_data h)\<rparr>"
  show "intern_key (?f h) = intern_key h" by (simp add: intern_key_def)
  assume "jn_heap u p = Some h" and h: "complete h"
  with assms(1) have "h = h0" by simp
  show "complete (?f h)"
  proof (rule complete_change [OF h])
    assume "array_has_data h"
    with assms show "array_has_data (?f h)"
      unfolding \<open>h = h0\<close> by (auto simp: array_has_data_def split: option.splits)
  qed (simp_all add: intern_key_def)
qed

lemma bind_grows:
  assumes "grows u (snd (run_state m u))" and "\<And>x. good (f x)"
  shows "grows u (snd (run_state (State_Monad.bind m f) u))"
  using assms by (auto simp: case_prod_beta state_io_rel_def intro: grows_trans)

lemma good_grows: "good m \<Longrightarrow> grows u (snd (run_state m u))"
  by (simp add: state_io_rel_def)

lemma length_concat_replicate: "List.length (concat (replicate n (put_le32 v))) = 4 * n"
  by (induction n) simp_all

lemma length_concat_put: "List.length (concat (map put_le32 vs)) = 4 * List.length vs"
  by (induction vs) simp_all

lemma good_new_object_array [good_ops]:
  assumes "n < 2 ^ 31"
  shows "good (asm2_new_object_array t n c initial)"
proof (cases "n < 0")
  case False
  then have len: "unat (of_int n :: u32) = nat n"
    using assms False by (simp add: unsigned_of_int take_bit_int_eq_self)
  have body: "good (do {
      p \<leftarrow> asm2_new_array t d (of_int n) 4;
      (if p \<noteq> NULL \<and> initial \<noteq> NULL
       then modify_handle p (\<lambda>h. h\<lparr>jh_data := map_option (\<lambda>_. concat (replicate (nat n) (put_le32 initial))) (jh_data h)\<rparr>)
       else State_Monad.return ());
      State_Monad.return p })" for d
    by (rule good_new_array_bind; intro bind_grows good_ops; (simp add: grows_refl)?)
      (auto simp: length_concat_replicate len grows_refl intro!: fill_array_grows)
  show ?thesis
    unfolding asm2_new_object_array_def Let_def
    by (rule good_if [OF good_return good_bind [OF good_get]]) (rule body)
qed (simp add: asm2_new_object_array_def good_return)

lemma good_int_array [good_ops]: "good (asm2_jni_int_array t vs n)"
proof (cases vs)
  case None
  then show ?thesis
    unfolding asm2_jni_int_array_def by (simp only: option.case) (intro good_ops good_bind)
next
  case (Some xs)
  have "List.length (overwrite 0 (concat (map put_le32 (take (unat n) xs))) d) = List.length d"
    if "List.length d = unat n * unat (4 :: u32)" for d :: bytes
    using that by (intro length_overwrite) (simp add: length_concat_put)
  then show ?thesis
    unfolding asm2_jni_int_array_def Some option.case
    by (intro good_new_array_bind bind_grows good_ops) (auto simp: grows_refl intro!: fill_array_grows)
qed

lemma good_modify_rest:
  assumes "\<And>h. intern_key (f h) = intern_key h" and "\<And>h. jh_utf16 (f h) = jh_utf16 h"
    and "\<And>h. jh_data (f h) = jh_data h" and "\<And>h. jh_length (f h) = jh_length h"
    and "\<And>h. jh_element_size (f h) = jh_element_size h"
  shows "good (modify_handle p f)"
proof (rule good_modify)
  fix h
  show "intern_key (f h) = intern_key h" by (rule assms)
  assume "complete h"
  then show "complete (f h)"
    by (rule complete_change) (simp_all add: assms array_has_data_def split: option.splits)
qed

lemma good_bundle_change [good_ops]: "good (modify_handle p (\<lambda>h. h\<lparr>jh_bundle := f (jh_bundle h)\<rparr>))"
  by (rule good_modify_rest) (simp_all add: intern_key_def)

lemma good_bundle_set [good_ops]: "good (asm2_bundle_set p key kind v)"
  unfolding asm2_bundle_set_def
  by (intro good_ops good_bind good_bundle_change [of _ "\<lambda>es. _ # es"])

lemma good_bundle_clear [good_ops]: "good (asm2_bundle_clear p)"
  unfolding asm2_bundle_clear_def
  by (intro good_ops good_bind good_bundle_change [of _ "\<lambda>_. []"])

lemma good_put_byte_array [good_ops]: "good (asm2_jni_bundle_put_byte_array t b key content n)"
proof -
  have fill: "List.length (overwrite 0 (take (unat n) bs) d) = List.length d"
    if "List.length d = unat n * unat (1 :: u32)" for d bs :: bytes
    using that by (intro length_overwrite) simp
  have "grows u (snd (run_state (case content of
        Some bs \<Rightarrow> if n \<noteq> 0
          then modify_handle p (\<lambda>h. h\<lparr>jh_data := map_option (overwrite 0 (take (unat n) bs)) (jh_data h)\<rparr>)
          else State_Monad.return ()
      | None \<Rightarrow> State_Monad.return ()) u))"
    if "jn_heap u p = Some h" "jh_length h = n" "jh_element_size h = 1" for p u h
    using that fill by (cases content) (auto simp: grows_refl intro!: fill_array_grows)
  then have rest: "grows u (snd (run_state (do {
        (case content of
           Some bs \<Rightarrow> if n \<noteq> 0
             then modify_handle p (\<lambda>h. h\<lparr>jh_data := map_option (overwrite 0 (take (unat n) bs)) (jh_data h)\<rparr>)
             else State_Monad.return ()
         | None \<Rightarrow> State_Monad.return ());
        asm2_bundle_set b key Bundle_object (ucast p) }) u))"
    if "jn_heap u p = Some h" "jh_length h = n" "jh_element_size h = 1" for p u h
    using that by (intro bind_grows good_ops)
  show ?thesis
    unfolding asm2_jni_bundle_put_byte_array_def
  proof (rule good_new_array_bind)
    fix p and u :: jni and h :: jhandle
    assume h: "p \<noteq> NULL" "jn_heap u p = Some h" "jh_length h = n" "jh_element_size h = 1"
    show "grows u (snd (run_state (do {
        s \<leftarrow> State_Monad.get;
        if p = NULL \<or> (n \<noteq> 0 \<and> (case jn_heap s p of Some h \<Rightarrow> jh_data h = None | None \<Rightarrow> True))
        then State_Monad.return False
        else do {
          (case content of
             Some bs \<Rightarrow> if n \<noteq> 0
               then modify_handle p (\<lambda>h. h\<lparr>jh_data := map_option (overwrite 0 (take (unat n) bs)) (jh_data h)\<rparr>)
               else State_Monad.return ()
           | None \<Rightarrow> State_Monad.return ());
          asm2_bundle_set b key Bundle_object (ucast p)
        } }) u))"
      using rest [OF h(2-4)] h(1)
      by (simp only: run_state_bind [of State_Monad.get] run_state_get prod.case) (simp add: grows_refl)
  qed (simp add: grows_refl)
qed

section \<open>Arrays, buffers and natives\<close>

lemma good_get_element [good_ops]:
  "good (asm2_get_object_array_element t p i)" "good (asm2_get_array_region t e p start n out)"
  unfolding asm2_get_object_array_element_def asm2_get_array_region_def
  by (intro good_ops good_bind)+

text \<open>A write into an array at a place that the tests accept keeps its size.\<close>

lemma store_grows:
  assumes "asm2_lookup_handle s p = Some h" and "jh_data h = Some d"
    and "array_has_data h \<Longrightarrow> jh_kind h = Array_handle \<Longrightarrow> i + List.length new \<le> List.length d"
  shows "grows s (snd (run_state (modify_handle p (\<lambda>h. h\<lparr>jh_data := Some (overwrite i new d)\<rparr>)) s))"
  unfolding run_modify_handle snd_conv
proof (rule change_grows)
  have h: "jn_heap s p = Some h"
    using assms(1) by (auto simp: asm2_lookup_handle_def asm2_find_handle_def find_Some_iff split: if_splits option.splits)
  fix g
  show "intern_key (g\<lparr>jh_data := Some (overwrite i new d)\<rparr>) = intern_key g" by (simp add: intern_key_def)
  assume "jn_heap s p = Some g" and g: "complete g"
  with h have gh: "g = h" by simp
  show "complete (g\<lparr>jh_data := Some (overwrite i new d)\<rparr>)"
  proof (rule complete_change [OF g])
    assume "jh_kind g = Array_handle" "array_has_data g"
    with assms(2,3) length_overwrite [of i new d]
    show "array_has_data (g\<lparr>jh_data := Some (overwrite i new d)\<rparr>)"
      by (simp add: gh array_has_data_def)
  qed (simp_all add: intern_key_def)
qed

lemma good_set_element [good_ops]: "good (asm2_set_object_array_element t p i v)"
proof
  fix a s s'
  assume run: "run_state (asm2_set_object_array_element t p i v) s = (a, s')"
  have "good (do { index_error t ''SetObjectArrayElement''; State_Monad.return (Refused :: unit access) })"
    by (intro good_ops good_bind)
  note refused = state_io_relD [OF this]
  show "grows s s'"
  proof (cases "element_refused (asm2_lookup_handle s p) i")
    case True
    then show ?thesis
      using run by (intro refused) (simp add: asm2_set_object_array_element_def looked_up_def)
  next
    case False
    then obtain h where h: "asm2_lookup_handle s p = Some h" "jh_kind h = Array_handle"
      "0 \<le> i" "nat i < unat (jh_length h)" "jh_element_size h = 4"
      by (auto simp: element_refused_def asm2_array_index_def split: option.splits)
    show ?thesis
    proof (cases "jh_data h")
      case None
      then show ?thesis
        using run False h by (auto simp: asm2_set_object_array_element_def looked_up_def grows_refl)
    next
      case (Some d)
      have "s' = snd (run_state (modify_handle p (\<lambda>h. h\<lparr>jh_data := Some (overwrite (4 * nat i) (put_le32 v) d)\<rparr>)) s)"
        using run False h Some by (simp add: asm2_set_object_array_element_def looked_up_def run_modify_handle)
      then show ?thesis
        using h Some by (auto intro!: store_grows [OF h(1) Some] simp: array_has_data_def)
    qed
  qed
qed

lemma good_set_region [good_ops]: "good (asm2_set_array_region t e p start n input)"
proof
  fix a s s'
  assume run: "run_state (asm2_set_array_region t e p start n input) s = (a, s')"
  have "good (do { index_error t ''SetArrayRegion''; State_Monad.return (Refused :: unit access) })"
    by (intro good_ops good_bind)
  note refused = state_io_relD [OF this]
  show "grows s s'"
  proof (cases "array_region_refused (asm2_lookup_handle s p) start n e (input \<noteq> None)")
    case True
    then show ?thesis
      using run by (intro refused) (simp add: asm2_set_array_region_def looked_up_def)
  next
    case False
    then obtain h bs where h: "asm2_lookup_handle s p = Some h" "jh_kind h = Array_handle" "input = Some bs"
      "\<not> region_refused start n (unat (jh_length h))" "jh_element_size h = e"
      by (auto simp: array_region_refused_def split: option.splits)
    show ?thesis
    proof (cases "jh_data h")
      case None
      then show ?thesis
        using run False h by (auto simp: asm2_set_array_region_def looked_up_def grows_refl)
    next
      case (Some d)
      let ?new = "take (nat n * unat e) bs"
      have "s' = snd (run_state (modify_handle p (\<lambda>h. h\<lparr>jh_data := Some (overwrite (nat start * unat e) ?new d)\<rparr>)) s)"
        using run False h Some by (simp add: asm2_set_array_region_def looked_up_def run_modify_handle)
      moreover have "nat start * unat e + List.length ?new \<le> List.length d" if "array_has_data h"
      proof -
        have "nat start + nat n \<le> unat (jh_length h)" using h(4) by (simp add: region_refused_def) linarith
        then have "(nat start + nat n) * unat e \<le> unat (jh_length h) * unat e" by (rule mult_le_mono1)
        moreover have "List.length d = unat (jh_length h) * unat e"
          using that Some h(5) by (simp add: array_has_data_def)
        ultimately show ?thesis by (simp add: add_mult_distrib)
      qed
      ultimately show ?thesis by (auto intro!: store_grows [OF h(1) Some])
    qed
  qed
qed

lemma good_direct_buffer [good_ops]: "good (asm2_new_direct_byte_buffer a n)"
proof -
  have "good (modify_handle p (\<lambda>h. h\<lparr>jh_address := a, jh_capacity := v\<rparr>))" for p v
    by (rule good_modify_rest) (simp_all add: intern_key_def)
  then show ?thesis
    unfolding asm2_new_direct_byte_buffer_def by (intro good_ops good_bind) simp_all
qed

lemma good_tables: "(\<And>s. same_tables s (f s)) \<Longrightarrow> good (State_Monad.update f)"
  by (rule good_update) (rule same_tables_grows)

lemma good_register_one [good_ops]: "good (register_one c m)"
  unfolding register_one_def Let_def
  by (intro good_ops good_bind good_tables; simp add: same_tables_def)

lemma good_register_all [good_ops]: "good (register_all c ms)"
  by (induction ms) (simp_all add: good_return, intro good_ops good_bind)

lemma good_natives [good_ops]:
  "good (asm2_register_natives c ms n)" "good (asm2_unregister_natives c)"
proof -
  show "good (asm2_register_natives c ms n)"
    unfolding asm2_register_natives_def
    by (intro good_bind good_looked_up) (auto simp: good_return good_register_all split: option.split)
  show "good (asm2_unregister_natives c)"
    unfolding asm2_unregister_natives_def
    by (intro good_ops good_bind good_tables) (simp add: same_tables_def case_prod_beta)
qed

lemma good_host_handles [good_ops]: "good asm2_jni_bundle" "good asm2_jni_activity"
  unfolding asm2_jni_bundle_def asm2_jni_activity_def by (intro good_ops)+

section \<open>Dispatch\<close>

lemma good_values [good_ops]:
  "good m \<Longrightarrow> good (object_value m)" "good (string_value text)" "good (named_object c)"
  unfolding object_value_def string_value_def named_object_def object_value_def
  by (intro good_ops good_bind; assumption)+

lemma good_return_object [good_ops]: "good (asm2_return_object_for_signature t g)"
proof -
  have "good (case r of [] \<Rightarrow> State_Monad.return NULL
      | c # r' \<Rightarrow>
          if c = of_char CHR ''L'' then
            (let name = takeWhile (\<lambda>b. b \<noteq> of_char CHR '';'') r' in
             if List.length name = List.length r' \<or> name = [] then State_Monad.return NULL
             else do {
               ok \<leftarrow> take_block;
               if \<not> ok then State_Monad.return NULL
               else if name = java_lang_string then asm2_intern_string (Some [])
               else asm2_intern_object (Some name)
             })
          else if c = of_char CHR ''['' then
            asm2_new_array t (Some (c # r')) 0 (descriptor_element_size (byte_at r' 0))
          else State_Monad.return NULL)" for r
    unfolding Let_def by (cases r) (simp_all only: list.case, (intro good_ops good_bind)+)
  then show ?thesis
    unfolding asm2_return_object_for_signature_def by (rule good_option [OF good_return])
qed

lemma good_bundle_method [good_ops]: "good (bundle_method name receiver args)"
  unfolding bundle_method_def Let_def by (intro good_ops good_bind)

lemma good_text_method: "text_method c class_name name receiver = Some m \<Longrightarrow> good m"
  unfolding text_method_def
  by (auto split: if_splits intro!: good_ops good_bind)

lemma good_class_and_string_method:
  "class_and_string_method class_name name g receiver args = Some m \<Longrightarrow> good m"
  unfolding class_and_string_method_def Let_def
  by (auto split: if_splits intro!: good_ops good_bind)

lemma good_system_method: "system_method c class_name name g args = Some m \<Longrightarrow> good m"
  unfolding system_method_def Let_def
  by (auto split: if_splits intro!: good_ops good_bind)

lemma good_boxed_method: "boxed_method name receiver = Some m \<Longrightarrow> good m"
  unfolding boxed_method_def Let_def
  by (auto split: if_splits intro!: good_ops good_bind)

lemma good_default_method [good_ops]: "good (asm2_default_method t c method receiver args)"
  unfolding asm2_default_method_def Let_def
  by (auto split: option.split
      intro: good_text_method good_class_and_string_method good_system_method good_boxed_method good_ops)

text \<open>A client whose callback respects the tables.\<close>

lemma good_dispatch [good_ops]:
  assumes "\<And>cb m r a. callback = Some cb \<Longrightarrow> good (cb m r a)"
  shows "good (asm2_dispatch_method t c callback receiver method_id args)"
proof (cases callback)
  case None
  then show ?thesis
    unfolding asm2_dispatch_method_def by (simp only: option.case, intro good_ops good_bind)
next
  case (Some cb)
  show ?thesis
    unfolding asm2_dispatch_method_def Some option.case
    by (intro good_ops good_bind assms [OF Some])
qed

lemma good_new_object [good_ops]:
  assumes "\<And>cb m r a. callback = Some cb \<Longrightarrow> good (cb m r a)"
  shows "good (asm2_new_object t c callback class_handle method_id args)"
  unfolding asm2_new_object_def by (intro good_ops good_bind assms)

lemma good_default_field [good_ops]: "good (asm2_default_field t c field)"
  unfolding asm2_default_field_def Let_def by (intro good_ops good_bind)

lemma good_get_field [good_ops]:
  assumes "\<And>cb m r. callback = Some cb \<Longrightarrow> good (cb m r)"
  shows "good (asm2_get_field t c callback receiver field_id)"
proof (cases callback)
  case None
  then show ?thesis
    unfolding asm2_get_field_def by (simp only: option.case, intro good_ops good_bind)
next
  case (Some cb)
  show ?thesis
    unfolding asm2_get_field_def Some option.case
    by (intro good_ops good_bind assms [OF Some])
qed

lemma good_set_field [good_ops]:
  assumes "\<And>cb f r v. callback = Some cb \<Longrightarrow> good (cb f r v)"
  shows "good (asm2_set_field callback receiver field_id v)"
proof -
  have keep: "good (modify_handle field_id (\<lambda>h. h\<lparr>jh_value := v, jh_has_value := True\<rparr>))"
    by (rule good_modify_rest) (simp_all add: intern_key_def)
  show ?thesis
  proof (cases callback)
    case None
    then show ?thesis
      unfolding asm2_set_field_def by (simp only: option.case, intro good_ops good_bind keep)
  next
    case (Some cb)
    show ?thesis
      unfolding asm2_set_field_def Some option.case
      by (intro good_ops good_bind assms [OF Some] keep)
  qed
qed

lemma good_init [good_ops]: "good (asm2_jni_init t c)"
  unfolding asm2_jni_init_def configured_def by (intro good_ops good_bind)

end
