(* ===== verification/Asm2_JniEnv.thy ===== *)
theory Asm2_JniEnv
  imports Asm2_JniDispatch
begin

text \<open>
  The rest of \<open>jni_bridge.c\<close>: the table of the environment's functions, which the guest calls by position,
  the functions on typed values that the file's macros define, those that keep no state, and the bundles as
  the host uses them.
\<close>

section \<open>The function table\<close>

datatype jtype =
  J_object | J_boolean | J_byte | J_char | J_short | J_int | J_long | J_float | J_double

datatype call_kind = Instance_call | Nonvirtual_call | Static_call

text \<open>How a call gives its arguments: the functions without a suffix, with \<open>_v\<close> and with \<open>_a\<close>.\<close>

datatype argument_form = Varargs | Valist | Value_array

datatype class_function =
    F_get_version | F_define_class | F_find_class | F_from_reflected | F_to_reflected_method |
    F_to_reflected_field | F_get_superclass | F_is_assignable | F_alloc_object |
    F_get_object_class | F_is_instance_of | F_get_method_id | F_get_field_id |
    F_get_static_method_id | F_get_static_field_id | F_register_natives | F_unregister_natives |
    F_monitor | F_get_java_vm

datatype exception_function =
    F_throw | F_throw_new | F_exception_occurred | F_exception_describe | F_exception_clear |
    F_fatal_error | F_exception_check

datatype reference_function =
    F_push_local_frame | F_pop_local_frame | F_identity_ref | F_delete_ref | F_is_same_object |
    F_ensure_local_capacity | F_get_object_ref_type | F_new_direct_byte_buffer |
    F_get_direct_buffer_address | F_get_direct_buffer_capacity

datatype string_function =
    F_new_string | F_get_string_length | F_get_string_chars | F_release_string_chars |
    F_new_string_utf | F_get_string_utf_length | F_get_string_utf_chars |
    F_release_string_utf_chars | F_get_string_region | F_get_string_utf_region |
    F_get_string_critical | F_release_string_critical

datatype array_function =
    F_get_array_length | F_new_object_array | F_get_object_array_element |
    F_set_object_array_element | F_get_primitive_array_critical | F_release_primitive_array_critical

datatype env_function =
    F_class class_function | F_exception exception_function | F_reference reference_function
  | F_string string_function | F_array array_function
  | F_new_object argument_form | F_call call_kind "jtype option" argument_form
  | F_get_field bool jtype | F_set_field bool jtype
  | F_new_array jtype | F_get_elements jtype | F_release_elements jtype | F_get_region jtype | F_set_region jtype

definition env_objects :: "(nat \<times> env_function) list" where
  "env_objects =
    [(4, F_class F_get_version), (5, F_class F_define_class), (6, F_class F_find_class),
      (7, F_class F_from_reflected), (8, F_class F_from_reflected), (9, F_class F_to_reflected_method),
      (10, F_class F_get_superclass), (11, F_class F_is_assignable), (12, F_class F_to_reflected_field),
      (13, F_exception F_throw), (14, F_exception F_throw_new), (15, F_exception F_exception_occurred),
      (16, F_exception F_exception_describe), (17, F_exception F_exception_clear),
      (18, F_exception F_fatal_error), (19, F_reference F_push_local_frame),
      (20, F_reference F_pop_local_frame), (21, F_reference F_identity_ref),
      (22, F_reference F_delete_ref), (23, F_reference F_delete_ref), (24, F_reference F_is_same_object),
      (25, F_reference F_identity_ref), (26, F_reference F_ensure_local_capacity),
      (27, F_class F_alloc_object), (28, F_new_object Varargs), (29, F_new_object Valist),
      (30, F_new_object Value_array), (31, F_class F_get_object_class), (32, F_class F_is_instance_of),
      (33, F_class F_get_method_id)]"

definition env_calls :: "(nat \<times> env_function) list" where
  "env_calls =
    [(34, F_call Instance_call (Some J_object) Varargs),
      (35, F_call Instance_call (Some J_object) Valist),
      (36, F_call Instance_call (Some J_object) Value_array),
      (37, F_call Instance_call (Some J_boolean) Varargs),
      (38, F_call Instance_call (Some J_boolean) Valist),
      (39, F_call Instance_call (Some J_boolean) Value_array),
      (40, F_call Instance_call (Some J_byte) Varargs), (41, F_call Instance_call (Some J_byte) Valist),
      (42, F_call Instance_call (Some J_byte) Value_array),
      (43, F_call Instance_call (Some J_char) Varargs), (44, F_call Instance_call (Some J_char) Valist),
      (45, F_call Instance_call (Some J_char) Value_array),
      (46, F_call Instance_call (Some J_short) Varargs), (47, F_call Instance_call (Some J_short) Valist),
      (48, F_call Instance_call (Some J_short) Value_array),
      (49, F_call Instance_call (Some J_int) Varargs), (50, F_call Instance_call (Some J_int) Valist),
      (51, F_call Instance_call (Some J_int) Value_array),
      (52, F_call Instance_call (Some J_long) Varargs), (53, F_call Instance_call (Some J_long) Valist),
      (54, F_call Instance_call (Some J_long) Value_array),
      (55, F_call Instance_call (Some J_float) Varargs), (56, F_call Instance_call (Some J_float) Valist),
      (57, F_call Instance_call (Some J_float) Value_array),
      (58, F_call Instance_call (Some J_double) Varargs),
      (59, F_call Instance_call (Some J_double) Valist),
      (60, F_call Instance_call (Some J_double) Value_array), (61, F_call Instance_call None Varargs),
      (62, F_call Instance_call None Valist), (63, F_call Instance_call None Value_array),
      (64, F_call Nonvirtual_call (Some J_object) Varargs),
      (65, F_call Nonvirtual_call (Some J_object) Valist),
      (66, F_call Nonvirtual_call (Some J_object) Value_array),
      (67, F_call Nonvirtual_call (Some J_boolean) Varargs),
      (68, F_call Nonvirtual_call (Some J_boolean) Valist),
      (69, F_call Nonvirtual_call (Some J_boolean) Value_array),
      (70, F_call Nonvirtual_call (Some J_byte) Varargs),
      (71, F_call Nonvirtual_call (Some J_byte) Valist),
      (72, F_call Nonvirtual_call (Some J_byte) Value_array),
      (73, F_call Nonvirtual_call (Some J_char) Varargs),
      (74, F_call Nonvirtual_call (Some J_char) Valist),
      (75, F_call Nonvirtual_call (Some J_char) Value_array),
      (76, F_call Nonvirtual_call (Some J_short) Varargs),
      (77, F_call Nonvirtual_call (Some J_short) Valist),
      (78, F_call Nonvirtual_call (Some J_short) Value_array),
      (79, F_call Nonvirtual_call (Some J_int) Varargs), (80, F_call Nonvirtual_call (Some J_int) Valist),
      (81, F_call Nonvirtual_call (Some J_int) Value_array),
      (82, F_call Nonvirtual_call (Some J_long) Varargs),
      (83, F_call Nonvirtual_call (Some J_long) Valist),
      (84, F_call Nonvirtual_call (Some J_long) Value_array),
      (85, F_call Nonvirtual_call (Some J_float) Varargs),
      (86, F_call Nonvirtual_call (Some J_float) Valist),
      (87, F_call Nonvirtual_call (Some J_float) Value_array),
      (88, F_call Nonvirtual_call (Some J_double) Varargs),
      (89, F_call Nonvirtual_call (Some J_double) Valist),
      (90, F_call Nonvirtual_call (Some J_double) Value_array), (91, F_call Nonvirtual_call None Varargs),
      (92, F_call Nonvirtual_call None Valist), (93, F_call Nonvirtual_call None Value_array)]"

definition env_fields :: "(nat \<times> env_function) list" where
  "env_fields =
    [(94, F_class F_get_field_id), (95, F_get_field False J_object), (96, F_get_field False J_boolean),
      (97, F_get_field False J_byte), (98, F_get_field False J_char), (99, F_get_field False J_short),
      (100, F_get_field False J_int), (101, F_get_field False J_long), (102, F_get_field False J_float),
      (103, F_get_field False J_double), (104, F_set_field False J_object),
      (105, F_set_field False J_boolean), (106, F_set_field False J_byte), (107, F_set_field False J_char),
      (108, F_set_field False J_short), (109, F_set_field False J_int), (110, F_set_field False J_long),
      (111, F_set_field False J_float), (112, F_set_field False J_double)]"

definition env_static :: "(nat \<times> env_function) list" where
  "env_static =
    [(113, F_class F_get_static_method_id), (114, F_call Static_call (Some J_object) Varargs),
      (115, F_call Static_call (Some J_object) Valist),
      (116, F_call Static_call (Some J_object) Value_array),
      (117, F_call Static_call (Some J_boolean) Varargs),
      (118, F_call Static_call (Some J_boolean) Valist),
      (119, F_call Static_call (Some J_boolean) Value_array),
      (120, F_call Static_call (Some J_byte) Varargs), (121, F_call Static_call (Some J_byte) Valist),
      (122, F_call Static_call (Some J_byte) Value_array), (123, F_call Static_call (Some J_char) Varargs),
      (124, F_call Static_call (Some J_char) Valist), (125, F_call Static_call (Some J_char) Value_array),
      (126, F_call Static_call (Some J_short) Varargs), (127, F_call Static_call (Some J_short) Valist),
      (128, F_call Static_call (Some J_short) Value_array), (129, F_call Static_call (Some J_int) Varargs),
      (130, F_call Static_call (Some J_int) Valist), (131, F_call Static_call (Some J_int) Value_array),
      (132, F_call Static_call (Some J_long) Varargs), (133, F_call Static_call (Some J_long) Valist),
      (134, F_call Static_call (Some J_long) Value_array),
      (135, F_call Static_call (Some J_float) Varargs), (136, F_call Static_call (Some J_float) Valist),
      (137, F_call Static_call (Some J_float) Value_array),
      (138, F_call Static_call (Some J_double) Varargs), (139, F_call Static_call (Some J_double) Valist),
      (140, F_call Static_call (Some J_double) Value_array), (141, F_call Static_call None Varargs),
      (142, F_call Static_call None Valist), (143, F_call Static_call None Value_array),
      (144, F_class F_get_static_field_id), (145, F_get_field True J_object),
      (146, F_get_field True J_boolean), (147, F_get_field True J_byte), (148, F_get_field True J_char),
      (149, F_get_field True J_short), (150, F_get_field True J_int), (151, F_get_field True J_long),
      (152, F_get_field True J_float), (153, F_get_field True J_double), (154, F_set_field True J_object),
      (155, F_set_field True J_boolean), (156, F_set_field True J_byte), (157, F_set_field True J_char),
      (158, F_set_field True J_short), (159, F_set_field True J_int), (160, F_set_field True J_long),
      (161, F_set_field True J_float), (162, F_set_field True J_double)]"

definition env_strings :: "(nat \<times> env_function) list" where
  "env_strings =
    [(163, F_string F_new_string), (164, F_string F_get_string_length),
      (165, F_string F_get_string_chars), (166, F_string F_release_string_chars),
      (167, F_string F_new_string_utf), (168, F_string F_get_string_utf_length),
      (169, F_string F_get_string_utf_chars), (170, F_string F_release_string_utf_chars),
      (171, F_array F_get_array_length), (172, F_array F_new_object_array),
      (173, F_array F_get_object_array_element), (174, F_array F_set_object_array_element)]"

definition env_arrays :: "(nat \<times> env_function) list" where
  "env_arrays =
    [(175, F_new_array J_boolean), (176, F_new_array J_byte), (177, F_new_array J_char),
      (178, F_new_array J_short), (179, F_new_array J_int), (180, F_new_array J_long),
      (181, F_new_array J_float), (182, F_new_array J_double), (183, F_get_elements J_boolean),
      (184, F_get_elements J_byte), (185, F_get_elements J_char), (186, F_get_elements J_short),
      (187, F_get_elements J_int), (188, F_get_elements J_long), (189, F_get_elements J_float),
      (190, F_get_elements J_double), (191, F_release_elements J_boolean),
      (192, F_release_elements J_byte), (193, F_release_elements J_char),
      (194, F_release_elements J_short), (195, F_release_elements J_int), (196, F_release_elements J_long),
      (197, F_release_elements J_float), (198, F_release_elements J_double), (199, F_get_region J_boolean),
      (200, F_get_region J_byte), (201, F_get_region J_char), (202, F_get_region J_short),
      (203, F_get_region J_int), (204, F_get_region J_long), (205, F_get_region J_float),
      (206, F_get_region J_double), (207, F_set_region J_boolean), (208, F_set_region J_byte),
      (209, F_set_region J_char), (210, F_set_region J_short), (211, F_set_region J_int),
      (212, F_set_region J_long), (213, F_set_region J_float), (214, F_set_region J_double)]"

definition env_rest :: "(nat \<times> env_function) list" where
  "env_rest =
    [(215, F_class F_register_natives), (216, F_class F_unregister_natives), (217, F_class F_monitor),
      (218, F_class F_monitor), (219, F_class F_get_java_vm), (220, F_string F_get_string_region),
      (221, F_string F_get_string_utf_region), (222, F_array F_get_primitive_array_critical),
      (223, F_array F_release_primitive_array_critical), (224, F_string F_get_string_critical),
      (225, F_string F_release_string_critical), (226, F_reference F_identity_ref),
      (227, F_reference F_delete_ref), (228, F_exception F_exception_check),
      (229, F_reference F_new_direct_byte_buffer), (230, F_reference F_get_direct_buffer_address),
      (231, F_reference F_get_direct_buffer_capacity), (232, F_reference F_get_object_ref_type)]"

definition asm2_env_table :: "nat \<Rightarrow> env_function option" where
  "asm2_env_table =
     map_of (env_objects @ env_calls @ env_fields @ env_static @ env_strings @ env_arrays @ env_rest)"

datatype vm_function = VM_destroy | VM_attach | VM_detach | VM_get_env

definition asm2_vm_table :: "nat \<Rightarrow> vm_function option" where
  "asm2_vm_table = map_of [(3, VM_destroy), (4, VM_attach), (5, VM_detach), (6, VM_get_env), (7, VM_attach)]"

section \<open>Functions without state\<close>

definition asm2_vm_destroy :: int where "asm2_vm_destroy = 0"

definition asm2_get_version :: int where "asm2_get_version = 0x00010006"

definition asm2_find_class :: "bytes option \<Rightarrow> u32 jni_op" where
  "asm2_find_class name = asm2_intern_class name"

definition asm2_define_class :: "bytes option \<Rightarrow> u32 jni_op" where
  "asm2_define_class name = asm2_intern_class name"

definition asm2_from_reflected :: "u32 \<Rightarrow> u32" where "asm2_from_reflected reflection = reflection"

definition asm2_to_reflected_method :: "u32 \<Rightarrow> u32 \<Rightarrow> bool \<Rightarrow> u32" where
  "asm2_to_reflected_method class_handle method_id is_static = method_id"

definition asm2_to_reflected_field :: "u32 \<Rightarrow> u32 \<Rightarrow> bool \<Rightarrow> u32" where
  "asm2_to_reflected_field class_handle field_id is_static = field_id"

definition asm2_push_local_frame :: "int \<Rightarrow> int" where "asm2_push_local_frame capacity = 0"

definition asm2_pop_local_frame :: "u32 \<Rightarrow> u32" where "asm2_pop_local_frame result = result"

definition asm2_identity_ref :: "u32 \<Rightarrow> u32" where "asm2_identity_ref obj = obj"

definition asm2_delete_ref :: "u32 \<Rightarrow> unit jni_op" where "asm2_delete_ref obj = State_Monad.return ()"

definition asm2_is_same_object :: "u32 \<Rightarrow> u32 \<Rightarrow> bool" where "asm2_is_same_object l r \<longleftrightarrow> l = r"

definition asm2_ensure_local_capacity :: "int \<Rightarrow> int" where
  "asm2_ensure_local_capacity capacity = (if capacity < 0 then -1 else 0)"

definition asm2_monitor :: "u32 \<Rightarrow> int" where "asm2_monitor obj = 0"

text \<open>What is stored through \<open>vm\<close> (\<open>None\<close>: nothing), and the result.\<close>

definition asm2_get_java_vm :: "u32 \<Rightarrow> bool \<Rightarrow> u32 option \<times> int" where
  "asm2_get_java_vm jvm has_output = (if \<not> has_output then (None, -1) else (Some jvm, 0))"

definition asm2_get_object_ref_type :: "u32 \<Rightarrow> int" where
  "asm2_get_object_ref_type obj = (if obj \<noteq> NULL then 1 else 0)"

definition asm2_release_elements :: "u32 \<Rightarrow> int \<Rightarrow> unit jni_op" where
  "asm2_release_elements array_p mode = State_Monad.return ()"

definition asm2_release_string_chars :: "u32 \<Rightarrow> unit jni_op" where
  "asm2_release_string_chars string_p = State_Monad.return ()"

definition asm2_get_string_critical :: "jni \<Rightarrow> u32 \<Rightarrow> u16 list option" where
  "asm2_get_string_critical s p = asm2_get_string_chars s p"

text \<open>What \<open>ExceptionDescribe\<close> prints: the class and the message of the pending exception.\<close>

definition asm2_exception_describe :: "jni \<Rightarrow> nat \<Rightarrow> (bytes option \<times> bytes) option" where
  "asm2_exception_describe s t =
     map_option (\<lambda>h. (jh_class h, text_or_empty (jh_text h))) (asm2_lookup_handle s (jn_pending s t))"

definition asm2_jni_get_stats :: "jni \<Rightarrow> jni_stats" where "asm2_jni_get_stats s = jn_stats s"

definition asm2_jni_registered_native_count :: "jni \<Rightarrow> u32" where
  "asm2_jni_registered_native_count s = jn_native_count s"

section \<open>Initialisation on first use\<close>

definition no_config :: jni_config where
  "no_config =
     \<lparr>jc_package_name = None, jc_external_storage = None, jc_files_directory = None,
      jc_cache_directory = None, jc_locale_language = None, jc_locale_country = None,
      jc_device_model = None, jc_device_manufacturer = None, jc_android_release = None,
      jc_sdk_int = 0, jc_screen_width = 0, jc_screen_height = 0, jc_screen_density = 0\<rparr>"

text \<open>The configuration, once there is one, stands for \<open>asm2_initialized\<close>.\<close>

definition asm2_jni_env :: "nat \<Rightarrow> jni_config option \<Rightarrow> jni_config jni_op" where
  "asm2_jni_env t config =
     (case config of None \<Rightarrow> asm2_jni_init t no_config | Some c \<Rightarrow> State_Monad.return c)"

section \<open>Typed calls and fields\<close>

fun jtype_bits :: "jtype \<Rightarrow> nat" where
  "jtype_bits J_object = 32"
| "jtype_bits J_boolean = 8"
| "jtype_bits J_byte = 8"
| "jtype_bits J_char = 16"
| "jtype_bits J_short = 16"
| "jtype_bits J_int = 32"
| "jtype_bits J_long = 64"
| "jtype_bits J_float = 32"
| "jtype_bits J_double = 64"

definition member_of :: "jtype \<Rightarrow> u64 \<Rightarrow> u64" where
  "member_of ty v = low_part (jtype_bits ty) v"

definition result_of :: "jtype option \<Rightarrow> u64 \<Rightarrow> u64" where
  "result_of ty v = (case ty of None \<Rightarrow> 0 | Some u \<Rightarrow> member_of u v)"

definition instance_call ::
  "nat \<Rightarrow> jni_config \<Rightarrow> method_callback option \<Rightarrow> jtype option \<Rightarrow> u32 \<Rightarrow> u32 \<Rightarrow> jargs \<Rightarrow> u64 jni_op" where
  "instance_call t c callback ty receiver method_id args = do {
     v \<leftarrow> asm2_dispatch_method t c callback receiver method_id args;
     State_Monad.return (result_of ty v)
   }"

definition nonvirtual_call ::
  "nat \<Rightarrow> jni_config \<Rightarrow> method_callback option \<Rightarrow> jtype option \<Rightarrow> u32 \<Rightarrow> u32 \<Rightarrow> u32 \<Rightarrow> jargs \<Rightarrow> u64 jni_op" where
  "nonvirtual_call t c callback ty receiver class_handle method_id args = do {
     v \<leftarrow> asm2_dispatch_method t c callback receiver method_id args;
     State_Monad.return (result_of ty v)
   }"

definition static_call ::
  "nat \<Rightarrow> jni_config \<Rightarrow> method_callback option \<Rightarrow> jtype option \<Rightarrow> u32 \<Rightarrow> u32 \<Rightarrow> jargs \<Rightarrow> u64 jni_op" where
  "static_call t c callback ty class_handle method_id args = do {
     v \<leftarrow> asm2_dispatch_method t c callback class_handle method_id args;
     State_Monad.return (result_of ty v)
   }"

definition get_typed_field ::
  "nat \<Rightarrow> jni_config \<Rightarrow> field_get_callback option \<Rightarrow> jtype \<Rightarrow> u32 \<Rightarrow> u32 \<Rightarrow> u64 jni_op" where
  "get_typed_field t c callback ty receiver field_id = do {
     v \<leftarrow> asm2_get_field t c callback receiver field_id;
     State_Monad.return (member_of ty v)
   }"

definition set_typed_field ::
  "(jhandle \<Rightarrow> u32 \<Rightarrow> u64 \<Rightarrow> unit jni_op) option \<Rightarrow> jtype \<Rightarrow> u32 \<Rightarrow> u32 \<Rightarrow> u64 \<Rightarrow> unit jni_op" where
  "set_typed_field callback ty receiver field_id input =
     asm2_set_field callback receiver field_id (member_of ty input)"

section \<open>Bundles for the host\<close>

definition asm2_jni_bundle_put_boolean :: "u32 \<Rightarrow> bytes option \<Rightarrow> u8 \<Rightarrow> bool jni_op" where
  "asm2_jni_bundle_put_boolean p key v = asm2_bundle_set p key Bundle_boolean (if v \<noteq> 0 then 1 else 0)"

definition asm2_jni_bundle_get_boolean :: "jni \<Rightarrow> u32 \<Rightarrow> bytes option \<Rightarrow> bool \<Rightarrow> u8 option" where
  "asm2_jni_bundle_get_boolean s p key has_output =
     (case asm2_bundle_get s p key of
        Some (Bundle_boolean, v) \<Rightarrow> if has_output then Some (if low_part 8 v \<noteq> 0 then 1 else 0) else None
      | _ \<Rightarrow> None)"

definition asm2_jni_bundle_put_int :: "u32 \<Rightarrow> bytes option \<Rightarrow> u32 \<Rightarrow> bool jni_op" where
  "asm2_jni_bundle_put_int p key v = asm2_bundle_set p key Bundle_int (ucast v)"

definition asm2_jni_bundle_get_int :: "jni \<Rightarrow> u32 \<Rightarrow> bytes option \<Rightarrow> bool \<Rightarrow> u32 option" where
  "asm2_jni_bundle_get_int s p key has_output =
     (case asm2_bundle_get s p key of
        Some (Bundle_int, v) \<Rightarrow> if has_output then Some (ucast v) else None
      | _ \<Rightarrow> None)"

definition asm2_jni_bundle_put_long :: "u32 \<Rightarrow> bytes option \<Rightarrow> u64 \<Rightarrow> bool jni_op" where
  "asm2_jni_bundle_put_long p key v = asm2_bundle_set p key Bundle_long v"

definition asm2_jni_bundle_get_long :: "jni \<Rightarrow> u32 \<Rightarrow> bytes option \<Rightarrow> bool \<Rightarrow> u64 option" where
  "asm2_jni_bundle_get_long s p key has_output =
     (case asm2_bundle_get s p key of
        Some (Bundle_long, v) \<Rightarrow> if has_output then Some v else None
      | _ \<Rightarrow> None)"

definition asm2_jni_bundle_put_string :: "u32 \<Rightarrow> bytes option \<Rightarrow> bytes option \<Rightarrow> bool jni_op" where
  "asm2_jni_bundle_put_string p key text = do {
     v \<leftarrow> (case text of None \<Rightarrow> State_Monad.return NULL | Some x \<Rightarrow> asm2_intern_string (Some x));
     asm2_bundle_set p key Bundle_object (ucast v)
   }"

definition asm2_jni_bundle_get_string :: "jni \<Rightarrow> u32 \<Rightarrow> bytes option \<Rightarrow> bytes option" where
  "asm2_jni_bundle_get_string s p key =
     (case asm2_bundle_get s p key of
        Some (Bundle_object, v) \<Rightarrow> asm2_jni_string_chars s (ucast v)
      | _ \<Rightarrow> None)"

end
