(* ===== verification/Asm2_JniFrame.thy ===== *)
theory Asm2_JniFrame
  imports Asm2_JniEnv
begin

text \<open>
  What the operations of the JNI environment leave alone.  A view of the state that does not show the
  handles, their tables, the allocations, the statistics and the pending exception of one thread is kept by
  every operation of that thread but those on registered natives.
\<close>

section \<open>Operations that keep a view\<close>

named_theorems kept_ops

locale frame =
  fixes view :: "jni \<Rightarrow> 'v" and t :: nat
  assumes view_address: "view (s\<lparr>jn_addresses_taken := n\<rparr>) = view s"
    and view_block: "view (s\<lparr>jn_blocks_taken := n\<rparr>) = view s"
    and view_link: "view (link_handle p h s) = view s"
    and view_heap: "view (s\<lparr>jn_heap := x\<rparr>) = view s"
    and view_publish: "view (snd (run_state (asm2_publish_intern p b) s)) = view s"
    and view_stats: "view (s\<lparr>jn_stats := st\<rparr>) = view s"
    and view_pending: "view (s\<lparr>jn_pending := (jn_pending s)(t := p)\<rparr>) = view s"
begin

abbreviation kept :: "'a jni_op \<Rightarrow> bool" where
  "kept m \<equiv> state_io_rel (\<lambda>s s'. view s' = view s) m"

lemma kept_return [kept_ops]: "kept (State_Monad.return x)"
  by auto

lemma kept_get [kept_ops]: "kept State_Monad.get"
  by auto

lemma kept_bind:
  assumes "kept m" and "\<And>x. kept (f x)"
  shows "kept (State_Monad.bind m f)"
proof
  fix a s s'
  assume "run_state (State_Monad.bind m f) s = (a, s')"
  then obtain x u where "run_state m s = (x, u)" "run_state (f x) u = (a, s')"
    by (auto split: prod.splits)
  then show "view s' = view s" using assms [THEN state_io_relD] by metis
qed

lemma kept_if [kept_ops]: "kept m \<Longrightarrow> kept n \<Longrightarrow> kept (if b then m else n)"
  by simp

lemma kept_option [kept_ops]: "kept m \<Longrightarrow> (\<And>x. kept (f x)) \<Longrightarrow> kept (case v of None \<Rightarrow> m | Some x \<Rightarrow> f x)"
  by (cases v) simp_all

lemma kept_prod [kept_ops]: "(\<And>x y. kept (f x y)) \<Longrightarrow> kept (case v of (x, y) \<Rightarrow> f x y)"
  by (cases v) simp

lemma kept_list [kept_ops]: "kept m \<Longrightarrow> (\<And>x xs. kept (f x xs)) \<Longrightarrow> kept (case v of [] \<Rightarrow> m | x # xs \<Rightarrow> f x xs)"
  by (cases v) simp_all

lemma kept_update: "(\<And>s. view (f s) = view s) \<Longrightarrow> kept (State_Monad.update f)"
  by (auto simp: state_io_rel_def State_Monad.update_def)

lemma kept_primitives [kept_ops]:
  "kept take_address" "kept take_block" "kept (State_Monad.update (link_handle p h))" "kept (modify_handle p f)"
  "kept (asm2_publish_intern p b)" "kept (count_entries g)" "kept (set_pending t q)"
  by (auto simp: state_io_rel_def take_address_def take_block_def State_Monad.update_def modify_handle_def
      count_entries_def set_pending_def view_address view_block view_link view_heap view_stats view_pending
      intro: view_publish [THEN trans [rotated]])

lemma kept_handles [kept_ops]:
  "kept (asm2_duplicate x)" "kept (asm2_allocate_handle kind c)" "kept (looked_up p)"
  unfolding asm2_duplicate_def asm2_allocate_handle_def looked_up_def by (intro kept_ops kept_bind)+

lemma kept_interning [kept_ops]:
  "kept (intern_named kind c)" "kept (asm2_intern_class c)" "kept (asm2_intern_object c)"
  "kept (asm2_new_object_handle c)" "kept (asm2_intern_id kind p n g st)" "kept (asm2_intern_string c)"
proof -
  show named: "kept (intern_named kind c)" for kind
    unfolding intern_named_def Let_def by (intro kept_ops kept_bind)
  show "kept (asm2_intern_class c)" "kept (asm2_intern_object c)"
    by (simp_all add: asm2_intern_class_def asm2_intern_object_def named)
  show "kept (asm2_new_object_handle c)"
    unfolding asm2_new_object_handle_def by (intro kept_ops)
  show "kept (asm2_intern_id kind p n g st)" "kept (asm2_intern_string c)"
    unfolding asm2_intern_id_def asm2_intern_string_def Let_def by (intro kept_ops kept_bind)+
qed

lemma kept_throw [kept_ops]:
  "kept (asm2_throw t q)" "kept (asm2_throw_new t c message)" "kept (throw_named t x y)"
  "kept (asm2_exception_clear t)" "kept (asm2_fatal_error t message)" "kept (asm2_vm_detach t)"
  "kept (index_error t y)"
proof -
  show new: "kept (asm2_throw_new t c message)" for c message
    unfolding asm2_throw_new_def Let_def by (intro kept_ops kept_bind)
  show named: "kept (throw_named t x y)" for x y
    unfolding throw_named_def by (intro kept_ops kept_bind new)
  show "kept (asm2_fatal_error t message)" "kept (index_error t y)"
    unfolding asm2_fatal_error_def index_error_def by (intro kept_ops kept_bind new named)+
qed (unfold asm2_throw_def asm2_exception_clear_def asm2_vm_detach_def, (intro kept_ops kept_bind)+)

lemma kept_classes [kept_ops]:
  "kept (asm2_get_superclass c)" "kept (asm2_alloc_object c)" "kept (asm2_get_object_class c)"
  "kept (asm2_get_method_id c n g)" "kept (asm2_get_static_method_id c n g)"
  "kept (asm2_get_field_id c n g)" "kept (asm2_get_static_field_id c n g)"
  unfolding asm2_get_superclass_def asm2_alloc_object_def asm2_get_object_class_def asm2_get_method_id_def
    asm2_get_static_method_id_def asm2_get_field_id_def asm2_get_static_field_id_def
  by (intro kept_ops kept_bind)+

lemma kept_strings [kept_ops]:
  "kept (asm2_new_string t us n)" "kept (asm2_new_string_utf x)"
  "kept (asm2_get_string_region t p start n out)" "kept (asm2_get_string_utf_region t p start n out)"
  unfolding asm2_new_string_def asm2_new_string_utf_def asm2_get_string_region_def asm2_get_string_utf_region_def
  by (intro kept_ops kept_bind)+

lemma kept_arrays [kept_ops]:
  "kept (array_data len e)" "kept (asm2_new_array t c len e)" "kept (asm2_new_primitive_array t d e n)"
  "kept (asm2_new_object_array t n p q)" "kept (asm2_get_object_array_element t p i)"
  "kept (asm2_set_object_array_element t p i v)" "kept (asm2_get_array_region t e p start n out)"
  "kept (asm2_set_array_region t e p start n input)" "kept (asm2_jni_int_array t vs m)"
proof -
  show data: "kept (array_data len e)" for len e
    unfolding array_data_def by (intro kept_ops kept_bind kept_update view_stats)
  show array: "kept (asm2_new_array t c len e)" for c len e
    unfolding asm2_new_array_def by (intro kept_ops kept_bind data)
  show "kept (asm2_new_primitive_array t d e n)" "kept (asm2_new_object_array t n p q)"
    "kept (asm2_jni_int_array t vs m)"
    unfolding asm2_new_primitive_array_def asm2_new_object_array_def asm2_jni_int_array_def Let_def
    by (intro kept_ops kept_bind array)+
qed (unfold asm2_get_object_array_element_def asm2_set_object_array_element_def asm2_get_array_region_def
    asm2_set_array_region_def, (intro kept_ops kept_bind)+)

lemma kept_bundles [kept_ops]:
  "kept (asm2_bundle_set p key kind v)" "kept (asm2_bundle_clear p)"
  "kept (asm2_jni_bundle_put_byte_array t p key content n)"
  "kept (asm2_jni_bundle_put_boolean p key z)" "kept (asm2_jni_bundle_put_int p key i)"
  "kept (asm2_jni_bundle_put_long p key j)" "kept (asm2_jni_bundle_put_string p key text)"
proof -
  show set: "kept (asm2_bundle_set p key kind v)" for p kind v
    unfolding asm2_bundle_set_def by (intro kept_ops kept_bind)
  show "kept (asm2_jni_bundle_put_byte_array t p key content n)"
    unfolding asm2_jni_bundle_put_byte_array_def by (intro kept_ops kept_bind set)
qed (unfold asm2_bundle_clear_def asm2_jni_bundle_put_boolean_def asm2_jni_bundle_put_int_def
    asm2_jni_bundle_put_long_def asm2_jni_bundle_put_string_def asm2_bundle_set_def, (intro kept_ops kept_bind)+)

lemma kept_host_handles [kept_ops]:
  "kept (asm2_new_direct_byte_buffer a n)" "kept asm2_jni_bundle" "kept asm2_jni_activity"
  "kept (asm2_return_object_for_signature t g)" "kept (asm2_jni_init t c)"
  unfolding asm2_new_direct_byte_buffer_def asm2_jni_bundle_def asm2_jni_activity_def
    asm2_return_object_for_signature_def asm2_jni_init_def configured_def Let_def
  by (intro kept_ops kept_bind)+

lemma kept_bundle_method [kept_ops]: "kept (bundle_method name receiver args)"
  unfolding bundle_method_def Let_def by (intro kept_ops kept_bind)

lemma kept_values [kept_ops]:
  "kept m \<Longrightarrow> kept (object_value m)" "kept (string_value x)" "kept (named_object c)"
  unfolding string_value_def named_object_def object_value_def by (intro kept_ops kept_bind; assumption?)+

lemma kept_answers:
  "text_method c class_name name receiver = Some m \<Longrightarrow> kept m"
  "class_and_string_method class_name name g receiver args = Some m \<Longrightarrow> kept m"
  "system_method c class_name name g args = Some m \<Longrightarrow> kept m"
  "boxed_method name receiver = Some m \<Longrightarrow> kept m"
  unfolding text_method_def class_and_string_method_def system_method_def boxed_method_def Let_def
  by (auto split: if_splits intro!: kept_ops kept_bind)

lemma kept_dispatch [kept_ops]:
  "kept (asm2_default_method t c method receiver args)"
  "kept (asm2_dispatch_method t c None receiver method_id args)"
  "kept (asm2_new_object t c None p method_id args)"
proof -
  show default: "kept (asm2_default_method t c h receiver args)" for h receiver
    unfolding asm2_default_method_def Let_def
    by (auto split: option.split intro: kept_answers kept_ops)
  show dispatch: "kept (asm2_dispatch_method t c None receiver method_id args)" for receiver
    unfolding asm2_dispatch_method_def by (simp only: option.case, intro kept_ops kept_bind default)
  show "kept (asm2_new_object t c None p method_id args)"
    unfolding asm2_new_object_def by (intro kept_ops kept_bind dispatch)
qed

lemma kept_typed [kept_ops]:
  "kept (instance_call t c None ty p m args)" "kept (nonvirtual_call t c None ty p q m args)"
  "kept (static_call t c None ty p m args)" "kept (get_typed_field t c None u p f)"
  "kept (set_typed_field None u p f v)"
proof -
  have field: "kept (asm2_default_field t c h)" for h
    unfolding asm2_default_field_def Let_def by (intro kept_ops kept_bind)
  have "kept (asm2_get_field t c None p f)"
    unfolding asm2_get_field_def by (simp only: option.case, intro kept_ops kept_bind field)
  then show "kept (get_typed_field t c None u p f)"
    unfolding get_typed_field_def by (intro kept_ops kept_bind)
  show "kept (set_typed_field None u p f v)"
    unfolding set_typed_field_def asm2_set_field_def by (simp only: option.case, intro kept_ops kept_bind)
qed (unfold instance_call_def nonvirtual_call_def static_call_def, (intro kept_ops kept_bind)+)

end

section \<open>Views that do not show the natives either\<close>

locale frame_natives = frame +
  assumes view_natives: "view (s\<lparr>jn_natives := ns, jn_native_count := n\<rparr>) = view s"
begin

lemma kept_register_one: "kept (register_one c m)"
  unfolding register_one_def Let_def by (intro kept_ops kept_bind kept_update view_natives)

lemma kept_natives [kept_ops]: "kept (asm2_register_natives p ms n)" "kept (asm2_unregister_natives p)"
proof -
  have all: "kept (register_all c xs)" for c xs
    by (induction xs) (simp_all add: kept_return, intro kept_ops kept_bind kept_register_one)
  show "kept (asm2_register_natives p ms n)"
    unfolding asm2_register_natives_def by (intro kept_ops kept_bind all)
  show "kept (asm2_unregister_natives p)"
    unfolding asm2_unregister_natives_def
    by (intro kept_ops kept_bind kept_update) (simp add: case_prod_beta view_natives)
qed

end

section \<open>Two views\<close>

text \<open>The registered natives, which only the two functions of \<open>frame_natives\<close> change.\<close>

interpretation natives: frame "\<lambda>s. (jn_natives s, jn_native_count s)" t for t
  by unfold_locales (simp_all add: asm2_publish_intern_def State_Monad.update_def Let_def link_handle_def)

text \<open>The pending exceptions of the threads other than \<open>t\<close>.\<close>

interpretation others: frame_natives "\<lambda>s. (jn_pending s)(t := 0)" t for t
  by unfold_locales (simp_all add: asm2_publish_intern_def State_Monad.update_def Let_def link_handle_def)

end
