(* ===== verification/Asm2_JniCalls.thy ===== *)
theory Asm2_JniCalls
  imports Asm2_JniInv Asm2_JniFrame
begin

text \<open>
  Histories of calls into the JNI environment: every function of the table and of the host's interface that
  changes the state, each made by some thread.  The states they reach satisfy the invariant of
  \<open>Asm2_JniInv\<close>.  The member names of a history are not \<open>NULL\<close> and its object arrays have a length a
  \<open>jint\<close> can hold.  A callback of the client is represented by the calls it makes itself: what it answers
  has no effect here, and a call that it does not answer is a call without a callback.
\<close>

section \<open>Calls\<close>

datatype class_call =
    K_intern_class "bytes option" | K_intern_object "bytes option" | K_new_string "u16 list option" int
  | K_new_string_utf "bytes option" | K_member bool bool u32 bytes bytes
  | K_superclass u32 | K_alloc_object u32 | K_object_class u32
  | K_string_region u32 int int bool | K_string_utf_region u32 int int bool

datatype array_call =
    K_new_array string u32 int | K_new_object_array int u32 u32
  | K_get_element u32 int | K_set_element u32 int u32
  | K_get_region u32 u32 int int bool | K_set_region u32 u32 int int "bytes option"
  | K_direct_buffer u32 int

datatype exception_call =
  K_throw u32 | K_throw_new u32 "bytes option" | K_exception_clear | K_fatal_error "bytes option" | K_detach

datatype dispatch_call =
    K_call call_kind jni_config "jtype option" u32 u32 jargs
  | K_new_object jni_config u32 u32 jargs | K_get_field jni_config jtype u32 u32 | K_set_field jtype u32 u32 u64

datatype host_call =
    K_init jni_config | K_bundle | K_activity | K_int_array "u32 list option" u32
  | K_put_boolean u32 "bytes option" u8 | K_put_int u32 "bytes option" u32 | K_put_long u32 "bytes option" u64
  | K_put_string u32 "bytes option" "bytes option" | K_put_byte_array u32 "bytes option" "bytes option" u32

type_synonym native_method = "bytes option \<times> bytes option \<times> u32"

datatype native_call = K_register u32 "native_method list option" int | K_unregister u32

datatype jni_call =
    Class_call class_call | Array_call array_call | Exception_call exception_call
  | Dispatch_call dispatch_call | Host_call host_call | Native_call native_call

definition ignoring :: "'a jni_op \<Rightarrow> unit jni_op" where
  "ignoring m = do { m; State_Monad.return () }"

definition member_kind :: "bool \<Rightarrow> handle_kind" where
  "member_kind is_method = (if is_method then Method_handle else Field_handle)"

fun perform_class :: "nat \<Rightarrow> class_call \<Rightarrow> unit jni_op" where
  "perform_class t (K_intern_class c) = ignoring (asm2_find_class c)"
| "perform_class t (K_intern_object c) = ignoring (asm2_intern_object c)"
| "perform_class t (K_new_string us n) = ignoring (asm2_new_string t us n)"
| "perform_class t (K_new_string_utf x) = ignoring (asm2_new_string_utf x)"
| "perform_class t (K_member is_method st c n g) = ignoring (asm2_intern_id (member_kind is_method) c (Some n) (Some g) st)"
| "perform_class t (K_superclass c) = ignoring (asm2_get_superclass c)"
| "perform_class t (K_alloc_object c) = ignoring (asm2_alloc_object c)"
| "perform_class t (K_object_class p) = ignoring (asm2_get_object_class p)"
| "perform_class t (K_string_region p start n out) = ignoring (asm2_get_string_region t p start n out)"
| "perform_class t (K_string_utf_region p start n out) = ignoring (asm2_get_string_utf_region t p start n out)"

fun perform_array :: "nat \<Rightarrow> array_call \<Rightarrow> unit jni_op" where
  "perform_array t (K_new_array d e n) = ignoring (asm2_new_primitive_array t d e n)"
| "perform_array t (K_new_object_array n c p) =
     (if n < 2 ^ 31 then ignoring (asm2_new_object_array t n c p) else State_Monad.return ())"
| "perform_array t (K_get_element p i) = ignoring (asm2_get_object_array_element t p i)"
| "perform_array t (K_set_element p i v) = ignoring (asm2_set_object_array_element t p i v)"
| "perform_array t (K_get_region e p start n out) = ignoring (asm2_get_array_region t e p start n out)"
| "perform_array t (K_set_region e p start n input) = ignoring (asm2_set_array_region t e p start n input)"
| "perform_array t (K_direct_buffer a n) = ignoring (asm2_new_direct_byte_buffer a n)"

fun perform_exception :: "nat \<Rightarrow> exception_call \<Rightarrow> unit jni_op" where
  "perform_exception t (K_throw p) = ignoring (asm2_throw t p)"
| "perform_exception t (K_throw_new c m) = ignoring (asm2_throw_new t c m)"
| "perform_exception t K_exception_clear = asm2_exception_clear t"
| "perform_exception t (K_fatal_error m) = asm2_fatal_error t m"
| "perform_exception t K_detach = ignoring (asm2_vm_detach t)"

fun perform_dispatch :: "nat \<Rightarrow> dispatch_call \<Rightarrow> unit jni_op" where
  "perform_dispatch t (K_call Instance_call c ty p m args) = ignoring (instance_call t c None ty p m args)"
| "perform_dispatch t (K_call Nonvirtual_call c ty p m args) = ignoring (nonvirtual_call t c None ty p NULL m args)"
| "perform_dispatch t (K_call Static_call c ty p m args) = ignoring (static_call t c None ty p m args)"
| "perform_dispatch t (K_new_object c p m args) = ignoring (asm2_new_object t c None p m args)"
| "perform_dispatch t (K_get_field c ty p f) = ignoring (get_typed_field t c None ty p f)"
| "perform_dispatch t (K_set_field ty p f v) = set_typed_field None ty p f v"

fun perform_host :: "nat \<Rightarrow> host_call \<Rightarrow> unit jni_op" where
  "perform_host t (K_init c) = ignoring (asm2_jni_init t c)"
| "perform_host t K_bundle = ignoring asm2_jni_bundle"
| "perform_host t K_activity = ignoring asm2_jni_activity"
| "perform_host t (K_int_array vs n) = ignoring (asm2_jni_int_array t vs n)"
| "perform_host t (K_put_boolean p key z) = ignoring (asm2_jni_bundle_put_boolean p key z)"
| "perform_host t (K_put_int p key i) = ignoring (asm2_jni_bundle_put_int p key i)"
| "perform_host t (K_put_long p key j) = ignoring (asm2_jni_bundle_put_long p key j)"
| "perform_host t (K_put_string p key x) = ignoring (asm2_jni_bundle_put_string p key x)"
| "perform_host t (K_put_byte_array p key x n) = ignoring (asm2_jni_bundle_put_byte_array t p key x n)"

fun perform_native :: "nat \<Rightarrow> native_call \<Rightarrow> unit jni_op" where
  "perform_native t (K_register c ms n) = ignoring (asm2_register_natives c ms n)"
| "perform_native t (K_unregister c) = ignoring (asm2_unregister_natives c)"

fun perform :: "nat \<Rightarrow> jni_call \<Rightarrow> unit jni_op" where
  "perform t (Class_call c) = perform_class t c"
| "perform t (Array_call c) = perform_array t c"
| "perform t (Exception_call c) = perform_exception t c"
| "perform t (Dispatch_call c) = perform_dispatch t c"
| "perform t (Host_call c) = perform_host t c"
| "perform t (Native_call c) = perform_native t c"

definition call_step :: "nat \<times> jni_call \<Rightarrow> jni \<Rightarrow> jni" where
  "call_step c s = snd (run_state (perform (fst c) (snd c)) s)"

definition run_calls :: "(nat \<times> jni_call) list \<Rightarrow> jni \<Rightarrow> jni" where
  "run_calls cs s = fold call_step cs s"

text \<open>The zeroed tables of the loaded program; the answers to allocations are given.\<close>

definition jni_start :: "(nat \<Rightarrow> u32) \<Rightarrow> (nat \<Rightarrow> bool) \<Rightarrow> jni" where
  "jni_start addresses blocks =
     \<lparr>jn_heap = \<lambda>_. None, jn_handles = [], jn_handle_buckets = \<lambda>_. [], jn_intern_buckets = \<lambda>_. [],
      jn_handle_bucket_lengths = \<lambda>_. 0, jn_intern_bucket_lengths = \<lambda>_. 0, jn_natives = [],
      jn_native_count = 0,
      jn_stats = \<lparr>js_handles = 0, js_of_kind = \<lambda>_. 0, js_array_bytes = 0, js_bundle_entries = 0,
                  js_longest_handle_bucket = 0, js_longest_intern_bucket = 0\<rparr>,
      jn_pending = \<lambda>_. 0, jn_addresses = addresses, jn_addresses_taken = 0, jn_blocks = blocks,
      jn_blocks_taken = 0\<rparr>"

definition distinct_addresses :: "(nat \<Rightarrow> u32) \<Rightarrow> bool" where
  "distinct_addresses a \<longleftrightarrow> (\<forall>i j. i \<noteq> j \<longrightarrow> a i \<noteq> NULL \<longrightarrow> a i \<noteq> a j)"

section \<open>Every call respects the tables\<close>

lemma good_ignoring [good_ops]: "good m \<Longrightarrow> good (ignoring m)"
  unfolding ignoring_def by (intro good_ops good_bind)

lemma good_typed [good_ops]:
  "good (instance_call t c None ty p m args)" "good (nonvirtual_call t c None ty p q m args)"
  "good (static_call t c None ty p m args)" "good (get_typed_field t c None u p f)"
  "good (set_typed_field None u p f v)" "good (asm2_find_class n)"
  unfolding instance_call_def nonvirtual_call_def static_call_def get_typed_field_def set_typed_field_def
    asm2_find_class_def
  by (intro good_ops good_bind good_dispatch good_get_field good_set_field; simp)+

lemma good_bundle_put [good_ops]:
  "good (asm2_jni_bundle_put_boolean p key z)" "good (asm2_jni_bundle_put_int p key i)"
  "good (asm2_jni_bundle_put_long p key j)" "good (asm2_jni_bundle_put_string p key text)"
  unfolding asm2_jni_bundle_put_boolean_def asm2_jni_bundle_put_int_def asm2_jni_bundle_put_long_def
    asm2_jni_bundle_put_string_def
  by (intro good_ops good_bind)+

lemma good_perform: "good (perform t c)"
proof (cases c)
  case (Class_call k)
  then show ?thesis by (cases k) (auto simp: member_kind_def intro!: good_ignoring intro: good_ops)
next
  case (Array_call k)
  then show ?thesis by (cases k) (auto intro!: good_ignoring good_new_object_array intro: good_ops)
next
  case (Exception_call k)
  then show ?thesis by (cases k) (auto intro: good_ops)
next
  case (Dispatch_call k)
  then show ?thesis
    by (cases "(t, k)" rule: perform_dispatch.cases) (auto intro!: good_ignoring good_new_object intro: good_ops)
next
  case (Host_call k)
  then show ?thesis by (cases k) (auto intro: good_ops)
next
  case (Native_call k)
  then show ?thesis by (cases k) (auto intro: good_ops)
qed

lemma run_calls_simps [simp]:
  "run_calls [] s = s" "run_calls (c # cs) s = run_calls cs (call_step c s)"
  "run_calls (cs @ ds) s = run_calls ds (run_calls cs s)"
  by (simp_all add: run_calls_def)

lemma call_step_grows: "grows s (call_step c s)"
  unfolding call_step_def by (rule good_grows [OF good_perform])

lemma run_calls_grows: "grows s (run_calls cs s)"
  by (induction cs arbitrary: s) (auto intro: grows_refl grows_trans call_step_grows)

lemma start_inv: "distinct_addresses a \<Longrightarrow> jni_inv (jni_start a b)"
  by (auto simp: jni_inv_def heap_inv_def intern_inv_def jni_start_def distinct_addresses_def
      addresses_distinct_def interned_def)

lemma reached_inv: "distinct_addresses a \<Longrightarrow> jni_inv (run_calls cs (jni_start a b))"
  using run_calls_grows start_inv by (blast dest: grows_inv)

text \<open>The lookup finds every handle, and nothing else.\<close>

lemma lookup_is_heap:
  assumes "jni_inv s"
  shows "asm2_lookup_handle s p = jn_heap s p"
proof (cases "jn_heap s p")
  case None
  then have "p \<notin> set (jn_handle_buckets s (asm2_handle_bucket p))"
    using assms by (auto simp: jni_inv_def heap_inv_def)
  with None show ?thesis
    by (auto simp: asm2_lookup_handle_def asm2_find_handle_def find_Some_iff split: option.split)
next
  case (Some h)
  then have "p \<in> set (jn_handle_buckets s (asm2_handle_bucket p))" "p \<noteq> NULL"
    using assms unfolding jni_inv_def heap_inv_def by blast+
  then show ?thesis
    by (auto simp: asm2_lookup_handle_def asm2_find_handle_def find_Some_iff find_None_iff split: option.split)
qed

section \<open>What a call leaves alone\<close>

context frame
begin

lemma kept_ignoring [kept_ops]: "kept m \<Longrightarrow> kept (ignoring m)"
  unfolding ignoring_def by (intro kept_ops kept_bind)

lemma kept_find_class [kept_ops]: "kept (asm2_find_class c)"
  unfolding asm2_find_class_def by (intro kept_ops)

lemma kept_perform:
  assumes "\<And>k. c \<noteq> Native_call k"
  shows "kept (perform t c)"
proof (cases c)
  case (Class_call k)
  then show ?thesis by (cases k) (auto intro: kept_ops)
next
  case (Array_call k)
  then show ?thesis by (cases k) (auto intro: kept_ops)
next
  case (Exception_call k)
  then show ?thesis by (cases k) (auto intro: kept_ops)
next
  case (Dispatch_call k)
  then show ?thesis by (cases "(t, k)" rule: perform_dispatch.cases) (auto intro: kept_ops)
next
  case (Host_call k)
  then show ?thesis by (cases k) (auto intro: kept_ops)
qed (use assms in simp)

end

context frame_natives
begin

lemma kept_every_call: "kept (perform t c)"
proof (cases c)
  case (Native_call k)
  then show ?thesis by (cases k) (auto intro: kept_ops)
qed (rule kept_perform, simp)+

end

lemma others_step: "(jn_pending (call_step c s))(fst c := 0) = (jn_pending s)(fst c := 0)"
  using others.kept_every_call [of "fst c" "snd c"] unfolding call_step_def state_io_rel_def by simp

lemma natives_step:
  assumes "\<And>k. snd c \<noteq> Native_call k"
  shows "jn_natives (call_step c s) = jn_natives s" and "jn_native_count (call_step c s) = jn_native_count s"
  using natives.kept_perform [OF assms, of "fst c"] unfolding call_step_def state_io_rel_def by simp_all

section \<open>A small run\<close>

definition example_blocks :: "u32 list" where
  "example_blocks = [16, 32, 48, 64, 80, 96, 112, 128, 144]"

definition example_addresses :: "nat \<Rightarrow> u32" where
  "example_addresses n = (if n < List.length example_blocks then example_blocks ! n else 0)"

lemma example_distinct: "distinct_addresses example_addresses"
proof -
  have "distinct example_blocks" by (simp add: example_blocks_def)
  then show ?thesis
    by (auto simp: distinct_addresses_def example_addresses_def nth_eq_iff_index_eq split: if_splits)
qed

abbreviation "example_start \<equiv> jni_start example_addresses (\<lambda>_. True)"

end
