(* ===== verification/Asm2_JniNatives.thy ===== *)
theory Asm2_JniNatives
  imports Asm2_JniCalls
begin

text \<open>
  The registered natives of \<open>jni_bridge.c\<close> are a map from class, name and signature to the function: the
  list of records, in which a function of 0 marks one that was removed, refines it, and the counter is the
  number of its entries.
\<close>

section \<open>The list of records\<close>

type_synonym native_key = "bytes option \<times> bytes option \<times> bytes option"

definition native_key :: "jni_native \<Rightarrow> native_key" where
  "native_key n = (nt_class n, nt_name n, nt_signature n)"

definition listed :: "jni_native list \<Rightarrow> native_key \<Rightarrow> u32" where
  "listed ns k = (case map_of (map (\<lambda>n. (native_key n, nt_function n)) ns) k of None \<Rightarrow> 0 | Some f \<Rightarrow> f)"

definition active :: "jni_native list \<Rightarrow> jni_native list" where
  "active ns = filter (\<lambda>n. nt_function n \<noteq> 0) ns"

lemma native_is_key: "native_is c n g = (\<lambda>x. native_key x = (c, n, g))"
  by (auto simp: native_is_def native_key_def asm2_text_equal_def)

lemma keys_set_function [simp]: "map native_key (set_function this f ns) = map native_key ns"
  by (induction ns) (auto simp: native_key_def)

lemma length_set_function [simp]: "List.length (set_function this f ns) = List.length ns"
  by (induction ns) auto

lemma listed_Cons: "listed (n # ns) k = (if native_key n = k then nt_function n else listed ns k)"
  by (simp add: listed_def)

lemma listed_Nil [simp]: "listed [] k = 0"
  by (simp add: listed_def)

lemma listed_absent: "k \<notin> native_key ` set ns \<Longrightarrow> listed ns k = 0"
  by (induction ns) (auto simp: listed_Cons)

lemma listed_set_function:
  "List.find (\<lambda>x. native_key x = k) ns = Some n \<Longrightarrow>
     listed (set_function (\<lambda>x. native_key x = k) f ns) = (listed ns)(k := f)"
proof (induction ns)
  case (Cons x xs)
  show ?case
  proof (cases "native_key x = k")
    case True
    then show ?thesis by (auto simp: listed_Cons native_key_def)
  next
    case False
    with Cons show ?thesis by (auto simp: listed_Cons)
  qed
qed simp

lemma active_set_function:
  "List.find (\<lambda>x. native_key x = k) ns = Some n \<Longrightarrow>
     List.length (active (set_function (\<lambda>x. native_key x = k) f ns)) + of_bool (nt_function n \<noteq> 0)
       = List.length (active ns) + of_bool (f \<noteq> 0)"
  by (induction ns) (auto simp: active_def)

lemma find_active:
  assumes "distinct (map native_key ns)"
  shows "(case List.find (\<lambda>n. nt_function n \<noteq> 0 \<and> native_key n = k) ns of Some n \<Rightarrow> nt_function n | None \<Rightarrow> 0)
    = listed ns k"
  using assms
proof (induction ns)
  case (Cons x xs)
  then show ?case using listed_absent [of k xs] by (auto simp: listed_Cons)
qed simp

lemma active_card:
  assumes "distinct (map native_key ns)"
  shows "List.length (active ns) = card {k. listed ns k \<noteq> 0}"
proof -
  have "{k. listed ns k \<noteq> 0} = native_key ` set (active ns)"
    using assms
  proof (induction ns)
    case (Cons x xs)
    then show ?case using listed_absent [of "native_key x" xs]
      by (auto simp: listed_Cons active_def split: if_splits)
  qed (simp add: active_def)
  moreover have "distinct (map native_key (active ns))"
    using assms by (auto simp: active_def distinct_map intro: inj_on_subset)
  ultimately show ?thesis by (metis distinct_card length_map list.set_map)
qed

section \<open>The invariant\<close>

definition natives_inv :: "jni \<Rightarrow> bool" where
  "natives_inv s \<longleftrightarrow>
     distinct (map native_key (jn_natives s))
     \<and> (List.length (jn_natives s) < 2 ^ 32 \<longrightarrow> unat (jn_native_count s) = List.length (active (jn_natives s)))"

definition native_map :: "jni \<Rightarrow> native_key \<Rightarrow> u32" where
  "native_map s k = (case k of (c, n, g) \<Rightarrow> asm2_jni_find_registered_native s c n g)"

lemma native_map_listed: "natives_inv s \<Longrightarrow> native_map s = listed (jn_natives s)"
  by (rule ext) (auto simp: native_map_def natives_inv_def asm2_jni_find_registered_native_def native_is_key
      find_active split: prod.split)

lemma active_le: "List.length (active ns) \<le> List.length ns"
  by (simp add: active_def)

text \<open>The counter, on a change of the number of active records by one.\<close>

lemma count_native_inactive:
  "unat n = k \<Longrightarrow> Suc k < 2 ^ 32 \<Longrightarrow> unat (count_native False f n) = k + of_bool (f \<noteq> 0)"
  by (auto simp: count_native_def unat_word_ariths)

lemma count_native_active:
  "unat n = Suc k \<Longrightarrow> unat (count_native True f n) = (if f = 0 then k else Suc k)"
  by (auto simp: count_native_def unat_sub_if')

definition same_natives :: "jni \<Rightarrow> jni \<Rightarrow> bool" where
  "same_natives s u \<longleftrightarrow>
     jn_blocks u = jn_blocks s \<and> jn_natives u = jn_natives s \<and> jn_native_count u = jn_native_count s"

lemma register_one_refines:
  assumes "natives_inv s" and "all_blocks s" and "run_state (register_one c (n, g, f)) s = (ok, s')"
  shows "ok \<and> natives_inv s' \<and> all_blocks s' \<and> List.length (jn_natives s) \<le> List.length (jn_natives s')
    \<and> listed (jn_natives s') = (listed (jn_natives s))((c, Some (text_or_empty n), Some (text_or_empty g)) := f)"
proof -
  let ?k = "(c, Some (text_or_empty n), Some (text_or_empty g))"
  show ?thesis
  proof (cases "List.find (\<lambda>x. native_key x = ?k) (jn_natives s)")
    case (Some m)
    then have "m \<in> set (jn_natives s)" by (auto simp: find_Some_iff)
    then have act: "nt_function m \<noteq> 0 \<Longrightarrow> active (jn_natives s) \<noteq> []" by (auto simp: active_def filter_empty_conv)
    have s': "ok" "s' = s\<lparr>jn_natives := set_function (\<lambda>x. native_key x = ?k) f (jn_natives s),
        jn_native_count := count_native (nt_function m \<noteq> 0) f (jn_native_count s)\<rparr>"
      using assms(3) Some by (simp_all add: register_one_def native_is_key State_Monad.update_def Let_def)
    have "unat (jn_native_count s') = List.length (active (jn_natives s'))"
      if len: "List.length (jn_natives s') < 2 ^ 32"
    proof -
      have cnt: "unat (jn_native_count s) = List.length (active (jn_natives s))"
        and room: "List.length (active (jn_natives s)) < 2 ^ 32"
        using assms(1) len active_le [of "jn_natives s"] by (simp_all add: s' natives_inv_def)
      show ?thesis
      proof (cases "nt_function m = 0")
        case True
        then have "List.length (active (jn_natives s)) < List.length (jn_natives s)"
          unfolding active_def using \<open>m \<in> set (jn_natives s)\<close> by (intro length_filter_less) auto
        then show ?thesis
          using True active_set_function [OF Some, of f] count_native_inactive [OF cnt, of f] len
          by (simp add: s')
      next
        case False
        then obtain j where j: "List.length (active (jn_natives s)) = Suc j" using act by (cases "active (jn_natives s)") auto
        then show ?thesis
          using False active_set_function [OF Some, of f] count_native_active [of "jn_native_count s" j f] cnt
          by (auto simp: s')
      qed
    qed
    then show ?thesis
      using s' assms(1,2) listed_set_function [OF Some] by (simp add: natives_inv_def all_blocks_def)
  next
    case None
    have b: "jn_blocks s i" for i using assms(2) by (simp add: all_blocks_def)
    have dup: "\<exists>v. run_state (asm2_duplicate x) u = (x, v) \<and> same_natives u v"
      if "same_natives s u" for x and u :: jni
    proof (cases x)
      case (Some y)
      have "jn_blocks u (jn_blocks_taken u)" using b that unfolding same_natives_def by metis
      then show ?thesis using Some by (simp add: asm2_duplicate_def take_block_def same_natives_def)
    qed (simp add: asm2_duplicate_def same_natives_def)
    have trans: "same_natives s v" if "same_natives s u" "same_natives u v" for u v
      using that unfolding same_natives_def by metis
    obtain u1 where u1: "run_state take_block s = (True, u1)" "same_natives s u1"
      using b by (simp add: take_block_def same_natives_def)
    obtain u2 where u2: "run_state (asm2_duplicate c) u1 = (c, u2)" "same_natives s u2"
      using dup [OF u1(2)] trans [OF u1(2)] by blast
    obtain u3 where u3: "run_state (asm2_duplicate (Some (text_or_empty n))) u2 = (Some (text_or_empty n), u3)"
      "same_natives s u3"
      using dup [OF u2(2)] trans [OF u2(2)] by blast
    obtain u where u4: "run_state (asm2_duplicate (Some (text_or_empty g))) u3 = (Some (text_or_empty g), u)"
      "same_natives s u"
      using dup [OF u3(2)] trans [OF u3(2)] by blast
    have u: "jn_blocks u = jn_blocks s" "jn_natives u = jn_natives s" "jn_native_count u = jn_native_count s"
      "ok" "s' = u\<lparr>jn_natives := \<lparr>nt_class = c, nt_name = Some (text_or_empty n),
         nt_signature = Some (text_or_empty g), nt_function = f\<rparr> # jn_natives u,
         jn_native_count := count_native False f (jn_native_count u)\<rparr>"
      using assms(3) None u1(1) u2(1) u3(1) u4
      by (simp_all add: register_one_def native_is_key State_Monad.update_def Let_def same_natives_def)
    have "unat (jn_native_count s') = List.length (active (jn_natives s'))"
      if len: "List.length (jn_natives s') < 2 ^ 32"
    proof -
      have "Suc (List.length (active (jn_natives s))) < 2 ^ 32"
        using len active_le [of "jn_natives s"] by (simp add: u)
      moreover have "unat (jn_native_count s) = List.length (active (jn_natives s))"
        using assms(1) len by (simp add: u natives_inv_def)
      ultimately show ?thesis using count_native_inactive [of "jn_native_count s"] by (simp add: u active_def)
    qed
    moreover have "?k \<notin> native_key ` set (jn_natives s)" using None by (auto simp: find_None_iff)
    moreover have "listed (jn_natives s') = (listed (jn_natives s))(?k := f)"
      by (rule ext) (auto simp: u listed_Cons native_key_def)
    ultimately show ?thesis
      using assms(1,2) u by (simp add: natives_inv_def all_blocks_def native_key_def)
  qed
qed

fun spec_register :: "bytes option \<Rightarrow> native_method list \<Rightarrow> (native_key \<Rightarrow> u32) \<Rightarrow> native_key \<Rightarrow> u32" where
  "spec_register c [] M = M"
| "spec_register c ((n, g, f) # ms) M =
     spec_register c ms (M((c, Some (text_or_empty n), Some (text_or_empty g)) := f))"

definition spec_unregister :: "bytes option \<Rightarrow> (native_key \<Rightarrow> u32) \<Rightarrow> native_key \<Rightarrow> u32" where
  "spec_unregister c M k = (if fst k = c then 0 else M k)"

definition natives_ok :: "jni \<Rightarrow> bool" where
  "natives_ok s \<longleftrightarrow> natives_inv s \<and> all_blocks s"

lemma register_all_refines:
  assumes "natives_ok s" and "run_state (register_all c ms) s = (r, s')"
  shows "r = 0 \<and> natives_ok s' \<and> List.length (jn_natives s) \<le> List.length (jn_natives s')
    \<and> listed (jn_natives s') = spec_register c ms (listed (jn_natives s))"
  using assms
proof (induction ms arbitrary: s)
  case (Cons m ms)
  obtain n g f where m: "m = (n, g, f)" by (cases m)
  obtain ok u where one: "run_state (register_one c (n, g, f)) s = (ok, u)" by fastforce
  note u = register_one_refines [OF _ _ one, folded natives_ok_def]
  with Cons.prems(1) have "ok" "natives_ok u" by (auto simp: natives_ok_def)
  with Cons.prems(2) have "run_state (register_all c ms) u = (r, s')" by (simp add: m one)
  from Cons.IH [OF \<open>natives_ok u\<close> this] u Cons.prems(1) show ?case by (auto simp: m natives_ok_def)
qed auto

definition cleared :: "bytes option \<Rightarrow> jni_native \<Rightarrow> jni_native" where
  "cleared c x = (if nt_function x \<noteq> 0 \<and> asm2_text_equal (nt_class x) c then x\<lparr>nt_function := 0\<rparr> else x)"

lemma unregister_all_map: "fst (unregister_all c ns k) = map (cleared c) ns"
  by (induction ns arbitrary: k) (auto simp: cleared_def split: prod.splits, (metis fst_conv)+)

lemma key_cleared [simp]: "native_key (cleared c x) = native_key x"
  by (simp add: cleared_def native_key_def)

lemma function_cleared: "nt_function (cleared c x) = (if nt_class x = c then 0 else nt_function x)"
  by (simp add: cleared_def asm2_text_equal_def)

lemma listed_cleared: "listed (map (cleared c) ns) = spec_unregister c (listed ns)"
proof
  fix k
  have key: "fst (native_key x) = nt_class x" for x by (simp add: native_key_def)
  show "listed (map (cleared c) ns) k = spec_unregister c (listed ns) k"
    by (induction ns) (auto simp: listed_Cons spec_unregister_def function_cleared key)
qed

lemma unregister_all_count:
  "unat k = List.length (active ns) + d \<Longrightarrow>
     unat (snd (unregister_all c ns k)) = List.length (active (map (cleared c) ns)) + d"
proof (induction ns arbitrary: k d)
  case (Cons x xs)
  show ?case
  proof (cases "nt_function x \<noteq> 0 \<and> asm2_text_equal (nt_class x) c")
    case True
    then have "unat k = Suc (List.length (active xs) + d)" using Cons.prems by (simp add: active_def)
    then have "k \<noteq> 0" "unat (k - 1) = List.length (active xs) + d" by (auto simp: unat_sub_if')
    with True show ?thesis using Cons.IH [of "k - 1" d] by (auto simp: active_def cleared_def split: prod.split)
  next
    case False
    show ?thesis
    proof (cases "nt_function x = 0")
      case True
      then show ?thesis
        using Cons.IH [of k d] Cons.prems by (auto simp: active_def cleared_def split: prod.split)
    next
      case active: False
      have "unat k = List.length (active xs) + Suc d" using Cons.prems active by (simp add: active_def)
      from Cons.IH [OF this] active False show ?thesis by (auto simp: active_def cleared_def split: prod.split)
    qed
  qed
qed (simp add: active_def)

section \<open>Histories\<close>

text \<open>What a call does to the map; the state gives the class of the handle.\<close>

fun native_spec :: "jni \<Rightarrow> jni_call \<Rightarrow> (native_key \<Rightarrow> u32) \<Rightarrow> native_key \<Rightarrow> u32" where
  "native_spec s (Native_call (K_register p (Some ms) n)) M =
     (case asm2_lookup_handle s p of
        Some h \<Rightarrow> if n < 0 then M else spec_register (jh_class h) (take (nat n) ms) M
      | None \<Rightarrow> M)"
| "native_spec s (Native_call (K_unregister p)) M =
     (case asm2_lookup_handle s p of Some h \<Rightarrow> spec_unregister (jh_class h) M | None \<Rightarrow> M)"
| "native_spec s c M = M"

lemma run_looked_up: "run_state (looked_up p) s = (asm2_lookup_handle s p, s)"
  by (simp add: looked_up_def)

lemma natives_unchanged:
  assumes "natives_ok s" and "jni_inv s"
    and "jn_natives (call_step c s) = jn_natives s" and "jn_native_count (call_step c s) = jn_native_count s"
  shows "natives_ok (call_step c s)"
  using assms call_step_grows [of s c]
  by (auto simp: natives_ok_def natives_inv_def grows_def jni_le_def all_blocks_def)

lemma register_step:
  assumes "natives_ok s" and "jni_inv s" and "c = Native_call (K_register p methods n)"
  shows "natives_ok (call_step (t, c) s)
    \<and> listed (jn_natives (call_step (t, c) s)) = native_spec s c (listed (jn_natives s))"
proof (cases "asm2_lookup_handle s p = None \<or> methods = None \<or> n < 0")
  case True
  then have "call_step (t, c) s = s"
    by (auto simp: assms(3) call_step_def ignoring_def asm2_register_natives_def run_looked_up split: option.split)
  with True assms(1) show ?thesis
    by (cases methods) (auto simp: assms(3) split: option.split)
next
  case False
  then obtain h ms where some: "asm2_lookup_handle s p = Some h" "methods = Some ms" "\<not> n < 0" by auto
  obtain r s' where run: "run_state (register_all (jh_class h) (take (nat n) ms)) s = (r, s')" by fastforce
  with some have "call_step (t, c) s = s'"
    by (simp add: assms(3) call_step_def ignoring_def asm2_register_natives_def run_looked_up)
  with register_all_refines [OF assms(1) run] some show ?thesis by (simp add: assms(3))
qed

lemma unregister_step:
  assumes "natives_ok s" and "jni_inv s" and "c = Native_call (K_unregister p)"
  shows "natives_ok (call_step (t, c) s)
    \<and> listed (jn_natives (call_step (t, c) s)) = native_spec s c (listed (jn_natives s))"
proof (cases "asm2_lookup_handle s p")
  case None
  then have "call_step (t, c) s = s"
    by (simp add: assms(3) call_step_def ignoring_def asm2_unregister_natives_def run_looked_up)
  with None assms(1) show ?thesis by (simp add: assms(3))
next
  case (Some h)
  let ?ns = "map (cleared (jh_class h)) (jn_natives s)"
  let ?r = "unregister_all (jh_class h) (jn_natives s) (jn_native_count s)"
  have step: "call_step (t, c) s = s\<lparr>jn_natives := ?ns, jn_native_count := snd ?r\<rparr>"
    using Some unregister_all_map [of "jh_class h" "jn_natives s" "jn_native_count s"]
    by (simp add: assms(3) call_step_def ignoring_def asm2_unregister_natives_def run_looked_up
        State_Monad.update_def case_prod_beta)
  have "List.length (jn_natives s) < 2 ^ 32 \<longrightarrow> unat (snd ?r) = List.length (active ?ns)"
    using assms(1) unregister_all_count [of "jn_native_count s" "jn_natives s" 0 "jh_class h"]
    by (simp add: natives_ok_def natives_inv_def)
  moreover have "native_spec s c (listed (jn_natives s)) = spec_unregister (jh_class h) (listed (jn_natives s))"
    using Some by (simp add: assms(3))
  ultimately show ?thesis
    using assms(1) by (simp add: natives_ok_def natives_inv_def all_blocks_def step listed_cleared comp_def)
qed

lemma natives_call_step:
  assumes "natives_ok s" and "jni_inv s"
  shows "natives_ok (call_step (t, c) s)
    \<and> listed (jn_natives (call_step (t, c) s)) = native_spec s c (listed (jn_natives s))"
proof (cases "\<exists>k. c = Native_call k")
  case True
  then show ?thesis
    using register_step [OF assms] unregister_step [OF assms] by (metis native_call.exhaust)
next
  case False
  then have "jn_natives (call_step (t, c) s) = jn_natives s"
    "jn_native_count (call_step (t, c) s) = jn_native_count s"
    by (auto intro: natives_step)
  moreover have "native_spec s c M = M" for M using False by (cases c) auto
  ultimately show ?thesis using natives_unchanged [OF assms] by simp
qed

lemma start_natives: "(\<And>n. b n) \<Longrightarrow> natives_ok (jni_start a b)"
  by (simp add: natives_ok_def natives_inv_def jni_start_def all_blocks_def active_def)

lemma reached_natives:
  assumes "distinct_addresses a" and "\<And>n. b n"
  shows "natives_ok (run_calls cs (jni_start a b))"
proof (induction cs rule: rev_induct)
  case (snoc c cs)
  then show ?case
    using natives_call_step [of "run_calls cs (jni_start a b)" "fst c" "snd c"] reached_inv [OF assms(1)] by simp
qed (use start_natives assms(2) in simp)



end
