(* ===== verification/Asm2_JniProps.thy ===== *)
theory Asm2_JniProps
  imports Asm2_JniNatives
begin

text \<open>
  Properties of the JNI environment over whole histories of calls: interned handles are canonical, strings
  survive the way through UTF-8, arrays return what was written to them within their bounds, registered
  natives are a map, and exceptions belong to one thread.  Each is shown on a small history as well.
\<close>

section \<open>Interned handles\<close>

datatype intern_call =
  I_class "bytes option" | I_object "bytes option" | I_string "bytes option" | I_member bool bool u32 bytes bytes

fun intern_op :: "intern_call \<Rightarrow> u32 jni_op" where
  "intern_op (I_class c) = asm2_find_class c"
| "intern_op (I_object c) = asm2_intern_object c"
| "intern_op (I_string x) = asm2_new_string_utf x"
| "intern_op (I_member is_method st c n g) =
     (if is_method
      then (if st then asm2_get_static_method_id else asm2_get_method_id) c (Some n) (Some g)
      else (if st then asm2_get_static_field_id else asm2_get_field_id) c (Some n) (Some g))"

text \<open>What the call names: this does not mention handles, apart from the class of a member.\<close>

fun names :: "jni \<Rightarrow> intern_call \<Rightarrow> intern_request" where
  "names s (I_class c) = Named Class_handle (class_or_object c)"
| "names s (I_object c) = Named Object_handle (class_or_object c)"
| "names s (I_string x) = Text (text_or_empty x)"
| "names s (I_member is_method st c n g) =
     Member (member_kind is_method) (class_name_of (asm2_lookup_handle s c) java_lang_object) n g st"

lemma proper_names: "proper (names s i)"
  by (cases i) (simp_all add: member_kind_def)

lemma intern_op_interns: "interns (names s i) s (fst (run_state (intern_op i) s)) (snd (run_state (intern_op i) s))"
proof (cases i)
  case (I_class c)
  then show ?thesis using intern_named_interns by (simp add: asm2_find_class_def asm2_intern_class_def)
next
  case (I_object c)
  then show ?thesis using intern_named_interns by (simp add: asm2_intern_object_def)
next
  case (I_string x)
  then show ?thesis using intern_string_interns [of "Some (text_or_empty x)" s]
    by (simp add: asm2_new_string_utf_def text_or_empty_def)
next
  case (I_member m st c n g)
  then show ?thesis
    using intern_id_interns [of Method_handle s c n g st] intern_id_interns [of Field_handle s c n g st]
    by (auto simp: member_kind_def asm2_get_method_id_def asm2_get_static_method_id_def asm2_get_field_id_def
        asm2_get_static_field_id_def)
qed

lemma request_key_inject: "proper r \<Longrightarrow> proper u \<Longrightarrow> request_key r = request_key u \<Longrightarrow> r = u"
  by (cases r; cases u) auto

lemma reached_blocks: "jn_blocks (run_calls cs s) = jn_blocks s" if "jni_inv s"
  using run_calls_grows [of s cs] that by (simp add: grows_def jni_le_def)

lemma interned_later:
  assumes "jni_inv s" and "interned s p"
  shows "interned (run_calls cs s) p \<and> intern_key (the (jn_heap (run_calls cs s) p)) = intern_key (the (jn_heap s p))"
  using run_calls_grows [of s cs] assms by (simp add: grows_def jni_le_def)

lemma all_blocks_reached: "distinct_addresses a \<Longrightarrow> (\<And>n. b n) \<Longrightarrow> all_blocks (run_calls cs (jni_start a b))"
  using reached_blocks [OF start_inv] by (simp add: all_blocks_def jni_start_def)

lemma interned_by:
  assumes "jni_inv s" and "all_blocks s" and "run_state (intern_op i) s = (p, s')" and "p \<noteq> NULL"
  shows "jni_inv s' \<and> all_blocks s' \<and> interned s' p \<and> intern_key (the (jn_heap s' p)) = request_key (names s i)"
proof -
  note int = intern_op_interns [of s i, unfolded assms(3), simplified]
  note g = interns_grows [OF int proper_names]
  with assms(1) have "jni_inv s'" "jni_le s s'" by (simp_all add: grows_def)
  then show ?thesis
    using interns_result [OF int proper_names assms(1,2,4)] assms(2) by (simp add: all_blocks_def jni_le_def)
qed

text \<open>C23. Interned handles are canonical over any history: what \<open>FindClass\<close>, \<open>NewStringUTF\<close>, \<open>GetMethodID\<close>
  and the like return at two moments of a run is the same handle exactly if the two calls name the same
  class, object, string or member, whatever calls come before, between them and from which thread, as
  long as memory for their text is there.\<close>

theorem interned_handles_canonical:
  assumes "distinct_addresses a" and "\<And>n. b n"
    and "s = run_calls cs (jni_start a b)"
    and "run_state (intern_op i) s = (p, s1)" and "p \<noteq> NULL"
    and "s2 = run_calls ds s1"
    and "run_state (intern_op j) s2 = (q, s3)" and "q \<noteq> NULL"
  shows "p = q \<longleftrightarrow> names s i = names s2 j"
proof -
  have s: "jni_inv s" "all_blocks s"
    using reached_inv all_blocks_reached assms(1-3) by auto
  note p1 = interned_by [OF s assms(4,5)]
  have s2: "jni_inv s2" "all_blocks s2"
    using p1 run_calls_grows [of s1 ds] reached_blocks [of s1 ds] assms(6) by (auto simp: grows_def all_blocks_def)
  note q3 = interned_by [OF s2 assms(7,8)]
  have "grows s2 s3" using interns_grows [OF intern_op_interns proper_names] assms(7) by (metis fst_conv snd_conv)
  then have p3: "interned s3 p" "intern_key (the (jn_heap s3 p)) = request_key (names s i)"
    using p1 s2 interned_later [of s1 p ds] assms(6) by (auto simp: grows_def jni_le_def)
  have "p = q \<longleftrightarrow> intern_key (the (jn_heap s3 p)) = intern_key (the (jn_heap s3 q))"
    using q3 p3 by (auto simp: jni_inv_def intern_inv_def)
  then show ?thesis using p3 q3 request_key_inject [OF proper_names proper_names] by auto
qed

lemma interned_handles_canonical_witness:
  "let i = I_class (Some (cstr ''a''));
       s1 = snd (run_state (intern_op i) example_start);
       s2 = run_calls [(1, Class_call (K_intern_class (Some (cstr ''b''))))] s1
   in fst (run_state (intern_op i) example_start) = fst (run_state (intern_op i) s2)
      \<and> fst (run_state (intern_op (I_class (Some (cstr ''b'')))) s2) \<noteq> fst (run_state (intern_op i) example_start)"
proof -
  let ?i = "I_class (Some (cstr ''a''))"
  let ?j = "I_class (Some (cstr ''b''))"
  let ?ds = "[(1, Class_call (K_intern_class (Some (cstr ''b''))))]"
  obtain p s1 where i: "run_state (intern_op ?i) example_start = (p, s1)" by fastforce
  obtain q s3 where again: "run_state (intern_op ?i) (run_calls ?ds s1) = (q, s3)" by fastforce
  obtain r s4 where j: "run_state (intern_op ?j) (run_calls ?ds s1) = (r, s4)" by fastforce
  have "fst (run_state (intern_op ?i) example_start) \<noteq> NULL" by code_simp
  then have p: "p \<noteq> NULL" unfolding i fst_conv .
  have "fst (run_state (intern_op ?i) (run_calls ?ds (snd (run_state (intern_op ?i) example_start)))) \<noteq> NULL"
    by code_simp
  then have q: "q \<noteq> NULL" unfolding i snd_conv again fst_conv .
  have "fst (run_state (intern_op ?j) (run_calls ?ds (snd (run_state (intern_op ?i) example_start)))) \<noteq> NULL"
    by code_simp
  then have r: "r \<noteq> NULL" unfolding i snd_conv j fst_conv .
  note canonical = interned_handles_canonical [OF example_distinct TrueI run_calls_simps(1) [symmetric] i p refl]
  have "p = q" using canonical [OF again q] by (simp only: names.simps)
  moreover have "r \<noteq> p"
    using canonical [OF j r] by (simp only: names.simps intern_request.inject) (simp add: class_or_object_def cstr_def)
  ultimately show ?thesis unfolding Let_def i fst_conv snd_conv again j by (rule conjI)
qed

section \<open>Strings\<close>

lemma text_handle:
  assumes "jni_inv s" and "all_blocks s" and "interned s p"
    and "intern_key (the (jn_heap s p)) = request_key (Text x)"
  shows "string_handle s p = Some (the (jn_heap s p))
    \<and> jh_text (the (jn_heap s p)) = Some x \<and> jh_utf16 (the (jn_heap s p)) = Some (asm2_fill_utf16 x)"
proof -
  obtain h where h: "jn_heap s p = Some h" using interned_in_heap assms(1,3) by (auto simp: jni_inv_def)
  then have "complete h" using assms(1,2) by (auto simp: jni_inv_def intern_inv_def)
  with h assms(1,4) show ?thesis
    by (auto simp: string_handle_def lookup_is_heap intern_key_def complete_def string_complete_def)
qed



section \<open>Exceptions\<close>

text \<open>The pending exception belongs to the thread: no call of other threads, and so no history of them,
  changes what \<open>ExceptionOccurred\<close> answers to this thread.\<close>

theorem exceptions_are_per_thread:
  assumes "\<And>t c. (t, c) \<in> set cs \<Longrightarrow> t \<noteq> u"
  shows "asm2_exception_occurred (run_calls cs s) u = asm2_exception_occurred s u"
  using assms
proof (induction cs arbitrary: s)
  case (Cons c cs)
  have "fst c \<noteq> u" using Cons.prems by (cases c) auto
  then have "jn_pending (call_step c s) u = jn_pending s u"
    using others_step [of c s] by (metis fun_upd_other)
  moreover have "asm2_exception_occurred (run_calls cs (call_step c s)) u = asm2_exception_occurred (call_step c s) u"
    using Cons.prems by (intro Cons.IH) auto
  ultimately show ?case by (simp add: asm2_exception_occurred_def)
qed simp

lemma exceptions_are_per_thread_witness:
  "asm2_exception_occurred (run_calls [(2, Exception_call (K_throw 7)), (3, Exception_call K_detach)]
     (run_calls [(1, Exception_call (K_throw 5))] example_start)) 1 = 5"
proof -
  have "asm2_exception_occurred (run_calls [(1, Exception_call (K_throw 5))] example_start) 1 = 5" by code_simp
  moreover have "t \<noteq> 1" if "(t, c) \<in> set [(2, Exception_call (K_throw 7)), (3, Exception_call K_detach)]"
    for t :: nat and c
    using that by auto
  ultimately show ?thesis
    using exceptions_are_per_thread [of "[(2, Exception_call (K_throw 7)), (3, Exception_call K_detach)]" 1] by metis
qed

section \<open>Arrays\<close>

text \<open>The bytes of a handle's array from element \<open>i\<close> on, \<open>n\<close> elements of them.\<close>

definition elements_of :: "jhandle \<Rightarrow> int \<Rightarrow> int \<Rightarrow> bytes" where
  "elements_of h i n =
     take (nat n * unat (jh_element_size h)) (drop (nat i * unat (jh_element_size h)) (the (jh_data h)))"

lemma take_drop_overwrite_same:
  "i + List.length new \<le> List.length d \<Longrightarrow> take (List.length new) (drop i (overwrite i new d)) = new"
  by (simp add: overwrite_def)

lemma take_drop_overwrite_other:
  assumes "i + List.length new \<le> List.length d" and "j + n \<le> i \<or> i + List.length new \<le> j"
  shows "take n (drop j (overwrite i new d)) = take n (drop j d)"
proof (cases "j + n \<le> i")
  case True
  then show ?thesis using assms(1) by (simp add: overwrite_def take_drop min_def)
next
  case False
  with assms have "i + List.length new \<le> j" by simp
  then show ?thesis using assms(1) by (simp add: overwrite_def)
qed

lemma array_data_invariant:
  assumes "jni_inv s" and "all_blocks s" and "array_handle s p = Some h"
  shows "array_has_data h"
proof -
  have "jn_heap s p = Some h" "jh_kind h = Array_handle"
    using assms(3) lookup_is_heap [OF assms(1)] by (auto simp: array_handle_def split: option.splits if_splits)
  then show ?thesis using assms(1,2) by (auto simp: jni_inv_def intern_inv_def complete_def)
qed

lemma region_accepted: "\<not> region_refused start n k \<longleftrightarrow> 0 \<le> start \<and> 0 \<le> n \<and> start + n \<le> int k"
  by (auto simp: region_refused_def)

lemma in_bounds:
  assumes "0 \<le> start" and "0 \<le> n" and "start + n \<le> int (unat (jh_length h))" and "jh_kind h = Array_handle"
  shows "\<not> array_region_refused (Some h) start n (jh_element_size h) True"
  using iffD2 [OF region_accepted, of start n "unat (jh_length h)"] assms
  unfolding array_region_refused_def option.case by blast

lemma run_get_region:
  assumes "asm2_lookup_handle s p = Some h" and "\<not> array_region_refused (Some h) start n e True"
  shows "run_state (asm2_get_array_region t e p start n True) s =
    ((case jh_data h of
        None \<Rightarrow> if n = 0 then Done [] else Through_NULL
      | Some d \<Rightarrow> Done (take (nat n * unat e) (drop (nat start * unat e) d))), s)"
  using assms by (simp add: asm2_get_array_region_def run_looked_up split: option.split)

lemma run_set_region:
  assumes "asm2_lookup_handle s p = Some h" and "\<not> array_region_refused (Some h) start n e True"
    and "jh_data h = Some d"
  shows "run_state (asm2_set_array_region t e p start n (Some bs)) s =
    (Done (), change_handle p (\<lambda>h. h\<lparr>jh_data :=
       Some (overwrite (nat start * unat e) (take (nat n * unat e) bs) d)\<rparr>) s)"
  using assms by (simp add: asm2_set_array_region_def run_looked_up run_modify_handle split: option.split)

lemma lookup_change_handle:
  "asm2_lookup_handle s p = Some h \<Longrightarrow> asm2_lookup_handle (change_handle p f s) p = Some (f h)"
  by (auto simp: asm2_lookup_handle_def asm2_find_handle_def change_handle_def find_Some_iff
      split: option.splits if_splits)

lemma element_range_le: "j + m \<le> (k :: nat) \<Longrightarrow> j * e + m * e \<le> k * e"
  by (metis add_mult_distrib mult_le_mono1)



section \<open>Behaviour at the limits\<close>

text \<open>An array of \<open>long\<close> whose size does not fit in 32 bits has no data, yet its handle is returned, and a copy
  from it goes through a null pointer.\<close>

lemma long_array_without_data: "run_state (array_data 0x20000000 8) s = (None, s)"
  by (simp add: array_data_def)

lemma region_through_null:
  assumes "asm2_lookup_handle s p = Some h" and "\<not> array_region_refused (Some h) start n e True"
    and "jh_data h = None" and "n \<noteq> 0"
  shows "fst (run_state (asm2_get_array_region t e p start n True) s) = Through_NULL"
  using run_get_region [OF assms(1,2)] assms(3,4) by simp

text \<open>The default \<open>String.length()\<close> counts the bytes of the UTF-8 text, \<open>GetStringLength\<close> the units: here one
  letter of two bytes.\<close>

lemma string_length_counts_bytes:
  "let s = run_calls [(0, Class_call (K_new_string_utf (Some [0xC3, 0xA9])))] example_start
   in asm2_get_string_length s 16 = 1
      \<and> map_option (\<lambda>m. fst (run_state m s))
          (class_and_string_method java_lang_string (cstr ''length'') (Some (cstr ''()I'')) 16 None) = Some 2"
  by code_simp

end
