(* ===== verification/Asm2_JniBundles.thy ===== *)
theory Asm2_JniBundles
  imports Asm2_JniProps Asm2_Preferences
begin

text \<open>
  The bundles of \<open>jni_bridge.c\<close>, entries hanging from a handle with untyped values, refine the bundles that
  \<open>Asm2_Preferences\<close> works with, lists of typed values: what the preferences show about their arguments and
  results holds for the handles that carry them.
\<close>

section \<open>The abstraction\<close>

definition object_text :: "jni \<Rightarrow> u32 \<Rightarrow> bundle_value" where
  "object_text s p =
     (if p = NULL then B_string None
      else case asm2_jni_string_chars s p of Some t \<Rightarrow> B_string (Some t) | None \<Rightarrow> B_object)"

definition typed_value :: "jni \<Rightarrow> entry_kind \<Rightarrow> u64 \<Rightarrow> bundle_value" where
  "typed_value s kind v =
     (case kind of
        Bundle_boolean \<Rightarrow> B_boolean (low_part 8 v \<noteq> 0)
      | Bundle_int \<Rightarrow> B_int (sint (ucast v :: u32))
      | Bundle_long \<Rightarrow> B_long (sint v)
      | Bundle_object \<Rightarrow> object_text s (ucast v))"

definition typed_entries :: "jni \<Rightarrow> jentry list \<Rightarrow> (bytes \<times> bundle_value) list" where
  "typed_entries s es = map (\<lambda>e. (text_or_empty (je_key e), typed_value s (je_kind e) (je_value e))) es"

definition handle_bundle :: "jni \<Rightarrow> u32 \<Rightarrow> jbundle" where
  "handle_bundle s p =
     (case asm2_find_handle s p of
        Some h \<Rightarrow> if asm2_is_bundle h then Some (typed_entries s (jh_bundle h)) else None
      | None \<Rightarrow> None)"

section \<open>Lookups\<close>

lemma key_found:
  assumes "key \<noteq> []"
  shows "map_of (typed_entries s es) key =
    map_option (\<lambda>e. typed_value s (je_kind e) (je_value e)) (List.find (\<lambda>e. asm2_text_equal (je_key e) (Some key)) es)"
proof (induction es)
  case (Cons e es)
  show ?case
  proof (cases "je_key e = Some key")
    case True
    then show ?thesis by (simp add: typed_entries_def asm2_text_equal_def text_or_empty_def)
  next
    case False
    then have "text_or_empty (je_key e) \<noteq> key"
      using assms by (auto simp: text_or_empty_def split: option.splits)
    with False Cons show ?thesis by (simp add: typed_entries_def asm2_text_equal_def)
  qed
qed (simp add: typed_entries_def)

lemma bundle_get_refines:
  assumes "key \<noteq> []"
  shows "bundle_get (handle_bundle s p) key = map_option (\<lambda>(k, v). typed_value s k v) (asm2_bundle_get s p (Some key))"
  using assms
  by (auto simp: bundle_get_def handle_bundle_def asm2_bundle_get_def asm2_bundle_find_def key_found comp_def
      option.map_comp split: option.split)

lemma replaced_entries:
  assumes "key \<noteq> []"
  shows "typed_entries s (replace_value (Some key) kind v es) = replace_entry key (typed_value s kind v) (typed_entries s es)"
proof (induction es)
  case (Cons e es)
  have "text_or_empty (je_key e) = key \<longleftrightarrow> je_key e = Some key"
    using assms by (auto simp: text_or_empty_def split: option.splits)
  then show ?case using Cons by (auto simp: typed_entries_def asm2_text_equal_def text_or_empty_def)
qed (simp add: typed_entries_def)

section \<open>Updates\<close>

lemma find_change_handle:
  "asm2_find_handle s p = Some h \<Longrightarrow> asm2_find_handle (change_handle p f s) p = Some (f h)"
  by (auto simp: asm2_find_handle_def change_handle_def split: option.splits dest!: find_Some_iff [THEN iffD1])

lemma chars_change_bundle:
  assumes "\<And>h. jh_kind (f h) = jh_kind h" and "\<And>h. jh_text (f h) = jh_text h"
  shows "asm2_jni_string_chars (change_handle p f s) q = asm2_jni_string_chars s q"
proof -
  have buckets: "jn_handle_buckets (change_handle p f s) = jn_handle_buckets s" by (simp add: change_handle_def)
  have heap: "jn_heap (change_handle p f s) = (jn_heap s)(p := map_option f (jn_heap s p))"
    by (simp add: change_handle_def)
  show ?thesis
    by (auto simp: asm2_jni_string_chars_def string_handle_def asm2_lookup_handle_def asm2_find_handle_def
        buckets heap assms split: option.splits)
qed

lemma typed_change_bundle:
  "typed_entries (change_handle p (\<lambda>h. h\<lparr>jh_bundle := g h\<rparr>) s) es = typed_entries s es"
  "typed_value (change_handle p (\<lambda>h. h\<lparr>jh_bundle := g h\<rparr>) s) kind v = typed_value s kind v"
  by (simp_all add: typed_entries_def typed_value_def object_text_def chars_change_bundle split: entry_kind.split)

definition same_heap :: "jni \<Rightarrow> jni \<Rightarrow> bool" where
  "same_heap s u \<longleftrightarrow> jn_heap u = jn_heap s \<and> jn_handle_buckets u = jn_handle_buckets s"

lemma find_same_heap: "same_heap s u \<Longrightarrow> asm2_find_handle u p = asm2_find_handle s p"
  by (simp add: same_heap_def asm2_find_handle_def split: option.split)

lemma typed_same_heap: "same_heap s u \<Longrightarrow> typed_entries u es = typed_entries s es"
  by (simp add: typed_entries_def typed_value_def object_text_def asm2_jni_string_chars_def string_handle_def
      asm2_lookup_handle_def find_same_heap split: entry_kind.split)

lemma bundle_set_refines:
  assumes "all_blocks s" and "key \<noteq> []"
    and "run_state (asm2_bundle_set p (Some key) kind v) s = (ok, s')"
  shows "(ok, handle_bundle s' p) = bundle_set True (handle_bundle s p) key (typed_value s kind v)"
proof (cases "asm2_find_handle s p")
  case None
  then show ?thesis using assms(2,3) by (auto simp: asm2_bundle_set_def handle_bundle_def bundle_set_def)
next
  case (Some b)
  show ?thesis
  proof (cases "asm2_is_bundle b")
    case False
    then show ?thesis using Some assms(2,3) by (auto simp: asm2_bundle_set_def handle_bundle_def bundle_set_def)
  next
    case True
    note hb = this Some
    have found: "asm2_bundle_find (Some b) (Some key) = List.find (\<lambda>e. asm2_text_equal (je_key e) (Some key)) (jh_bundle b)"
      using True by (simp add: asm2_bundle_find_def)
    have still: "asm2_is_bundle (b\<lparr>jh_bundle := es\<rparr>)" for es
      using True by (simp add: asm2_is_bundle_def)
    show ?thesis
    proof (cases "asm2_bundle_find (Some b) (Some key)")
      case (Some e)
      then have "ok" "s' = change_handle p (\<lambda>h. h\<lparr>jh_bundle := replace_value (Some key) kind v (jh_bundle h)\<rparr>) s"
        using assms(2,3) hb by (simp_all add: asm2_bundle_set_def run_modify_handle)
      then show ?thesis
        using hb Some found key_found [OF assms(2), of s "jh_bundle b"] assms(2)
        by (simp add: handle_bundle_def bundle_set_def find_change_handle [OF hb(2)] still typed_change_bundle
            replaced_entries)
    next
      case None
      have b: "jn_blocks s i" for i using assms(1) by (simp add: all_blocks_def)
      obtain u where u: "same_heap s u" "ok"
        "s' = snd (run_state (count_entries (\<lambda>n. n + 1)) (change_handle p (\<lambda>h. h\<lparr>jh_bundle :=
                    \<lparr>je_key = Some key, je_kind = kind, je_value = v\<rparr> # jh_bundle h\<rparr>) u))"
      proof -
        obtain u1 where one: "run_state take_block s = (True, u1)" "same_heap s u1" "jn_blocks u1 = jn_blocks s"
          using b by (simp add: take_block_def same_heap_def)
        obtain u where two: "run_state (asm2_duplicate (Some key)) u1 = (Some key, u)" "same_heap u1 u"
          using b one(3) by (simp add: asm2_duplicate_def take_block_def same_heap_def)
        have "same_heap s u" using one(2) two(2) by (simp add: same_heap_def)
        then show thesis
          using that [of u] assms(2,3) hb None one(1) two(1) by (simp add: asm2_bundle_set_def run_modify_handle case_prod_beta)
      qed
      let ?w = "change_handle p (\<lambda>h. h\<lparr>jh_bundle := \<lparr>je_key = Some key, je_kind = kind, je_value = v\<rparr> # jh_bundle h\<rparr>) u"
      have w: "same_heap ?w s'" by (simp add: u(3) same_heap_def count_entries_def State_Monad.update_def)
      have fu: "asm2_find_handle u p = Some b" using find_same_heap [OF u(1)] hb by simp
      have "handle_bundle s' p = Some (typed_entries s (\<lparr>je_key = Some key, je_kind = kind, je_value = v\<rparr> # jh_bundle b))"
        by (simp add: handle_bundle_def find_same_heap [OF w] typed_same_heap [OF w] find_change_handle [OF fu] still
            typed_change_bundle typed_same_heap [OF u(1)])
      then show ?thesis
        using hb None found key_found [OF assms(2), of s "jh_bundle b"] assms(2) u(2)
        by (simp add: handle_bundle_def bundle_set_def) (simp add: typed_entries_def text_or_empty_def)
    qed
  qed
qed

lemma bundle_set_after_intern:
  assumes "jni_inv s" and "all_blocks s" and "interns r s q u" and "proper r"
    and "\<And>b e. asm2_find_handle s p = Some b \<Longrightarrow> e \<in> set (jh_bundle b) \<Longrightarrow> je_kind e = Bundle_object \<Longrightarrow>
      (ucast (je_value e) :: u32) = NULL \<or> jn_heap s (ucast (je_value e)) \<noteq> None"
    and "jn_heap s p \<noteq> None"
  shows "handle_bundle u p = handle_bundle s p"
proof -
  have heap: "jn_heap u x = Some h" if "jn_heap s x = Some h" for x h
    using interns_heap [OF assms(3) _ that] assms(1) by (simp add: jni_inv_def)
  have u: "jni_inv u" using interns_grows [OF assms(3,4)] assms(1) by (simp add: grows_def)
  have find: "asm2_find_handle v x = jn_heap v x" if "jni_inv v" "jn_heap v x \<noteq> None" for v x
    using lookup_is_heap [OF that(1), of x] that
    by (auto simp: asm2_lookup_handle_def jni_inv_def heap_inv_def split: if_splits)
  obtain b where b: "jn_heap s p = Some b" using assms(6) by auto
  have fs: "asm2_find_handle s p = Some b" "asm2_find_handle u p = Some b"
    using find [OF assms(1)] find [OF u] heap [OF b] b by auto
  have chars: "asm2_jni_string_chars u x = asm2_jni_string_chars s x" if "jn_heap s x \<noteq> None" for x
    using that heap lookup_is_heap [OF u] lookup_is_heap [OF assms(1)]
    by (auto simp: asm2_jni_string_chars_def string_handle_def)
  have "typed_value u (je_kind e) (je_value e) = typed_value s (je_kind e) (je_value e)" if "e \<in> set (jh_bundle b)" for e
    using assms(5) [OF fs(1) that] chars
    by (cases "je_kind e") (auto simp: typed_value_def object_text_def)
  then show ?thesis by (simp add: handle_bundle_def fs typed_entries_def)
qed

section \<open>The typed operations\<close>

lemma pointer_in_value: "(ucast (ucast (q :: u32) :: u64) :: u32) = q"
  by (rule bit_word_eqI) (simp add: bit_simps)

text \<open>The objects in a bundle are handles or null.\<close>

definition objects_known :: "jni \<Rightarrow> u32 \<Rightarrow> bool" where
  "objects_known s p \<longleftrightarrow>
     (\<exists>b. jn_heap s p = Some b \<and>
       list_all (\<lambda>e. je_kind e \<noteq> Bundle_object \<or> (ucast (je_value e) :: u32) = NULL
                      \<or> jn_heap s (ucast (je_value e)) \<noteq> None) (jh_bundle b))"

lemma intern_string_not_null:
  assumes "jni_inv s" and "jn_addresses s (jn_addresses_taken s) \<noteq> NULL"
  shows "fst (run_state (asm2_intern_string (Some x)) s) \<noteq> NULL"
proof (cases "find_interned s (asm2_intern_bucket String_handle None None None (Some x) False)
    (\<lambda>h. jh_kind h = String_handle \<and> asm2_text_equal (jh_text h) (Some x))")
  case None
  then show ?thesis
    using assms(2)
    by (simp add: asm2_intern_string_def text_or_empty_def asm2_allocate_handle_def take_address_def Let_def
        case_prod_beta State_Monad.update_def)
next
  case (Some q)
  then have "jn_heap s q \<noteq> None" by (auto simp: find_interned_def find_Some_iff split: option.splits)
  then have "q \<noteq> NULL" using assms(1) by (auto simp: jni_inv_def heap_inv_def)
  with Some show ?thesis by (simp add: asm2_intern_string_def text_or_empty_def Let_def)
qed

lemma put_string_refines:
  assumes "jni_inv s" and "all_blocks s" and "key \<noteq> []" and "objects_known s p"
    and "jn_addresses s (jn_addresses_taken s) \<noteq> NULL"
    and "run_state (asm2_jni_bundle_put_string p (Some key) content) s = (ok, s')"
  shows "(ok, handle_bundle s' p) = bundle_set True (handle_bundle s p) key (B_string content)"
proof (cases content)
  case None
  then show ?thesis
    using bundle_set_refines [OF assms(2,3), of p Bundle_object 0 ok s'] assms(6)
    by (simp add: asm2_jni_bundle_put_string_def typed_value_def object_text_def)
next
  case (Some x)
  obtain q u where q: "run_state (asm2_intern_string (Some x)) s = (q, u)" by fastforce
  have int: "interns (Text x) s q u"
    using intern_string_interns [of "Some x" s] q by (simp add: text_or_empty_def)
  have run: "run_state (intern_op (I_string (Some x))) s = (q, u)"
    using q by (simp add: asm2_new_string_utf_def text_or_empty_def)
  have "q \<noteq> NULL"
  proof
    assume "q = NULL"
    then have "q \<noteq> fst (run_state (asm2_intern_string (Some x)) s)"
      using intern_string_not_null [OF assms(1,5), of x] by auto
    then show False using q by simp
  qed
  note made = interned_by [OF assms(1,2) run this]
  then have chars: "object_text u q = B_string (Some x)"
    using text_handle [of u q x] \<open>q \<noteq> NULL\<close>
    by (simp add: object_text_def asm2_jni_string_chars_def text_or_empty_def)
  have same: "handle_bundle u p = handle_bundle s p"
  proof (rule bundle_set_after_intern [OF assms(1,2) int])
    show "jn_heap s p \<noteq> None" using assms(4) by (auto simp: objects_known_def)
    fix b e
    assume "asm2_find_handle s p = Some b" "e \<in> set (jh_bundle b)" "je_kind e = Bundle_object"
    moreover have "jn_heap s p = Some b"
      using \<open>asm2_find_handle s p = Some b\<close>
      by (auto simp: asm2_find_handle_def find_Some_iff split: option.splits)
    ultimately show "(ucast (je_value e) :: u32) = NULL \<or> jn_heap s (ucast (je_value e)) \<noteq> None"
      using assms(4) by (auto simp: objects_known_def list_all_iff)
  qed simp
  have "run_state (asm2_bundle_set p (Some key) Bundle_object (ucast q)) u = (ok, s')"
    using assms(6) q Some by (simp add: asm2_jni_bundle_put_string_def)
  from bundle_set_refines [OF _ assms(3) this] made chars
  show ?thesis by (simp add: same Some typed_value_def pointer_in_value)
qed

lemma typed_put_refines:
  assumes "all_blocks s" and "key \<noteq> []"
  shows "let r = run_state (asm2_jni_bundle_put_int p (Some key) i) s in
      (fst r, handle_bundle (snd r) p) = bundle_set True (handle_bundle s p) key (B_int (sint i))"
    and "let r = run_state (asm2_jni_bundle_put_long p (Some key) j) s in
      (fst r, handle_bundle (snd r) p) = bundle_set True (handle_bundle s p) key (B_long (sint j))"
    and "let r = run_state (asm2_jni_bundle_put_boolean p (Some key) z) s in
      (fst r, handle_bundle (snd r) p) = bundle_set True (handle_bundle s p) key (B_boolean (z \<noteq> 0))"
proof -
  note set = bundle_set_refines [OF assms prod.collapse [symmetric], of p]
  show "let r = run_state (asm2_jni_bundle_put_int p (Some key) i) s in
      (fst r, handle_bundle (snd r) p) = bundle_set True (handle_bundle s p) key (B_int (sint i))"
    using set [of Bundle_int "ucast i"] by (simp add: asm2_jni_bundle_put_int_def typed_value_def pointer_in_value Let_def)
  show "let r = run_state (asm2_jni_bundle_put_long p (Some key) j) s in
      (fst r, handle_bundle (snd r) p) = bundle_set True (handle_bundle s p) key (B_long (sint j))"
    using set [of Bundle_long j] by (simp add: asm2_jni_bundle_put_long_def typed_value_def Let_def)
  show "let r = run_state (asm2_jni_bundle_put_boolean p (Some key) z) s in
      (fst r, handle_bundle (snd r) p) = bundle_set True (handle_bundle s p) key (B_boolean (z \<noteq> 0))"
    using set [of Bundle_boolean "if z \<noteq> 0 then 1 else 0"]
    by (simp add: asm2_jni_bundle_put_boolean_def typed_value_def Let_def low_part_def)
qed

lemma typed_get_refines:
  assumes "key \<noteq> []"
  shows "bundle_get_int (handle_bundle s p) key = map_option sint (asm2_jni_bundle_get_int s p (Some key) True)"
    and "bundle_get_long (handle_bundle s p) key = map_option sint (asm2_jni_bundle_get_long s p (Some key) True)"
    and "bundle_get_boolean (handle_bundle s p) key
      = map_option (\<lambda>z. z \<noteq> 0) (asm2_jni_bundle_get_boolean s p (Some key) True)"
    and "bundle_get_string (handle_bundle s p) key = asm2_jni_bundle_get_string s p (Some key)"
  by (auto simp: bundle_get_int_def bundle_get_long_def bundle_get_boolean_def bundle_get_string_def
      bundle_get_refines [OF assms] asm2_jni_bundle_get_int_def asm2_jni_bundle_get_long_def
      asm2_jni_bundle_get_boolean_def asm2_jni_bundle_get_string_def typed_value_def object_text_def
      asm2_jni_string_chars_def string_handle_def asm2_lookup_handle_def
      split: option.split entry_kind.split)



end
