(* ===== verification/Asm2_JniTable.thy ===== *)
theory Asm2_JniTable
  imports Asm2_JniEnv
begin

text \<open>
  The function table of the JNI environment, as \<open>asm2_fill_env_table\<close> fills it entry by entry, against the
  layout that JNI 1.6 gives by groups: every kind of call and of access has its block of positions, in the
  order of the Java types.
\<close>

definition return_types :: "jtype option list" where
  "return_types = map Some [J_object, J_boolean, J_byte, J_char, J_short, J_int, J_long, J_float, J_double] @ [None]"

definition primitive_types :: "jtype list" where
  "primitive_types = [J_boolean, J_byte, J_char, J_short, J_int, J_long, J_float, J_double]"

definition calls_of :: "call_kind \<Rightarrow> env_function list" where
  "calls_of k = concat (map (\<lambda>ty. map (F_call k ty) [Varargs, Valist, Value_array]) return_types)"

definition table_part :: "nat \<Rightarrow> nat \<Rightarrow> env_function option list" where
  "table_part i n = map asm2_env_table [i ..< i + n]"

definition env_entries :: "(nat \<times> env_function) list" where
  "env_entries = env_objects @ env_calls @ env_fields @ env_static @ env_strings @ env_arrays @ env_rest"

lemmas env_lists = env_objects_def env_calls_def env_fields_def env_static_def env_strings_def env_arrays_def
  env_rest_def

lemma env_positions: "map fst env_entries = [4 ..< 233]"
  by (simp add: env_entries_def env_lists)

lemma map_of_positions:
  assumes "map fst xs = [a ..< b]" and "a \<le> i" and "i < b"
  shows "map_of xs i = Some (map snd xs ! (i - a))"
proof -
  have "xs = zip [a ..< b] (map snd xs)" by (simp only: assms(1) [symmetric] zip_map_fst_snd)
  moreover have "List.length xs = b - a" using arg_cong [OF assms(1), of List.length] by simp
  moreover have "map_of (zip [a ..< b] (map snd xs)) ([a ..< b] ! (i - a)) = Some (map snd xs ! (i - a))"
    using assms(2,3) \<open>List.length xs = b - a\<close> by (intro map_of_zip_nth) auto
  ultimately show ?thesis using assms(2,3) by simp
qed

lemma table_part_entries:
  assumes "4 \<le> i" and "i + n \<le> 233"
  shows "table_part i n = map Some (take n (drop (i - 4) (map snd env_entries)))"
proof (rule nth_equalityI)
  have len: "List.length env_entries = 229" using arg_cong [OF env_positions, of List.length] by simp
  then show "List.length (table_part i n) = List.length (map Some (take n (drop (i - 4) (map snd env_entries))))"
    using assms by (simp add: table_part_def)
  fix k
  assume "k < List.length (table_part i n)"
  then have k: "k < n" by (simp add: table_part_def)
  then have "asm2_env_table (i + k) = Some (map snd env_entries ! (i + k - 4))"
    unfolding asm2_env_table_def env_entries_def [symmetric]
    using assms by (intro map_of_positions [OF env_positions]) simp_all
  then show "table_part i n ! k = map Some (take n (drop (i - 4) (map snd env_entries))) ! k"
    using k assms len by (simp add: table_part_def)
qed

text \<open>The function table has the layout of JNI 1.6: the positions 4 to 232 are filled, those before are
  reserved, the calls stand at 34, 64 and 114 type by type, each with its three forms, the field functions at
  95, 104, 145 and 154, and the array functions from 175 on, each group in the order of the types.\<close>

theorem env_table_layout:
  "dom asm2_env_table = {4 ..< 233}
   \<and> table_part 34 30 = map Some (calls_of Instance_call)
   \<and> table_part 64 30 = map Some (calls_of Nonvirtual_call)
   \<and> table_part 114 30 = map Some (calls_of Static_call)
   \<and> table_part 95 18 = map Some (map (F_get_field False) (J_object # primitive_types)
                                 @ map (F_set_field False) (J_object # primitive_types))
   \<and> table_part 145 18 = map Some (map (F_get_field True) (J_object # primitive_types)
                                 @ map (F_set_field True) (J_object # primitive_types))
   \<and> table_part 175 40 = map Some (map F_new_array primitive_types @ map F_get_elements primitive_types
        @ map F_release_elements primitive_types @ map F_get_region primitive_types @ map F_set_region primitive_types)"
proof -
  have "set (map fst env_entries) = set [4 ..< 233]"
    by (simp only: env_positions)
  then have "dom asm2_env_table = {4 ..< 233}"
    unfolding asm2_env_table_def dom_map_of_conv_image_fst env_entries_def by (simp only: set_map set_upt)
  moreover have "table_part 34 30 = map Some (calls_of Instance_call)"
    "table_part 64 30 = map Some (calls_of Nonvirtual_call)"
    "table_part 114 30 = map Some (calls_of Static_call)"
    by (simp_all add: table_part_entries env_entries_def env_lists calls_of_def return_types_def)
  ultimately show ?thesis
    by (simp add: table_part_entries env_entries_def env_lists primitive_types_def)
qed

end
