(* ===== verification/Asm2_Sha256.thy ===== *)
theory Asm2_Sha256
  imports Asm2_Prelude
begin

text \<open>
  The SHA-256 of \<open>src/asm2_127/src/capture_x86.c\<close>, which hashes a captured frame piece by piece as it is
  written: the compression function, the buffering update and the final padding.  A reference that pads
  the whole message first and then compresses block by block is what the pieces amount to.
\<close>

unbundle bit_operations_syntax

section \<open>The code\<close>

text \<open>\<open>sha_block\<close> is the block buffer, of which the first \<open>sha_size\<close> bytes are in use.\<close>

record sha256 =
  sha_state :: "u32 list"
  sha_bits :: u64
  sha_block :: bytes
  sha_size :: nat

definition round_constants :: "u32 list" where
  "round_constants =
    [0x428A2F98, 0x71374491, 0xB5C0FBCF, 0xE9B5DBA5, 0x3956C25B, 0x59F111F1, 0x923F82A4, 0xAB1C5ED5,
     0xD807AA98, 0x12835B01, 0x243185BE, 0x550C7DC3, 0x72BE5D74, 0x80DEB1FE, 0x9BDC06A7, 0xC19BF174,
     0xE49B69C1, 0xEFBE4786, 0x0FC19DC6, 0x240CA1CC, 0x2DE92C6F, 0x4A7484AA, 0x5CB0A9DC, 0x76F988DA,
     0x983E5152, 0xA831C66D, 0xB00327C8, 0xBF597FC7, 0xC6E00BF3, 0xD5A79147, 0x06CA6351, 0x14292967,
     0x27B70A85, 0x2E1B2138, 0x4D2C6DFC, 0x53380D13, 0x650A7354, 0x766A0ABB, 0x81C2C92E, 0x92722C85,
     0xA2BFE8A1, 0xA81A664B, 0xC24B8B70, 0xC76C51A3, 0xD192E819, 0xD6990624, 0xF40E3585, 0x106AA070,
     0x19A4C116, 0x1E376C08, 0x2748774C, 0x34B0BCB5, 0x391C0CB3, 0x4ED8AA4A, 0x5B9CCA4F, 0x682E6FF3,
     0x748F82EE, 0x78A5636F, 0x84C87814, 0x8CC70208, 0x90BEFFFA, 0xA4506CEB, 0xBEF9A3F7, 0xC67178F2]"

definition rotate_right :: "u32 \<Rightarrow> nat \<Rightarrow> u32" where
  "rotate_right v n = drop_bit n v OR push_bit (32 - n) v"

definition be32 :: "u8 \<Rightarrow> u8 \<Rightarrow> u8 \<Rightarrow> u8 \<Rightarrow> u32" where
  "be32 a b c d = push_bit 24 (ucast a) OR push_bit 16 (ucast b) OR push_bit 8 (ucast c) OR ucast d"

fun block_words :: "bytes \<Rightarrow> u32 list" where
  "block_words (a # b # c # d # rest) = be32 a b c d # block_words rest"
| "block_words _ = []"

definition schedule_word :: "u32 list \<Rightarrow> nat \<Rightarrow> u32" where
  "schedule_word ws i =
     (let l = ws ! (i - 15); r = ws ! (i - 2);
          sigma0 = rotate_right l 7 XOR rotate_right l 18 XOR drop_bit 3 l;
          sigma1 = rotate_right r 17 XOR rotate_right r 19 XOR drop_bit 10 r
      in ws ! (i - 16) + sigma0 + ws ! (i - 7) + sigma1)"

fun extend_schedule :: "nat \<Rightarrow> u32 list \<Rightarrow> u32 list" where
  "extend_schedule 0 ws = ws"
| "extend_schedule (Suc n) ws = extend_schedule n (ws @ [schedule_word ws (List.length ws)])"

type_synonym sha_vars = "u32 \<times> u32 \<times> u32 \<times> u32 \<times> u32 \<times> u32 \<times> u32 \<times> u32"

fun sha_round :: "u32 \<times> u32 \<Rightarrow> sha_vars \<Rightarrow> sha_vars" where
  "sha_round (k, w) (a, b, c, d, e, f, g, h) =
     (let sum1 = rotate_right e 6 XOR rotate_right e 11 XOR rotate_right e 25;
          choice = (e AND f) XOR (NOT e AND g);
          temporary1 = h + sum1 + choice + k + w;
          sum0 = rotate_right a 2 XOR rotate_right a 13 XOR rotate_right a 22;
          majority = (a AND b) XOR (a AND c) XOR (b AND c);
          temporary2 = sum0 + majority
      in (temporary1 + temporary2, a, b, c, d + temporary1, e, f, g))"

fun vars_of :: "u32 list \<Rightarrow> sha_vars" where
  "vars_of [a, b, c, d, e, f, g, h] = (a, b, c, d, e, f, g, h)"
| "vars_of _ = (0, 0, 0, 0, 0, 0, 0, 0)"

fun words_of :: "sha_vars \<Rightarrow> u32 list" where
  "words_of (a, b, c, d, e, f, g, h) = [a, b, c, d, e, f, g, h]"

definition asm2_sha256_transform :: "u32 list \<Rightarrow> bytes \<Rightarrow> u32 list" where
  "asm2_sha256_transform st block =
     (let ws = extend_schedule 48 (block_words block)
      in map2 (+) st (words_of (fold sha_round (zip round_constants ws) (vars_of st))))"

definition initial_state :: "u32 list" where
  "initial_state =
     [0x6A09E667, 0xBB67AE85, 0x3C6EF372, 0xA54FF53A, 0x510E527F, 0x9B05688C, 0x1F83D9AB, 0x5BE0CD19]"

definition asm2_sha256_init :: sha256 where
  "asm2_sha256_init =
     \<lparr>sha_state = initial_state, sha_bits = 0, sha_block = replicate 64 0, sha_size = 0\<rparr>"

definition fill_block :: "sha256 \<Rightarrow> bytes \<Rightarrow> sha256" where
  "fill_block sha new = sha\<lparr>
     sha_block := take (sha_size sha) (sha_block sha) @ new @ drop (sha_size sha + List.length new) (sha_block sha),
     sha_size := sha_size sha + List.length new\<rparr>"

definition flush_block :: "sha256 \<Rightarrow> sha256" where
  "flush_block sha =
     (if sha_size sha = 64
      then sha\<lparr>sha_state := asm2_sha256_transform (sha_state sha) (sha_block sha), sha_size := 0\<rparr>
      else sha)"

text \<open>The loop makes no progress on a full buffer: \<open>None\<close> is a loop that does not end.\<close>

partial_function (option) absorb_input :: "sha256 \<Rightarrow> bytes \<Rightarrow> sha256 option" where
  "absorb_input sha input =
     (if input = [] then Some sha
      else let amount = min (List.length input) (64 - sha_size sha)
           in absorb_input (flush_block (fill_block sha (take amount input))) (drop amount input))"

definition asm2_sha256_update :: "sha256 \<Rightarrow> bytes \<Rightarrow> sha256 option" where
  "asm2_sha256_update sha data =
     absorb_input (sha\<lparr>sha_bits := sha_bits sha + of_nat (List.length data) * 8\<rparr>) data"

definition be64_bytes :: "u64 \<Rightarrow> bytes" where
  "be64_bytes n = map (\<lambda>i. ucast (drop_bit (56 - i * 8) n)) [0 ..< 8]"

definition be32_bytes :: "u32 \<Rightarrow> bytes" where
  "be32_bytes w = [ucast (drop_bit 24 w), ucast (drop_bit 16 w), ucast (drop_bit 8 w), ucast w]"

text \<open>\<open>size\<close> is below 64, so the marker fits; the length needs the last 8 bytes of a block.\<close>

definition asm2_sha256_final :: "sha256 \<Rightarrow> bytes" where
  "asm2_sha256_final sha =
     (let marked = take (sha_size sha) (sha_block sha) @ [0x80];
          (st, start) =
            (if List.length marked > 56
             then (asm2_sha256_transform (sha_state sha) (marked @ replicate (64 - List.length marked) 0), [])
             else (sha_state sha, marked));
          last_block = start @ replicate (56 - List.length start) 0 @ be64_bytes (sha_bits sha)
      in concat (map be32_bytes (asm2_sha256_transform st last_block)))"

section \<open>The reference\<close>

function blocks_state :: "u32 list \<Rightarrow> bytes \<Rightarrow> u32 list" where
  "blocks_state st bs =
     (if List.length bs < 64 then st else blocks_state (asm2_sha256_transform st (take 64 bs)) (drop 64 bs))"
  by pat_completeness auto
termination by (relation "measure (\<lambda>(st, bs). List.length bs)") auto

declare blocks_state.simps [simp del]

text \<open>The message, a one bit, as few zeros as make the length 8 bytes short of a multiple of 64, the length.\<close>

definition padded :: "bytes \<Rightarrow> bytes" where
  "padded msg =
     msg @ [0x80] @ replicate ((119 - List.length msg mod 64) mod 64) 0 @ be64_bytes (of_nat (List.length msg) * 8)"

definition sha256_of :: "bytes \<Rightarrow> bytes" where
  "sha256_of msg = concat (map be32_bytes (blocks_state initial_state (padded msg)))"

section \<open>The pieces make the whole\<close>

lemma blocks_state_short: "List.length bs < 64 \<Longrightarrow> blocks_state st bs = st"
  by (subst blocks_state.simps) simp

lemma blocks_state_step:
  "List.length b = 64 \<Longrightarrow> blocks_state st (b @ bs) = blocks_state (asm2_sha256_transform st b) bs"
  by (subst blocks_state.simps) simp

lemma blocks_state_append:
  "List.length bs mod 64 = 0 \<Longrightarrow> blocks_state st (bs @ cs) = blocks_state (blocks_state st bs) cs"
proof (induction st bs rule: blocks_state.induct)
  case (1 st bs)
  show ?case
  proof (cases "List.length bs < 64")
    case True
    with 1(2) have "bs = []" by simp
    then show ?thesis by (simp add: blocks_state_short)
  next
    case False
    then have len: "List.length (drop 64 bs) mod 64 = 0" using 1(2) by (simp add: mod_if [of "List.length bs"])
    have split: "bs = take 64 bs @ drop 64 bs" by simp
    have b: "List.length (take 64 bs) = 64" using False by simp
    have "blocks_state st (bs @ cs) = blocks_state st (take 64 bs @ (drop 64 bs @ cs))"
      by (metis append.assoc split)
    also have "\<dots> = blocks_state (asm2_sha256_transform st (take 64 bs)) (drop 64 bs @ cs)"
      by (rule blocks_state_step [OF b])
    also have "\<dots> = blocks_state (blocks_state (asm2_sha256_transform st (take 64 bs)) (drop 64 bs)) cs"
      by (rule 1(1) [OF False len])
    also have "blocks_state (asm2_sha256_transform st (take 64 bs)) (drop 64 bs) = blocks_state st bs"
      using blocks_state_step [OF b, of st "drop 64 bs"] by simp
    finally show ?thesis .
  qed
qed

text \<open>What the fields say about the bytes that have been taken in.\<close>

definition sha_holds :: "bytes \<Rightarrow> sha256 \<Rightarrow> bool" where
  "sha_holds msg sha \<longleftrightarrow>
     List.length (sha_block sha) = 64 \<and> sha_size sha = List.length msg mod 64
     \<and> take (sha_size sha) (sha_block sha) = drop (List.length msg - sha_size sha) msg
     \<and> sha_state sha = blocks_state initial_state (take (List.length msg - sha_size sha) msg)"

lemma init_holds: "sha_holds [] asm2_sha256_init"
  by (simp add: sha_holds_def asm2_sha256_init_def blocks_state_short)

lemma sha_holdsD:
  assumes "sha_holds msg sha"
  shows "List.length (sha_block sha) = 64" "sha_size sha = List.length msg mod 64" "sha_size sha < 64"
    "sha_size sha \<le> List.length msg"
    "take (sha_size sha) (sha_block sha) = drop (List.length msg - sha_size sha) msg"
    "sha_state sha = blocks_state initial_state (take (List.length msg - sha_size sha) msg)"
proof -
  show size: "sha_size sha = List.length msg mod 64" and "List.length (sha_block sha) = 64"
    "take (sha_size sha) (sha_block sha) = drop (List.length msg - sha_size sha) msg"
    "sha_state sha = blocks_state initial_state (take (List.length msg - sha_size sha) msg)"
    using assms unfolding sha_holds_def by blast+
  show "sha_size sha < 64" "sha_size sha \<le> List.length msg" unfolding size by simp_all
qed

lemma sha_holds_bits [simp]: "sha_holds msg (sha\<lparr>sha_bits := b\<rparr>) = sha_holds msg sha"
  by (simp add: sha_holds_def)

text \<open>The bytes of the last, incomplete block, and those before it.\<close>

lemma message_parts:
  fixes msg :: bytes
  assumes "n = List.length msg mod 64"
  shows "List.length (take (List.length msg - n) msg) mod 64 = 0"
    and "List.length (drop (List.length msg - n) msg) = n"
proof -
  have "n \<le> List.length msg" using assms by simp
  then show "List.length (drop (List.length msg - n) msg) = n" by simp
  have "List.length msg - n = 64 * (List.length msg div 64)"
    unfolding assms by (rule minus_mod_eq_mult_div)
  then show "List.length (take (List.length msg - n) msg) mod 64 = 0" by simp
qed

lemma mod_of_multiple: "a mod 64 = 0 \<Longrightarrow> (a + k) mod 64 = k mod (64 :: nat)"
  by (metis add.left_neutral mod_add_left_eq)

lemma padding_zeros:
  "n < 56 \<Longrightarrow> (119 - n) mod 64 = 55 - (n :: nat)"
  "n < 64 \<Longrightarrow> \<not> n < 56 \<Longrightarrow> (119 - n) mod 64 = (63 - n) + (56 :: nat)"
  by (simp_all add: mod_if)

lemma piece_holds:
  assumes "sha_holds msg sha" and "List.length new \<le> 64 - sha_size sha"
  shows "sha_holds (msg @ new) (flush_block (fill_block sha new))
    \<and> sha_bits (flush_block (fill_block sha new)) = sha_bits sha"
proof -
  let ?n = "sha_size sha"
  let ?q = "List.length msg - ?n"
  have h: "List.length (sha_block sha) = 64" "?n = List.length msg mod 64" "?n < 64" "?n \<le> List.length msg"
    "take ?n (sha_block sha) = drop ?q msg" "sha_state sha = blocks_state initial_state (take ?q msg)"
    by (rule sha_holdsD [OF assms(1)])+
  note parts = message_parts [OF h(2)]
  have block: "List.length (sha_block (fill_block sha new)) = 64"
    "take (?n + List.length new) (sha_block (fill_block sha new)) = drop ?q msg @ new"
    using h assms(2) by (simp_all add: fill_block_def)
  have "List.length (take ?q msg) = ?q" by simp
  with parts(1) have "?q mod 64 = 0" by (simp only:)
  then have mod: "(?q + k) mod 64 = k mod 64" for k by (rule mod_of_multiple)
  have total: "List.length msg + List.length new = ?q + (?n + List.length new)" using h(4) by simp
  show ?thesis
  proof (cases "?n + List.length new = 64")
    case True
    then have "sha_block (fill_block sha new) = drop ?q msg @ new" using block by simp
    moreover have "blocks_state initial_state (msg @ new)
        = asm2_sha256_transform (sha_state sha) (drop ?q msg @ new)"
    proof -
      have "msg @ new = take ?q msg @ (drop ?q msg @ new)" by simp
      then have "blocks_state initial_state (msg @ new) = blocks_state (sha_state sha) (drop ?q msg @ new)"
        using blocks_state_append [OF parts(1), of initial_state "drop ?q msg @ new"] h(6) by metis
      then show ?thesis
        using blocks_state_step [of "drop ?q msg @ new" "sha_state sha" "[]"] True h(4) by (simp add: blocks_state_short)
    qed
    moreover have "(List.length msg + List.length new) mod 64 = 0" using total mod [of 64] True by simp
    ultimately show ?thesis
      using block True by (simp add: sha_holds_def flush_block_def fill_block_def)
  next
    case False
    then have less: "?n + List.length new < 64" using assms(2) h(3) by simp
    then have "(List.length msg + List.length new) mod 64 = ?n + List.length new"
      using total mod [of "?n + List.length new"] by simp
    moreover have "List.length (msg @ new) - (?n + List.length new) = ?q" by simp
    ultimately show ?thesis
      using block less h by (simp add: sha_holds_def flush_block_def fill_block_def)
  qed
qed

lemma absorb_holds:
  "sha_holds msg sha \<Longrightarrow>
     \<exists>sha'. absorb_input sha data = Some sha' \<and> sha_holds (msg @ data) sha' \<and> sha_bits sha' = sha_bits sha"
proof (induction "List.length data" arbitrary: msg sha data rule: less_induct)
  case less
  show ?case
  proof (cases "data = []")
    case True
    with less.prems show ?thesis by (subst absorb_input.simps) simp
  next
    case False
    let ?k = "min (List.length data) (64 - sha_size sha)"
    let ?s = "flush_block (fill_block sha (take ?k data))"
    have "sha_size sha < 64" by (rule sha_holdsD(3) [OF less.prems])
    then have "List.length (drop ?k data) < List.length data" using False by auto
    moreover have "sha_holds (msg @ take ?k data) ?s" "sha_bits ?s = sha_bits sha"
      using piece_holds [OF less.prems, of "take ?k data"] by simp_all
    ultimately obtain sha' where "absorb_input ?s (drop ?k data) = Some sha'"
      "sha_holds ((msg @ take ?k data) @ drop ?k data) sha'" "sha_bits sha' = sha_bits sha"
      using less.hyps by metis
    then show ?thesis using False by (subst absorb_input.simps) (simp add: Let_def)
  qed
qed

definition sha_counts :: "bytes \<Rightarrow> sha256 \<Rightarrow> bool" where
  "sha_counts msg sha \<longleftrightarrow> sha_holds msg sha \<and> sha_bits sha = of_nat (List.length msg) * 8"

lemma update_counts:
  assumes "sha_counts msg sha"
  shows "\<exists>sha'. asm2_sha256_update sha data = Some sha' \<and> sha_counts (msg @ data) sha'"
proof -
  let ?s = "sha\<lparr>sha_bits := sha_bits sha + of_nat (List.length data) * 8\<rparr>"
  have "sha_holds msg ?s" using assms by (simp add: sha_counts_def)
  from absorb_holds [OF this, of data] assms show ?thesis
    by (auto simp: asm2_sha256_update_def sha_counts_def algebra_simps)
qed

lemma final_is_reference:
  assumes "sha_counts msg sha"
  shows "asm2_sha256_final sha = sha256_of msg"
proof -
  let ?n = "sha_size sha"
  let ?q = "List.length msg - ?n"
  let ?rest = "drop ?q msg"
  let ?len = "be64_bytes (of_nat (List.length msg) * 8)"
  have h: "?n = List.length msg mod 64" "?n < 64" "take ?n (sha_block sha) = ?rest"
    "sha_state sha = blocks_state initial_state (take ?q msg)" "sha_bits sha = of_nat (List.length msg) * 8"
    using assms sha_holdsD [of msg sha] unfolding sha_counts_def by blast+
  note parts = message_parts [OF h(1)]
  have len8: "List.length ?len = 8" by (simp add: be64_bytes_def)
  have tail: "blocks_state initial_state (padded msg)
      = blocks_state (sha_state sha) (?rest @ [0x80] @ replicate ((119 - ?n) mod 64) 0 @ ?len)"
  proof -
    have "padded msg = take ?q msg @ (?rest @ [0x80] @ replicate ((119 - ?n) mod 64) 0 @ ?len)"
      by (simp add: padded_def h(1))
    then show ?thesis using blocks_state_append [OF parts(1)] h(4) by metis
  qed
  show ?thesis
  proof (cases "?n < 56")
    case True
    then have z: "(119 - ?n) mod 64 = 55 - ?n" by (rule padding_zeros(1))
    have "List.length (?rest @ [0x80] @ replicate (55 - ?n) 0 @ ?len) = 64" using parts(2) len8 True by simp
    from blocks_state_step [OF this, of "sha_state sha" "[]"]
    show ?thesis
      using True parts(2) h(2,3,5) by (simp add: asm2_sha256_final_def sha256_of_def tail z blocks_state_short)
  next
    case False
    let ?one = "?rest @ [0x80] @ replicate (63 - ?n) 0"
    let ?two = "replicate 56 0 @ ?len"
    have z: "(119 - ?n) mod 64 = (63 - ?n) + 56" by (rule padding_zeros(2) [OF h(2) False])
    have one: "List.length ?one = 64" using parts(2) h(2) by simp
    have two: "List.length ?two = 64" using len8 by simp
    have "blocks_state (sha_state sha) (?one @ ?two)
        = asm2_sha256_transform (asm2_sha256_transform (sha_state sha) ?one) ?two"
      using blocks_state_step [OF one] blocks_state_step [OF two, of _ "[]"] by (simp add: blocks_state_short)
    then show ?thesis
      using False parts(2) h(2,3,5) by (simp add: asm2_sha256_final_def sha256_of_def tail [unfolded z replicate_add])
  qed
qed

fun update_all :: "sha256 \<Rightarrow> bytes list \<Rightarrow> sha256 option" where
  "update_all sha [] = Some sha"
| "update_all sha (d # ds) = Option.bind (asm2_sha256_update sha d) (\<lambda>u. update_all u ds)"

lemma update_all_counts:
  "sha_counts msg sha \<Longrightarrow> \<exists>sha'. update_all sha ds = Some sha' \<and> sha_counts (msg @ concat ds) sha'"
proof (induction ds arbitrary: msg sha)
  case (Cons d ds)
  obtain u where "asm2_sha256_update sha d = Some u" "sha_counts (msg @ d) u"
    using update_counts [OF Cons.prems] by blast
  with Cons.IH [of "msg @ d" u] show ?case by simp
qed simp

text \<open>C33. Hashing in pieces is hashing the whole: however a message is cut into calls of
  \<open>asm2_sha256_update\<close>, every call returns and \<open>asm2_sha256_final\<close> then gives the digest that padding the
  whole message first and compressing it block by block gives.\<close>

theorem hash_in_pieces:
  "\<exists>sha. update_all asm2_sha256_init pieces = Some sha \<and> asm2_sha256_final sha = sha256_of (concat pieces)"
proof -
  have "sha_counts [] asm2_sha256_init"
    using init_holds by (simp add: sha_counts_def asm2_sha256_init_def)
  from update_all_counts [OF this, of pieces] final_is_reference show ?thesis by auto
qed

end
