(* ===== verification/Asm2_Capture.thy ===== *)
theory Asm2_Capture
  imports Asm2_AtomicFile Asm2_Sha256
begin

text \<open>
  The frame capture of \<open>src/asm2_127/src/capture_x86.c\<close>: while a request file exists, the next frame is
  read back from the default framebuffer and written as a PPM picture through a temporary file that is
  renamed over the output, hashed as it is written; the request file is removed in every case.

  The host is the \<open>world\<close> of \<open>Asm2_AtomicFile\<close>: a file system and the answers of the calls to come.  GL is
  a parameter too: which entry points resolve, and what \<open>glReadPixels\<close> leaves in the buffer for the
  framebuffer and the pack alignment in force.
\<close>

section \<open>State\<close>

record capture_config =
  cap_initialized :: bool
  cap_enabled :: bool
  cap_completed :: u32
  cap_request :: bytes
  cap_output :: bytes

record gl_context =
  gl_framebuffer :: u32
  gl_pack_alignment :: int
  gl_resolves :: "string \<Rightarrow> bool"
  gl_pixels :: "u32 \<Rightarrow> int \<Rightarrow> int \<Rightarrow> int \<Rightarrow> bytes"

record capture_process =
  cp_config :: capture_config
  cp_gl :: gl_context
  cp_world :: world

text \<open>The zero-initialised static variable.\<close>

definition asm2_capture_zero :: capture_config where
  "asm2_capture_zero =
     \<lparr>cap_initialized = False, cap_enabled = False, cap_completed = 0, cap_request = [], cap_output = []\<rparr>"

text \<open>\<open>None\<close> is an environment variable that is not set.\<close>

definition asm2_capture_initialize :: "bytes option \<Rightarrow> bytes option \<Rightarrow> capture_config \<Rightarrow> capture_config" where
  "asm2_capture_initialize request output c =
     (if cap_initialized c then c
      else let c' = c\<lparr>cap_initialized := True\<rparr>
           in case (request, output) of
                (Some rq, Some out) \<Rightarrow>
                  if rq = [] \<or> out = [] then c'
                  else if List.length rq \<ge> 4096 \<or> List.length out \<ge> 4096 \<or> rq = out then c'
                  else c'\<lparr>cap_request := rq, cap_output := out, cap_enabled := True\<rparr>
              | _ \<Rightarrow> c')"

section \<open>The picture\<close>

definition ppm_header :: "int \<Rightarrow> int \<Rightarrow> bytes" where
  "ppm_header width height =
     [0x50, 0x36, 10] @ show_int width @ [32] @ show_int height @ [10, 0x32, 0x35, 0x35, 10]"

text \<open>One row: three of every four bytes.\<close>

fun drop_alpha :: "bytes \<Rightarrow> bytes" where
  "drop_alpha (r # g # b # a # rest) = r # g # b # drop_alpha rest"
| "drop_alpha _ = []"

definition ppm_row :: "bytes \<Rightarrow> nat \<Rightarrow> nat \<Rightarrow> nat \<Rightarrow> bytes" where
  "ppm_row rgba width height y =
     (let source_y = height - y - 1
      in drop_alpha (take (width * 4) (drop (source_y * width * 4) rgba)))"

definition ppm_file :: "bytes \<Rightarrow> int \<Rightarrow> int \<Rightarrow> bytes" where
  "ppm_file rgba width height =
     ppm_header width height @ concat (map (ppm_row rgba (nat width) (nat height)) [0 ..< nat height])"

definition hex_digit :: "nat \<Rightarrow> u8" where
  "hex_digit n = of_nat (if n < 10 then 48 + n else 87 + n)"

definition hex_bytes :: "bytes \<Rightarrow> bytes" where
  "hex_bytes bs = concat (map (\<lambda>b. [hex_digit (unat b div 16), hex_digit (unat b mod 16)]) bs)"

section \<open>The stream\<close>

text \<open>An open \<open>FILE\<close>: what it still buffers, the hash beside it, and the host.\<close>

record ppm_stream =
  ps_pending :: bytes
  ps_sha :: sha256
  ps_world :: world

type_synonym stream_step = "ppm_stream \<Rightarrow> (io_outcome \<times> ppm_stream) option"

definition append_file :: "bytes \<Rightarrow> bytes \<Rightarrow> world \<Rightarrow> world" where
  "append_file path new w =
     put_file path (Some (Regular ((case w_files w path of Some (Regular c) \<Rightarrow> c | _ \<Rightarrow> []) @ new))) w"

definition stream_then :: "stream_step \<Rightarrow> stream_step \<Rightarrow> stream_step" where
  "stream_then f g s =
     (case f s of None \<Rightarrow> None | Some (IO_ok, s') \<Rightarrow> g s' | Some (r, s') \<Rightarrow> Some (r, s'))"

text \<open>A call with no effect on the file: \<open>malloc\<close>, \<open>fsync\<close>.\<close>

definition stream_plain :: stream_step where
  "stream_plain s = (let (r, w) = sys_plain (ps_world s) in Some (r, s\<lparr>ps_world := w\<rparr>))"

text \<open>\<open>fwrite\<close> and the hash of what was written.  The answer says how much of the buffered output reaches
  the file at this call; \<open>None\<close> is a hash that does not return.\<close>

definition stream_write :: "bytes \<Rightarrow> bytes \<Rightarrow> stream_step" where
  "stream_write path data s =
     (case w_answers (ps_world s) of
        [] \<Rightarrow> Some (IO_killed, s)
      | Ans_err e # as \<Rightarrow> Some (IO_fail e, s\<lparr>ps_world := (ps_world s)\<lparr>w_answers := as\<rparr>\<rparr>)
      | Ans_ok k # as \<Rightarrow>
          let buffered = ps_pending s @ data
          in case asm2_sha256_update (ps_sha s) data of
               None \<Rightarrow> None
             | Some sha \<Rightarrow> Some (IO_ok,
                 \<lparr>ps_pending = drop k buffered, ps_sha = sha,
                  ps_world = append_file path (take k buffered) ((ps_world s)\<lparr>w_answers := as\<rparr>)\<rparr>))"

text \<open>\<open>fflush\<close>, and the flush that \<open>fclose\<close> does: on success nothing is left in the buffer.\<close>

definition stream_flush :: "bytes \<Rightarrow> stream_step" where
  "stream_flush path s =
     (case sys_plain (ps_world s) of
        (IO_ok, w) \<Rightarrow> Some (IO_ok, s\<lparr>ps_pending := [], ps_world := append_file path (ps_pending s) w\<rparr>)
      | (r, w) \<Rightarrow> Some (r, s\<lparr>ps_world := w\<rparr>))"

fun stream_rows :: "bytes \<Rightarrow> bytes list \<Rightarrow> stream_step" where
  "stream_rows path [] s = Some (IO_ok, s)"
| "stream_rows path (row # rows) s = stream_then (stream_write path row) (stream_rows path rows) s"

section \<open>Writing the file\<close>

text \<open>\<open>unlink\<close> reports ENOENT exactly when there is no such file.\<close>

definition sys_unlink :: "bytes \<Rightarrow> world \<Rightarrow> io_outcome \<times> world" where
  "sys_unlink path w =
     (case sys_plain w of
        (IO_ok, w') \<Rightarrow> if w_files w' path = None then (IO_fail ENOENT, w') else (IO_ok, put_file path None w')
      | (IO_fail e, w') \<Rightarrow> (IO_fail (if e = ENOENT \<and> w_files w' path \<noteq> None then EIO else e), w')
      | (IO_killed, w') \<Rightarrow> (IO_killed, w'))"

definition part_name :: "bytes \<Rightarrow> nat \<Rightarrow> bytes" where
  "part_name output pid = output @ cstr ''.part.'' @ show_nat pid"

text \<open>The label \<open>finished\<close> after a failure \<open>e\<close>: the \<open>unlink\<close>, and \<open>errno\<close> as it was.\<close>

definition capture_discard :: "bytes \<Rightarrow> errno \<Rightarrow> world \<Rightarrow> io_outcome \<times> world" where
  "capture_discard temporary e w =
     (case sys_unlink temporary w of (IO_killed, w') \<Rightarrow> (IO_killed, w') | (_, w') \<Rightarrow> (IO_fail e, w'))"

text \<open>Up to the \<open>fsync\<close>: the stream is still open after it.\<close>

definition write_picture :: "bytes \<Rightarrow> bytes \<Rightarrow> bytes list \<Rightarrow> stream_step" where
  "write_picture temporary header rows =
     (if List.length header \<ge> 64 then (\<lambda>s. Some (IO_fail EOVERFLOW, s))
      else stream_then (stream_write temporary header)
             (stream_then stream_plain
               (stream_then (stream_rows temporary rows)
                 (stream_then (stream_flush temporary) stream_plain))))"

text \<open>The outcome, the digest in hexadecimal and the size (both only after success), and the host.\<close>

type_synonym picture_result = "io_outcome \<times> bytes \<times> nat \<times> world"

definition capture_failed :: "io_outcome \<times> world \<Rightarrow> picture_result" where
  "capture_failed x = (fst x, [], 0, snd x)"

text \<open>After the \<open>fclose\<close> that succeeded: the \<open>rename\<close> and the digest.\<close>

definition commit_picture :: "bytes \<Rightarrow> bytes \<Rightarrow> nat \<Rightarrow> ppm_stream \<Rightarrow> picture_result" where
  "commit_picture temporary output amount s =
     (case rename_file temporary output (ps_world s) of
        (IO_ok, w) \<Rightarrow> (IO_ok, hex_bytes (asm2_sha256_final (ps_sha s)), amount, w)
      | (IO_fail e, w) \<Rightarrow> capture_failed (capture_discard temporary e w)
      | (IO_killed, w) \<Rightarrow> capture_failed (IO_killed, w))"

text \<open>The \<open>fclose\<close>, as the last step of a picture (\<open>None\<close>) or at \<open>finished\<close> after the failure \<open>e\<close>.\<close>

definition close_picture :: "bytes \<Rightarrow> bytes \<Rightarrow> nat \<Rightarrow> errno option \<Rightarrow> ppm_stream \<Rightarrow> picture_result option" where
  "close_picture temporary output amount failure s =
     (case stream_flush temporary s of
        None \<Rightarrow> None
      | Some (IO_killed, s') \<Rightarrow> Some (capture_failed (IO_killed, ps_world s'))
      | Some (IO_fail e, s') \<Rightarrow>
          Some (capture_failed (capture_discard temporary (case failure of None \<Rightarrow> e | Some e0 \<Rightarrow> e0) (ps_world s')))
      | Some (IO_ok, s') \<Rightarrow>
          Some (case failure of
                  None \<Rightarrow> commit_picture temporary output amount s'
                | Some e \<Rightarrow> capture_failed (capture_discard temporary e (ps_world s'))))"

definition write_opened ::
  "bytes \<Rightarrow> bytes \<Rightarrow> bytes \<Rightarrow> bytes list \<Rightarrow> nat \<Rightarrow> ppm_stream \<Rightarrow> picture_result option" where
  "write_opened temporary output header rows amount s =
     (case write_picture temporary header rows s of
        None \<Rightarrow> None
      | Some (IO_killed, s') \<Rightarrow> Some (capture_failed (IO_killed, ps_world s'))
      | Some (IO_fail e, s') \<Rightarrow> close_picture temporary output amount (Some e) s'
      | Some (IO_ok, s') \<Rightarrow> close_picture temporary output amount None s')"

definition asm2_capture_write_ppm ::
  "nat \<Rightarrow> bytes \<Rightarrow> bytes \<Rightarrow> int \<Rightarrow> int \<Rightarrow> world \<Rightarrow> picture_result option" where
  "asm2_capture_write_ppm pid output rgba width height w =
     (let temporary = part_name output pid;
          header = ppm_header width height;
          rows = map (ppm_row rgba (nat width) (nat height)) [0 ..< nat height];
          amount = List.length header + nat height * nat width * 3
      in if List.length temporary \<ge> 4096 then Some (capture_failed (IO_fail ENAMETOOLONG, w))
         else case sys_plain w of
           (IO_ok, w1) \<Rightarrow> write_opened temporary output header rows amount
               \<lparr>ps_pending = [], ps_sha = asm2_sha256_init,
                ps_world = put_file temporary (Some (Regular [])) w1\<rparr>
         | (r, w1) \<Rightarrow> Some (capture_failed (r, w1)))"

section \<open>One frame\<close>

text \<open>What a call reports: the line it prints, or nothing.  \<open>consumed\<close> is the last field of that line.\<close>

datatype capture_report =
    Cap_idle
  | Cap_limit
  | Cap_dimensions
  | Cap_resolve
  | Cap_allocate errno
  | Cap_write errno bool
  | Cap_ok bytes nat bool
  | Cap_killed

abbreviation max_captures :: u32 where "max_captures \<equiv> 32"
abbreviation size_max :: nat where "size_max \<equiv> 4294967295"
abbreviation max_pixels :: nat where "max_pixels \<equiv> 16777216"

text \<open>The removal of the request file that ends a call, whose result only the last two reports show.\<close>

definition finish_request :: "(bool \<Rightarrow> capture_report) \<Rightarrow> capture_process \<Rightarrow> capture_report \<times> capture_process" where
  "finish_request report p =
     (let (r, w) = sys_unlink (cap_request (cp_config p)) (cp_world p); p' = p\<lparr>cp_world := w\<rparr>
      in case r of
           IO_killed \<Rightarrow> (Cap_killed, p')
         | IO_ok \<Rightarrow> (report True, p')
         | IO_fail e \<Rightarrow> (report (e = ENOENT), p'))"

definition dimensions_fit :: "int \<Rightarrow> int \<Rightarrow> bool" where
  "dimensions_fit width height \<longleftrightarrow>
     0 < width \<and> 0 < height \<and> nat width \<le> size_max div nat height
     \<and> nat width * nat height \<le> size_max div 4 \<and> nat width * nat height \<le> max_pixels"

text \<open>The GL calls: the framebuffer and the alignment are saved, set, and set back around the read.\<close>

definition read_backbuffer :: "int \<Rightarrow> int \<Rightarrow> gl_context \<Rightarrow> bytes \<times> gl_context" where
  "read_backbuffer width height gl =
     (let old_framebuffer = gl_framebuffer gl;
          old_pack_alignment = gl_pack_alignment gl;
          gl1 = gl\<lparr>gl_framebuffer := 0\<rparr>;
          gl2 = gl1\<lparr>gl_pack_alignment := 1\<rparr>;
          rgba = gl_pixels gl2 (gl_framebuffer gl2) (gl_pack_alignment gl2) width height;
          gl3 = gl2\<lparr>gl_pack_alignment := old_pack_alignment\<rparr>
      in (rgba, gl3\<lparr>gl_framebuffer := old_framebuffer\<rparr>))"

definition capture_frame ::
  "nat \<Rightarrow> int \<Rightarrow> int \<Rightarrow> capture_process \<Rightarrow> (capture_report \<times> capture_process) option" where
  "capture_frame pid width height p =
     (case sys_plain (cp_world p) of
        (IO_killed, w) \<Rightarrow> Some (Cap_killed, p\<lparr>cp_world := w\<rparr>)
      | (IO_fail e, w) \<Rightarrow> Some (finish_request (\<lambda>_. Cap_allocate e) (p\<lparr>cp_world := w\<rparr>))
      | (IO_ok, w) \<Rightarrow>
          let (rgba, gl) = read_backbuffer width height (cp_gl p); p1 = p\<lparr>cp_world := w, cp_gl := gl\<rparr>
          in case asm2_capture_write_ppm pid (cap_output (cp_config p)) rgba width height w of
               None \<Rightarrow> None
             | Some (IO_killed, _, _, w') \<Rightarrow> Some (Cap_killed, p1\<lparr>cp_world := w'\<rparr>)
             | Some (IO_fail e, _, _, w') \<Rightarrow> Some (finish_request (Cap_write e) (p1\<lparr>cp_world := w'\<rparr>))
             | Some (IO_ok, digest, amount, w') \<Rightarrow>
                 (case finish_request (Cap_ok digest amount) (p1\<lparr>cp_world := w'\<rparr>) of
                    (Cap_killed, p2) \<Rightarrow> Some (Cap_killed, p2)
                  | (report, p2) \<Rightarrow> Some (report, p2\<lparr>cp_config := (cp_config p2)\<lparr>cap_completed :=
                      cap_completed (cp_config p2) + 1\<rparr>\<rparr>)))"

text \<open>The request file is there: the guards in order, and the frame.\<close>

definition capture_requested ::
  "nat \<Rightarrow> int \<Rightarrow> int \<Rightarrow> capture_process \<Rightarrow> (capture_report \<times> capture_process) option" where
  "capture_requested pid width height p =
     (if cap_completed (cp_config p) \<ge> max_captures
      then Some (case finish_request (\<lambda>_. Cap_limit) p of
             (report, p2) \<Rightarrow>
               (report, if report = Cap_killed then p2
                        else p2\<lparr>cp_config := (cp_config p2)\<lparr>cap_enabled := False\<rparr>\<rparr>))
      else if \<not> dimensions_fit width height then Some (finish_request (\<lambda>_. Cap_dimensions) p)
      else if \<not> (gl_resolves (cp_gl p) ''glGetIntegerv'' \<and> gl_resolves (cp_gl p) ''glPixelStorei''
                 \<and> gl_resolves (cp_gl p) ''glBindFramebuffer'' \<and> gl_resolves (cp_gl p) ''glReadPixels'')
      then Some (finish_request (\<lambda>_. Cap_resolve) p)
      else capture_frame pid width height p)"

definition asm2_x86_capture_backbuffer_if_requested ::
  "bytes option \<Rightarrow> bytes option \<Rightarrow> nat \<Rightarrow> int \<Rightarrow> int \<Rightarrow> capture_process \<Rightarrow> (capture_report \<times> capture_process) option"
where
  "asm2_x86_capture_backbuffer_if_requested env_request env_output pid width height p0 =
     (let p = p0\<lparr>cp_config := asm2_capture_initialize env_request env_output (cp_config p0)\<rparr>
      in if \<not> cap_enabled (cp_config p) then Some (Cap_idle, p)
         else case sys_open (cap_request (cp_config p)) (cp_world p) of
           (IO_killed, w) \<Rightarrow> Some (Cap_killed, p\<lparr>cp_world := w\<rparr>)
         | (IO_fail _, w) \<Rightarrow> Some (Cap_idle, p\<lparr>cp_world := w\<rparr>)
         | (IO_ok, w) \<Rightarrow> capture_requested pid width height (p\<lparr>cp_world := w\<rparr>))"

section \<open>The stream keeps what was written\<close>

text \<open>\<open>D\<close> has been written: what the file holds and what is buffered make \<open>D\<close>, the hash has taken in \<open>D\<close>,
  and no other file has changed since \<open>w0\<close>.\<close>

definition stream_holds :: "bytes \<Rightarrow> world \<Rightarrow> bytes \<Rightarrow> ppm_stream \<Rightarrow> bool" where
  "stream_holds path w0 D s \<longleftrightarrow>
     (\<exists>F. w_files (ps_world s) path = Some (Regular F) \<and> F @ ps_pending s = D)
     \<and> sha_counts D (ps_sha s) \<and> same_but path w0 (ps_world s)"

text \<open>A step that returns, that never touches another file and that, when it succeeds, has written \<open>new\<close>.\<close>

definition writes :: "bytes \<Rightarrow> bytes \<Rightarrow> stream_step \<Rightarrow> bool" where
  "writes path new f \<longleftrightarrow>
     (\<forall>w0 D s. stream_holds path w0 D s \<longrightarrow>
        (\<exists>r s'. f s = Some (r, s') \<and> same_but path w0 (ps_world s')
           \<and> (r = IO_ok \<longrightarrow> stream_holds path w0 (D @ new) s')))"

lemma writesI:
  assumes "\<And>w0 D s. stream_holds path w0 D s \<Longrightarrow>
     \<exists>r s'. f s = Some (r, s') \<and> same_but path w0 (ps_world s') \<and> (r = IO_ok \<longrightarrow> stream_holds path w0 (D @ new) s')"
  shows "writes path new f"
  using assms unfolding writes_def by blast

lemma writesD:
  assumes "writes path new f" and "stream_holds path w0 D s"
  obtains r s' where "f s = Some (r, s')" "same_but path w0 (ps_world s')"
    "r = IO_ok \<Longrightarrow> stream_holds path w0 (D @ new) s'"
  using assms unfolding writes_def by blast

lemma append_file_files:
  "w_files (append_file path new w) =
     (w_files w)(path \<mapsto> Regular ((case w_files w path of Some (Regular c) \<Rightarrow> c | _ \<Rightarrow> []) @ new))"
  by (simp add: append_file_def put_file_def)

lemma writes_then:
  assumes "writes path a f" and "writes path b g"
  shows "writes path (a @ b) (stream_then f g)"
proof (rule writesI)
  fix w0 D s
  assume "stream_holds path w0 D s"
  from writesD [OF assms(1) this] obtain r s' where f: "f s = Some (r, s')" "same_but path w0 (ps_world s')"
    "r = IO_ok \<Longrightarrow> stream_holds path w0 (D @ a) s'" by metis
  show "\<exists>r s'. stream_then f g s = Some (r, s') \<and> same_but path w0 (ps_world s')
      \<and> (r = IO_ok \<longrightarrow> stream_holds path w0 (D @ a @ b) s')"
  proof (cases "r = IO_ok")
    case True
    from writesD [OF assms(2) f(3) [OF True]] f(1) True show ?thesis
      by (metis (no_types, lifting) append.assoc io_outcome.simps(8) old.prod.case option.simps(5) stream_then_def)
  next
    case False
    with f show ?thesis by (cases r) (simp_all add: stream_then_def)
  qed
qed

lemma writes_plain: "writes path [] stream_plain"
  by (rule writesI)
     (auto simp: stream_plain_def stream_holds_def sys_plain_def same_but_def split: list.split sys_answer.split)

lemma writes_data: "writes path data (stream_write path data)"
proof (rule writesI)
  fix w0 D s
  assume h: "stream_holds path w0 D s"
  obtain F where F: "w_files (ps_world s) path = Some (Regular F)" "F @ ps_pending s = D"
    using h by (auto simp: stream_holds_def)
  have other: "same_but path w0 (ps_world s)" using h by (simp add: stream_holds_def)
  obtain sha where sha: "asm2_sha256_update (ps_sha s) data = Some sha" "sha_counts (D @ data) sha"
    using h update_counts [of D "ps_sha s" data] by (auto simp: stream_holds_def)
  show "\<exists>r s'. stream_write path data s = Some (r, s') \<and> same_but path w0 (ps_world s')
      \<and> (r = IO_ok \<longrightarrow> stream_holds path w0 (D @ data) s')"
  proof (cases "w_answers (ps_world s)")
    case Nil
    then show ?thesis using other by (simp add: stream_write_def)
  next
    case (Cons a as)
    show ?thesis
    proof (cases a)
      case (Ans_err e)
      then show ?thesis using Cons other by (simp add: stream_write_def same_but_def)
    next
      case (Ans_ok k)
      have "(F @ take k (ps_pending s @ data)) @ drop k (ps_pending s @ data) = D @ data"
        unfolding append.assoc append_take_drop_id using F(2) by simp
      then show ?thesis
        using Ans_ok Cons other F(1) sha
        by (simp add: stream_write_def stream_holds_def append_file_files same_but_def)
    qed
  qed
qed

lemma writes_flush: "writes path [] (stream_flush path)"
  by (rule writesI)
     (auto simp: stream_flush_def stream_holds_def sys_plain_def same_but_def append_file_files
        split: list.split sys_answer.split)

text \<open>After a flush that succeeded the file holds everything.\<close>

lemma flush_complete:
  assumes "stream_holds path w0 D s" and "stream_flush path s = Some (IO_ok, s')"
  shows "w_files (ps_world s') path = Some (Regular D) \<and> ps_sha s' = ps_sha s"
  using assms
  by (auto simp: stream_flush_def stream_holds_def sys_plain_def append_file_files
        split: list.splits sys_answer.splits)

lemma writes_rows: "writes path (concat rows) (stream_rows path rows)"
proof (induction rows)
  case Nil
  show ?case by (rule writesI) (simp add: stream_holds_def)
next
  case (Cons row rows)
  have "stream_rows path (row # rows) = stream_then (stream_write path row) (stream_rows path rows)"
    by (rule ext) simp
  then show ?case using writes_then [OF writes_data Cons.IH] by simp
qed

lemma writes_picture: "writes path (header @ concat rows) (write_picture path header rows)"
proof (cases "List.length header \<ge> 64")
  case True
  then show ?thesis by (auto intro!: writesI simp: write_picture_def stream_holds_def)
next
  case False
  have "writes path (header @ ([] @ (concat rows @ ([] @ [])))) (write_picture path header rows)"
    using False unfolding write_picture_def
    by (simp only: if_False)
       (intro writes_then writes_data writes_plain writes_rows writes_flush)
  then show ?thesis by simp
qed

lemma sys_unlink_gone:
  "sys_unlink path w = (r, w') \<Longrightarrow> r = IO_ok \<or> r = IO_fail ENOENT \<Longrightarrow> w_files w' path = None"
  by (auto simp: sys_unlink_def put_file_def split: prod.splits io_outcome.splits if_splits)

lemma sys_unlink_same: "same_but path w (snd (sys_unlink path w))"
  by (auto simp: sys_unlink_def same_but_def put_file_def sys_plain_def split: list.split sys_answer.split)

lemma capture_discard_same: "same_but path w (snd (capture_discard path e w))"
  using sys_unlink_same [of path w]
  by (auto simp: capture_discard_def split: prod.splits io_outcome.splits)


section \<open>What one picture leaves behind\<close>

definition same_outside :: "bytes set \<Rightarrow> world \<Rightarrow> world \<Rightarrow> bool" where
  "same_outside ps w w' \<longleftrightarrow> (\<forall>q. q \<notin> ps \<longrightarrow> w_files w' q = w_files w q)"

lemma same_outside_refl [simp]: "same_outside ps w w"
  by (simp add: same_outside_def)

lemma same_outside_trans: "same_outside ps a b \<Longrightarrow> same_outside ps b c \<Longrightarrow> same_outside ps a c"
  by (simp add: same_outside_def)

lemma same_but_outside: "same_but q w w' \<Longrightarrow> q \<in> ps \<Longrightarrow> same_outside ps w w'"
  by (auto simp: same_but_def same_outside_def)

lemma part_name_neq [simp]: "part_name output pid \<noteq> output"
  by (simp add: part_name_def cstr_def)

lemma rename_picture:
  assumes "rename_file t d w = (r, w')" and "t \<noteq> d" and "w_files w t = Some n"
  shows "(r \<noteq> IO_ok \<and> same_but t w w') \<or> (r = IO_ok \<and> w_files w' = (w_files w)(d \<mapsto> n, t := None))"
  using assms
  by (auto simp: rename_file_def and_then_def put_file_def same_but_def sys_plain_def
        split: list.splits sys_answer.splits)

text \<open>Either the call fails and only the temporary file may have changed, or the output is the picture.\<close>

definition picture_done :: "bytes \<Rightarrow> bytes \<Rightarrow> bytes \<Rightarrow> nat \<Rightarrow> world \<Rightarrow> picture_result \<Rightarrow> bool" where
  "picture_done temporary output picture amount w res =
     (case res of (r, digest, n, w') \<Rightarrow>
        if r = IO_ok
        then w_files w' = (w_files w)(output \<mapsto> Regular picture, temporary := None)
             \<and> digest = hex_bytes (sha256_of picture) \<and> n = amount
        else same_but temporary w w')"

lemma picture_failed:
  "same_but t w (snd x) \<Longrightarrow> fst x \<noteq> IO_ok \<Longrightarrow> picture_done t out D n w (capture_failed x)"
  by (simp add: picture_done_def capture_failed_def)

lemma capture_discard_not_ok: "fst (capture_discard path e w) \<noteq> IO_ok"
  by (auto simp: capture_discard_def split: prod.split io_outcome.split)

lemma picture_discarded:
  "same_but t w w1 \<Longrightarrow> picture_done t out D n w (capture_failed (capture_discard t e w1))"
  by (rule picture_failed) (blast intro: same_but_trans capture_discard_same, rule capture_discard_not_ok)

lemma commit_picture_effect:
  assumes "same_but t w (ps_world s)" and "t \<noteq> out" and "w_files (ps_world s) t = Some (Regular D)"
    and "sha_counts D (ps_sha s)"
  shows "picture_done t out D n w (commit_picture t out n s)"
proof -
  obtain r w1 where run: "rename_file t out (ps_world s) = (r, w1)" by fastforce
  from rename_picture [OF run assms(2,3)] show ?thesis
  proof
    assume h: "r \<noteq> IO_ok \<and> same_but t (ps_world s) w1"
    with assms(1) have "same_but t w w1" by (blast intro: same_but_trans)
    with h show ?thesis
      by (cases r) (simp_all add: commit_picture_def run picture_discarded picture_failed)
  next
    assume h: "r = IO_ok \<and> w_files w1 = (w_files (ps_world s))(out \<mapsto> Regular D, t := None)"
    moreover have "(w_files (ps_world s))(out \<mapsto> Regular D, t := None) = (w_files w)(out \<mapsto> Regular D, t := None)"
      using assms(1) by (auto simp: same_but_def)
    ultimately show ?thesis
      using final_is_reference [OF assms(4)] by (simp add: commit_picture_def run picture_done_def)
  qed
qed

lemma close_picture_effect:
  assumes "stream_holds t w D s" and "t \<noteq> out"
  shows "\<exists>res. close_picture t out n failure s = Some res \<and> picture_done t out D n w res"
proof -
  from writesD [OF writes_flush assms(1)] obtain r s' where run: "stream_flush t s = Some (r, s')"
    and other: "same_but t w (ps_world s')" and ok: "r = IO_ok \<Longrightarrow> stream_holds t w (D @ []) s'"
    by metis
  show ?thesis
  proof (cases "r = IO_ok \<and> failure = None")
    case True
    then have "w_files (ps_world s') t = Some (Regular D)" "sha_counts D (ps_sha s')"
      using flush_complete [OF assms(1)] run ok by (simp_all add: stream_holds_def)
    from commit_picture_effect [OF other assms(2) this] True show ?thesis
      by (simp add: close_picture_def run)
  next
    case False
    with other show ?thesis
      by (cases r; cases failure)
         (simp_all add: close_picture_def run picture_discarded picture_failed)
  qed
qed

lemma flush_returns: "\<exists>r s'. stream_flush t s = Some (r, s') \<and> same_but t (ps_world s) (ps_world s')"
proof -
  obtain r w where run: "sys_plain (ps_world s) = (r, w)" by fastforce
  then have "w_files w = w_files (ps_world s)" using sys_plain_files [of "ps_world s"] by simp
  then show ?thesis
    by (cases r) (simp_all add: stream_flush_def run same_but_def append_file_files)
qed

text \<open>A stream that failed keeps the other files, which is all that closing it needs.\<close>

lemma close_failed_effect:
  assumes "same_but t w (ps_world s)"
  shows "\<exists>res. close_picture t out n (Some e) s = Some res \<and> picture_done t out D n w res"
proof -
  obtain r s' where run: "stream_flush t s = Some (r, s')" and "same_but t (ps_world s) (ps_world s')"
    using flush_returns by blast
  with assms have "same_but t w (ps_world s')" by (blast intro: same_but_trans)
  then show ?thesis
    by (cases r) (simp_all add: close_picture_def run picture_discarded picture_failed)
qed

lemma write_opened_effect:
  assumes "stream_holds t w [] s" and "t \<noteq> out"
  shows "\<exists>res. write_opened t out header rows n s = Some res \<and> picture_done t out (header @ concat rows) n w res"
proof -
  from writesD [OF writes_picture assms(1)] obtain r s' where run: "write_picture t header rows s = Some (r, s')"
    and other: "same_but t w (ps_world s')" and ok: "r = IO_ok \<Longrightarrow> stream_holds t w ([] @ header @ concat rows) s'"
    by metis
  show ?thesis
  proof (cases r)
    case IO_ok
    with ok close_picture_effect [OF _ assms(2)] show ?thesis by (simp add: write_opened_def run)
  next
    case (IO_fail e)
    with close_failed_effect [OF other] show ?thesis by (simp add: write_opened_def run)
  next
    case IO_killed
    with other show ?thesis by (simp add: write_opened_def run picture_failed)
  qed
qed

lemma picture_done_files:
  "w_files w1 = w_files w \<Longrightarrow> picture_done t out D n w1 res = picture_done t out D n w res"
  by (simp add: picture_done_def same_but_def split: prod.split)

lemma write_ppm_effect:
  "\<exists>res. asm2_capture_write_ppm pid output rgba width height w = Some res
     \<and> picture_done (part_name output pid) output (ppm_file rgba width height)
          (List.length (ppm_header width height) + nat height * nat width * 3) w res"
proof -
  let ?t = "part_name output pid"
  obtain r w1 where plain: "sys_plain w = (r, w1)" by fastforce
  then have w1: "w_files w1 = w_files w" using sys_plain_files [of w] by simp
  have start: "stream_holds ?t w [] \<lparr>ps_pending = [], ps_sha = asm2_sha256_init,
      ps_world = put_file ?t (Some (Regular [])) w1\<rparr>"
    using w1 init_holds
    by (simp add: stream_holds_def put_file_def same_but_def sha_counts_def asm2_sha256_init_def)
  show ?thesis
  proof (cases "List.length ?t \<ge> 4096")
    case True
    then show ?thesis by (simp add: asm2_capture_write_ppm_def Let_def picture_failed)
  next
    case False
    have "same_but ?t w w1" using w1 by (simp add: same_but_def)
    then show ?thesis
      using False plain write_opened_effect [OF start part_name_neq]
      by (cases r) (simp_all add: asm2_capture_write_ppm_def Let_def ppm_file_def picture_failed)
  qed
qed

end
