(* ===== verification/Asm2_CaptureProps.thy ===== *)
theory Asm2_CaptureProps
  imports Asm2_Capture
begin

text \<open>
  What a capture call guarantees: the output file is the old one or the whole picture whenever the call
  stops, GL is left as it was found, a success reports the digest of the very file, and a process takes at
  most 32 pictures.
\<close>

section \<open>The parts of a call\<close>

definition config_ok :: "capture_config \<Rightarrow> bool" where
  "config_ok c \<longleftrightarrow> (cap_enabled c \<longrightarrow>
     cap_initialized c \<and> cap_request c \<noteq> [] \<and> cap_output c \<noteq> [] \<and> cap_request c \<noteq> cap_output c
     \<and> List.length (cap_request c) < 4096 \<and> List.length (cap_output c) < 4096)"

lemma config_zero_ok: "config_ok asm2_capture_zero"
  by (simp add: config_ok_def asm2_capture_zero_def)

lemma initialize_ok: "config_ok c \<Longrightarrow> config_ok (asm2_capture_initialize rq out c)"
  by (auto simp: config_ok_def asm2_capture_initialize_def Let_def split: option.split)

lemma initialize_completed [simp]: "cap_completed (asm2_capture_initialize rq out c) = cap_completed c"
  by (simp add: asm2_capture_initialize_def Let_def split: option.split)

lemma read_backbuffer_restores:
  "read_backbuffer width height gl = (gl_pixels gl 0 1 width height, gl)"
  by (simp add: read_backbuffer_def Let_def)

lemma finish_request_effect:
  obtains rep w where "finish_request report p = (rep, p\<lparr>cp_world := w\<rparr>)"
    "same_but (cap_request (cp_config p)) (cp_world p) w"
    "rep = Cap_killed \<or> (\<exists>b. rep = report b \<and> (b \<longrightarrow> w_files w (cap_request (cp_config p)) = None))"
proof -
  let ?rq = "cap_request (cp_config p)"
  obtain r w where run: "sys_unlink ?rq (cp_world p) = (r, w)" by fastforce
  then have same: "same_but ?rq (cp_world p) w" using sys_unlink_same [of ?rq "cp_world p"] by simp
  have gone: "r = IO_ok \<or> r = IO_fail ENOENT \<Longrightarrow> w_files w ?rq = None"
    using sys_unlink_gone [OF run] .
  show ?thesis
  proof (cases r)
    case IO_ok
    then show ?thesis using run gone same by (intro that [of "report True" w]) (auto simp: finish_request_def)
  next
    case (IO_fail e)
    then show ?thesis using run gone same by (intro that [of "report (e = ENOENT)" w]) (auto simp: finish_request_def)
  next
    case IO_killed
    then show ?thesis using run same by (intro that [of Cap_killed w]) (auto simp: finish_request_def)
  qed
qed


text \<open>What one call may do to the files: \<open>picture\<close> is what it would write.\<close>

definition call_files :: "capture_config \<Rightarrow> nat \<Rightarrow> bytes \<Rightarrow> world \<Rightarrow> world \<Rightarrow> bool" where
  "call_files c pid picture w w' \<longleftrightarrow>
     same_outside {cap_output c, part_name (cap_output c) pid, cap_request c} w w'
     \<and> (w_files w' (cap_output c) = w_files w (cap_output c)
        \<or> w_files w' (cap_output c) = Some (Regular picture))"

text \<open>A success: the report tells the digest and the size of the file it leaves, and whether the request went.\<close>

definition call_succeeded :: "capture_config \<Rightarrow> bytes \<Rightarrow> nat \<Rightarrow> capture_report \<Rightarrow> world \<Rightarrow> bool" where
  "call_succeeded c picture amount rep w' \<longleftrightarrow>
     (\<exists>consumed. rep = Cap_ok (hex_bytes (sha256_of picture)) amount consumed
        \<and> w_files w' (cap_output c) = Some (Regular picture)
        \<and> (consumed \<longrightarrow> w_files w' (cap_request c) = None))"

lemma call_files_same: "w_files w' = w_files w \<Longrightarrow> call_files c pid picture w w'"
  by (simp add: call_files_def same_outside_def)

lemma call_files_request:
  assumes "call_files c pid picture w w1" and "same_but (cap_request c) w1 w'" and "cap_request c \<noteq> cap_output c"
  shows "call_files c pid picture w w'"
proof -
  have "same_outside {cap_output c, part_name (cap_output c) pid, cap_request c} w1 w'"
    by (rule same_but_outside [OF assms(2)]) simp
  moreover have "w_files w' (cap_output c) = w_files w1 (cap_output c)"
    using assms(2,3) by (simp add: same_but_def)
  moreover have "same_outside {cap_output c, part_name (cap_output c) pid, cap_request c} w w1"
    using assms(1) by (simp add: call_files_def)
  ultimately have "same_outside {cap_output c, part_name (cap_output c) pid, cap_request c} w w'"
    and "w_files w' (cap_output c) = w_files w1 (cap_output c)"
    by (blast intro: same_outside_trans)+
  then show ?thesis using assms(1) by (simp add: call_files_def)
qed

text \<open>Every way a call can end.\<close>

definition call_result ::
  "capture_process \<Rightarrow> nat \<Rightarrow> bytes \<Rightarrow> nat \<Rightarrow> capture_report \<Rightarrow> capture_process \<Rightarrow> bool" where
  "call_result p pid picture amount rep p' \<longleftrightarrow>
     cp_gl p' = cp_gl p \<and> call_files (cp_config p) pid picture (cp_world p) (cp_world p')
     \<and> (if \<exists>d n b. rep = Cap_ok d n b
        then call_succeeded (cp_config p) picture amount rep (cp_world p')
             \<and> cp_config p' = (cp_config p)\<lparr>cap_completed := cap_completed (cp_config p) + 1\<rparr>
             \<and> cap_completed (cp_config p) < max_captures
        else \<exists>b. cp_config p' = (cp_config p)\<lparr>cap_enabled := b\<rparr> \<and> (b \<longrightarrow> cap_enabled (cp_config p)))"

lemma config_kept: "\<exists>b. c = c\<lparr>cap_enabled := b\<rparr> \<and> (b \<longrightarrow> cap_enabled c)"
  by (rule exI [of _ "cap_enabled c"]) simp

lemma config_disabled: "\<exists>b. c\<lparr>cap_enabled := False\<rparr> = c\<lparr>cap_enabled := b\<rparr> \<and> (b \<longrightarrow> cap_enabled c)"
  by (rule exI [of _ False]) simp

lemma call_result_quiet:
  assumes "w_files w = w_files (cp_world p)" and "\<nexists>d n b. rep = Cap_ok d n b"
  shows "call_result p pid picture amount rep (p\<lparr>cp_world := w\<rparr>)"
  unfolding call_result_def if_not_P [OF assms(2)]
  using config_kept [of "cp_config p"] call_files_same [OF assms(1)] by simp

text \<open>A report other than a success after the removal of the request.\<close>

lemma finish_quiet:
  assumes "cap_request (cp_config p) \<noteq> cap_output (cp_config p)"
    and "call_files (cp_config p) pid picture (cp_world p) w"
    and "\<And>b. \<nexists>d n b'. report b = Cap_ok d n b'"
  obtains rep w' where "finish_request report (p\<lparr>cp_world := w\<rparr>) = (rep, p\<lparr>cp_world := w'\<rparr>)"
    "call_result p pid picture amount rep (p\<lparr>cp_world := w'\<rparr>)"
    "call_result p pid picture amount rep (p\<lparr>cp_world := w', cp_config := (cp_config p)\<lparr>cap_enabled := False\<rparr>\<rparr>)"
proof -
  let ?q = "p\<lparr>cp_world := w\<rparr>"
  obtain rep w' where run: "finish_request report ?q = (rep, ?q\<lparr>cp_world := w'\<rparr>)"
    and same: "same_but (cap_request (cp_config ?q)) (cp_world ?q) w'"
    and rep: "rep = Cap_killed \<or> (\<exists>b. rep = report b \<and> (b \<longrightarrow> w_files w' (cap_request (cp_config ?q)) = None))"
    by (rule finish_request_effect)
  have files: "call_files (cp_config p) pid picture (cp_world p) w'"
    using call_files_request [OF assms(2) _ assms(1)] same by simp
  have quiet: "\<nexists>d n b. rep = Cap_ok d n b"
  proof (rule notI, elim exE)
    fix d n b'
    assume eq: "rep = Cap_ok d n b'"
    with rep obtain b where "report b = Cap_ok d n b'" by auto
    with assms(3) [of b] show False by blast
  qed
  show ?thesis
  proof (rule that)
    show "finish_request report ?q = (rep, p\<lparr>cp_world := w'\<rparr>)" using run by simp
    show "call_result p pid picture amount rep (p\<lparr>cp_world := w'\<rparr>)"
      unfolding call_result_def if_not_P [OF quiet] using files config_kept [of "cp_config p"] by simp
    show "call_result p pid picture amount rep (p\<lparr>cp_world := w', cp_config := (cp_config p)\<lparr>cap_enabled := False\<rparr>\<rparr>)"
      unfolding call_result_def if_not_P [OF quiet] using files config_disabled [of "cp_config p"] by simp
  qed
qed


definition picture_of :: "gl_context \<Rightarrow> int \<Rightarrow> int \<Rightarrow> bytes" where
  "picture_of gl width height = ppm_file (gl_pixels gl 0 1 width height) width height"

definition reported_size :: "int \<Rightarrow> int \<Rightarrow> nat" where
  "reported_size width height = List.length (ppm_header width height) + nat height * nat width * 3"

lemma call_result_success:
  assumes "cap_request (cp_config p) \<noteq> cap_output (cp_config p)" and "cap_completed (cp_config p) < max_captures"
    and "w_files w = (w_files (cp_world p))(cap_output (cp_config p) \<mapsto> Regular picture,
           part_name (cap_output (cp_config p)) pid := None)"
    and "finish_request (Cap_ok (hex_bytes (sha256_of picture)) amount) (p\<lparr>cp_world := w\<rparr>) = (rep, p2)"
  shows "call_result p pid picture amount rep
     (if rep = Cap_killed then p2
      else p2\<lparr>cp_config := (cp_config p2)\<lparr>cap_completed := cap_completed (cp_config p2) + 1\<rparr>\<rparr>)"
proof -
  let ?c = "cp_config p"
  have files: "call_files ?c pid picture (cp_world p) w" "w_files w (cap_output ?c) = Some (Regular picture)"
    using assms(3) part_name_neq [of "cap_output ?c" pid]
    by (simp_all add: call_files_def same_outside_def part_name_neq [symmetric] del: part_name_neq)
  obtain rep' w' where run: "finish_request (Cap_ok (hex_bytes (sha256_of picture)) amount) (p\<lparr>cp_world := w\<rparr>)
      = (rep', p\<lparr>cp_world := w\<rparr>\<lparr>cp_world := w'\<rparr>)"
    and same: "same_but (cap_request (cp_config (p\<lparr>cp_world := w\<rparr>))) (cp_world (p\<lparr>cp_world := w\<rparr>)) w'"
    and rep: "rep' = Cap_killed \<or> (\<exists>b. rep' = Cap_ok (hex_bytes (sha256_of picture)) amount b
      \<and> (b \<longrightarrow> w_files w' (cap_request (cp_config (p\<lparr>cp_world := w\<rparr>))) = None))"
    by (rule finish_request_effect)
  have eq: "rep' = rep" "p2 = p\<lparr>cp_world := w'\<rparr>" using run assms(4) by simp_all
  have files': "call_files ?c pid picture (cp_world p) w'"
    using call_files_request [OF files(1) _ assms(1)] same by simp
  have out_file: "w_files w' (cap_output ?c) = Some (Regular picture)"
    using same files(2) assms(1) by (simp add: same_but_def)
  show ?thesis
  proof (cases "rep = Cap_killed")
    case True
    then show ?thesis
      using files' config_kept [of ?c] by (simp add: call_result_def eq)
  next
    case False
    with rep eq show ?thesis
      using files' out_file assms(2) by (auto simp: call_result_def call_succeeded_def)
  qed
qed

lemma call_files_failed:
  "same_but (part_name (cap_output c) pid) w w' \<Longrightarrow> call_files c pid picture w w'"
  using part_name_neq [of "cap_output c" pid, symmetric]
  by (simp add: call_files_def same_but_def same_outside_def)

lemma capture_frame_result:
  assumes "cap_request (cp_config p) \<noteq> cap_output (cp_config p)" and "cap_completed (cp_config p) < max_captures"
  shows "\<exists>rep p'. capture_frame pid width height p = Some (rep, p')
     \<and> call_result p pid (picture_of (cp_gl p) width height) (reported_size width height) rep p'"
proof -
  let ?picture = "picture_of (cp_gl p) width height" and ?n = "reported_size width height"
  note quiet = finish_quiet [OF assms(1), where pid = pid and picture = ?picture and amount = ?n]
  obtain r w where plain: "sys_plain (cp_world p) = (r, w)" by fastforce
  then have w: "w_files w = w_files (cp_world p)" using sys_plain_files [of "cp_world p"] by simp
  show ?thesis
  proof (cases r)
    case IO_killed
    with w show ?thesis by (simp add: capture_frame_def plain call_result_quiet)
  next
    case (IO_fail e)
    from quiet [of w "\<lambda>_. Cap_allocate e"] call_files_same [OF w] show ?thesis
      by (simp add: capture_frame_def plain IO_fail) metis
  next
    case ok: IO_ok
    let ?q = "p\<lparr>cp_world := w\<rparr>"
    obtain r' d n w' where written: "asm2_capture_write_ppm pid (cap_output (cp_config p))
        (gl_pixels (cp_gl p) 0 1 width height) width height w = Some (r', d, n, w')"
      and outcome: "picture_done (part_name (cap_output (cp_config p)) pid) (cap_output (cp_config p)) ?picture ?n w (r', d, n, w')"
      using write_ppm_effect [of pid "cap_output (cp_config p)" _ width height w]
      unfolding picture_of_def reported_size_def by (metis prod_cases4)
    have gl: "p\<lparr>cp_world := w, cp_gl := cp_gl p\<rparr> = ?q" by simp
    show ?thesis
    proof (cases r')
      case IO_killed
      have "call_files (cp_config p) pid ?picture (cp_world p) w'"
        using outcome IO_killed w by (intro call_files_failed) (simp add: picture_done_def same_but_def)
      then have "call_result p pid ?picture ?n Cap_killed (p\<lparr>cp_world := w'\<rparr>)"
        using config_kept [of "cp_config p"] by (simp add: call_result_def)
      then show ?thesis
        using written by (simp add: capture_frame_def plain ok read_backbuffer_restores Let_def IO_killed)
    next
      case (IO_fail e)
      have "call_files (cp_config p) pid ?picture (cp_world p) w'"
        using outcome IO_fail w by (intro call_files_failed) (simp add: picture_done_def same_but_def)
      from quiet [OF this, of "Cap_write e"] show ?thesis
        using written by (simp add: capture_frame_def plain ok read_backbuffer_restores Let_def IO_fail) metis
    next
      case IO_ok
      then have files: "w_files w' = (w_files (cp_world p))(cap_output (cp_config p) \<mapsto> Regular ?picture,
           part_name (cap_output (cp_config p)) pid := None)" "d = hex_bytes (sha256_of ?picture)" "n = ?n"
        using outcome w by (simp_all add: picture_done_def)
      obtain rep p2 where run: "finish_request (Cap_ok d n) (p\<lparr>cp_world := w'\<rparr>) = (rep, p2)" by fastforce
      note result = call_result_success [OF assms files(1) run [unfolded files(2,3)]]
      have "capture_frame pid width height p = Some (rep, if rep = Cap_killed then p2
          else p2\<lparr>cp_config := (cp_config p2)\<lparr>cap_completed := cap_completed (cp_config p2) + 1\<rparr>\<rparr>)"
        using written run
        by (cases rep) (simp_all add: capture_frame_def plain ok read_backbuffer_restores IO_ok)
      with result show ?thesis by blast
    qed
  qed
qed


lemma requested_returns:
  assumes "cap_request (cp_config p) \<noteq> cap_output (cp_config p)"
  shows "\<exists>rep p'. capture_requested pid width height p = Some (rep, p')
     \<and> call_result p pid (picture_of (cp_gl p) width height) (reported_size width height) rep p'"
proof -
  note quiet = finish_quiet [OF assms, of pid _ "cp_world p", OF call_files_same, OF refl,
    where picture = "picture_of (cp_gl p) width height" and amount = "reported_size width height"]
  show ?thesis
  proof (cases "cap_completed (cp_config p) \<ge> max_captures")
    case True
    obtain rep w' where "finish_request (\<lambda>_. Cap_limit) p = (rep, p\<lparr>cp_world := w'\<rparr>)"
      "call_result p pid (picture_of (cp_gl p) width height) (reported_size width height) rep (p\<lparr>cp_world := w'\<rparr>)"
      "call_result p pid (picture_of (cp_gl p) width height) (reported_size width height) rep
         (p\<lparr>cp_world := w', cp_config := (cp_config p)\<lparr>cap_enabled := False\<rparr>\<rparr>)"
      by (rule quiet [of "\<lambda>_. Cap_limit"]) simp_all
    then show ?thesis using True by (cases "rep = Cap_killed") (simp_all add: capture_requested_def)
  next
    case below: False
    show ?thesis
    proof (cases "dimensions_fit width height")
      case False
      obtain rep w' where "finish_request (\<lambda>_. Cap_dimensions) p = (rep, p\<lparr>cp_world := w'\<rparr>)"
        "call_result p pid (picture_of (cp_gl p) width height) (reported_size width height) rep (p\<lparr>cp_world := w'\<rparr>)"
        by (rule quiet [of "\<lambda>_. Cap_dimensions"]) simp_all
      then show ?thesis using below False by (simp add: capture_requested_def)
    next
      case fit: True
      obtain rep w' where "finish_request (\<lambda>_. Cap_resolve) p = (rep, p\<lparr>cp_world := w'\<rparr>)"
        "call_result p pid (picture_of (cp_gl p) width height) (reported_size width height) rep (p\<lparr>cp_world := w'\<rparr>)"
        by (rule quiet [of "\<lambda>_. Cap_resolve"]) simp_all
      moreover have "\<exists>rep p'. capture_frame pid width height p = Some (rep, p')
          \<and> call_result p pid (picture_of (cp_gl p) width height) (reported_size width height) rep p'"
        using below by (intro capture_frame_result [OF assms]) simp
      ultimately show ?thesis
        using fit unfolding capture_requested_def if_not_P [OF below] by (auto simp del: not_le)
    qed
  qed
qed

lemma call_result_opened:
  assumes "w_files w = w_files (cp_world p)"
  shows "call_result (p\<lparr>cp_world := w\<rparr>) pid picture amount rep p' = call_result p pid picture amount rep p'"
  using assms by (simp add: call_result_def call_files_def same_outside_def)

lemma call_returns:
  assumes "config_ok (cp_config p0)"
    and "p = p0\<lparr>cp_config := asm2_capture_initialize env_request env_output (cp_config p0)\<rparr>"
  shows "\<exists>rep p'. asm2_x86_capture_backbuffer_if_requested env_request env_output pid width height p0 = Some (rep, p')
     \<and> call_result p pid (picture_of (cp_gl p0) width height) (reported_size width height) rep p'"
proof -
  have ok: "config_ok (cp_config p)" using initialize_ok [OF assms(1)] by (simp add: assms(2))
  have gl: "cp_gl p0 = cp_gl p" using assms(2) by simp
  obtain r w where run: "sys_open (cap_request (cp_config p)) (cp_world p) = (r, w)" by fastforce
  then have w: "w_files w = w_files (cp_world p)"
    using sys_plain_files [of "cp_world p"] by (auto simp: sys_open_def split: prod.splits io_outcome.splits)
  note step = asm2_x86_capture_backbuffer_if_requested_def
    [of env_request env_output pid width height p0, folded assms(2), unfolded Let_def]
  show ?thesis
  proof (cases "cap_enabled (cp_config p)")
    case False
    then show ?thesis using call_result_quiet [OF refl, of Cap_idle p] by (simp add: step gl)
  next
    case True
    then have "cap_request (cp_config (p\<lparr>cp_world := w\<rparr>)) \<noteq> cap_output (cp_config (p\<lparr>cp_world := w\<rparr>))"
      using ok by (simp add: config_ok_def)
    from requested_returns [OF this, of pid width height] show ?thesis
      using True call_result_quiet [OF w] call_result_opened [OF w]
      by (cases r) (simp_all add: step run gl)
  qed
qed


section \<open>The picture\<close>

lemma length_drop_alpha [simp]: "List.length (drop_alpha xs) = 3 * (List.length xs div 4)"
  by (induction xs rule: drop_alpha.induct) simp_all

lemma row_room:
  assumes "y < h"
  shows "(h - y - 1) * w * 4 + w * 4 \<le> w * h * (4 :: nat)"
proof -
  have "(h - y - 1 + 1) * w \<le> h * w" using assms by (intro mult_le_mono1) simp
  then show ?thesis by (simp add: algebra_simps)
qed

lemma length_ppm_row:
  assumes "List.length rgba = w * h * 4" and "y < h"
  shows "List.length (ppm_row rgba w h y) = w * 3"
  using row_room [OF assms(2), of w] assms(1) by (simp add: ppm_row_def Let_def)

lemma length_rows:
  assumes "\<And>y. y < h \<Longrightarrow> List.length (f y) = (n :: nat)"
  shows "List.length (concat (map f [0 ..< h])) = h * n"
  using assms by (induction h) simp_all

lemma length_ppm_file:
  assumes "List.length rgba = nat width * nat height * 4"
  shows "List.length (ppm_file rgba width height) = reported_size width height"
  using length_rows [of "nat height" "ppm_row rgba (nat width) (nat height)"] length_ppm_row [OF assms]
  by (simp add: ppm_file_def reported_size_def)

lemma nth_drop_alpha:
  "x < List.length xs div 4 \<Longrightarrow> k < 3 \<Longrightarrow> drop_alpha xs ! (x * 3 + k) = xs ! (x * 4 + k)"
proof (induction xs arbitrary: x rule: drop_alpha.induct)
  case (1 r g b a rest)
  show ?case
  proof (cases x)
    case 0
    with 1(3) show ?thesis by (auto simp: less_Suc_eq numeral_3_eq_3)
  next
    case (Suc x')
    with 1 have "drop_alpha rest ! (x' * 3 + k) = rest ! (x' * 4 + k)" by simp
    with Suc show ?thesis by (simp add: numeral_eq_Suc)
  qed
qed simp_all

lemma nth_rows:
  assumes "\<And>y. y < h \<Longrightarrow> List.length (f y) = (n :: nat)" and "y < h" and "i < n"
  shows "concat (map f [0 ..< h]) ! (y * n + i) = f y ! i"
  using assms
proof (induction h)
  case (Suc h)
  have len: "List.length (concat (map f [0 ..< h])) = h * n" using Suc.prems(1) by (intro length_rows) simp
  show ?case
  proof (cases "y < h")
    case True
    have "(y + 1) * n \<le> h * n" using True by (intro mult_le_mono1) simp
    then have "y * n + i < h * n" using Suc.prems(3) by (simp add: algebra_simps)
    with Suc True len show ?thesis by (simp add: nth_append)
  next
    case False
    with Suc.prems(2) have "y = h" by simp
    with len show ?thesis by (simp add: nth_append)
  qed
qed simp

text \<open>Row \<open>y\<close> of the picture, counted from the top, is row \<open>height - 1 - y\<close> of what GL returned, without alpha.\<close>

lemma ppm_pixel:
  assumes "List.length rgba = nat width * nat height * 4" and "y < nat height" and "x < nat width" and "k < 3"
  shows "ppm_file rgba width height ! (List.length (ppm_header width height) + (y * nat width + x) * 3 + k)
       = rgba ! (((nat height - 1 - y) * nat width + x) * 4 + k)"
proof -
  let ?w = "nat width" and ?h = "nat height"
  let ?from = "(?h - y - 1) * ?w * 4"
  have room: "?from + ?w * 4 \<le> List.length rgba"
    using row_room [OF assms(2), of ?w] assms(1) by (simp only:)
  have i: "x * 3 + k < ?w * 3" using assms(3,4) by simp
  have "ppm_file rgba width height ! (List.length (ppm_header width height) + (y * ?w + x) * 3 + k)
      = concat (map (ppm_row rgba ?w ?h) [0 ..< ?h]) ! (y * (?w * 3) + (x * 3 + k))"
    by (simp add: ppm_file_def nth_append algebra_simps)
  also have "\<dots> = ppm_row rgba ?w ?h y ! (x * 3 + k)"
    by (rule nth_rows [OF length_ppm_row [OF assms(1)] assms(2) i])
  also have "\<dots> = take (?w * 4) (drop ?from rgba) ! (x * 4 + k)"
    unfolding ppm_row_def Let_def
  proof (rule nth_drop_alpha [OF _ assms(4)])
    have "List.length (take (?w * 4) (drop ?from rgba)) = ?w * 4" using room by simp
    then show "x < List.length (take (?w * 4) (drop ?from rgba)) div 4" using assms(3) by (simp only:)
  qed
  also have "\<dots> = rgba ! (?from + (x * 4 + k))"
    using room assms(3,4) by simp
  also have "?from + (x * 4 + k) = ((?h - 1 - y) * ?w + x) * 4 + k"
    by (simp add: algebra_simps)
  finally show ?thesis .
qed


section \<open>What a call guarantees\<close>

text \<open>C31. Whole pictures only: wherever a capture call stops, killed half-way included, the output file is the
  one that was there or the complete picture of the default framebuffer, no file but the output, its temporary
  file and the request has changed, and the framebuffer binding and the pack alignment are what they were;
  every call returns.\<close>

theorem capture_all_or_nothing:
  assumes "config_ok (cp_config p)"
  shows "\<exists>rep p'. asm2_x86_capture_backbuffer_if_requested env_request env_output pid width height p = Some (rep, p')
     \<and> cp_gl p' = cp_gl p
     \<and> same_outside {cap_output (cp_config p'), part_name (cap_output (cp_config p')) pid, cap_request (cp_config p')}
          (cp_world p) (cp_world p')
     \<and> w_files (cp_world p') (cap_output (cp_config p'))
         \<in> {w_files (cp_world p) (cap_output (cp_config p')),
            Some (Regular (ppm_file (gl_pixels (cp_gl p) 0 1 width height) width height))}"
proof -
  let ?q = "p\<lparr>cp_config := asm2_capture_initialize env_request env_output (cp_config p)\<rparr>"
  obtain rep p' where run: "asm2_x86_capture_backbuffer_if_requested env_request env_output pid width height p = Some (rep, p')"
    and res: "call_result ?q pid (picture_of (cp_gl p) width height) (reported_size width height) rep p'"
    using call_returns [OF assms refl] by blast
  have "cap_output (cp_config p') = cap_output (cp_config ?q)" "cap_request (cp_config p') = cap_request (cp_config ?q)"
    using res by (auto simp: call_result_def split: if_splits)
  with run res show ?thesis
    by (intro exI [of _ rep] exI [of _ p'])
       (simp add: call_result_def call_files_def picture_of_def split: if_splits)
qed

text \<open>A process at its start, with one pixel on the screen and a request file \<open>r\<close> for the output \<open>o\<close>.\<close>

definition demo_process :: capture_process where
  "demo_process =
     \<lparr>cp_config = asm2_capture_zero,
      cp_gl = \<lparr>gl_framebuffer = 3, gl_pack_alignment = 4, gl_resolves = (\<lambda>_. True),
               gl_pixels = (\<lambda>_ _ _ _. [10, 20, 30, 255])\<rparr>,
      cp_world = \<lparr>w_files = [[0x72] \<mapsto> Regular []], w_answers = [Ans_ok 0, Ans_ok 0, Ans_ok 0, Ans_ok 0, Ans_ok 0, Ans_ok 0,
        Ans_ok 0, Ans_ok 0, Ans_ok 0, Ans_ok 0, Ans_ok 0, Ans_ok 0]\<rparr>\<rparr>"

theorem capture_all_or_nothing_witness:
  "\<exists>rep p'. asm2_x86_capture_backbuffer_if_requested (Some [0x72]) (Some [0x6F]) 7 1 1 demo_process = Some (rep, p')
     \<and> cp_gl p' = cp_gl demo_process
     \<and> same_outside {cap_output (cp_config p'), part_name (cap_output (cp_config p')) 7, cap_request (cp_config p')}
          (cp_world demo_process) (cp_world p')
     \<and> w_files (cp_world p') (cap_output (cp_config p'))
         \<in> {w_files (cp_world demo_process) (cap_output (cp_config p')),
            Some (Regular (ppm_file (gl_pixels (cp_gl demo_process) 0 1 1 1) 1 1))}"
  by (rule capture_all_or_nothing) (simp add: demo_process_def config_zero_ok)

text \<open>C32. A reported success is true: the output file holds a picture, the digest in the report is the SHA-256
  of exactly these bytes in hexadecimal, the reported size is their number, the request is gone when the
  report says so, and pixel (x, y) counted from the top is the one GL has in row height - 1 - y.\<close>

theorem capture_report_true:
  assumes "config_ok (cp_config p)"
    and "List.length (gl_pixels (cp_gl p) 0 1 width height) = nat width * nat height * 4"
    and "asm2_x86_capture_backbuffer_if_requested env_request env_output pid width height p
           = Some (Cap_ok digest n consumed, p')"
  shows "\<exists>content. w_files (cp_world p') (cap_output (cp_config p')) = Some (Regular content)
     \<and> digest = hex_bytes (sha256_of content) \<and> n = List.length content
     \<and> (consumed \<longrightarrow> w_files (cp_world p') (cap_request (cp_config p')) = None)
     \<and> (\<forall>y < nat height. \<forall>x < nat width. \<forall>k < 3.
          content ! (List.length (ppm_header width height) + (y * nat width + x) * 3 + k)
          = gl_pixels (cp_gl p) 0 1 width height ! (((nat height - 1 - y) * nat width + x) * 4 + k))"
proof -
  let ?q = "p\<lparr>cp_config := asm2_capture_initialize env_request env_output (cp_config p)\<rparr>"
  let ?D = "picture_of (cp_gl p) width height"
  have res: "call_result ?q pid ?D (reported_size width height) (Cap_ok digest n consumed) p'"
    using call_returns [OF assms(1) refl, of env_request env_output pid width height] assms(3) by simp
  then have "w_files (cp_world p') (cap_output (cp_config p')) = Some (Regular ?D)"
    "digest = hex_bytes (sha256_of ?D)" "n = reported_size width height"
    "consumed \<longrightarrow> w_files (cp_world p') (cap_request (cp_config p')) = None"
    by (auto simp: call_result_def call_succeeded_def)
  moreover have "List.length ?D = reported_size width height"
    unfolding picture_of_def by (rule length_ppm_file [OF assms(2)])
  ultimately show ?thesis
    using ppm_pixel [OF assms(2)] unfolding picture_of_def
    by (intro exI [of _ "ppm_file (gl_pixels (cp_gl p) 0 1 width height) width height"]) simp
qed

lemma demo_header: "ppm_header 1 1 = [0x50, 0x36, 10, 0x31, 32, 0x31, 10, 0x32, 0x35, 0x35, 10]"
  by code_simp

lemma demo_run:
  "\<exists>digest n p'. asm2_x86_capture_backbuffer_if_requested (Some [0x72]) (Some [0x6F]) 7 1 1 demo_process
     = Some (Cap_ok digest n True, p')"
proof -
  have "sha_counts [] asm2_sha256_init" using init_holds by (simp add: sha_counts_def asm2_sha256_init_def)
  then obtain sha1 where one: "asm2_sha256_update asm2_sha256_init (ppm_header 1 1) = Some sha1"
    "sha_counts ([] @ ppm_header 1 1) sha1" using update_counts by blast
  from update_counts [OF one(2), of "[10, 20, 30]"] obtain sha2
    where two: "asm2_sha256_update sha1 [10, 20, 30] = Some sha2" by blast
  have name: "part_name [0x6F] 7 = [0x6F, 0x2E, 0x70, 0x61, 0x72, 0x74, 0x2E, 0x37]" by code_simp
  have config: "asm2_capture_initialize (Some [0x72]) (Some [0x6F]) asm2_capture_zero =
      \<lparr>cap_initialized = True, cap_enabled = True, cap_completed = 0, cap_request = [0x72], cap_output = [0x6F]\<rparr>"
    by (simp add: asm2_capture_initialize_def asm2_capture_zero_def Let_def)
  have fit: "dimensions_fit 1 1" by (simp add: dimensions_fit_def)
  have row: "map (ppm_row [10, 20, 30, 255] (nat 1) (nat 1)) [0 ..< nat 1] = [[10, 20, 30]]" by (simp add: ppm_row_def)
  show ?thesis
    using one(1) two
    by (simp add: asm2_x86_capture_backbuffer_if_requested_def demo_process_def config Let_def
      sys_open_def sys_plain_def capture_requested_def fit capture_frame_def
      read_backbuffer_def asm2_capture_write_ppm_def name demo_header row write_opened_def write_picture_def
      stream_then_def stream_write_def stream_plain_def stream_flush_def close_picture_def
      commit_picture_def rename_file_def and_then_def put_file_def append_file_def finish_request_def sys_unlink_def
      del: upt_Suc upt_0 nat_1)
qed

theorem capture_report_true_witness:
  "\<exists>digest n p' content.
     asm2_x86_capture_backbuffer_if_requested (Some [0x72]) (Some [0x6F]) 7 1 1 demo_process
       = Some (Cap_ok digest n True, p')
     \<and> w_files (cp_world p') (cap_output (cp_config p')) = Some (Regular content)
     \<and> digest = hex_bytes (sha256_of content) \<and> n = List.length content
     \<and> w_files (cp_world p') (cap_request (cp_config p')) = None"
proof -
  obtain digest n p' where run: "asm2_x86_capture_backbuffer_if_requested (Some [0x72]) (Some [0x6F]) 7 1 1 demo_process
     = Some (Cap_ok digest n True, p')" using demo_run by blast
  have "config_ok (cp_config demo_process)" by (simp add: demo_process_def config_zero_ok)
  moreover have "List.length (gl_pixels (cp_gl demo_process) 0 1 1 1) = nat 1 * nat 1 * 4"
    by (simp add: demo_process_def)
  ultimately show ?thesis using capture_report_true [OF _ _ run] run by blast
qed

section \<open>The limit\<close>

text \<open>The frames of a process: at each one the game has its own files and window size, the configuration stays.\<close>

fun capture_frames ::
  "bytes option \<Rightarrow> bytes option \<Rightarrow> nat \<Rightarrow> (int \<times> int \<times> world) list \<Rightarrow> capture_process
     \<Rightarrow> (capture_report list \<times> capture_process) option" where
  "capture_frames rq out pid [] p = Some ([], p)"
| "capture_frames rq out pid ((width, height, w) # frames) p =
     (case asm2_x86_capture_backbuffer_if_requested rq out pid width height (p\<lparr>cp_world := w\<rparr>) of
        None \<Rightarrow> None
      | Some (rep, p') \<Rightarrow> map_option (\<lambda>(reps, p''). (rep # reps, p'')) (capture_frames rq out pid frames p'))"

definition is_success :: "capture_report \<Rightarrow> bool" where
  "is_success rep \<longleftrightarrow> (\<exists>d n b. rep = Cap_ok d n b)"

lemma call_counts:
  assumes "config_ok (cp_config p)" and "cap_completed (cp_config p) \<le> max_captures"
  shows "\<exists>rep p'. asm2_x86_capture_backbuffer_if_requested rq out pid width height p = Some (rep, p')
     \<and> config_ok (cp_config p') \<and> cap_completed (cp_config p') \<le> max_captures
     \<and> unat (cap_completed (cp_config p')) = unat (cap_completed (cp_config p)) + of_bool (is_success rep)"
proof -
  let ?q = "p\<lparr>cp_config := asm2_capture_initialize rq out (cp_config p)\<rparr>"
  obtain rep p' where run: "asm2_x86_capture_backbuffer_if_requested rq out pid width height p = Some (rep, p')"
    and res: "call_result ?q pid (picture_of (cp_gl p) width height) (reported_size width height) rep p'"
    using call_returns [OF assms(1) refl] by blast
  have ok: "config_ok (cp_config ?q)" using initialize_ok [OF assms(1)] by simp
  show ?thesis
  proof (cases "is_success rep")
    case True
    then have config: "cp_config p' = (cp_config ?q)\<lparr>cap_completed := cap_completed (cp_config p) + 1\<rparr>"
      and less: "cap_completed (cp_config p) < max_captures"
      using res by (auto simp: call_result_def is_success_def)
    have "config_ok (cp_config p')" using ok unfolding config config_ok_def by simp
    moreover have "unat (cap_completed (cp_config p) + 1) = unat (cap_completed (cp_config p)) + 1"
      using less by (simp add: word_less_nat_alt unat_word_ariths)
    moreover have "cap_completed (cp_config p) + 1 \<le> max_captures"
      using calculation(2) less by (simp add: word_less_nat_alt word_le_nat_alt)
    ultimately show ?thesis using run True by (simp add: config)
  next
    case False
    then obtain b where config: "cp_config p' = (cp_config ?q)\<lparr>cap_enabled := b\<rparr>"
      and b: "b \<longrightarrow> cap_enabled (cp_config ?q)"
      using res unfolding call_result_def is_success_def by auto
    have "config_ok (cp_config p')" using ok b unfolding config config_ok_def by simp
    then show ?thesis using run False assms(2) by (simp add: config)
  qed
qed

lemma frames_count:
  assumes "config_ok (cp_config p)" and "cap_completed (cp_config p) \<le> max_captures"
  shows "\<exists>reps p'. capture_frames rq out pid frames p = Some (reps, p')
     \<and> config_ok (cp_config p') \<and> cap_completed (cp_config p') \<le> max_captures
     \<and> unat (cap_completed (cp_config p')) = unat (cap_completed (cp_config p)) + List.length (filter is_success reps)"
  using assms
proof (induction frames arbitrary: p)
  case (Cons f frames)
  obtain width height w where f: "f = (width, height, w)" by (cases f)
  obtain rep q where call: "asm2_x86_capture_backbuffer_if_requested rq out pid width height (p\<lparr>cp_world := w\<rparr>) = Some (rep, q)"
    and q: "config_ok (cp_config q)" "cap_completed (cp_config q) \<le> max_captures"
    and n: "unat (cap_completed (cp_config q)) = unat (cap_completed (cp_config p)) + of_bool (is_success rep)"
    using call_counts [of "p\<lparr>cp_world := w\<rparr>" rq out pid width height] Cons.prems by auto
  obtain reps p' where "capture_frames rq out pid frames q = Some (reps, p')"
    "config_ok (cp_config p')" "cap_completed (cp_config p') \<le> max_captures"
    "unat (cap_completed (cp_config p')) = unat (cap_completed (cp_config q)) + List.length (filter is_success reps)"
    using Cons.IH [OF q] by blast
  with n show ?case by (cases "is_success rep") (simp_all add: f call)
qed simp

text \<open>At most 32 pictures: over any frames of a process, whatever the files and the window are at each of
  them, the counter counts the reported successes, and there are never more than 32 of them.\<close>

theorem capture_limit:
  assumes "cp_config p = asm2_capture_zero"
  shows "\<exists>reps p'. capture_frames rq out pid frames p = Some (reps, p')
     \<and> unat (cap_completed (cp_config p')) = List.length (filter is_success reps)
     \<and> List.length (filter is_success reps) \<le> 32"
proof -
  have "config_ok (cp_config p)" "cap_completed (cp_config p) \<le> max_captures"
    using assms config_zero_ok by (simp_all add: asm2_capture_zero_def)
  from frames_count [OF this, of rq out pid frames] assms show ?thesis
    by (auto simp: asm2_capture_zero_def word_le_nat_alt)
qed

theorem capture_limit_witness:
  "\<exists>reps p'. capture_frames (Some [0x72]) (Some [0x6F]) 7
        [(1, 1, cp_world demo_process), (0, 1, cp_world demo_process)] demo_process = Some (reps, p')
     \<and> unat (cap_completed (cp_config p')) = List.length (filter is_success reps)
     \<and> List.length (filter is_success reps) \<le> 32"
  by (rule capture_limit) (simp add: demo_process_def)

end
