(* ===== verification/Asm2_Streams.thy ===== *)
theory Asm2_Streams
  imports Asm2_Prelude
begin

text \<open>
  The stdio bridge of \<open>src/asm2_127/src/bionic_compat.c\<close>: wrappers around host \<open>FILE\<close>s, chained in hash
  buckets, with a count of the calls in progress that a close waits for.

  Wrappers are cells of a heap, a chain is followed by its \<open>hash_next\<close> pointers, and the pointer to the
  pointer that \<open>asm2_take_file_for_close\<close> keeps is a location: the head of a bucket or the field of a
  cell.  A result \<open>None\<close> is a fault: a pointer that is followed and is not one, a host stream that is used
  and is not open, a chain that does not end.
\<close>

section \<open>The guest's FILE\<close>

abbreviation file_srd :: u16 where "file_srd \<equiv> 0x0004"
abbreviation file_swr :: u16 where "file_swr \<equiv> 0x0008"
abbreviation file_srw :: u16 where "file_srw \<equiv> 0x0010"
abbreviation file_seof :: u16 where "file_seof \<equiv> 0x0020"
abbreviation file_serr :: u16 where "file_serr \<equiv> 0x0040"
abbreviation file_sapp :: u16 where "file_sapp \<equiv> 0x0100"

definition asm2_file_image_set_flags :: "bytes \<Rightarrow> u16 \<Rightarrow> bytes" where
  "asm2_file_image_set_flags img flags =
     take 12 img @ [ucast flags, ucast (drop_bit 8 flags)] @ drop 14 img"

definition image_flags :: "bytes \<Rightarrow> u16" where
  "image_flags img = ucast (img ! 12) OR push_bit 8 (ucast (img ! 13))"

definition asm2_file_image_set_descriptor :: "bytes \<Rightarrow> int \<Rightarrow> bytes" where
  "asm2_file_image_set_descriptor img fd =
     (let descriptor = word_of_int (if - 32768 \<le> fd \<and> fd \<le> 32767 then fd else - 1) :: u16
      in take 14 img @ [ucast descriptor, ucast (drop_bit 8 descriptor)] @ drop 16 img)"

definition asm2_file_mode_flags :: "bytes option \<Rightarrow> u16" where
  "asm2_file_mode_flags mode =
     (case mode of
        None \<Rightarrow> 0
      | Some m \<Rightarrow>
          let flags = if 0x2B \<in> set m then file_srw else if m \<noteq> [] \<and> hd m = 0x72 then file_srd else file_swr
          in if 0x61 \<in> set m then flags OR file_sapp else flags)"

section \<open>State\<close>

datatype file_state = File_open | File_closing | File_closed

text \<open>The host's streams: the standard ones, and those that \<open>fopen\<close> and \<open>fdopen\<close> return.\<close>

datatype host_ref = Std_in | Std_out | Std_err | Host_file u32

record host_file =
  hf_eof :: bool
  hf_error :: bool
  hf_data :: bytes

record file_wrapper =
  fw_guest :: bytes
  fw_host :: "host_ref option"
  fw_base_flags :: u16
  fw_active :: u32
  fw_state :: file_state
  fw_hash_next :: "u32 option"
  fw_retired_next :: "u32 option"

record files =
  fs_cells :: "u32 \<Rightarrow> file_wrapper option"
  fs_heads :: "u32 \<Rightarrow> u32 option"
  fs_retired :: "u32 option"
  fs_created :: u64
  fs_open :: u64
  fs_closed :: u64
  fs_sF :: u32
  fs_images :: "host_ref \<Rightarrow> bytes"
  fs_hosts :: "host_ref \<Rightarrow> host_file option"

text \<open>A location that holds a chain pointer: \<open>&asm2_active_files[b]\<close> or \<open>&a->hash_next\<close>.\<close>

datatype link = Bucket u32 | Next_of u32

text \<open>\<open>struct asm2_stream_reference\<close>.\<close>

record stream_reference =
  sr_host :: host_ref
  sr_wrapper :: "u32 option"

definition asm2_file_bucket :: "u32 \<Rightarrow> u32" where
  "asm2_file_bucket stream =
     (let v1 = stream XOR drop_bit 16 stream; v2 = v1 XOR drop_bit 8 v1 in v2 AND 1023)"

definition modify_cell :: "u32 \<Rightarrow> (file_wrapper \<Rightarrow> file_wrapper) \<Rightarrow> files \<Rightarrow> files" where
  "modify_cell a g f = f\<lparr>fs_cells := (fs_cells f)(a := map_option g (fs_cells f a))\<rparr>"

definition write_link :: "link \<Rightarrow> u32 option \<Rightarrow> files \<Rightarrow> files" where
  "write_link l p f =
     (case l of
        Bucket b \<Rightarrow> f\<lparr>fs_heads := (fs_heads f)(b := p)\<rparr>
      | Next_of a \<Rightarrow> modify_cell a (\<lambda>c. c\<lparr>fw_hash_next := p\<rparr>) f)"

section \<open>Chains\<close>

partial_function (option) follow_chain ::
  "(u32 \<Rightarrow> file_wrapper option) \<Rightarrow> u32 option \<Rightarrow> u32 \<Rightarrow> u32 option option" where
  "follow_chain cells p stream =
     (case p of
        None \<Rightarrow> Some None
      | Some a \<Rightarrow>
          if a = stream then Some (Some a)
          else case cells a of None \<Rightarrow> None | Some c \<Rightarrow> follow_chain cells (fw_hash_next c) stream)"

definition asm2_find_active_file_locked :: "u32 \<Rightarrow> files \<Rightarrow> u32 option option" where
  "asm2_find_active_file_locked stream f = follow_chain (fs_cells f) (fs_heads f (asm2_file_bucket stream)) stream"

partial_function (option) follow_links ::
  "(u32 \<Rightarrow> file_wrapper option) \<Rightarrow> link \<Rightarrow> u32 option \<Rightarrow> u32 \<Rightarrow> (link \<times> u32 option) option" where
  "follow_links cells l p stream =
     (case p of
        None \<Rightarrow> Some (l, None)
      | Some a \<Rightarrow>
          if a = stream then Some (l, Some a)
          else case cells a of
            None \<Rightarrow> None
          | Some c \<Rightarrow> follow_links cells (Next_of a) (fw_hash_next c) stream)"

section \<open>Opening\<close>

definition new_wrapper :: "host_ref \<Rightarrow> int \<Rightarrow> bytes option \<Rightarrow> u32 option \<Rightarrow> file_wrapper" where
  "new_wrapper host fd mode next_wrapper =
     \<lparr>fw_guest = asm2_file_image_set_descriptor
         (asm2_file_image_set_flags (replicate 84 0) (asm2_file_mode_flags mode)) fd,
      fw_host = Some host, fw_base_flags = asm2_file_mode_flags mode, fw_active = 0, fw_state = File_open,
      fw_hash_next = next_wrapper, fw_retired_next = None\<rparr>"

text \<open>\<open>host\<close> is what \<open>fopen\<close> returned and \<open>fd\<close> its descriptor, \<open>alloc\<close> the answer of \<open>calloc\<close>.  The result is
  the guest's stream.\<close>

definition asm2_wrap_file :: "host_ref option \<Rightarrow> int \<Rightarrow> bytes option \<Rightarrow> u32 option \<Rightarrow> files \<Rightarrow> u32 option \<times> files" where
  "asm2_wrap_file host fd mode alloc f =
     (case host of
        None \<Rightarrow> (None, f)
      | Some h \<Rightarrow>
          (case alloc of
             None \<Rightarrow> (None, f\<lparr>fs_hosts := (fs_hosts f)(h := None)\<rparr>)
           | Some a \<Rightarrow>
               let bucket = asm2_file_bucket a
               in (Some a,
                   f\<lparr>fs_cells := (fs_cells f)(a \<mapsto> new_wrapper h fd mode (fs_heads f bucket)),
                     fs_heads := (fs_heads f)(bucket \<mapsto> a),
                     fs_created := fs_created f + 1, fs_open := fs_open f + 1\<rparr>)))"

section \<open>Using\<close>

definition asm2_standard_stream :: "u32 \<Rightarrow> files \<Rightarrow> host_ref option" where
  "asm2_standard_stream stream f =
     (if stream = fs_sF f then Some Std_in
      else if stream = fs_sF f + 84 then Some Std_out
      else if stream = fs_sF f + 168 then Some Std_err else None)"

text \<open>Where a stream's image is: one of the three standard ones, or in a wrapper.\<close>

definition asm2_stream_image :: "u32 \<Rightarrow> files \<Rightarrow> (host_ref + u32) option option" where
  "asm2_stream_image stream f =
     (case asm2_standard_stream stream f of
        Some h \<Rightarrow> Some (Some (Inl h))
      | None \<Rightarrow> map_option (map_option Inr) (asm2_find_active_file_locked stream f))"

fun read_image :: "host_ref + u32 \<Rightarrow> files \<Rightarrow> bytes option" where
  "read_image (Inl h) f = Some (fs_images f h)"
| "read_image (Inr a) f = map_option fw_guest (fs_cells f a)"

fun write_image :: "host_ref + u32 \<Rightarrow> bytes \<Rightarrow> files \<Rightarrow> files" where
  "write_image (Inl h) img f = f\<lparr>fs_images := (fs_images f)(h := img)\<rparr>"
| "write_image (Inr a) img f = modify_cell a (\<lambda>c. c\<lparr>fw_guest := img\<rparr>) f"

text \<open>A host call on a stream that must be open.\<close>

definition use_host :: "host_ref \<Rightarrow> (host_file \<Rightarrow> 'r \<times> host_file) \<Rightarrow> files \<Rightarrow> ('r \<times> files) option" where
  "use_host h g f =
     (case fs_hosts f h of
        None \<Rightarrow> None
      | Some hf \<Rightarrow> let (r, hf') = g hf in Some (r, f\<lparr>fs_hosts := (fs_hosts f)(h \<mapsto> hf')\<rparr>))"

text \<open>\<open>clearerr\<close> when the guest has cleared a flag that the host stream has.\<close>

definition cleared_by_guest :: "bytes \<Rightarrow> host_file \<Rightarrow> host_file" where
  "cleared_by_guest img hf =
     (if (image_flags img AND file_seof = 0 \<and> hf_eof hf) \<or> (image_flags img AND file_serr = 0 \<and> hf_error hf)
      then hf\<lparr>hf_eof := False, hf_error := False\<rparr> else hf)"

definition asm2_apply_guest_cleared_flags :: "u32 \<Rightarrow> host_ref \<Rightarrow> files \<Rightarrow> files option" where
  "asm2_apply_guest_cleared_flags stream h f =
     (case asm2_stream_image stream f of
        None \<Rightarrow> None
      | Some None \<Rightarrow> Some f
      | Some (Some place) \<Rightarrow>
          (case read_image place f of
             None \<Rightarrow> None
           | Some img \<Rightarrow> map_option snd (use_host h (\<lambda>hf. ((), cleared_by_guest img hf)) f)))"

definition synced_flags :: "bytes \<Rightarrow> host_file \<Rightarrow> u16" where
  "synced_flags img hf =
     (let flags0 = image_flags img AND NOT (file_seof OR file_serr);
          flags1 = (if hf_eof hf then flags0 OR file_seof else flags0)
      in if hf_error hf then flags1 OR file_serr else flags1)"

definition asm2_sync_stream_flags :: "u32 \<Rightarrow> host_ref \<Rightarrow> files \<Rightarrow> files option" where
  "asm2_sync_stream_flags stream h f =
     (case asm2_stream_image stream f of
        None \<Rightarrow> None
      | Some None \<Rightarrow> Some f
      | Some (Some place) \<Rightarrow>
          (case (read_image place f, fs_hosts f h) of
             (Some img, Some hf) \<Rightarrow>
               Some (write_image place (asm2_file_image_set_flags img (synced_flags img hf)) f)
           | _ \<Rightarrow> None))"

text \<open>The locked part of \<open>asm2_acquire_stream\<close>; what follows it is \<open>asm2_apply_guest_cleared_flags\<close>.\<close>

definition acquire_locked :: "u32 \<Rightarrow> files \<Rightarrow> (stream_reference option \<times> files) option" where
  "acquire_locked stream f =
     (case asm2_standard_stream stream f of
        Some h \<Rightarrow> Some (Some \<lparr>sr_host = h, sr_wrapper = None\<rparr>, f)
      | None \<Rightarrow>
          (case asm2_find_active_file_locked stream f of
             None \<Rightarrow> None
           | Some None \<Rightarrow> Some (None, f)
           | Some (Some a) \<Rightarrow>
               (case fs_cells f a of
                  None \<Rightarrow> None
                | Some c \<Rightarrow>
                    (case fw_host c of
                       Some h \<Rightarrow>
                         if fw_state c = File_open
                         then Some (Some \<lparr>sr_host = h, sr_wrapper = Some a\<rparr>,
                                modify_cell a (\<lambda>c. c\<lparr>fw_active := fw_active c + 1\<rparr>) f)
                         else Some (None, f)
                     | None \<Rightarrow> Some (None, f)))))"

definition asm2_acquire_stream :: "u32 \<Rightarrow> files \<Rightarrow> (stream_reference option \<times> files) option" where
  "asm2_acquire_stream stream f =
     (case acquire_locked stream f of
        None \<Rightarrow> None
      | Some (None, f') \<Rightarrow> Some (None, f')
      | Some (Some ref, f') \<Rightarrow>
          map_option (\<lambda>f''. (Some ref, f'')) (asm2_apply_guest_cleared_flags stream (sr_host ref) f'))"

text \<open>The flag of the result: the waiting closes are woken.\<close>

definition asm2_release_stream :: "stream_reference \<Rightarrow> files \<Rightarrow> (bool \<times> files) option" where
  "asm2_release_stream ref f =
     (case sr_wrapper ref of
        None \<Rightarrow> Some (False, f)
      | Some a \<Rightarrow>
          (case fs_cells f a of
             None \<Rightarrow> None
           | Some c \<Rightarrow>
               let c' = (if fw_active c > 0 then c\<lparr>fw_active := fw_active c - 1\<rparr> else c)
               in Some (fw_state c' = File_closing \<and> fw_active c' = 0,
                        f\<lparr>fs_cells := (fs_cells f)(a \<mapsto> c')\<rparr>)))"

section \<open>Closing\<close>

text \<open>The part of \<open>asm2_take_file_for_close\<close> after the wait.\<close>

definition detach_file :: "u32 \<Rightarrow> link \<Rightarrow> files \<Rightarrow> (host_ref option \<times> files) option" where
  "detach_file a l f =
     (case fs_cells f a of
        None \<Rightarrow> None
      | Some c \<Rightarrow>
          let f1 = modify_cell a (\<lambda>c. c\<lparr>fw_host := None, fw_state := File_closed\<rparr>) f;
              f2 = write_link l (fw_hash_next c) f1;
              f3 = modify_cell a (\<lambda>c. c\<lparr>fw_hash_next := None, fw_retired_next := fs_retired f2\<rparr>) f2
          in Some (fw_host c,
               f3\<lparr>fs_retired := Some a,
                  fs_open := (if fs_open f3 \<noteq> 0 then fs_open f3 - 1 else fs_open f3),
                  fs_closed := fs_closed f3 + 1\<rparr>))"

datatype close_outcome = Close_refused | Close_waits u32 link | Close_done "host_ref option"

text \<open>The part up to the wait: refused with EBADF, waiting, or done at once.\<close>

definition take_file_for_close :: "u32 \<Rightarrow> files \<Rightarrow> (close_outcome \<times> files) option" where
  "take_file_for_close stream f =
     (let bucket = asm2_file_bucket stream
      in case follow_links (fs_cells f) (Bucket bucket) (fs_heads f bucket) stream of
           None \<Rightarrow> None
         | Some (l, None) \<Rightarrow> Some (Close_refused, f)
         | Some (l, Some a) \<Rightarrow>
             (case fs_cells f a of
                None \<Rightarrow> None
              | Some c \<Rightarrow>
                  if fw_state c \<noteq> File_open then Some (Close_refused, f)
                  else let f1 = modify_cell a (\<lambda>c. c\<lparr>fw_state := File_closing\<rparr>) f
                       in if fw_active c \<noteq> 0 then Some (Close_waits a l, f1)
                          else map_option (\<lambda>(h, f2). (Close_done h, f2)) (detach_file a l f1)))"

text \<open>The host's \<open>fclose\<close>: the stream must be open, and is not afterwards.\<close>

definition host_fclose :: "host_ref \<Rightarrow> files \<Rightarrow> files option" where
  "host_fclose h f =
     (case fs_hosts f h of None \<Rightarrow> None | Some _ \<Rightarrow> Some (f\<lparr>fs_hosts := (fs_hosts f)(h := None)\<rparr>))"

section \<open>Threads\<close>

text \<open>Where a thread is in a call: between the locked sections and the host calls.\<close>

datatype pc =
    Idle
  | Acquired u32 stream_reference
  | Applied u32 stream_reference
  | Called u32 stream_reference
  | Releasing stream_reference
  | Waiting u32 link bool
  | Detached host_ref

record stream_system =
  ss_files :: files
  ss_threads :: "pc list"

text \<open>The \<open>Open_file\<close> event is \<open>fopen\<close> or \<open>fdopen\<close> from the host's answer on; \<open>Call\<close> is the host call of one
  of the wrappers, with what it does to the stream and whether the wrapper copies the flags afterwards.\<close>

datatype file_event =
    Open_file "host_ref option" host_file int "bytes option" "u32 option"
  | Acquire nat u32
  | Apply nat
  | Call nat "host_file \<Rightarrow> host_file" bool
  | Sync nat
  | Release nat
  | Close nat u32
  | Wake nat
  | Fclose nat
  | Guest_writes u32 bytes

definition set_pc :: "nat \<Rightarrow> pc \<Rightarrow> files \<Rightarrow> stream_system \<Rightarrow> stream_system" where
  "set_pc t p f s = s\<lparr>ss_files := f, ss_threads := (ss_threads s)[t := p]\<rparr>"

fun wake_pc :: "pc \<Rightarrow> pc" where
  "wake_pc (Waiting a l w) = Waiting a l True"
| "wake_pc p = p"

definition broadcast :: "bool \<Rightarrow> stream_system \<Rightarrow> stream_system" where
  "broadcast b s = (if b then s\<lparr>ss_threads := map wake_pc (ss_threads s)\<rparr> else s)"

definition thread_is :: "stream_system \<Rightarrow> nat \<Rightarrow> (pc \<Rightarrow> bool) \<Rightarrow> bool" where
  "thread_is s t P \<longleftrightarrow> t < List.length (ss_threads s) \<and> P (ss_threads s ! t)"

text \<open>When an event can happen.  A host stream that \<open>fopen\<close> returns is not one that is open, and memory that
  \<open>calloc\<close> returns is not in use; a wait may end without a broadcast.\<close>

fun enabled :: "file_event \<Rightarrow> stream_system \<Rightarrow> bool" where
  "enabled (Open_file host hf fd mode alloc) s =
     ((case host of None \<Rightarrow> True | Some (Host_file n) \<Rightarrow> fs_hosts (ss_files s) (Host_file n) = None | Some _ \<Rightarrow> False)
      \<and> (case alloc of None \<Rightarrow> True
         | Some a \<Rightarrow> fs_cells (ss_files s) a = None \<and> asm2_standard_stream a (ss_files s) = None))"
| "enabled (Acquire t stream) s = thread_is s t (\<lambda>p. p = Idle)"
| "enabled (Apply t) s = thread_is s t (\<lambda>p. \<exists>x r. p = Acquired x r)"
| "enabled (Call t g b) s = thread_is s t (\<lambda>p. \<exists>x r. p = Applied x r)"
| "enabled (Sync t) s = thread_is s t (\<lambda>p. \<exists>x r. p = Called x r)"
| "enabled (Release t) s = thread_is s t (\<lambda>p. \<exists>r. p = Releasing r)"
| "enabled (Close t stream) s = (thread_is s t (\<lambda>p. p = Idle) \<and> asm2_standard_stream stream (ss_files s) = None)"
| "enabled (Wake t) s = thread_is s t (\<lambda>p. \<exists>a l w. p = Waiting a l w)"
| "enabled (Fclose t) s = thread_is s t (\<lambda>p. \<exists>h. p = Detached h)"
| "enabled (Guest_writes a img) s = (List.length img = 84)"

text \<open>After the wait or without one: the host stream goes to \<open>fclose\<close>; without it the call returns EOF.\<close>

definition after_detach :: "nat \<Rightarrow> host_ref option \<Rightarrow> files \<Rightarrow> stream_system \<Rightarrow> stream_system" where
  "after_detach t host f s = set_pc t (case host of None \<Rightarrow> Idle | Some h \<Rightarrow> Detached h) f s"

fun file_step :: "file_event \<Rightarrow> stream_system \<Rightarrow> stream_system option" where
  "file_step (Open_file host hf fd mode alloc) s =
     (let f = ss_files s; f1 = (case host of None \<Rightarrow> f | Some h \<Rightarrow> f\<lparr>fs_hosts := (fs_hosts f)(h \<mapsto> hf)\<rparr>)
      in Some (s\<lparr>ss_files := snd (asm2_wrap_file host fd mode alloc f1)\<rparr>))"
| "file_step (Acquire t stream) s =
     (case acquire_locked stream (ss_files s) of
        None \<Rightarrow> None
      | Some (None, f) \<Rightarrow> Some (set_pc t Idle f s)
      | Some (Some r, f) \<Rightarrow> Some (set_pc t (Acquired stream r) f s))"
| "file_step (Apply t) s =
     (case ss_threads s ! t of
        Acquired x r \<Rightarrow>
          map_option (\<lambda>f. set_pc t (Applied x r) f s) (asm2_apply_guest_cleared_flags x (sr_host r) (ss_files s))
      | _ \<Rightarrow> None)"
| "file_step (Call t g syncs) s =
     (case ss_threads s ! t of
        Applied x r \<Rightarrow>
          map_option (\<lambda>(u, f). set_pc t (if syncs then Called x r else Releasing r) f s)
            (use_host (sr_host r) (\<lambda>hf. ((), g hf)) (ss_files s))
      | _ \<Rightarrow> None)"
| "file_step (Sync t) s =
     (case ss_threads s ! t of
        Called x r \<Rightarrow>
          map_option (\<lambda>f. set_pc t (Releasing r) f s) (asm2_sync_stream_flags x (sr_host r) (ss_files s))
      | _ \<Rightarrow> None)"
| "file_step (Release t) s =
     (case ss_threads s ! t of
        Releasing r \<Rightarrow>
          map_option (\<lambda>(woken, f). broadcast woken (set_pc t Idle f s)) (asm2_release_stream r (ss_files s))
      | _ \<Rightarrow> None)"
| "file_step (Close t stream) s =
     (case take_file_for_close stream (ss_files s) of
        None \<Rightarrow> None
      | Some (Close_refused, f) \<Rightarrow> Some (set_pc t Idle f s)
      | Some (Close_waits a l, f) \<Rightarrow> Some (set_pc t (Waiting a l False) f s)
      | Some (Close_done host, f) \<Rightarrow> Some (after_detach t host f s))"
| "file_step (Wake t) s =
     (case ss_threads s ! t of
        Waiting a l w \<Rightarrow>
          (case fs_cells (ss_files s) a of
             None \<Rightarrow> None
           | Some c \<Rightarrow>
               if fw_active c \<noteq> 0 then Some (set_pc t (Waiting a l False) (ss_files s) s)
               else map_option (\<lambda>(host, f). after_detach t host f s) (detach_file a l (ss_files s)))
      | _ \<Rightarrow> None)"
| "file_step (Fclose t) s =
     (case ss_threads s ! t of
        Detached h \<Rightarrow> map_option (\<lambda>f. set_pc t Idle f s) (host_fclose h (ss_files s))
      | _ \<Rightarrow> None)"
| "file_step (Guest_writes a img) s =
     Some (s\<lparr>ss_files := modify_cell a (\<lambda>c. c\<lparr>fw_guest := img\<rparr>) (ss_files s)\<rparr>)"

fun file_steps :: "file_event list \<Rightarrow> stream_system \<Rightarrow> stream_system option" where
  "file_steps [] s = Some s"
| "file_steps (e # es) s =
     (if enabled e s then (case file_step e s of None \<Rightarrow> None | Some s' \<Rightarrow> file_steps es s') else None)"

text \<open>Static memory before \<open>main\<close>: no wrapper, the standard streams open, the threads not in a call.\<close>

definition streams_start :: "u32 \<Rightarrow> nat \<Rightarrow> (host_ref \<Rightarrow> bytes) \<Rightarrow> (host_ref \<Rightarrow> host_file) \<Rightarrow> stream_system" where
  "streams_start sF n images std =
     \<lparr>ss_files = \<lparr>fs_cells = (\<lambda>_. None), fs_heads = (\<lambda>_. None), fs_retired = None, fs_created = 0, fs_open = 0,
        fs_closed = 0, fs_sF = sF, fs_images = images,
        fs_hosts = (\<lambda>h. case h of Host_file _ \<Rightarrow> None | _ \<Rightarrow> Some (std h))\<rparr>,
      ss_threads = replicate n Idle\<rparr>"

inductive streams_reach :: "stream_system \<Rightarrow> stream_system \<Rightarrow> bool" for s0 where
  start: "streams_reach s0 s0"
| step: "streams_reach s0 s \<Longrightarrow> enabled e s \<Longrightarrow> file_step e s = Some s' \<Longrightarrow> streams_reach s0 s'"

end
