(* ===== verification/Asm2_StreamSafety.thy ===== *)
theory Asm2_StreamSafety
  imports Asm2_Streams
begin

text \<open>
  What holds at every point of every interleaving of calls on the streams: the count of a wrapper is the
  number of threads that use it, a closing wrapper has the one thread that waits for it, every open host
  stream has one owner, and every chain ends.  From these no step is a fault.
\<close>

section \<open>Views of the state\<close>

definition state_of :: "files \<Rightarrow> u32 \<Rightarrow> file_state option" where
  "state_of f a = map_option fw_state (fs_cells f a)"

definition host_of :: "files \<Rightarrow> u32 \<Rightarrow> host_ref option" where
  "host_of f a = Option.bind (fs_cells f a) fw_host"

definition active_of :: "files \<Rightarrow> u32 \<Rightarrow> nat" where
  "active_of f a = (case fs_cells f a of None \<Rightarrow> 0 | Some c \<Rightarrow> unat (fw_active c))"

definition next_of :: "files \<Rightarrow> u32 \<Rightarrow> u32 option" where
  "next_of f a = Option.bind (fs_cells f a) fw_hash_next"

lemmas views = state_of_def host_of_def active_of_def next_of_def

definition count_pc :: "(pc \<Rightarrow> bool) \<Rightarrow> pc list \<Rightarrow> nat" where
  "count_pc P ths = List.length (filter P ths)"

fun pc_ref :: "pc \<Rightarrow> stream_reference option" where
  "pc_ref (Acquired x r) = Some r"
| "pc_ref (Applied x r) = Some r"
| "pc_ref (Called x r) = Some r"
| "pc_ref (Releasing r) = Some r"
| "pc_ref _ = None"

definition holds :: "u32 \<Rightarrow> pc \<Rightarrow> bool" where
  "holds a p \<longleftrightarrow> (\<exists>r. pc_ref p = Some r \<and> sr_wrapper r = Some a)"

definition waits_on :: "u32 \<Rightarrow> pc \<Rightarrow> bool" where
  "waits_on a p \<longleftrightarrow> (\<exists>l w. p = Waiting a l w)"

definition refs_ok :: "files \<Rightarrow> pc \<Rightarrow> bool" where
  "refs_ok f p \<longleftrightarrow> (\<forall>r. pc_ref p = Some r \<longrightarrow>
     (case sr_wrapper r of None \<Rightarrow> sr_host r \<in> {Std_in, Std_out, Std_err}
      | Some a \<Rightarrow> host_of f a = Some (sr_host r)))"

lemma count_update:
  "i < List.length ths \<Longrightarrow>
     count_pc P (ths[i := p]) + of_bool (P (ths ! i)) = count_pc P ths + of_bool (P p)"
proof (induction ths arbitrary: i)
  case (Cons q ths)
  then show ?case by (cases i) (auto simp: count_pc_def)
qed simp

lemma count_map [simp]: "(\<And>p. P (wake_pc p) = P p) \<Longrightarrow> count_pc P (map wake_pc ths) = count_pc P ths"
  by (simp add: count_pc_def filter_map o_def)

lemma count_zero: "count_pc P ths = 0 \<longleftrightarrow> (\<forall>p \<in> set ths. \<not> P p)"
  by (simp add: count_pc_def filter_empty_conv)

lemma count_less: "i < List.length ths \<Longrightarrow> \<not> P (ths ! i) \<Longrightarrow> count_pc P ths < List.length ths"
  unfolding count_pc_def by (rule length_filter_less) simp_all

lemma count_le: "count_pc P ths \<le> List.length ths"
  by (simp add: count_pc_def)

lemma wake_pc_ref [simp]: "pc_ref (wake_pc p) = pc_ref p"
  by (cases p) simp_all

lemma wake_pc_holds [simp]: "holds a (wake_pc p) = holds a p" "refs_ok f (wake_pc p) = refs_ok f p"
  by (simp_all add: holds_def refs_ok_def)

lemma wake_pc_waits [simp]: "waits_on a (wake_pc p) = waits_on a p"
  by (cases p) (auto simp: waits_on_def)

lemma wake_pc_detached [simp]: "(wake_pc p = Detached h) = (p = Detached h)"
  by (cases p) simp_all

section \<open>Chains\<close>

definition chain_inv :: "(u32 \<Rightarrow> nat) \<Rightarrow> files \<Rightarrow> pc list \<Rightarrow> bool" where
  "chain_inv rank f ths \<longleftrightarrow>
     (\<forall>a n. next_of f a = Some n \<longrightarrow> n \<in> dom (fs_cells f) \<and> rank n < rank a)
     \<and> (\<forall>b n. fs_heads f b = Some n \<longrightarrow> n \<in> dom (fs_cells f))
     \<and> (\<forall>a p w. Waiting a (Next_of p) w \<in> set ths \<longrightarrow> p \<in> dom (fs_cells f) \<and> rank a < rank p)"

lemma follow_chain_ends:
  assumes "chain_inv rank f ths"
  shows "(\<And>a. p = Some a \<Longrightarrow> a \<in> dom (fs_cells f)) \<Longrightarrow>
     \<exists>r. follow_chain (fs_cells f) p stream = Some r \<and> (r = None \<or> r = Some stream \<and> stream \<in> dom (fs_cells f))"
proof (induction "case p of None \<Rightarrow> 0 | Some a \<Rightarrow> Suc (rank a)" arbitrary: p rule: less_induct)
  case less
  show ?case
  proof (cases p)
    case None
    then show ?thesis by (subst follow_chain.simps) simp
  next
    case (Some a)
    show ?thesis
    proof (cases "a = stream")
      case True
      then show ?thesis using Some less.prems by (subst follow_chain.simps) simp
    next
      case False
      obtain c where c: "fs_cells f a = Some c" using less.prems Some by blast
      have "\<exists>r. follow_chain (fs_cells f) (fw_hash_next c) stream = Some r
          \<and> (r = None \<or> r = Some stream \<and> stream \<in> dom (fs_cells f))"
      proof (rule less.hyps)
        have "next_of f a = fw_hash_next c" using c by (simp add: next_of_def)
        then show "(case fw_hash_next c of None \<Rightarrow> 0 | Some a \<Rightarrow> Suc (rank a))
            < (case p of None \<Rightarrow> 0 | Some a \<Rightarrow> Suc (rank a))"
          and "\<And>n. fw_hash_next c = Some n \<Longrightarrow> n \<in> dom (fs_cells f)"
          using assms Some by (auto simp: chain_inv_def split: option.split)
      qed
      then show ?thesis using Some c False by (subst follow_chain.simps) simp
    qed
  qed
qed

lemma find_ends:
  assumes "chain_inv rank f ths"
  obtains r where "asm2_find_active_file_locked stream f = Some r"
    "r = None \<or> r = Some stream \<and> stream \<in> dom (fs_cells f)"
  using follow_chain_ends [OF assms, of "fs_heads f (asm2_file_bucket stream)" stream] assms
  unfolding asm2_find_active_file_locked_def chain_inv_def by blast

lemma follow_links_ends:
  assumes "chain_inv rank f ths"
  shows "(\<And>a. p = Some a \<Longrightarrow> a \<in> dom (fs_cells f)) \<Longrightarrow> (\<And>q. l = Next_of q \<Longrightarrow> next_of f q = p) \<Longrightarrow>
     \<exists>l' r. follow_links (fs_cells f) l p stream = Some (l', r)
       \<and> (r = None \<or> r = Some stream \<and> stream \<in> dom (fs_cells f)
            \<and> (\<forall>q. l' = Next_of q \<longrightarrow> next_of f q = Some stream))"
proof (induction "case p of None \<Rightarrow> 0 | Some a \<Rightarrow> Suc (rank a)" arbitrary: p l rule: less_induct)
  case less
  show ?case
  proof (cases p)
    case None
    then show ?thesis by (subst follow_links.simps) simp
  next
    case (Some a)
    show ?thesis
    proof (cases "a = stream")
      case True
      then show ?thesis using Some less.prems by (subst follow_links.simps) auto
    next
      case False
      obtain c where c: "fs_cells f a = Some c" using less.prems(1) Some by blast
      have next_a: "next_of f a = fw_hash_next c" using c by (simp add: next_of_def)
      have "\<exists>l' r. follow_links (fs_cells f) (Next_of a) (fw_hash_next c) stream = Some (l', r)
          \<and> (r = None \<or> r = Some stream \<and> stream \<in> dom (fs_cells f)
            \<and> (\<forall>q. l' = Next_of q \<longrightarrow> next_of f q = Some stream))"
      proof (rule less.hyps)
        show "(case fw_hash_next c of None \<Rightarrow> 0 | Some a \<Rightarrow> Suc (rank a))
            < (case p of None \<Rightarrow> 0 | Some a \<Rightarrow> Suc (rank a))"
          and "\<And>n. fw_hash_next c = Some n \<Longrightarrow> n \<in> dom (fs_cells f)"
          using assms Some next_a by (auto simp: chain_inv_def split: option.split)
        show "\<And>q. Next_of a = Next_of q \<Longrightarrow> next_of f q = fw_hash_next c" using next_a by simp
      qed
      then show ?thesis using Some c False by (subst follow_links.simps) simp
    qed
  qed
qed


section \<open>The invariant\<close>

text \<open>Hosts and wrappers: a wrapper has its host stream until it is closed, no two have the same, and every open
  host stream has exactly one owner, a wrapper or the thread that is about to close it.\<close>

definition owner_inv :: "files \<Rightarrow> pc list \<Rightarrow> bool" where
  "owner_inv f ths \<longleftrightarrow>
     (\<forall>a st. state_of f a = Some st \<longrightarrow> (st = File_closed \<longleftrightarrow> host_of f a = None))
     \<and> (\<forall>a h. host_of f a = Some h \<longrightarrow> (\<exists>n. h = Host_file n))
     \<and> (\<forall>a b h. host_of f a = Some h \<longrightarrow> host_of f b = Some h \<longrightarrow> a = b)
     \<and> (\<forall>n. of_bool (\<exists>a. host_of f a = Some (Host_file n)) + count_pc (\<lambda>p. p = Detached (Host_file n)) ths
            = of_bool (Host_file n \<in> dom (fs_hosts f)))
     \<and> {Std_in, Std_out, Std_err} \<subseteq> dom (fs_hosts f)
     \<and> (\<forall>h. Detached h \<in> set ths \<longrightarrow> (\<exists>n. h = Host_file n))"

text \<open>Counts: the threads in calls on a wrapper, and the one that waits for a closing wrapper, which has been
  woken when there is nothing left to wait for.\<close>

definition count_inv :: "files \<Rightarrow> pc list \<Rightarrow> bool" where
  "count_inv f ths \<longleftrightarrow>
     (\<forall>a. count_pc (holds a) ths = active_of f a)
     \<and> (\<forall>a. count_pc (waits_on a) ths = of_bool (state_of f a = Some File_closing))
     \<and> (\<forall>p \<in> set ths. refs_ok f p)
     \<and> (\<forall>a l w. Waiting a l w \<in> set ths \<longrightarrow> active_of f a = 0 \<longrightarrow> w)
     \<and> List.length ths < 2 ^ 32"

definition stream_inv :: "stream_system \<Rightarrow> bool" where
  "stream_inv s \<longleftrightarrow> (\<exists>rank. chain_inv rank (ss_files s) (ss_threads s))
     \<and> owner_inv (ss_files s) (ss_threads s) \<and> count_inv (ss_files s) (ss_threads s)"

lemma owner_invI:
  assumes "\<And>a st. state_of f a = Some st \<Longrightarrow> st = File_closed \<longleftrightarrow> host_of f a = None"
    and "\<And>a h. host_of f a = Some h \<Longrightarrow> \<exists>n. h = Host_file n"
    and "\<And>a b h. host_of f a = Some h \<Longrightarrow> host_of f b = Some h \<Longrightarrow> a = b"
    and "\<And>n. of_bool (\<exists>a. host_of f a = Some (Host_file n)) + count_pc (\<lambda>p. p = Detached (Host_file n)) ths
            = of_bool (Host_file n \<in> dom (fs_hosts f))"
    and "{Std_in, Std_out, Std_err} \<subseteq> dom (fs_hosts f)"
    and "\<And>h. Detached h \<in> set ths \<Longrightarrow> \<exists>n. h = Host_file n"
  shows "owner_inv f ths"
  using assms unfolding owner_inv_def by (intro conjI allI impI) assumption+

lemmas owner_invD =
  owner_inv_def [THEN iffD1, THEN conjunct1, rule_format]
  owner_inv_def [THEN iffD1, THEN conjunct2, THEN conjunct1, rule_format]
  owner_inv_def [THEN iffD1, THEN conjunct2, THEN conjunct2, THEN conjunct1, rule_format]
  owner_inv_def [THEN iffD1, THEN conjunct2, THEN conjunct2, THEN conjunct2, THEN conjunct1, rule_format]
  owner_inv_def [THEN iffD1, THEN conjunct2, THEN conjunct2, THEN conjunct2, THEN conjunct2, THEN conjunct1, rule_format]
  owner_inv_def [THEN iffD1, THEN conjunct2, THEN conjunct2, THEN conjunct2, THEN conjunct2, THEN conjunct2, rule_format]

lemma count_invI:
  assumes "\<And>a. count_pc (holds a) ths = active_of f a"
    and "\<And>a. count_pc (waits_on a) ths = of_bool (state_of f a = Some File_closing)"
    and "\<And>p. p \<in> set ths \<Longrightarrow> refs_ok f p"
    and "\<And>a l w. Waiting a l w \<in> set ths \<Longrightarrow> active_of f a = 0 \<Longrightarrow> w"
    and "List.length ths < 2 ^ 32"
  shows "count_inv f ths"
  using assms unfolding count_inv_def by (intro conjI allI ballI impI) assumption+

lemmas count_invD =
  count_inv_def [THEN iffD1, THEN conjunct1, rule_format]
  count_inv_def [THEN iffD1, THEN conjunct2, THEN conjunct1, rule_format]
  count_inv_def [THEN iffD1, THEN conjunct2, THEN conjunct2, THEN conjunct1, rule_format]
  count_inv_def [THEN iffD1, THEN conjunct2, THEN conjunct2, THEN conjunct2, THEN conjunct1, rule_format]
  count_inv_def [THEN iffD1, THEN conjunct2, THEN conjunct2, THEN conjunct2, THEN conjunct2, rule_format]

lemma chain_invI:
  assumes "\<And>a n. next_of f a = Some n \<Longrightarrow> n \<in> dom (fs_cells f) \<and> rank n < rank a"
    and "\<And>b n. fs_heads f b = Some n \<Longrightarrow> n \<in> dom (fs_cells f)"
    and "\<And>a p w. Waiting a (Next_of p) w \<in> set ths \<Longrightarrow> p \<in> dom (fs_cells f) \<and> rank a < rank p"
  shows "chain_inv rank f ths"
  using assms unfolding chain_inv_def by blast

lemmas chain_invD =
  chain_inv_def [THEN iffD1, THEN conjunct1, rule_format]
  chain_inv_def [THEN iffD1, THEN conjunct2, THEN conjunct1, rule_format]
  chain_inv_def [THEN iffD1, THEN conjunct2, THEN conjunct2, rule_format]

lemma streams_start_inv: "n < 2 ^ 32 \<Longrightarrow> stream_inv (streams_start sF n images std)"
  by (auto simp: stream_inv_def chain_inv_def owner_inv_def count_inv_def streams_start_def views count_pc_def
      holds_def waits_on_def refs_ok_def)

text \<open>Steps on images and on the flags of host streams change none of the views.\<close>

definition same_views :: "files \<Rightarrow> files \<Rightarrow> bool" where
  "same_views f f' \<longleftrightarrow> state_of f' = state_of f \<and> host_of f' = host_of f \<and> active_of f' = active_of f
     \<and> next_of f' = next_of f \<and> dom (fs_cells f') = dom (fs_cells f) \<and> fs_heads f' = fs_heads f
     \<and> dom (fs_hosts f') = dom (fs_hosts f)"

lemma same_views_inv:
  assumes "same_views f f'"
  shows "chain_inv rank f' ths = chain_inv rank f ths" "owner_inv f' ths = owner_inv f ths"
    "refs_ok f' p = refs_ok f p" "count_inv f' ths = count_inv f ths"
proof -
  have hosts: "host_of f' = host_of f" using assms by (simp add: same_views_def)
  have refs: "refs_ok f' p = refs_ok f p" for p unfolding refs_ok_def hosts by (rule refl)
  show "chain_inv rank f' ths = chain_inv rank f ths" "owner_inv f' ths = owner_inv f ths"
    "refs_ok f' p = refs_ok f p" "count_inv f' ths = count_inv f ths"
    using assms by (simp_all add: same_views_def chain_inv_def owner_inv_def count_inv_def refs)
qed

lemma same_views_refl [simp]: "same_views f f"
  by (simp add: same_views_def)

lemma write_image_views: "same_views f (write_image place img f)"
  by (cases place)
     (auto simp: same_views_def modify_cell_def views fun_eq_iff map_option_case Option.bind_def split: option.split)

lemma use_host_views: "use_host h g f = Some (r, f') \<Longrightarrow> same_views f f'"
  by (auto simp: use_host_def same_views_def views split: option.splits prod.splits if_splits)

lemma guest_writes_views: "same_views f (modify_cell a (\<lambda>c. c\<lparr>fw_guest := img\<rparr>) f)"
  using write_image_views [of f "Inr a" img] by simp

text \<open>A thread that keeps its reference, or that neither had nor gets one.\<close>

lemma step_same_pc:
  assumes "chain_inv rank f ths" "owner_inv f ths" "count_inv f ths" and "t < List.length ths"
    and "pc_ref p = pc_ref (ths ! t)"
    and "\<And>a l w. p \<noteq> Waiting a l w" "\<And>h. p \<noteq> Detached h"
    and "\<And>a l w. ths ! t \<noteq> Waiting a l w" "\<And>h. ths ! t \<noteq> Detached h"
  shows "chain_inv rank f (ths[t := p]) \<and> owner_inv f (ths[t := p]) \<and> count_inv f (ths[t := p])"
proof -
  have holds: "holds a p = holds a (ths ! t)" and refs: "refs_ok f p = refs_ok f (ths ! t)" for a
    using assms(5) by (simp_all add: holds_def refs_ok_def)
  have counts: "count_pc (holds a) (ths[t := p]) = count_pc (holds a) ths"
    "count_pc (waits_on a) (ths[t := p]) = count_pc (waits_on a) ths"
    "count_pc (\<lambda>p. p = Detached h) (ths[t := p]) = count_pc (\<lambda>p. p = Detached h) ths" for a h
    using count_update [OF assms(4), of "holds a" p] count_update [OF assms(4), of "waits_on a" p]
      count_update [OF assms(4), of "\<lambda>p. p = Detached h" p] assms(6-9)
    by (simp_all add: holds waits_on_def)
  have member: "q \<in> set (ths[t := p]) \<Longrightarrow> q = p \<or> q \<in> set ths" for q
    using set_update_subset_insert [of ths t p] by blast
  have "refs_ok f p" using assms(3,4) refs unfolding count_inv_def by simp
  then have refs': "q \<in> set (ths[t := p]) \<Longrightarrow> refs_ok f q" for q
    using member [of q] assms(3) unfolding count_inv_def by blast
  have waits: "Waiting a l w \<in> set (ths[t := p]) \<Longrightarrow> Waiting a l w \<in> set ths" for a l w
    using member [of "Waiting a l w"] assms(6) by blast
  have detached: "Detached h \<in> set (ths[t := p]) \<Longrightarrow> Detached h \<in> set ths" for h
    using member [of "Detached h"] assms(7) by blast
  show ?thesis
  proof (intro conjI)
    show "chain_inv rank f (ths[t := p])"
      using chain_invD [OF assms(1)] waits by (intro chain_invI) blast+
    show "owner_inv f (ths[t := p])"
      by (rule owner_invI; (unfold counts)?) (use owner_invD [OF assms(2)] detached in blast)+
    show "count_inv f (ths[t := p])"
      by (rule count_invI; (unfold counts length_list_update)?) (use count_invD [OF assms(3)] refs' waits in blast)+
  qed
qed

end
