(* ===== verification/Asm2_StreamSteps.thy ===== *)
theory Asm2_StreamSteps
  imports Asm2_StreamSafety
begin

text \<open>
  Every event of the stdio bridge keeps the invariant of \<open>Asm2_StreamSafety\<close> and is not a fault.
\<close>

definition inv3 :: "(u32 \<Rightarrow> nat) \<Rightarrow> files \<Rightarrow> pc list \<Rightarrow> bool" where
  "inv3 rank f ths \<longleftrightarrow> chain_inv rank f ths \<and> owner_inv f ths \<and> count_inv f ths"

lemma inv3D:
  assumes "inv3 rank f ths"
  shows "chain_inv rank f ths" "owner_inv f ths" "count_inv f ths"
  using assms by (simp_all add: inv3_def)

lemma stream_inv_inv3: "stream_inv s \<longleftrightarrow> (\<exists>rank. inv3 rank (ss_files s) (ss_threads s))"
  by (simp add: stream_inv_def inv3_def)

lemma inv3_views: "same_views f f' \<Longrightarrow> inv3 rank f' ths = inv3 rank f ths"
  by (simp add: inv3_def same_views_inv)

section \<open>Threads between the locked sections\<close>

fun plain_pc :: "pc \<Rightarrow> bool" where
  "plain_pc (Waiting a l w) = False"
| "plain_pc (Detached h) = False"
| "plain_pc _ = True"

lemma plain_pcD: "plain_pc p \<Longrightarrow> p \<noteq> Waiting a l w" "plain_pc p \<Longrightarrow> p \<noteq> Detached h"
  by auto

lemma plain_waits: "plain_pc p \<Longrightarrow> \<not> waits_on a p"
  by (auto simp: waits_on_def)

lemma member_update: "q \<in> set (ths[t := p]) \<Longrightarrow> q = p \<or> q \<in> set ths"
  using set_update_subset_insert [of ths t p] by blast

lemma plain_counts:
  assumes "t < List.length ths" and "plain_pc p" and "plain_pc (ths ! t)"
  shows "count_pc (waits_on a) (ths[t := p]) = count_pc (waits_on a) ths"
    "count_pc (\<lambda>p. p = Detached h) (ths[t := p]) = count_pc (\<lambda>p. p = Detached h) ths"
  using count_update [OF assms(1), of "waits_on a" p] count_update [OF assms(1), of "\<lambda>p. p = Detached h" p]
    assms(2,3) plain_waits plain_pcD(2)
  by auto

text \<open>The views that only a change of the counts leaves alone.\<close>

definition same_shape :: "files \<Rightarrow> files \<Rightarrow> bool" where
  "same_shape f f' \<longleftrightarrow> state_of f' = state_of f \<and> host_of f' = host_of f
     \<and> next_of f' = next_of f \<and> dom (fs_cells f') = dom (fs_cells f) \<and> fs_heads f' = fs_heads f
     \<and> dom (fs_hosts f') = dom (fs_hosts f)"

lemma step_active:
  assumes inv: "inv3 rank f ths" and shape: "same_shape f f'" and t: "t < List.length ths"
    and plain: "plain_pc p" "plain_pc (ths ! t)" and refs: "refs_ok f p"
    and active: "\<And>a. active_of f' a + of_bool (holds a (ths ! t)) = active_of f a + of_bool (holds a p)"
    and woken: "\<And>a l w. Waiting a l w \<in> set ths \<Longrightarrow> active_of f' a = 0 \<Longrightarrow> w"
  shows "inv3 rank f' (ths[t := p])"
proof -
  note counts = plain_counts [OF t plain]
  have same: "state_of f' = state_of f" "host_of f' = host_of f" "next_of f' = next_of f"
    "dom (fs_cells f') = dom (fs_cells f)" "fs_heads f' = fs_heads f" "dom (fs_hosts f') = dom (fs_hosts f)"
    using shape by (simp_all add: same_shape_def)
  have waits: "Waiting a l w \<in> set (ths[t := p]) \<Longrightarrow> Waiting a l w \<in> set ths" for a l w
    using member_update [of "Waiting a l w" ths t p] plain_pcD(1) [OF plain(1)] by blast
  have detached: "Detached h \<in> set (ths[t := p]) \<Longrightarrow> Detached h \<in> set ths" for h
    using member_update [of "Detached h" ths t p] plain_pcD(2) [OF plain(1)] by blast
  have refs': "refs_ok f' q = refs_ok f q" for q unfolding refs_ok_def same by (rule refl)
  have "chain_inv rank f' (ths[t := p])"
    by (rule chain_invI; (unfold same)?) (use chain_invD [OF inv3D(1) [OF inv]] waits in blast)+
  moreover have "owner_inv f' (ths[t := p])"
    by (rule owner_invI; (unfold same counts)?) (use owner_invD [OF inv3D(2) [OF inv]] detached in blast)+
  moreover have "count_inv f' (ths[t := p])"
  proof (rule count_invI)
    show "count_pc (holds a) (ths[t := p]) = active_of f' a" for a
      using count_update [OF t, of "holds a" p] active [of a] count_invD(1) [OF inv3D(3) [OF inv], of a] by simp
    show "count_pc (waits_on a) (ths[t := p]) = of_bool (state_of f' a = Some File_closing)" for a
      unfolding counts same by (rule count_invD(2) [OF inv3D(3) [OF inv]])
    show "refs_ok f' q" if "q \<in> set (ths[t := p])" for q
      using member_update [OF that] refs count_invD(3) [OF inv3D(3) [OF inv]] refs' by blast
    show "w" if "Waiting a l w \<in> set (ths[t := p])" "active_of f' a = 0" for a l w
      using woken [OF waits] that by blast
    show "List.length (ths[t := p]) < 2 ^ 32" using count_invD(5) [OF inv3D(3) [OF inv]] by simp
  qed
  ultimately show ?thesis by (simp add: inv3_def)
qed

lemma step_plain:
  assumes "inv3 rank f ths" and "same_views f f'" and "t < List.length ths"
    and "plain_pc p" "plain_pc (ths ! t)" and "pc_ref p = pc_ref (ths ! t)"
  shows "inv3 rank f' (ths[t := p])"
proof (rule step_active [OF assms(1) _ assms(3-5)])
  show "same_shape f f'" using assms(2) by (simp add: same_shape_def same_views_def)
  have "refs_ok f (ths ! t)" using count_invD(3) [OF inv3D(3) [OF assms(1)]] assms(3) by simp
  then show "refs_ok f p" using assms(6) by (simp add: refs_ok_def)
  have active: "active_of f' = active_of f" using assms(2) by (simp add: same_views_def)
  show "active_of f' a + of_bool (holds a (ths ! t)) = active_of f a + of_bool (holds a p)" for a
    using assms(6) by (simp add: active holds_def)
  show "w" if "Waiting a l w \<in> set ths" "active_of f' a = 0" for a l w
    using count_invD(4) [OF inv3D(3) [OF assms(1)]] that unfolding active by blast
qed

lemma wake_pc_waiting: "wake_pc p = Waiting a l w \<longleftrightarrow> w \<and> (\<exists>w'. p = Waiting a l w')"
  by (cases p) auto

lemma broadcast_inv3:
  assumes inv: "inv3 rank f ths"
  shows "inv3 rank f (map wake_pc ths)"
proof -
  have waits: "\<exists>w'. Waiting a l w' \<in> set ths \<and> w" if "Waiting a l w \<in> set (map wake_pc ths)" for a l w
    using that wake_pc_waiting by (metis (no_types, lifting) image_iff set_map)
  have detached: "Detached h \<in> set ths" if "Detached h \<in> set (map wake_pc ths)" for h
    using that wake_pc_detached by (metis (no_types, lifting) image_iff set_map)
  have "chain_inv rank f (map wake_pc ths)"
    by (rule chain_invI) (use chain_invD [OF inv3D(1) [OF inv]] waits in blast)+
  moreover have "owner_inv f (map wake_pc ths)"
  proof -
    have count: "count_pc (\<lambda>p. p = Detached h) (map wake_pc ths) = count_pc (\<lambda>p. p = Detached h) ths" for h
      by (rule count_map) simp
    show ?thesis
      by (rule owner_invI; (unfold count)?) (use owner_invD [OF inv3D(2) [OF inv]] detached in blast)+
  qed
  moreover have "count_inv f (map wake_pc ths)"
  proof (rule count_invI)
    show "count_pc (holds a) (map wake_pc ths) = active_of f a" for a
      using count_invD(1) [OF inv3D(3) [OF inv]] by simp
    show "count_pc (waits_on a) (map wake_pc ths) = of_bool (state_of f a = Some File_closing)" for a
      using count_invD(2) [OF inv3D(3) [OF inv]] by simp
    show "refs_ok f q" if member: "q \<in> set (map wake_pc ths)" for q
      using member count_invD(3) [OF inv3D(3) [OF inv]] by auto
    show "w" if "Waiting a l w \<in> set (map wake_pc ths)" for a l w using waits [OF that] by blast
    show "List.length (map wake_pc ths) < 2 ^ 32" using count_invD(5) [OF inv3D(3) [OF inv]] by simp
  qed
  ultimately show ?thesis by (simp add: inv3_def)
qed


section \<open>The operations\<close>

lemma held_host_open:
  assumes "inv3 rank f ths" and "refs_ok f p" and "pc_ref p = Some r"
  shows "sr_host r \<in> dom (fs_hosts f)"
proof (cases "sr_wrapper r")
  case None
  with assms(2,3) have "sr_host r \<in> {Std_in, Std_out, Std_err}" by (simp add: refs_ok_def)
  then show ?thesis using owner_invD(5) [OF inv3D(2) [OF assms(1)]] by blast
next
  case (Some a)
  with assms(2,3) have host: "host_of f a = Some (sr_host r)" by (simp add: refs_ok_def)
  obtain n where n: "sr_host r = Host_file n"
    using owner_invD(2) [OF inv3D(2) [OF assms(1)] host] by blast
  have "of_bool (\<exists>a. host_of f a = Some (Host_file n)) = (1 :: nat)" using host n by auto
  with owner_invD(4) [OF inv3D(2) [OF assms(1)], of n]
  have "of_bool (Host_file n \<in> dom (fs_hosts f)) \<noteq> (0 :: nat)" by linarith
  then show ?thesis using n by (simp split: if_splits)
qed

lemma stream_image_found:
  assumes "inv3 rank f ths"
  obtains "asm2_stream_image stream f = Some None"
  | place img where "asm2_stream_image stream f = Some (Some place)" "read_image place f = Some img"
proof (cases "asm2_standard_stream stream f")
  case (Some h)
  then show ?thesis using that(2) [of "Inl h"] by (simp add: asm2_stream_image_def)
next
  case None
  obtain r where r: "asm2_find_active_file_locked stream f = Some r"
    "r = None \<or> r = Some stream \<and> stream \<in> dom (fs_cells f)"
    by (rule find_ends [OF inv3D(1) [OF assms]])
  from r(2) show ?thesis
  proof
    assume "r = None"
    then show ?thesis using that(1) None r(1) by (simp add: asm2_stream_image_def)
  next
    assume found: "r = Some stream \<and> stream \<in> dom (fs_cells f)"
    then obtain c where "fs_cells f stream = Some c" by blast
    then show ?thesis using that(2) [of "Inr stream"] found None r(1) by (simp add: asm2_stream_image_def)
  qed
qed

lemma use_host_open:
  "h \<in> dom (fs_hosts f) \<Longrightarrow> \<exists>r f'. use_host h g f = Some (r, f') \<and> same_views f f'"
  using use_host_views [of h g f] by (auto simp: use_host_def split: prod.split)

lemma apply_flags_defined:
  assumes "inv3 rank f ths" and "h \<in> dom (fs_hosts f)"
  shows "\<exists>f'. asm2_apply_guest_cleared_flags stream h f = Some f' \<and> same_views f f'"
proof (rule stream_image_found [OF assms(1), of stream])
  assume "asm2_stream_image stream f = Some None"
  then show ?thesis by (simp add: asm2_apply_guest_cleared_flags_def)
next
  fix place img
  assume "asm2_stream_image stream f = Some (Some place)" "read_image place f = Some img"
  moreover obtain r f' where "use_host h (\<lambda>hf. ((), cleared_by_guest img hf)) f = Some (r, f')" "same_views f f'"
    using use_host_open [OF assms(2), of "\<lambda>hf. ((), cleared_by_guest img hf)"] by auto
  ultimately show ?thesis by (simp add: asm2_apply_guest_cleared_flags_def)
qed

lemma sync_flags_defined:
  assumes "inv3 rank f ths" and "h \<in> dom (fs_hosts f)"
  shows "\<exists>f'. asm2_sync_stream_flags stream h f = Some f' \<and> same_views f f'"
proof (rule stream_image_found [OF assms(1), of stream])
  assume "asm2_stream_image stream f = Some None"
  then show ?thesis by (simp add: asm2_sync_stream_flags_def)
next
  fix place img
  assume "asm2_stream_image stream f = Some (Some place)" "read_image place f = Some img"
  moreover obtain hf where "fs_hosts f h = Some hf" using assms(2) by blast
  ultimately show ?thesis
    by (simp add: asm2_sync_stream_flags_def Let_def write_image_views)
qed

lemma modify_active_shape:
  "(\<And>c. fw_state (g c) = fw_state c \<and> fw_host (g c) = fw_host c \<and> fw_hash_next (g c) = fw_hash_next c) \<Longrightarrow>
     same_shape f (modify_cell a g f)"
  by (auto simp: same_shape_def modify_cell_def views fun_eq_iff map_option_case Option.bind_def split: option.split)

lemma acquire_cases:
  assumes "inv3 rank f ths"
  obtains (refused) "acquire_locked stream f = Some (None, f)"
  | (standard) h where "acquire_locked stream f = Some (Some \<lparr>sr_host = h, sr_wrapper = None\<rparr>, f)"
      "h \<in> {Std_in, Std_out, Std_err}"
  | (accepted) h c where "fs_cells f stream = Some c" "fw_host c = Some h" "fw_state c = File_open"
      "asm2_standard_stream stream f = None"
      "acquire_locked stream f = Some (Some \<lparr>sr_host = h, sr_wrapper = Some stream\<rparr>,
         modify_cell stream (\<lambda>c. c\<lparr>fw_active := fw_active c + 1\<rparr>) f)"
proof (cases "asm2_standard_stream stream f")
  case (Some h)
  then have "h \<in> {Std_in, Std_out, Std_err}" by (auto simp: asm2_standard_stream_def split: if_splits)
  with Some show ?thesis using standard by (simp add: acquire_locked_def)
next
  case None
  obtain r where r: "asm2_find_active_file_locked stream f = Some r"
    "r = None \<or> r = Some stream \<and> stream \<in> dom (fs_cells f)"
    by (rule find_ends [OF inv3D(1) [OF assms]])
  show ?thesis
  proof (cases r)
    case None
    then show ?thesis using refused r(1) \<open>asm2_standard_stream stream f = None\<close> by (simp add: acquire_locked_def)
  next
    case (Some a)
    with r(2) obtain c where c: "a = stream" "fs_cells f stream = Some c" by blast
    show ?thesis
    proof (cases "\<exists>h. fw_host c = Some h \<and> fw_state c = File_open")
      case True
      then show ?thesis
        using accepted c r(1) Some \<open>asm2_standard_stream stream f = None\<close> by (auto simp: acquire_locked_def)
    next
      case False
      then show ?thesis
        using refused c r(1) Some \<open>asm2_standard_stream stream f = None\<close>
        by (cases "fw_host c") (auto simp: acquire_locked_def)
    qed
  qed
qed


section \<open>Detaching a wrapper\<close>

lemma detach_views:
  assumes "fs_cells f a = Some c" and "\<And>q. l = Next_of q \<Longrightarrow> q \<in> dom (fs_cells f) \<and> q \<noteq> a"
  obtains f' where "detach_file a l f = Some (fw_host c, f')"
    "state_of f' = (state_of f)(a \<mapsto> File_closed)" "host_of f' = (host_of f)(a := None)"
    "active_of f' = active_of f" "dom (fs_cells f') = dom (fs_cells f)" "fs_hosts f' = fs_hosts f"
    "next_of f' = (case l of Bucket b \<Rightarrow> (next_of f)(a := None)
       | Next_of q \<Rightarrow> (next_of f)(q := next_of f a, a := None))"
    "fs_heads f' = (case l of Bucket b \<Rightarrow> (fs_heads f)(b := next_of f a) | Next_of q \<Rightarrow> fs_heads f)"
proof (cases l)
  case (Bucket b)
  with assms(1) show ?thesis
    by (intro that [of "snd (the (detach_file a l f))"])
       (auto simp: detach_file_def modify_cell_def write_link_def views fun_eq_iff Let_def)
next
  case (Next_of q)
  with assms obtain d where d: "fs_cells f q = Some d" "q \<noteq> a" by blast
  with assms(1) Next_of show ?thesis
    by (intro that [of "snd (the (detach_file a l f))"])
       (auto simp: detach_file_def modify_cell_def write_link_def views fun_eq_iff Let_def)
qed

lemma modify_state_views:
  assumes "fs_cells f a = Some c"
  shows "state_of (modify_cell a (\<lambda>c. c\<lparr>fw_state := st\<rparr>) f) = (state_of f)(a \<mapsto> st)"
    "host_of (modify_cell a (\<lambda>c. c\<lparr>fw_state := st\<rparr>) f) = host_of f"
    "active_of (modify_cell a (\<lambda>c. c\<lparr>fw_state := st\<rparr>) f) = active_of f"
    "next_of (modify_cell a (\<lambda>c. c\<lparr>fw_state := st\<rparr>) f) = next_of f"
    "dom (fs_cells (modify_cell a (\<lambda>c. c\<lparr>fw_state := st\<rparr>) f)) = dom (fs_cells f)"
    "fs_heads (modify_cell a (\<lambda>c. c\<lparr>fw_state := st\<rparr>) f) = fs_heads f"
    "fs_hosts (modify_cell a (\<lambda>c. c\<lparr>fw_state := st\<rparr>) f) = fs_hosts f"
  using assms by (auto simp: modify_cell_def views fun_eq_iff)

lemma detach_at_once:
  "detach_file a l (modify_cell a (\<lambda>c. c\<lparr>fw_state := st\<rparr>) f) = detach_file a l f"
  by (cases l) (auto simp: detach_file_def modify_cell_def write_link_def fun_upd_def Let_def map_option_case fun_eq_iff
       split: option.split)

lemma detach_inv:
  assumes inv: "inv3 rank f ths" and t: "t < List.length ths"
    and c: "fs_cells f a = Some c" "fw_host c = Some h" "fw_active c = 0"
    and pc: "(\<exists>w. ths ! t = Waiting a l w) \<and> fw_state c = File_closing \<or> ths ! t = Idle \<and> fw_state c = File_open"
    and l: "\<And>q. l = Next_of q \<Longrightarrow> q \<in> dom (fs_cells f) \<and> rank a < rank q"
  obtains f' where "detach_file a l f = Some (Some h, f')" "inv3 rank f' (ths[t := Detached h])"
proof -
  have "\<And>q. l = Next_of q \<Longrightarrow> q \<in> dom (fs_cells f) \<and> q \<noteq> a" using l by fastforce
  then obtain f' where run0: "detach_file a l f = Some (fw_host c, f')"
    and v: "state_of f' = (state_of f)(a \<mapsto> File_closed)" "host_of f' = (host_of f)(a := None)"
    "active_of f' = active_of f" "dom (fs_cells f') = dom (fs_cells f)" "fs_hosts f' = fs_hosts f"
    and nexts: "next_of f' = (case l of Bucket b \<Rightarrow> (next_of f)(a := None)
       | Next_of q \<Rightarrow> (next_of f)(q := next_of f a, a := None))"
    and heads: "fs_heads f' = (case l of Bucket b \<Rightarrow> (fs_heads f)(b := next_of f a) | Next_of q \<Rightarrow> fs_heads f)"
    by (rule detach_views [OF c(1)])
  have run: "detach_file a l f = Some (Some h, f')" using run0 c(2) by simp
  have host: "host_of f a = Some h" and active: "active_of f a = 0" using c by (simp_all add: views)
  note chain = chain_invD [OF inv3D(1) [OF inv]]
  note owner = owner_invD [OF inv3D(2) [OF inv]]
  note count = count_invD [OF inv3D(3) [OF inv]]
  let ?ths = "ths[t := Detached h]"
  have waits: "Waiting b l w \<in> set ?ths \<Longrightarrow> Waiting b l w \<in> set ths" for b l w
    using member_update [of "Waiting b l w" ths t "Detached h"] by blast
  have "chain_inv rank f' ?ths"
  proof (rule chain_invI)
    show "n \<in> dom (fs_cells f') \<and> rank n < rank b" if "next_of f' b = Some n" for b n
    proof (cases "next_of f b = Some n")
      case True
      then show ?thesis using chain(1) by (simp only: v)
    next
      case False
      with that nexts obtain q where q: "l = Next_of q" "b = q" "next_of f a = Some n"
        by (auto split: link.splits if_splits)
      then show ?thesis using chain(1) [of a n] l [of q] unfolding v by auto
    qed
    show "n \<in> dom (fs_cells f')" if "fs_heads f' b = Some n" for b n
      using that chain(1) [of a n] chain(2) [of b n] unfolding heads v by (auto split: link.splits if_splits)
    show "p \<in> dom (fs_cells f') \<and> rank b < rank p" if "Waiting b (Next_of p) w \<in> set ?ths" for b p w
      using chain(3) [OF waits [OF that]] by (simp only: v)
  qed
  moreover have "owner_inv f' ?ths"
  proof (rule owner_invI)
    show "st = File_closed \<longleftrightarrow> host_of f' b = None" if "state_of f' b = Some st" for b st
      using that owner(1) [of b st] unfolding v by (auto split: if_splits)
    show "\<exists>n. h' = Host_file n" if "host_of f' b = Some h'" for b h'
      using that owner(2) [of b h'] unfolding v by (auto split: if_splits)
    show "b = d" if "host_of f' b = Some h'" "host_of f' d = Some h'" for b d h'
      using that owner(3) [of b h' d] unfolding v by (auto split: if_splits)
    show "of_bool (\<exists>b. host_of f' b = Some (Host_file n)) + count_pc (\<lambda>p. p = Detached (Host_file n)) ?ths
        = of_bool (Host_file n \<in> dom (fs_hosts f'))" for n
    proof -
      have idle: "ths ! t \<noteq> Detached (Host_file n)" using pc by auto
      have step: "count_pc (\<lambda>p. p = Detached (Host_file n)) ?ths
          = count_pc (\<lambda>p. p = Detached (Host_file n)) ths + of_bool (h = Host_file n)"
        using count_update [OF t, of "\<lambda>p. p = Detached (Host_file n)" "Detached h"] idle by simp
      have gone: "(\<exists>b. host_of f' b = Some (Host_file n)) \<longleftrightarrow> (\<exists>b. host_of f b = Some (Host_file n)) \<and> h \<noteq> Host_file n"
      proof (cases "h = Host_file n")
        case True
        then have "host_of f' b \<noteq> Some (Host_file n)" for b
          using owner(3) [OF host, of b] by (auto simp: v)
        then show ?thesis using True by blast
      next
        case False
        then have "host_of f' b = Some (Host_file n) \<longleftrightarrow> host_of f b = Some (Host_file n)" for b
          using host by (simp add: v)
        then show ?thesis using False by blast
      qed
      have here: "h = Host_file n \<Longrightarrow> \<exists>b. host_of f b = Some (Host_file n)" using host by blast
      show ?thesis
        using owner(4) [of n] step gone here unfolding v by (cases "h = Host_file n") auto
    qed
    show "{Std_in, Std_out, Std_err} \<subseteq> dom (fs_hosts f')" using owner(5) unfolding v .
    show "\<exists>n. h' = Host_file n" if "Detached h' \<in> set ?ths" for h'
      using member_update [OF that] owner(6) [of h'] owner(2) [OF host] by blast
  qed
  moreover have "count_inv f' ?ths"
  proof (rule count_invI)
    have holds: "holds b (ths ! t) = False" "holds b (Detached h) = False" for b
      using pc by (auto simp: holds_def)
    show "count_pc (holds b) ?ths = active_of f' b" for b
      using count_update [OF t, of "holds b" "Detached h"] count(1) [of b] by (simp add: v holds)
    show "count_pc (waits_on b) ?ths = of_bool (state_of f' b = Some File_closing)" for b
    proof -
      have here: "waits_on b (ths ! t) \<longleftrightarrow> b = a \<and> fw_state c = File_closing"
        using pc by (auto simp: waits_on_def)
      have "count_pc (waits_on b) ?ths + of_bool (waits_on b (ths ! t)) = count_pc (waits_on b) ths"
        using count_update [OF t, of "waits_on b" "Detached h"] by (simp add: waits_on_def)
      then show ?thesis
        using count(2) [of b] here c(1) unfolding v by (cases "b = a") (auto simp: state_of_def)
    qed
    show "refs_ok f' q" if "q \<in> set ?ths" for q
    proof (cases "q = Detached h")
      case True
      then show ?thesis by (simp add: refs_ok_def)
    next
      case False
      with member_update [OF that] have q: "q \<in> set ths" by blast
      have "\<not> holds a q" using count(1) [of a] active q by (simp add: count_zero)
      then show ?thesis
        using count(3) [OF q] unfolding refs_ok_def v holds_def by (auto split: option.splits)
    qed
    show "w" if "Waiting b l w \<in> set ?ths" "active_of f' b = 0" for b l w
      using count(4) [OF waits [OF that(1)]] that(2) unfolding v by blast
    show "List.length ?ths < 2 ^ 32" using count(5) by simp
  qed
  ultimately show ?thesis using that [OF run] by (simp add: inv3_def)
qed

end
