(* ===== verification/Asm2_StreamEvents.thy ===== *)
theory Asm2_StreamEvents
  imports Asm2_StreamSteps
begin

text \<open>
  The events of the stdio bridge one by one: none is a fault, each keeps the invariant; what follows for
  every interleaving.
\<close>

section \<open>One lemma for each event\<close>

definition goes_on :: "file_event \<Rightarrow> stream_system \<Rightarrow> bool" where
  "goes_on e s \<longleftrightarrow> (\<exists>s'. file_step e s = Some s' \<and> stream_inv s')"

lemma goes_onI: "file_step e s = Some s' \<Longrightarrow> inv3 rank (ss_files s') (ss_threads s') \<Longrightarrow> goes_on e s"
  unfolding goes_on_def stream_inv_inv3 by blast

lemma set_pc_parts [simp]: "ss_files (set_pc t p f s) = f" "ss_threads (set_pc t p f s) = (ss_threads s)[t := p]"
  by (simp_all add: set_pc_def)

lemma member_thread: "t < List.length ths \<Longrightarrow> inv3 rank f ths \<Longrightarrow> refs_ok f (ths ! t)"
  using count_invD(3) [OF inv3D(3)] by simp

lemma apply_goes:
  assumes inv: "inv3 rank (ss_files s) (ss_threads s)" and "enabled (Apply t) s"
  shows "goes_on (Apply t) s"
proof -
  obtain x r where t: "t < List.length (ss_threads s)" "ss_threads s ! t = Acquired x r"
    using assms(2) by (auto simp: thread_is_def)
  have "sr_host r \<in> dom (fs_hosts (ss_files s))"
    using held_host_open [OF inv member_thread [OF t(1) inv]] t(2) by simp
  then obtain f' where f': "asm2_apply_guest_cleared_flags x (sr_host r) (ss_files s) = Some f'" "same_views (ss_files s) f'"
    using apply_flags_defined [OF inv] by blast
  show ?thesis
    by (rule goes_onI [of _ _ "set_pc t (Applied x r) f' s" rank])
       (simp_all add: t f' step_plain [OF inv f'(2) t(1)])
qed

lemma call_goes:
  assumes inv: "inv3 rank (ss_files s) (ss_threads s)" and "enabled (Call t g b) s"
  shows "goes_on (Call t g b) s"
proof -
  obtain x r where t: "t < List.length (ss_threads s)" "ss_threads s ! t = Applied x r"
    using assms(2) by (auto simp: thread_is_def)
  have "sr_host r \<in> dom (fs_hosts (ss_files s))"
    using held_host_open [OF inv member_thread [OF t(1) inv]] t(2) by simp
  from use_host_open [OF this, of "\<lambda>hf. ((), g hf)"] obtain u f'
    where f': "use_host (sr_host r) (\<lambda>hf. ((), g hf)) (ss_files s) = Some (u, f')" "same_views (ss_files s) f'"
    by blast
  show ?thesis
    by (rule goes_onI [of _ _ "set_pc t (if b then Called x r else Releasing r) f' s" rank])
       (simp_all add: t f' step_plain [OF inv f'(2) t(1)])
qed

lemma sync_goes:
  assumes inv: "inv3 rank (ss_files s) (ss_threads s)" and "enabled (Sync t) s"
  shows "goes_on (Sync t) s"
proof -
  obtain x r where t: "t < List.length (ss_threads s)" "ss_threads s ! t = Called x r"
    using assms(2) by (auto simp: thread_is_def)
  have "sr_host r \<in> dom (fs_hosts (ss_files s))"
    using held_host_open [OF inv member_thread [OF t(1) inv]] t(2) by simp
  then obtain f' where f': "asm2_sync_stream_flags x (sr_host r) (ss_files s) = Some f'" "same_views (ss_files s) f'"
    using sync_flags_defined [OF inv] by blast
  show ?thesis
    by (rule goes_onI [of _ _ "set_pc t (Releasing r) f' s" rank])
       (simp_all add: t f' step_plain [OF inv f'(2) t(1)])
qed

lemma guest_writes_goes:
  assumes inv: "inv3 rank (ss_files s) (ss_threads s)"
  shows "goes_on (Guest_writes a img) s"
  by (rule goes_onI [of _ _ _ rank], simp) (simp add: inv3_views [OF guest_writes_views] inv)

lemma acquire_goes:
  assumes inv: "inv3 rank (ss_files s) (ss_threads s)" and "enabled (Acquire t stream) s"
  shows "goes_on (Acquire t stream) s"
proof -
  have t: "t < List.length (ss_threads s)" "ss_threads s ! t = Idle"
    using assms(2) by (auto simp: thread_is_def)
  have woken: "w" if "Waiting a l w \<in> set (ss_threads s)" "active_of (ss_files s) a = 0" for a l w
    using count_invD(4) [OF inv3D(3) [OF inv]] that by blast
  show ?thesis
  proof (rule acquire_cases [OF inv, of stream])
    assume run: "acquire_locked stream (ss_files s) = Some (None, ss_files s)"
    show ?thesis
      by (rule goes_onI [of _ _ "set_pc t Idle (ss_files s) s" rank])
         (simp_all add: run t step_plain [OF inv _ t(1)])
  next
    fix h
    assume run: "acquire_locked stream (ss_files s) = Some (Some \<lparr>sr_host = h, sr_wrapper = None\<rparr>, ss_files s)"
      and h: "h \<in> {Std_in, Std_out, Std_err}"
    let ?p = "Acquired stream \<lparr>sr_host = h, sr_wrapper = None\<rparr>"
    have "inv3 rank (ss_files s) ((ss_threads s)[t := ?p])"
      by (rule step_active [OF inv _ t(1)])
         (use h woken in \<open>simp_all add: t(2) refs_ok_def same_shape_def holds_def\<close>)
    then show ?thesis by (intro goes_onI [of _ _ "set_pc t ?p (ss_files s) s" rank]) (simp_all add: run)
  next
    fix h c
    assume c: "fs_cells (ss_files s) stream = Some c" "fw_host c = Some h" "fw_state c = File_open"
      and run: "acquire_locked stream (ss_files s) = Some (Some \<lparr>sr_host = h, sr_wrapper = Some stream\<rparr>,
         modify_cell stream (\<lambda>c. c\<lparr>fw_active := fw_active c + 1\<rparr>) (ss_files s))"
    let ?p = "Acquired stream \<lparr>sr_host = h, sr_wrapper = Some stream\<rparr>"
    let ?f = "modify_cell stream (\<lambda>c. c\<lparr>fw_active := fw_active c + 1\<rparr>) (ss_files s)"
    have "active_of (ss_files s) stream < List.length (ss_threads s)"
      using count_less [OF t(1), of "holds stream"] count_invD(1) [OF inv3D(3) [OF inv], of stream] t(2)
      by (simp add: holds_def)
    then have "unat (fw_active c) + 1 < 2 ^ 32"
      using count_invD(5) [OF inv3D(3) [OF inv]] c(1) by (simp add: active_of_def)
    then have more: "unat (fw_active c + 1) = unat (fw_active c) + 1"
      by (simp add: unat_word_ariths)
    have active: "active_of ?f a = active_of (ss_files s) a + of_bool (a = stream)" for a
      using c(1) more by (simp add: active_of_def modify_cell_def)
    have "inv3 rank ?f ((ss_threads s)[t := ?p])"
    proof (rule step_active [OF inv _ t(1)])
      show "same_shape (ss_files s) ?f" by (rule modify_active_shape) simp
      show "refs_ok (ss_files s) ?p" using c by (simp add: refs_ok_def host_of_def)
      show "active_of ?f a + of_bool (holds a (ss_threads s ! t)) = active_of (ss_files s) a + of_bool (holds a ?p)" for a
        unfolding active by (auto simp: t(2) holds_def)
      show "w" if "Waiting a l w \<in> set (ss_threads s)" "active_of ?f a = 0" for a l w
        using woken [OF that(1)] that(2) unfolding active by simp
    qed (simp_all add: t(2))
    then show ?thesis by (intro goes_onI [of _ _ "set_pc t ?p ?f s" rank]) (simp_all add: run)
  qed
qed


lemma count_pos: "q \<in> set ths \<Longrightarrow> P q \<Longrightarrow> 0 < count_pc P ths"
  using count_zero [of P ths] by auto

lemma host_of_cell: "host_of f a = Some h \<Longrightarrow> \<exists>c. fs_cells f a = Some c \<and> fw_host c = Some h"
  by (cases "fs_cells f a") (simp_all add: host_of_def)

lemma one_owner: "of_bool P + c = (of_bool Q :: nat) \<Longrightarrow> 0 < c \<Longrightarrow> Q \<and> \<not> P \<and> c = 1"
  by (cases P; cases Q) simp_all

lemma no_owner: "of_bool P + c = (of_bool Q :: nat) \<Longrightarrow> \<not> Q \<Longrightarrow> c = 0 \<and> \<not> P"
  by (cases P; cases Q) simp_all

lemma release_goes:
  assumes inv: "inv3 rank (ss_files s) (ss_threads s)" and "enabled (Release t) s"
  shows "goes_on (Release t) s"
proof -
  obtain r where t: "t < List.length (ss_threads s)" "ss_threads s ! t = Releasing r"
    using assms(2) by (auto simp: thread_is_def)
  note count = count_invD [OF inv3D(3) [OF inv]]
  have refs: "refs_ok (ss_files s) (Releasing r)" using member_thread [OF t(1) inv] t(2) by simp
  show ?thesis
  proof (cases "sr_wrapper r")
    case None
    have "inv3 rank (ss_files s) ((ss_threads s)[t := Idle])"
      by (rule step_active [OF inv _ t(1)])
         (use None count(4) in \<open>simp_all add: t(2) refs_ok_def same_shape_def holds_def\<close>)
    then show ?thesis
      by (intro goes_onI [of _ _ "set_pc t Idle (ss_files s) s" rank])
         (simp_all add: t None asm2_release_stream_def broadcast_def)
  next
    case (Some a)
    then obtain c where c: "fs_cells (ss_files s) a = Some c"
      using refs host_of_cell [of "ss_files s" a "sr_host r"] by (auto simp: refs_ok_def)
    let ?c = "c\<lparr>fw_active := fw_active c - 1\<rparr>"
    let ?f = "(ss_files s)\<lparr>fs_cells := (fs_cells (ss_files s))(a \<mapsto> ?c)\<rparr>"
    let ?woken = "fw_state c = File_closing \<and> fw_active c - 1 = 0"
    let ?ths = "if ?woken then map wake_pc (ss_threads s) else ss_threads s"
    have "ss_threads s ! t \<in> set (ss_threads s)" using t(1) by simp
    then have "0 < count_pc (holds a) (ss_threads s)"
      by (rule count_pos) (simp add: t(2) holds_def Some)
    then have pos: "0 < unat (fw_active c)" using count(1) [of a] c by (simp add: active_of_def)
    then have more: "fw_active c > 0" by (simp add: word_less_nat_alt)
    then have fewer: "unat (fw_active c - 1) + 1 = unat (fw_active c)"
      using pos unat_minus_one [of "fw_active c"] by auto
    have active: "active_of ?f b + of_bool (b = a) = active_of (ss_files s) b" for b
      using c fewer by (simp add: active_of_def)
    have shape: "same_shape (ss_files s) ?f" using c by (auto simp: same_shape_def views fun_eq_iff)
    have inv': "inv3 rank (ss_files s) ?ths" using inv broadcast_inv3 [OF inv] by simp
    have t': "t < List.length ?ths" "?ths ! t = Releasing r" using t by simp_all
    have "inv3 rank ?f (?ths[t := Idle])"
    proof (rule step_active [OF inv' shape t'(1)])
      show "active_of ?f b + of_bool (holds b (?ths ! t)) = active_of (ss_files s) b + of_bool (holds b Idle)" for b
        using active [of b] unfolding t'(2) by (auto simp: holds_def Some)
      show "w" if w: "Waiting b l w \<in> set ?ths" "active_of ?f b = 0" for b l w
      proof (cases "b = a")
        case False
        then show ?thesis
          using count_invD(4) [OF inv3D(3) [OF inv'] w(1)] w(2) active [of b] by simp
      next
        case True
        have "0 < count_pc (waits_on b) ?ths" by (rule count_pos [OF w(1)]) (simp add: waits_on_def)
        then have "fw_state c = File_closing"
          using count_invD(2) [OF inv3D(3) [OF inv'], of b] c True
          by (simp add: state_of_def split: if_splits)
        moreover have "fw_active c - 1 = 0" using w(2) True by (simp add: active_of_def unat_eq_0)
        ultimately have "Waiting b l w \<in> set (map wake_pc (ss_threads s))" using w(1) by simp
        then show ?thesis using wake_pc_waiting by (metis (no_types, lifting) image_iff set_map)
      qed
      show "plain_pc (?ths ! t)" unfolding t'(2) by simp
      show "plain_pc Idle" "refs_ok (ss_files s) Idle" by (simp_all add: refs_ok_def)
    qed
    moreover have "file_step (Release t) s = Some (broadcast ?woken (set_pc t Idle ?f s))"
      using more by (simp add: t(2) asm2_release_stream_def Some c)
    moreover have "ss_files (broadcast ?woken (set_pc t Idle ?f s)) = ?f"
      and "ss_threads (broadcast ?woken (set_pc t Idle ?f s)) = ?ths[t := Idle]"
      by (simp_all add: broadcast_def map_update)
    ultimately show ?thesis by (metis goes_onI)
  qed
qed

lemma fclose_goes:
  assumes inv: "inv3 rank (ss_files s) (ss_threads s)" and "enabled (Fclose t) s"
  shows "goes_on (Fclose t) s"
proof -
  obtain h where t: "t < List.length (ss_threads s)" "ss_threads s ! t = Detached h"
    using assms(2) by (auto simp: thread_is_def)
  note chain = chain_invD [OF inv3D(1) [OF inv]]
  note owner = owner_invD [OF inv3D(2) [OF inv]]
  note count = count_invD [OF inv3D(3) [OF inv]]
  let ?ths = "(ss_threads s)[t := Idle]"
  have member: "Detached h \<in> set (ss_threads s)" using t by (metis nth_mem)
  obtain n where n: "h = Host_file n" using owner(6) [OF member] by blast
  have one: "0 < count_pc (\<lambda>p. p = Detached h) (ss_threads s)" by (rule count_pos [OF member]) simp
  have "h \<in> dom (fs_hosts (ss_files s))" and unowned: "\<nexists>a. host_of (ss_files s) a = Some h"
    and single: "count_pc (\<lambda>p. p = Detached h) (ss_threads s) = 1"
    using one_owner [OF owner(4) [of n]] one unfolding n by blast+
  then obtain hf where hf: "fs_hosts (ss_files s) h = Some hf" by blast
  let ?f = "(ss_files s)\<lparr>fs_hosts := (fs_hosts (ss_files s))(h := None)\<rparr>"
  have v: "state_of ?f = state_of (ss_files s)" "host_of ?f = host_of (ss_files s)" "active_of ?f = active_of (ss_files s)"
    "next_of ?f = next_of (ss_files s)" "fs_cells ?f = fs_cells (ss_files s)" "fs_heads ?f = fs_heads (ss_files s)"
    "dom (fs_hosts ?f) = dom (fs_hosts (ss_files s)) - {h}"
    by (simp_all add: views fun_eq_iff)
  have waits: "Waiting b l w \<in> set ?ths \<Longrightarrow> Waiting b l w \<in> set (ss_threads s)" for b l w
    using member_update [of "Waiting b l w" "ss_threads s" t Idle] by blast
  have "chain_inv rank ?f ?ths"
    by (rule chain_invI; (unfold v)?) (use chain waits in blast)+
  moreover have "owner_inv ?f ?ths"
  proof (rule owner_invI; (unfold v)?)
    show "of_bool (\<exists>b. host_of (ss_files s) b = Some (Host_file m)) + count_pc (\<lambda>p. p = Detached (Host_file m)) ?ths
        = of_bool (Host_file m \<in> dom (fs_hosts (ss_files s)) - {h})" for m
    proof (cases "m = n")
      case True
      have "count_pc (\<lambda>p. p = Detached h) ?ths + 1 = count_pc (\<lambda>p. p = Detached h) (ss_threads s)"
        using count_update [OF t(1), of "\<lambda>p. p = Detached h" Idle] t(2) by simp
      with single unowned show ?thesis unfolding True n [symmetric] by simp
    next
      case False
      have "count_pc (\<lambda>p. p = Detached (Host_file m)) ?ths = count_pc (\<lambda>p. p = Detached (Host_file m)) (ss_threads s)"
        using count_update [OF t(1), of "\<lambda>p. p = Detached (Host_file m)" Idle] t(2) n False by simp
      with owner(4) [of m] False n show ?thesis by simp
    qed
    show "{Std_in, Std_out, Std_err} \<subseteq> dom (fs_hosts (ss_files s)) - {h}" using owner(5) n by auto
    show "\<exists>n. h' = Host_file n" if "Detached h' \<in> set ?ths" for h'
      using member_update [OF that] owner(6) [of h'] by blast
  qed (use owner(1-3) in blast)+
  moreover have "count_inv ?f ?ths"
  proof (rule count_invI)
    show "count_pc (holds b) ?ths = active_of ?f b" for b
      unfolding v using count_update [OF t(1), of "holds b" Idle] count(1) [of b] t(2) by (simp add: holds_def)
    show "count_pc (waits_on b) ?ths = of_bool (state_of ?f b = Some File_closing)" for b
      unfolding v using count_update [OF t(1), of "waits_on b" Idle] count(2) [of b] t(2) by (simp add: waits_on_def)
    show "refs_ok ?f q" if "q \<in> set ?ths" for q
      using member_update [OF that] count(3) [of q] unfolding refs_ok_def v by auto
    show "w" if "Waiting b l w \<in> set ?ths" "active_of ?f b = 0" for b l w
      using count(4) [OF waits [OF that(1)]] that(2) unfolding v by blast
    show "List.length ?ths < 2 ^ 32" using count(5) by simp
  qed
  ultimately have "inv3 rank ?f ?ths" by (simp add: inv3_def)
  then show ?thesis
    by (intro goes_onI [of _ _ "set_pc t Idle ?f s" rank]) (simp_all add: t host_fclose_def hf)
qed


lemma next_of_cell: "next_of f q = Some n \<Longrightarrow> q \<in> dom (fs_cells f)"
  by (cases "fs_cells f q") (auto simp: next_of_def)

text \<open>What the search of a close finds: the wrapper, and a location from which its chain goes on.\<close>

lemma links_found:
  assumes inv: "inv3 rank f ths"
  obtains l where "follow_links (fs_cells f) (Bucket b) (fs_heads f b) stream = Some (l, None)"
  | l c where "follow_links (fs_cells f) (Bucket b) (fs_heads f b) stream = Some (l, Some stream)"
      "fs_cells f stream = Some c" "\<And>q. l = Next_of q \<Longrightarrow> q \<in> dom (fs_cells f) \<and> rank stream < rank q"
proof -
  note chain = chain_invD [OF inv3D(1) [OF inv]]
  obtain l r where run: "follow_links (fs_cells f) (Bucket b) (fs_heads f b) stream = Some (l, r)"
    and r: "r = None \<or> r = Some stream \<and> stream \<in> dom (fs_cells f) \<and> (\<forall>q. l = Next_of q \<longrightarrow> next_of f q = Some stream)"
    using follow_links_ends [OF inv3D(1) [OF inv], of "fs_heads f b" "Bucket b" stream] chain(2) by blast
  show ?thesis
  proof (cases r)
    case None
    with run that(1) show ?thesis by blast
  next
    case (Some a)
    with r have found: "r = Some stream" "stream \<in> dom (fs_cells f)"
      "\<And>q. l = Next_of q \<Longrightarrow> next_of f q = Some stream" by auto
    then obtain c where "fs_cells f stream = Some c" by blast
    moreover have "q \<in> dom (fs_cells f) \<and> rank stream < rank q" if "l = Next_of q" for q
      using found(3) [OF that] chain(1) [of q stream] next_of_cell [of f q stream] by blast
    ultimately show ?thesis using that(2) run found(1) by blast
  qed
qed

lemma wait_inv:
  assumes inv: "inv3 rank f ths" and t: "t < List.length ths" "ths ! t = Idle"
    and c: "fs_cells f a = Some c" "fw_state c = File_open" "fw_active c \<noteq> 0"
    and l: "\<And>q. l = Next_of q \<Longrightarrow> q \<in> dom (fs_cells f) \<and> rank a < rank q"
  shows "inv3 rank (modify_cell a (\<lambda>c. c\<lparr>fw_state := File_closing\<rparr>) f) (ths[t := Waiting a l False])"
proof -
  let ?f = "modify_cell a (\<lambda>c. c\<lparr>fw_state := File_closing\<rparr>) f" and ?ths = "ths[t := Waiting a l False]"
  note v = modify_state_views [OF c(1), of File_closing]
  note chain = chain_invD [OF inv3D(1) [OF inv]]
  note owner = owner_invD [OF inv3D(2) [OF inv]]
  note count = count_invD [OF inv3D(3) [OF inv]]
  have "state_of f a = Some File_open" using c by (simp add: state_of_def)
  with owner(1) have host: "host_of f a \<noteq> None" by blast
  have active: "active_of f a \<noteq> 0" using c by (simp add: active_of_def unat_eq_0)
  have "chain_inv rank ?f ?ths"
  proof (rule chain_invI; (unfold v)?)
    show "p \<in> dom (fs_cells f) \<and> rank b < rank p" if "Waiting b (Next_of p) w \<in> set ?ths" for b p w
      using member_update [OF that] chain(3) [of b p w] l [of p] by auto
  qed (use chain(1,2) in blast)+
  moreover have "owner_inv ?f ?ths"
  proof (rule owner_invI; (unfold v)?)
    show "st = File_closed \<longleftrightarrow> host_of f b = None" if "((state_of f)(a \<mapsto> File_closing)) b = Some st" for b st
      using that host owner(1) [of b st] by (auto split: if_splits)
    show "of_bool (\<exists>b. host_of f b = Some (Host_file n)) + count_pc (\<lambda>p. p = Detached (Host_file n)) ?ths
        = of_bool (Host_file n \<in> dom (fs_hosts f))" for n
      using owner(4) [of n] count_update [OF t(1), of "\<lambda>p. p = Detached (Host_file n)" "Waiting a l False"] t(2) by simp
    show "\<exists>n. h = Host_file n" if "Detached h \<in> set ?ths" for h
      using member_update [OF that] owner(6) [of h] by blast
  qed (use owner(2,3,5) in blast)+
  moreover have "count_inv ?f ?ths"
  proof (rule count_invI)
    show "count_pc (holds b) ?ths = active_of ?f b" for b
      unfolding v using count_update [OF t(1), of "holds b" "Waiting a l False"] count(1) [of b] t(2)
      by (simp add: holds_def)
    show "count_pc (waits_on b) ?ths = of_bool (state_of ?f b = Some File_closing)" for b
      unfolding v using count_update [OF t(1), of "waits_on b" "Waiting a l False"] count(2) [of b] t(2)
        \<open>state_of f a = Some File_open\<close>
      by (auto simp: waits_on_def)
    show "refs_ok ?f q" if "q \<in> set ?ths" for q
      using member_update [OF that] count(3) [of q] unfolding refs_ok_def v by auto
    show "w" if "Waiting b l' w \<in> set ?ths" "active_of ?f b = 0" for b l' w
      using member_update [OF that(1)] count(4) [of b l' w] that(2) active unfolding v by auto
    show "List.length ?ths < 2 ^ 32" using count(5) by simp
  qed
  ultimately show ?thesis by (simp add: inv3_def)
qed

lemma open_cell_host:
  assumes "inv3 rank f ths" and "fs_cells f a = Some c" and "fw_state c \<noteq> File_closed"
  obtains h where "fw_host c = Some h"
  using owner_invD(1) [OF inv3D(2) [OF assms(1)], of a "fw_state c"] assms(2,3) by (auto simp: views)

lemma close_goes:
  assumes inv: "inv3 rank (ss_files s) (ss_threads s)" and "enabled (Close t stream) s"
  shows "goes_on (Close t stream) s"
proof -
  have t: "t < List.length (ss_threads s)" "ss_threads s ! t = Idle"
    using assms(2) by (auto simp: thread_is_def)
  let ?b = "asm2_file_bucket stream"
  have idle: "inv3 rank (ss_files s) ((ss_threads s)[t := Idle])"
    using inv t by (metis list_update_id)
  show ?thesis
  proof (rule links_found [OF inv, of ?b stream])
    fix l
    assume "follow_links (fs_cells (ss_files s)) (Bucket ?b) (fs_heads (ss_files s) ?b) stream = Some (l, None)"
    then show ?thesis
      by (intro goes_onI [of _ _ "set_pc t Idle (ss_files s) s" rank])
         (simp_all add: take_file_for_close_def Let_def idle)
  next
    fix l c
    assume run: "follow_links (fs_cells (ss_files s)) (Bucket ?b) (fs_heads (ss_files s) ?b) stream = Some (l, Some stream)"
      and c: "fs_cells (ss_files s) stream = Some c"
      and l: "\<And>q. l = Next_of q \<Longrightarrow> q \<in> dom (fs_cells (ss_files s)) \<and> rank stream < rank q"
    let ?f = "modify_cell stream (\<lambda>c. c\<lparr>fw_state := File_closing\<rparr>) (ss_files s)"
    consider "fw_state c \<noteq> File_open" | "fw_state c = File_open" "fw_active c \<noteq> 0" | "fw_state c = File_open" "fw_active c = 0"
      by blast
    then show ?thesis
    proof cases
      case 1
      then show ?thesis
        by (intro goes_onI [of _ _ "set_pc t Idle (ss_files s) s" rank])
           (simp_all add: take_file_for_close_def Let_def run c idle)
    next
      case 2
      then show ?thesis
        by (intro goes_onI [of _ _ "set_pc t (Waiting stream l False) ?f s" rank])
           (simp_all add: take_file_for_close_def Let_def run c wait_inv [OF inv t c _ _ l])
    next
      case 3
      obtain h where h: "fw_host c = Some h" using open_cell_host [OF inv c] 3(1) by auto
      obtain f' where "detach_file stream l (ss_files s) = Some (Some h, f')"
        "inv3 rank f' ((ss_threads s)[t := Detached h])"
        using detach_inv [OF inv t(1) c h 3(2) _ l] t(2) 3(1) by blast
      then show ?thesis
        using 3 by (intro goes_onI [of _ _ "set_pc t (Detached h) f' s" rank])
          (simp_all add: take_file_for_close_def Let_def run c detach_at_once after_detach_def)
    qed
  qed
qed

lemma waits_on_Waiting: "waits_on b (Waiting a l w) \<longleftrightarrow> a = b"
  by (auto simp: waits_on_def)

lemma wait_again:
  assumes inv: "inv3 rank f ths" and t: "t < List.length ths" "ths ! t = Waiting a l w"
    and c: "fs_cells f a = Some c" "fw_active c \<noteq> 0"
  shows "inv3 rank f (ths[t := Waiting a l False])"
proof -
  let ?ths = "ths[t := Waiting a l False]"
  note count = count_invD [OF inv3D(3) [OF inv]]
  have active: "active_of f a \<noteq> 0" using c by (simp add: active_of_def unat_eq_0)
  have waits: "\<exists>w'. Waiting b l' w' \<in> set ths" if "Waiting b l' w \<in> set ?ths" for b l' w
    using member_update [OF that] t by (metis nth_mem pc.inject(5))
  have detached: "Detached h \<in> set ths" if "Detached h \<in> set ?ths" for h
    using member_update [OF that] by blast
  have counts: "count_pc (\<lambda>p. p = Detached h) ?ths = count_pc (\<lambda>p. p = Detached h) ths"
    "count_pc (holds b) ?ths = count_pc (holds b) ths" "count_pc (waits_on b) ?ths = count_pc (waits_on b) ths" for h b
    using count_update [OF t(1), of "\<lambda>p. p = Detached h" "Waiting a l False"]
      count_update [OF t(1), of "holds b" "Waiting a l False"] count_update [OF t(1), of "waits_on b" "Waiting a l False"] t(2)
    by (simp_all add: holds_def waits_on_Waiting)
  have "chain_inv rank f ?ths"
    by (rule chain_invI) (use chain_invD [OF inv3D(1) [OF inv]] waits in blast)+
  moreover have "owner_inv f ?ths"
    by (rule owner_invI; (unfold counts)?) (use owner_invD [OF inv3D(2) [OF inv]] detached in blast)+
  moreover have "count_inv f ?ths"
  proof (rule count_invI; (unfold counts)?)
    show "refs_ok f q" if "q \<in> set ?ths" for q
      using member_update [OF that] count(3) [of q] by (auto simp: refs_ok_def)
    show "w" if "Waiting b l' w \<in> set ?ths" "active_of f b = 0" for b l' w
      using member_update [OF that(1)] count(4) [of b l' w] that(2) active by auto
    show "List.length ?ths < 2 ^ 32" using count(5) by simp
  qed (use count(1,2) in blast)+
  ultimately show ?thesis by (simp add: inv3_def)
qed

lemma wake_goes:
  assumes inv: "inv3 rank (ss_files s) (ss_threads s)" and "enabled (Wake t) s"
  shows "goes_on (Wake t) s"
proof -
  obtain a l w where t: "t < List.length (ss_threads s)" "ss_threads s ! t = Waiting a l w"
    using assms(2) by (auto simp: thread_is_def)
  note count = count_invD [OF inv3D(3) [OF inv]]
  have member: "Waiting a l w \<in> set (ss_threads s)" using t by (metis nth_mem)
  have "0 < count_pc (waits_on a) (ss_threads s)" by (rule count_pos [OF member]) (simp add: waits_on_def)
  then have closing: "state_of (ss_files s) a = Some File_closing" using count(2) [of a] by (simp split: if_splits)
  then obtain c where c: "fs_cells (ss_files s) a = Some c" "fw_state c = File_closing" by (auto simp: state_of_def)
  have l: "q \<in> dom (fs_cells (ss_files s)) \<and> rank a < rank q" if "l = Next_of q" for q
    using chain_invD(3) [OF inv3D(1) [OF inv]] member that by blast
  show ?thesis
  proof (cases "fw_active c = 0")
    case True
    obtain h where h: "fw_host c = Some h" using open_cell_host [OF inv c(1)] c(2) by auto
    obtain f' where "detach_file a l (ss_files s) = Some (Some h, f')"
      "inv3 rank f' ((ss_threads s)[t := Detached h])"
      using detach_inv [OF inv t(1) c(1) h True _ l] t(2) c(2) by blast
    then show ?thesis
      using True by (intro goes_onI [of _ _ "set_pc t (Detached h) f' s" rank]) (simp_all add: t c after_detach_def)
  next
    case False
    have "inv3 rank (ss_files s) ((ss_threads s)[t := Waiting a l False])"
      by (rule wait_again [OF inv t(1,2) c(1) False])
    then show ?thesis
      using False by (intro goes_onI [of _ _ "set_pc t (Waiting a l False) (ss_files s) s" rank]) (simp_all add: t c)
  qed
qed


section \<open>Opening\<close>

lemma wrapped_views:
  assumes "fs_cells f a = None"
  shows "state_of (snd (asm2_wrap_file (Some h) fd mode (Some a) f)) = (state_of f)(a \<mapsto> File_open)"
    "host_of (snd (asm2_wrap_file (Some h) fd mode (Some a) f)) = (host_of f)(a \<mapsto> h)"
    "active_of (snd (asm2_wrap_file (Some h) fd mode (Some a) f)) = active_of f"
    "next_of (snd (asm2_wrap_file (Some h) fd mode (Some a) f)) = (next_of f)(a := fs_heads f (asm2_file_bucket a))"
    "dom (fs_cells (snd (asm2_wrap_file (Some h) fd mode (Some a) f))) = insert a (dom (fs_cells f))"
    "fs_heads (snd (asm2_wrap_file (Some h) fd mode (Some a) f)) = (fs_heads f)(asm2_file_bucket a \<mapsto> a)"
    "fs_hosts (snd (asm2_wrap_file (Some h) fd mode (Some a) f)) = fs_hosts f"
  using assms by (auto simp: asm2_wrap_file_def Let_def new_wrapper_def views fun_eq_iff)

lemma wrap_inv:
  assumes inv: "inv3 rank f ths" and h: "fs_hosts f (Host_file n) = None" and a: "fs_cells f a = None"
  shows "inv3 (rank(a := Suc (Max (range rank))))
     (snd (asm2_wrap_file (Some (Host_file n)) fd mode (Some a) (f\<lparr>fs_hosts := (fs_hosts f)(Host_file n \<mapsto> hf)\<rparr>))) ths"
proof -
  let ?f1 = "f\<lparr>fs_hosts := (fs_hosts f)(Host_file n \<mapsto> hf)\<rparr>"
  let ?f = "snd (asm2_wrap_file (Some (Host_file n)) fd mode (Some a) ?f1)"
  let ?rank = "rank(a := Suc (Max (range rank)))"
  have v1: "state_of ?f1 = state_of f" "host_of ?f1 = host_of f" "active_of ?f1 = active_of f" "next_of ?f1 = next_of f"
    "fs_cells ?f1 = fs_cells f" "fs_heads ?f1 = fs_heads f" "fs_hosts ?f1 = (fs_hosts f)(Host_file n \<mapsto> hf)"
    by (simp_all add: views fun_eq_iff)
  have "fs_cells ?f1 a = None" using a by simp
  note v = wrapped_views [OF this, unfolded v1, of "Host_file n" fd mode]
  note chain = chain_invD [OF inv3D(1) [OF inv]]
  note owner = owner_invD [OF inv3D(2) [OF inv]]
  note count = count_invD [OF inv3D(3) [OF inv]]
  have blank: "state_of f a = None" "host_of f a = None" "active_of f a = 0" using a by (simp_all add: views)
  have below: "rank b < Suc (Max (range rank))" for b by (simp add: less_Suc_eq_le)
  have no_wait: "Waiting a l w \<notin> set ths" for l w
    using count(2) [of a] blank(1) by (auto simp: count_zero waits_on_def)
  have unused: "count_pc (\<lambda>p. p = Detached (Host_file n)) ths = 0" "\<nexists>b. host_of f b = Some (Host_file n)"
    using no_owner [OF owner(4) [of n]] h by auto
  have "chain_inv ?rank ?f ths"
  proof (rule chain_invI; (unfold v)?)
    show "m \<in> insert a (dom (fs_cells f)) \<and> ?rank m < ?rank b"
      if "((next_of f)(a := fs_heads f (asm2_file_bucket a))) b = Some m" for b m
    proof (cases "b = a")
      case True
      then have "m \<in> dom (fs_cells f)" using that chain(2) by auto
      with a have "m \<noteq> a" by auto
      then show ?thesis using True \<open>m \<in> dom (fs_cells f)\<close> below by simp
    next
      case False
      then have "m \<in> dom (fs_cells f) \<and> rank m < rank b" using that chain(1) by simp
      moreover from this a have "m \<noteq> a" by auto
      ultimately show ?thesis using False by simp
    qed
    show "m \<in> insert a (dom (fs_cells f))" if "((fs_heads f)(asm2_file_bucket a \<mapsto> a)) b = Some m" for b m
      using that chain(2) [of b m] by (auto split: if_splits)
    show "p \<in> insert a (dom (fs_cells f)) \<and> ?rank b < ?rank p" if "Waiting b (Next_of p) w \<in> set ths" for b p w
    proof -
      have "p \<in> dom (fs_cells f)" "rank b < rank p" using chain(3) [OF that] by blast+
      moreover have "b \<noteq> a" using that no_wait by blast
      moreover have "p \<noteq> a" using \<open>p \<in> dom (fs_cells f)\<close> a by auto
      ultimately show ?thesis by simp
    qed
  qed
  moreover have "owner_inv ?f ths"
  proof (rule owner_invI; (unfold v)?)
    show "st = File_closed \<longleftrightarrow> ((host_of f)(a \<mapsto> Host_file n)) b = None"
      if "((state_of f)(a \<mapsto> File_open)) b = Some st" for b st
      using that owner(1) [of b st] by (auto split: if_splits)
    show "\<exists>m. h' = Host_file m" if "((host_of f)(a \<mapsto> Host_file n)) b = Some h'" for b h'
      using that owner(2) [of b h'] by (auto split: if_splits)
    show "b = d" if "((host_of f)(a \<mapsto> Host_file n)) b = Some h'" "((host_of f)(a \<mapsto> Host_file n)) d = Some h'" for b d h'
      using that owner(3) [of b h' d] unused(2) by (auto split: if_splits)
    show "of_bool (\<exists>b. ((host_of f)(a \<mapsto> Host_file n)) b = Some (Host_file m))
        + count_pc (\<lambda>p. p = Detached (Host_file m)) ths
        = of_bool (Host_file m \<in> dom ((fs_hosts f)(Host_file n \<mapsto> hf)))" for m
    proof (cases "m = n")
      case True
      have "\<exists>b. ((host_of f)(a \<mapsto> Host_file n)) b = Some (Host_file n)" by (rule exI [of _ a]) simp
      then show ?thesis using True unused(1) by simp
    next
      case False
      then have "(\<exists>b. ((host_of f)(a \<mapsto> Host_file n)) b = Some (Host_file m)) \<longleftrightarrow> (\<exists>b. host_of f b = Some (Host_file m))"
        using blank(2) by (metis fun_upd_other fun_upd_same host_ref.inject option.inject option.distinct(1))
      then show ?thesis using owner(4) [of m] False by simp
    qed
    show "{Std_in, Std_out, Std_err} \<subseteq> dom ((fs_hosts f)(Host_file n \<mapsto> hf))" using owner(5) by auto
    show "\<exists>m. h' = Host_file m" if "Detached h' \<in> set ths" for h' using owner(6) [OF that] .
  qed
  moreover have "count_inv ?f ths"
  proof (rule count_invI)
    show "count_pc (holds b) ths = active_of ?f b" for b unfolding v by (rule count(1))
    show "count_pc (waits_on b) ths = of_bool (state_of ?f b = Some File_closing)" for b
      unfolding v using count(2) [of b] blank(1) by auto
    show "refs_ok ?f q" if "q \<in> set ths" for q
      using count(3) [OF that] blank(2) unfolding refs_ok_def v by (auto split: option.splits)
    show "w" if "Waiting b l w \<in> set ths" "active_of ?f b = 0" for b l w
      using count(4) [OF that(1)] that(2) unfolding v by blast
    show "List.length ths < 2 ^ 32" by (rule count(5))
  qed
  ultimately show ?thesis by (simp add: inv3_def)
qed

lemma open_goes:
  assumes inv: "inv3 rank (ss_files s) (ss_threads s)" and "enabled (Open_file host hf fd mode alloc) s"
  shows "goes_on (Open_file host hf fd mode alloc) s"
proof (cases host)
  case None
  then show ?thesis by (intro goes_onI [of _ _ s rank]) (simp_all add: asm2_wrap_file_def inv)
next
  case (Some h)
  obtain n where n: "h = Host_file n" "fs_hosts (ss_files s) (Host_file n) = None"
    using assms(2) Some by (cases h) simp_all
  show ?thesis
  proof (cases alloc)
    case None
    have "(fs_hosts (ss_files s))(h \<mapsto> hf, h := None) = fs_hosts (ss_files s)" using n by (simp add: fun_eq_iff)
    then show ?thesis
      by (intro goes_onI [of _ _ s rank]) (simp_all add: asm2_wrap_file_def Some None inv)
  next
    case new: (Some a)
    have "fs_cells (ss_files s) a = None" using assms(2) Some new by simp
    from wrap_inv [OF inv n(2) this, of fd mode hf] show ?thesis
      by (intro goes_onI [of _ _ "s\<lparr>ss_files := snd (asm2_wrap_file (Some (Host_file n)) fd mode (Some a)
            ((ss_files s)\<lparr>fs_hosts := (fs_hosts (ss_files s))(Host_file n \<mapsto> hf)\<rparr>))\<rparr>"
            "rank(a := Suc (Max (range rank)))"])
         (simp_all add: Some new n(1) Let_def)
  qed
qed

lemma event_goes: "stream_inv s \<Longrightarrow> enabled e s \<Longrightarrow> goes_on e s"
  unfolding stream_inv_inv3
  by (cases e)
     (blast intro: open_goes acquire_goes apply_goes call_goes sync_goes release_goes close_goes wake_goes fclose_goes
       guest_writes_goes)+

lemma reach_inv: "streams_reach s0 s \<Longrightarrow> stream_inv s0 \<Longrightarrow> stream_inv s"
proof (induction rule: streams_reach.induct)
  case (step s e s')
  then show ?case using event_goes [of s e] by (auto simp: goes_on_def)
qed

end
