(* ===== verification/Asm2_StreamProps.thy ===== *)
theory Asm2_StreamProps
  imports Asm2_StreamEvents
begin

text \<open>
  What the guest and the host can rely on: no call ever touches a stream of the host that is not open, a close
  waits for the calls in progress and is not left waiting, and, as long as no close has to wait, a stream is
  accepted exactly when it has been opened and not closed.  When a close does wait, a stream opened meanwhile
  in the same bucket can be lost.
\<close>

section \<open>Every interleaving\<close>

lemma reached:
  assumes "streams_reach (streams_start sF n images std) s" and "n < 2 ^ 32"
  obtains rank where "inv3 rank (ss_files s) (ss_threads s)"
  using reach_inv [OF assms(1) streams_start_inv [OF assms(2)]] by (auto simp: stream_inv_inv3)

lemma follow_simps:
  "follow_chain cells None x = Some None"
  "follow_chain cells (Some a) x = (if a = x then Some (Some a)
     else case cells a of None \<Rightarrow> None | Some c \<Rightarrow> follow_chain cells (fw_hash_next c) x)"
  "follow_links cells l None x = Some (l, None)"
  "follow_links cells l (Some a) x = (if a = x then Some (l, Some a)
     else case cells a of None \<Rightarrow> None | Some c \<Rightarrow> follow_links cells (Next_of a) (fw_hash_next c) x)"
  by (subst follow_chain.simps follow_links.simps, simp)+

definition lost_start :: stream_system where
  "lost_start = streams_start 0x100 2 (\<lambda>_. replicate 84 0) (\<lambda>_. \<lparr>hf_eof = False, hf_error = False, hf_data = []\<rparr>)"

lemma file_steps_reach: "file_steps es s = Some s' \<Longrightarrow> streams_reach s0 s \<Longrightarrow> streams_reach s0 s'"
  by (induction es arbitrary: s) (auto split: if_splits option.splits intro: streams_reach.step)

lemma same_bucket: "asm2_file_bucket 0x1000 = 0x10" "asm2_file_bucket 0x1808 = 0x10"
  by (simp_all add: asm2_file_bucket_def)

lemma two_threads: "replicate 2 Idle = [Idle, Idle]"
  by (simp add: numeral_2_eq_2)

lemmas run_simps = two_threads lost_start_def streams_start_def thread_is_def asm2_wrap_file_def Let_def new_wrapper_def
  same_bucket acquire_locked_def asm2_standard_stream_def asm2_find_active_file_locked_def follow_simps modify_cell_def
  set_pc_def take_file_for_close_def asm2_apply_guest_cleared_flags_def asm2_stream_image_def use_host_def
  cleared_by_guest_def asm2_release_stream_def broadcast_def detach_file_def write_link_def after_detach_def

abbreviation open_first :: file_event where
  "open_first \<equiv> Open_file (Some (Host_file 1)) \<lparr>hf_eof = False, hf_error = False, hf_data = []\<rparr> 3 None (Some 0x1000)"

lemma opened_run:
  "\<exists>s. file_steps [open_first] lost_start = Some s \<and> ss_threads s = [Idle, Idle]
     \<and> state_of (ss_files s) 0x1000 = Some File_open \<and> fs_sF (ss_files s) = 0x100"
  by (simp add: run_simps views)

lemma reading_run:
  "\<exists>s. file_steps [open_first, Acquire 0 0x1000] lost_start = Some s
     \<and> ss_threads s = [Acquired 0x1000 \<lparr>sr_host = Host_file 1, sr_wrapper = Some 0x1000\<rparr>, Idle]"
  by (simp add: run_simps)

lemma closing_run:
  "\<exists>s. file_steps [open_first, Acquire 0 0x1000, Close 1 0x1000] lost_start = Some s
     \<and> ss_threads s = [Acquired 0x1000 \<lparr>sr_host = Host_file 1, sr_wrapper = Some 0x1000\<rparr>, Waiting 0x1000 (Bucket 0x10) False]"
  by (simp add: run_simps)

text \<open>C34. No call is a fault: in every interleaving of opens, calls, closes and writes of the guest into its
  own streams, every step that can come next is defined, so no pointer of a chain is followed that is none, no
  chain is followed for ever, and no stream of the host is used or closed that is not open.\<close>

theorem stream_steps_defined:
  assumes "streams_reach (streams_start sF n images std) s" and "n < 2 ^ 32" and "enabled e s"
  shows "\<exists>s'. file_step e s = Some s'"
  using event_goes [OF reach_inv [OF assms(1) streams_start_inv [OF assms(2)]] assms(3)] by (auto simp: goes_on_def)

theorem stream_steps_defined_witness: "\<exists>s'. file_step (Acquire 0 0x1000) lost_start = Some s'"
proof -
  have "streams_reach lost_start lost_start" by (rule streams_reach.start)
  moreover have "enabled (Acquire 0 0x1000) lost_start" by (simp add: thread_is_def lost_start_def streams_start_def)
  ultimately show ?thesis using stream_steps_defined unfolding lost_start_def by fastforce
qed

text \<open>C35. A close takes nothing away from a call in progress: a thread between the start and the end of a call
  on a wrapper has the wrapper's own host stream, which is open, and no thread is about to close it; the
  count of the wrapper is the number of such threads.\<close>

theorem call_keeps_stream:
  assumes "streams_reach (streams_start sF n images std) s" and "n < 2 ^ 32"
    and "p \<in> set (ss_threads s)" and "pc_ref p = Some r" and "sr_wrapper r = Some a"
  shows "host_of (ss_files s) a = Some (sr_host r) \<and> sr_host r \<in> dom (fs_hosts (ss_files s))
     \<and> Detached (sr_host r) \<notin> set (ss_threads s)
     \<and> active_of (ss_files s) a = count_pc (holds a) (ss_threads s)"
proof -
  obtain rank where inv: "inv3 rank (ss_files s) (ss_threads s)" by (rule reached [OF assms(1,2)])
  note owner = owner_invD [OF inv3D(2) [OF inv]]
  note count = count_invD [OF inv3D(3) [OF inv]]
  have host: "host_of (ss_files s) a = Some (sr_host r)"
    using count(3) [OF assms(3)] assms(4,5) by (simp add: refs_ok_def)
  obtain m where m: "sr_host r = Host_file m" using owner(2) [OF host] by blast
  have "count_pc (\<lambda>p. p = Detached (Host_file m)) (ss_threads s) = 0 \<and> Host_file m \<in> dom (fs_hosts (ss_files s))"
    using owner(4) [of m] host m
    by (cases "Host_file m \<in> dom (fs_hosts (ss_files s))"; cases "\<exists>a. host_of (ss_files s) a = Some (Host_file m)") auto
  then show ?thesis using host m count(1) [of a] by (auto simp: count_zero)
qed

theorem call_keeps_stream_witness:
  "\<exists>s r. streams_reach lost_start s \<and> Acquired 0x1000 r \<in> set (ss_threads s)
     \<and> host_of (ss_files s) 0x1000 = Some (sr_host r) \<and> sr_host r \<in> dom (fs_hosts (ss_files s))
     \<and> Detached (sr_host r) \<notin> set (ss_threads s)
     \<and> active_of (ss_files s) 0x1000 = count_pc (holds 0x1000) (ss_threads s)"
proof -
  let ?r = "\<lparr>sr_host = Host_file 1, sr_wrapper = Some 0x1000\<rparr>"
  obtain s where run: "file_steps [open_first, Acquire 0 0x1000] lost_start = Some s"
    and threads: "ss_threads s = [Acquired 0x1000 ?r, Idle]" using reading_run by blast
  have reach: "streams_reach lost_start s" by (rule file_steps_reach [OF run streams_reach.start])
  have member: "Acquired 0x1000 ?r \<in> set (ss_threads s)" by (simp add: threads)
  from call_keeps_stream [OF reach [unfolded lost_start_def] _ member, where r = ?r and a = "0x1000"] reach member show ?thesis
    by (intro exI [of _ s] exI [of _ ?r]) simp
qed

text \<open>C36. A close is not stranded: a thread that waits in a close waits for another thread that is in a call on
  the same wrapper, or it has been woken, and its next step ends the wait with the host stream to close.\<close>

theorem close_not_stranded:
  assumes "streams_reach (streams_start sF n images std) s" and "n < 2 ^ 32"
    and "t < List.length (ss_threads s)" and "ss_threads s ! t = Waiting a l w"
  shows "(\<exists>u < List.length (ss_threads s). u \<noteq> t \<and> holds a (ss_threads s ! u))
     \<or> w \<and> (\<exists>s' h. file_step (Wake t) s = Some s' \<and> ss_threads s' = (ss_threads s)[t := Detached h]
            \<and> h \<in> dom (fs_hosts (ss_files s')))"
proof (cases "active_of (ss_files s) a = 0")
  case False
  obtain rank where inv: "inv3 rank (ss_files s) (ss_threads s)" by (rule reached [OF assms(1,2)])
  have "count_pc (holds a) (ss_threads s) \<noteq> 0" using False count_invD(1) [OF inv3D(3) [OF inv]] by simp
  then obtain p where "p \<in> set (ss_threads s)" "holds a p" by (auto simp: count_zero)
  moreover have "\<not> holds a (ss_threads s ! t)" by (simp add: assms(4) holds_def)
  ultimately show ?thesis by (metis in_set_conv_nth)
next
  case True
  obtain rank where inv: "inv3 rank (ss_files s) (ss_threads s)" by (rule reached [OF assms(1,2)])
  note owner = owner_invD [OF inv3D(2) [OF inv]]
  note count = count_invD [OF inv3D(3) [OF inv]]
  have member: "Waiting a l w \<in> set (ss_threads s)" using assms(3,4) by (metis nth_mem)
  have w: "w" using count(4) [OF member True] .
  have "0 < count_pc (waits_on a) (ss_threads s)" by (rule count_pos [OF member]) (simp add: waits_on_def)
  then have "state_of (ss_files s) a = Some File_closing" using count(2) [of a] by (simp split: if_splits)
  then obtain c where c: "fs_cells (ss_files s) a = Some c" "fw_state c = File_closing" by (auto simp: state_of_def)
  then have zero: "fw_active c = 0" using True by (simp add: active_of_def unat_eq_0)
  obtain h where h: "fw_host c = Some h" using open_cell_host [OF inv c(1)] c(2) by auto
  have "\<And>q. l = Next_of q \<Longrightarrow> q \<in> dom (fs_cells (ss_files s)) \<and> rank a < rank q"
    using chain_invD(3) [OF inv3D(1) [OF inv]] member by blast
  then obtain f' where run: "detach_file a l (ss_files s) = Some (Some h, f')"
    and inv': "inv3 rank f' ((ss_threads s)[t := Detached h])"
    using detach_inv [OF inv assms(3) c(1) h zero] assms(4) c(2) by blast
  have "Detached h \<in> set ((ss_threads s)[t := Detached h])" using assms(3) by (simp add: set_update_memI)
  then have "0 < count_pc (\<lambda>p. p = Detached h) ((ss_threads s)[t := Detached h])" by (rule count_pos) simp
  moreover obtain m where "h = Host_file m"
    using owner(2) [of a h] c(1) h by (auto simp: host_of_def)
  ultimately have "h \<in> dom (fs_hosts f')" using one_owner [OF owner_invD(4) [OF inv3D(2) [OF inv'], of m]] by blast
  moreover have "file_step (Wake t) s = Some (set_pc t (Detached h) f' s)"
    using run zero by (simp add: assms(4) c after_detach_def)
  ultimately show ?thesis
    using w by (intro disjI2 conjI exI [of _ "set_pc t (Detached h) f' s"] exI [of _ h]) simp_all
qed

theorem close_not_stranded_witness:
  "\<exists>s. streams_reach lost_start s \<and> ss_threads s ! 1 = Waiting 0x1000 (Bucket 0x10) False
     \<and> (\<exists>u < List.length (ss_threads s). u \<noteq> 1 \<and> holds 0x1000 (ss_threads s ! u))"
proof -
  obtain s where run: "file_steps [open_first, Acquire 0 0x1000, Close 1 0x1000] lost_start = Some s"
    and threads: "ss_threads s = [Acquired 0x1000 \<lparr>sr_host = Host_file 1, sr_wrapper = Some 0x1000\<rparr>,
       Waiting 0x1000 (Bucket 0x10) False]" using closing_run by blast
  have reach: "streams_reach lost_start s" by (rule file_steps_reach [OF run streams_reach.start])
  have waiting: "1 < List.length (ss_threads s)" "ss_threads s ! 1 = Waiting 0x1000 (Bucket 0x10) False"
    by (simp_all add: threads)
  from close_not_stranded [OF reach [unfolded lost_start_def] _ waiting] reach waiting show ?thesis by auto
qed

section \<open>Without a waiting close\<close>

fun path :: "(u32 \<Rightarrow> u32 option) \<Rightarrow> u32 option \<Rightarrow> u32 list \<Rightarrow> bool" where
  "path nx p [] \<longleftrightarrow> p = None"
| "path nx p (a # as) \<longleftrightarrow> p = Some a \<and> path nx (nx a) as"

lemma path_cong: "(\<And>a. a \<in> set as \<Longrightarrow> nx' a = nx a) \<Longrightarrow> path nx' p as = path nx p as"
  by (induction as arbitrary: p) auto

lemma path_other: "a \<notin> set as \<Longrightarrow> path (nx(a := z)) p as = path nx p as"
  by (rule path_cong) auto

lemma path_remove:
  "path nx p (xs @ q # a # ys) \<Longrightarrow> distinct (xs @ q # a # ys) \<Longrightarrow> path (nx(q := nx a, a := None)) p (xs @ q # ys)"
proof (induction xs arbitrary: p)
  case Nil
  then have ne: "q \<noteq> a" and rest: "path nx (nx a) ys" "q \<notin> set ys" "a \<notin> set ys" by auto
  have "path (nx(q := nx a, a := None)) (nx a) ys = path nx (nx a) ys" using rest by (intro path_cong) auto
  moreover have "(nx(q := nx a, a := None)) q = nx a" using ne by simp
  ultimately show ?case using Nil(1) rest(1) by (simp del: fun_upd_apply)
next
  case (Cons x xs)
  then show ?case by auto
qed

lemma path_remove_first: "path nx p (a # ys) \<Longrightarrow> distinct (a # ys) \<Longrightarrow> path (nx(a := None)) (nx a) ys"
proof -
  assume "path nx p (a # ys)" and d: "distinct (a # ys)"
  then have rest: "path nx (nx a) ys" by simp
  have "path (nx(a := None)) (nx a) ys = path nx (nx a) ys" using d by (intro path_cong) auto
  with rest show ?thesis by simp
qed

text \<open>Every chain holds exactly the open wrappers of its bucket.\<close>

definition chains_exact :: "files \<Rightarrow> bool" where
  "chains_exact f \<longleftrightarrow> (\<forall>b. \<exists>as. path (next_of f) (fs_heads f b) as \<and> distinct as
     \<and> set as = {a. state_of f a = Some File_open \<and> asm2_file_bucket a = b})"

lemma follow_chain_path:
  "path (next_of f) p as \<Longrightarrow> set as \<subseteq> dom (fs_cells f) \<Longrightarrow>
     follow_chain (fs_cells f) p stream = Some (if stream \<in> set as then Some stream else None)"
proof (induction as arbitrary: p)
  case Nil
  then show ?case by (subst follow_chain.simps) simp
next
  case (Cons a as)
  then obtain c where c: "fs_cells f a = Some c" by auto
  have "follow_chain (fs_cells f) (fw_hash_next c) stream = Some (if stream \<in> set as then Some stream else None)"
    using Cons c by (simp add: next_of_def)
  then show ?case using Cons.prems c by (subst follow_chain.simps) auto
qed

lemma follow_links_path:
  "path (next_of f) p (xs @ a # ys) \<Longrightarrow> a \<notin> set xs \<Longrightarrow> set xs \<subseteq> dom (fs_cells f) \<Longrightarrow>
     follow_links (fs_cells f) l p a = Some (if xs = [] then l else Next_of (last xs), Some a)"
proof (induction xs arbitrary: p l)
  case Nil
  then show ?case by (subst follow_links.simps) simp
next
  case (Cons x xs)
  then obtain c where c: "fs_cells f x = Some c" by auto
  have "follow_links (fs_cells f) (Next_of x) (fw_hash_next c) a
      = Some (if xs = [] then Next_of x else Next_of (last xs), Some a)"
    using Cons c by (simp add: next_of_def)
  then show ?case using Cons.prems c by (subst follow_links.simps) auto
qed


text \<open>The steps that change no chain and no state.\<close>

definition same_chains :: "files \<Rightarrow> files \<Rightarrow> bool" where
  "same_chains f f' \<longleftrightarrow> next_of f' = next_of f \<and> fs_heads f' = fs_heads f \<and> state_of f' = state_of f"

lemma same_chains_exact: "same_chains f f' \<Longrightarrow> chains_exact f' = chains_exact f"
  by (simp add: same_chains_def chains_exact_def)

lemma same_chains_refl [simp]: "same_chains f f"
  by (simp add: same_chains_def)

lemma same_views_chains: "same_views f f' \<Longrightarrow> same_chains f f'"
  by (simp add: same_views_def same_chains_def)

lemma exact_opened:
  assumes exact: "chains_exact f" and a: "fs_cells f a = None"
  shows "chains_exact (snd (asm2_wrap_file (Some h) fd mode (Some a) f))"
proof -
  note v = wrapped_views [OF a, of h fd mode]
  have blank: "state_of f a = None" using a by (simp add: state_of_def)
  have "\<exists>as. path ((next_of f)(a := fs_heads f (asm2_file_bucket a))) (((fs_heads f)(asm2_file_bucket a \<mapsto> a)) b) as
      \<and> distinct as
      \<and> set as = {x. ((state_of f)(a \<mapsto> File_open)) x = Some File_open \<and> asm2_file_bucket x = b}" for b
  proof -
    obtain as where as: "path (next_of f) (fs_heads f b) as" "distinct as"
      "set as = {x. state_of f x = Some File_open \<and> asm2_file_bucket x = b}"
      using exact unfolding chains_exact_def by blast
    have out: "a \<notin> set as" using as(3) blank by simp
    have keep: "path ((next_of f)(a := fs_heads f (asm2_file_bucket a))) (fs_heads f b) as"
      using as(1) unfolding path_other [OF out] .
    show ?thesis
    proof (cases "asm2_file_bucket a = b")
      case True
      have "path ((next_of f)(a := fs_heads f (asm2_file_bucket a))) (Some a) (a # as)"
        using keep True by simp
      then show ?thesis
        using True as(2,3) out by (intro exI [of _ "a # as"]) (auto simp del: fun_upd_apply simp: fun_upd_same fun_upd_def)
    next
      case False
      then show ?thesis using keep as(2,3) by (intro exI [of _ as]) auto
    qed
  qed
  then show ?thesis unfolding chains_exact_def v by blast
qed


text \<open>A close that does not wait takes exactly its wrapper out.\<close>

lemma exact_found:
  assumes exact: "chains_exact f" and a: "fs_cells f a = Some c" "fw_state c = File_open"
  obtains xs ys where "path (next_of f) (fs_heads f (asm2_file_bucket a)) (xs @ a # ys)" "distinct (xs @ a # ys)"
    "set (xs @ a # ys) = {x. state_of f x = Some File_open \<and> asm2_file_bucket x = asm2_file_bucket a}"
    "follow_links (fs_cells f) (Bucket (asm2_file_bucket a)) (fs_heads f (asm2_file_bucket a)) a
       = Some (if xs = [] then Bucket (asm2_file_bucket a) else Next_of (last xs), Some a)"
proof -
  obtain as where as: "path (next_of f) (fs_heads f (asm2_file_bucket a)) as" "distinct as"
    "set as = {x. state_of f x = Some File_open \<and> asm2_file_bucket x = asm2_file_bucket a}"
    using exact unfolding chains_exact_def by blast
  have "a \<in> set as" using as(3) a by (simp add: state_of_def)
  then obtain xs ys where split: "as = xs @ a # ys" by (auto simp: in_set_conv_decomp)
  have "set xs \<subseteq> dom (fs_cells f)"
  proof
    fix x assume "x \<in> set xs"
    then have "x \<in> set as" by (simp add: split)
    then show "x \<in> dom (fs_cells f)" unfolding as(3) by (auto simp: state_of_def)
  qed
  from follow_links_path [OF as(1) [unfolded split] _ this] as split that show ?thesis by auto
qed

lemma exact_detached:
  assumes exact: "chains_exact f" and a: "fs_cells f a = Some c" "fw_state c = File_open"
    and run: "follow_links (fs_cells f) (Bucket (asm2_file_bucket a)) (fs_heads f (asm2_file_bucket a)) a = Some (l, Some a)"
    and gone: "detach_file a l f = Some (h, f')"
  shows "chains_exact f'"
proof -
  let ?b = "asm2_file_bucket a"
  obtain xs ys where as: "path (next_of f) (fs_heads f ?b) (xs @ a # ys)" "distinct (xs @ a # ys)"
    "set (xs @ a # ys) = {x. state_of f x = Some File_open \<and> asm2_file_bucket x = ?b}"
    and found: "follow_links (fs_cells f) (Bucket ?b) (fs_heads f ?b) a
       = Some (if xs = [] then Bucket ?b else Next_of (last xs), Some a)"
    by (rule exact_found [OF exact a])
  have l: "l = (if xs = [] then Bucket ?b else Next_of (last xs))"
    using found unfolding run by (simp only: option.inject prod.inject)
  have last_in: "last xs \<in> dom (fs_cells f) \<and> last xs \<noteq> a \<and> asm2_file_bucket (last xs) = ?b" if "xs \<noteq> []"
  proof -
    have "last xs \<in> set (xs @ a # ys)" "last xs \<in> set xs" using that by simp_all
    then show ?thesis using as(2) unfolding as(3) by (auto simp: state_of_def)
  qed
  have "\<And>q. l = Next_of q \<Longrightarrow> q \<in> dom (fs_cells f) \<and> q \<noteq> a" using last_in l by (auto split: if_splits)
  then obtain f'' where f'': "detach_file a l f = Some (fw_host c, f'')"
    and v: "state_of f'' = (state_of f)(a \<mapsto> File_closed)"
    and nexts: "next_of f'' = (case l of Bucket b \<Rightarrow> (next_of f)(a := None)
       | Next_of q \<Rightarrow> (next_of f)(q := next_of f a, a := None))"
    and heads: "fs_heads f'' = (case l of Bucket b \<Rightarrow> (fs_heads f)(b := next_of f a) | Next_of q \<Rightarrow> fs_heads f)"
    by (rule detach_views [OF a(1)])
  have same: "f'' = f'" using f'' gone by simp
  have "\<exists>zs. path (next_of f'') (fs_heads f'' b) zs \<and> distinct zs
      \<and> set zs = {x. state_of f'' x = Some File_open \<and> asm2_file_bucket x = b}" for b
  proof (cases "b = ?b")
    case True
    have "path (next_of f'') (fs_heads f'' ?b) (xs @ ys)"
    proof (cases xs rule: rev_cases)
      case Nil
      then show ?thesis
        using path_remove_first [of "next_of f" _ a ys] as(1,2) l by (simp add: nexts heads del: fun_upd_apply) simp
    next
      case (snoc us q)
      then show ?thesis
        using path_remove [of "next_of f" "fs_heads f ?b" us q a ys] as(1,2) l by (simp add: nexts heads del: fun_upd_apply)
    qed
    moreover have "distinct (xs @ ys)" using as(2) by simp
    moreover have "set (xs @ ys) = {x. state_of f'' x = Some File_open \<and> asm2_file_bucket x = ?b}"
      using as(2,3) unfolding v by auto
    ultimately show ?thesis using True by blast
  next
    case False
    obtain zs where zs: "path (next_of f) (fs_heads f b) zs" "distinct zs"
      "set zs = {x. state_of f x = Some File_open \<and> asm2_file_bucket x = b}"
      using exact unfolding chains_exact_def by blast
    have "a \<notin> set zs" "xs \<noteq> [] \<Longrightarrow> last xs \<notin> set zs" using zs(3) False last_in by auto
    then have "path (next_of f'') (fs_heads f'' b) zs"
      using zs(1) l False by (auto simp: nexts heads path_other simp del: fun_upd_apply split: if_splits) (simp_all)
    moreover have "set zs = {x. state_of f'' x = Some File_open \<and> asm2_file_bucket x = b}"
      using zs(3) False unfolding v by auto
    ultimately show ?thesis using zs(2) by blast
  qed
  then show ?thesis unfolding chains_exact_def same by blast
qed


definition quiet :: "stream_system \<Rightarrow> bool" where
  "quiet s \<longleftrightarrow> (\<forall>p \<in> set (ss_threads s). \<forall>a. \<not> waits_on a p)"

text \<open>The states that are reached without any close ever having to wait.\<close>

inductive quiet_reach :: "stream_system \<Rightarrow> stream_system \<Rightarrow> bool" for s0 where
  start: "quiet_reach s0 s0"
| step: "quiet_reach s0 s \<Longrightarrow> enabled e s \<Longrightarrow> file_step e s = Some s' \<Longrightarrow> quiet s' \<Longrightarrow> quiet_reach s0 s'"

lemma quiet_reach_reach: "quiet_reach s0 s \<Longrightarrow> streams_reach s0 s"
  by (induction rule: quiet_reach.induct) (auto intro: streams_reach.intros)

lemma shape_chains: "same_shape f f' \<Longrightarrow> same_chains f f'"
  by (simp add: same_shape_def same_chains_def)

text \<open>Every event but an open and a close leaves the chains alone.\<close>

lemma other_step_chains:
  assumes inv: "inv3 rank (ss_files s) (ss_threads s)" and "enabled e s" and "quiet s"
    and step: "file_step e s = Some s'"
    and other: "\<And>host hf fd mode alloc. e \<noteq> Open_file host hf fd mode alloc" "\<And>t stream. e \<noteq> Close t stream"
  shows "same_chains (ss_files s) (ss_files s')"
proof (cases e)
  case (Acquire t stream)
  show ?thesis
  proof (rule acquire_cases [OF inv, of stream])
    fix h c
    assume run: "acquire_locked stream (ss_files s) = Some (Some \<lparr>sr_host = h, sr_wrapper = Some stream\<rparr>,
         modify_cell stream (\<lambda>c. c\<lparr>fw_active := fw_active c + 1\<rparr>) (ss_files s))"
    have "same_shape (ss_files s) (modify_cell stream (\<lambda>c. c\<lparr>fw_active := fw_active c + 1\<rparr>) (ss_files s))"
      by (rule modify_active_shape) simp
    with run step Acquire show ?thesis using shape_chains by auto
  qed (use step Acquire in auto)
next
  case (Apply t)
  obtain x r where t: "t < List.length (ss_threads s)" "ss_threads s ! t = Acquired x r"
    using assms(2) by (auto simp: Apply thread_is_def)
  have "sr_host r \<in> dom (fs_hosts (ss_files s))"
    using held_host_open [OF inv member_thread [OF t(1) inv]] t(2) by simp
  from apply_flags_defined [OF inv this, of x] step t(2) Apply show ?thesis using same_views_chains by auto
next
  case (Call t g b)
  obtain x r where t: "t < List.length (ss_threads s)" "ss_threads s ! t = Applied x r"
    using assms(2) by (auto simp: Call thread_is_def)
  have "sr_host r \<in> dom (fs_hosts (ss_files s))"
    using held_host_open [OF inv member_thread [OF t(1) inv]] t(2) by simp
  from use_host_open [OF this, of "\<lambda>hf. ((), g hf)"] step t(2) Call show ?thesis using same_views_chains by auto
next
  case (Sync t)
  obtain x r where t: "t < List.length (ss_threads s)" "ss_threads s ! t = Called x r"
    using assms(2) by (auto simp: Sync thread_is_def)
  have "sr_host r \<in> dom (fs_hosts (ss_files s))"
    using held_host_open [OF inv member_thread [OF t(1) inv]] t(2) by simp
  from sync_flags_defined [OF inv this, of x] step t(2) Sync show ?thesis using same_views_chains by auto
next
  case (Release t)
  obtain r where t: "ss_threads s ! t = Releasing r" using assms(2) by (auto simp: Release thread_is_def)
  have broadcast_files: "ss_files (broadcast b q) = ss_files q" for b q by (simp add: broadcast_def)
  show ?thesis
  proof (cases "sr_wrapper r")
    case None
    with step Release t show ?thesis by (auto simp: asm2_release_stream_def broadcast_files)
  next
    case (Some a)
    with step Release t show ?thesis
      by (auto simp: asm2_release_stream_def broadcast_files same_chains_def views fun_eq_iff Let_def split: option.splits)
  qed
next
  case (Wake t)
  then obtain a l w where "ss_threads s ! t = Waiting a l w" "t < List.length (ss_threads s)"
    using assms(2) by (auto simp: thread_is_def)
  then have "\<not> quiet s" unfolding quiet_def by (metis nth_mem waits_on_def)
  with assms(3) show ?thesis by blast
next
  case (Fclose t)
  then show ?thesis
    using step by (auto simp: host_fclose_def same_chains_def views fun_eq_iff split: pc.splits option.splits)
next
  case (Guest_writes a img)
  then show ?thesis using step same_views_chains [OF guest_writes_views] by auto
qed (use other in blast)+


lemma open_step_exact:
  assumes exact: "chains_exact (ss_files s)" and "enabled (Open_file host hf fd mode alloc) s"
    and step: "file_step (Open_file host hf fd mode alloc) s = Some s'"
  shows "chains_exact (ss_files s')"
proof -
  let ?f1 = "case host of None \<Rightarrow> ss_files s | Some h \<Rightarrow> (ss_files s)\<lparr>fs_hosts := (fs_hosts (ss_files s))(h \<mapsto> hf)\<rparr>"
  have "same_chains (ss_files s) ?f1" by (simp add: same_chains_def views fun_eq_iff split: option.split)
  then have exact1: "chains_exact ?f1" using exact same_chains_exact by blast
  have s': "ss_files s' = snd (asm2_wrap_file host fd mode alloc ?f1)" using step by (auto simp: Let_def)
  show ?thesis
  proof (cases "\<exists>h a. host = Some h \<and> alloc = Some a")
    case True
    then obtain h a where ha: "host = Some h" "alloc = Some a" by blast
    have "fs_cells ?f1 a = None" using assms(2) ha by simp
    from exact_opened [OF exact1 this] show ?thesis unfolding s' by (simp only: ha)
  next
    case False
    have "same_chains ?f1 (snd (asm2_wrap_file host fd mode alloc ?f1))"
      using False by (cases host; cases alloc) (simp_all add: asm2_wrap_file_def same_chains_def views fun_eq_iff)
    then show ?thesis using exact1 same_chains_exact unfolding s' by blast
  qed
qed

lemma close_step_exact:
  assumes inv: "inv3 rank (ss_files s) (ss_threads s)" and exact: "chains_exact (ss_files s)"
    and "enabled (Close t stream) s" and step: "file_step (Close t stream) s = Some s'" and "quiet s'"
  shows "chains_exact (ss_files s')"
proof -
  have t: "t < List.length (ss_threads s)" using assms(3) by (simp add: thread_is_def)
  let ?b = "asm2_file_bucket stream"
  show ?thesis
  proof (rule links_found [OF inv, of ?b stream])
    fix l
    assume "follow_links (fs_cells (ss_files s)) (Bucket ?b) (fs_heads (ss_files s) ?b) stream = Some (l, None)"
    then show ?thesis using step exact by (auto simp: take_file_for_close_def Let_def)
  next
    fix l c
    assume run: "follow_links (fs_cells (ss_files s)) (Bucket ?b) (fs_heads (ss_files s) ?b) stream = Some (l, Some stream)"
      and c: "fs_cells (ss_files s) stream = Some c"
    consider "fw_state c \<noteq> File_open" | "fw_state c = File_open" "fw_active c \<noteq> 0" | "fw_state c = File_open" "fw_active c = 0"
      by blast
    then show ?thesis
    proof cases
      case 1
      then show ?thesis using step exact run c by (auto simp: take_file_for_close_def Let_def)
    next
      case 2
      then have "Waiting stream l False \<in> set (ss_threads s')"
        using step run c t by (auto simp: take_file_for_close_def Let_def set_update_memI)
      then have "\<not> quiet s'" unfolding quiet_def by (metis waits_on_def)
      with assms(5) show ?thesis by blast
    next
      case 3
      then obtain h f' where gone: "detach_file stream l (ss_files s) = Some (h, f')" and s': "ss_files s' = f'"
        using step run c
        by (cases "detach_file stream l (ss_files s)")
           (auto simp: take_file_for_close_def Let_def detach_at_once after_detach_def)
      show ?thesis unfolding s' by (rule exact_detached [OF exact c 3(1) run gone])
    qed
  qed
qed

lemma quiet_exact:
  "quiet_reach s0 s \<Longrightarrow> stream_inv s0 \<Longrightarrow> quiet s0 \<Longrightarrow> chains_exact (ss_files s0) \<Longrightarrow> quiet s \<and> chains_exact (ss_files s)"
proof (induction rule: quiet_reach.induct)
  case (step s e s')
  then have IH: "quiet s" "chains_exact (ss_files s)" by blast+
  obtain rank where inv: "inv3 rank (ss_files s) (ss_threads s)"
    using reach_inv [OF quiet_reach_reach [OF step.hyps(1)] step.prems(1)] by (auto simp: stream_inv_inv3)
  consider host hf fd mode alloc where "e = Open_file host hf fd mode alloc" | t stream where "e = Close t stream"
    | "\<And>host hf fd mode alloc. e \<noteq> Open_file host hf fd mode alloc" "\<And>t stream. e \<noteq> Close t stream"
    by (cases e) auto
  then have "chains_exact (ss_files s')"
  proof cases
    case 1
    then show ?thesis using open_step_exact IH(2) step.hyps by blast
  next
    case 2
    then show ?thesis using close_step_exact [OF inv IH(2)] step.hyps by blast
  next
    case 3
    from other_step_chains [OF inv step.hyps(2) IH(1) step.hyps(3) 3] IH(2) show ?thesis
      using same_chains_exact by blast
  qed
  then show ?case using step.hyps(4) by blast
qed simp

text \<open>Accepted exactly while it is open: as long as no close has had to wait, a call on a stream of the
  guest is accepted exactly when the stream has been opened and not closed, with the host stream of its
  wrapper, and a close is refused exactly when it is not; a stale stream never reaches a stream of the host.\<close>

theorem quiet_stream_accepted:
  assumes "quiet_reach (streams_start sF n images std) s" and "n < 2 ^ 32"
    and "asm2_standard_stream stream (ss_files s) = None"
  shows "((\<exists>h f. acquire_locked stream (ss_files s) = Some (Some \<lparr>sr_host = h, sr_wrapper = Some stream\<rparr>, f)
              \<and> host_of (ss_files s) stream = Some h)
           \<longleftrightarrow> state_of (ss_files s) stream = Some File_open)
     \<and> ((\<exists>f. acquire_locked stream (ss_files s) = Some (None, f)) \<longleftrightarrow> state_of (ss_files s) stream \<noteq> Some File_open)
     \<and> ((\<exists>f. take_file_for_close stream (ss_files s) = Some (Close_refused, f))
           \<longleftrightarrow> state_of (ss_files s) stream \<noteq> Some File_open)"
proof -
  let ?s0 = "streams_start sF n images std" and ?f = "ss_files s" and ?b = "asm2_file_bucket stream"
  obtain rank where inv: "inv3 rank ?f (ss_threads s)"
    by (rule reached [OF quiet_reach_reach [OF assms(1)] assms(2)])
  have "quiet ?s0" by (simp add: quiet_def streams_start_def waits_on_def)
  moreover have "chains_exact (ss_files ?s0)"
    unfolding chains_exact_def by (intro allI exI [of _ "[]"]) (simp add: streams_start_def views)
  ultimately have exact: "chains_exact ?f"
    using quiet_exact [OF assms(1) streams_start_inv [OF assms(2)]] by blast
  obtain as where as: "path (next_of ?f) (fs_heads ?f ?b) as" "distinct as"
    "set as = {a. state_of ?f a = Some File_open \<and> asm2_file_bucket a = ?b}"
    using exact unfolding chains_exact_def by blast
  have "set as \<subseteq> dom (fs_cells ?f)" unfolding as(3) by (auto simp: state_of_def)
  then have found: "asm2_find_active_file_locked stream ?f
      = Some (if state_of ?f stream = Some File_open then Some stream else None)"
    using follow_chain_path [OF as(1)] by (simp add: asm2_find_active_file_locked_def as(3))
  show ?thesis
  proof (cases "state_of ?f stream = Some File_open")
    case True
    then obtain c where c: "fs_cells ?f stream = Some c" "fw_state c = File_open" by (auto simp: state_of_def)
    obtain h where h: "fw_host c = Some h" using open_cell_host [OF inv c(1)] c(2) by auto
    obtain l where "follow_links (fs_cells ?f) (Bucket ?b) (fs_heads ?f ?b) stream = Some (l, Some stream)"
      using exact_found [OF exact c] by metis
    then have "take_file_for_close stream ?f \<noteq> Some (Close_refused, f)" for f
      using c by (auto simp: take_file_for_close_def Let_def split: option.splits)
    then show ?thesis
      using True found c h assms(3) by (simp add: acquire_locked_def host_of_def)
  next
    case False
    have "take_file_for_close stream ?f = Some (Close_refused, ?f)"
    proof (rule links_found [OF inv, of ?b stream])
      fix l
      assume "follow_links (fs_cells ?f) (Bucket ?b) (fs_heads ?f ?b) stream = Some (l, None)"
      then show ?thesis by (simp add: take_file_for_close_def Let_def)
    next
      fix l c
      assume "follow_links (fs_cells ?f) (Bucket ?b) (fs_heads ?f ?b) stream = Some (l, Some stream)"
        and c: "fs_cells ?f stream = Some c"
      moreover have "fw_state c \<noteq> File_open" using False c by (simp add: state_of_def)
      ultimately show ?thesis by (simp add: take_file_for_close_def Let_def)
    qed
    then show ?thesis
      using False found assms(3) by (simp add: acquire_locked_def)
  qed
qed

theorem quiet_stream_accepted_witness:
  "\<exists>s. quiet_reach lost_start s \<and> (\<exists>h f. acquire_locked 0x1000 (ss_files s)
       = Some (Some \<lparr>sr_host = h, sr_wrapper = Some 0x1000\<rparr>, f) \<and> host_of (ss_files s) 0x1000 = Some h)"
proof -
  obtain s where run: "file_steps [open_first] lost_start = Some s" and threads: "ss_threads s = [Idle, Idle]"
    and opened: "state_of (ss_files s) 0x1000 = Some File_open" and sF: "fs_sF (ss_files s) = 0x100"
    using opened_run by blast
  have "enabled open_first lost_start" "file_step open_first lost_start = Some s"
    using run by (auto split: if_splits option.splits)
  moreover have "quiet s" by (simp add: quiet_def threads waits_on_def)
  ultimately have reach: "quiet_reach lost_start s" by (intro quiet_reach.step [OF quiet_reach.start])
  have "asm2_standard_stream 0x1000 (ss_files s) = None" by (simp add: asm2_standard_stream_def sF)
  from quiet_stream_accepted [OF reach [unfolded lost_start_def] _ this] opened reach show ?thesis by auto
qed

section \<open>A close that waits\<close>

text \<open>One thread opens a stream and reads from it; another closes it and has to wait; the first opens a second
  stream, whose wrapper is in the same bucket, and ends its read; the close goes on.\<close>

definition lost_events :: "file_event list" where
  "lost_events =
     [open_first,
      Acquire 0 0x1000, Close 1 0x1000, Apply 0, Call 0 (\<lambda>hf. hf) False,
      Open_file (Some (Host_file 2)) \<lparr>hf_eof = False, hf_error = False, hf_data = []\<rparr> 4 None (Some 0x1808),
      Release 0, Wake 1]"

lemma stream_opened_during_close_is_lost:
  "\<exists>s. file_steps lost_events lost_start = Some s \<and> state_of (ss_files s) 0x1808 = Some File_open
     \<and> host_of (ss_files s) 0x1808 = Some (Host_file 2)
     \<and> acquire_locked 0x1808 (ss_files s) = Some (None, ss_files s)
     \<and> take_file_for_close 0x1808 (ss_files s) = Some (Close_refused, ss_files s)"
  by (simp add: lost_events_def run_simps views) blast

end
