(* ===== verification/Asm2_StdioCalls.thy ===== *)
theory Asm2_StdioCalls
  imports Asm2_StreamProps
begin

text \<open>
  The stdio functions of \<open>bionic_compat.c\<close> as one thread runs them: each takes a reference, makes the call of
  the same name on the host stream, copies the end-of-file and error flags into the guest's image and
  releases the reference; a stream that is not accepted gives the function's failure value.  The host's
  functions are parameters, on the part of the stream that the bridge can see.
\<close>

section \<open>The functions\<close>

definition stream_call ::
  "bool \<Rightarrow> 'r \<Rightarrow> (host_file \<Rightarrow> 'r \<times> host_file) \<Rightarrow> u32 \<Rightarrow> files \<Rightarrow> ('r \<times> files) option" where
  "stream_call syncs refused g stream f =
     (case asm2_acquire_stream stream f of
        None \<Rightarrow> None
      | Some (None, f1) \<Rightarrow> Some (refused, f1)
      | Some (Some r, f1) \<Rightarrow>
          (case use_host (sr_host r) g f1 of
             None \<Rightarrow> None
           | Some (result, f2) \<Rightarrow>
               (case (if syncs then asm2_sync_stream_flags stream (sr_host r) f2 else Some f2) of
                  None \<Rightarrow> None
                | Some f3 \<Rightarrow> map_option (\<lambda>(_, f4). (result, f4)) (asm2_release_stream r f3))))"

definition clear_both :: "host_file \<Rightarrow> unit \<times> host_file" where
  "clear_both hf = ((), hf\<lparr>hf_eof := False, hf_error := False\<rparr>)"

definition asm2_clearerr :: "u32 \<Rightarrow> files \<Rightarrow> (unit \<times> files) option" where
  "asm2_clearerr = stream_call True () clear_both"

text \<open>\<open>None\<close> is the NULL stream, which flushes everything: \<open>flush_all\<close> is what that returns.\<close>

definition asm2_fflush :: "(host_file \<Rightarrow> int \<times> host_file) \<Rightarrow> int \<Rightarrow> u32 option \<Rightarrow> files \<Rightarrow> (int \<times> files) option" where
  "asm2_fflush fflush flush_all stream f =
     (case stream of None \<Rightarrow> Some (flush_all, f) | Some x \<Rightarrow> stream_call True (- 1) fflush x f)"

definition asm2_fgets :: "(int \<Rightarrow> host_file \<Rightarrow> bytes option \<times> host_file) \<Rightarrow> int \<Rightarrow> u32 \<Rightarrow> files \<Rightarrow> (bytes option \<times> files) option" where
  "asm2_fgets host_fgets amount = stream_call True (None) (host_fgets amount)"

definition asm2_fprintf :: "(bytes \<times> u32 list \<Rightarrow> host_file \<Rightarrow> int \<times> host_file) \<Rightarrow> bytes \<times> u32 list \<Rightarrow> u32 \<Rightarrow> files \<Rightarrow> (int \<times> files) option" where
  "asm2_fprintf host_fprintf args = stream_call True (- 1) (host_fprintf args)"

definition asm2_fputc :: "(int \<Rightarrow> host_file \<Rightarrow> int \<times> host_file) \<Rightarrow> int \<Rightarrow> u32 \<Rightarrow> files \<Rightarrow> (int \<times> files) option" where
  "asm2_fputc host_fputc character = stream_call True (- 1) (host_fputc character)"

definition asm2_fputs :: "(bytes \<Rightarrow> host_file \<Rightarrow> int \<times> host_file) \<Rightarrow> bytes \<Rightarrow> u32 \<Rightarrow> files \<Rightarrow> (int \<times> files) option" where
  "asm2_fputs host_fputs str = stream_call True (- 1) (host_fputs str)"

definition asm2_fread :: "(nat \<times> nat \<Rightarrow> host_file \<Rightarrow> nat \<times> host_file) \<Rightarrow> nat \<times> nat \<Rightarrow> u32 \<Rightarrow> files \<Rightarrow> (nat \<times> files) option" where
  "asm2_fread host_fread extent = stream_call True (0) (host_fread extent)"

definition asm2_fseek :: "(int \<times> int \<Rightarrow> host_file \<Rightarrow> int \<times> host_file) \<Rightarrow> int \<times> int \<Rightarrow> u32 \<Rightarrow> files \<Rightarrow> (int \<times> files) option" where
  "asm2_fseek host_fseek target = stream_call True (- 1) (host_fseek target)"

definition asm2_fseeko :: "(int \<times> int \<Rightarrow> host_file \<Rightarrow> int \<times> host_file) \<Rightarrow> int \<times> int \<Rightarrow> u32 \<Rightarrow> files \<Rightarrow> (int \<times> files) option" where
  "asm2_fseeko host_fseeko target = stream_call True (- 1) (host_fseeko target)"

definition asm2_ftell :: "(host_file \<Rightarrow> int \<times> host_file) \<Rightarrow> u32 \<Rightarrow> files \<Rightarrow> (int \<times> files) option" where
  "asm2_ftell host_ftell = stream_call False (- 1) host_ftell"

definition asm2_ftello :: "(host_file \<Rightarrow> int \<times> host_file) \<Rightarrow> u32 \<Rightarrow> files \<Rightarrow> (int \<times> files) option" where
  "asm2_ftello host_ftello = stream_call False (- 1) host_ftello"

definition asm2_fwrite :: "(bytes \<times> nat \<times> nat \<Rightarrow> host_file \<Rightarrow> nat \<times> host_file) \<Rightarrow> bytes \<times> nat \<times> nat \<Rightarrow> u32 \<Rightarrow> files \<Rightarrow> (nat \<times> files) option" where
  "asm2_fwrite host_fwrite block = stream_call True (0) (host_fwrite block)"

definition asm2_getc :: "(host_file \<Rightarrow> int \<times> host_file) \<Rightarrow> u32 \<Rightarrow> files \<Rightarrow> (int \<times> files) option" where
  "asm2_getc host_getc = stream_call True (- 1) host_getc"

definition asm2_getwc :: "(host_file \<Rightarrow> u32 \<times> host_file) \<Rightarrow> u32 \<Rightarrow> files \<Rightarrow> (u32 \<times> files) option" where
  "asm2_getwc host_getwc = stream_call True (- 1) host_getwc"

definition asm2_putc :: "(int \<Rightarrow> host_file \<Rightarrow> int \<times> host_file) \<Rightarrow> int \<Rightarrow> u32 \<Rightarrow> files \<Rightarrow> (int \<times> files) option" where
  "asm2_putc host_putc character = stream_call True (- 1) (host_putc character)"

definition asm2_putwc :: "(u32 \<Rightarrow> host_file \<Rightarrow> u32 \<times> host_file) \<Rightarrow> u32 \<Rightarrow> u32 \<Rightarrow> files \<Rightarrow> (u32 \<times> files) option" where
  "asm2_putwc host_putwc character = stream_call True (- 1) (host_putwc character)"

definition asm2_setvbuf :: "(int \<times> nat \<Rightarrow> host_file \<Rightarrow> int \<times> host_file) \<Rightarrow> int \<times> nat \<Rightarrow> u32 \<Rightarrow> files \<Rightarrow> (int \<times> files) option" where
  "asm2_setvbuf host_setvbuf buffering = stream_call True (- 1) (host_setvbuf buffering)"

definition asm2_ungetc :: "(int \<Rightarrow> host_file \<Rightarrow> int \<times> host_file) \<Rightarrow> int \<Rightarrow> u32 \<Rightarrow> files \<Rightarrow> (int \<times> files) option" where
  "asm2_ungetc host_ungetc character = stream_call True (- 1) (host_ungetc character)"

definition asm2_ungetwc :: "(u32 \<Rightarrow> host_file \<Rightarrow> u32 \<times> host_file) \<Rightarrow> u32 \<Rightarrow> u32 \<Rightarrow> files \<Rightarrow> (u32 \<times> files) option" where
  "asm2_ungetwc host_ungetwc character = stream_call True (- 1) (host_ungetwc character)"

definition asm2_vfprintf :: "(bytes \<times> u32 list \<Rightarrow> host_file \<Rightarrow> int \<times> host_file) \<Rightarrow> bytes \<times> u32 list \<Rightarrow> u32 \<Rightarrow> files \<Rightarrow> (int \<times> files) option" where
  "asm2_vfprintf host_vfprintf args = stream_call True (- 1) (host_vfprintf args)"

text \<open>\<open>fclose\<close> of a stream that nobody uses, or of a standard one.  \<open>Inl\<close> is the wait for the calls in progress.\<close>

definition asm2_fclose ::
  "(host_file \<Rightarrow> int \<times> host_file) \<Rightarrow> (host_file \<Rightarrow> int) \<Rightarrow> u32 \<Rightarrow> files \<Rightarrow> ((u32 \<times> link) + int \<times> files) option" where
  "asm2_fclose fflush fclose stream f =
     (case asm2_standard_stream stream f of
        Some h \<Rightarrow>
          if h = Std_in then Some (Inr (0, f)) else map_option Inr (use_host h fflush f)
      | None \<Rightarrow>
          (case take_file_for_close stream f of
             None \<Rightarrow> None
           | Some (Close_refused, f1) \<Rightarrow> Some (Inr (- 1, f1))
           | Some (Close_waits a l, f1) \<Rightarrow> Some (Inl (a, l))
           | Some (Close_done None, f1) \<Rightarrow> Some (Inr (- 1, f1))
           | Some (Close_done (Some h), f1) \<Rightarrow>
               (case fs_hosts f1 h of
                  None \<Rightarrow> None
                | Some hf \<Rightarrow> map_option (\<lambda>f2. Inr (fclose hf, f2)) (host_fclose h f1))))"

section \<open>The counters\<close>

partial_function (option) chain_length :: "(u32 \<Rightarrow> file_wrapper option) \<Rightarrow> u32 option \<Rightarrow> u32 \<Rightarrow> u32 option" where
  "chain_length cells p n =
     (case p of
        None \<Rightarrow> Some n
      | Some a \<Rightarrow> case cells a of None \<Rightarrow> None | Some c \<Rightarrow> chain_length cells (fw_hash_next c) (n + 1))"

record file_stats =
  st_created :: u64
  st_open :: u64
  st_closed :: u64
  st_longest_active_bucket :: u32

definition asm2_bionic_get_file_stats :: "files \<Rightarrow> file_stats option" where
  "asm2_bionic_get_file_stats f =
     fold (\<lambda>b st. case st of
         None \<Rightarrow> None
       | Some x \<Rightarrow>
           (case chain_length (fs_cells f) (fs_heads f (of_nat b)) 0 of
              None \<Rightarrow> None
            | Some n \<Rightarrow>
                Some (if n > st_longest_active_bucket x then x\<lparr>st_longest_active_bucket := n\<rparr> else x)))
       [0 ..< 1024]
       (Some \<lparr>st_created = fs_created f, st_open = fs_open f, st_closed = fs_closed f, st_longest_active_bucket = 0\<rparr>)"

lemma chain_length_ends:
  assumes "chain_inv rank f ths"
  shows "(\<And>a. p = Some a \<Longrightarrow> a \<in> dom (fs_cells f)) \<Longrightarrow> \<exists>r. chain_length (fs_cells f) p n = Some r"
proof (induction "case p of None \<Rightarrow> 0 | Some a \<Rightarrow> Suc (rank a)" arbitrary: p n rule: less_induct)
  case less
  show ?case
  proof (cases p)
    case None
    then show ?thesis by (subst chain_length.simps) simp
  next
    case (Some a)
    obtain c where c: "fs_cells f a = Some c" using less.prems Some by blast
    have "next_of f a = fw_hash_next c" using c by (simp add: next_of_def)
    then have "(case fw_hash_next c of None \<Rightarrow> 0 | Some a \<Rightarrow> Suc (rank a))
        < (case p of None \<Rightarrow> 0 | Some a \<Rightarrow> Suc (rank a))"
      and "\<And>m. fw_hash_next c = Some m \<Longrightarrow> m \<in> dom (fs_cells f)"
      using assms Some by (auto simp: chain_inv_def split: option.split)
    from less.hyps [OF this] c Some show ?thesis by (subst chain_length.simps) simp
  qed
qed

lemma fold_defined:
  "(\<And>b x. b \<in> set bs \<Longrightarrow> \<exists>y. g b (Some x) = Some y) \<Longrightarrow> \<exists>y. fold g bs (Some x) = Some y"
proof (induction bs arbitrary: x)
  case (Cons b bs)
  obtain y where "g b (Some x) = Some y" using Cons.prems [of b x] by auto
  with Cons show ?case by simp
qed simp

lemma file_stats_defined:
  assumes "chain_inv rank f ths"
  shows "\<exists>st. asm2_bionic_get_file_stats f = Some st"
  unfolding asm2_bionic_get_file_stats_def
proof (rule fold_defined)
  fix b x
  obtain n where "chain_length (fs_cells f) (fs_heads f (of_nat b)) 0 = Some n"
    using chain_length_ends [OF assms] chain_invD(2) [OF assms] by blast
  then show "\<exists>y. (case Some x of
         None \<Rightarrow> None
       | Some x \<Rightarrow>
           (case chain_length (fs_cells f) (fs_heads f (of_nat b)) 0 of
              None \<Rightarrow> None
            | Some n \<Rightarrow>
                Some (if n > st_longest_active_bucket x then x\<lparr>st_longest_active_bucket := n\<rparr> else x))) = Some y"
    by simp
qed


section \<open>The guest's copy of the flags\<close>

lemma image_flags_set:
  assumes "14 \<le> List.length img"
  shows "image_flags (asm2_file_image_set_flags img flags) = flags"
proof -
  have "asm2_file_image_set_flags img flags ! 12 = ucast flags"
    "asm2_file_image_set_flags img flags ! 13 = ucast (drop_bit 8 flags)"
    using assms by (simp_all add: asm2_file_image_set_flags_def nth_append)
  moreover have "ucast (ucast flags :: u8) OR push_bit 8 (ucast (ucast (drop_bit 8 flags) :: u8)) = flags"
  proof (rule bit_word_eqI)
    fix n
    assume "n < LENGTH(16)"
    then consider "n < 8" | "8 \<le> n" "n < 16" by fastforce
    then show "bit (ucast (ucast flags :: u8) OR push_bit 8 (ucast (ucast (drop_bit 8 flags) :: u8)) :: u16) n = bit flags n"
      by cases (auto simp: bit_simps)
  qed
  ultimately show ?thesis by (simp add: image_flags_def)
qed

lemma flag_bits: "(x AND file_seof = 0) = (\<not> bit x 5)" "(x AND file_serr = 0) = (\<not> bit x 6)" for x :: u16
  using and_exp_eq_0_iff_not_bit [of x 5] and_exp_eq_0_iff_not_bit [of x 6] by simp_all

lemma synced_bits:
  "bit (synced_flags img hf) n =
     (if n = 5 then hf_eof hf else if n = 6 then hf_error hf else bit (image_flags img) n)"
proof -
  have seof: "bit file_seof n \<longleftrightarrow> n = 5" and serr: "bit file_serr n \<longleftrightarrow> n = 6"
    using bit_exp_iff [of 5 n, where 'a = "16 word"] bit_exp_iff [of 6 n, where 'a = "16 word"] by auto
  have short: "bit (image_flags img) n \<Longrightarrow> n < 16" using bit_imp_le_length [of "image_flags img" n] by simp
  show ?thesis
    unfolding synced_flags_def Let_def
    by (cases "hf_eof hf"; cases "hf_error hf";
        simp only: if_True if_False bit_and_iff bit_or_iff bit_not_iff seof serr possible_bit_word; use short in auto)
qed


text \<open>The search only looks at the heads and the \<open>hash_next\<close> pointers.\<close>

definition same_links :: "files \<Rightarrow> files \<Rightarrow> bool" where
  "same_links f f' \<longleftrightarrow> fs_heads f' = fs_heads f \<and> fs_sF f' = fs_sF f
     \<and> (\<forall>a. map_option fw_hash_next (fs_cells f' a) = map_option fw_hash_next (fs_cells f a))"

lemma follow_chain_links:
  assumes "chain_inv rank f ths" and same: "same_links f f'"
  shows "(\<And>a. p = Some a \<Longrightarrow> a \<in> dom (fs_cells f)) \<Longrightarrow>
     follow_chain (fs_cells f') p stream = follow_chain (fs_cells f) p stream"
proof (induction "case p of None \<Rightarrow> 0 | Some a \<Rightarrow> Suc (rank a)" arbitrary: p rule: less_induct)
  case less
  show ?case
  proof (cases p)
    case None
    then show ?thesis by (subst (1 2) follow_chain.simps) simp
  next
    case (Some a)
    obtain c where c: "fs_cells f a = Some c" using less.prems Some by blast
    have "map_option fw_hash_next (fs_cells f' a) = Some (fw_hash_next c)"
      using same c by (simp add: same_links_def)
    then obtain c' where c': "fs_cells f' a = Some c'" "fw_hash_next c' = fw_hash_next c" by auto
    have "next_of f a = fw_hash_next c" using c by (simp add: next_of_def)
    then have "(case fw_hash_next c of None \<Rightarrow> 0 | Some a \<Rightarrow> Suc (rank a))
        < (case p of None \<Rightarrow> 0 | Some a \<Rightarrow> Suc (rank a))"
      and "\<And>m. fw_hash_next c = Some m \<Longrightarrow> m \<in> dom (fs_cells f)"
      using assms(1) Some by (auto simp: chain_inv_def split: option.split)
    from less.hyps [OF this] c c' Some show ?thesis
      by (subst (1 2) follow_chain.simps) simp
  qed
qed

lemma find_links:
  assumes "chain_inv rank f ths" and "same_links f f'"
  shows "asm2_find_active_file_locked stream f' = asm2_find_active_file_locked stream f"
    "asm2_standard_stream stream f' = asm2_standard_stream stream f"
  using follow_chain_links [OF assms, of "fs_heads f (asm2_file_bucket stream)" stream] chain_invD(2) [OF assms(1)] assms(2)
  by (simp_all add: asm2_find_active_file_locked_def same_links_def asm2_standard_stream_def)

text \<open>A call on an open stream is the host's call: it starts from the host stream with the flags cleared
  that the guest has cleared, returns what the host's function returns and leaves the host stream as that
  function does; afterwards the end-of-file and error bits of the guest's image are those of the host stream,
  its other flag bits are as before, and the count of the wrapper is what it was.\<close>

theorem stdio_call_mirrors_flags:
  assumes "streams_reach (streams_start sF n images std) s" and "n < 2 ^ 32"
    and "t < List.length (ss_threads s)" and "ss_threads s ! t = Idle"
    and "asm2_standard_stream stream (ss_files s) = None"
    and "asm2_find_active_file_locked stream (ss_files s) = Some (Some stream)"
    and "fs_cells (ss_files s) stream = Some c" and "fw_state c = File_open" and "List.length (fw_guest c) = 84"
  shows "\<exists>h hf f' c' hf'. fw_host c = Some h \<and> fs_hosts (ss_files s) h = Some hf
     \<and> stream_call True refused g stream (ss_files s) = Some (fst (g (cleared_by_guest (fw_guest c) hf)), f')
     \<and> fs_hosts f' h = Some hf' \<and> hf' = snd (g (cleared_by_guest (fw_guest c) hf))
     \<and> fs_cells f' stream = Some c' \<and> fw_active c' = fw_active c
     \<and> (\<forall>i. bit (image_flags (fw_guest c')) i
            = (if i = 5 then hf_eof hf' else if i = 6 then hf_error hf' else bit (image_flags (fw_guest c)) i))"
proof -
  let ?f = "ss_files s"
  obtain rank where inv: "inv3 rank ?f (ss_threads s)"
    using reach_inv [OF assms(1) streams_start_inv [OF assms(2)]] by (auto simp: stream_inv_inv3)
  note count = count_invD [OF inv3D(3) [OF inv]]
  note find = find_links [OF inv3D(1) [OF inv]]
  obtain h where h: "fw_host c = Some h" using open_cell_host [OF inv assms(7)] assms(8) by auto
  have "host_of ?f stream = Some h" using h assms(7) by (simp add: host_of_def)
  then have "h \<in> dom (fs_hosts ?f)"
    using held_host_open [OF inv, of "Acquired stream \<lparr>sr_host = h, sr_wrapper = Some stream\<rparr>"]
    by (simp add: refs_ok_def)
  then obtain hf where hf: "fs_hosts ?f h = Some hf" by blast
  have "active_of ?f stream < List.length (ss_threads s)"
    using count_less [OF assms(3), of "holds stream"] count(1) [of stream] assms(4) by (simp add: holds_def)
  then have "unat (fw_active c) + 1 < 2 ^ 32" using count(5) assms(7) by (simp add: active_of_def)
  then have "unat (fw_active c + 1) = unat (fw_active c) + 1" by (simp add: unat_word_ariths)
  then have pos: "fw_active c + 1 > 0" by (simp add: word_less_nat_alt)
  let ?c1 = "c\<lparr>fw_active := fw_active c + 1\<rparr>"
  let ?f1 = "?f\<lparr>fs_cells := (fs_cells ?f)(stream \<mapsto> ?c1)\<rparr>"
  let ?hf = "cleared_by_guest (fw_guest c) hf"
  let ?f2 = "?f1\<lparr>fs_hosts := (fs_hosts ?f)(h \<mapsto> ?hf)\<rparr>"
  let ?f3 = "?f1\<lparr>fs_hosts := (fs_hosts ?f)(h \<mapsto> snd (g ?hf))\<rparr>"
  let ?img = "asm2_file_image_set_flags (fw_guest c) (synced_flags (fw_guest c) (snd (g ?hf)))"
  let ?c4 = "?c1\<lparr>fw_guest := ?img\<rparr>"
  have links: "same_links ?f ?f1" "same_links ?f ?f3"
    using assms(7) by (simp_all add: same_links_def)
  have acquired: "acquire_locked stream ?f = Some (Some \<lparr>sr_host = h, sr_wrapper = Some stream\<rparr>, ?f1)"
    using assms(5-8) h by (simp add: acquire_locked_def modify_cell_def)
  have applied: "asm2_apply_guest_cleared_flags stream h ?f1 = Some ?f2"
    using assms(5,6) hf
    by (simp add: asm2_apply_guest_cleared_flags_def asm2_stream_image_def find [OF links(1)] use_host_def)
  have used: "use_host h g ?f2 = Some (fst (g ?hf), ?f3)"
    by (simp add: use_host_def split: prod.split)
  obtain f4 where f4: "f4 = ?f3\<lparr>fs_cells := (fs_cells ?f)(stream \<mapsto> ?c4)\<rparr>" by simp
  obtain f5 where f5: "f5 = ?f3\<lparr>fs_cells := (fs_cells ?f)(stream \<mapsto> ?c4\<lparr>fw_active := fw_active c\<rparr>)\<rparr>" by simp
  have synced: "asm2_sync_stream_flags stream h ?f3 = Some f4"
    using assms(5,6)
    by (simp add: f4 asm2_sync_stream_flags_def asm2_stream_image_def find [OF links(2)] modify_cell_def)
  have released: "asm2_release_stream \<lparr>sr_host = h, sr_wrapper = Some stream\<rparr> f4 = Some (False, f5)"
    using pos assms(8) by (simp add: asm2_release_stream_def Let_def f4 f5)
  have "stream_call True refused g stream ?f
      = Some (fst (g ?hf), f5)"
    by (simp add: stream_call_def asm2_acquire_stream_def acquired applied used synced released)
  moreover have "bit (image_flags ?img) i
      = (if i = 5 then hf_eof (snd (g ?hf)) else if i = 6 then hf_error (snd (g ?hf)) else bit (image_flags (fw_guest c)) i)" for i
    by (simp add: image_flags_set assms(9) synced_bits)
  ultimately show ?thesis
    using h hf
    by (intro exI [of _ h] exI [of _ hf] exI [of _ f5]
        exI [of _ "?c4\<lparr>fw_active := fw_active c\<rparr>"] exI [of _ "snd (g ?hf)"]) (simp add: f5)
qed


lemma opened_cell:
  "\<exists>s c. file_steps [open_first] lost_start = Some s \<and> ss_threads s = [Idle, Idle]
     \<and> asm2_standard_stream 0x1000 (ss_files s) = None
     \<and> asm2_find_active_file_locked 0x1000 (ss_files s) = Some (Some 0x1000)
     \<and> fs_cells (ss_files s) 0x1000 = Some c \<and> fw_state c = File_open \<and> List.length (fw_guest c) = 84"
  by (simp add: run_simps asm2_file_image_set_flags_def asm2_file_image_set_descriptor_def)

theorem stdio_call_mirrors_flags_witness:
  "\<exists>s c h hf f' c' hf'. streams_reach lost_start s \<and> fs_cells (ss_files s) 0x1000 = Some c
     \<and> fw_host c = Some h \<and> fs_hosts (ss_files s) h = Some hf
     \<and> stream_call True (- 1) (\<lambda>x. (65 :: int, x\<lparr>hf_eof := True\<rparr>)) 0x1000 (ss_files s) = Some (65, f')
     \<and> fs_hosts f' h = Some hf' \<and> hf_eof hf' \<and> fs_cells f' 0x1000 = Some c' \<and> fw_active c' = fw_active c
     \<and> bit (image_flags (fw_guest c')) 5"
proof -
  obtain s c where run: "file_steps [open_first] lost_start = Some s" and threads: "ss_threads s = [Idle, Idle]"
    and c: "asm2_standard_stream 0x1000 (ss_files s) = None"
      "asm2_find_active_file_locked 0x1000 (ss_files s) = Some (Some 0x1000)"
      "fs_cells (ss_files s) 0x1000 = Some c" "fw_state c = File_open" "List.length (fw_guest c) = 84"
    using opened_cell by blast
  have reach: "streams_reach lost_start s" by (rule file_steps_reach [OF run streams_reach.start])
  have t: "0 < List.length (ss_threads s)" "ss_threads s ! 0 = Idle" by (simp_all add: threads)
  from stdio_call_mirrors_flags [OF reach [unfolded lost_start_def] _ t c, where refused = "- 1"
      and g = "\<lambda>x. (65 :: int, x\<lparr>hf_eof := True\<rparr>)"]
  show ?thesis using reach c(3) by auto
qed

end
