(* ===== verification/Asm2_HostPaths.thy ===== *)
theory Asm2_HostPaths
  imports Asm2_Streams
begin

text \<open>
  The rest of \<open>src/asm2_127/src/bionic_compat.c\<close>: the guest's view of the file system (paths below
  \<open>/sdcard\<close> are paths below the storage root), and the conversions between the host's structures and the
  guest's.  Host calls are parameters; a buffer is the bytes it holds, without the NUL.
\<close>

section \<open>Paths\<close>

abbreviation path_max :: nat where "path_max \<equiv> 4096"

definition storage_prefixes :: "bytes list" where
  "storage_prefixes = [cstr ''/sdcard'', cstr ''sdcard'', cstr ''/mnt/sdcard'', cstr ''/storage/sdcard0'',
     cstr ''/storage/emulated/0'']"

text \<open>The path starts with the prefix, and the prefix ends a component of it.\<close>

definition below :: "bytes \<Rightarrow> bytes \<Rightarrow> bool" where
  "below prefix path \<longleftrightarrow> starts_with prefix path \<and> (drop (List.length prefix) path = [] \<or> hd (drop (List.length prefix) path) = 0x2F)"

datatype translation = Same | Translated bytes | Too_long

text \<open>\<open>Same\<close> is the guest's own pointer; \<open>Too_long\<close> is NULL with ENAMETOOLONG.  An empty root turns the bridge
  off, and NULL is translated to itself.\<close>

definition asm2_translate_path :: "bytes \<Rightarrow> nat \<Rightarrow> bytes option \<Rightarrow> translation" where
  "asm2_translate_path base buffer_size path =
     (case path of
        None \<Rightarrow> Same
      | Some p \<Rightarrow>
          if base = [] then Same
          else case find (\<lambda>prefix. below prefix p) storage_prefixes of
            None \<Rightarrow> Same
          | Some prefix \<Rightarrow>
              let host = base @ drop (List.length prefix) p
              in if List.length host \<ge> buffer_size then Too_long else Translated host)"

text \<open>\<open>None\<close> is NULL: a path that does not fit, and the guest's own NULL.\<close>

definition path_for_host :: "bytes \<Rightarrow> bytes option \<Rightarrow> bytes option" where
  "path_for_host base path =
     (case asm2_translate_path base path_max path of
        Same \<Rightarrow> path | Translated p \<Rightarrow> Some p | Too_long \<Rightarrow> None)"

section \<open>Calls with a path\<close>

text \<open>\<open>call\<close> is the host's function, applied to the host's path; \<open>failed\<close> is what the bridge returns when there
  is none.\<close>

definition with_path :: "bytes \<Rightarrow> 'r \<Rightarrow> (bytes \<Rightarrow> 'r) \<Rightarrow> bytes option \<Rightarrow> 'r" where
  "with_path base failed call path = (case path_for_host base path of None \<Rightarrow> failed | Some p \<Rightarrow> call p)"

definition asm2_access :: "bytes \<Rightarrow> (bytes \<Rightarrow> int \<Rightarrow> int) \<Rightarrow> bytes option \<Rightarrow> int \<Rightarrow> int" where
  "asm2_access base access path mode = with_path base (- 1) (\<lambda>p. access p mode) path"

definition asm2_chdir :: "bytes \<Rightarrow> (bytes \<Rightarrow> int) \<Rightarrow> bytes option \<Rightarrow> int" where
  "asm2_chdir base chdir path = with_path base (- 1) chdir path"

definition asm2_chmod :: "bytes \<Rightarrow> (bytes \<Rightarrow> u32 \<Rightarrow> int) \<Rightarrow> bytes option \<Rightarrow> u32 \<Rightarrow> int" where
  "asm2_chmod base chmod path mode = with_path base (- 1) (\<lambda>p. chmod p mode) path"

definition asm2_mkdir :: "bytes \<Rightarrow> (bytes \<Rightarrow> u32 \<Rightarrow> int) \<Rightarrow> bytes option \<Rightarrow> u32 \<Rightarrow> int" where
  "asm2_mkdir base mkdir path mode = with_path base (- 1) (\<lambda>p. mkdir p mode) path"

definition asm2_opendir :: "bytes \<Rightarrow> (bytes \<Rightarrow> u32 option) \<Rightarrow> bytes option \<Rightarrow> u32 option" where
  "asm2_opendir base opendir path = with_path base None opendir path"

definition asm2_remove :: "bytes \<Rightarrow> (bytes \<Rightarrow> int) \<Rightarrow> bytes option \<Rightarrow> int" where
  "asm2_remove base remove path = with_path base (- 1) remove path"

definition asm2_rmdir :: "bytes \<Rightarrow> (bytes \<Rightarrow> int) \<Rightarrow> bytes option \<Rightarrow> int" where
  "asm2_rmdir base rmdir path = with_path base (- 1) rmdir path"

definition asm2_unlink :: "bytes \<Rightarrow> (bytes \<Rightarrow> int) \<Rightarrow> bytes option \<Rightarrow> int" where
  "asm2_unlink base unlink path = with_path base (- 1) unlink path"

definition asm2_rename :: "bytes \<Rightarrow> (bytes \<Rightarrow> bytes \<Rightarrow> int) \<Rightarrow> bytes option \<Rightarrow> bytes option \<Rightarrow> int" where
  "asm2_rename base rename old_path new_path =
     (case (path_for_host base old_path, path_for_host base new_path) of
        (Some p, Some q) \<Rightarrow> rename p q | _ \<Rightarrow> - 1)"

text \<open>The mode is an argument only with \<open>O_CREAT\<close>.\<close>

abbreviation o_creat :: u32 where "o_creat \<equiv> 0x40"

definition asm2_open ::
  "bytes \<Rightarrow> (bytes \<Rightarrow> u32 \<Rightarrow> u32 option \<Rightarrow> int) \<Rightarrow> bytes option \<Rightarrow> u32 \<Rightarrow> u32 \<Rightarrow> int" where
  "asm2_open base host_open path flags mode =
     with_path base (- 1) (\<lambda>p. host_open p flags (if flags AND o_creat \<noteq> 0 then Some mode else None)) path"

text \<open>\<open>fopen\<close> answers a stream, its descriptor and its state; \<open>alloc\<close> is the answer of \<open>calloc\<close>.\<close>

definition asm2_fopen ::
  "bytes \<Rightarrow> (bytes \<Rightarrow> bytes option \<Rightarrow> (host_ref \<times> int) option) \<Rightarrow> u32 option \<Rightarrow> bytes option \<Rightarrow> bytes option
     \<Rightarrow> files \<Rightarrow> u32 option \<times> files" where
  "asm2_fopen base fopen alloc path mode f =
     (case with_path base None (\<lambda>p. fopen p mode) path of
        None \<Rightarrow> asm2_wrap_file None 0 mode alloc f
      | Some (h, fd) \<Rightarrow> asm2_wrap_file (Some h) fd mode alloc f)"

definition asm2_fdopen ::
  "(int \<Rightarrow> bytes option \<Rightarrow> (host_ref \<times> int) option) \<Rightarrow> u32 option \<Rightarrow> int \<Rightarrow> bytes option \<Rightarrow> files \<Rightarrow> u32 option \<times> files" where
  "asm2_fdopen fdopen alloc fd mode f =
     (case fdopen fd mode of
        None \<Rightarrow> asm2_wrap_file None 0 mode alloc f
      | Some (h, host_fd) \<Rightarrow> asm2_wrap_file (Some h) host_fd mode alloc f)"

section \<open>getcwd and mkstemp\<close>

datatype cwd_result = Cwd_failed | Cwd_erange | Cwd_einval | Cwd_new bytes | Cwd_filled bytes

text \<open>\<open>host\<close> is what the host's \<open>getcwd\<close> leaves; \<open>buffer\<close> tells whether the guest gave one.\<close>

definition asm2_getcwd :: "bytes \<Rightarrow> bytes option \<Rightarrow> bool \<Rightarrow> nat \<Rightarrow> cwd_result" where
  "asm2_getcwd base host buffer n =
     (case host of
        None \<Rightarrow> Cwd_failed
      | Some host_path \<Rightarrow>
          let inside = (base \<noteq> [] \<and> below base host_path);
              virtual = cstr ''/sdcard'' @ drop (List.length base) host_path
          in if inside \<and> List.length virtual \<ge> path_max then Cwd_erange
             else let result = (if inside then virtual else host_path); needed = List.length result + 1
                  in if \<not> buffer then (if n \<noteq> 0 then Cwd_einval else Cwd_new result)
                     else if needed > n then Cwd_erange else Cwd_filled result)"

text \<open>The host's \<open>mkstemp\<close> replaces the last six characters of its template; the guest's template gets the same
  six.  The result is the descriptor and the guest's template.\<close>

definition asm2_mkstemp :: "bytes \<Rightarrow> (bytes \<Rightarrow> int \<times> bytes) \<Rightarrow> bytes option \<Rightarrow> int \<times> bytes option" where
  "asm2_mkstemp base mkstemp path_template =
     (case path_template of
        None \<Rightarrow> (- 1, None)
      | Some p \<Rightarrow>
          (case asm2_translate_path base path_max (Some p) of
             Too_long \<Rightarrow> (- 1, Some p)
           | Same \<Rightarrow> (let (fd, p') = mkstemp p in (fd, Some p'))
           | Translated t \<Rightarrow>
               let (fd, t') = mkstemp t
               in (fd, Some (if fd \<ge> 0 \<and> List.length p \<ge> 6 \<and> List.length t' \<ge> 6
                             then take (List.length p - 6) p @ drop (List.length t' - 6) t' else p))))"

section \<open>Structures\<close>

record host_stat =
  hs_dev :: u64
  hs_ino :: u64
  hs_mode :: u32
  hs_nlink :: u32
  hs_uid :: u32
  hs_gid :: u32
  hs_rdev :: u64
  hs_size :: u64
  hs_blksize :: u32
  hs_blocks :: u64
  hs_times :: "(u32 \<times> u32) list"

record android_stat =
  as_dev :: u64
  as_old_ino :: u32
  as_mode :: u32
  as_nlink :: u32
  as_uid :: u32
  as_gid :: u32
  as_rdev :: u64
  as_size :: u64
  as_blksize :: u32
  as_blocks :: u64
  as_times :: "(u32 \<times> u32) list"
  as_ino :: u64

text \<open>The times are access, modification and change, in seconds and nanoseconds.\<close>

definition stat_to_android :: "host_stat \<Rightarrow> android_stat" where
  "stat_to_android h =
     \<lparr>as_dev = hs_dev h, as_old_ino = ucast (hs_ino h), as_mode = hs_mode h, as_nlink = hs_nlink h,
      as_uid = hs_uid h, as_gid = hs_gid h, as_rdev = hs_rdev h, as_size = hs_size h,
      as_blksize = hs_blksize h, as_blocks = hs_blocks h, as_times = hs_times h, as_ino = hs_ino h\<rparr>"

text \<open>The structure is written only after success, and only when the guest gave one.\<close>

definition asm2_stat ::
  "bytes \<Rightarrow> (bytes \<Rightarrow> int \<times> host_stat) \<Rightarrow> bytes option \<Rightarrow> android_stat option \<Rightarrow> int \<times> android_stat option" where
  "asm2_stat base stat path guest =
     (case path_for_host base path of
        None \<Rightarrow> (- 1, guest)
      | Some p \<Rightarrow> let (result, h) = stat p
                  in (result, if result = 0 \<and> guest \<noteq> None then Some (stat_to_android h) else guest))"

definition asm2_fstat :: "(int \<Rightarrow> int \<times> host_stat) \<Rightarrow> int \<Rightarrow> android_stat option \<Rightarrow> int \<times> android_stat option" where
  "asm2_fstat fstat fd guest =
     (let (result, h) = fstat fd
      in (result, if result = 0 \<and> guest \<noteq> None then Some (stat_to_android h) else guest))"

record statfs_fields =
  sf_type :: u32
  sf_bsize :: u32
  sf_blocks :: u64
  sf_bfree :: u64
  sf_bavail :: u64
  sf_files :: u64
  sf_ffree :: u64
  sf_fsid :: "u32 \<times> u32"
  sf_namelen :: u32
  sf_frsize :: u32
  sf_flags :: u32
  sf_spare :: "u32 list"

definition asm2_statfs ::
  "bytes \<Rightarrow> (bytes \<Rightarrow> int \<times> statfs_fields) \<Rightarrow> bytes option \<Rightarrow> statfs_fields option \<Rightarrow> int \<times> statfs_fields option" where
  "asm2_statfs base statfs64 path guest =
     (case path_for_host base path of
        None \<Rightarrow> (- 1, guest)
      | Some p \<Rightarrow> let (result, h) = statfs64 p
                  in if result \<noteq> 0 \<or> guest = None then (result, guest)
                     else (0, Some (h\<lparr>sf_spare := [0, 0, 0, 0]\<rparr>)))"

record dirent =
  de_ino :: u64
  de_off :: u64
  de_reclen :: u16
  de_type :: u8
  de_name :: bytes

text \<open>\<open>snprintf\<close> into 256 bytes keeps at most 255 of the name.\<close>

definition asm2_readdir :: "dirent option \<Rightarrow> dirent option" where
  "asm2_readdir host =
     map_option (\<lambda>h. \<lparr>de_ino = de_ino h, de_off = de_off h, de_reclen = 280, de_type = de_type h,
                      de_name = take 255 (de_name h)\<rparr>) host"

section \<open>Signals\<close>

text \<open>A host mask is a set of signal numbers.\<close>

record guest_sigaction =
  gs_callback :: u32
  gs_mask :: u32
  gs_flags :: u32
  gs_restorer :: u32

record host_sigaction =
  ha_callback :: u32
  ha_mask :: "nat list"
  ha_flags :: u32

definition mask_to_host :: "u32 \<Rightarrow> nat list" where
  "mask_to_host m = filter (\<lambda>i. m AND push_bit (i - 1) 1 \<noteq> 0) [1 ..< 33]"

definition mask_to_guest :: "nat list \<Rightarrow> u32" where
  "mask_to_guest signals =
     fold (\<lambda>i m. if i \<in> set signals then m OR push_bit (i - 1) 1 else m) [1 ..< 33] 0"

definition action_to_host :: "guest_sigaction \<Rightarrow> host_sigaction" where
  "action_to_host g =
     \<lparr>ha_callback = gs_callback g, ha_mask = mask_to_host (gs_mask g), ha_flags = gs_flags g\<rparr>"

definition action_to_guest :: "host_sigaction \<Rightarrow> guest_sigaction" where
  "action_to_guest h =
     \<lparr>gs_callback = ha_callback h, gs_mask = mask_to_guest (ha_mask h), gs_flags = ha_flags h, gs_restorer = 0\<rparr>"

definition asm2_sigaction ::
  "(int \<Rightarrow> host_sigaction option \<Rightarrow> int \<times> host_sigaction) \<Rightarrow> int \<Rightarrow> guest_sigaction option
     \<Rightarrow> guest_sigaction option \<Rightarrow> int \<times> guest_sigaction option" where
  "asm2_sigaction sigaction signal_number input output =
     (let (result, old) = sigaction signal_number (map_option action_to_host input)
      in (result, if result = 0 \<and> output \<noteq> None then Some (action_to_guest old) else output))"

section \<open>Messages, tables and start\<close>

abbreviation erange :: int where "erange \<equiv> 34"

text \<open>The result and what is in the buffer: \<open>None\<close> is a buffer that is not written.\<close>

definition asm2_strerror_r :: "(int \<Rightarrow> bytes) \<Rightarrow> int \<Rightarrow> bool \<Rightarrow> nat \<Rightarrow> int \<times> bytes option" where
  "asm2_strerror_r strerror error_number buffer n =
     (if \<not> buffer \<or> n = 0 then (erange, None)
      else let message = strerror error_number
           in if List.length message \<ge> n then (erange, Some (take (n - 1) message @ [0]))
              else (0, Some (message @ [0])))"

text \<open>\<open>Inr\<close> is -1 with ENOSYS.\<close>

definition asm2_sysconf :: "int \<Rightarrow> int \<Rightarrow> int + unit" where
  "asm2_sysconf page_size android_name =
     (if android_name = 0x27 \<or> android_name = 0x28 then Inl page_size else Inr ())"

text \<open>The host's classification of a character.\<close>

record char_class =
  is_upper :: bool
  is_lower :: bool
  is_digit :: bool
  is_space :: bool
  is_punct :: bool
  is_cntrl :: bool
  is_xdigit :: bool

definition ctype_flags :: "(nat \<Rightarrow> char_class) \<Rightarrow> nat \<Rightarrow> u8" where
  "ctype_flags cls v =
     (let c = cls v
      in (if is_upper c then 0x01 else 0) OR (if is_lower c then 0x02 else 0) OR (if is_digit c then 0x04 else 0)
         OR (if is_space c then 0x08 else 0) OR (if is_punct c then 0x10 else 0) OR (if is_cntrl c then 0x20 else 0)
         OR (if is_xdigit c \<and> \<not> is_digit c then 0x40 else 0) OR (if v = 32 \<or> v = 9 then 0x80 else 0))"

record bionic =
  bi_ctype :: "u8 list"
  bi_tolower :: "u16 list"
  bi_toupper :: "u16 list"
  bi_page_size :: int
  bi_root :: bytes
  bi_images :: "host_ref \<Rightarrow> bytes"

text \<open>Entry 0 of the tables is the one for EOF.\<close>

definition asm2_bionic_init ::
  "(nat \<Rightarrow> char_class) \<Rightarrow> (nat \<Rightarrow> u16) \<Rightarrow> (nat \<Rightarrow> u16) \<Rightarrow> int \<Rightarrow> bytes option \<Rightarrow> bionic \<Rightarrow> bionic" where
  "asm2_bionic_init cls tolower toupper host_page_size storage_root b =
     b\<lparr>bi_images := (\<lambda>h.
         asm2_file_image_set_descriptor
           (asm2_file_image_set_flags (replicate 84 0)
             (if h = Std_in then file_srd else if h = Std_out then file_swr else file_swr OR 0x0002))
           (if h = Std_in then 0 else if h = Std_out then 1 else 2)),
       bi_ctype := 0 # map (ctype_flags cls) [0 ..< 256],
       bi_tolower := - 1 # map tolower [0 ..< 256],
       bi_toupper := - 1 # map toupper [0 ..< 256],
       bi_page_size := (if 0 < host_page_size \<and> host_page_size \<le> 2147483647 then host_page_size else bi_page_size b),
       bi_root := (case storage_root of
           None \<Rightarrow> [] | Some r \<Rightarrow> if List.length r \<ge> path_max then [] else r)\<rparr>"


section \<open>Paths there and back\<close>

lemma sdcard_bytes: "cstr ''/sdcard'' = [0x2F, 0x73, 0x64, 0x63, 0x61, 0x72, 0x64]"
  by code_simp

lemma below_append: "below prefix (prefix @ rest) \<longleftrightarrow> rest = [] \<or> hd rest = 0x2F"
  by (simp add: below_def)

lemma belowE:
  assumes "below prefix path"
  obtains rest where "path = prefix @ rest" "rest = [] \<or> hd rest = 0x2F"
  using assms unfolding below_def by (metis append_eq_conv_conj starts_withE)

text \<open>What a translation is: the rest of the path after one of the prefixes, below the root, and it fits.\<close>

lemma translated_below_root:
  assumes "asm2_translate_path base n (Some p) = Translated host"
  obtains prefix rest where "prefix \<in> set storage_prefixes" "p = prefix @ rest" "rest = [] \<or> hd rest = 0x2F"
    "host = base @ rest" "List.length host < n" "base \<noteq> []"
proof -
  obtain prefix where prefix: "find (\<lambda>prefix. below prefix p) storage_prefixes = Some prefix"
    and base: "base \<noteq> []"
    using assms by (auto simp: asm2_translate_path_def split: if_splits option.splits)
  then have "prefix \<in> set storage_prefixes" "below prefix p" by (auto simp: find_Some_iff)
  moreover from this(2) obtain rest where rest: "p = prefix @ rest" "rest = [] \<or> hd rest = 0x2F" by (rule belowE)
  ultimately show ?thesis
    using that assms prefix base by (auto simp: asm2_translate_path_def Let_def split: if_splits)
qed

text \<open>A path of the guest outside the storage is the host's path, whatever the root is.\<close>

lemma other_paths_kept:
  assumes "\<And>prefix. prefix \<in> set storage_prefixes \<Longrightarrow> \<not> below prefix p"
  shows "path_for_host base (Some p) = Some p"
proof -
  have "find (\<lambda>prefix. below prefix p) storage_prefixes = None"
    using assms by (simp add: find_None_iff)
  then show ?thesis by (simp add: path_for_host_def asm2_translate_path_def)
qed

lemma translate_sdcard:
  assumes "base \<noteq> []" and "rest = [] \<or> hd rest = 0x2F" and "List.length (base @ rest) < n"
  shows "asm2_translate_path base n (Some (cstr ''/sdcard'' @ rest)) = Translated (base @ rest)"
proof -
  have "find (\<lambda>prefix. below prefix (cstr ''/sdcard'' @ rest)) storage_prefixes = Some (cstr ''/sdcard'')"
    using assms(2) by (simp add: storage_prefixes_def below_append)
  then show ?thesis using assms by (simp add: asm2_translate_path_def Let_def)
qed



text \<open>A storage root that ends in a slash is not recognised: the guest sees the host's path.\<close>

lemma root_with_slash_shows_host_path:
  assumes "rest \<noteq> []" and "hd rest \<noteq> 0x2F"
  shows "asm2_getcwd (r @ [0x2F]) (Some (r @ [0x2F] @ rest)) False 0 = Cwd_new (r @ [0x2F] @ rest)"
proof -
  have "\<not> below (r @ [0x2F]) ((r @ [0x2F]) @ rest)" unfolding below_append using assms by simp
  then show ?thesis by (simp add: asm2_getcwd_def Let_def)
qed

text \<open>Nor is a relative one, such as the \<open>./gamefiles\<close> of a start without an argument: the host's working
  directory is absolute.\<close>

lemma relative_root_shows_host_path:
  assumes "base \<noteq> []" and "hd base \<noteq> 0x2F" and "hd host = 0x2F" and "List.length host < n"
  shows "asm2_getcwd base (Some host) True n = Cwd_filled host"
proof -
  have "\<not> below base host"
  proof
    assume "below base host"
    then obtain rest where "host = base @ rest" by (rule belowE)
    then show False using assms(1-3) by simp
  qed
  then show ?thesis using assms(4) by (simp add: asm2_getcwd_def Let_def)
qed

text \<open>The name that \<open>mkstemp\<close> gives the guest is the name of the file it made: its translation is the host's
  name, when the host keeps its part of the bargain and changes the last six characters only.\<close>

lemma mkstemp_names_agree:
  assumes "asm2_translate_path base path_max (Some p) = Translated t" and "mkstemp t = (fd, take (List.length t - 6) t @ six)"
    and "fd \<ge> 0" and "List.length six = 6" and "0x2F \<notin> set six"
    and "p = prefix @ rest" and "prefix \<in> set storage_prefixes" and "rest \<noteq> [] \<longrightarrow> hd rest = 0x2F"
    and "find (\<lambda>prefix. below prefix p) storage_prefixes = Some prefix" and "6 < List.length rest"
  shows "asm2_mkstemp base mkstemp (Some p) = (fd, Some (prefix @ take (List.length rest - 6) rest @ six))
     \<and> below prefix (prefix @ take (List.length rest - 6) rest @ six)
     \<and> base @ drop (List.length prefix) (prefix @ take (List.length rest - 6) rest @ six) = take (List.length t - 6) t @ six"
proof -
  have t: "t = base @ rest"
    using assms(1,6,9) by (auto simp: asm2_translate_path_def Let_def split: if_splits)
  have "take (List.length t - 6) t = base @ take (List.length rest - 6) rest"
    using assms(10) t by (simp add: add_diff_assoc)
  moreover have "take (List.length p - 6) p = prefix @ take (List.length rest - 6) rest"
    using assms(6,10) by (simp add: add_diff_assoc)
  moreover have "rest \<noteq> []" using assms(10) by auto
  moreover from this have "hd (take (List.length rest - 6) rest @ six) = 0x2F"
    using assms(8,10) by (cases rest) (simp_all add: Suc_diff_le)
  ultimately show ?thesis
    using assms(1-4,6,8,10) t by (simp add: asm2_mkstemp_def Let_def below_append)
qed

section \<open>Signals there and back\<close>

lemma mask_to_guest_bits:
  "bit (fold (\<lambda>i m. if i \<in> set signals then m OR push_bit (i - 1) 1 else m) [1 ..< k] (0 :: u32)) n
     \<longleftrightarrow> n < 32 \<and> n + 1 < k \<and> n + 1 \<in> set signals"
proof (induction k)
  case (Suc k)
  show ?case
  proof (cases "k = 0")
    case False
    then have step: "[1 ..< Suc k] = [1 ..< k] @ [k]" by simp
    show ?thesis
    proof (cases "n + 1 = k")
      case True
      then show ?thesis using Suc by (simp only: step fold_append o_apply) (auto simp: bit_simps)
    next
      case other: False
      then have "bit (push_bit (k - 1) (1 :: u32)) n \<longleftrightarrow> False" using False by (auto simp: bit_simps)
      then show ?thesis using Suc other by (simp only: step fold_append o_apply) (auto simp: bit_or_iff)
    qed
  qed simp
qed simp

lemma mask_to_host_set: "i \<in> set (mask_to_host m) \<longleftrightarrow> 1 \<le> i \<and> i \<le> 32 \<and> bit m (i - 1)"
proof -
  have "m AND push_bit (i - 1) 1 \<noteq> 0 \<longleftrightarrow> bit m (i - 1)"
    using and_exp_eq_0_iff_not_bit [of m "i - 1"] by (simp add: push_bit_eq_mult)
  then show ?thesis by (auto simp: mask_to_host_def)
qed

lemma sigaction_round_trip: "action_to_guest (action_to_host g) = g\<lparr>gs_restorer := 0\<rparr>"
proof -
  have "mask_to_guest (mask_to_host (gs_mask g)) = gs_mask g"
  proof (rule bit_word_eqI)
    fix n
    assume "n < LENGTH(32)"
    moreover have "bit (mask_to_guest (mask_to_host (gs_mask g))) n
        \<longleftrightarrow> n < 32 \<and> n + 1 < 33 \<and> n + 1 \<in> set (mask_to_host (gs_mask g))"
      by (simp only: mask_to_guest_def mask_to_guest_bits)
    ultimately show "bit (mask_to_guest (mask_to_host (gs_mask g))) n = bit (gs_mask g) n"
      by (simp add: mask_to_host_set)
  qed
  then show ?thesis by (simp add: action_to_guest_def action_to_host_def)
qed

section \<open>Buffers\<close>

text \<open>\<open>strerror_r\<close> stays inside the buffer and always ends with a NUL.\<close>

lemma strerror_fits:
  assumes "asm2_strerror_r strerror e buffer n = (r, Some content)"
  shows "List.length content \<le> n \<and> content \<noteq> [] \<and> last content = 0 \<and> (r = 0 \<longleftrightarrow> List.length (strerror e) < n)"
  using assms by (auto simp: asm2_strerror_r_def Let_def split: if_splits)

lemma readdir_name_fits: "asm2_readdir (Some h) = Some g \<Longrightarrow> List.length (de_name g) < 256"
  by (auto simp: asm2_readdir_def)

lemma bionic_init_lengths:
  "List.length (bi_ctype (asm2_bionic_init cls lo up page base b)) = 257
   \<and> List.length (bi_tolower (asm2_bionic_init cls lo up page base b)) = 257
   \<and> List.length (bi_toupper (asm2_bionic_init cls lo up page base b)) = 257
   \<and> List.length (bi_root (asm2_bionic_init cls lo up page base b)) < path_max"
  by (auto simp: asm2_bionic_init_def split: option.split)

end
