(* ===== verification/Asm2_GameCalls.thy ===== *)
theory Asm2_GameCalls
  imports Asm2_Preferences
begin

text \<open>
  The Java side of the game (\<open>src/asm2_127/src/android_callbacks.c\<close>): the state that the callbacks share, the
  requests to leave or restart, and \<open>asm2_android_method_callback\<close>, which answers a call by class, name and
  signature.  The handler is cut into its sections, in the order in which it tests them; the DataSharing and
  preference sections call the store of \<open>Asm2_SharedStore\<close> and \<open>Asm2_Preferences\<close>.
\<close>

section \<open>State\<close>

datatype lifecycle_request = LC_none | LC_exit | LC_restart

datatype exit_phase = Exit_idle | Exit_running | Exit_done

text \<open>The calls back into the game, with the class handle they carry.\<close>

datatype guest_call = Call_exit_game u32 | Call_set_paths u32 bytes bytes bytes

text \<open>The game's functions that have been bound: \<open>an_set_paths\<close> and \<open>an_exit\<close> tell whether there is one.\<close>

record android =
  an_width :: int
  an_height :: int
  an_resource :: bytes
  an_files :: bytes
  an_cache :: bytes
  an_set_paths :: bool
  an_class :: u32
  an_paths_applied :: bool
  an_view :: "int list"
  an_view_received :: bool
  an_request :: lifecycle_request
  an_phase :: exit_phase
  an_exit :: bool
  an_exit_class :: u32
  an_store :: android_store
  an_calls :: "guest_call list"

abbreviation package_name :: string where "package_name \<equiv> ''com.gameloft.android.ANMP.GloftASHM''"

definition resource_path :: bytes where
  "resource_path = cstr (''/sdcard/Android/data/'' @ package_name @ ''/files'')"

definition files_path :: bytes where
  "files_path = cstr (''/sdcard/Android/data/'' @ package_name @ ''/files/save'')"

definition cache_path :: bytes where
  "cache_path = cstr (''/sdcard/Android/data/'' @ package_name @ ''/cache'')"

definition asm2_android_state_init :: "bool \<Rightarrow> android" where
  "asm2_android_state_init mutex_ok =
     \<lparr>an_width = 1280, an_height = 720, an_resource = resource_path, an_files = files_path, an_cache = cache_path,
      an_set_paths = False, an_class = 0, an_paths_applied = False, an_view = [0, 0, 0, 0, 0],
      an_view_received = False, an_request = LC_none, an_phase = Exit_idle, an_exit = False, an_exit_class = 0,
      an_store = \<lparr>sh_entries = [], sh_storage = None, sh_mutex_initialized = mutex_ok, sh_locked = False\<rparr>,
      an_calls = []\<rparr>"

definition asm2_android_set_display :: "int \<Rightarrow> int \<Rightarrow> android \<Rightarrow> android" where
  "asm2_android_set_display width height a =
     (let a1 = (if width > 0 then a\<lparr>an_width := width\<rparr> else a)
      in if height > 0 then a1\<lparr>an_height := height\<rparr> else a1)"

definition asm2_android_bind_paths :: "bool \<Rightarrow> u32 \<Rightarrow> android \<Rightarrow> android" where
  "asm2_android_bind_paths set_paths gl2jni_class a = a\<lparr>an_set_paths := set_paths, an_class := gl2jni_class\<rparr>"

definition asm2_android_bind_game_options_exit :: "bool \<Rightarrow> u32 \<Rightarrow> android \<Rightarrow> android" where
  "asm2_android_bind_game_options_exit function class_handle a =
     a\<lparr>an_exit := function, an_exit_class := class_handle\<rparr>"

section \<open>Leaving the game\<close>

definition asm2_android_lifecycle_requested :: "android \<Rightarrow> bool" where
  "asm2_android_lifecycle_requested a \<longleftrightarrow> an_request a \<noteq> LC_none"

definition asm2_android_game_options_exit_done :: "android \<Rightarrow> bool" where
  "asm2_android_game_options_exit_done a \<longleftrightarrow> an_phase a = Exit_done"

text \<open>The compare-and-exchange: whether it was the first, and the state.\<close>

definition lifecycle_request_once :: "lifecycle_request \<Rightarrow> android \<Rightarrow> bool \<times> android" where
  "lifecycle_request_once request a =
     (if an_request a = LC_none then (True, a\<lparr>an_request := request\<rparr>) else (False, a))"

definition begin_exit :: "android \<Rightarrow> bool \<times> android" where
  "begin_exit a = (if an_phase a = Exit_idle then (True, a\<lparr>an_phase := Exit_running\<rparr>) else (False, a))"

definition call_exit :: "android \<Rightarrow> android" where
  "call_exit a = (if an_exit a then a\<lparr>an_calls := an_calls a @ [Call_exit_game (an_exit_class a)]\<rparr> else a)"

definition finish_exit :: "android \<Rightarrow> android" where
  "finish_exit a = a\<lparr>an_phase := Exit_done\<rparr>"

definition dispatch_game_options_exit_once :: "android \<Rightarrow> android" where
  "dispatch_game_options_exit_once a = (case begin_exit a of (first, a1) \<Rightarrow> if first then finish_exit (call_exit a1) else a1)"

section \<open>Calls and answers\<close>

text \<open>An argument is a string handle with its text, a bundle, another handle, NULL or an int.\<close>

datatype jarg = J_text bytes | J_bundle "(bytes \<times> bundle_value) list" | J_other | J_null | J_int int

record jcall =
  jc_class :: "bytes option"
  jc_name :: "bytes option"
  jc_signature :: "bytes option"
  jc_static :: bool
  jc_receiver :: u32
  jc_args :: "jarg list"

text \<open>What the billing answers in its bundle.  A float is its bits.\<close>

datatype billing_reply = R_none | R_bytes bytes | R_int int

datatype answer = Not_handled | A_void | A_text bytes | A_null | A_activity | A_ints "u32 list"
  | A_bundle jbundle billing_reply | A_int int | A_bool bool | A_long int | A_float u32

text \<open>The host: allocations, the process, the clocks, the file system's blocks (available, fragment size, block
  size), and the kilobytes of some blocks as a float.  An answer of \<open>None\<close> is a process killed during a write.\<close>

record host_env =
  he_mem :: "nat \<Rightarrow> bool"
  he_pid :: nat
  he_monotonic :: "int option"
  he_realtime :: "(int \<times> int) option"
  he_statvfs :: "bytes \<Rightarrow> (nat \<times> nat \<times> nat) option"
  he_kib :: "nat \<Rightarrow> nat \<Rightarrow> u32"

type_synonym outcome = "(answer \<times> android \<times> world) option"

type_synonym handler = "host_env \<Rightarrow> jcall \<Rightarrow> android \<Rightarrow> world \<Rightarrow> outcome"

definition text_equal :: "bytes option \<Rightarrow> bytes \<Rightarrow> bool" where
  "text_equal left right \<longleftrightarrow> left = Some right"

definition callback_object :: "jcall \<Rightarrow> nat \<Rightarrow> jarg" where
  "callback_object c index = (if index < List.length (jc_args c) then jc_args c ! index else J_null)"

definition callback_int :: "jcall \<Rightarrow> nat \<Rightarrow> int" where
  "callback_int c index =
     (if index < List.length (jc_args c) then (case jc_args c ! index of J_int i \<Rightarrow> i | _ \<Rightarrow> 0) else 0)"

fun text_of :: "jarg \<Rightarrow> bytes option" where
  "text_of (J_text s) = Some s"
| "text_of _ = None"

fun bundle_of :: "jarg \<Rightarrow> jbundle" where
  "bundle_of (J_bundle es) = Some es"
| "bundle_of _ = None"

definition named :: "string list \<Rightarrow> jcall \<Rightarrow> bool" where
  "named names c \<longleftrightarrow> jc_name c \<in> set (map (\<lambda>n. Some (cstr n)) names)"

definition answered :: "answer \<Rightarrow> android \<Rightarrow> world \<Rightarrow> outcome" where
  "answered r a w = Some (r, a, w)"

definition return_string :: "string \<Rightarrow> android \<Rightarrow> world \<Rightarrow> outcome" where
  "return_string s = answered (A_text (cstr s))"

text \<open>The next section is tried when this one has not returned.\<close>

definition otherwise :: "handler \<Rightarrow> handler \<Rightarrow> handler" where
  "otherwise f g env c a w =
     (case f env c a w of Some (Not_handled, a', w') \<Rightarrow> g env c a' w' | r \<Rightarrow> r)"

text \<open>The result of an operation on the store, as the answer of the callback.\<close>

definition after_store :: "answer \<Rightarrow> android \<Rightarrow> store_result \<Rightarrow> outcome" where
  "after_store r a result =
     (case result of (None, _, _) \<Rightarrow> None | (Some _, st, w) \<Rightarrow> Some (r, a\<lparr>an_store := st\<rparr>, w))"

section \<open>Sections of the handler\<close>

definition activity_class :: bytes where "activity_class = cstr ''com/gameloft/glf/GL2JNIActivity''"

definition sutils_class :: bytes where "sutils_class = cstr ''com/gameloft/android/ANMP/GloftASHM/GLUtils/SUtils''"

definition billing_class :: bytes where "billing_class = cstr ''com/gameloft/android/ANMP/GloftASHM/iab/InAppBilling''"

definition data_sharing_class :: bytes where
  "data_sharing_class = cstr ''com/gameloft/android/ANMP/GloftASHM/DataSharing''"

definition installer_class :: bytes where
  "installer_class = cstr ''com/gameloft/android/ANMP/GloftASHM/installer/GameInstaller''"

definition lifecycle_calls :: handler where
  "lifecycle_calls env c a w =
     (if jc_static c \<and> text_equal (jc_class c) activity_class \<and> text_equal (jc_signature c) (cstr ''()V'') then
        (if named [''sExitGame''] c then
           (case lifecycle_request_once LC_exit a of
              (first, a1) \<Rightarrow> answered A_void (if first then dispatch_game_options_exit_once a1 else a1) w)
         else if named [''RestartGame''] c then answered A_void (snd (lifecycle_request_once LC_restart a)) w
         else answered Not_handled a w)
      else answered Not_handled a w)"

definition native_connection_type :: int where "native_connection_type = 0"

definition bundle_calls :: handler where
  "bundle_calls env c a w =
     (if \<not> text_equal (jc_class c) sutils_class then answered Not_handled a w
      else if named [''initCheckConnectionType''] c then answered (A_int native_connection_type) a w
      else if named [''nativeGetPreference''] c
        \<and> text_equal (jc_signature c) (cstr ''(Landroid/os/Bundle;)Landroid/os/Bundle;'') then
        (let bundle = (if callback_object c 0 = J_null then (if he_mem env 3 then Some [] else None)
                       else bundle_of (callback_object c 0))
         in answered (A_bundle (preference_get (he_mem env) (an_store a) bundle) R_none) a w)
      else if named [''nativeSetPreference''] c \<and> text_equal (jc_signature c) (cstr ''(Landroid/os/Bundle;)V'') then
        (if callback_object c 0 = J_null then answered A_void a w
         else after_store A_void a
                (preference_set (he_mem env) (he_pid env) (an_store a) w (bundle_of (callback_object c 0))))
      else answered Not_handled a w)"

definition billing_reply_of :: "int \<Rightarrow> billing_reply" where
  "billing_reply_of operation =
     (if operation = 7 then R_bytes []
      else if operation = 8 then R_bytes (cstr ''en_BR@currency='')
      else if operation = 10 then R_int 1 else R_none)"

definition put_reply :: "bool \<Rightarrow> jbundle \<Rightarrow> billing_reply \<Rightarrow> jbundle" where
  "put_reply mem b r =
     (case r of
        R_none \<Rightarrow> b
      | R_bytes _ \<Rightarrow> snd (bundle_set mem b (cstr ''R'') B_object)
      | R_int i \<Rightarrow> snd (bundle_set mem b (cstr ''R'') (B_int i)))"

definition billing_calls :: handler where
  "billing_calls env c a w =
     (if text_equal (jc_class c) billing_class \<and> named [''getData''] c then
        (let b = bundle_of (callback_object c 0)
         in case bundle_get_int b (cstr ''O'') of
              None \<Rightarrow> answered (A_bundle b R_none) a w
            | Some operation \<Rightarrow>
                (let r = billing_reply_of operation in answered (A_bundle (put_reply (he_mem env 0) b r) r) a w))
      else answered Not_handled a w)"

definition sharing_calls :: handler where
  "sharing_calls env c a w =
     (if \<not> text_equal (jc_class c) data_sharing_class then answered Not_handled a w
      else let key = text_of (callback_object c 0); reserved = preference_storage_key_reserved key
        in if named [''setSharedValue''] c then
             (if reserved then answered A_void a w
              else after_store A_void a
                     (shared_value_set (he_pid env) (an_store a) w key (text_of (callback_object c 1))))
           else if named [''getSharedValue''] c then
             (if reserved then return_string '''' a w else answered (A_text (shared_value_get (an_store a) key)) a w)
           else if named [''isSharedValue''] c then
             answered (A_bool (if reserved then False else shared_value_exists (an_store a) key)) a w
           else if named [''deleteSharedValue''] c then
             (if reserved then answered A_void a w
              else after_store A_void a (shared_value_delete (he_pid env) (an_store a) w key))
           else answered Not_handled a w)"

definition string_signature :: "nat \<Rightarrow> bytes" where
  "string_signature n = cstr (''('' @ concat (replicate n ''Ljava/lang/String;'') @ '')Ljava/lang/String;'')"

text \<open>The two overloads of \<open>getPreferenceString\<close>; another signature ends the whole search.\<close>

definition preference_string_answer :: "host_env \<Rightarrow> jcall \<Rightarrow> android \<Rightarrow> answer" where
  "preference_string_answer env c a =
     (let ask = (\<lambda>default_value name.
            case preference_get_string_method (he_mem env) (an_store a) (text_of (callback_object c 0)) default_value name of
              None \<Rightarrow> A_null | Some s \<Rightarrow> A_text s)
      in if text_equal (jc_signature c) (string_signature 2) then ask (Some []) (text_of (callback_object c 1))
         else if text_equal (jc_signature c) (string_signature 3)
         then ask (text_of (callback_object c 1)) (text_of (callback_object c 2))
         else Not_handled)"

definition identity_calls :: handler where
  "identity_calls env c a w =
     (if named [''getPackage''] c then return_string package_name a w
      else if named [''getGameName''] c then return_string ''ANMP.GloftASHM'' a w
      else if named [''getSDFolder''] c then answered (A_text (an_resource a)) a w
      else if named [''getSaveFolder''] c then answered (A_text (an_resource a)) a w
      else if named [''getContext''] c then answered A_activity a w
      else if named [''GetApkPath''] c then return_string ''/sdcard/base.apk'' a w
      else if named [''getGLUID''] c then answered (A_ints [0xed1e84ca, 0x8dd27181, 0xba164bf8, 0xc58a09ca]) a w
      else if named [''getGLDID''] c then return_string ''4e4558544f533132'' a w
      else if named [''getPhoneCarrier'', ''getMacAddress''] c then return_string '''' a w
      else if named [''getLocaleCountry''] c then return_string ''BR'' a w
      else if named [''getLocaleLanguage''] c then return_string ''en'' a w
      else if named [''getManufacturerModel''] c then return_string ''NextOS_Mali-450'' a w
      else if named [''getUserAgent''] c then return_string ''Mozilla/5.0 (Linux; Android 8.1; NextOS Mali-450)'' a w
      else answered Not_handled a w)"

definition apply_paths :: "u32 \<Rightarrow> android \<Rightarrow> android" where
  "apply_paths receiver a =
     (if an_set_paths a \<and> \<not> an_paths_applied a
      then a\<lparr>an_calls := an_calls a @ [Call_set_paths (if an_class a \<noteq> 0 then an_class a else receiver)
                                         (an_resource a) (an_files a) (an_cache a)],
             an_paths_applied := True\<rparr>
      else a)"

definition view_calls :: handler where
  "view_calls env c a w =
     (if named [''setupPaths''] c then answered A_void (apply_paths (jc_receiver c) a) w
      else if named [''setViewSettings''] c
      then answered A_void (a\<lparr>an_view := map (callback_int c) [0 ..< 5], an_view_received := True\<rparr>) w
      else if named [''createView'', ''NativeListenerRegistered'', ''NativeListenerUnRegistered''] c then answered A_void a w
      else if named [''setCurrentContext''] c then answered (A_bool True) a w
      else if named [''getResource''] c then answered A_null a w
      else if named [''CheckHDMIState''] c then answered (A_int 0) a w
      else if named [''GetHDMIName''] c then return_string '''' a w
      else answered Not_handled a w)"

definition device_calls :: handler where
  "device_calls env c a w =
     (if named [''getUDID'', ''getHDIDFV'', ''getAndroidId''] c then return_string ''4e4558544f533132'' a w
      else if named [''getCountry''] c then return_string ''BR'' a w
      else if named [''GetWindowWidth'', ''GetDeviceWidth''] c then answered (A_int (an_width a)) a w
      else if named [''GetWindowHeight'', ''GetDeviceHeight''] c then answered (A_int (an_height a)) a w
      else if named [''GetManufacturer'', ''getPhoneManufacturer''] c then return_string ''NextOS'' a w
      else if named [''GetDeviceName'', ''getDeviceName''] c then return_string ''NextOS Mali-450'' a w
      else if named [''GetDeviceFirmware'', ''getDeviceFirmware''] c then return_string ''8.1'' a w
      else if named [''GetDeviceLanguage'', ''retrieveDeviceLanguage''] c then return_string ''en'' a w
      else if named [''getPhoneModel''] c then return_string ''Mali-450'' a w
      else if named [''getPhoneDevice'', ''getPhoneProduct''] c then return_string ''NextOS'' a w
      else if named [''retrieveDeviceCountry''] c then return_string ''BR'' a w
      else if named [''retrieveDeviceCarrier''] c then return_string '''' a w
      else answered Not_handled a w)"

definition uptime_seconds :: "host_env \<Rightarrow> int" where
  "uptime_seconds env = (case he_monotonic env of None \<Rightarrow> 0 | Some s \<Rightarrow> if s > 2147483647 then 2147483647 else s)"

definition milliseconds_since_epoch :: "host_env \<Rightarrow> int" where
  "milliseconds_since_epoch env = (case he_realtime env of None \<Rightarrow> 0 | Some (s, ns) \<Rightarrow> s * 1000 + ns div 1000000)"

definition free_disk :: "host_env \<Rightarrow> android_store \<Rightarrow> u32" where
  "free_disk env st =
     (case sh_storage st of
        None \<Rightarrow> 0
      | Some (directory, _) \<Rightarrow>
          (case he_statvfs env directory of
             None \<Rightarrow> 0
           | Some (available, fragment, block) \<Rightarrow> he_kib env available (if fragment \<noteq> 0 then fragment else block)))"

definition resource_calls :: handler where
  "resource_calls env c a w =
     (if named [''JGetMaxCPUSpeed''] c then answered (A_float 0x44BB8000) a w
      else if named [''JGetCurrentCPUSpeed''] c then answered (A_float 0x44960000) a w
      else if named [''JGetMaxAvailableRam''] c then answered (A_float 0x44800000) a w
      else if named [''JGetFreeDiskSpace''] c then answered (A_float (free_disk env (an_store a))) a w
      else if named [''JGetFreeRam''] c then answered (A_float 0x44000000) a w
      else if named [''GetUptimeSystem''] c then answered (A_int (uptime_seconds env)) a w
      else if named [''sGetMilliseconds''] c then answered (A_long (milliseconds_since_epoch env)) a w
      else answered Not_handled a w)"

definition overlay_calls :: handler where
  "overlay_calls env c a w =
     (if named [''sLaunchVideoPlayer''] c then answered (A_bool False) a w
      else if named [''sIsKeyboardVisible''] c then answered (A_int 0) a w
      else if named [''sGetKeyboardText''] c then answered A_null a w
      else if named [''sIGPLaunch'', ''sBrowserLaunch'', ''sBrowserLaunchEncrypt'', ''sShowKeyboard'',
          ''sWelcomeScreenLaunch'', ''sWelcomeScreenSetIsPau'', ''trackAndroidHits'', ''sOnlineTracker'',
          ''setAnonymousID'', ''sShowToast'', ''sSetFixedSize''] c then answered A_void a w
      else answered Not_handled a w)"

definition named_calls :: handler where
  "named_calls = otherwise identity_calls (otherwise view_calls (otherwise device_calls
     (otherwise resource_calls overlay_calls)))"

section \<open>The handler\<close>

definition asm2_android_method_callback :: handler where
  "asm2_android_method_callback env c a w =
     (if jc_name c = None then answered Not_handled a w
      else otherwise lifecycle_calls (otherwise bundle_calls (otherwise billing_calls (otherwise sharing_calls
        (\<lambda>env c a w. if text_equal (jc_class c) sutils_class \<and> named [''getPreferenceString''] c
                      then answered (preference_string_answer env c a) a w
                      else named_calls env c a w)))) env c a w)"

definition asm2_android_field_get_callback ::
  "bytes option \<Rightarrow> bytes option \<Rightarrow> bytes option \<Rightarrow> bool \<Rightarrow> bytes option" where
  "asm2_android_field_get_callback class_name name signature is_static =
     (if \<not> is_static \<or> \<not> text_equal class_name installer_class \<or> \<not> text_equal name (cstr ''mPreferencesName'')
        \<or> \<not> text_equal signature (cstr ''Ljava/lang/String;'')
      then None else Some (cstr ''GameActivityPrefs''))"

end
