(* ===== verification/Asm2_GameCallProps.thy ===== *)
theory Asm2_GameCallProps
  imports Asm2_GameCalls
begin

text \<open>
  What the game's calls can do to the store: which keys a call can change, and what the DataSharing class can see.
\<close>

section \<open>Which calls write\<close>

text \<open>A call writes the key it names: \<open>setSharedValue\<close> and \<open>deleteSharedValue\<close> one that is not reserved,
  \<open>nativeSetPreference\<close> the key of its request.\<close>

definition may_write :: "jcall \<Rightarrow> bytes \<Rightarrow> bool" where
  "may_write c k \<longleftrightarrow>
     (jc_class c = Some data_sharing_class \<and> named [''setSharedValue'', ''deleteSharedValue''] c
       \<and> text_of (callback_object c 0) = Some k \<and> \<not> preference_storage_key_reserved (Some k))
   \<or> (jc_class c = Some sutils_class \<and> named [''nativeSetPreference''] c
       \<and> request_key (bundle_of (callback_object c 0)) = Some k)"

text \<open>Strings of C, and bundles with values of their type.\<close>

definition args_ok :: "jcall \<Rightarrow> bool" where
  "args_ok c \<longleftrightarrow> (\<forall>arg \<in> set (jc_args c). (\<forall>s. text_of arg = Some s \<longrightarrow> is_cstr s) \<and> bundle_ok (bundle_of arg))"

lemma bundle_ok_None [simp]: "bundle_ok None"
  by (simp add: bundle_ok_def bundle_get_def)

lemma callback_object_ok:
  assumes "args_ok c"
  shows "text_of (callback_object c i) = Some s \<Longrightarrow> is_cstr s" and "bundle_ok (bundle_of (callback_object c i))"
  using assms by (auto simp: args_ok_def callback_object_def split: if_splits)

definition writes_only :: "handler \<Rightarrow> bool" where
  "writes_only f \<longleftrightarrow> (\<forall>env c a w r a' w'. ds_valid (an_store a, w) \<longrightarrow> args_ok c \<longrightarrow> f env c a w = Some (r, a', w') \<longrightarrow>
     ds_valid (an_store a', w')
     \<and> (\<forall>k. \<not> may_write c k \<longrightarrow> ds_lookup (an_store a', w') k = ds_lookup (an_store a, w) k))"

definition keeps_store :: "handler \<Rightarrow> bool" where
  "keeps_store f \<longleftrightarrow> (\<forall>env c a w r a' w'. f env c a w = Some (r, a', w') \<longrightarrow> an_store a' = an_store a \<and> w' = w)"

lemma keeps_store_writes: "keeps_store f \<Longrightarrow> writes_only f"
  unfolding keeps_store_def writes_only_def by metis

lemma otherwise_cases:
  assumes "otherwise f g env c a w = Some (r, a', w')"
  obtains "f env c a w = Some (r, a', w')" | a1 w1 where "f env c a w = Some (Not_handled, a1, w1)" "g env c a1 w1 = Some (r, a', w')"
  using assms by (auto simp: otherwise_def split: option.splits prod.splits answer.splits)

lemma keeps_store_otherwise: "keeps_store f \<Longrightarrow> keeps_store g \<Longrightarrow> keeps_store (otherwise f g)"
  unfolding keeps_store_def by (metis otherwise_cases)

lemma writes_only_otherwise:
  assumes "writes_only f" "writes_only g"
  shows "writes_only (otherwise f g)"
  unfolding writes_only_def
proof (intro allI impI)
  fix env c a w r a' w'
  assume a: "ds_valid (an_store a, w)" "args_ok c" "otherwise f g env c a w = Some (r, a', w')"
  note f = assms(1) [unfolded writes_only_def, rule_format, OF a(1,2)]
  from a(3) show "ds_valid (an_store a', w')
     \<and> (\<forall>k. \<not> may_write c k \<longrightarrow> ds_lookup (an_store a', w') k = ds_lookup (an_store a, w) k)"
  proof (cases rule: otherwise_cases)
    case 1
    with f show ?thesis by blast
  next
    case (2 a1 w1)
    note f1 = f [OF 2(1)]
    note g = assms(2) [unfolded writes_only_def, rule_format, OF conjunct1 [OF f1] a(2) 2(2)]
    from f1 g show ?thesis by simp
  qed
qed

lemma answered_iff [simp]: "answered r a w = Some (s, a', w') \<longleftrightarrow> s = r \<and> a' = a \<and> w' = w"
  by (auto simp: answered_def)

lemma return_string_iff [simp]: "return_string t a w = Some (s, a', w') \<longleftrightarrow> s = A_text (cstr t) \<and> a' = a \<and> w' = w"
  by (simp add: return_string_def)

lemma request_once_store [simp]: "an_store (snd (lifecycle_request_once q a)) = an_store a"
  by (simp add: lifecycle_request_once_def)

lemma dispatch_store [simp]: "an_store (dispatch_game_options_exit_once a) = an_store a"
  by (simp add: dispatch_game_options_exit_once_def begin_exit_def call_exit_def finish_exit_def)

lemma apply_paths_store [simp]: "an_store (apply_paths receiver a) = an_store a"
  by (simp add: apply_paths_def)

lemma quiet_sections:
  "keeps_store lifecycle_calls" "keeps_store billing_calls" "keeps_store identity_calls" "keeps_store view_calls"
  "keeps_store device_calls" "keeps_store resource_calls" "keeps_store overlay_calls"
  by (auto simp: keeps_store_def lifecycle_calls_def lifecycle_request_once_def billing_calls_def Let_def
      identity_calls_def view_calls_def device_calls_def resource_calls_def overlay_calls_def
      split: if_splits option.splits)

lemma named_calls_keep: "keeps_store named_calls"
  unfolding named_calls_def by (intro keeps_store_otherwise quiet_sections)

section \<open>The two sections that write\<close>

lemma set_NULL: "shared_value_set pid st w key None = shared_value_set pid st w key (Some [])"
  unfolding shared_value_set_def shared_value_set_locked_def option.case by (rule refl)

lemma set_no_key: "shared_value_set pid st w None v = (Some False, unlock_store (lock_store st), w)"
  by (simp add: shared_value_set_def shared_value_set_locked_def)

lemma delete_no_key: "shared_value_delete pid st w None = (Some False, unlock_store (lock_store st), w)"
  by (simp add: shared_value_delete_def shared_value_delete_locked_def shared_value_index_def)

lemma after_store_iff [simp]:
  "after_store r a res = Some (s, a', w') \<longleftrightarrow> (\<exists>b st. res = (Some b, st, w') \<and> s = r \<and> a' = a\<lparr>an_store := st\<rparr>)"
  by (auto simp: after_store_def split: prod.splits option.splits)

text \<open>An operation of the store that does not end the process changes its own key at most.\<close>

lemma refines_other:
  assumes "ds_valid (st, w)" and "refines m st (Some b, st', w')" and "\<And>j. j \<noteq> k \<Longrightarrow> m j = map_of (sh_entries st) j"
  shows "ds_valid (st', w') \<and> (\<forall>j. j \<noteq> k \<longrightarrow> ds_lookup (st', w') j = ds_lookup (st, w) j)"
  using assms by (cases b) (auto simp: refines_def ds_valid_def ds_lookup_def)

lemma set_changes_one:
  assumes "ds_valid (st, w)" "is_cstr k" "\<And>s. value = Some s \<Longrightarrow> is_cstr s"
    and "shared_value_set pid st w (Some k) value = (Some b, st', w')"
  shows "ds_valid (st', w') \<and> (\<forall>j. j \<noteq> k \<longrightarrow> ds_lookup (st', w') j = ds_lookup (st, w) j)"
proof -
  obtain v where v: "is_cstr v" "shared_value_set pid st w (Some k) (Some v) = (Some b, st', w')"
  proof (cases "value")
    case None
    with that [of "[]"] assms(4) show thesis by (simp add: set_NULL is_cstr_def)
  next
    case (Some v)
    with that [of v] assms(3,4) show thesis by simp
  qed
  from shared_value_set_refines [of st w k v pid] assms(1,2) v
  have "refines ((map_of (sh_entries st))(k \<mapsto> v)) st (Some b, st', w')" by (simp add: ds_valid_def)
  then show ?thesis by (rule refines_other [OF assms(1)]) simp
qed

lemma delete_changes_one:
  assumes "ds_valid (st, w)" "is_cstr k" and "shared_value_delete pid st w (Some k) = (Some b, st', w')"
  shows "ds_valid (st', w') \<and> (\<forall>j. j \<noteq> k \<longrightarrow> ds_lookup (st', w') j = ds_lookup (st, w) j)"
proof -
  from run_op_refines [of st w "Delete_op k" pid] assms
  have "refines ((map_of (sh_entries st))(k := None)) st (Some b, st', w')"
    by (simp add: ds_valid_def op_ok_def spec_op_def run_op_def)
  then show ?thesis by (rule refines_other [OF assms(1)]) simp
qed

lemma relocked_valid: "ds_valid (st, w) \<Longrightarrow> ds_valid (unlock_store (lock_store st), w)"
  "ds_lookup (unlock_store (lock_store st), w) k = ds_lookup (st, w) k"
  by (auto simp: ds_valid_def ds_lookup_def unlock_store_def lock_store_def synced_def split: option.splits)

lemma sharing_calls_write: "writes_only sharing_calls"
  unfolding writes_only_def
proof (intro allI impI)
  fix env c a w r a' w'
  assume a: "ds_valid (an_store a, w)" "args_ok c" "sharing_calls env c a w = Some (r, a', w')"
  let ?key = "text_of (callback_object c 0)"
  let ?ok = "ds_valid (an_store a', w')
     \<and> (\<forall>k. \<not> may_write c k \<longrightarrow> ds_lookup (an_store a', w') k = ds_lookup (an_store a, w) k)"
  from a(3) consider "an_store a' = an_store a" "w' = w"
    | b where "jc_class c = Some data_sharing_class" "named [''setSharedValue''] c" "\<not> preference_storage_key_reserved ?key"
        "shared_value_set (he_pid env) (an_store a) w ?key (text_of (callback_object c 1)) = (Some b, an_store a', w')"
    | b where "jc_class c = Some data_sharing_class" "named [''deleteSharedValue''] c" "\<not> preference_storage_key_reserved ?key"
        "shared_value_delete (he_pid env) (an_store a) w ?key = (Some b, an_store a', w')"
    by (auto simp: sharing_calls_def Let_def text_equal_def split: if_splits)
  then show ?ok
  proof cases
    case 1
    with a(1) show ?thesis by simp
  next
    case (2 b)
    show ?thesis
    proof (cases ?key)
      case None
      then have "an_store a' = unlock_store (lock_store (an_store a))" "w' = w" using 2 by (simp_all add: set_no_key)
      with a(1) relocked_valid show ?thesis by simp
    next
      case (Some k)
      note k = callback_object_ok [OF a(2)]
      from set_changes_one [OF a(1) k(1) [OF Some] callback_object_ok(1) [OF a(2), of 1] 2(4) [unfolded Some]]
      have step: "ds_valid (an_store a', w')" "\<And>j. j \<noteq> k \<Longrightarrow> ds_lookup (an_store a', w') j = ds_lookup (an_store a, w) j"
        by blast+
      have "may_write c k" using 2 Some by (simp add: may_write_def named_def)
      with step show ?thesis by metis
    qed
  next
    case (3 b)
    show ?thesis
    proof (cases ?key)
      case None
      then have "an_store a' = unlock_store (lock_store (an_store a))" "w' = w" using 3 by (simp_all add: delete_no_key)
      with a(1) relocked_valid show ?thesis by simp
    next
      case (Some k)
      note k = callback_object_ok [OF a(2)]
      from delete_changes_one [OF a(1) k(1) [OF Some] 3(4) [unfolded Some]]
      have step: "ds_valid (an_store a', w')" "\<And>j. j \<noteq> k \<Longrightarrow> ds_lookup (an_store a', w') j = ds_lookup (an_store a, w) j"
        by blast+
      have "may_write c k" using 3 Some by (simp add: may_write_def named_def)
      with step show ?thesis by metis
    qed
  qed
qed

lemma bundle_calls_write: "writes_only bundle_calls"
  unfolding writes_only_def
proof (intro allI impI)
  fix env c a w r a' w'
  assume a: "ds_valid (an_store a, w)" "args_ok c" "bundle_calls env c a w = Some (r, a', w')"
  let ?b = "bundle_of (callback_object c 0)"
  from a(3) consider "an_store a' = an_store a" "w' = w"
    | b where "jc_class c = Some sutils_class" "named [''nativeSetPreference''] c"
        "preference_set (he_mem env) (he_pid env) (an_store a) w ?b = (Some b, an_store a', w')"
    by (auto simp: bundle_calls_def Let_def text_equal_def split: if_splits)
  then show "ds_valid (an_store a', w')
     \<and> (\<forall>k. \<not> may_write c k \<longrightarrow> ds_lookup (an_store a', w') k = ds_lookup (an_store a, w) k)"
  proof cases
    case 1
    with a(1) show ?thesis by simp
  next
    case (2 b)
    have "request_key ?b \<noteq> Some k" if "\<not> may_write c k" for k
      using that 2 by (simp add: may_write_def)
    moreover obtain other where "request_key ?b \<noteq> Some other"
      by (metis not_Cons_self2 option.inject)
    ultimately show ?thesis
      using preference_set_isolated [OF a(1) callback_object_ok(2) [OF a(2)] 2(3)] by blast
  qed
qed

text \<open>C28. A call of the game changes at most the key of the store that it names: with arguments that are C strings
  and well-typed bundles, every callback that returns leaves memory and disk in agreement, and the only keys whose
  values can differ afterwards are the one a \<open>setSharedValue\<close> or \<open>deleteSharedValue\<close> names, when it is not
  reserved for preferences, and the one the bundle of a \<open>nativeSetPreference\<close> names.\<close>

theorem callback_writes_named_key:
  assumes "ds_valid (an_store a, w)" and "args_ok c"
    and "asm2_android_method_callback env c a w = Some (r, a', w')"
  shows "ds_valid (an_store a', w')
     \<and> (\<forall>k. \<not> may_write c k \<longrightarrow> ds_lookup (an_store a', w') k = ds_lookup (an_store a, w) k)"
proof -
  let ?rest = "\<lambda>env c a w. if text_equal (jc_class c) sutils_class \<and> named [''getPreferenceString''] c
                      then answered (preference_string_answer env c a) a w else named_calls env c a w"
  have "keeps_store ?rest"
    using named_calls_keep by (auto simp: keeps_store_def)
  then have "writes_only (otherwise lifecycle_calls (otherwise bundle_calls (otherwise billing_calls
      (otherwise sharing_calls ?rest))))"
    by (intro writes_only_otherwise keeps_store_writes bundle_calls_write sharing_calls_write quiet_sections)
  with assms show ?thesis
    unfolding asm2_android_method_callback_def writes_only_def by (cases "jc_name c = None") auto
qed

text \<open>A sample: the guest sets and then asks for a value.\<close>

definition sample_env :: host_env where
  "sample_env = \<lparr>he_mem = (\<lambda>_. True), he_pid = 1, he_monotonic = None, he_realtime = None, he_statvfs = (\<lambda>_. None),
     he_kib = (\<lambda>_ _. 0)\<rparr>"

definition sample_android :: "android_store \<Rightarrow> android" where
  "sample_android st = (asm2_android_state_init True)\<lparr>an_store := st\<rparr>"

definition sharing_call :: "string \<Rightarrow> jcall" where
  "sharing_call name = \<lparr>jc_class = Some data_sharing_class, jc_name = Some (cstr name), jc_signature = None, jc_static = True,
     jc_receiver = 0, jc_args = [J_text (cstr ''k''), J_text (cstr ''v'')]\<rparr>"

lemma sample_name: "named names (sharing_call name) \<longleftrightarrow> cstr name \<in> cstr ` set names"
  by (auto simp: named_def sharing_call_def)

lemma sample_not_reserved: "\<not> preference_storage_key_reserved (Some (cstr ''k''))"
  by (simp add: preference_storage_key_reserved_def preference_key_prefix_def starts_with_def cstr_def)

section \<open>What the DataSharing class can see\<close>

text \<open>Two states that differ in the preferences only.\<close>

definition same_but_preferences :: "android \<Rightarrow> android \<Rightarrow> bool" where
  "same_but_preferences a b \<longleftrightarrow> b = a\<lparr>an_store := an_store b\<rparr> \<and> sh_storage (an_store b) = sh_storage (an_store a)
     \<and> (\<forall>k. \<not> preference_storage_key_reserved (Some k) \<longrightarrow>
          map_of (sh_entries (an_store b)) k = map_of (sh_entries (an_store a)) k)"

definition answers_alike :: "handler \<Rightarrow> bool" where
  "answers_alike f \<longleftrightarrow> (\<forall>env c a b w v r a' w' s b' v'. same_but_preferences a b \<longrightarrow>
     f env c a w = Some (r, a', w') \<longrightarrow> f env c b v = Some (s, b', v') \<longrightarrow>
     s = r \<and> (r = Not_handled \<longrightarrow> a' = a \<and> b' = b))"

lemma answers_alikeD:
  assumes "answers_alike f" "same_but_preferences a b" "f env c a w = Some (r, a', w')" "f env c b v = Some (s, b', v')"
  shows "s = r" and "r = Not_handled \<Longrightarrow> a' = a" and "r = Not_handled \<Longrightarrow> b' = b"
  using assms unfolding answers_alike_def by metis+

lemma answers_alike_otherwise:
  assumes f: "answers_alike f" and g: "answers_alike g"
  shows "answers_alike (otherwise f g)"
  unfolding answers_alike_def
proof (intro allI impI)
  fix env c a b w v r a' w' s b' v'
  assume e: "same_but_preferences a b" "otherwise f g env c a w = Some (r, a', w')" "otherwise f g env c b v = Some (s, b', v')"
  from e(2) obtain r1 a1 w1 where fa: "f env c a w = Some (r1, a1, w1)"
    and ga: "r1 = Not_handled \<Longrightarrow> g env c a1 w1 = Some (r, a', w')" "r1 \<noteq> Not_handled \<Longrightarrow> (r1, a1, w1) = (r, a', w')"
    by (auto simp: otherwise_def split: option.splits prod.splits answer.splits)
  from e(3) obtain s1 b1 v1 where fb: "f env c b v = Some (s1, b1, v1)"
    and gb: "s1 = Not_handled \<Longrightarrow> g env c b1 v1 = Some (s, b', v')" "s1 \<noteq> Not_handled \<Longrightarrow> (s1, b1, v1) = (s, b', v')"
    by (auto simp: otherwise_def split: option.splits prod.splits answer.splits)
  note fD = answers_alikeD [OF f e(1) fa fb]
  show "s = r \<and> (r = Not_handled \<longrightarrow> a' = a \<and> b' = b)"
  proof (cases "r1 = Not_handled")
    case True
    with fD have "a1 = a" "b1 = b" "s1 = Not_handled" by simp_all
    with ga(1) gb(1) True have "g env c a w1 = Some (r, a', w')" "g env c b v1 = Some (s, b', v')" by simp_all
    from answers_alikeD [OF g e(1) this] show ?thesis by simp
  next
    case False
    with fD(1) ga(2) gb(2) show ?thesis by simp
  qed
qed

lemma same_but_preferences_fields:
  assumes "same_but_preferences a b"
  shows "an_width b = an_width a" "an_height b = an_height a" "an_resource b = an_resource a"
    "sh_storage (an_store b) = sh_storage (an_store a)"
proof -
  from assms have "b = a\<lparr>an_store := an_store b\<rparr>" by (simp add: same_but_preferences_def)
  from arg_cong [OF this, of an_width] arg_cong [OF this, of an_height] arg_cong [OF this, of an_resource]
  show "an_width b = an_width a" "an_height b = an_height a" "an_resource b = an_resource a" by simp_all
  from assms show "sh_storage (an_store b) = sh_storage (an_store a)" by (simp add: same_but_preferences_def)
qed

text \<open>The same for two outcomes, branch by branch.\<close>

definition alike :: "android \<Rightarrow> android \<Rightarrow> outcome \<Rightarrow> outcome \<Rightarrow> bool" where
  "alike a b p q \<longleftrightarrow> (\<forall>r a' w' s b' v'. p = Some (r, a', w') \<longrightarrow> q = Some (s, b', v') \<longrightarrow>
     s = r \<and> (r = Not_handled \<longrightarrow> a' = a \<and> b' = b))"

lemma answers_alikeI:
  assumes "\<And>env c a b w v. same_but_preferences a b \<Longrightarrow> alike a b (f env c a w) (f env c b v)"
  shows "answers_alike f"
  unfolding answers_alike_def
proof (intro allI impI)
  fix env c a b w v r a' w' s b' v'
  assume "same_but_preferences a b" "f env c a w = Some (r, a', w')" "f env c b v = Some (s, b', v')"
  with assms [of a b env c w v] show "s = r \<and> (r = Not_handled \<longrightarrow> a' = a \<and> b' = b)"
    unfolding alike_def by metis
qed

lemma alike_if: "alike a b p q \<Longrightarrow> alike a b p' q' \<Longrightarrow> alike a b (if P then p else p') (if P then q else q')"
  by simp

lemma alike_same: "r = s \<Longrightarrow> alike a b (answered r a w) (answered s b v)"
  by (simp add: alike_def)

lemma alike_text: "alike a b (return_string t a w) (return_string t b v)"
  by (simp add: alike_def)

lemma alike_void: "r \<noteq> Not_handled \<Longrightarrow> alike a b (answered r a' w) (answered r b' v)"
  by (simp add: alike_def)

lemma free_disk_alike: "same_but_preferences a b \<Longrightarrow> free_disk env (an_store a) = free_disk env (an_store b)"
  by (simp add: free_disk_def same_but_preferences_fields)

lemma identity_calls_alike: "answers_alike identity_calls"
  by (rule answers_alikeI, unfold identity_calls_def, intro alike_if alike_text alike_same)
    (simp_all add: same_but_preferences_fields)

lemma view_calls_alike: "answers_alike view_calls"
  by (rule answers_alikeI, unfold view_calls_def, intro alike_if alike_text alike_same) (simp_all add: alike_void)

lemma device_calls_alike: "answers_alike device_calls"
  by (rule answers_alikeI, unfold device_calls_def, intro alike_if alike_text alike_same)
    (simp_all add: same_but_preferences_fields)

lemma resource_calls_alike: "answers_alike resource_calls"
  by (rule answers_alikeI, unfold resource_calls_def, intro alike_if alike_text alike_same)
    (simp_all add: free_disk_alike)

lemma overlay_calls_alike: "answers_alike overlay_calls"
  by (rule answers_alikeI, unfold overlay_calls_def, intro alike_if alike_text alike_same) simp_all

lemmas plain_sections_alike =
  identity_calls_alike view_calls_alike device_calls_alike resource_calls_alike overlay_calls_alike

lemma value_get_lookup: "shared_value_get st (Some k) = value_or [] (map_of (sh_entries st) k)"
proof (cases "shared_value_index (sh_entries st) (Some k)")
  case None
  then have "map_of (sh_entries st) k = None" by (simp add: index_None map_of_eq_None_iff)
  with None show ?thesis by (simp add: shared_value_get_def value_or_def)
next
  case (Some i)
  with index_Some(3) [OF Some] show ?thesis by (simp add: shared_value_get_def value_or_def)
qed

lemma value_exists_lookup: "shared_value_exists st (Some k) \<longleftrightarrow> map_of (sh_entries st) k \<noteq> None"
  using index_None [of "sh_entries st" k] by (auto simp: shared_value_exists_def map_of_eq_None_iff)

lemma no_key_values: "shared_value_get st None = []" "\<not> shared_value_exists st None"
  by (simp_all add: shared_value_get_def shared_value_exists_def shared_value_index_def)

lemma sharing_calls_alike: "answers_alike sharing_calls"
proof -
  have "shared_value_get (an_store b) key = shared_value_get (an_store a) key
      \<and> shared_value_exists (an_store b) key = shared_value_exists (an_store a) key"
    if "same_but_preferences a b" "\<not> preference_storage_key_reserved key" for a b key
    using that
    by (cases key) (simp_all add: value_get_lookup value_exists_lookup no_key_values same_but_preferences_def)
  then show ?thesis
    unfolding answers_alike_def by (auto simp: sharing_calls_def Let_def split: if_splits)
qed

lemma other_classes:
  "data_sharing_class \<noteq> activity_class" "data_sharing_class \<noteq> sutils_class" "data_sharing_class \<noteq> billing_class"
  by (simp_all add: data_sharing_class_def activity_class_def sutils_class_def billing_class_def cstr_def)

lemma otherwise_skip: "f env c a w = answered Not_handled a w \<Longrightarrow> otherwise f g env c a w = g env c a w"
  by (simp add: otherwise_def answered_def)

lemma otherwise_cong: "(\<And>a w. g env c a w = h env c a w) \<Longrightarrow> otherwise f g env c a w = otherwise f h env c a w"
  by (simp add: otherwise_def split: option.split prod.split answer.split)

lemma sharing_handler:
  assumes "jc_class c = Some data_sharing_class" and "jc_name c \<noteq> None"
  shows "asm2_android_method_callback env c a w = otherwise sharing_calls named_calls env c a w"
proof -
  have skip: "lifecycle_calls env c a w = answered Not_handled a w" "bundle_calls env c a w = answered Not_handled a w"
    "billing_calls env c a w = answered Not_handled a w" "\<not> text_equal (jc_class c) sutils_class"
    using assms(1) other_classes
    by (simp_all add: lifecycle_calls_def bundle_calls_def billing_calls_def text_equal_def)
  show ?thesis
    unfolding asm2_android_method_callback_def if_not_P [OF assms(2)] otherwise_skip [of lifecycle_calls, OF skip(1)]
      otherwise_skip [of bundle_calls, OF skip(2)] otherwise_skip [of billing_calls, OF skip(3)]
    by (rule otherwise_cong) (simp add: skip(4))
qed

theorem callback_writes_named_key_witness:
  "\<exists>r a' w'. asm2_android_method_callback sample_env (sharing_call ''setSharedValue'') (sample_android sample_store) sample_world
       = Some (r, a', w')
     \<and> ds_valid (an_store a', w')
     \<and> ds_lookup (an_store a', w') (cstr ''other'') = ds_lookup (sample_store, sample_world) (cstr ''other'')"
proof -
  let ?c = "sharing_call ''setSharedValue''"
  obtain st' w' where set: "shared_value_set 1 sample_store sample_world (Some (cstr ''k'')) (Some (cstr ''v'')) = (Some True, st', w')"
    using sample_set by (cases "shared_value_set 1 sample_store sample_world (Some (cstr ''k'')) (Some (cstr ''v''))") auto
  have names: "named [''setSharedValue''] ?c" by (simp add: sample_name)
  have args: "text_of (callback_object ?c 0) = Some (cstr ''k'')" "text_of (callback_object ?c 1) = Some (cstr ''v'')"
    by (simp_all add: sharing_call_def callback_object_def)
  have "sharing_calls sample_env ?c (sample_android sample_store) sample_world
      = Some (A_void, sample_android st', w')"
    unfolding sharing_calls_def Let_def args using names sample_not_reserved set
    by (simp add: sharing_call_def text_equal_def sample_env_def sample_android_def after_store_def)
  then have run: "asm2_android_method_callback sample_env ?c (sample_android sample_store) sample_world
      = Some (A_void, sample_android st', w')"
    by (simp add: sharing_handler sharing_call_def [of "''setSharedValue''"] otherwise_def)
  have valid: "ds_valid (an_store (sample_android sample_store), sample_world)"
    using sample_ok by (simp add: ds_valid_def sample_android_def)
  have ok: "args_ok ?c" by (simp add: args_ok_def sharing_call_def is_cstr_def cstr_def)
  have other: "\<not> may_write ?c (cstr ''other'')"
    using other_classes by (simp add: may_write_def args) (simp add: sharing_call_def cstr_def)
  from callback_writes_named_key [OF valid ok run] other run show ?thesis
    by (auto simp: sample_android_def)
qed

text \<open>C29. The preferences are hidden from the DataSharing class: a call of that class, whatever its name and
  arguments, answers the same in two states that differ only in the values of reserved keys, present or not.\<close>

theorem preferences_hidden_from_sharing:
  assumes "jc_class c = Some data_sharing_class" and "same_but_preferences a b"
    and "asm2_android_method_callback env c a w = Some (r, a', w')"
    and "asm2_android_method_callback env c b v = Some (s, b', v')"
  shows "s = r"
proof (cases "jc_name c = None")
  case True
  with assms(3,4) show ?thesis by (simp add: asm2_android_method_callback_def)
next
  case False
  have "answers_alike (otherwise sharing_calls named_calls)"
    unfolding named_calls_def by (intro answers_alike_otherwise sharing_calls_alike plain_sections_alike)
  from answers_alikeD(1) [OF this assms(2)] assms(3,4) show ?thesis
    unfolding sharing_handler [OF assms(1) False] by blast
qed

definition hidden_store :: android_store where
  "hidden_store = sample_store\<lparr>sh_entries := [(preference_key_prefix, cstr ''secret'')]\<rparr>"

theorem preferences_hidden_from_sharing_witness:
  "\<exists>r a1 w1 s a2 w2.
     asm2_android_method_callback sample_env (sharing_call ''getSharedValue'') (sample_android sample_store) sample_world
       = Some (r, a1, w1)
   \<and> asm2_android_method_callback sample_env (sharing_call ''getSharedValue'') (sample_android hidden_store) sample_world
       = Some (s, a2, w2)
   \<and> s = r"
proof -
  have sharing: "jc_class (sharing_call ''getSharedValue'') = Some data_sharing_class"
    by (simp add: sharing_call_def)
  have run: "\<exists>r a' w'. asm2_android_method_callback sample_env (sharing_call ''getSharedValue'') (sample_android st) sample_world
      = Some (r, a', w')" for st
    using sample_not_reserved
    by (simp add: sharing_handler sharing_call_def otherwise_def sharing_calls_def text_equal_def named_def cstr_def
        callback_object_def answered_def)
  obtain r a1 w1 where r: "asm2_android_method_callback sample_env (sharing_call ''getSharedValue'') (sample_android sample_store)
      sample_world = Some (r, a1, w1)" using run by blast
  obtain s a2 w2 where s: "asm2_android_method_callback sample_env (sharing_call ''getSharedValue'') (sample_android hidden_store)
      sample_world = Some (s, a2, w2)" using run by blast
  have "preference_storage_key_reserved (Some preference_key_prefix)"
    by (simp add: preference_storage_key_reserved_def starts_with_def)
  then have "same_but_preferences (sample_android sample_store) (sample_android hidden_store)"
    by (auto simp: same_but_preferences_def sample_android_def hidden_store_def sample_store_def)
  from preferences_hidden_from_sharing [OF sharing this r s] r s show ?thesis by blast
qed

end
