(* ===== verification/Asm2_Lifecycle.thy ===== *)
theory Asm2_Lifecycle
  imports Asm2_GameCalls
begin

text \<open>
  The end of a session: the frame loop and the shutdown of \<open>src/asm2_127/src/main.c\<close>, step by step, with the
  game's calls of \<open>sExitGame\<close> and \<open>RestartGame\<close> coming from any thread between the steps (those that the main
  thread makes while it is inside the game are calls like the others).
\<close>

section \<open>State\<close>

text \<open>Where a call of \<open>sExitGame\<close> is: it has made the request, it has begun the exit, the game's \<open>ExitGame\<close> runs.\<close>

datatype exit_call = No_call | Requested | Begun | In_exit

datatype main_step = M_frame | M_read | M_gl_pause | M_options_pause | M_input | M_exit | M_state | M_done

text \<open>What main calls after the loop; \<open>Exit_game\<close> is its own call of \<open>ExitGame\<close>.\<close>

datatype shutdown_call = Gl_pause | Options_pause | Input_shutdown | Exit_game | State_false

record session =
  se_android :: android
  se_calls :: "nat \<Rightarrow> exit_call"
  se_main :: main_step
  se_signal :: bool
  se_frames :: nat
  se_read :: lifecycle_request
  se_log :: "shutdown_call list"
  se_exit_code :: int

definition restart_exit_code :: int where "restart_exit_code = 75"

text \<open>\<open>exit_bound\<close>: the game has an \<open>ExitGame\<close>, for main and for the callbacks.\<close>

definition session_start :: "bool \<Rightarrow> u32 \<Rightarrow> android \<Rightarrow> session" where
  "session_start exit_bound class_handle a =
     \<lparr>se_android = asm2_android_bind_game_options_exit exit_bound class_handle a, se_calls = (\<lambda>_. No_call),
      se_main = M_frame, se_signal = False, se_frames = 1, se_read = LC_none, se_log = [], se_exit_code = 0\<rparr>"

section \<open>Steps\<close>

datatype event = Exit_requested nat | Exit_begins nat | Exit_calls nat | Exit_finishes nat | Restart_requested
  | Signal | Main bool

definition exit_requested :: "nat \<Rightarrow> session \<Rightarrow> session option" where
  "exit_requested t s =
     (if se_calls s t \<noteq> No_call then None
      else case lifecycle_request_once LC_exit (se_android s) of (first, a) \<Rightarrow>
        Some (s\<lparr>se_android := a, se_calls := (se_calls s)(t := if first then Requested else No_call)\<rparr>))"

definition exit_begins :: "nat \<Rightarrow> session \<Rightarrow> session option" where
  "exit_begins t s =
     (if se_calls s t \<noteq> Requested then None
      else case begin_exit (se_android s) of (first, a) \<Rightarrow>
        Some (s\<lparr>se_android := a, se_calls := (se_calls s)(t := if first then Begun else No_call)\<rparr>))"

definition exit_calls :: "nat \<Rightarrow> session \<Rightarrow> session option" where
  "exit_calls t s =
     (if se_calls s t \<noteq> Begun then None
      else Some (s\<lparr>se_android := call_exit (se_android s), se_calls := (se_calls s)(t := In_exit)\<rparr>))"

definition exit_finishes :: "nat \<Rightarrow> session \<Rightarrow> session option" where
  "exit_finishes t s =
     (if se_calls s t \<noteq> In_exit then None
      else Some (s\<lparr>se_android := finish_exit (se_android s), se_calls := (se_calls s)(t := No_call)\<rparr>))"

text \<open>One pass of the loop's test, or one step of the shutdown; \<open>pump\<close> is the answer of \<open>asm2_input_pump\<close>.\<close>

definition main_steps :: "bool \<Rightarrow> session \<Rightarrow> session option" where
  "main_steps pump s =
     (case se_main s of
        M_frame \<Rightarrow>
          Some (if \<not> se_signal s \<and> \<not> asm2_android_lifecycle_requested (se_android s) \<and> pump
                then s\<lparr>se_frames := se_frames s + 1\<rparr> else s\<lparr>se_main := M_read\<rparr>)
      | M_read \<Rightarrow> Some (s\<lparr>se_read := an_request (se_android s), se_main := M_gl_pause\<rparr>)
      | M_gl_pause \<Rightarrow> Some (s\<lparr>se_log := se_log s @ [Gl_pause], se_main := M_options_pause\<rparr>)
      | M_options_pause \<Rightarrow> Some (s\<lparr>se_log := se_log s @ [Options_pause], se_main := M_input\<rparr>)
      | M_input \<Rightarrow> Some (s\<lparr>se_log := se_log s @ [Input_shutdown], se_main := M_exit\<rparr>)
      | M_exit \<Rightarrow>
          (let s1 = s\<lparr>se_main := M_state\<rparr>
           in Some (if se_read s = LC_none \<and> an_exit (se_android s) then s1\<lparr>se_log := se_log s @ [Exit_game]\<rparr>
                    else if se_read s = LC_restart then s1\<lparr>se_exit_code := restart_exit_code\<rparr> else s1))
      | M_state \<Rightarrow>
          (let s1 = s\<lparr>se_main := M_done\<rparr>
           in Some (if se_read s = LC_none then s1\<lparr>se_log := se_log s @ [State_false]\<rparr> else s1))
      | M_done \<Rightarrow> None)"

fun session_event :: "event \<Rightarrow> session \<Rightarrow> session option" where
  "session_event (Exit_requested t) s = exit_requested t s"
| "session_event (Exit_begins t) s = exit_begins t s"
| "session_event (Exit_calls t) s = exit_calls t s"
| "session_event (Exit_finishes t) s = exit_finishes t s"
| "session_event Restart_requested s = Some (s\<lparr>se_android := snd (lifecycle_request_once LC_restart (se_android s))\<rparr>)"
| "session_event Signal s = Some (s\<lparr>se_signal := True\<rparr>)"
| "session_event (Main pump) s = main_steps pump s"

fun run_session :: "event list \<Rightarrow> session \<Rightarrow> session option" where
  "run_session [] s = Some s"
| "run_session (e # es) s = (case session_event e s of None \<Rightarrow> None | Some s' \<Rightarrow> run_session es s')"

inductive session_reachable :: "bool \<Rightarrow> u32 \<Rightarrow> android \<Rightarrow> session \<Rightarrow> bool" for exit_bound class_handle a where
  session_started: "session_reachable exit_bound class_handle a (session_start exit_bound class_handle a)"
| session_stepped: "session_reachable exit_bound class_handle a s \<Longrightarrow> session_event e s = Some s'
     \<Longrightarrow> session_reachable exit_bound class_handle a s'"

section \<open>Counting\<close>

text \<open>The calls of \<open>ExitGame\<close> that the callbacks have made.\<close>

definition is_exit_call :: "guest_call \<Rightarrow> bool" where
  "is_exit_call g = (case g of Call_exit_game _ \<Rightarrow> True | _ \<Rightarrow> False)"

definition callback_exits :: "session \<Rightarrow> nat" where
  "callback_exits s = List.length (filter is_exit_call (an_calls (se_android s)))"

definition main_exits :: "session \<Rightarrow> nat" where
  "main_exits s = List.length (filter (\<lambda>x. x = Exit_game) (se_log s))"

text \<open>How a call of \<open>sExitGame\<close> goes: the request, the phase, where the call is, the calls of \<open>ExitGame\<close> so far.\<close>

definition exit_stage :: "nat \<Rightarrow> lifecycle_request \<Rightarrow> exit_phase \<Rightarrow> exit_call \<Rightarrow> nat \<Rightarrow> bool" where
  "exit_stage bound request phase call n \<longleftrightarrow>
     request \<noteq> LC_exit \<and> phase = Exit_idle \<and> call = No_call \<and> n = 0
   \<or> request = LC_exit \<and> phase = Exit_idle \<and> call = Requested \<and> n = 0
   \<or> request = LC_exit \<and> phase = Exit_running \<and> call = Begun \<and> n = 0
   \<or> request = LC_exit \<and> phase = Exit_running \<and> call = In_exit \<and> n = bound
   \<or> request = LC_exit \<and> phase = Exit_done \<and> call = No_call \<and> n = bound"

text \<open>At most one call is on its way.\<close>

definition calls_agree :: "session \<Rightarrow> bool" where
  "calls_agree s \<longleftrightarrow> (\<exists>t call. se_calls s = (\<lambda>_. No_call)(t := call)
     \<and> exit_stage (of_bool (an_exit (se_android s))) (an_request (se_android s)) (an_phase (se_android s)) call
         (callback_exits s))"

text \<open>What main has done so far, by its place.\<close>

definition exit_log :: "session \<Rightarrow> shutdown_call list" where
  "exit_log s = (if se_read s = LC_none \<and> an_exit (se_android s) then [Exit_game] else [])"

definition main_agrees :: "session \<Rightarrow> bool" where
  "main_agrees s \<longleftrightarrow>
     (se_main s \<in> {M_frame, M_read} \<longrightarrow> se_read s = LC_none)
   \<and> (se_read s \<noteq> LC_none \<longrightarrow> an_request (se_android s) = se_read s)
   \<and> se_log s = (case se_main s of
         M_frame \<Rightarrow> [] | M_read \<Rightarrow> [] | M_gl_pause \<Rightarrow> [] | M_options_pause \<Rightarrow> [Gl_pause] | M_input \<Rightarrow> [Gl_pause, Options_pause]
       | M_exit \<Rightarrow> [Gl_pause, Options_pause, Input_shutdown]
       | M_state \<Rightarrow> [Gl_pause, Options_pause, Input_shutdown] @ exit_log s
       | M_done \<Rightarrow> [Gl_pause, Options_pause, Input_shutdown] @ exit_log s
                    @ (if se_read s = LC_none then [State_false] else []))
   \<and> se_exit_code s = (if se_main s \<in> {M_state, M_done} \<and> se_read s = LC_restart then restart_exit_code else 0)"

section \<open>Every step keeps both\<close>

lemmas session_steps = exit_requested_def exit_begins_def exit_calls_def exit_finishes_def lifecycle_request_once_def
  begin_exit_def call_exit_def finish_exit_def

lemma is_exit_call_exit [simp]: "is_exit_call (Call_exit_game c)"
  by (simp add: is_exit_call_def)

lemma calls_agreeE:
  assumes "calls_agree s"
  obtains t call where "se_calls s = (\<lambda>_. No_call)(t := call)"
    "exit_stage (of_bool (an_exit (se_android s))) (an_request (se_android s)) (an_phase (se_android s)) call
         (List.length (filter is_exit_call (an_calls (se_android s))))"
  using assms by (auto simp: calls_agree_def callback_exits_def)

lemma calls_agreeI:
  assumes "se_calls s = (\<lambda>_. No_call)(t := call)"
    "exit_stage (of_bool (an_exit (se_android s))) (an_request (se_android s)) (an_phase (se_android s)) call
         (List.length (filter is_exit_call (an_calls (se_android s))))"
  shows "calls_agree s"
  using assms unfolding calls_agree_def callback_exits_def by blast

lemma calls_agree_requested:
  assumes "calls_agree s" "exit_requested u s = Some s'"
  shows "calls_agree s'"
proof -
  from assms(1) obtain t call where c: "se_calls s = (\<lambda>_. No_call)(t := call)"
    "exit_stage (of_bool (an_exit (se_android s))) (an_request (se_android s)) (an_phase (se_android s)) call
         (List.length (filter is_exit_call (an_calls (se_android s))))" by (rule calls_agreeE)
  show ?thesis
  proof (cases "an_request (se_android s) = LC_none")
    case True
    with c have "call = No_call" by (auto simp: exit_stage_def)
    with c(1) have "(se_calls s)(u := Requested) = (\<lambda>_. No_call)(u := Requested)" by auto
    with True c(2) assms(2) show ?thesis
      by (intro calls_agreeI [of s' u Requested]) (auto simp: session_steps exit_stage_def split: if_splits)
  next
    case False
    with assms(2) have "s' = s\<lparr>se_calls := (se_calls s)(u := No_call)\<rparr>" "se_calls s u = No_call"
      by (auto simp: session_steps split: if_splits)
    then have "s' = s" by (simp add: fun_upd_idem)
    with assms(1) show ?thesis by simp
  qed
qed

lemma calls_agree_owner:
  assumes "calls_agree s" "se_calls s u = call" "call \<noteq> No_call"
  shows "(se_calls s)(u := call') = (\<lambda>_. No_call)(u := call')"
    and "exit_stage (of_bool (an_exit (se_android s))) (an_request (se_android s)) (an_phase (se_android s)) call
         (List.length (filter is_exit_call (an_calls (se_android s))))"
  using assms by (auto elim!: calls_agreeE split: if_splits)

lemma calls_agree_begins:
  assumes "calls_agree s" "exit_begins u s = Some s'"
  shows "calls_agree s'"
proof -
  from assms(2) have at: "se_calls s u = Requested" by (simp add: session_steps split: if_splits)
  note own = calls_agree_owner [OF assms(1) at, simplified]
  show ?thesis
    using own(2) own(1) [of Begun] assms(2) at
    by (intro calls_agreeI [of s' u Begun]) (auto simp: session_steps exit_stage_def split: if_splits)
qed

lemma calls_agree_calls:
  assumes "calls_agree s" "exit_calls u s = Some s'"
  shows "calls_agree s'"
proof -
  from assms(2) have at: "se_calls s u = Begun" by (simp add: session_steps split: if_splits)
  note own = calls_agree_owner [OF assms(1) at, simplified]
  show ?thesis
    using own(2) own(1) [of In_exit] assms(2) at
    by (intro calls_agreeI [of s' u In_exit]) (auto simp: session_steps exit_stage_def split: if_splits)
qed

lemma calls_agree_finishes:
  assumes "calls_agree s" "exit_finishes u s = Some s'"
  shows "calls_agree s'"
proof -
  from assms(2) have at: "se_calls s u = In_exit" by (simp add: session_steps split: if_splits)
  note own = calls_agree_owner [OF assms(1) at, simplified]
  show ?thesis
    using own(2) own(1) [of No_call] assms(2) at
    by (intro calls_agreeI [of s' u No_call]) (auto simp: session_steps exit_stage_def split: if_splits)
qed

lemma calls_agree_restart:
  assumes "calls_agree s"
  shows "calls_agree (s\<lparr>se_android := snd (lifecycle_request_once LC_restart (se_android s))\<rparr>)"
  using assms by (rule calls_agreeE) (intro calls_agreeI, auto simp: session_steps exit_stage_def)

lemma main_steps_android: "main_steps pump s = Some s' \<Longrightarrow> se_android s' = se_android s \<and> se_calls s' = se_calls s"
  by (auto simp: main_steps_def Let_def split: main_step.splits if_splits)

lemma calls_agree_main:
  assumes "calls_agree s" "main_steps pump s = Some s'"
  shows "calls_agree s'"
  using assms(1) main_steps_android [OF assms(2)] by (simp add: calls_agree_def callback_exits_def)

lemma main_agrees_main:
  assumes "main_agrees s" "main_steps pump s = Some s'"
  shows "main_agrees s'"
  using assms by (cases "se_main s") (auto simp: main_agrees_def main_steps_def Let_def exit_log_def split: if_splits)

text \<open>The calls of the game change neither what main has done nor a request that has been made.\<close>

lemma guest_step_keeps:
  assumes "session_event e s = Some s'" and "\<And>pump. e \<noteq> Main pump"
  shows "se_main s' = se_main s" "se_read s' = se_read s" "se_log s' = se_log s" "se_exit_code s' = se_exit_code s"
    "an_exit (se_android s') = an_exit (se_android s)"
    "an_request (se_android s) \<noteq> LC_none \<Longrightarrow> an_request (se_android s') = an_request (se_android s)"
  using assms by (cases e; auto simp: session_steps split: if_splits)+

lemma main_agrees_guest:
  assumes "main_agrees s" "session_event e s = Some s'" "\<And>pump. e \<noteq> Main pump"
  shows "main_agrees s'"
proof -
  note k = guest_step_keeps [OF assms(2,3)]
  have "se_read s \<noteq> LC_none \<Longrightarrow> an_request (se_android s') = se_read s"
    using assms(1) k(6) by (auto simp: main_agrees_def)
  with assms(1) show ?thesis
    unfolding main_agrees_def exit_log_def k(1-5) by simp
qed

lemma calls_agree_guest:
  assumes "calls_agree s" "session_event e s = Some s'"
  shows "calls_agree s'"
proof (cases e)
  case Signal
  with assms(2) have "s' = s\<lparr>se_signal := True\<rparr>" by simp
  with assms(1) show ?thesis by (simp add: calls_agree_def callback_exits_def)
next
  case Restart_requested
  with assms calls_agree_restart show ?thesis by auto
next
  case (Exit_requested t)
  with assms show ?thesis by (auto intro: calls_agree_requested)
next
  case (Exit_begins t)
  with assms show ?thesis by (auto intro: calls_agree_begins)
next
  case (Exit_calls t)
  with assms show ?thesis by (auto intro: calls_agree_calls)
next
  case (Exit_finishes t)
  with assms show ?thesis by (auto intro: calls_agree_finishes)
next
  case (Main pump)
  with assms show ?thesis by (auto intro: calls_agree_main)
qed

lemma agreement_kept:
  assumes "calls_agree s" "main_agrees s" "session_event e s = Some s'"
  shows "calls_agree s'" "main_agrees s'" "an_exit (se_android s') = an_exit (se_android s)"
proof -
  show "calls_agree s'" using assms(1,3) by (rule calls_agree_guest)
  have "main_agrees s' \<and> an_exit (se_android s') = an_exit (se_android s)"
  proof (cases "\<exists>pump. e = Main pump")
    case True
    then obtain pump where m: "main_steps pump s = Some s'" using assms(3) by auto
    show ?thesis using main_agrees_main [OF assms(2) m] main_steps_android [OF m] by simp
  next
    case False
    then have g: "\<And>pump. e \<noteq> Main pump" by blast
    show ?thesis using main_agrees_guest [OF assms(2,3) g] guest_step_keeps(5) [OF assms(3) g] by simp
  qed
  then show "main_agrees s'" "an_exit (se_android s') = an_exit (se_android s)" by simp_all
qed

section \<open>What is promised\<close>

text \<open>A state of the callbacks in which nothing has been asked for yet.\<close>

definition not_leaving :: "android \<Rightarrow> bool" where
  "not_leaving a \<longleftrightarrow> an_request a = LC_none \<and> an_phase a = Exit_idle \<and> filter is_exit_call (an_calls a) = []"

lemma reachable_agrees:
  assumes "session_reachable exit_bound class_handle a s" "not_leaving a"
  shows "calls_agree s \<and> main_agrees s \<and> an_exit (se_android s) = exit_bound"
  using assms(1)
proof induction
  case session_started
  have "se_calls (session_start exit_bound class_handle a) = (\<lambda>_. No_call)(0 := No_call)"
    by (auto simp: session_start_def)
  then have "calls_agree (session_start exit_bound class_handle a)"
    using assms(2)
    by (rule_tac calls_agreeI)
      (simp_all add: session_start_def asm2_android_bind_game_options_exit_def exit_stage_def not_leaving_def)
  then show ?case
    by (simp add: main_agrees_def session_start_def asm2_android_bind_game_options_exit_def)
next
  case (session_stepped s e s')
  with agreement_kept [of s e s'] show ?case by simp
qed

text \<open>C30. Leaving: whatever the threads of the game ask for and whenever, the callbacks call the game's
  \<open>ExitGame\<close> at most once, only after an accepted \<open>sExitGame\<close>, and exactly once (when the game has one) as soon as
  no call of \<open>sExitGame\<close> is on its way; main adds a call of its own only when it saw no request at the end of the
  loop, so that a request made before is never answered twice; and a process that ends has paused the game and
  released its input in this order, and leaves with code 75 exactly when main saw a request to restart.\<close>

theorem session_ends_once:
  assumes "session_reachable exit_bound class_handle a s" and "not_leaving a"
  shows "callback_exits s \<le> 1
     \<and> (0 < callback_exits s \<longrightarrow> an_request (se_android s) = LC_exit)
     \<and> (an_request (se_android s) = LC_exit \<and> (\<forall>t. se_calls s t = No_call)
           \<longrightarrow> callback_exits s = of_bool exit_bound \<and> asm2_android_game_options_exit_done (se_android s))
     \<and> (se_read s \<noteq> LC_none \<longrightarrow> main_exits s = 0 \<and> an_request (se_android s) = se_read s)
     \<and> (se_main s = M_done \<longrightarrow>
           se_log s = [Gl_pause, Options_pause, Input_shutdown]
             @ (if se_read s = LC_none then (if exit_bound then [Exit_game] else []) @ [State_false] else [])
         \<and> (se_exit_code s = restart_exit_code \<longleftrightarrow> se_read s = LC_restart))"
proof -
  note agrees = reachable_agrees [OF assms]
  then obtain t call where c: "se_calls s = (\<lambda>_. No_call)(t := call)"
    "exit_stage (of_bool exit_bound) (an_request (se_android s)) (an_phase (se_android s)) call (callback_exits s)"
    by (auto simp: calls_agree_def)
  have few: "callback_exits s \<le> 1" "0 < callback_exits s \<longrightarrow> an_request (se_android s) = LC_exit"
    using c(2) by (auto simp: exit_stage_def)
  have "call = No_call" if "\<forall>t. se_calls s t = No_call" using that c(1) by (metis fun_upd_same)
  then have "an_request (se_android s) = LC_exit \<and> (\<forall>t. se_calls s t = No_call)
           \<longrightarrow> callback_exits s = of_bool exit_bound \<and> asm2_android_game_options_exit_done (se_android s)"
    using c(2) by (auto simp: exit_stage_def asm2_android_game_options_exit_done_def)
  moreover from agrees have m: "main_agrees s" "an_exit (se_android s) = exit_bound" by simp_all
  moreover from m have "se_read s \<noteq> LC_none \<longrightarrow> main_exits s = 0 \<and> an_request (se_android s) = se_read s"
    by (cases "se_main s") (simp_all add: main_agrees_def main_exits_def exit_log_def)
  moreover from m have "se_main s = M_done \<longrightarrow>
           se_log s = [Gl_pause, Options_pause, Input_shutdown]
             @ (if se_read s = LC_none then (if exit_bound then [Exit_game] else []) @ [State_false] else [])
         \<and> (se_exit_code s = restart_exit_code \<longleftrightarrow> se_read s = LC_restart)"
    by (auto simp: main_agrees_def exit_log_def restart_exit_code_def)
  ultimately show ?thesis using few by blast
qed

lemma run_reachable:
  "session_reachable exit_bound class_handle a s \<Longrightarrow> run_session es s = Some s'
    \<Longrightarrow> session_reachable exit_bound class_handle a s'"
  by (induction es arbitrary: s) (auto intro: session_stepped split: option.splits)

text \<open>A session that the game ends.\<close>

definition ended_session :: session where
  "ended_session = the (run_session ([Main True, Exit_requested 7, Exit_begins 7, Exit_calls 7, Exit_finishes 7]
     @ replicate 7 (Main True)) (session_start True 5 (asm2_android_state_init True)))"

lemma session_that_ends:
  "\<exists>s. run_session ([Main True, Exit_requested 7, Exit_begins 7, Exit_calls 7, Exit_finishes 7]
     @ replicate 7 (Main True)) (session_start True 5 (asm2_android_state_init True)) = Some s
     \<and> main_exits s = 0 \<and> se_read s = LC_exit"
  by (simp add: main_exits_def numeral_eq_Suc session_start_def
      asm2_android_bind_game_options_exit_def asm2_android_state_init_def main_steps_def Let_def session_steps
      asm2_android_lifecycle_requested_def)

lemma ended_session_run:
  "run_session ([Main True, Exit_requested 7, Exit_begins 7, Exit_calls 7, Exit_finishes 7]
     @ replicate 7 (Main True)) (session_start True 5 (asm2_android_state_init True)) = Some ended_session"
  "se_read ended_session = LC_exit"
  using session_that_ends by (auto simp only: ended_session_def option.sel)

theorem session_ends_once_witness:
  "callback_exits ended_session \<le> 1 \<and> main_exits ended_session = 0 \<and> se_read ended_session = LC_exit"
proof -
  have "session_reachable True 5 (asm2_android_state_init True) ended_session"
    by (rule run_reachable [OF session_started ended_session_run(1)])
  moreover have "not_leaving (asm2_android_state_init True)"
    by (simp add: not_leaving_def asm2_android_state_init_def)
  ultimately show ?thesis
    using session_ends_once [of True 5 "asm2_android_state_init True" ended_session] ended_session_run(2) by simp
qed

text \<open>A request that comes after main has looked is another matter: \<open>ExitGame\<close> is then called by main and by the
  callback, and a request to restart is forgotten.\<close>

lemma late_exit_runs_twice:
  "\<exists>s. run_session ([Signal, Main True, Main True, Exit_requested 7, Exit_begins 7, Exit_calls 7, Exit_finishes 7]
     @ replicate 5 (Main True)) (session_start True 5 (asm2_android_state_init True)) = Some s
     \<and> se_main s = M_done \<and> callback_exits s = 1 \<and> main_exits s = 1"
  by (simp add: callback_exits_def main_exits_def numeral_eq_Suc session_start_def
      asm2_android_bind_game_options_exit_def asm2_android_state_init_def main_steps_def Let_def session_steps
      asm2_android_lifecycle_requested_def)

lemma late_restart_is_lost:
  "\<exists>s. run_session ([Signal, Main True, Main True, Restart_requested] @ replicate 5 (Main True))
     (session_start True 5 (asm2_android_state_init True)) = Some s
     \<and> se_main s = M_done \<and> an_request (se_android s) = LC_restart \<and> se_exit_code s = 0"
  by (simp add: numeral_eq_Suc session_start_def restart_exit_code_def
      asm2_android_bind_game_options_exit_def asm2_android_state_init_def main_steps_def Let_def session_steps
      asm2_android_lifecycle_requested_def)

end
