(* ===== verification/Asm2_ElfX86.thy ===== *)
theory Asm2_ElfX86
  imports Asm2_ElfPasses
begin

text \<open>
  The loader for the i386 build, \<open>src/asm2_127/src/so_util_x86.c\<close>: the same file, sections, segments and symbols
  as in \<open>Asm2_ElfLoader\<close> and \<open>Asm2_ElfSymbols\<close>, whose helpers it uses, with the relocation types of i386, a
  target for imports that are missing, and hooks that are relative jumps.  The passes are interpretations of
  \<open>slot_pass\<close> like those of the ARM loader.
\<close>

unbundle bit_operations_syntax

section \<open>Loading\<close>

definition x86_so_check ::
  "bytes \<Rightarrow> u32 \<Rightarrow> (int + program_header list \<times> section_header list \<times> u32 \<times> layout) option" where
  "x86_so_check file max_size = do {
     let so_size = of_nat (List.length file);
     h \<leftarrow> read_elf_header file;
     if eh_class h \<noteq> 1 then Some (Inl (-1))
     else if eh_machine h \<noteq> 3 then Some (Inl (-1))
     else if eh_phoff h + ucast (eh_phnum h) * 32 > so_size then Some (Inl (-1))
     else if eh_shoff h + ucast (eh_shnum h) * 40 > so_size then Some (Inl (-1))
     else if eh_shstrndx h \<ge> eh_shnum h then Some (Inl (-1))
     else do {
       phs \<leftarrow> read_table (read_program_header file) (eh_phoff h) 32 (unat (eh_phnum h));
       shs \<leftarrow> read_table (read_section_header file) (eh_shoff h) 40 (unat (eh_shnum h));
       let shstrtab = sh_offset (shs ! unat (eh_shstrndx h));
       Some (case so_layout so_size max_size phs of
               Inl e \<Rightarrow> Inl e
             | Inr l \<Rightarrow> Inr (phs, shs, shstrtab, l))
     }
   }"

definition x86_so_load :: "file_answer \<Rightarrow> u32 \<Rightarrow> u32 \<Rightarrow> memory \<Rightarrow> load_result" where
  "x86_so_load answer base max_size m =
     (case answer of
        No_file \<Rightarrow> Load_fails (-1) 0 m
      | Malloc_failed \<Rightarrow> Load_fails (-2) 0 m
      | Read_failed \<Rightarrow> Load_fails (-3) 0 m
      | File file \<Rightarrow>
          if file = [] then Load_fails (-3) 0 m
          else case file_prefix_is file 0 [0x7F, 0x45, 0x4C, 0x46] of
            None \<Rightarrow> Load_reads_outside
          | Some False \<Rightarrow> Load_fails (-1) 0 m
          | Some True \<Rightarrow>
            (case x86_so_check file max_size of
               None \<Rightarrow> Load_reads_outside
             | Some (Inl e) \<Rightarrow> Load_fails e 0 m
             | Some (Inr (phs, shs, shstrtab, (lo, hi, text_seg, data_seg))) \<Rightarrow>
                 if base = 0 then Load_fails (-1) 0 m
                 else
                   let bias = base - lo;
                       m1 = copy_segments file bias phs (clear_range base (hi - lo) m)
                   in case find_dynamic file shstrtab bias shs (None, None) of
                        None \<Rightarrow> Load_reads_outside
                      | Some (Some (syms, n), Some strs) \<Rightarrow>
                          if syms = 0 \<or> strs = 0 then Load_fails (-2) base m1
                          else Loaded \<lparr>so_file = file, so_programs = phs, so_sections = shs,
                                  so_shstrtab = shstrtab, so_mapping = base, so_bias = bias,
                                  so_load_size = hi - lo, so_min_vaddr = lo,
                                  so_text_base = ph_vaddr (the text_seg) + bias,
                                  so_text_size = ph_memsz (the text_seg),
                                  so_data_base = ph_vaddr (the data_seg) + bias,
                                  so_data_size = ph_memsz (the data_seg),
                                  so_syms = syms, so_num_syms = n, so_dynstr = strs\<rparr> m1
                      | Some _ \<Rightarrow> Load_fails (-2) base m1))"

definition x86_so_unload :: "u32 \<Rightarrow> bool \<Rightarrow> (int \<times> u32) option" where
  "x86_so_unload mapping munmap_ok =
     (if mapping = 0 then Some (-1, 0) else if munmap_ok then Some (0, 0) else None)"

section \<open>Relocation\<close>

abbreviation (input) "R_386_32 \<equiv> 1 :: u32"
abbreviation (input) "R_386_GLOB_DAT \<equiv> 6 :: u32"
abbreviation (input) "R_386_JMP_SLOT \<equiv> 7 :: u32"
abbreviation (input) "R_386_RELATIVE \<equiv> 8 :: u32"

definition x86_relocated_value :: "so_image \<Rightarrow> memory \<Rightarrow> u32 \<Rightarrow> u32 option" where
  "x86_relocated_value img m rel =
     (let slot = so_bias img + rel_offset m rel;
          sy = rel_sym img m rel;
          type = rel_type m rel
      in if type = R_386_32 then
           (if st_shndx m sy \<noteq> 0 then Some (so_bias img + st_value m sy + ld32 m slot) else None)
         else if type = R_386_RELATIVE then Some (so_bias img + ld32 m slot)
         else if type = R_386_GLOB_DAT \<or> type = R_386_JMP_SLOT then
           (if st_shndx m sy \<noteq> 0 then Some (so_bias img + st_value m sy) else None)
         else None)"

definition x86_known_type :: "u32 \<Rightarrow> bool" where
  "x86_known_type t \<longleftrightarrow> t = R_386_32 \<or> t = R_386_RELATIVE \<or> t = R_386_GLOB_DAT \<or> t = R_386_JMP_SLOT"

definition x86_relocate_one :: "so_image \<Rightarrow> u32 \<Rightarrow> memory \<Rightarrow> memory option" where
  "x86_relocate_one img rel m =
     (if x86_known_type (rel_type m rel)
      then Some (put_slot (so_bias img + rel_offset m rel) (x86_relocated_value img m rel) m)
      else None)"

fun x86_relocate_table :: "so_image \<Rightarrow> u32 \<Rightarrow> nat \<Rightarrow> memory \<Rightarrow> memory option" where
  "x86_relocate_table img rel 0 m = Some m"
| "x86_relocate_table img rel (Suc n) m = do {
     m1 \<leftarrow> x86_relocate_one img rel m;
     x86_relocate_table img (rel + 8) n m1
   }"

fun x86_relocate_sections :: "so_image \<Rightarrow> section_header list \<Rightarrow> memory \<Rightarrow> memory option" where
  "x86_relocate_sections img [] m = Some m"
| "x86_relocate_sections img (sh # shs) m = do {
     rel \<leftarrow> is_rel_section img sh;
     m1 \<leftarrow> (if rel then x86_relocate_table img (so_bias img + sh_addr sh) (unat (sh_size sh div 8)) m else Some m);
     x86_relocate_sections img shs m1
   }"

definition x86_so_relocate :: "so_image \<Rightarrow> memory \<Rightarrow> (int \<times> memory) option" where
  "x86_so_relocate img m = do { m1 \<leftarrow> x86_relocate_sections img (so_sections img) m; Some (0, m1) }"

section \<open>Imports\<close>

definition x86_import_type :: "u32 \<Rightarrow> bool" where
  "x86_import_type t \<longleftrightarrow> t = R_386_GLOB_DAT \<or> t = R_386_JMP_SLOT \<or> t = R_386_32"

text \<open>The trap: the missing import's target, 0 for none, is used only when \<open>taint\<close> asks for it; such an import
  counts as unresolved all the same.\<close>

definition trap_target :: "bool \<Rightarrow> u32 \<Rightarrow> u32 option" where
  "trap_target taint missing = (if taint \<and> missing \<noteq> 0 then Some missing else None)"

definition x86_resolve_one ::
  "so_image \<Rightarrow> import_table \<Rightarrow> (bytes \<Rightarrow> u32) \<Rightarrow> bool \<Rightarrow> u32 \<Rightarrow> u32 \<Rightarrow> memory \<Rightarrow> (nat \<times> memory) option" where
  "x86_resolve_one img funcs dlsym taint missing rel m =
     (let slot = so_bias img + rel_offset m rel;
          sy = rel_sym img m rel;
          type = rel_type m rel
      in if \<not> x86_import_type type \<or> st_shndx m sy \<noteq> 0 then Some (0, m)
         else do {
           let addend = (if type = R_386_32 then ld32 m slot else 0);
           name \<leftarrow> cstring_at m (so_dynstr img + st_name m sy);
           case import_address funcs dlsym name (st_bind m sy = 2) of
             Some f \<Rightarrow> Some (0, st32 m slot (f + addend))
           | None \<Rightarrow> Some (1, put_slot slot (map_option (\<lambda>t. t + addend) (trap_target taint missing)) m)
         })"

fun x86_resolve_table ::
  "so_image \<Rightarrow> import_table \<Rightarrow> (bytes \<Rightarrow> u32) \<Rightarrow> bool \<Rightarrow> u32 \<Rightarrow> u32 \<Rightarrow> nat \<Rightarrow> nat \<times> memory
    \<Rightarrow> (nat \<times> memory) option" where
  "x86_resolve_table img funcs dlsym taint missing rel 0 (u, m) = Some (u, m)"
| "x86_resolve_table img funcs dlsym taint missing rel (Suc n) (u, m) = do {
     (d, m1) \<leftarrow> x86_resolve_one img funcs dlsym taint missing rel m;
     x86_resolve_table img funcs dlsym taint missing (rel + 8) n (u + d, m1)
   }"

fun x86_resolve_sections ::
  "so_image \<Rightarrow> import_table \<Rightarrow> (bytes \<Rightarrow> u32) \<Rightarrow> bool \<Rightarrow> u32 \<Rightarrow> section_header list \<Rightarrow> nat \<times> memory
    \<Rightarrow> (nat \<times> memory) option" where
  "x86_resolve_sections img funcs dlsym taint missing [] (u, m) = Some (u, m)"
| "x86_resolve_sections img funcs dlsym taint missing (sh # shs) (u, m) = do {
     rel \<leftarrow> is_rel_section img sh;
     s1 \<leftarrow> (if rel then x86_resolve_table img funcs dlsym taint missing (so_bias img + sh_addr sh)
                        (unat (sh_size sh div 8)) (u, m)
            else Some (u, m));
     x86_resolve_sections img funcs dlsym taint missing shs s1
   }"

definition x86_so_resolve ::
  "so_image \<Rightarrow> import_table \<Rightarrow> (bytes \<Rightarrow> u32) \<Rightarrow> bool \<Rightarrow> u32 \<Rightarrow> memory \<Rightarrow> (nat \<times> memory) option" where
  "x86_so_resolve img funcs dlsym taint missing m =
     x86_resolve_sections img funcs dlsym taint missing (so_sections img) (0, m)"

section \<open>Symbols, constructors, protection\<close>

definition x86_so_find_addr :: "so_image \<Rightarrow> memory \<Rightarrow> bytes \<Rightarrow> u32 option" where
  "x86_so_find_addr img m name = search_symbol img m False name (so_syms img) (so_num_syms img)"

definition x86_so_find_addr_rx :: "so_image \<Rightarrow> memory \<Rightarrow> bytes \<Rightarrow> u32 option" where
  "x86_so_find_addr_rx img m name = search_symbol img m False name (so_syms img) (so_num_syms img)"

definition x86_so_find_addr_safe :: "so_image \<Rightarrow> memory \<Rightarrow> bytes \<Rightarrow> u32" where
  "x86_so_find_addr_safe img m name =
     (case search_symbol img m True name (so_syms img) (so_num_syms img) of Some a \<Rightarrow> a | None \<Rightarrow> 0)"

fun x86_search_entries :: "so_image \<Rightarrow> memory \<Rightarrow> bytes \<Rightarrow> u32 list \<Rightarrow> u32 option" where
  "x86_search_entries img m name [] = None"
| "x86_search_entries img m name (rel # rels) =
     (if x86_import_type (rel_type m rel)
         \<and> mem_string_is m (so_dynstr img + st_name m (rel_sym img m rel)) name
      then Some (so_bias img + rel_offset m rel)
      else x86_search_entries img m name rels)"

fun x86_search_rel_sections :: "so_image \<Rightarrow> memory \<Rightarrow> bytes \<Rightarrow> section_header list \<Rightarrow> u32 option option" where
  "x86_search_rel_sections img m name [] = Some None"
| "x86_search_rel_sections img m name (sh # shs) = do {
     rel \<leftarrow> is_rel_section img sh;
     case (if rel then x86_search_entries img m name
                         (table_entries (so_bias img + sh_addr sh) (unat (sh_size sh div 8)))
           else None) of
       Some a \<Rightarrow> Some (Some a)
     | None \<Rightarrow> x86_search_rel_sections img m name shs
   }"

definition x86_so_find_rel_addr :: "so_image \<Rightarrow> memory \<Rightarrow> bytes \<Rightarrow> u32 option" where
  "x86_so_find_rel_addr img m name = do {
     found \<leftarrow> x86_search_rel_sections img m name (so_sections img);
     found
   }"

definition x86_so_find_rel_addr_safe :: "so_image \<Rightarrow> memory \<Rightarrow> bytes \<Rightarrow> u32 option" where
  "x86_so_find_rel_addr_safe img m name = do {
     found \<leftarrow> x86_search_rel_sections img m name (so_sections img);
     Some (case found of Some a \<Rightarrow> a | None \<Rightarrow> 0)
   }"

definition x86_so_snapshot_symbols ::
  "so_image \<Rightarrow> memory \<Rightarrow> (nat \<Rightarrow> bool) \<Rightarrow> nat \<times> (u32 \<times> u32) list option" where
  "x86_so_snapshot_symbols img m malloc_ok =
     (let n = count_exported m (so_syms img) (so_num_syms img) in
      if \<not> malloc_ok (8 * (if n > 0 then n else 1)) then (0, None)
      else let tbl = fill_exported img m (so_syms img) (so_num_syms img) in (List.length tbl, Some tbl))"

definition x86_so_init_array_count :: "so_image \<Rightarrow> u32 option" where
  "x86_so_init_array_count img = do {
     found \<leftarrow> init_section img (so_sections img);
     Some (case found of Some sh \<Rightarrow> sh_size sh div 4 | None \<Rightarrow> 0)
   }"

definition x86_so_execute_init_array_limit ::
  "so_image \<Rightarrow> (u32 \<Rightarrow> memory \<Rightarrow> memory) \<Rightarrow> u32 \<Rightarrow> memory \<Rightarrow> (u32 \<times> u32 list \<times> memory) option" where
  "x86_so_execute_init_array_limit img call limit m = do {
     found \<leftarrow> init_section img (so_sections img);
     Some (case found of
       None \<Rightarrow> (0, [], m)
     | Some sh \<Rightarrow>
         let count = sh_size sh div 4;
             n = (if limit > count then count else limit);
             (calls, m1) = run_constructors call (so_bias img + sh_addr sh) (unat n) ([], m)
         in (n, calls, m1))
   }"

definition x86_so_execute_init_array ::
  "so_image \<Rightarrow> (u32 \<Rightarrow> memory \<Rightarrow> memory) \<Rightarrow> memory \<Rightarrow> (u32 \<times> u32 list \<times> memory) option" where
  "x86_so_execute_init_array img call m = do {
     count \<leftarrow> x86_so_init_array_count img;
     x86_so_execute_init_array_limit img call count m
   }"

text \<open>There is no unwind table: the address is always 0, and the count is stored inside the image only.\<close>

definition x86_so_find_exidx :: "so_image \<Rightarrow> u32 \<Rightarrow> u32 \<times> u32 option" where
  "x86_so_find_exidx img pc =
     (if pc < so_mapping img \<or> pc \<ge> so_mapping img + so_load_size img then (0, None) else (0, Some 0))"

record phdr_view =
  pv_programs :: "program_header list"
  pv_phnum :: nat
  pv_bias :: u32
  pv_mapping :: u32
  pv_size :: u32

text \<open>\<open>None\<close> is -1: nothing is mapped.\<close>

definition so_guest_phdr_view :: "so_image option \<Rightarrow> phdr_view option" where
  "so_guest_phdr_view mapped =
     (case mapped of
        None \<Rightarrow> None
      | Some img \<Rightarrow>
          if so_mapping img = 0 then None
          else Some \<lparr>pv_programs = so_programs img, pv_phnum = List.length (so_programs img), pv_bias = so_bias img,
                     pv_mapping = so_mapping img, pv_size = so_load_size img\<rparr>)"

definition x86_so_guest_vma :: "so_image \<Rightarrow> u32 \<Rightarrow> u32 \<Rightarrow> u32 option" where
  "x86_so_guest_vma img vma sz =
     (if so_bias img = 0 \<or> vma < so_min_vaddr img then None
      else let offset = vma - so_min_vaddr img in
        if offset > so_load_size img \<or> sz > so_load_size img - offset then None
        else Some (so_bias img + vma))"

definition x86_so_finalize :: "so_image \<Rightarrow> int \<Rightarrow> (protection_request \<Rightarrow> bool) \<Rightarrow> protection_request list option" where
  "x86_so_finalize img ps mprotect_ok = finalize_segments img ps mprotect_ok (so_programs img)"

definition x86_so_make_text_writable :: "so_image \<Rightarrow> protection_request" where
  "x86_so_make_text_writable img =
     \<lparr>pr_address = so_text_base img, pr_length = align_page (so_text_size img), pr_bits = 7\<rparr>"

definition x86_so_make_text_executable :: "so_image \<Rightarrow> protection_request" where
  "x86_so_make_text_executable img =
     \<lparr>pr_address = so_text_base img, pr_length = align_page (so_text_size img), pr_bits = 5\<rparr>"

section \<open>Hooks\<close>

definition x86_hook :: "u32 \<Rightarrow> u32 \<Rightarrow> memory \<Rightarrow> memory" where
  "x86_hook addr dst m = (if addr = 0 then m else st32 (m(addr := 0xE9)) (addr + 1) (dst - (addr + 5)))"

text \<open>What the processor does there: a jump relative to the next instruction.\<close>

definition x86_jump_target :: "memory \<Rightarrow> u32 \<Rightarrow> u32 option" where
  "x86_jump_target m addr = (if m addr = 0xE9 then Some (addr + 5 + ld32 m (addr + 1)) else None)"

lemma x86_hook_redirects:
  assumes "addr \<noteq> 0"
  shows "x86_jump_target (x86_hook addr dst m) addr = Some dst" and "x - addr \<ge> 5 \<Longrightarrow> x86_hook addr dst m x = m x"
proof -
  have "\<not> in_slot (addr + 1) addr" by (simp add: in_slot_def)
  with assms show "x86_jump_target (x86_hook addr dst m) addr = Some dst"
    by (simp add: x86_hook_def x86_jump_target_def st32_outside)
  assume far: "x - addr \<ge> 5"
  have "\<not> in_slot (addr + 1) x"
  proof
    assume "in_slot (addr + 1) x"
    then have "x = addr + 1 \<or> x = addr + 2 \<or> x = addr + 3 \<or> x = addr + 4"
      by (auto simp: in_slot_cases algebra_simps)
    with far show False by (auto simp: word_le_nat_alt)
  qed
  moreover have "x \<noteq> addr" using far by (auto simp: word_le_nat_alt)
  ultimately show "x86_hook addr dst m x = m x" by (simp add: x86_hook_def st32_outside)
qed

section \<open>The two loaders\<close>

text \<open>No file is accepted by both: the machine of its header decides.\<close>

lemma one_loader_accepts:
  assumes "so_load (File file) base max_size m = Loaded img m1"
  shows "x86_so_load (File file) base' max_size' m' \<noteq> Loaded img' m2"
proof -
  obtain r where "so_check file max_size = Some (Inr r)"
    using assms by (auto simp: so_load_def Let_def split: if_splits option.splits bool.splits sum.splits)
  then obtain h where h: "read_elf_header file = Some h" "eh_machine h = 40"
    by (auto simp: so_check_def Let_def bind_eq_Some_conv split: if_split_asm)
  then have "x86_so_check file max_size' = Some (Inl (- 1))" by (simp add: x86_so_check_def Let_def)
  then show ?thesis by (auto simp: x86_so_load_def split: if_splits option.splits bool.splits)
qed

section \<open>Relocation as a pass\<close>

definition x86_relocatable :: "memory \<Rightarrow> u32 \<Rightarrow> bool" where
  "x86_relocatable m e \<longleftrightarrow> x86_known_type (rel_type m e)"

definition x86_relocate_step :: "so_image \<Rightarrow> u32 \<Rightarrow> memory \<Rightarrow> memory" where
  "x86_relocate_step img e m = put_slot (entry_slot img m e) (x86_relocated_value img m e) m"

definition x86_relocate_counted :: "so_image \<Rightarrow> u32 \<Rightarrow> memory \<Rightarrow> (nat \<times> memory) option" where
  "x86_relocate_counted img e m = map_option (Pair 0) (x86_relocate_one img e m)"

lemma x86_same_relocated_value:
  assumes "same_on (entry_reads img m e @ slot_addresses (entry_slot img m e)) m m'"
  shows "x86_relocated_value img m' e = x86_relocated_value img m e"
  using same_slot(1) [OF assms] same_fields [OF assms]
  by (simp add: x86_relocated_value_def Let_def entry_slot_def)

interpretation x86_relocating: slot_pass
    x86_relocatable "entry_slot img" "entry_reads img" never_missing "x86_relocate_step img" "x86_relocate_counted img"
  for img
proof unfold_locales
  fix m e
  assume "x86_relocatable m e"
  then show "x86_relocate_counted img e m = Some (of_bool (never_missing m e), x86_relocate_step img e m)"
    by (simp add: x86_relocate_counted_def x86_relocate_one_def x86_relocatable_def never_missing_def
        x86_relocate_step_def entry_slot_def)
next
  fix m e x
  assume "\<not> in_slot (entry_slot img m e) x"
  then show "x86_relocate_step img e m x = m x"
    by (simp add: x86_relocate_step_def put_slot_def st32_outside split: option.split)
next
  fix m e m'
  assume ok: "x86_relocatable m e"
    and "same_on (entry_reads img m e @ slot_addresses (entry_slot img m e)) m m'"
  from same_fields [OF this(2)] ok
  show "x86_relocatable m' e \<and> entry_slot img m' e = entry_slot img m e
      \<and> entry_reads img m' e = entry_reads img m e \<and> never_missing m' e = never_missing m e"
    by (simp add: x86_relocatable_def never_missing_def)
next
  fix m e m' x
  assume same: "same_on (entry_reads img m e @ slot_addresses (entry_slot img m e)) m m'"
    and x: "in_slot (entry_slot img m e) x"
  show "x86_relocate_step img e m' x = x86_relocate_step img e m x"
    using same_slot(2) [OF same x] st32_inside [OF x]
    by (simp add: x86_relocate_step_def put_slot_def x86_same_relocated_value [OF same] same_fields [OF same]
        split: option.split)
qed

lemma x86_relocate_table_is_pass:
  "map_option (Pair 0) (x86_relocate_table img rel n m) =
     run_pass (x86_relocate_counted img) (table_entries rel n) (0, m)"
  by (induction n arbitrary: rel m) (auto simp: x86_relocate_counted_def split: Option.bind_splits)

lemma x86_relocate_sections_is_pass:
  "section_entries img shs = Some es \<Longrightarrow>
     map_option (Pair 0) (x86_relocate_sections img shs m) = run_pass (x86_relocate_counted img) es (0, m)"
proof (induction shs arbitrary: es m)
  case (Cons sh shs)
  then obtain rel fs where rel: "is_rel_section img sh = Some rel" and fs: "section_entries img shs = Some fs"
    and es: "es = (if rel then table_entries (so_bias img + sh_addr sh) (unat (sh_size sh div 8)) else []) @ fs"
    by (auto simp: bind_eq_Some_conv)
  show ?case
  proof (cases rel)
    case False
    then show ?thesis using Cons.IH [OF fs] rel es by simp
  next
    case True
    let ?t = "x86_relocate_table img (so_bias img + sh_addr sh) (unat (sh_size sh div 8)) m"
    from x86_relocate_table_is_pass [of img "so_bias img + sh_addr sh" "unat (sh_size sh div 8)" m, symmetric]
    show ?thesis
      using Cons.IH [OF fs] True rel es by (cases ?t) (auto simp: run_pass_append)
  qed
qed simp

lemma x86_relocation_simultaneous:
  assumes "section_entries img (so_sections img) = Some es"
    and "independent x86_relocatable (entry_slot img) (entry_reads img) m es"
  shows "x86_so_relocate img m = Some (0, simultaneous (entry_slot img) (x86_relocate_step img) es m)"
proof -
  have "map_option (Pair (0 :: nat)) (x86_relocate_sections img (so_sections img) m)
      = Some (List.length (filter (never_missing m) es),
          simultaneous (entry_slot img) (x86_relocate_step img) es m)"
    using x86_relocating.pass_is_simultaneous [OF assms(2), of 0] x86_relocate_sections_is_pass [OF assms(1)]
    by simp
  then show ?thesis by (auto simp: x86_so_relocate_def)
qed

section \<open>Import resolution as a pass\<close>

definition x86_import_entry :: "so_image \<Rightarrow> memory \<Rightarrow> u32 \<Rightarrow> bool" where
  "x86_import_entry img m e \<longleftrightarrow> x86_import_type (rel_type m e) \<and> st_shndx m (rel_sym img m e) = 0"

definition x86_import_addend :: "so_image \<Rightarrow> memory \<Rightarrow> u32 \<Rightarrow> u32" where
  "x86_import_addend img m e = (if rel_type m e = R_386_32 then ld32 m (entry_slot img m e) else 0)"

definition x86_resolvable :: "so_image \<Rightarrow> memory \<Rightarrow> u32 \<Rightarrow> bool" where
  "x86_resolvable img m e \<longleftrightarrow> (x86_import_entry img m e \<longrightarrow> import_name img m e \<noteq> None)"

definition x86_import_reads :: "so_image \<Rightarrow> memory \<Rightarrow> u32 \<Rightarrow> u32 list" where
  "x86_import_reads img m e =
     entry_reads img m e @ (if x86_import_entry img m e then string_reads m (import_name_at img m e) else [])"

definition x86_unresolved :: "so_image \<Rightarrow> import_table \<Rightarrow> (bytes \<Rightarrow> u32) \<Rightarrow> memory \<Rightarrow> u32 \<Rightarrow> bool" where
  "x86_unresolved img funcs dlsym m e \<longleftrightarrow> x86_import_entry img m e \<and> import_target img funcs dlsym m e = None"

text \<open>What an import is bound to: its target, or else the trap, if there is one.\<close>

definition x86_binding ::
  "so_image \<Rightarrow> import_table \<Rightarrow> (bytes \<Rightarrow> u32) \<Rightarrow> bool \<Rightarrow> u32 \<Rightarrow> memory \<Rightarrow> u32 \<Rightarrow> u32 option" where
  "x86_binding img funcs dlsym taint missing m e =
     (if x86_import_entry img m e
      then map_option (\<lambda>f. f + x86_import_addend img m e)
             (case import_target img funcs dlsym m e of Some f \<Rightarrow> Some f | None \<Rightarrow> trap_target taint missing)
      else None)"

definition x86_resolve_step ::
  "so_image \<Rightarrow> import_table \<Rightarrow> (bytes \<Rightarrow> u32) \<Rightarrow> bool \<Rightarrow> u32 \<Rightarrow> u32 \<Rightarrow> memory \<Rightarrow> memory" where
  "x86_resolve_step img funcs dlsym taint missing e m =
     put_slot (entry_slot img m e) (x86_binding img funcs dlsym taint missing m e) m"

lemma x86_same_import:
  assumes ok: "x86_resolvable img m e"
    and same: "same_on (x86_import_reads img m e @ ys) m m'"
  shows "x86_import_entry img m' e = x86_import_entry img m e"
    and "x86_import_reads img m' e = x86_import_reads img m e"
    and "entry_slot img m' e = entry_slot img m e" and "x86_resolvable img m' e"
    and "x86_import_entry img m e \<Longrightarrow> import_target img funcs dlsym m' e = import_target img funcs dlsym m e"
proof -
  have "same_on (entry_reads img m e @ ys) m m'"
    using same by (auto simp: same_on_def x86_import_reads_def)
  note fields = same_fields [OF this]
  show "entry_slot img m' e = entry_slot img m e" by (rule fields)
  show entry: "x86_import_entry img m' e = x86_import_entry img m e"
    by (simp add: x86_import_entry_def fields)
  have name_at: "import_name_at img m' e = import_name_at img m e"
    by (simp add: import_name_at_def fields)
  have name: "import_name img m' e = import_name img m e"
    and reads: "string_reads m' (import_name_at img m e) = string_reads m (import_name_at img m e)"
    if imp: "x86_import_entry img m e"
  proof -
    obtain s where s: "cstring_at m (import_name_at img m e) = Some s"
      using ok imp by (auto simp: x86_resolvable_def import_name_def)
    have "cstring_at m' (import_name_at img m e) = Some s"
    proof (rule cstring_at_agree [OF s])
      fix i
      assume "i \<le> List.length s"
      then have "import_name_at img m e + of_nat i \<in> set (x86_import_reads img m e)"
        using s imp by (auto simp: x86_import_reads_def string_reads_def less_Suc_eq_le simp del: upt_Suc)
      with same show "m' (import_name_at img m e + of_nat i) = m (import_name_at img m e + of_nat i)"
        by (simp add: same_on_def)
    qed
    with s show "import_name img m' e = import_name img m e"
      and "string_reads m' (import_name_at img m e) = string_reads m (import_name_at img m e)"
      by (simp_all add: import_name_def name_at string_reads_def)
  qed
  show "x86_import_reads img m' e = x86_import_reads img m e"
    using reads by (simp add: x86_import_reads_def entry name_at fields)
  show "x86_resolvable img m' e" using ok name by (auto simp: x86_resolvable_def entry)
  show "x86_import_entry img m e \<Longrightarrow> import_target img funcs dlsym m' e = import_target img funcs dlsym m e"
    using name by (simp add: import_target_def fields)
qed

lemma x86_same_binding:
  assumes ok: "x86_resolvable img m e"
    and same: "same_on (x86_import_reads img m e @ slot_addresses (entry_slot img m e)) m m'"
  shows "x86_binding img funcs dlsym taint missing m' e = x86_binding img funcs dlsym taint missing m e"
proof -
  have "same_on (entry_reads img m e @ slot_addresses (entry_slot img m e)) m m'"
    using same by (auto simp: same_on_def x86_import_reads_def)
  from same_fields [OF this] same_slot [OF this]
  have "x86_import_addend img m' e = x86_import_addend img m e" by (simp add: x86_import_addend_def)
  with x86_same_import [OF ok same] show ?thesis by (simp add: x86_binding_def)
qed

interpretation x86_resolving: slot_pass
    "x86_resolvable img" "entry_slot img" "x86_import_reads img" "x86_unresolved img funcs dlsym"
    "x86_resolve_step img funcs dlsym taint missing" "x86_resolve_one img funcs dlsym taint missing"
  for img funcs dlsym taint missing
proof unfold_locales
  fix m e
  assume ok: "x86_resolvable img m e"
  show "x86_resolve_one img funcs dlsym taint missing e m =
      Some (of_bool (x86_unresolved img funcs dlsym m e), x86_resolve_step img funcs dlsym taint missing e m)"
  proof (cases "x86_import_entry img m e")
    case False
    then show ?thesis
      by (auto simp: x86_resolve_one_def Let_def x86_import_entry_def x86_unresolved_def x86_resolve_step_def
          x86_binding_def put_slot_def)
  next
    case True
    with ok obtain s where "import_name img m e = Some s" by (auto simp: x86_resolvable_def)
    with True show ?thesis
      by (auto simp: x86_resolve_one_def Let_def x86_import_entry_def x86_unresolved_def x86_resolve_step_def
          x86_binding_def put_slot_def import_target_def x86_import_addend_def import_name_def import_name_at_def
          entry_slot_def split: option.split)
  qed
next
  fix m e x
  assume "\<not> in_slot (entry_slot img m e) x"
  then show "x86_resolve_step img funcs dlsym taint missing e m x = m x"
    by (simp add: x86_resolve_step_def put_slot_def st32_outside split: option.split)
next
  fix m e m'
  assume ok: "x86_resolvable img m e"
    and same: "same_on (x86_import_reads img m e @ slot_addresses (entry_slot img m e)) m m'"
  from x86_same_import [OF ok same]
  show "x86_resolvable img m' e \<and> entry_slot img m' e = entry_slot img m e
      \<and> x86_import_reads img m' e = x86_import_reads img m e
      \<and> x86_unresolved img funcs dlsym m' e = x86_unresolved img funcs dlsym m e"
    by (auto simp: x86_unresolved_def)
next
  fix m e m' x
  assume ok: "x86_resolvable img m e"
    and same: "same_on (x86_import_reads img m e @ slot_addresses (entry_slot img m e)) m m'"
    and x: "in_slot (entry_slot img m e) x"
  show "x86_resolve_step img funcs dlsym taint missing e m' x = x86_resolve_step img funcs dlsym taint missing e m x"
    using same_slot(2) [OF same x] st32_inside [OF x] x86_same_import [OF ok same] x86_same_binding [OF ok same]
    by (simp add: x86_resolve_step_def put_slot_def split: option.split)
qed

lemma x86_resolve_table_is_pass:
  "x86_resolve_table img funcs dlsym taint missing rel n (u, m) =
     run_pass (x86_resolve_one img funcs dlsym taint missing) (table_entries rel n) (u, m)"
  by (induction n arbitrary: rel u m) auto

lemma x86_resolve_sections_is_pass:
  "section_entries img shs = Some es \<Longrightarrow>
     x86_resolve_sections img funcs dlsym taint missing shs (u, m)
       = run_pass (x86_resolve_one img funcs dlsym taint missing) es (u, m)"
proof (induction shs arbitrary: es u m)
  case (Cons sh shs)
  then obtain rel fs where rel: "is_rel_section img sh = Some rel" and fs: "section_entries img shs = Some fs"
    and es: "es = (if rel then table_entries (so_bias img + sh_addr sh) (unat (sh_size sh div 8)) else []) @ fs"
    by (auto simp: bind_eq_Some_conv)
  show ?case
    using Cons.IH [OF fs] rel es
    by (auto simp: x86_resolve_table_is_pass run_pass_append split: option.split)
qed simp

lemma ld32_of_slot: "(\<And>x. in_slot a x \<Longrightarrow> m' x = m x) \<Longrightarrow> ld32 m' a = ld32 m a"
  by (rule ld32_cong) (simp_all add: in_slot_cases)

text \<open>C38. No import of the i386 loader is left open: when the slots of the entries overlap neither one another nor
  what the pass reads, \<open>so_resolve\<close> succeeds; it counts the imports that neither the table, nor the host, nor
  weakness resolves; every other import's slot holds its target plus its addend, the counted ones hold the trap's
  address plus the addend when the caller asked for a trap and one is set, and are as they were otherwise; and no
  byte outside the slots of imports changes.\<close>

theorem x86_imports_bound:
  assumes "section_entries img (so_sections img) = Some es"
    and "independent (x86_resolvable img) (entry_slot img) (x86_import_reads img) m es"
  shows "\<exists>m1. x86_so_resolve img funcs dlsym taint missing m
           = Some (List.length (filter (x86_unresolved img funcs dlsym m) es), m1)
      \<and> (\<forall>e \<in> set es. x86_import_entry img m e \<longrightarrow>
            ld32 m1 (entry_slot img m e) =
              (case import_target img funcs dlsym m e of
                 Some f \<Rightarrow> f + x86_import_addend img m e
               | None \<Rightarrow> if taint \<and> missing \<noteq> 0 then missing + x86_import_addend img m e
                         else ld32 m (entry_slot img m e)))
      \<and> (\<forall>x. (\<forall>e \<in> set es. x86_import_entry img m e \<longrightarrow> \<not> in_slot (entry_slot img m e) x) \<longrightarrow> m1 x = m x)"
proof -
  let ?step = "x86_resolve_step img funcs dlsym taint missing"
  define m1 where "m1 = simultaneous (entry_slot img) ?step es m"
  have "x86_so_resolve img funcs dlsym taint missing m
      = Some (List.length (filter (x86_unresolved img funcs dlsym m) es), m1)"
    using x86_resolving.pass_is_simultaneous [OF assms(2), of funcs dlsym taint missing 0]
      x86_resolve_sections_is_pass [OF assms(1)]
    by (simp add: x86_so_resolve_def m1_def)
  moreover have "ld32 m1 (entry_slot img m e) =
      (case import_target img funcs dlsym m e of
         Some f \<Rightarrow> f + x86_import_addend img m e
       | None \<Rightarrow> if taint \<and> missing \<noteq> 0 then missing + x86_import_addend img m e else ld32 m (entry_slot img m e))"
    if "e \<in> set es" "x86_import_entry img m e" for e
  proof -
    have "ld32 m1 (entry_slot img m e) = ld32 (?step e m) (entry_slot img m e)"
      by (rule ld32_of_slot) (auto simp: m1_def intro: x86_resolving.slot_after_pass [OF assms(2) that(1)])
    with that(2) show ?thesis
      by (simp add: x86_resolve_step_def x86_binding_def put_slot_def trap_target_def split: option.split)
  qed
  moreover have "m1 x = m x" if "\<forall>e \<in> set es. x86_import_entry img m e \<longrightarrow> \<not> in_slot (entry_slot img m e) x" for x
  proof (cases "List.find (\<lambda>e. in_slot (entry_slot img m e) x) es")
    case None
    then show ?thesis by (simp add: m1_def simultaneous_def)
  next
    case (Some e)
    then have "e \<in> set es" "in_slot (entry_slot img m e) x" by (auto simp: find_Some_iff)
    with that Some show ?thesis
      by (auto simp: m1_def simultaneous_def x86_resolve_step_def x86_binding_def put_slot_def)
  qed
  ultimately show ?thesis by blast
qed

text \<open>An image with one import of type \<open>R_386_32\<close>, for which nobody has a target.\<close>

definition one_import_image :: so_image where
  "one_import_image =
     \<lparr>so_file = cstr ''.rel.dyn'' @ [0], so_programs = [],
      so_sections = [\<lparr>sh_name = 0, sh_addr = 0x100, sh_offset = 0, sh_size = 8\<rparr>], so_shstrtab = 0,
      so_mapping = 0x1000, so_bias = 0x1000, so_load_size = 0x1000, so_min_vaddr = 0,
      so_text_base = 0x1000, so_text_size = 0x1000, so_data_base = 0x1000, so_data_size = 0x1000,
      so_syms = 0x1300, so_num_syms = 2, so_dynstr = 0x1400\<rparr>"

definition one_import_memory :: memory where
  "one_import_memory =
     st32 (st32 (st32 (st32 (st32 (\<lambda>_. 0) 0x1100 0x200) 0x1104 0x101) 0x1200 8) 0x131C 0x10) 0x1400 102"

lemma one_import_entries:
  "section_entries one_import_image (so_sections one_import_image) = Some [0x1100]"
  by code_simp

lemma one_import_fields:
  "entry_slot one_import_image one_import_memory 0x1100 = 0x1200"
  "rel_type one_import_memory 0x1100 = 1"
  "rel_sym one_import_image one_import_memory 0x1100 = 0x1310"
  "import_name_at one_import_image one_import_memory 0x1100 = 0x1400"
  "cstring_at one_import_memory 0x1400 = Some (cstr ''f'')"
  "st_shndx one_import_memory 0x1310 = 0" "st_bind one_import_memory 0x1310 = 1" "ld32 one_import_memory 0x1200 = 8"
  by code_simp+

lemma one_import_independent:
  "independent (x86_resolvable one_import_image) (entry_slot one_import_image) (x86_import_reads one_import_image)
     one_import_memory [0x1100]"
  by (simp add: x86_resolvable_def import_name_def one_import_fields)

theorem x86_imports_bound_witness:
  "\<exists>m1. x86_so_resolve one_import_image [] (\<lambda>_. 0) True 0x9000 one_import_memory = Some (1, m1) \<and> ld32 m1 0x1200 = 0x9008"
proof -
  have "x86_import_entry one_import_image one_import_memory 0x1100"
    "import_target one_import_image [] (\<lambda>_. 0) one_import_memory 0x1100 = None"
    "x86_import_addend one_import_image one_import_memory 0x1100 = 8"
    by (simp_all add: x86_import_entry_def x86_import_type_def import_target_def import_address_def import_name_def
        x86_import_addend_def one_import_fields)
  with x86_imports_bound [OF one_import_entries one_import_independent, of "[]" "\<lambda>_. 0" True "0x9000"]
  show ?thesis by (simp add: x86_unresolved_def one_import_fields) blast
qed

end
