(* ===== verification/Asm2_GamePatches.thy ===== *)
theory Asm2_GamePatches
  imports Asm2_ElfPasses
begin

text \<open>
  The changes that are made to one version of the game: \<open>installer_compat.c\<close>, \<open>audio_compat.c\<close> and
  \<open>startup_compat.c\<close> under \<open>src/asm2_127/src\<close>.  Each looks up fixed addresses of the original image, compares
  what is there with what that version has, and only then records or writes.  A pointer that is NULL is 0.
\<close>

unbundle bit_operations_syntax

section \<open>Bytes in memory\<close>

fun bytes_match :: "memory \<Rightarrow> u32 \<Rightarrow> bytes \<Rightarrow> bool" where
  "bytes_match m a [] \<longleftrightarrow> True"
| "bytes_match m a (b # bs) \<longleftrightarrow> m a = b \<and> bytes_match m (a + 1) bs"

lemma bytes_match_nth:
  "bytes_match m a bs \<longleftrightarrow> (\<forall>i < List.length bs. m (a + of_nat i) = bs ! i)"
proof (induction bs arbitrary: a)
  case (Cons b bs)
  have "(\<forall>i < List.length (b # bs). m (a + of_nat i) = (b # bs) ! i)
      \<longleftrightarrow> m a = b \<and> (\<forall>i < List.length bs. m (a + 1 + of_nat i) = bs ! i)"
    by (auto simp: less_Suc_eq_0_disj algebra_simps)
  then show ?case using Cons.IH [of "a + 1"] by simp
qed simp

lemma store_bytes_match:
  assumes "List.length bs \<le> 2 ^ 32"
  shows "bytes_match (store_bytes a bs m) a bs"
  unfolding bytes_match_nth
proof (intro allI impI)
  fix i
  assume i: "i < List.length bs"
  with assms have "unat (of_nat i :: u32) = i" by (simp add: unat_of_nat)
  with i show "store_bytes a bs m (a + of_nat i) = bs ! i" by (simp add: store_bytes_apply [OF assms])
qed

text \<open>An address of the original image, as the callers test it: NULL when it is outside.\<close>

definition guest_pointer :: "so_image \<Rightarrow> u32 \<Rightarrow> u32 \<Rightarrow> u32 option" where
  "guest_pointer img vma n = (case so_guest_vma img vma n of None \<Rightarrow> None | Some a \<Rightarrow> if a = 0 then None else Some a)"

section \<open>The installer's counters\<close>

text \<open>Where a counter's pointer is stored, and the entry of the relocated table that must hold this address.\<close>

definition installer_slots :: "(u32 \<times> u32) list" where
  "installer_slots = [(0x013B7B30, 0x0133A8BC), (0x013B7B34, 0x0133A8B4), (0x013B7B38, 0x0133A8C0), (0x013B7B3C, 0x0133A8B8)]"

definition x86_installer_slots :: "(u32 \<times> u32) list" where
  "x86_installer_slots = [(0x01F15DF0, 0x01E928F0), (0x01F15DF4, 0x01E928D0), (0x01F15DF8, 0x01E928F4), (0x01F15DFC, 0x01E928D4)]"

text \<open>The addresses, and how many counters are there already; \<open>None\<close> is another version of the game.\<close>

fun check_slots :: "so_image \<Rightarrow> memory \<Rightarrow> (u32 \<times> u32) list \<Rightarrow> (u32 list \<times> nat) option" where
  "check_slots img m [] = Some ([], 0)"
| "check_slots img m ((storage_vma, got_vma) # slots) =
     (case (guest_pointer img storage_vma 4, guest_pointer img got_vma 4) of
        (Some storage, Some got) \<Rightarrow>
          if ld32 m got \<noteq> storage then None
          else (case check_slots img m slots of
                  None \<Rightarrow> None
                | Some (storages, n) \<Rightarrow> Some (storage # storages, of_bool (ld32 m storage \<noteq> 0) + n))
      | _ \<Rightarrow> None)"

text \<open>\<open>answers\<close> are those of \<open>malloc\<close>; the result is the blocks, whether all were given, and the memory.\<close>

fun allocate_counters :: "u32 list \<Rightarrow> memory \<Rightarrow> u32 list \<times> bool \<times> memory" where
  "allocate_counters [] m = ([], True, m)"
| "allocate_counters (a # answers) m =
     (if a = 0 then ([], False, m)
      else case allocate_counters answers (st32 m a 1) of (blocks, all_given, m') \<Rightarrow> (a # blocks, all_given, m'))"

fun store_counters :: "(u32 \<times> u32) list \<Rightarrow> memory \<Rightarrow> memory" where
  "store_counters [] m = m"
| "store_counters ((storage, v) # rest) m = store_counters rest (st32 m storage v)"

text \<open>The result, the blocks given back, and the memory.\<close>

definition asm2_installer_compat_initialize ::
  "(u32 \<times> u32) list \<Rightarrow> so_image \<Rightarrow> u32 list \<Rightarrow> memory \<Rightarrow> int \<times> u32 list \<times> memory" where
  "asm2_installer_compat_initialize slots img answers m =
     (case check_slots img m slots of
        None \<Rightarrow> (-1, [], m)
      | Some (storages, initialized) \<Rightarrow>
          if initialized \<noteq> 0 then (if initialized = List.length slots then (0, [], m) else (-1, [], m))
          else case allocate_counters (take (List.length slots) answers) m of (blocks, all_given, m1) \<Rightarrow>
            if \<not> all_given then (-1, blocks, m1) else (0, [], store_counters (zip storages blocks) m1))"

section \<open>The audio callback\<close>

definition audio_patches :: "(u32 \<times> u32) list" where
  "audio_patches = [(0x00bb21fc, 0xebff6f09), (0x00bb2284, 0xebff6eeb), (0x00bb23c4, 0xebff6e97), (0x00bb244c, 0xebff6e79)]"

definition instruction_is :: "so_image \<Rightarrow> memory \<Rightarrow> u32 \<times> u32 \<Rightarrow> bool" where
  "instruction_is img m p = (case guest_pointer img (fst p) 4 of None \<Rightarrow> False | Some a \<Rightarrow> ld32 m a = snd p)"

text \<open>The result and the address of the callback, which stays as it was on failure.\<close>

definition asm2_audio_compat_apply :: "so_image \<Rightarrow> memory \<Rightarrow> u32 \<Rightarrow> int \<times> u32" where
  "asm2_audio_compat_apply img m callback =
     (if \<not> list_all (instruction_is img m) audio_patches then (-1, callback)
      else case guest_pointer img 0x00bb7c98 4 of
        None \<Rightarrow> (-1, callback)
      | Some a \<Rightarrow> if ld32 m a \<noteq> 0xe92d4070 then (-1, callback) else (0, a))"

definition x86_audio_checks :: "(u32 \<times> bytes) list" where
  "x86_audio_checks =
     [(0x01136733, [0xe8, 0x58, 0x0a, 0x00, 0x00]), (0x011367bb, [0xe8, 0xd0, 0x09, 0x00, 0x00]),
      (0x011371af, [0xe8, 0x7c, 0x01, 0xf7, 0xfe]), (0x01137249, [0xe8, 0xf2, 0x00, 0xf7, 0xfe]),
      (0x01138103, [0xe8, 0x28, 0xf2, 0xf6, 0xfe]), (0x0113811a, [0xe8, 0x21, 0xf2, 0xf6, 0xfe])]"

definition x86_audio_callback_prefix :: bytes where
  "x86_audio_callback_prefix =
     [0x56, 0x53, 0xe8, 0x7c, 0x21, 0xfb, 0xfe, 0x81, 0xc3, 0xf5, 0xb8, 0xd5, 0x00, 0x8d, 0x64, 0x24,
      0xec, 0x8b, 0x74, 0x24, 0x24, 0x85, 0xf6, 0x74, 0x26, 0x8b, 0x46, 0x04, 0x85, 0xc0, 0x74, 0x08]"

definition code_is :: "so_image \<Rightarrow> memory \<Rightarrow> u32 \<times> bytes \<Rightarrow> bool" where
  "code_is img m p =
     (case guest_pointer img (fst p) (of_nat (List.length (snd p))) of
        None \<Rightarrow> False | Some a \<Rightarrow> bytes_match m a (snd p))"

definition x86_audio_compat_apply :: "so_image \<Rightarrow> memory \<Rightarrow> u32 \<Rightarrow> int \<times> u32" where
  "x86_audio_compat_apply img m callback =
     (if \<not> list_all (code_is img m) x86_audio_checks then (-1, callback)
      else case guest_pointer img 0x011380e0 32 of
        None \<Rightarrow> (-1, callback)
      | Some a \<Rightarrow> if \<not> bytes_match m a x86_audio_callback_prefix then (-1, callback) else (0, a))"

text \<open>The mutex of a callback's context, for the game's own callback only.\<close>

definition asm2_audio_compat_callback_mutex :: "u32 \<Rightarrow> memory \<Rightarrow> u32 \<Rightarrow> u32 \<Rightarrow> u32" where
  "asm2_audio_compat_callback_mutex known m callback context =
     (if known = 0 \<or> callback \<noteq> known \<or> context = 0 then 0 else ld32 m (context + 4))"

section \<open>The deferred first check\<close>

record startup =
  su_instruction :: u32
  su_pending :: u32
  su_slot :: u32
  su_deferred :: bool

definition or_null :: "u32 option \<Rightarrow> u32" where
  "or_null p = (case p of None \<Rightarrow> 0 | Some a \<Rightarrow> a)"

definition first_check_original :: u32 where "first_check_original = 0xebf76281"
definition arm_nop :: u32 where "arm_nop = 0xe1a00000"

definition first_profile_original :: "u32 list" where
  "first_profile_original = [0xebffff9e, 0xe5967064, 0xe3570000, 0x0a000030]"

definition first_profile_guarded :: "u32 list" where
  "first_profile_guarded = [0xe5967064, 0xe3570000, 0x0a000031, 0xebffff9b]"

fun words_match :: "memory \<Rightarrow> u32 \<Rightarrow> u32 list \<Rightarrow> bool" where
  "words_match m a [] \<longleftrightarrow> True"
| "words_match m a (w # ws) \<longleftrightarrow> ld32 m a = w \<and> words_match m (a + 4) ws"

fun store_words :: "u32 \<Rightarrow> u32 list \<Rightarrow> memory \<Rightarrow> memory" where
  "store_words a [] m = m"
| "store_words a (w # ws) m = store_words (a + 4) ws (st32 m a w)"

definition startup_pointers :: "u32 option \<Rightarrow> u32 option \<Rightarrow> u32 option \<Rightarrow> startup \<Rightarrow> startup" where
  "startup_pointers instruction pending slot s =
     s\<lparr>su_instruction := or_null instruction, su_pending := or_null pending, su_slot := or_null slot\<rparr>"

definition asm2_startup_compat_apply :: "so_image \<Rightarrow> startup \<Rightarrow> memory \<Rightarrow> int \<times> startup \<times> memory" where
  "asm2_startup_compat_apply img s m =
     (let instruction = guest_pointer img 0x00435a80 4; pending = guest_pointer img 0x01352321 1;
          slot = guest_pointer img 0x0134f724 4; guarded = guest_pointer img 0x00419a60 16;
          s1 = startup_pointers instruction pending slot s
      in case (instruction, pending, slot, guarded) of
           (Some i, Some p, Some c, Some g) \<Rightarrow>
             if ld32 m i \<noteq> first_check_original then (-1, s1, m)
             else if \<not> words_match m g first_profile_original then (-1, s1, m)
             else (0, s1\<lparr>su_deferred := True\<rparr>, store_words g first_profile_guarded (st32 m i arm_nop))
         | _ \<Rightarrow> (-1, s1, m))"

text \<open>Whether the page could be made writable, and then executable again.\<close>

definition write_runtime_instruction :: "bool \<Rightarrow> bool \<Rightarrow> u32 \<Rightarrow> u32 \<Rightarrow> memory \<Rightarrow> bool \<times> memory" where
  "write_runtime_instruction writable executable instruction v m =
     (if \<not> writable then (False, m) else (executable, st32 m instruction v))"

definition box_busy :: "startup \<Rightarrow> memory \<Rightarrow> bool" where
  "box_busy s m \<longleftrightarrow> (let box = ld32 m (su_slot s) in box \<noteq> 0 \<and> (m (box + 0x01ce) \<noteq> 0 \<or> m (box + 0x01d0) \<noteq> 0))"

definition nothing_pending :: "startup \<Rightarrow> memory \<Rightarrow> bool" where
  "nothing_pending s m \<longleftrightarrow> \<not> su_deferred s \<or> su_pending s = 0 \<or> m (su_pending s) = 0"

definition asm2_startup_compat_tick :: "bool \<Rightarrow> bool \<Rightarrow> startup \<Rightarrow> memory \<Rightarrow> startup \<times> memory" where
  "asm2_startup_compat_tick writable executable s m =
     (if nothing_pending s m \<or> box_busy s m then (s, m)
      else if ld32 m (su_instruction s) \<noteq> arm_nop then (s\<lparr>su_deferred := False\<rparr>, m)
      else case write_runtime_instruction writable executable (su_instruction s) first_check_original m of (ok, m1) \<Rightarrow>
        if \<not> ok then (s, m1) else (s\<lparr>su_deferred := False\<rparr>, m1(su_pending s := 0)))"

definition x86_first_check_original :: bytes where "x86_first_check_original = [0xe8, 0x52, 0xb9, 0xcf, 0xff]"
definition x86_nop5 :: bytes where "x86_nop5 = [0x90, 0x90, 0x90, 0x90, 0x90]"

definition x86_first_profile_original :: bytes where
  "x86_first_profile_original =
     [0x89, 0x3c, 0x24, 0x89, 0x07, 0xe8, 0x89, 0x95, 0x00, 0x00, 0x8b, 0x77, 0x64, 0x85,
      0xf6, 0x0f, 0x84, 0xad, 0x00, 0x00, 0x00]"

definition x86_first_profile_guarded :: bytes where
  "x86_first_profile_guarded =
     [0x89, 0x3c, 0x24, 0x89, 0x07, 0x8b, 0x77, 0x64, 0x85, 0xf6, 0x0f, 0x84, 0xb2, 0x00,
      0x00, 0x00, 0xe8, 0x7e, 0x95, 0x00, 0x00]"

definition x86_startup_compat_apply :: "so_image \<Rightarrow> startup \<Rightarrow> memory \<Rightarrow> int \<times> startup \<times> memory" where
  "x86_startup_compat_apply img s m =
     (let instruction = guest_pointer img 0x005a9529 5; pending = guest_pointer img 0x01eaf0a9 1;
          slot = guest_pointer img 0x01eabb54 4; guarded = guest_pointer img 0x0057144d 21;
          s1 = startup_pointers instruction pending slot s
      in case (instruction, pending, slot, guarded) of
           (Some i, Some p, Some c, Some g) \<Rightarrow>
             if \<not> bytes_match m i x86_first_check_original then (-1, s1, m)
             else if \<not> bytes_match m g x86_first_profile_original then (-1, s1, m)
             else (0, s1\<lparr>su_deferred := True\<rparr>, store_bytes g x86_first_profile_guarded (store_bytes i x86_nop5 m))
         | _ \<Rightarrow> (-1, s1, m))"

definition write_runtime_instruction_bytes :: "bool \<Rightarrow> bool \<Rightarrow> u32 \<Rightarrow> bytes \<Rightarrow> memory \<Rightarrow> bool \<times> memory" where
  "write_runtime_instruction_bytes writable executable instruction v m =
     (if \<not> writable then (False, m) else (executable, store_bytes instruction v m))"

definition x86_startup_compat_tick :: "bool \<Rightarrow> bool \<Rightarrow> startup \<Rightarrow> memory \<Rightarrow> startup \<times> memory" where
  "x86_startup_compat_tick writable executable s m =
     (if nothing_pending s m \<or> box_busy s m then (s, m)
      else if \<not> bytes_match m (su_instruction s) x86_nop5 then (s\<lparr>su_deferred := False\<rparr>, m)
      else case write_runtime_instruction_bytes writable executable (su_instruction s) x86_first_check_original m of
        (ok, m1) \<Rightarrow> if \<not> ok then (s, m1) else (s\<lparr>su_deferred := False\<rparr>, m1(su_pending s := 0)))"

section \<open>The call comes back\<close>

lemma guest_pointer_Some: "guest_pointer img vma n = Some a \<Longrightarrow> a = so_bias img + vma"
  by (auto simp: guest_pointer_def so_guest_vma_def Let_def split: if_splits option.splits)

lemma startup_applied:
  assumes "asm2_startup_compat_apply img s0 m0 = (0, s, m)"
  shows "su_instruction s = so_bias img + 0x00435a80" "su_pending s = so_bias img + 0x01352321"
    "ld32 m0 (su_instruction s) = first_check_original" "su_deferred s"
    "m = store_words (so_bias img + 0x00419a60) first_profile_guarded (st32 m0 (su_instruction s) arm_nop)"
    "words_match m0 (so_bias img + 0x00419a60) first_profile_original"
  using assms
  by (auto simp: asm2_startup_compat_apply_def Let_def startup_pointers_def or_null_def
      dest!: guest_pointer_Some split: option.splits if_splits)

lemma startup_refused:
  assumes "asm2_startup_compat_apply img s0 m0 = (r, s, m)" "r \<noteq> 0"
  shows "m = m0"
  using assms by (auto simp: asm2_startup_compat_apply_def Let_def split: option.splits if_splits)

lemma ld32_other_word:
  assumes "list_all (\<lambda>x. \<not> in_slot b x) (slot_addresses a)"
  shows "ld32 (st32 m b v) a = ld32 m a"
  by (rule ld32_cong) (use assms in \<open>simp_all add: slot_addresses_def st32_outside\<close>)

lemma ld32_other_byte: "\<not> in_slot a b \<Longrightarrow> ld32 (m(b := v)) a = ld32 m a"
  by (rule ld32_cong) (auto simp: in_slot_cases)

lemma guard_beside_call:
  "ld32 (store_words (c + 0x00419a60) first_profile_guarded m) (c + 0x00435a80) = ld32 m (c + 0x00435a80)"
  by (simp add: first_profile_guarded_def ld32_other_word slot_addresses_def in_slot_def)

text \<open>Between two ticks the game may do what it likes, except write over the call.\<close>

definition leaves_word :: "u32 \<Rightarrow> (memory \<Rightarrow> memory) \<Rightarrow> bool" where
  "leaves_word a g \<longleftrightarrow> (\<forall>m. ld32 (g m) a = ld32 m a)"

fun startup_run :: "(memory \<Rightarrow> memory) list \<Rightarrow> startup \<Rightarrow> memory \<Rightarrow> startup \<times> memory" where
  "startup_run [] s m = (s, m)"
| "startup_run (g # gs) s m = (case asm2_startup_compat_tick True True s (g m) of (s1, m1) \<Rightarrow> startup_run gs s1 m1)"

lemma tick_keeps_pointers:
  assumes "asm2_startup_compat_tick w x s m = (s', m')"
  shows "su_instruction s' = su_instruction s" "su_pending s' = su_pending s" "su_slot s' = su_slot s"
  using assms by (auto simp: asm2_startup_compat_tick_def split: if_splits prod.splits)

lemma tick_keeps_call:
  assumes "asm2_startup_compat_tick True True s m = (s', m')"
    and "\<not> in_slot (su_instruction s) (su_pending s)"
    and "ld32 m (su_instruction s) = (if su_deferred s then arm_nop else first_check_original)"
  shows "ld32 m' (su_instruction s) = (if su_deferred s' then arm_nop else first_check_original)"
proof (cases "nothing_pending s m \<or> box_busy s m")
  case True
  with assms(1,3) show ?thesis by (auto simp: asm2_startup_compat_tick_def)
next
  case False
  then have "su_deferred s" by (simp add: nothing_pending_def)
  with False assms show ?thesis
    by (auto simp: asm2_startup_compat_tick_def write_runtime_instruction_def ld32_other_byte)
qed

lemma run_keeps_call:
  assumes "list_all (leaves_word (su_instruction s)) gs" and "startup_run gs s m = (s', m')"
    and "\<not> in_slot (su_instruction s) (su_pending s)"
    and "ld32 m (su_instruction s) = (if su_deferred s then arm_nop else first_check_original)"
  shows "ld32 m' (su_instruction s) = (if su_deferred s' then arm_nop else first_check_original)"
  using assms
proof (induction gs arbitrary: s m)
  case (Cons g gs)
  obtain s1 m1 where t: "asm2_startup_compat_tick True True s (g m) = (s1, m1)" by fastforce
  note same = tick_keeps_pointers [OF t]
  have "ld32 (g m) (su_instruction s) = (if su_deferred s then arm_nop else first_check_original)"
    using Cons.prems(1,4) by (simp add: leaves_word_def)
  from tick_keeps_call [OF t Cons.prems(3) this] show ?case
    using Cons.IH [of s1 m1] Cons.prems t by (simp add: same)
qed simp

lemma run_keeps_pointers:
  assumes "startup_run gs s m = (s', m')"
  shows "su_instruction s' = su_instruction s \<and> su_pending s' = su_pending s"
  using assms
proof (induction gs arbitrary: s m)
  case (Cons g gs)
  obtain s1 m1 where t: "asm2_startup_compat_tick True True s (g m) = (s1, m1)" by fastforce
  from Cons.IH [of s1 m1] Cons.prems t tick_keeps_pointers [OF t] show ?case by simp
qed simp


text \<open>A game of that version, whose latch is set and whose message box is there and idle.\<close>

definition known_image :: so_image where
  "known_image =
     \<lparr>so_file = [], so_programs = [], so_sections = [], so_shstrtab = 0,
      so_mapping = 0x10000000, so_bias = 0x10000000, so_load_size = 0x02000000, so_min_vaddr = 0,
      so_text_base = 0x10000000, so_text_size = 0x1000, so_data_base = 0x11000000, so_data_size = 0x1000,
      so_syms = 0, so_num_syms = 0, so_dynstr = 0\<rparr>"

definition known_memory :: memory where
  "known_memory = store_words 0x10419a60 first_profile_original (st32 (\<lambda>_. 0) 0x10435a80 first_check_original)"

definition idle_startup :: startup where
  "idle_startup = \<lparr>su_instruction = 0, su_pending = 0, su_slot = 0, su_deferred = False\<rparr>"

definition latched :: "memory \<Rightarrow> memory" where "latched m = m(0x11352321 := 1)"


text \<open>When the page cannot be made executable again, the call is back, but the attempt stays latched, and the next
  tick gives up: the game never makes the attempt again.\<close>

lemma half_done_restore:
  assumes "su_deferred s" "su_pending s \<noteq> 0" "m (su_pending s) \<noteq> 0" "\<not> box_busy s m"
    and "ld32 m (su_instruction s) = arm_nop" and "\<not> in_slot (su_instruction s) (su_pending s)"
    and "asm2_startup_compat_tick True False s m = (s1, m1)"
    and "asm2_startup_compat_tick True True s1 (g m1) = (s2, m2)" and "g m1 = m1" and "\<not> box_busy s1 m1"
  shows "\<not> su_deferred s2 \<and> m2 (su_pending s) = m (su_pending s)"
proof -
  have 1: "s1 = s" "m1 = st32 m (su_instruction s) first_check_original"
    using assms(1-5,7)
    by (auto simp: asm2_startup_compat_tick_def nothing_pending_def write_runtime_instruction_def)
  have "arm_nop \<noteq> first_check_original" by (simp add: arm_nop_def first_check_original_def)
  with assms 1 show ?thesis
    by (auto simp: asm2_startup_compat_tick_def nothing_pending_def st32_outside)
qed

section \<open>The installer's postcondition\<close>

text \<open>A version of the game that is not the known one, or one whose counters are there already, is left alone.\<close>

lemma installer_leaves_alone:
  assumes "asm2_installer_compat_initialize slots img answers m = (r, freed, m')"
    and "check_slots img m slots = None \<or> (\<exists>sts n. check_slots img m slots = Some (sts, n) \<and> n \<noteq> 0)"
  shows "m' = m \<and> freed = []"
  using assms by (auto simp: asm2_installer_compat_initialize_def split: if_splits)

text \<open>A failed allocation gives back exactly the blocks that were given.\<close>

lemma allocate_counters_blocks:
  "allocate_counters answers m = (blocks, given, m')
     \<Longrightarrow> blocks = takeWhile (\<lambda>a. a \<noteq> 0) answers \<and> (given \<longleftrightarrow> 0 \<notin> set answers)"
  by (induction answers arbitrary: m blocks) (auto split: prod.splits if_splits)

lemma installer_gives_back:
  assumes "asm2_installer_compat_initialize slots img answers m = (-1, freed, m')"
    and "check_slots img m slots = Some (sts, 0)"
  shows "freed = takeWhile (\<lambda>a. a \<noteq> 0) (take (List.length slots) answers)"
  using assms
  by (auto simp: asm2_installer_compat_initialize_def dest: allocate_counters_blocks split: prod.splits if_splits)

end
