(* ===== verification/Asm2_Shop.thy ===== *)
theory Asm2_Shop
  imports Asm2_GamePatches
begin

text \<open>
  The shop of the game (\<open>src/asm2_127/src/shop_compat.c\<close>): the assets that must be the known ones, the check of the
  game's version, and the frame by frame watch over the game's store manager, which hands it the catalogue when the
  game has none of its own.  The game's functions are parameters that act on memory.
\<close>

unbundle bit_operations_syntax

section \<open>Assets\<close>

text \<open>The loop over the bits of a byte, as it is written.\<close>

definition crc32_bit :: "u32 \<Rightarrow> u32" where
  "crc32_bit crc = drop_bit 1 crc XOR (0xedb88320 AND (- (crc AND 1)))"

definition crc32_bytes :: "bytes \<Rightarrow> u32" where
  "crc32_bytes data = NOT (foldl (\<lambda>crc b. (crc32_bit ^^ 8) (crc XOR ucast b)) 0xffffffff data)"

text \<open>\<open>open_file\<close> answers the contents; \<open>read_ok\<close> tells whether they could be read; \<open>mem\<close> the two allocations.\<close>

definition asset_path :: "bytes \<Rightarrow> bytes \<Rightarrow> bytes" where
  "asset_path directory relative =
     directory @ (if directory = [] \<or> last directory \<noteq> 0x2F then [0x2F] else []) @ relative"

definition read_versioned_asset ::
  "(nat \<Rightarrow> bool) \<Rightarrow> (bytes \<Rightarrow> bytes option) \<Rightarrow> bool \<Rightarrow> bytes option \<Rightarrow> bytes \<Rightarrow> nat \<Rightarrow> u32 \<Rightarrow> bytes option" where
  "read_versioned_asset mem open_file read_ok game_directory relative_path expected_size expected_crc32 =
     (case game_directory of
        None \<Rightarrow> None
      | Some directory \<Rightarrow>
          if List.length directory > 0xFFFFFFFF - List.length relative_path - 2 then None
          else if \<not> mem 0 then None
          else case open_file (asset_path directory relative_path) of
            None \<Rightarrow> None
          | Some contents \<Rightarrow>
              if \<not> mem 1 then None
              else let received = take (expected_size + 1) contents
                in if \<not> read_ok \<or> List.length received \<noteq> expected_size \<or> crc32_bytes received \<noteq> expected_crc32
                   then None else Some received)"

definition catalog_relative_path :: bytes where "catalog_relative_path = cstr ''assets/IapLocalData_Google.json''"
definition store_items_relative_path :: bytes where "store_items_relative_path = cstr ''assets/IapStoreItems_Offline.json''"

section \<open>The game's functions\<close>

record shop =
  sp_slot :: u32
  sp_constructor :: u32
  sp_parser :: u32
  sp_counter :: u32
  sp_catalog :: "bytes option"
  sp_string :: u32
  sp_ready :: u32
  sp_state :: int
  sp_last :: u32

text \<open>\<open>INT32_MIN\<close>, which is no state of the manager.\<close>

abbreviation int32_min :: u32 where "int32_min \<equiv> 0x80000000"

text \<open>The game: a count of a category, a string made of a C string (its handle, 0 when there is no memory), the
  parser of the catalogue, and the billing call.\<close>

record shop_game =
  sg_count :: "memory \<Rightarrow> u32 \<Rightarrow> u32 \<Rightarrow> u32 \<times> memory"
  sg_string :: "memory \<Rightarrow> bytes \<Rightarrow> u32 \<times> memory"
  sg_parse :: "memory \<Rightarrow> u32 \<Rightarrow> u32 \<Rightarrow> memory"
  sg_billing :: "memory \<Rightarrow> bytes \<Rightarrow> memory"

definition resolve_versioned_guest_api :: "so_image \<Rightarrow> memory \<Rightarrow> shop \<Rightarrow> bool \<times> shop" where
  "resolve_versioned_guest_api img m s =
     (let s1 = s\<lparr>sp_slot := or_null (guest_pointer img 0x0134f728 4)\<rparr>
      in case (guest_pointer img 0x0134f728 4, guest_pointer img 0x01378508 4, guest_pointer img 0x003986d4 4,
               guest_pointer img 0x0037d488 4, guest_pointer img 0x01128de8 4) of
           (Some _, Some _, Some parser, Some counter, Some constructor) \<Rightarrow>
             if ld32 m parser \<noteq> 0xe59fcfa0 \<or> ld32 m counter \<noteq> 0xe59f308c \<or> ld32 m constructor \<noteq> 0xe92d4070
             then (False, s1)
             else (True, s1\<lparr>sp_parser := parser, sp_counter := counter, sp_constructor := constructor\<rparr>)
         | _ \<Rightarrow> (False, s1))"

definition x86_store_signatures :: "(u32 \<times> bytes) list" where
  "x86_store_signatures =
     [(0x004b5680, [0x8d, 0x4c, 0x24, 0x04, 0x83, 0xe4, 0xf0, 0xff, 0x71, 0xfc, 0x55, 0x89, 0xe5, 0x57, 0x56, 0x8d]),
      (0x004bcec0, [0x56, 0x53, 0xe8, 0x9c, 0xd3, 0xc2, 0xff, 0x81, 0xc3, 0x15, 0x6b, 0x9d, 0x01, 0x8d, 0x64, 0x24]),
      (0x01993650, [0x56, 0xb8, 0xff, 0xff, 0xff, 0xff, 0x53, 0xe8, 0x07, 0x6c, 0x75, 0xfe, 0x81, 0xc3, 0x80, 0x03]),
      (0x004bb451, [0x89, 0xb3, 0x74, 0x81, 0x01, 0x00]), (0x01008e62, [0x8b, 0x83, 0xa0, 0x24, 0x04, 0x00])]"

definition x86_resolve_versioned_guest_api :: "so_image \<Rightarrow> memory \<Rightarrow> shop \<Rightarrow> bool \<times> shop" where
  "x86_resolve_versioned_guest_api img m s =
     (let s1 = s\<lparr>sp_slot := or_null (guest_pointer img 0x01eabb50 4)\<rparr>
      in if guest_pointer img 0x01eabb50 4 = None \<or> guest_pointer img 0x01ed5e7c 4 = None
           \<or> \<not> list_all (code_is img m) x86_store_signatures
         then (False, s1)
         else (True, s1\<lparr>sp_parser := or_null (guest_pointer img 0x004b5680 16),
                        sp_counter := or_null (guest_pointer img 0x004bcec0 16),
                        sp_constructor := or_null (guest_pointer img 0x01993650 16)\<rparr>))"

text \<open>\<open>billing\<close>: the game's function and its class are there; \<open>bundle_ok\<close>: the request's bundle could be made;
  \<open>iab_vma\<close>: the slot of the in-app store, by build.  \<open>catalog\<close> and \<open>items\<close> are what \<open>read_versioned_asset\<close> gave.\<close>

definition shop_item_count :: "so_image \<Rightarrow> u32 \<Rightarrow> memory \<Rightarrow> u32" where
  "shop_item_count img iab_vma m =
     (let store = (case guest_pointer img iab_vma 4 of None \<Rightarrow> 0 | Some a \<Rightarrow> ld32 m a)
      in if store = 0 then 0 else ld32 m (store + 0x54))"

definition asm2_shop_compat_initialize ::
  "shop_game \<Rightarrow> so_image \<Rightarrow> u32 \<Rightarrow> (shop \<Rightarrow> bool \<times> shop) \<Rightarrow> bool \<Rightarrow> bool \<Rightarrow> bytes option \<Rightarrow> bytes option
     \<Rightarrow> shop \<Rightarrow> memory \<Rightarrow> int \<times> shop \<times> memory" where
  "asm2_shop_compat_initialize game img iab_vma resolve billing bundle_ok catalog items s m =
     (let s1 = s\<lparr>sp_state := - 1, sp_ready := 0, sp_last := int32_min\<rparr>
      in if \<not> billing then (-1, s1, m)
         else case resolve s1 of (resolved, s2) \<Rightarrow>
           if \<not> resolved then (-1, s2, m)
           else case (catalog, items) of
             (Some c, Some i) \<Rightarrow>
               (let s3 = s2\<lparr>sp_catalog := Some c\<rparr>
                in if \<not> bundle_ok then (-1, s3, m)
                   else let m1 = sg_billing game m i
                     in if shop_item_count img iab_vma m1 \<noteq> 18 then (-1, s3, m1) else (0, s3\<lparr>sp_state := 0\<rparr>, m1))
           | _ \<Rightarrow> (-1, s2\<lparr>sp_catalog := None\<rparr>, m))"

section \<open>The watch\<close>

text \<open>What a frame does: nothing, find the game's own catalogue, or hand over ours, with what came of it.\<close>

datatype shop_action = Waits | Native_found | No_string | Parse_failed | Parsed

definition manager_at :: "shop \<Rightarrow> memory \<Rightarrow> u32" where "manager_at s m = ld32 m (sp_slot s)"

text \<open>The manager is complete: 50 descriptors and a request.\<close>

definition manager_complete :: "memory \<Rightarrow> u32 \<Rightarrow> bool" where
  "manager_complete m manager \<longleftrightarrow> ld32 m (manager + 0x40) = 50 \<and> ld32 m (manager + 0x44) \<noteq> 0"

definition manager_state :: "memory \<Rightarrow> u32 \<Rightarrow> u32" where "manager_state m manager = ld32 m (manager + 0x48)"

definition note_state :: "u32 \<Rightarrow> shop \<Rightarrow> shop" where
  "note_state st s = (if st \<noteq> sp_last s then s\<lparr>sp_last := st, sp_ready := 0\<rparr> else s)"

definition hand_over :: "shop_game \<Rightarrow> bytes \<Rightarrow> u32 \<Rightarrow> shop \<Rightarrow> memory \<Rightarrow> shop_action \<times> shop \<times> memory" where
  "hand_over game catalog manager s m =
     (case sg_string game m catalog of (text, m1) \<Rightarrow>
        if text = 0 then (No_string, s\<lparr>sp_string := text, sp_state := - 1\<rparr>, m1)
        else let s1 = s\<lparr>sp_string := text\<rparr>; m2 = sg_parse game m1 manager text
          in case sg_count game m2 manager 1 of (suits, m3) \<Rightarrow>
             case sg_count game m3 manager 2 of (items, m4) \<Rightarrow>
               if suits = 0 \<and> items = 0 then (Parse_failed, s1\<lparr>sp_state := - 1\<rparr>, m4)
               else (Parsed, s1\<lparr>sp_state := 1\<rparr>, st32 m4 (manager + 0x48) 5))"

definition asm2_shop_compat_tick :: "shop_game \<Rightarrow> shop \<Rightarrow> memory \<Rightarrow> shop_action \<times> shop \<times> memory" where
  "asm2_shop_compat_tick game s m =
     (case sp_catalog s of
        None \<Rightarrow> (Waits, s, m)
      | Some catalog \<Rightarrow>
          if sp_state s \<noteq> 0 \<or> sp_slot s = 0 then (Waits, s, m)
          else let manager = manager_at s m; st = manager_state m manager
            in if manager = 0 then (Waits, s\<lparr>sp_ready := 0\<rparr>, m)
               else let s1 = note_state st s
                 in if \<not> manager_complete m manager then (Waits, s1\<lparr>sp_ready := 0\<rparr>, m)
                    else let s2 = s1\<lparr>sp_ready := sp_ready s1 + 1\<rparr>
                      in if 0 \<le>s st \<and> st <s 3 then (Waits, s2, m)
                         else case sg_count game m manager 1 of (suits, m1) \<Rightarrow>
                              case sg_count game m1 manager 2 of (items, m2) \<Rightarrow>
                                if suits \<noteq> 0 \<or> items \<noteq> 0 then (Native_found, s2\<lparr>sp_state := 1\<rparr>, m2)
                                else if st \<noteq> - 3 \<and> sp_ready s2 < 180 then (Waits, s2, m2)
                                else hand_over game catalog manager s2 m2)"

section \<open>The last resort\<close>

text \<open>What a frame sees of the manager: its state, when it is complete.\<close>

definition seen :: "shop \<Rightarrow> memory \<Rightarrow> u32 option" where
  "seen s m = (let manager = manager_at s m
     in if manager \<noteq> 0 \<and> manager_complete m manager then Some (manager_state m manager) else None)"

text \<open>Frames, with what the game does before each; the newest is first in the record.\<close>

fun shop_run ::
  "shop_game \<Rightarrow> (memory \<Rightarrow> memory) list \<Rightarrow> (u32 option \<times> shop_action) list \<Rightarrow> shop \<Rightarrow> memory
     \<Rightarrow> (u32 option \<times> shop_action) list \<times> shop \<times> memory" where
  "shop_run game [] past s m = (past, s, m)"
| "shop_run game (g # gs) past s m =
     (case asm2_shop_compat_tick game s (g m) of (act, s1, m1) \<Rightarrow>
        shop_run game gs ((seen s (g m), act) # past) s1 m1)"

definition hands_over :: "shop_action \<Rightarrow> bool" where
  "hands_over act \<longleftrightarrow> act \<in> {No_string, Parse_failed, Parsed}"

text \<open>The frames just before were all complete and in the state that was noted, as many as are counted.\<close>

definition steady :: "(u32 option \<times> shop_action) list \<Rightarrow> shop \<Rightarrow> bool" where
  "steady past s \<longleftrightarrow> unat (sp_ready s) \<le> List.length past
     \<and> (\<forall>k < unat (sp_ready s). fst (past ! k) = Some (sp_last s))"

text \<open>The newest frame had reason to hand over the catalogue; every frame that did had.\<close>

definition had_reason :: "(u32 option \<times> shop_action) list \<Rightarrow> bool" where
  "had_reason frames \<longleftrightarrow>
     (\<exists>st. fst (hd frames) = Some st \<and> (st <s 0 \<or> 3 \<le>s st)
        \<and> (st = - 3 \<or> (180 \<le> List.length frames \<and> (\<forall>k < 180. fst (frames ! k) = Some st))))"

definition justified :: "(u32 option \<times> shop_action) list \<Rightarrow> bool" where
  "justified past \<longleftrightarrow> (\<forall>i < List.length past. hands_over (snd (past ! i)) \<longrightarrow> had_reason (drop i past))"

lemma justified_Cons:
  "justified (p # past) \<longleftrightarrow> (hands_over (snd p) \<longrightarrow> had_reason (p # past)) \<and> justified past"
  by (auto simp: justified_def less_Suc_eq_0_disj)

text \<open>As long as the watch is on, nothing has been handed over.\<close>

definition watch_inv :: "(u32 option \<times> shop_action) list \<Rightarrow> shop \<Rightarrow> bool" where
  "watch_inv past s \<longleftrightarrow> (sp_state s = 0 \<longrightarrow> sp_catalog s \<noteq> None \<and> sp_slot s \<noteq> 0 \<and> steady past s
        \<and> filter (\<lambda>p. hands_over (snd p)) past = [])
     \<and> justified past \<and> List.length (filter (\<lambda>p. hands_over (snd p)) past) \<le> 1"

lemma steady_counted:
  assumes "steady past s"
  shows "steady ((Some st, act) # past) ((note_state st s)\<lparr>sp_ready := sp_ready (note_state st s) + 1\<rparr>)"
proof (cases "st = sp_last s")
  case False
  then show ?thesis by (simp add: steady_def note_state_def)
next
  case True
  have "unat (sp_ready s + 1) \<le> Suc (unat (sp_ready s))"
    by (cases "sp_ready s + 1 = 0") (simp_all add: unatSuc add.commute)
  then show ?thesis
    using assms True by (auto simp: steady_def note_state_def nth_Cons' intro: order_trans)
qed

lemma steady_reset: "sp_ready s = 0 \<Longrightarrow> steady past s"
  by (simp add: steady_def)

lemma steady_reason:
  assumes "steady frames s" "\<not> sp_ready s < 180" "fst (hd frames) = Some st" "sp_last s = st" "st <s 0 \<or> 3 \<le>s st"
  shows "had_reason frames"
proof -
  have "180 \<le> unat (sp_ready s)" using assms(2) by (simp add: word_less_nat_alt linorder_not_less)
  with assms show ?thesis unfolding had_reason_def steady_def by fastforce
qed

lemma hand_over_result:
  assumes "hand_over game catalog manager s m = (act, s', m')"
  shows "hands_over act" and "sp_state s' \<noteq> 0"
  using assms by (auto simp: hand_over_def Let_def hands_over_def split: if_splits prod.splits)

lemma signed_outside: "\<not> (0 \<le>s st \<and> st <s 3) \<longleftrightarrow> (st <s 0 \<or> 3 \<le>s (st :: u32))"
  by (auto simp: word_sle_eq word_sless_alt)

lemma watch_step:
  assumes inv: "watch_inv past s" and tick: "asm2_shop_compat_tick game s m = (act, s1, m1)"
  shows "watch_inv ((seen s m, act) # past) s1"
proof (cases "sp_state s = 0")
  case False
  then have "act = Waits" "s1 = s" using tick by (auto simp: asm2_shop_compat_tick_def split: option.splits)
  with False inv show ?thesis by (simp add: watch_inv_def justified_Cons hands_over_def)
next
  case on: True
  then obtain catalog where c: "sp_catalog s = Some catalog" "sp_slot s \<noteq> 0" and steady: "steady past s"
    and none: "filter (\<lambda>p. hands_over (snd p)) past = []" and just: "justified past"
    using inv by (auto simp: watch_inv_def)
  have waits: "watch_inv ((seen s m, act) # past) s1"
    if "\<not> hands_over act" "sp_state s1 = 0 \<longrightarrow> sp_catalog s1 \<noteq> None \<and> sp_slot s1 \<noteq> 0 \<and> steady ((seen s m, act) # past) s1"
    using that none just by (simp add: watch_inv_def justified_Cons)
  let ?man = "manager_at s m"
  let ?st = "manager_state m ?man"
  let ?s2 = "(note_state ?st s)\<lparr>sp_ready := sp_ready (note_state ?st s) + 1\<rparr>"
  have same: "sp_catalog (note_state x s) = sp_catalog s" "sp_slot (note_state x s) = sp_slot s"
    "sp_state (note_state x s) = sp_state s" "sp_last (note_state x s) = x" for x
    by (auto simp: note_state_def)
  show ?thesis
  proof (cases "?man \<noteq> 0 \<and> manager_complete m ?man")
    case False
    then have "act = Waits" "sp_ready s1 = 0" "sp_catalog s1 = sp_catalog s" "sp_slot s1 = sp_slot s"
      using tick on c by (auto simp: asm2_shop_compat_tick_def Let_def same split: if_splits)
    then show ?thesis using c by (intro waits) (simp_all add: hands_over_def steady_reset)
  next
    case True
    then have seen: "seen s m = Some ?st" by (simp add: seen_def Let_def)
    have counted: "steady ((seen s m, act) # past) ?s2" unfolding seen by (rule steady_counted [OF steady])
    obtain suits m2 items m3 where
      q: "sg_count game m ?man 1 = (suits, m2)" "sg_count game m2 ?man 2 = (items, m3)" by fastforce
    consider "act = Waits" "s1 = ?s2" | "act = Native_found" "sp_state s1 = 1"
      | "?st <s 0 \<or> 3 \<le>s ?st" "?st = - 3 \<or> \<not> sp_ready ?s2 < 180"
        "hand_over game catalog ?man ?s2 m3 = (act, s1, m1)"
      using tick on c True q signed_outside [of ?st]
      by (auto simp: asm2_shop_compat_tick_def Let_def split: if_splits)
    then show ?thesis
    proof cases
      case 1
      with c counted same show ?thesis by (intro waits) (simp_all add: hands_over_def)
    next
      case 2
      then show ?thesis by (intro waits) (simp_all add: hands_over_def)
    next
      case 3
      note over = hand_over_result [OF 3(3)]
      have "had_reason ((seen s m, act) # past)"
      proof (cases "?st = - 3")
        case True
        with 3(1) seen show ?thesis unfolding had_reason_def by auto
      next
        case False
        with 3(1,2) seen show ?thesis by (intro steady_reason [OF counted]) (simp_all add: same)
      qed
      with over none just show ?thesis by (simp add: watch_inv_def justified_Cons)
    qed
  qed
qed

lemma run_watch:
  assumes "watch_inv past s" and "shop_run game gs past s m = (past', s', m')"
  shows "watch_inv past' s'"
  using assms
proof (induction gs arbitrary: past s m)
  case (Cons g gs)
  obtain act s1 m1 where "asm2_shop_compat_tick game s (g m) = (act, s1, m1)" by (rule prod_cases3)
  with Cons.IH [OF watch_step [OF Cons.prems(1) this], of m1] Cons.prems(2) show ?case by simp
qed simp

lemma initialized_shop:
  assumes "asm2_shop_compat_initialize game img iab_vma (resolve_versioned_guest_api img m0) billing bundle_ok catalog items s0 m0
       = (0, s, m)"
  shows "watch_inv [] s"
proof -
  have "sp_slot s = or_null (guest_pointer img 0x0134f728 4) \<and> guest_pointer img 0x0134f728 4 \<noteq> None"
    "sp_catalog s \<noteq> None" "sp_ready s = 0"
    using assms
    by (auto simp: asm2_shop_compat_initialize_def Let_def resolve_versioned_guest_api_def
        split: if_splits option.splits prod.splits)
  moreover from this(1) have "sp_slot s \<noteq> 0"
    by (auto simp: or_null_def guest_pointer_def split: option.splits if_splits)
  ultimately show ?thesis by (simp add: watch_inv_def steady_reset justified_def)
qed

text \<open>C40. The catalogue is the last resort: after a successful start, whatever the game does between the frames and
  in the calls, ours is handed over at most once, and only in a frame in which the store manager is complete and in
  no state of its own work, and either has given up (state -3) or has been complete and in that same state for the
  last 180 frames.\<close>

theorem catalogue_is_last_resort:
  assumes "asm2_shop_compat_initialize game img iab_vma (resolve_versioned_guest_api img m0) billing bundle_ok catalog items s0 m0
       = (0, s, m)"
    and "shop_run game gs [] s m = (frames, s', m')"
  shows "List.length (filter (\<lambda>p. hands_over (snd p)) frames) \<le> 1
     \<and> (\<forall>i < List.length frames. hands_over (snd (frames ! i)) \<longrightarrow> had_reason (drop i frames))"
  using run_watch [OF initialized_shop [OF assms(1)] assms(2)] by (simp add: watch_inv_def justified_def)

text \<open>A game whose manager has given up, and has nothing to sell.\<close>

definition empty_game :: shop_game where
  "empty_game = \<lparr>sg_count = (\<lambda>m manager category. (0, m)), sg_string = (\<lambda>m text. (7, m)),
     sg_parse = (\<lambda>m manager text. m), sg_billing = (\<lambda>m items. m)\<rparr>"

definition shop_memory :: memory where
  "shop_memory = foldr (\<lambda>(a, v) m. st32 m a v)
     [(0x103986d4, 0xe59fcfa0), (0x1037d488, 0xe59f308c), (0x11128de8, 0xe92d4070), (0x11378508, 0x5000), (0x5054, 18),
      (0x1134f728, 0x6000), (0x6040, 50), (0x6044, 1), (0x6048, - 3)] (\<lambda>_. 0)"

definition closed_shop :: shop where
  "closed_shop = \<lparr>sp_slot = 0, sp_constructor = 0, sp_parser = 0, sp_counter = 0, sp_catalog = None, sp_string = 0,
     sp_ready = 0, sp_state = 0, sp_last = 0\<rparr>"

lemma shop_memory_words:
  "ld32 shop_memory 0x103986d4 = 0xe59fcfa0" "ld32 shop_memory 0x1037d488 = 0xe59f308c"
  "ld32 shop_memory 0x11128de8 = 0xe92d4070" "ld32 shop_memory 0x11378508 = 0x5000" "ld32 shop_memory 0x5054 = 18"
  by code_simp+

lemma known_pointers:
  "guest_pointer known_image 0x0134f728 4 = Some 0x1134f728" "guest_pointer known_image 0x01378508 4 = Some 0x11378508"
  "guest_pointer known_image 0x003986d4 4 = Some 0x103986d4" "guest_pointer known_image 0x0037d488 4 = Some 0x1037d488"
  "guest_pointer known_image 0x01128de8 4 = Some 0x11128de8"
  by code_simp+

theorem catalogue_is_last_resort_witness:
  "\<exists>s m frames s' m'.
     asm2_shop_compat_initialize empty_game known_image 0x01378508 (resolve_versioned_guest_api known_image shop_memory)
       True True (Some []) (Some []) closed_shop shop_memory = (0, s, m)
   \<and> shop_run empty_game [id, id, id] [] s m = (frames, s', m')
   \<and> List.length (filter (\<lambda>p. hands_over (snd p)) frames) \<le> 1"
proof -
  obtain s m where init: "asm2_shop_compat_initialize empty_game known_image 0x01378508
      (resolve_versioned_guest_api known_image shop_memory) True True (Some []) (Some []) closed_shop shop_memory = (0, s, m)"
    by (simp add: asm2_shop_compat_initialize_def resolve_versioned_guest_api_def Let_def known_pointers shop_memory_words
        shop_item_count_def empty_game_def)
  obtain frames s' m' where run: "shop_run empty_game [id, id, id] [] s m = (frames, s', m')" by (rule prod_cases3)
  from catalogue_is_last_resort [OF init run] init run show ?thesis by blast
qed

end
