(* ===== verification/Spec2Isabelle.thy ===== *)
theory Spec2Isabelle
  imports Asm2_InputProps Asm2_StorageRoot Asm2_BridgeProps Asm2_Once Asm2_AudioTeardown Asm2_ElfProps
    Asm2_JniBundles Asm2_JniTable Asm2_CaptureProps Asm2_StdioCalls Asm2_HostPaths Asm2_GameCallProps
    Asm2_Lifecycle Asm2_ElfX86 Asm2_Shop
begin

text \<open>
  A verification of the native loader in \<open>src/asm2_127\<close>, which runs the Android build of a game on a Linux
  handheld without Android.  The game is a shared library for ARM or i386 that was compiled against Bionic, the
  JNI and OpenSL ES; the loader maps it, links its imports to functions of its own, and answers all it asks for.

  How the program works.  \<open>main.c\<close> decides what is left of the first-run dialogue, loads and links the library
  (\<open>so_util.c\<close>, or \<open>so_util_x86.c\<close>), checks and patches the one version it knows (\<open>installer_compat.c\<close>,
  \<open>audio_compat.c\<close>, \<open>startup_compat.c\<close>, \<open>shop_compat.c\<close>), hands the game a JNI environment (\<open>jni_bridge.c\<close>)
  whose calls \<open>android_callbacks.c\<close> answers, and runs frames, in each of which \<open>input.c\<close> turns SDL events into
  calls of the game.  The game's threads, mutexes and conditions go through \<open>pthread_bridge.c\<close>, its files and
  streams through \<open>bionic_compat.c\<close>, its sound through \<open>opensl_bridge.c\<close>; \<open>capture_x86.c\<close> takes pictures for
  testing.  A request of the game to leave or restart ends the loop.

  The theories, in the order of their imports:

  \<^item> \<open>Asm2_Prelude\<close>: the machine types, conversions of C, C strings as lists of bytes without their NUL,
    little-endian words, printing of numbers.

  \<^item> \<open>Asm2_FirstRun\<close>, \<open>Asm2_Input\<close> (\<open>first_accept.c\<close>, \<open>input.c\<close>, parts of \<open>main.c\<close>): layout, resume policy and
    every function of the input component; the state is the record of \<open>struct asm2_input\<close> with the log of the
    callbacks made.  \<open>Asm2_InputSafety\<close> has the invariant that the guest's controls, as computed from the log
    alone, are the tables \<open>input.c\<close> keeps; \<open>Asm2_InputProps\<close> what follows: nothing stays held after shutdown, and
    touches lie inside the drawable.

  \<^item> \<open>Asm2_AtomicFile\<close>, \<open>Asm2_SharedStore\<close>, \<open>Asm2_StoreFormat\<close>, \<open>Asm2_StoreProps\<close>, \<open>Asm2_Preferences\<close>,
    \<open>Asm2_StorageRoot\<close> (\<open>android_callbacks.c\<close>): the file that is replaced by renaming, the store of keys and
    values with its checksum, the preferences inside it, and the start.  Every system call takes its answer from a
    list in the record \<open>world\<close>; an answer may fail the call, shorten it, or end the process there.  The lemmas
    show crash consistency, the round trip of the format, that one changed byte is noticed, that operations refine
    a map, and that a corrupt file is put aside without loss.

  \<^item> \<open>Asm2_GameCalls\<close>, \<open>Asm2_GameCallProps\<close> (\<open>android_callbacks.c\<close>): the state that the callbacks share and the
    handler of the game's Java calls, in the sections in which it tests them; which call can write which key, and
    that the public store does not show the preferences.

  \<^item> \<open>Asm2_Lifecycle\<close> (\<open>main.c\<close>, \<open>android_callbacks.c\<close>): the end of a session as steps of main and of any thread
    that asks to leave; the game is left once, and what a request made too late does.

  \<^item> \<open>Asm2_BridgeRegistry\<close>, \<open>Asm2_RegistryInv\<close>, \<open>Asm2_PthreadBridge\<close>, \<open>Asm2_BridgeSafety\<close>, \<open>Asm2_BridgeCalls\<close>,
    \<open>Asm2_BridgeProps\<close>, \<open>Asm2_Once\<close> (\<open>pthread_bridge.c\<close>): wrappers in a heap, chained in 256 buckets; every
    operation on mutexes, conditions, semaphores, threads, keys and attributes over host objects with the
    behaviour POSIX documents; and \<open>pthread_once\<close> as a step relation.  No call is undefined, a destroyed handle
    never becomes valid again, the owner the bridge records is the host's, and the handoff gives a mutex back.

  \<^item> \<open>Asm2_AudioQueue\<close>, \<open>Asm2_AudioPlayer\<close>, \<open>Asm2_AudioProps\<close>, \<open>Asm2_AudioTeardown\<close> (\<open>opensl_bridge.c\<close>): the
    buffer queue between guest, device and worker, and the life of a player, as steps between the points where
    the code holds its locks.  Sound is played in order, a dry queue calls back, a failed start leaves nothing,
    and a player is freed once, after its last use.

  \<^item> \<open>Asm2_ElfLoader\<close>, \<open>Asm2_ElfSymbols\<close>, \<open>Asm2_ElfPasses\<close>, \<open>Asm2_ElfProps\<close> (\<open>so_util.c\<close>) and \<open>Asm2_ElfX86\<close>
    (\<open>so_util_x86.c\<close>): the file is a list of bytes whose reads may fail, memory a total map of 32-bit addresses.
    A loaded image is what the segments say, linking fills every slot whatever the order of the entries, and on
    i386 no import stays open.

  \<^item> \<open>Asm2_GamePatches\<close>, \<open>Asm2_Shop\<close> (\<open>installer_compat.c\<close>, \<open>audio_compat.c\<close>, \<open>startup_compat.c\<close>,
    \<open>shop_compat.c\<close>): what must be at fixed addresses, what is written there, and what is done in each frame.  A
    call that is put off comes back as it was; the shop's catalogue is a last resort.

  \<^item> \<open>Asm2_JniText\<close>, \<open>Asm2_JniHandles\<close>, \<open>Asm2_JniObjects\<close>, \<open>Asm2_JniDispatch\<close>, \<open>Asm2_JniEnv\<close> (\<open>jni_bridge.c\<close>):
    text, handle tables, and every function of the environment in a state monad over the record \<open>jni\<close>, whose
    answers include the accesses the C code does not guard.  \<open>Asm2_JniInv\<close>, \<open>Asm2_JniFrame\<close>, \<open>Asm2_JniCalls\<close>,
    \<open>Asm2_JniProps\<close>, \<open>Asm2_JniNatives\<close>, \<open>Asm2_JniBundles\<close>, \<open>Asm2_JniTable\<close> have the invariant over whole histories
    of calls and its consequences: interned handles are canonical, strings and arrays come back, the registered
    natives and the bundles refine maps, and the function table is what the guest expects at each position.

  \<^item> \<open>Asm2_Sha256\<close>, \<open>Asm2_Capture\<close>, \<open>Asm2_CaptureProps\<close> (\<open>capture_x86.c\<close>): hashing in pieces, and a picture that
    is whole or not there, with the digest of what was written.

  \<^item> \<open>Asm2_Streams\<close>, \<open>Asm2_StreamSafety\<close>, \<open>Asm2_StreamSteps\<close>, \<open>Asm2_StreamEvents\<close>, \<open>Asm2_StreamProps\<close>,
    \<open>Asm2_StdioCalls\<close>, \<open>Asm2_HostPaths\<close> (\<open>bionic_compat.c\<close>): the wrappers of streams as steps of threads, with the
    close that waits; the stdio functions; and the paths, structures and tables that are translated.

  The interfaces are locales, each interpreted on the model's definitions where they are provided:
  \<open>level_mirror\<close> (a table that mirrors what the guest was told; controller values and keys),
  \<open>kv_store\<close> (what the preferences need of a store; the DataSharing store),
  \<open>handle_table\<close> (what a registry of handles promises; the wrappers of the pthread bridge),
  \<open>slot_pass\<close> (a pass over relocation entries whose steps write their own slots; relocation and resolution of both
  loaders), and \<open>frame\<close> with \<open>frame_natives\<close> (what the JNI operations leave alone).

  Loops, bounds and examples.  A recursion over lists or counted tables is structural or has a measure.  A loop
  whose end depends on memory, such as a walk along a chain or to the NUL of a string, or the loop of the
  hash, is a partial function with values in \<open>option\<close>; that it ends is proved from the invariant: the chains have
  a rank that falls along them, and the hash consumes its input.  A call that the code does not protect from a bad
  access has \<open>None\<close> or a value of its own for it, and where the code is safe this is a theorem.  Integers have the
  width of the code and wrap as there.  Witnesses use small histories at example addresses, evaluated by the
  simplifier.

  Threads.  Where the code takes a lock for the whole of an operation, the operation is one step; where it gives
  the lock up, waits or uses atomics (\<open>pthread_once\<close>, the audio queue, Destroy, streams, leaving the game), the
  steps are those between, in any order that the guards allow, with spurious wake-ups.

  What is not modelled.  The rest of \<open>main.c\<close> is the set-up of the process, diagnostics and calls of the game's
  functions, and \<open>imports.c\<close> a table of names.  \<open>platform_shims.c\<close>, \<open>video.c\<close> and \<open>softfp_bridge.c\<close> pass their
  arguments on to SDL, EGL, GL and the mathematics library.  \<open>x86_runtime_compat.c\<close> and the assembly files act on
  machine registers.  \<open>util.c\<close> and \<open>error.c\<close> print.  The instruction cache, page protection beyond its requests,
  what is printed, and the value of \<open>errno\<close> where no caller reads it are left out throughout.  What the patched code
  of the game does is not in the repository.  The tests, tools, packaging and \<open>third_party\<close> are not part of the
  program.
\<close>

end
